(* ===== verification/Stg_Prelude.thy ===== *)
theory Stg_Prelude
  imports Main "HOL-Library.Word" "HOL-Library.Monad_Syntax"
    "HOL-Library.Signed_Division" "HOL-Library.Char_ord" "HOL-Library.List_Lexorder"
begin

text \<open>
  Shared vocabulary of the development: the machine integer types the C++ code uses, the
  wrap-around of signed arithmetic, the C library string routines the sources call
  (\<open>strcasecmp\<close>, \<open>tolower\<close>, decimal printing), the list idioms behind
  \<open>std::find\<close> / \<open>erase\<close> / assignment through an iterator, and the
  non-recursive mutex. Operations that may block for ever return in the option type:
  \<open>None\<close> is a call that never returns.
\<close>

unbundle bit_operations_syntax

named_theorems stg_defs \<open>definitions unfolded by the component proofs\<close>
named_theorems lock_simps \<open>how operations treat the mutex\<close>

subsection \<open>Machine integers\<close>

type_synonym u8 = "8 word"
type_synonym u16 = "16 word"
type_synonym u32 = "32 word"
type_synonym u64 = "64 word"
type_synonym time_t = int

text \<open>
  Values of type \<open>int\<close> and \<open>int64_t\<close> are mathematical integers in the range of
  the type; results of signed arithmetic are brought back by two's complement wrap-around
  (what the supported compilers produce; the standard leaves signed overflow undefined).
\<close>

definition i32 :: "int \<Rightarrow> int" where
  "i32 x = signed_take_bit 31 x"

definition i64 :: "int \<Rightarrow> int" where
  "i64 x = signed_take_bit 63 x"

lemma i32_id: "- (2 ^ 31) \<le> x \<Longrightarrow> x < 2 ^ 31 \<Longrightarrow> i32 x = x"
  unfolding i32_def by (rule signed_take_bit_int_eq_self) simp_all

lemma i64_id: "- (2 ^ 63) \<le> x \<Longrightarrow> x < 2 ^ 63 \<Longrightarrow> i64 x = x"
  unfolding i64_def by (rule signed_take_bit_int_eq_self) simp_all

lemma i32_range: "- (2 ^ 31) \<le> i32 x \<and> i32 x < 2 ^ 31"
  unfolding i32_def
  using signed_take_bit_int_greater_eq_minus_exp [of 31 x] signed_take_bit_int_less_exp [of 31 x]
  by simp

lemma i64_range: "- (2 ^ 63) \<le> i64 x \<and> i64 x < 2 ^ 63"
  unfolding i64_def
  using signed_take_bit_int_greater_eq_minus_exp [of 63 x] signed_take_bit_int_less_exp [of 63 x]
  by simp

lemma sint64_of_small: "uint w < 2 ^ 63 \<Longrightarrow> sint (w :: u64) = uint w"
  by (simp add: sint_uint signed_take_bit_int_eq_self_iff)
    (rule order_trans [OF _ uint_ge_0], simp)

lemma mod_circular:
  fixes z n :: int
  assumes "- n \<le> z" and "z < n"
  shows "z mod n = (if 0 \<le> z then z else z + n)"
proof (cases "0 \<le> z")
  case True
  with assms show ?thesis by simp
next
  case False
  have "z mod n = (z + n) mod n" by simp
  also have "\<dots> = z + n" using assms False by (intro mod_pos_pos_trivial) simp_all
  finally show ?thesis using False by simp
qed

lemma less_div_iff_int:
  fixes n m k :: int
  assumes "0 < m"
  shows "k < n div m \<longleftrightarrow> (k + 1) * m \<le> n"
proof
  assume "k < n div m"
  then have "(k + 1) * m \<le> n div m * m" using assms by (intro mult_right_mono) simp_all
  also have "\<dots> \<le> n"
    using pos_mod_sign [OF assms, of n] div_mult_mod_eq [of n m] by linarith
  finally show "(k + 1) * m \<le> n" .
next
  assume "(k + 1) * m \<le> n"
  then have "(k + 1) * m div m \<le> n div m" using assms by (rule zdiv_mono1)
  then show "k < n div m" using assms by simp
qed

text \<open>\<open>htonl\<close> / \<open>ntohl\<close> on a little-endian host reverse the four bytes.\<close>

definition htonl :: "u32 \<Rightarrow> u32" where
  "htonl w = push_bit 24 (w AND 0xFF) OR push_bit 8 (w AND 0xFF00)
     OR drop_bit 8 (w AND 0xFF0000) OR drop_bit 24 (w AND 0xFF000000)"

definition ntohs :: "u16 \<Rightarrow> u16" where
  "ntohs w = push_bit 8 (w AND 0xFF) OR drop_bit 8 (w AND 0xFF00)"

lemma byte_masks:
  "(0xFF :: u32) = mask 8" "(0xFF00 :: u32) = push_bit 8 (mask 8)"
  "(0xFF0000 :: u32) = push_bit 16 (mask 8)" "(0xFF000000 :: u32) = push_bit 24 (mask 8)"
  by (simp_all add: mask_eq_exp_minus_1 push_bit_eq_mult)

lemma bit_htonl:
  "bit (htonl w) n \<longleftrightarrow>
     (if n < 8 then bit w (n + 24) else if n < 16 then bit w (n + 8)
      else if n < 24 then bit w (n - 8) else n < 32 \<and> bit w (n - 24))"
  unfolding htonl_def byte_masks by (auto simp: bit_simps add.commute dest: bit_imp_le_length)

lemma htonl_htonl [simp]: "htonl (htonl w) = w"
  by (rule bit_word_eqI) (auto simp: bit_htonl)

lemma htonl_and: "htonl (a AND b) = htonl a AND htonl b"
  by (rule bit_word_eqI) (auto simp: bit_htonl bit_simps)

lemma htonl_inject [simp]: "htonl a = htonl b \<longleftrightarrow> a = b"
  by (metis htonl_htonl)

subsection \<open>C strings\<close>

definition tolower_c :: "char \<Rightarrow> char" where
  "tolower_c c = (let n = of_char c :: nat in
     if 65 \<le> n \<and> n \<le> 90 then char_of (n + 32) else c)"

definition ToLower :: "string \<Rightarrow> string" where
  "ToLower s = map tolower_c s"

definition strcaseeq :: "string \<Rightarrow> string \<Rightarrow> bool" where
  "strcaseeq a b \<longleftrightarrow> map tolower_c a = map tolower_c b"

lemma strcaseeq_refl [simp]: "strcaseeq a a"
  by (simp add: strcaseeq_def)

text \<open>Text in single and in double quotation marks.\<close>

definition squote :: "string \<Rightarrow> string" where
  "squote s = CHR 0x27 # s @ [CHR 0x27]"

definition dquote :: "string \<Rightarrow> string" where
  "dquote s = CHR 0x22 # s @ [CHR 0x22]"

definition digit_char :: "nat \<Rightarrow> char" where
  "digit_char d = char_of (48 + d)"

fun show_nat :: "nat \<Rightarrow> string" where
  "show_nat n = (if n < 10 then [digit_char n] else show_nat (n div 10) @ [digit_char (n mod 10)])"

declare show_nat.simps [simp del]

definition show_int :: "int \<Rightarrow> string" where
  "show_int i = (if i < 0 then ''-'' @ show_nat (nat (- i)) else show_nat (nat i))"

fun join :: "string \<Rightarrow> string list \<Rightarrow> string" where
  "join sep [] = []"
| "join sep [x] = x"
| "join sep (x # xs) = x @ sep @ join sep xs"

subsection \<open>Sequences addressed through the first match\<close>

text \<open>
  \<open>std::find\<close> returns the first element equal to the probe; \<open>erase\<close> and assignment
  through the iterator then act on that one element only.
\<close>

primrec update_first :: "('a \<Rightarrow> bool) \<Rightarrow> ('a \<Rightarrow> 'a) \<Rightarrow> 'a list \<Rightarrow> 'a list" where
  "update_first P f [] = []"
| "update_first P f (x # xs) = (if P x then f x # xs else x # update_first P f xs)"

primrec remove_first :: "('a \<Rightarrow> bool) \<Rightarrow> 'a list \<Rightarrow> 'a list" where
  "remove_first P [] = []"
| "remove_first P (x # xs) = (if P x then xs else x # remove_first P xs)"

lemma length_update_first [simp]: "length (update_first P f xs) = length xs"
  by (induction xs) auto

lemma map_update_first:
  "(\<And>x. P x \<Longrightarrow> g (f x) = g x) \<Longrightarrow> map g (update_first P f xs) = map g xs"
  by (induction xs) auto

lemma set_remove_first_subset: "set (remove_first P xs) \<subseteq> set xs"
  by (induction xs) auto

lemma map_remove_first: "map f (remove_first (\<lambda>x. f x = k) xs) = remove1 k (map f xs)"
  by (induction xs) auto

lemma remove_first_none: "find P xs = None \<Longrightarrow> remove_first P xs = xs"
  by (induction xs) (auto split: if_splits)

lemma length_remove_first:
  "find P xs \<noteq> None \<Longrightarrow> length (remove_first P xs) = length xs - 1"
proof (induction xs)
  case (Cons x xs)
  then show ?case by (cases xs) (auto split: if_splits)
qed simp

lemma find_None_key: "find (\<lambda>x. f x = k) xs = None \<longleftrightarrow> k \<notin> set (map f xs)"
  by (auto simp: find_None_iff)

lemma find_Some_key: "find (\<lambda>x. f x = k) xs = Some y \<Longrightarrow> f y = k \<and> y \<in> set xs"
  by (induction xs) (auto split: if_splits)

lemma find_append_none:
  "find P xs = None \<Longrightarrow> find P (xs @ ys) = find P ys"
  by (induction xs) (auto split: if_splits)

lemma find_append_some:
  "find P xs = Some y \<Longrightarrow> find P (xs @ ys) = Some y"
  by (induction xs) (auto split: if_splits)

lemma find_update_first:
  "(\<And>x. g x = k' \<Longrightarrow> g (f x) = k') \<Longrightarrow>
   find (\<lambda>x. g x = k) (update_first (\<lambda>x. g x = k') f xs) =
     (if k = k' then map_option f (find (\<lambda>x. g x = k) xs) else find (\<lambda>x. g x = k) xs)"
  by (induction xs) auto

lemma find_remove_first_other:
  "k \<noteq> k' \<Longrightarrow> find (\<lambda>x. f x = k) (remove_first (\<lambda>x. f x = k') xs) = find (\<lambda>x. f x = k) xs"
  by (induction xs) auto

lemma find_remove_first_same:
  "distinct (map f xs) \<Longrightarrow> find (\<lambda>x. f x = k) (remove_first (\<lambda>x. f x = k) xs) = None"
  by (induction xs) (auto simp: find_None_iff image_iff)

lemma filter_dropWhile_not: "filter P (dropWhile (\<lambda>x. \<not> P x) xs) = filter P xs"
  by (induction xs) auto

text \<open>The position \<open>std::find\<close> stops at.\<close>

definition index_of :: "('a \<Rightarrow> bool) \<Rightarrow> 'a list \<Rightarrow> nat" where
  "index_of P xs = length (takeWhile (\<lambda>x. \<not> P x) xs)"

lemma remove_first_nth:
  "distinct (map f xs) \<Longrightarrow> i < length xs \<Longrightarrow>
   remove_first (\<lambda>x. f x = f (xs ! i)) xs = take i xs @ drop (Suc i) xs"
proof (induction xs arbitrary: i)
  case (Cons x xs)
  show ?case
  proof (cases i)
    case (Suc j)
    then have "f x \<noteq> f (xs ! j)" using Cons.prems by auto
    then show ?thesis using Suc Cons by simp
  qed simp
qed simp

lemma index_of_nth:
  "distinct (map f xs) \<Longrightarrow> i < length xs \<Longrightarrow> index_of (\<lambda>x. f x = f (xs ! i)) xs = i"
proof (induction xs arbitrary: i)
  case (Cons x xs)
  show ?case
  proof (cases i)
    case (Suc j)
    then have "f x \<noteq> f (xs ! j)" using Cons.prems by auto
    then show ?thesis using Suc Cons by (simp add: index_of_def)
  qed (simp add: index_of_def)
qed simp

lemma find_nth: "i < length xs \<Longrightarrow> find (\<lambda>x. f x = f (xs ! i)) xs \<noteq> None"
  by (metis (mono_tags, lifting) find_None_iff nth_mem)

lemma index_of_find:
  "map_option (\<lambda>_. xs ! index_of P xs) (find P xs) = find P xs"
  "index_of P xs < length xs \<longleftrightarrow> find P xs \<noteq> None"
  by (induction xs) (auto simp: index_of_def)

end
