(* ===== verification/Stg_Bytes.thy ===== *)
theory Stg_Bytes
  imports Stg_Prelude
begin

text \<open>
  Memory as lists of bytes: little-endian words in memory, \<open>memcpy\<close> into a buffer, C strings in byte buffers. A
  structure that is sent over the network is the list of its bytes; its fields are read and written at
  their offsets.
\<close>

type_synonym bytes = "u8 list"

subsection \<open>Words\<close>

definition le16 :: "u8 list \<Rightarrow> nat \<Rightarrow> u16" where
  "le16 d i = ucast (d ! i) OR push_bit 8 (ucast (d ! (i + 1)))"

definition join4 :: "u8 \<Rightarrow> u8 \<Rightarrow> u8 \<Rightarrow> u8 \<Rightarrow> u32" where
  "join4 a b c d = ucast a OR push_bit 8 (ucast b) OR push_bit 16 (ucast c) OR push_bit 24 (ucast d)"

definition le32 :: "u8 list \<Rightarrow> nat \<Rightarrow> u32" where
  "le32 d i = join4 (d ! i) (d ! (i + 1)) (d ! (i + 2)) (d ! (i + 3))"

definition word_bytes :: "nat \<Rightarrow> 'a::len word \<Rightarrow> bytes" where
  "word_bytes n w = map (\<lambda>i. ucast (drop_bit (8 * i) w)) [0..<n]"

lemma length_word_bytes [simp]: "length (word_bytes n w) = n"
  by (simp add: word_bytes_def)

lemma nth_word_bytes [simp]: "i < n \<Longrightarrow> word_bytes n w ! i = ucast (drop_bit (8 * i) w)"
  by (simp add: word_bytes_def)

lemma bit_join4:
  "bit (join4 a b c d) n \<longleftrightarrow>
    (if n < 8 then bit a n else if n < 16 then bit b (n - 8) else if n < 24 then bit c (n - 16)
     else n < 32 \<and> bit d (n - 24))"
  by (auto simp: join4_def bit_simps dest: bit_imp_le_length)

lemma join4_split: "join4 (ucast w) (ucast (drop_bit 8 w)) (ucast (drop_bit 16 w)) (ucast (drop_bit 24 w)) = w"
  by (rule bit_word_eqI) (simp add: bit_join4 bit_unsigned_iff bit_drop_bit_eq, linarith?)

lemma split_join4:
  "ucast (join4 a b c d) = a" "ucast (drop_bit 8 (join4 a b c d)) = b"
  "ucast (drop_bit 16 (join4 a b c d)) = c" "ucast (drop_bit 24 (join4 a b c d)) = d"
  by (rule bit_word_eqI; simp add: bit_unsigned_iff bit_drop_bit_eq bit_join4)+

lemma le32_bytes:
  assumes "i + 4 \<le> length d" "take 4 (drop i d) = word_bytes 4 (w :: u32)"
  shows "le32 d i = w"
proof -
  have "d ! (i + k) = ucast (drop_bit (8 * k) w)" if "k < 4" for k
    using assms that by (metis add_leD1 nth_drop nth_take nth_word_bytes)
  from this [of 0] this [of 1] this [of 2] this [of 3] show ?thesis
    by (simp add: le32_def join4_split)
qed

lemma word_bytes_le32:
  assumes "i + 4 \<le> length d"
  shows "word_bytes 4 (le32 d i) = take 4 (drop i d)"
proof -
  have "take 4 (drop i d) = [d ! i, d ! (i + 1), d ! (i + 2), d ! (i + 3)]"
    using assms by (intro nth_equalityI) (auto simp: less_Suc_eq numeral_eq_Suc)
  then show ?thesis
    by (simp add: word_bytes_def le32_def split_join4 upt_rec)
qed

subsection \<open>Buffers\<close>

text \<open>\<open>memcpy(mem + off, bs, length bs)\<close> and the bytes at an offset.\<close>

definition put_bytes :: "nat \<Rightarrow> bytes \<Rightarrow> bytes \<Rightarrow> bytes" where
  "put_bytes off bs mem = take off mem @ bs @ drop (off + length bs) mem"

definition get_bytes :: "nat \<Rightarrow> nat \<Rightarrow> bytes \<Rightarrow> bytes" where
  "get_bytes off n mem = take n (drop off mem)"

lemma length_put_bytes [simp]:
  "off + length bs \<le> length mem \<Longrightarrow> length (put_bytes off bs mem) = length mem"
  by (simp add: put_bytes_def)

lemma length_get_bytes [simp]:
  "off + n \<le> length mem \<Longrightarrow> length (get_bytes off n mem) = n"
  by (simp add: get_bytes_def)

lemma get_put_same [simp]:
  "off + length bs \<le> length mem \<Longrightarrow> n = length bs \<Longrightarrow> get_bytes off n (put_bytes off bs mem) = bs"
  by (simp add: put_bytes_def get_bytes_def)

lemma get_put_before:
  "i + n \<le> off \<Longrightarrow> off \<le> length mem \<Longrightarrow> get_bytes i n (put_bytes off bs mem) = get_bytes i n mem"
  by (simp add: put_bytes_def get_bytes_def drop_take)

lemma get_put_after:
  "off + length bs \<le> i \<Longrightarrow> off + length bs \<le> length mem \<Longrightarrow> get_bytes i n (put_bytes off bs mem) = get_bytes i n mem"
  by (simp add: put_bytes_def get_bytes_def add.commute)

lemma nth_put_bytes:
  "off + length bs \<le> length mem \<Longrightarrow> i < length mem \<Longrightarrow>
    put_bytes off bs mem ! i = (if i < off then mem ! i else if i < off + length bs then bs ! (i - off) else mem ! i)"
  by (auto simp: put_bytes_def nth_append)

subsection \<open>C strings in buffers\<close>

definition byte_of :: "char \<Rightarrow> u8" where
  "byte_of c = of_char c"

definition char_at :: "u8 \<Rightarrow> char" where
  "char_at b = char_of (unat b)"

text \<open>The string a pointer into a buffer denotes: up to the first zero byte (the buffers the code uses end in
  one or are long enough).\<close>

definition cstring :: "bytes \<Rightarrow> string" where
  "cstring bs = map char_at (takeWhile (\<lambda>b. b \<noteq> 0) bs)"

text \<open>The bytes \<open>strncpy(d, s, n)\<close> writes: the string up to its terminator, filled up with zeros.\<close>

definition strncpy :: "nat \<Rightarrow> string \<Rightarrow> bytes" where
  "strncpy n s = take n (map byte_of (takeWhile (\<lambda>c. byte_of c \<noteq> 0) s) @ replicate n 0)"

lemma length_strncpy [simp]: "length (strncpy n s) = n"
  by (simp add: strncpy_def)

lemma unat_byte_of: "unat (byte_of c) = of_char c"
proof -
  have "byte_of c = of_nat (of_char c)" by (simp add: byte_of_def of_nat_of_char)
  moreover have "of_char c < (256 :: nat)" by simp
  ultimately show ?thesis by (simp add: unat_of_nat take_bit_nat_eq_self)
qed

lemma char_at_byte_of [simp]: "char_at (byte_of c) = c"
  by (simp add: char_at_def unat_byte_of)

lemma byte_of_char_at [simp]: "byte_of (char_at b) = b"
proof -
  have "unat b < 256" using unsigned_less [of b] by simp
  then have "unat (byte_of (char_at b)) = unat b" by (simp add: unat_byte_of char_at_def)
  then show ?thesis by (simp only: word_unat_eq_iff)
qed

end
