(* ===== verification/Stg_BFStream.thy ===== *)
theory Stg_BFStream
  imports Stg_Blowfish
begin

text \<open>
  The encrypting and decrypting streams, \<open>libs/crypto/bfstream.cpp\<close>: a buffer of 1024 bytes that collects what is put into the
  stream and hands whole blocks, encrypted or decrypted, to a callback. The blocks handed over so far are part of
  the state; whether the callback accepts a block is a function of them.
\<close>

subsection \<open>The stream\<close>

definition BUFFER_SIZE :: nat where "BUFFER_SIZE = 1024"

record bfstream =
  bs_buffer :: bytes
  bs_ptr :: nat \<comment> \<open>\<open>m_ptr - m_buffer\<close>\<close>
  bs_ok :: bool
  bs_out :: "bytes list" \<comment> \<open>the blocks the callback got, the first one first\<close>

text \<open>What the constructor fixes: the context made from the key, the routine (\<open>EncryptString\<close> or \<open>DecryptString\<close>) and the
  callback.\<close>

record bfproc =
  bp_proc :: "nat \<Rightarrow> bytes \<Rightarrow> bytes option"
  bp_callback :: "bytes list \<Rightarrow> bytes \<Rightarrow> bool"

definition COMMON :: bfstream where
  "COMMON = \<lparr>bs_buffer = replicate BUFFER_SIZE 0, bs_ptr = 0, bs_ok = True, bs_out = []\<rparr>"

definition ENCRYPT_STREAM :: "string \<Rightarrow> (bytes list \<Rightarrow> bytes \<Rightarrow> bool) \<Rightarrow> bfproc" where
  "ENCRYPT_STREAM key callback = \<lparr>bp_proc = EncryptString (InitContext key (length key)), bp_callback = callback\<rparr>"

definition DECRYPT_STREAM :: "string \<Rightarrow> (bytes list \<Rightarrow> bytes \<Rightarrow> bool) \<Rightarrow> bfproc" where
  "DECRYPT_STREAM key callback = \<lparr>bp_proc = DecryptString (InitContext key (length key)), bp_callback = callback\<rparr>"

text \<open>Process the first \<open>n\<close> bytes of the buffer in place and hand them over.\<close>

definition consume :: "bfproc \<Rightarrow> nat \<Rightarrow> bfstream \<Rightarrow> bfstream option" where
  "consume P n s = do {
     r \<leftarrow> bp_proc P n (bs_buffer s);
     let buf = put_bytes 0 r (bs_buffer s);
     let block = take n buf;
     Some (if bs_ok s
       then s\<lparr>bs_buffer := buf, bs_ok := bp_callback P (bs_out s) block, bs_out := bs_out s @ [block]\<rparr>
       else s\<lparr>bs_buffer := buf\<rparr>) }"

definition m_tryConsume :: "bfproc \<Rightarrow> bool \<Rightarrow> bfstream \<Rightarrow> bfstream option" where
  "m_tryConsume P lst s =
     (let dataSize = bs_ptr s div 8 * 8;
          remainder = bs_ptr s - dataSize;
          (dataSize, remainder) = (if lst \<and> remainder > 0 then (dataSize + 8, 0) else (dataSize, remainder))
      in if \<not> lst \<and> dataSize = 0 then Some s
         else do {
           s \<leftarrow> consume P dataSize s;
           if \<not> bs_ok s then Some s
           else Some (s\<lparr>bs_buffer := (if remainder > 0
                               then put_bytes 0 (get_bytes dataSize remainder (bs_buffer s)) (bs_buffer s) else bs_buffer s),
                        bs_ptr := remainder\<rparr>) })"

function Put_loop :: "bfproc \<Rightarrow> bytes \<Rightarrow> bfstream \<Rightarrow> (bytes \<times> bfstream) option" where
  "Put_loop P dat s =
     (if bs_ptr s + length dat > BUFFER_SIZE
      then do {
        let room = BUFFER_SIZE - bs_ptr s;
        s \<leftarrow> consume P BUFFER_SIZE (s\<lparr>bs_buffer := put_bytes (bs_ptr s) (take room dat) (bs_buffer s)\<rparr>);
        Put_loop P (drop room dat) (s\<lparr>bs_ptr := 0\<rparr>) }
      else Some (dat, s))"
  by pat_completeness auto

termination
  by (relation "measure (\<lambda>(P, dat, s). bs_ptr s + length dat)") (auto simp: BUFFER_SIZE_def)

declare Put_loop.simps [simp del]

definition Put :: "bfproc \<Rightarrow> bytes \<Rightarrow> bool \<Rightarrow> bfstream \<Rightarrow> bfstream option" where
  "Put P dat lst s = do {
     (dat, s) \<leftarrow> Put_loop P dat s;
     if \<not> bs_ok s then Some s
     else m_tryConsume P lst (s\<lparr>bs_buffer := put_bytes (bs_ptr s) dat (bs_buffer s), bs_ptr := bs_ptr s + length dat\<rparr>) }"

definition IsOk :: "bfstream \<Rightarrow> bool" where
  "IsOk s = bs_ok s"

text \<open>A sequence of calls, the last of them with the flag for the last data.\<close>

fun put_all :: "bfproc \<Rightarrow> bytes list \<Rightarrow> bfstream \<Rightarrow> bfstream option" where
  "put_all P [] s = Some s"
| "put_all P (d # ds) s = Put P d (ds = []) s \<bind> put_all P ds"

subsection \<open>What a stream hands over\<close>

text \<open>A stream whose routine works on blocks and whose callback accepts everything.\<close>

locale block_stream =
  fixes P :: bfproc and f :: "bytes \<Rightarrow> bytes"
  assumes proc: "\<And>n bs. 8 dvd n \<Longrightarrow> n \<le> length bs \<Longrightarrow> bp_proc P n bs = Some (ecb f (take n bs))"
    and block: "\<And>x. length (f x) = 8"
    and accepts: "bp_callback P out b"
begin

text \<open>The stream has taken the data \<open>D\<close>: the callback got its first \<open>n\<close> bytes, the rest is in the buffer.\<close>

definition taken :: "bytes \<Rightarrow> nat \<Rightarrow> bfstream \<Rightarrow> bool" where
  "taken D n s \<longleftrightarrow> bs_ok s \<and> 8 dvd n \<and> n + bs_ptr s = length D \<and> bs_ptr s \<le> BUFFER_SIZE
     \<and> length (bs_buffer s) = BUFFER_SIZE \<and> concat (bs_out s) = ecb f (take n D) \<and> take (bs_ptr s) (bs_buffer s) = drop n D"

lemma length_ecb_f: "8 dvd length bs \<Longrightarrow> length (ecb f bs) = length bs"
  using length_ecb [of f bs] block by simp

lemma consume_ptr: "consume P k (s\<lparr>bs_ptr := p\<rparr>) = map_option (bs_ptr_update (\<lambda>_. p)) (consume P k s)"
  by (simp add: consume_def Let_def split: bind_split)

lemma put_taken:
  assumes "taken D n s" and "bs_ptr s + length d \<le> BUFFER_SIZE"
  shows "taken (D @ d) n (s\<lparr>bs_buffer := put_bytes (bs_ptr s) d (bs_buffer s), bs_ptr := bs_ptr s + length d\<rparr>)"
proof -
  have l: "length (bs_buffer s) = BUFFER_SIZE" and n: "n + bs_ptr s = length D" "bs_ptr s \<le> BUFFER_SIZE"
    using assms(1) by (auto simp: taken_def)
  have t: "take (bs_ptr s + length d) (put_bytes (bs_ptr s) d (bs_buffer s)) = take (bs_ptr s) (bs_buffer s) @ d"
    using l n by (simp add: put_bytes_def)
  have "n \<le> length D" using n by simp
  then have "take n (D @ d) = take n D" "drop n (D @ d) = drop n D @ d" by simp_all
  then show ?thesis using assms l n t by (simp add: taken_def)
qed

lemma consume_taken:
  assumes "taken D n s" and "8 dvd k" and "k \<le> bs_ptr s + 7" and "k \<le> BUFFER_SIZE" and "E = get_bytes (bs_ptr s) (k - bs_ptr s) (bs_buffer s)"
  obtains s' where "consume P k s = Some s'" and "bs_ptr s' = bs_ptr s" and "bs_ok s'" and "length (bs_buffer s') = BUFFER_SIZE"
    and "concat (bs_out s') = ecb f (take (n + k) (D @ E))" and "drop k (bs_buffer s') = drop k (bs_buffer s)"
proof -
  let ?b = "bs_buffer s"
  have l: "length ?b = BUFFER_SIZE" and n: "8 dvd n" "n + bs_ptr s = length D" and ok: "bs_ok s"
    and out: "concat (bs_out s) = ecb f (take n D)" and buf: "take (bs_ptr s) ?b = drop n D"
    using assms(1) by (auto simp: taken_def)
  have dl: "length (drop n D) = bs_ptr s" using n by simp
  have "?b = drop n D @ drop (bs_ptr s) ?b" using buf by (metis append_take_drop_id)
  then have "take k ?b = take k (drop n D) @ E" using dl assms(5) by (metis get_bytes_def take_append)
  moreover have nk: "n + k - length D = k - bs_ptr s" unfolding n(2) [symmetric] by simp
  moreover have "take (n + k) (D @ E) = take n D @ take k (drop n D) @ E"
    using dl assms(5) nk n(2) by (simp add: take_add get_bytes_def)
  ultimately have t: "take n D @ take k ?b = take (n + k) (D @ E)" by simp
  let ?r = "ecb f (take k ?b)"
  have r: "length ?r = k" using assms(2,4) l by (simp add: length_ecb_f)
  have p: "bp_proc P k ?b = Some ?r" using proc assms(2,4) l by simp
  have c: "consume P k s = Some (s\<lparr>bs_buffer := ?r @ drop k ?b, bs_ok := True, bs_out := bs_out s @ [?r]\<rparr>)"
    using r ok accepts by (simp add: consume_def p put_bytes_def)
  have o: "concat (bs_out s) @ ?r = ecb f (take (n + k) (D @ E))"
    using ecb_append [of "take n D" f "take k ?b"] n out t by simp
  show ?thesis by (rule that [OF c]) (use l r o assms(4) in auto)
qed

text \<open>The loop of \<open>Put\<close> leaves less than a buffer to add; consuming leaves less than a block.\<close>

lemma Put_loop_taken:
  assumes "taken D n s"
  shows "\<exists>n' s' d' D'. Put_loop P d s = Some (d', s') \<and> taken D' n' s' \<and> D' @ d' = D @ d
    \<and> bs_ptr s' + length d' \<le> BUFFER_SIZE"
  using assms
proof (induction "bs_ptr s + length d" arbitrary: d s D n rule: less_induct)
  case less
  show ?case
  proof (cases "bs_ptr s + length d > BUFFER_SIZE")
    case False
    then show ?thesis using less(2) by (auto simp: Put_loop.simps)
  next
    case True
    let ?room = "BUFFER_SIZE - bs_ptr s"
    define s1 where "s1 = s\<lparr>bs_buffer := put_bytes (bs_ptr s) (take ?room d) (bs_buffer s), bs_ptr := BUFFER_SIZE\<rparr>"
    have ptr: "bs_ptr s \<le> BUFFER_SIZE" using less(2) by (simp add: taken_def)
    have room: "bs_ptr s + length (take ?room d) = BUFFER_SIZE" using True ptr by simp
    have t1: "taken (D @ take ?room d) n s1"
      using put_taken [OF less(2), of "take ?room d"] unfolding room by (simp add: s1_def)
    obtain s2 where s2: "consume P BUFFER_SIZE s1 = Some s2" "bs_ptr s2 = bs_ptr s1" "bs_ok s2" "length (bs_buffer s2) = BUFFER_SIZE"
      "concat (bs_out s2) = ecb f (take (n + BUFFER_SIZE) (D @ take ?room d))"
      by (rule consume_taken [OF t1, of BUFFER_SIZE "[]"]) (auto simp: s1_def BUFFER_SIZE_def get_bytes_def)
    have nB: "8 dvd n + BUFFER_SIZE" using less(2) by (simp add: taken_def BUFFER_SIZE_def)
    have "taken (D @ take ?room d) (n + BUFFER_SIZE) (s2\<lparr>bs_ptr := 0\<rparr>)"
      using t1 s2(2-5) nB by (simp add: taken_def s1_def)
    then have IH: "bs_ptr (s2\<lparr>bs_ptr := 0\<rparr>) + length e < bs_ptr s + length d \<Longrightarrow>
      \<exists>n' s' d' D'. Put_loop P e (s2\<lparr>bs_ptr := 0\<rparr>) = Some (d', s') \<and> taken D' n' s' \<and> D' @ d' = (D @ take ?room d) @ e
        \<and> bs_ptr s' + length d' \<le> BUFFER_SIZE" for e
      by (rule less(1) [rotated])
    have "consume P BUFFER_SIZE (s\<lparr>bs_buffer := put_bytes (bs_ptr s) (take ?room d) (bs_buffer s)\<rparr>)
       = Some (s2\<lparr>bs_ptr := bs_ptr s\<rparr>)"
      using s2(1) consume_ptr [of BUFFER_SIZE "bs_ptr s" s1] by (simp add: s1_def)
    then have "Put_loop P d s = Put_loop P (drop ?room d) (s2\<lparr>bs_ptr := 0\<rparr>)"
      using True by (subst Put_loop.simps) simp
    moreover have "bs_ptr (s2\<lparr>bs_ptr := 0\<rparr>) + length (drop ?room d) < bs_ptr s + length d"
      using True ptr by (simp add: BUFFER_SIZE_def)
    ultimately show ?thesis using IH [of "drop ?room d"] by simp
  qed
qed

lemma tryConsume_taken:
  assumes "taken D n s"
  shows "\<exists>s'. m_tryConsume P False s = Some s' \<and> taken D (length D div 8 * 8) s'"
proof -
  define q r where "q = bs_ptr s div 8 * 8" and "r = bs_ptr s mod 8"
  have q: "8 dvd q" "q + r = bs_ptr s" "bs_ptr s - q = r" "r < 8"
    by (simp_all add: q_def r_def minus_div_mult_eq_mod)
  have n: "8 dvd n" "n + bs_ptr s = length D" "bs_ptr s \<le> BUFFER_SIZE" using assms by (auto simp: taken_def)
  have "length D = (n + q) + r" "8 dvd n + q" using n q by auto
  then have D: "length D div 8 * 8 = n + q" "length D - (n + q) = r" using q(4) by (auto elim!: dvdE)
  show ?thesis
  proof (cases "q = 0")
    case True
    then show ?thesis using assms D by (auto simp: m_tryConsume_def q_def)
  next
    case False
    have qB: "q \<le> BUFFER_SIZE" "q \<le> bs_ptr s + 7" using q n(3) by linarith+
    obtain s' where s': "consume P q s = Some s'" "bs_ptr s' = bs_ptr s" "bs_ok s'" "length (bs_buffer s') = BUFFER_SIZE"
      "concat (bs_out s') = ecb f (take (n + q) D)" "drop q (bs_buffer s') = drop q (bs_buffer s)"
      by (rule consume_taken [OF assms q(1) qB(2,1), of "[]"]) (use q(2) in \<open>auto simp: get_bytes_def\<close>)
    have "drop q (take (q + r) (bs_buffer s)) = drop (n + q) D"
      using assms q(2) by (simp add: taken_def add.commute)
    then have g: "get_bytes q r (bs_buffer s') = drop (n + q) D"
      by (simp add: get_bytes_def s'(6) drop_take)
    let ?s = "s'\<lparr>bs_buffer := if 0 < r then put_bytes 0 (get_bytes q r (bs_buffer s')) (bs_buffer s') else bs_buffer s', bs_ptr := r\<rparr>"
    have "m_tryConsume P False s = Some ?s"
      unfolding m_tryConsume_def q_def [symmetric] using s'(1,3) q(3) False by simp
    moreover have "take r (bs_buffer ?s) = drop (n + q) D" "length (bs_buffer ?s) = BUFFER_SIZE"
      using g D(2) s'(4) q(4) by (auto simp: put_bytes_def BUFFER_SIZE_def)
    then have "taken D (n + q) ?s"
      using n q s'(3,5) D by (simp add: taken_def BUFFER_SIZE_def)
    ultimately show ?thesis using D(1) by auto
  qed
qed

lemma tryConsume_last:
  assumes "taken D n s"
  shows "\<exists>s' pad. m_tryConsume P True s = Some s' \<and> length pad < 8 \<and> 8 dvd length (D @ pad) \<and> bs_ok s'
     \<and> concat (bs_out s') = ecb f (D @ pad)"
proof -
  define q r where "q = bs_ptr s div 8 * 8" and "r = bs_ptr s mod 8"
  have q: "8 dvd q" "q + r = bs_ptr s" "bs_ptr s - q = r" "r < 8"
    by (simp_all add: q_def r_def minus_div_mult_eq_mod)
  define k where "k = (if 0 < r then q + 8 else q)"
  define pad where "pad = get_bytes (bs_ptr s) (k - bs_ptr s) (bs_buffer s)"
  have n: "8 dvd n" "n + bs_ptr s = length D" "bs_ptr s \<le> BUFFER_SIZE" "length (bs_buffer s) = BUFFER_SIZE"
    using assms by (auto simp: taken_def)
  have k: "8 dvd k" "k \<le> bs_ptr s + 7" "bs_ptr s \<le> k" "k - bs_ptr s < 8"
    using q by (auto simp: k_def)
  have kB: "k \<le> BUFFER_SIZE" using k(1,2) n(3) by (auto simp: BUFFER_SIZE_def elim!: dvdE)
  obtain s' where s': "consume P k s = Some s'" "bs_ok s'" "concat (bs_out s') = ecb f (take (n + k) (D @ pad))"
    by (rule consume_taken [OF assms k(1,2) kB pad_def]) auto
  have l: "length pad = k - bs_ptr s" using k(3) kB n(4) by (simp add: pad_def)
  then have lp: "length (D @ pad) = n + k" using n(2) k(3) by simp
  have "\<exists>t. m_tryConsume P True s = Some t \<and> bs_ok t \<and> bs_out t = bs_out s'"
    unfolding m_tryConsume_def q_def [symmetric] using s' q(3) by (auto simp: k_def split: if_splits)
  moreover have "take (n + k) (D @ pad) = D @ pad" using lp by simp
  moreover have "length pad < 8" "8 dvd length (D @ pad)" unfolding lp using l k n(1) by auto
  ultimately show ?thesis using s' by metis
qed

lemma Put_taken:
  assumes "taken D n s"
  shows "\<exists>s'. Put P d False s = Some s' \<and> taken (D @ d) (length (D @ d) div 8 * 8) s'"
    and "\<exists>s' pad. Put P d True s = Some s' \<and> length pad < 8 \<and> 8 dvd length (D @ d @ pad) \<and> bs_ok s'
     \<and> concat (bs_out s') = ecb f (D @ d @ pad)"
proof -
  obtain n' s' d' D' where l: "Put_loop P d s = Some (d', s')" "taken D' n' s'" "D' @ d' = D @ d" "bs_ptr s' + length d' \<le> BUFFER_SIZE"
    using Put_loop_taken [OF assms, of d] by blast
  have ok: "bs_ok s'" using l(2) by (simp add: taken_def)
  note t = put_taken [OF l(2,4), unfolded l(3)]
  show "\<exists>s'. Put P d False s = Some s' \<and> taken (D @ d) (length (D @ d) div 8 * 8) s'"
    using tryConsume_taken [OF t] l(1) ok by (simp add: Put_def)
  show "\<exists>s' pad. Put P d True s = Some s' \<and> length pad < 8 \<and> 8 dvd length (D @ d @ pad) \<and> bs_ok s'
     \<and> concat (bs_out s') = ecb f (D @ d @ pad)"
    using tryConsume_last [OF t] l(1) ok by (simp add: Put_def)
qed

lemma put_all_taken:
  assumes "taken D n s" and "ds \<noteq> []"
  shows "\<exists>s' pad. put_all P ds s = Some s' \<and> length pad < 8 \<and> 8 dvd length (D @ concat ds @ pad)
    \<and> bs_ok s' \<and> concat (bs_out s') = ecb f (D @ concat ds @ pad)"
  using assms
proof (induction ds arbitrary: D n s)
  case (Cons d ds)
  show ?case
  proof (cases "ds = []")
    case True
    obtain s' pad where "Put P d True s = Some s'" "length pad < 8" "8 dvd length (D @ d @ pad)" "bs_ok s'"
      "concat (bs_out s') = ecb f (D @ d @ pad)"
      using Put_taken(2) [OF Cons.prems(1), of d] by blast
    then show ?thesis using True by auto
  next
    case False
    obtain s' where "Put P d False s = Some s'" "taken (D @ d) (length (D @ d) div 8 * 8) s'"
      using Put_taken(1) [OF Cons.prems(1), of d] by blast
    then show ?thesis using Cons.IH [of "D @ d" _ s'] False by simp
  qed
qed simp

lemma taken_COMMON: "taken [] 0 COMMON"
  by (simp add: taken_def COMMON_def ecb.simps)

lemmas put_all_fresh = put_all_taken [OF taken_COMMON, simplified]

end

interpretation enc: block_stream "ENCRYPT_STREAM key (\<lambda>_ _. True)" "EncryptBlock (InitContext key (length key))" for key
  by unfold_locales (simp_all add: ENCRYPT_STREAM_def EncryptString_ecb pad8_dvd)

interpretation dec: block_stream "DECRYPT_STREAM key (\<lambda>_ _. True)" "DecryptBlock (InitContext key (length key))" for key
  by unfold_locales (simp_all add: DECRYPT_STREAM_def DecryptString_ecb up8_dvd)

text \<open>C24. Whatever the sizes of the pieces in which data is put into an encrypting stream, and whatever the sizes of the pieces in
  which its output is put into a decrypting stream with the same key, the decrypting stream hands over the data, followed by
  less than eight bytes that fill up the last block.\<close>

theorem stream_roundtrip:
  assumes "ds \<noteq> []"
  shows "\<exists>s pad. put_all (ENCRYPT_STREAM key (\<lambda>_ _. True)) ds COMMON = Some s \<and> IsOk s \<and> length pad < 8
    \<and> (\<forall>es. es \<noteq> [] \<and> concat es = concat (bs_out s) \<longrightarrow>
        (\<exists>t. put_all (DECRYPT_STREAM key (\<lambda>_ _. True)) es COMMON = Some t \<and> IsOk t \<and> concat (bs_out t) = concat ds @ pad))"
proof -
  let ?ctx = "InitContext key (length key)"
  obtain s pad where s: "put_all (ENCRYPT_STREAM key (\<lambda>_ _. True)) ds COMMON = Some s" "length pad < 8"
    "8 dvd length (concat ds @ pad)" "bs_ok s" "concat (bs_out s) = ecb (EncryptBlock ?ctx) (concat ds @ pad)"
    using enc.put_all_fresh [OF assms, of key] by auto
  have "\<exists>t. put_all (DECRYPT_STREAM key (\<lambda>_ _. True)) es COMMON = Some t \<and> bs_ok t \<and> concat (bs_out t) = concat ds @ pad"
    if es: "es \<noteq> []" "concat es = concat (bs_out s)" for es
  proof -
    obtain t pad' where t: "put_all (DECRYPT_STREAM key (\<lambda>_ _. True)) es COMMON = Some t" "length pad' < 8"
      "8 dvd length (concat es @ pad')" "bs_ok t" "concat (bs_out t) = ecb (DecryptBlock ?ctx) (concat es @ pad')"
      using dec.put_all_fresh [OF es(1), of key] by auto
    have "length (concat es) = length (concat ds @ pad)"
      using es(2) s(3,5) enc.length_ecb_f [of "concat ds @ pad" key] by simp
    then have "8 dvd length pad'" using s(3) t(3) by (metis dvd_add_right_iff length_append)
    then have "pad' = []" using t(2) by (auto dest: dvd_imp_le)
    then show ?thesis using t s es ecb_Decrypt_Encrypt [OF s(3), of ?ctx] by auto
  qed
  then show ?thesis using s by (auto simp: IsOk_def)
qed

theorem stream_roundtrip_witness:
  "\<exists>s pad. put_all (ENCRYPT_STREAM ''key'' (\<lambda>_ _. True)) [[1, 2, 3], [], [4]] COMMON = Some s \<and> IsOk s \<and> length pad < 8
    \<and> (\<forall>es. es \<noteq> [] \<and> concat es = concat (bs_out s) \<longrightarrow>
        (\<exists>t. put_all (DECRYPT_STREAM ''key'' (\<lambda>_ _. True)) es COMMON = Some t \<and> IsOk t \<and> concat (bs_out t) = [1, 2, 3, 4] @ pad))"
  using stream_roundtrip [of "[[1, 2, 3], [], [4]]" "''key''"] by simp

text \<open>A stream whose callback refused a block hands over nothing more.\<close>

lemma consume_stopped: "\<not> bs_ok s \<Longrightarrow> consume P n s = Some s' \<Longrightarrow> bs_out s' = bs_out s \<and> \<not> bs_ok s'"
  by (auto simp: consume_def bind_eq_Some_conv)

lemma Put_loop_stopped: "\<not> bs_ok s \<Longrightarrow> Put_loop P d s = Some (d', s') \<Longrightarrow> bs_out s' = bs_out s \<and> \<not> bs_ok s'"
proof (induction P d s rule: Put_loop.induct)
  case (1 P d s)
  show ?case
  proof (cases "BUFFER_SIZE < bs_ptr s + length d")
    case True
    then obtain t where "consume P BUFFER_SIZE (s\<lparr>bs_buffer := put_bytes (bs_ptr s) (take (BUFFER_SIZE - bs_ptr s) d) (bs_buffer s)\<rparr>) = Some t"
      and "Put_loop P (drop (BUFFER_SIZE - bs_ptr s) d) (t\<lparr>bs_ptr := 0\<rparr>) = Some (d', s')"
      using 1(3) by (auto simp: Put_loop.simps [of P d s] bind_eq_Some_conv Let_def)
    with 1(1) [OF True refl this(1)] 1(2) consume_stopped [OF _ this(1)] show ?thesis by simp
  next
    case False
    then show ?thesis using 1(2,3) by (simp add: Put_loop.simps)
  qed
qed

lemma stream_stops: "\<not> IsOk s \<Longrightarrow> Put P d lst s = Some s' \<Longrightarrow> bs_out s' = bs_out s \<and> \<not> IsOk s'"
  by (auto simp: Put_def IsOk_def bind_eq_Some_conv split: if_splits dest: Put_loop_stopped)

end
