(* ===== verification/Stg_Double.thy ===== *)
theory Stg_Double
  imports Stg_Prelude "HOL-Library.Log_Nat"
begin

text \<open>
  The billing code computes with C++ \<open>double\<close>. A finite double is represented by the
  rational it denotes, and every arithmetic operation is the exact operation followed by
  \<open>dbl\<close>, rounding to the nearest binary64 value with ties to even (53 significant bits,
  least exponent -1074), as IEEE 754 prescribes for the default rounding mode and as the
  SSE2 code of the supported platforms computes it. Infinities, NaNs and the sign of zero
  are outside the model: no operation of the sources divides by a value that can be zero,
  and amounts beyond \<open>2 ^ 1023\<close> are not considered.

  The second half proves the rounding laws the billing proofs rest on (monotone, odd, exact
  on representable values), packaged as the locale \<open>rounding\<close> and interpreted for
  \<open>dbl\<close>.
\<close>

type_synonym double = rat

subsection \<open>Rounding to nearest, ties to even\<close>

definition rne :: "rat \<Rightarrow> int" where
  "rne x = (let f = \<lfloor>x\<rfloor>; d = x - of_int f in
     if d < 1 / 2 then f else if d > 1 / 2 then f + 1 else if even f then f else f + 1)"

text \<open>The binary exponent of a positive rational: \<open>2 powi e \<le> x < 2 powi (e + 1)\<close>.\<close>

definition ilog2 :: "rat \<Rightarrow> int" where
  "ilog2 x = (case quotient_of x of (p, q) \<Rightarrow>
     let e = bitlen p - bitlen q in if x < 2 powi e then e - 1 else e)"

definition ulp_exp :: "rat \<Rightarrow> int" where
  "ulp_exp x = max (ilog2 x - 52) (- 1074)"

definition dbl_pos :: "rat \<Rightarrow> rat" where
  "dbl_pos x = of_int (rne (x / 2 powi ulp_exp x)) * 2 powi ulp_exp x"

definition dbl :: "rat \<Rightarrow> double" where
  "dbl x = (if x = 0 then 0 else if 0 < x then dbl_pos x else - dbl_pos (- x))"

text \<open>The arithmetic of \<open>double\<close> and the conversion from an integer.\<close>

definition d_of_int :: "int \<Rightarrow> double" where
  "d_of_int i = dbl (of_int i)"

definition dadd :: "double \<Rightarrow> double \<Rightarrow> double" where
  "dadd a b = dbl (a + b)"

definition dsub :: "double \<Rightarrow> double \<Rightarrow> double" where
  "dsub a b = dbl (a - b)"

definition dmul :: "double \<Rightarrow> double \<Rightarrow> double" where
  "dmul a b = dbl (a * b)"

definition ddiv :: "double \<Rightarrow> double \<Rightarrow> double" where
  "ddiv a b = dbl (a / b)"

text \<open>A rational that some double denotes exactly.\<close>

definition is_dbl :: "rat \<Rightarrow> bool" where
  "is_dbl x \<longleftrightarrow> dbl x = x"

subsection \<open>Laws of rounding\<close>

lemma rne_of_int [simp]: "rne (of_int n) = n"
  by (simp add: rne_def)

lemma rne_bounds: "\<lfloor>x\<rfloor> \<le> rne x \<and> rne x \<le> \<lfloor>x\<rfloor> + 1"
  by (auto simp: rne_def Let_def)

lemma rne_mono:
  assumes "x \<le> y"
  shows "rne x \<le> rne y"
proof (cases "\<lfloor>x\<rfloor> = \<lfloor>y\<rfloor>")
  case True
  with assms show ?thesis by (auto simp: rne_def Let_def)
next
  case False
  with assms have "\<lfloor>x\<rfloor> + 1 \<le> \<lfloor>y\<rfloor>"
    using floor_mono [OF assms] by simp
  then show ?thesis using rne_bounds [of x] rne_bounds [of y] by linarith
qed

lemma rne_le: "x \<le> of_int n \<Longrightarrow> rne x \<le> n"
  using rne_mono [of x "of_int n"] by simp

lemma rne_ge: "of_int n \<le> x \<Longrightarrow> n \<le> rne x"
  using rne_mono [of "of_int n" x] by simp

lemma powi_2_pos [simp]: "0 < (2 :: rat) powi e"
  by simp

lemma powi_2_mono: "a \<le> b \<Longrightarrow> (2 :: rat) powi a \<le> 2 powi b"
  by (rule power_int_increasing) simp_all

lemma powi_2_div: "(2 :: rat) powi a / 2 powi b = 2 powi (a - b)"
  by (simp add: power_int_diff)

lemma powi_2_int: "0 \<le> e \<Longrightarrow> (2 :: rat) powi e = of_int (2 ^ nat e)"
  by (simp add: power_int_def)

lemma powi_2_split:
  assumes "u \<le> e"
  shows "(2 :: rat) ^ nat (e - u) * 2 powi u = 2 powi e"
proof -
  have "(2 :: rat) powi e = 2 powi (e - u) * 2 powi u"
    using power_int_add [of "2 :: rat" "e - u" u] by simp
  then show ?thesis using assms by (simp add: powi_2_int)
qed

lemma rat_le_pow2_iff [simp]: "(of_int n :: rat) \<le> 2 ^ k \<longleftrightarrow> n \<le> 2 ^ k"
  by (metis of_int_le_iff of_int_numeral of_int_power)

lemma pow2_le_rat_iff [simp]: "(2 :: rat) ^ k \<le> of_int n \<longleftrightarrow> 2 ^ k \<le> n"
  by (metis of_int_le_iff of_int_numeral of_int_power)

lemma ilog2_bounds:
  assumes "0 < x"
  shows "2 powi ilog2 x \<le> x" and "x < 2 powi (ilog2 x + 1)"
proof -
  obtain p q where pq: "quotient_of x = (p, q)" by fastforce
  have q: "0 < q" using quotient_of_denom_pos [OF pq] .
  have x: "x = of_int p / of_int q" using quotient_of_div [OF pq] .
  have p: "0 < p" using assms q x by (simp add: zero_less_divide_iff)
  define e where "e = bitlen p - bitlen q"
  have bp: "2 ^ nat (bitlen p - 1) \<le> p" "p < 2 ^ nat (bitlen p)" and bp1: "1 \<le> bitlen p"
    using bitlen_bounds [OF p] p by (auto simp: bitlen_ge_iff_power)
  have bq: "2 ^ nat (bitlen q - 1) \<le> q" "q < 2 ^ nat (bitlen q)" and bq1: "1 \<le> bitlen q"
    using bitlen_bounds [OF q] q by (auto simp: bitlen_ge_iff_power)
  have P: "(2 :: rat) powi (bitlen p - 1) \<le> of_int p" "of_int p < (2 :: rat) powi bitlen p"
    using bp bp1 by (simp_all add: powi_2_int flip: of_int_power)
  have Q: "(2 :: rat) powi (bitlen q - 1) \<le> of_int q" "of_int q < (2 :: rat) powi bitlen q"
    using bq bq1 by (simp_all add: powi_2_int flip: of_int_power)
  have lo: "2 powi (e - 1) \<le> x"
  proof -
    have "2 powi (e - 1) = (2 :: rat) powi (bitlen p - 1) / 2 powi bitlen q"
      by (simp add: e_def powi_2_div algebra_simps)
    also have "\<dots> \<le> of_int p / of_int q"
      using P Q q p by (intro frac_le) simp_all
    finally show ?thesis by (simp add: x)
  qed
  have hi: "x < 2 powi (e + 1)"
  proof -
    have "x < (2 :: rat) powi bitlen p / 2 powi (bitlen q - 1)"
      unfolding x using P Q q p by (intro frac_less) simp_all
    also have "\<dots> = 2 powi (e + 1)"
      by (simp add: e_def powi_2_div algebra_simps)
    finally show ?thesis .
  qed
  have il: "ilog2 x = (if x < 2 powi e then e - 1 else e)"
    by (simp add: ilog2_def pq e_def Let_def)
  show "2 powi ilog2 x \<le> x" and "x < 2 powi (ilog2 x + 1)"
    using lo hi by (auto simp: il)
qed

lemma ilog2_mono:
  assumes "0 < x" and "x \<le> y"
  shows "ilog2 x \<le> ilog2 y"
proof (rule ccontr)
  assume "\<not> ?thesis"
  then have "ilog2 y + 1 \<le> ilog2 x" by simp
  then have "2 powi (ilog2 y + 1) \<le> (2 :: rat) powi ilog2 x" by (rule powi_2_mono)
  also have "\<dots> \<le> x" by (rule ilog2_bounds) (rule assms)
  also note assms(2)
  also have "y < 2 powi (ilog2 y + 1)" using assms by (intro ilog2_bounds) simp
  finally show False by simp
qed

lemma ulp_exp_mono: "0 < x \<Longrightarrow> x \<le> y \<Longrightarrow> ulp_exp x \<le> ulp_exp y"
  using ilog2_mono [of x y] by (simp add: ulp_exp_def max_def)

lemma dbl_pos_le_pow:
  assumes "x \<le> 2 powi e" and "ulp_exp x \<le> e"
  shows "dbl_pos x \<le> 2 powi e"
proof -
  let ?u = "ulp_exp x"
  have "x / 2 powi ?u \<le> 2 powi (e - ?u)"
    using divide_right_mono [OF assms(1), of "2 powi ?u"] by (simp add: powi_2_div)
  then have "x / 2 powi ?u \<le> of_int (2 ^ nat (e - ?u))"
    using assms(2) by (simp add: powi_2_int)
  then have "rne (x / 2 powi ?u) \<le> 2 ^ nat (e - ?u)" by (rule rne_le)
  then have "of_int (rne (x / 2 powi ?u)) \<le> (2 :: rat) powi (e - ?u)"
    using assms(2) by (simp add: powi_2_int)
  then have "dbl_pos x \<le> 2 powi (e - ?u) * 2 powi ?u"
    unfolding dbl_pos_def by (rule mult_right_mono) simp
  then show ?thesis by (simp flip: power_int_add)
qed

lemma dbl_pos_ge_pow:
  assumes "2 powi e \<le> x" and "ulp_exp x \<le> e"
  shows "2 powi e \<le> dbl_pos x"
proof -
  let ?u = "ulp_exp x"
  have "2 powi (e - ?u) \<le> x / 2 powi ?u"
    using divide_right_mono [OF assms(1), of "2 powi ?u"] by (simp add: powi_2_div)
  then have "of_int (2 ^ nat (e - ?u)) \<le> x / 2 powi ?u"
    using assms(2) by (simp add: powi_2_int)
  then have "2 ^ nat (e - ?u) \<le> rne (x / 2 powi ?u)" by (rule rne_ge)
  then have "(2 :: rat) powi (e - ?u) \<le> of_int (rne (x / 2 powi ?u))"
    using assms(2) by (simp add: powi_2_int)
  then have "2 powi (e - ?u) * 2 powi ?u \<le> dbl_pos x"
    unfolding dbl_pos_def by (rule mult_right_mono) simp
  then show ?thesis by (simp flip: power_int_add)
qed

lemma dbl_pos_nonneg: "0 < x \<Longrightarrow> 0 \<le> dbl_pos x"
  unfolding dbl_pos_def by (intro mult_nonneg_nonneg) (auto intro: rne_ge)

lemma dbl_pos_mono:
  assumes "0 < x" and "x \<le> y"
  shows "dbl_pos x \<le> dbl_pos y"
proof (cases "ulp_exp x = ulp_exp y")
  case True
  have "rne (x / 2 powi ulp_exp y) \<le> rne (y / 2 powi ulp_exp y)"
    by (rule rne_mono) (simp add: divide_right_mono assms(2))
  then show ?thesis
    unfolding dbl_pos_def True by (intro mult_right_mono) simp_all
next
  case False
  with ulp_exp_mono [OF assms] have u: "ulp_exp x < ulp_exp y" by simp
  then have uy: "ulp_exp y = ilog2 y - 52" by (auto simp: ulp_exp_def max_def split: if_splits)
  have "ilog2 x \<noteq> ilog2 y" using False by (auto simp: ulp_exp_def)
  then have ixy: "ilog2 x + 1 \<le> ilog2 y" using ilog2_mono [OF assms] by simp
  have y: "0 < y" using assms by simp
  have "x \<le> 2 powi ilog2 y"
    using ilog2_bounds(2) [OF assms(1)] powi_2_mono [OF ixy] by simp
  then have "dbl_pos x \<le> 2 powi ilog2 y"
    by (rule dbl_pos_le_pow) (use u uy in simp)
  also have "\<dots> \<le> dbl_pos y"
    by (rule dbl_pos_ge_pow) (use uy ilog2_bounds(1) [OF y] in simp_all)
  finally show ?thesis .
qed

lemma dbl_0 [simp]: "dbl 0 = 0"
  by (simp add: dbl_def)

lemma dbl_minus: "dbl (- x) = - dbl x"
  by (simp add: dbl_def)

lemma dbl_mono:
  assumes "x \<le> y"
  shows "dbl x \<le> dbl y"
proof -
  consider "0 < x" | "y < 0" | "x \<le> 0" "0 \<le> y" by linarith
  then show ?thesis
  proof cases
    case 1
    with assms show ?thesis by (simp add: dbl_def dbl_pos_mono)
  next
    case 2
    with assms show ?thesis by (simp add: dbl_def dbl_pos_mono)
  next
    case 3
    then show ?thesis
      using dbl_pos_nonneg [of "- x"] dbl_pos_nonneg [of y] by (auto simp: dbl_def)
  qed
qed

lemma ilog2_less:
  assumes "0 < x" and "x < 2 powi e"
  shows "ilog2 x < e"
proof (rule ccontr)
  assume "\<not> ?thesis"
  then have "2 powi e \<le> (2 :: rat) powi ilog2 x" by (intro powi_2_mono) simp
  also have "\<dots> \<le> x" by (rule ilog2_bounds) (rule assms)
  finally show False using assms(2) by simp
qed

lemma dbl_pos_multiple:
  assumes "ulp_exp (of_int n * 2 powi e) \<le> e"
  shows "dbl_pos (of_int n * 2 powi e) = of_int n * 2 powi e"
proof -
  let ?x = "of_int n * 2 powi e :: rat"
  have "?x / 2 powi ulp_exp ?x = of_int n * 2 powi (e - ulp_exp ?x)"
    by (metis powi_2_div times_divide_eq_right)
  then have "?x / 2 powi ulp_exp ?x = of_int (n * 2 ^ nat (e - ulp_exp ?x))"
    using assms by (simp add: powi_2_int)
  then have "rne (?x / 2 powi ulp_exp ?x) = n * 2 ^ nat (e - ulp_exp ?x)"
    by (simp only: rne_of_int)
  moreover have "(2 :: rat) ^ nat (e - ulp_exp ?x) * 2 powi ulp_exp ?x = 2 powi e"
    using assms by (rule powi_2_split)
  ultimately show ?thesis by (simp add: dbl_pos_def mult.assoc)
qed

lemma dbl_pos_scaled:
  assumes n: "0 < n" "n \<le> 2 ^ 53" and e: "- 1074 \<le> e"
  shows "dbl_pos (of_int n * 2 powi e) = of_int n * 2 powi e"
proof (cases "n = 2 ^ 53")
  case True
  then have x: "of_int n * 2 powi e = (of_int 1 * 2 powi (53 + e) :: rat)"
    by (simp add: power_int_add)
  have "ilog2 (of_int 1 * 2 powi (53 + e)) < 53 + e + 1"
    by (rule ilog2_less) (simp_all add: power_int_add)
  then have "ulp_exp (of_int 1 * 2 powi (53 + e)) \<le> 53 + e"
    using e by (simp add: ulp_exp_def)
  then show ?thesis unfolding x by (rule dbl_pos_multiple)
next
  case False
  then have "of_int n < (2 :: rat) ^ 53"
    using n by (metis of_int_less_iff of_int_numeral of_int_power order_le_less)
  then have "of_int n * 2 powi e < (2 :: rat) powi (53 + e)"
    by (simp add: power_int_add)
  then have "ilog2 (of_int n * 2 powi e) < 53 + e"
    using n by (intro ilog2_less) simp_all
  then have "ulp_exp (of_int n * 2 powi e) \<le> e" using e by (simp add: ulp_exp_def)
  then show ?thesis by (rule dbl_pos_multiple)
qed

lemma is_dbl_minus [simp]: "is_dbl (- x) \<longleftrightarrow> is_dbl x"
  by (simp add: is_dbl_def dbl_minus)

lemma is_dbl_0 [simp]: "is_dbl 0"
  by (simp add: is_dbl_def)

lemma is_dbl_scaled:
  assumes "\<bar>m\<bar> \<le> 2 ^ 53" and "- 1074 \<le> e"
  shows "is_dbl (of_int m * 2 powi e)"
proof -
  have pos: "is_dbl (of_int n * 2 powi e)" if "0 < n" "n \<le> 2 ^ 53" for n
    using dbl_pos_scaled [OF that assms(2)] that by (simp add: is_dbl_def dbl_def)
  consider "m = 0" | "0 < m" | "m < 0" by linarith
  then show ?thesis
    using pos [of m] pos [of "- m"] assms(1) by cases simp_all
qed

lemma is_dbl_of_int: "\<bar>m\<bar> \<le> 2 ^ 53 \<Longrightarrow> is_dbl (of_int m)"
  using is_dbl_scaled [of m 0] by simp

lemma is_dbl_dbl [simp]: "is_dbl (dbl x)"
proof -
  have pos: "is_dbl (dbl_pos y)" if y: "0 < y" for y
  proof -
    let ?u = "ulp_exp y"
    have "y / 2 powi ?u \<le> 2 powi (ilog2 y + 1) / 2 powi ?u"
      using ilog2_bounds(2) [OF y] by (intro divide_right_mono) simp_all
    also have "\<dots> = 2 powi (ilog2 y + 1 - ?u)" by (rule powi_2_div)
    also have "\<dots> \<le> 2 powi 53" by (rule powi_2_mono) (simp add: ulp_exp_def)
    finally have "rne (y / 2 powi ?u) \<le> 2 ^ 53" by (intro rne_le) simp
    moreover have "0 \<le> rne (y / 2 powi ?u)" using y by (intro rne_ge) simp
    ultimately show ?thesis
      unfolding dbl_pos_def by (intro is_dbl_scaled) (simp_all add: ulp_exp_def)
  qed
  show ?thesis using pos [of x] pos [of "- x"] by (cases x "0 :: rat" rule: linorder_cases) (simp_all add: dbl_def)
qed

subsection \<open>The rounding interface\<close>

text \<open>
  What the billing proofs use of floating point: rounding is monotone, odd and idempotent.
  Everything about charges that the later theories prove follows from these three laws.
\<close>

locale rounding =
  fixes rnd :: "rat \<Rightarrow> rat"
  assumes rnd_mono: "x \<le> y \<Longrightarrow> rnd x \<le> rnd y"
    and rnd_minus: "rnd (- x) = - rnd x"
    and rnd_idem: "rnd (rnd x) = rnd x"
begin

lemma rnd_zero: "rnd 0 = 0"
  using rnd_minus [of 0] by simp

lemma rnd_nonneg: "0 \<le> x \<Longrightarrow> 0 \<le> rnd x"
  using rnd_mono [of 0 x] by (simp add: rnd_zero)

lemma rnd_nonpos: "x \<le> 0 \<Longrightarrow> rnd x \<le> 0"
  using rnd_mono [of x 0] by (simp add: rnd_zero)

lemma rnd_sub_le: "rnd a = a \<Longrightarrow> 0 \<le> b \<Longrightarrow> rnd (a - b) \<le> a"
  using rnd_mono [of "a - b" a] by simp

lemma rnd_sub_ge: "rnd a = a \<Longrightarrow> b \<le> 0 \<Longrightarrow> a \<le> rnd (a - b)"
  using rnd_mono [of a "a - b"] by simp

lemma rnd_sub_nonneg: "b \<le> a \<Longrightarrow> 0 \<le> rnd (a - b)"
  by (rule rnd_nonneg) simp

lemma rnd_le_of_le: "rnd y = y \<Longrightarrow> x \<le> y \<Longrightarrow> rnd x \<le> y"
  using rnd_mono [of x y] by simp

lemma rnd_ge_of_ge: "rnd x = x \<Longrightarrow> x \<le> y \<Longrightarrow> x \<le> rnd y"
  using rnd_mono [of x y] by simp

lemma rnd_gt_iff: "rnd y = y \<Longrightarrow> y < rnd x \<Longrightarrow> y < x"
  using rnd_le_of_le [of y x] by (simp add: not_le [symmetric] del: not_le) blast

end

interpretation b64: rounding dbl
  by unfold_locales (simp_all add: dbl_mono dbl_minus is_dbl_dbl [unfolded is_dbl_def])

lemma dbl_idem [simp]: "dbl (dbl x) = dbl x"
  by (rule b64.rnd_idem)

lemma is_dbl_ops [simp]:
  "is_dbl (dadd a b)" "is_dbl (dsub a b)" "is_dbl (dmul a b)" "is_dbl (ddiv a b)" "is_dbl (d_of_int i)"
  by (simp_all add: dadd_def dsub_def dmul_def ddiv_def d_of_int_def)

lemma d_of_int_exact: "\<bar>i\<bar> \<le> 2 ^ 53 \<Longrightarrow> d_of_int i = of_int i"
  using is_dbl_of_int [of i] by (simp add: d_of_int_def is_dbl_def)

lemma dsub_le: "is_dbl a \<Longrightarrow> 0 \<le> b \<Longrightarrow> dsub a b \<le> a"
  unfolding dsub_def is_dbl_def by (rule b64.rnd_sub_le)

lemma dsub_ge: "is_dbl a \<Longrightarrow> b \<le> 0 \<Longrightarrow> a \<le> dsub a b"
  unfolding dsub_def is_dbl_def by (rule b64.rnd_sub_ge)

lemma dsub_nonneg: "b \<le> a \<Longrightarrow> 0 \<le> dsub a b"
  unfolding dsub_def by (rule b64.rnd_sub_nonneg)

lemma dsub_0 [simp]: "is_dbl a \<Longrightarrow> dsub a 0 = a"
  by (simp add: dsub_def is_dbl_def)

lemma dmul_nonneg: "0 \<le> a \<Longrightarrow> 0 \<le> b \<Longrightarrow> 0 \<le> dmul a b"
  unfolding dmul_def by (intro b64.rnd_nonneg mult_nonneg_nonneg)

lemma dadd_nonneg: "0 \<le> a \<Longrightarrow> 0 \<le> b \<Longrightarrow> 0 \<le> dadd a b"
  unfolding dadd_def by (intro b64.rnd_nonneg add_nonneg_nonneg)

lemma d_of_int_nonneg: "0 \<le> i \<Longrightarrow> 0 \<le> d_of_int i"
  unfolding d_of_int_def by (intro b64.rnd_nonneg) simp

end
