(* ===== verification/Stg_Tariff.thy ===== *)
theory Stg_Tariff
  imports Stg_Double
begin

text \<open>
  Tariffs: the enumerations of \<open>include/stg/tariff.h\<close>, the configuration records and
  their optional (partial update) counterparts of \<open>include/stg/tariff_conf.h\<close> and
  \<open>include/stg/splice.h\<close>, and the price computation of
  \<open>projects/stargazer/tariff_impl.cpp\<close>. The C library's \<open>localtime\<close> depends on
  the time zone of the host and is a parameter \<open>lt\<close> of the operations that call it.
\<close>

subsection \<open>Constants and broken-down time\<close>

definition DIR_NUM :: nat where
  "DIR_NUM = 10"

definition NO_TARIFF_NAME :: string where
  "NO_TARIFF_NAME = ''*_NO_TARIFF_*''"

record tm =
  tm_min :: int
  tm_hour :: int
  tm_mday :: int
  tm_mon :: int
  tm_year :: int

text \<open>What the C standard promises of the fields \<open>localtime\<close> fills in.\<close>

definition tm_ok :: "tm \<Rightarrow> bool" where
  "tm_ok t \<longleftrightarrow> 0 \<le> tm_min t \<and> tm_min t < 60 \<and> 0 \<le> tm_hour t \<and> tm_hour t < 24
     \<and> 1 \<le> tm_mday t \<and> tm_mday t \<le> 31 \<and> 0 \<le> tm_mon t \<and> tm_mon t < 12"

text \<open>The night of January 15, 2024, 23:30: a sample for evaluations.\<close>

definition example_tm :: tm where
  "example_tm = \<lparr>tm_min = 30, tm_hour = 23, tm_mday = 15, tm_mon = 0, tm_year = 124\<rparr>"

lemma example_tm_ok [simp]: "tm_ok example_tm"
  by (simp add: tm_ok_def example_tm_def)

subsection \<open>Enumerations\<close>

datatype change_policy = ALLOW | TO_CHEAP | TO_EXPENSIVE | DENY

datatype period = DAY | MONTH

datatype traff_type = TRAFF_UP | TRAFF_DOWN | TRAFF_UP_DOWN | TRAFF_MAX

fun toString_ChangePolicy :: "change_policy \<Rightarrow> string" where
  "toString_ChangePolicy ALLOW = ''allow''"
| "toString_ChangePolicy TO_CHEAP = ''to_cheap''"
| "toString_ChangePolicy TO_EXPENSIVE = ''to_expensive''"
| "toString_ChangePolicy DENY = ''deny''"

definition parseChangePolicy :: "string \<Rightarrow> change_policy" where
  "parseChangePolicy value =
     (if strcaseeq value ''to_cheap'' then TO_CHEAP
      else if strcaseeq value ''to_expensive'' then TO_EXPENSIVE
      else if strcaseeq value ''deny'' then DENY
      else ALLOW)"

fun toString_Period :: "period \<Rightarrow> string" where
  "toString_Period DAY = ''day''"
| "toString_Period MONTH = ''month''"

definition parsePeriod :: "string \<Rightarrow> period" where
  "parsePeriod value = (if strcaseeq value ''day'' then DAY else MONTH)"

fun toString_TraffType :: "traff_type \<Rightarrow> string" where
  "toString_TraffType TRAFF_UP = ''up''"
| "toString_TraffType TRAFF_DOWN = ''down''"
| "toString_TraffType TRAFF_UP_DOWN = ''up+down''"
| "toString_TraffType TRAFF_MAX = ''max''"

definition parseTraffType :: "string \<Rightarrow> traff_type" where
  "parseTraffType value =
     (if strcaseeq value ''up'' then TRAFF_UP
      else if strcaseeq value ''down'' then TRAFF_DOWN
      else if strcaseeq value ''up+down'' then TRAFF_UP_DOWN
      else if strcaseeq value ''max'' then TRAFF_MAX
      else TRAFF_UP_DOWN)"

text \<open>The numeric values of \<open>Tariff::TraffType\<close> and the checked cast back.\<close>

fun traff_type_num :: "traff_type \<Rightarrow> int" where
  "traff_type_num TRAFF_UP = 0"
| "traff_type_num TRAFF_DOWN = 1"
| "traff_type_num TRAFF_UP_DOWN = 2"
| "traff_type_num TRAFF_MAX = 3"

definition TraffType_fromInt :: "int \<Rightarrow> traff_type" where
  "TraffType_fromInt value =
     (if value < 0 \<or> value > 3 then TRAFF_UP_DOWN
      else if value = 0 then TRAFF_UP
      else if value = 1 then TRAFF_DOWN
      else if value = 2 then TRAFF_UP_DOWN
      else TRAFF_MAX)"

subsection \<open>Configuration records\<close>

record dir_price_data =
  hDay :: int
  mDay :: int
  hNight :: int
  mNight :: int
  priceDayA :: double
  priceNightA :: double
  priceDayB :: double
  priceNightB :: double
  threshold :: int
  singlePrice :: int
  noDiscount :: int

definition DirPriceData :: dir_price_data where
  "DirPriceData = \<lparr>hDay = 0, mDay = 0, hNight = 0, mNight = 0,
     priceDayA = 0, priceNightA = 0, priceDayB = 0, priceNightB = 0,
     threshold = 0, singlePrice = 0, noDiscount = 0\<rparr>"

lemma DirPriceData_noDiscount: "noDiscount DirPriceData = 0"
  by (simp add: DirPriceData_def)

record dir_price_data_opt =
  hDay_o :: "int option"
  mDay_o :: "int option"
  hNight_o :: "int option"
  mNight_o :: "int option"
  priceDayA_o :: "double option"
  priceNightA_o :: "double option"
  priceDayB_o :: "double option"
  priceNightB_o :: "double option"
  threshold_o :: "int option"
  singlePrice_o :: "int option"
  noDiscount_o :: "int option"

text \<open>\<open>std::optional::value_or\<close> and \<open>STG::splice\<close>.\<close>

definition value_or :: "'a option \<Rightarrow> 'a \<Rightarrow> 'a" where
  "value_or x d = (case x of None \<Rightarrow> d | Some v \<Rightarrow> v)"

definition splice_opt :: "'a option \<Rightarrow> 'a option \<Rightarrow> 'a option" where
  "splice_opt lhs rhs = (case rhs of None \<Rightarrow> lhs | Some v \<Rightarrow> Some v)"

lemma value_or_simps [simp]: "value_or None d = d" "value_or (Some v) d = v"
  by (simp_all add: value_or_def)

lemma value_or_splice [simp]: "value_or (splice_opt a b) d = value_or b (value_or a d)"
  by (simp add: value_or_def splice_opt_def split: option.split)

lemma splice_opt_assoc: "splice_opt (splice_opt a b) c = splice_opt a (splice_opt b c)"
  by (simp add: splice_opt_def split: option.split)

definition DirPriceDataOpt_empty :: dir_price_data_opt where
  "DirPriceDataOpt_empty = \<lparr>hDay_o = None, mDay_o = None, hNight_o = None, mNight_o = None,
     priceDayA_o = None, priceNightA_o = None, priceDayB_o = None, priceNightB_o = None,
     threshold_o = None, singlePrice_o = None, noDiscount_o = None\<rparr>"

definition DirPriceDataOpt :: "dir_price_data \<Rightarrow> dir_price_data_opt" where
  "DirPriceDataOpt data = \<lparr>hDay_o = Some (hDay data), mDay_o = Some (mDay data),
     hNight_o = Some (hNight data), mNight_o = Some (mNight data),
     priceDayA_o = Some (priceDayA data), priceNightA_o = Some (priceNightA data),
     priceDayB_o = Some (priceDayB data), priceNightB_o = Some (priceNightB data),
     threshold_o = Some (threshold data), singlePrice_o = Some (singlePrice data),
     noDiscount_o = Some (noDiscount data)\<rparr>"

definition DirPriceDataOpt_splice ::
    "dir_price_data_opt \<Rightarrow> dir_price_data_opt \<Rightarrow> dir_price_data_opt" where
  "DirPriceDataOpt_splice d rhs =
     \<lparr>hDay_o = splice_opt (hDay_o d) (hDay_o rhs),
      mDay_o = splice_opt (mDay_o d) (mDay_o rhs),
      hNight_o = splice_opt (hNight_o d) (hNight_o rhs),
      mNight_o = splice_opt (mNight_o d) (mNight_o rhs),
      priceDayA_o = splice_opt (priceDayA_o d) (priceDayA_o rhs),
      priceNightA_o = splice_opt (priceNightA_o d) (priceNightA_o rhs),
      priceDayB_o = splice_opt (priceDayB_o d) (priceDayB_o rhs),
      priceNightB_o = splice_opt (priceNightB_o d) (priceNightB_o rhs),
      threshold_o = splice_opt (threshold_o d) (threshold_o rhs),
      singlePrice_o = splice_opt (singlePrice_o d) (singlePrice_o rhs),
      noDiscount_o = splice_opt (noDiscount_o d) (noDiscount_o rhs)\<rparr>"

definition DirPriceDataOpt_get :: "dir_price_data_opt \<Rightarrow> dir_price_data \<Rightarrow> dir_price_data" where
  "DirPriceDataOpt_get d defaultValue =
     \<lparr>hDay = value_or (hDay_o d) (hDay defaultValue),
      mDay = value_or (mDay_o d) (mDay defaultValue),
      hNight = value_or (hNight_o d) (hNight defaultValue),
      mNight = value_or (mNight_o d) (mNight defaultValue),
      priceDayA = value_or (priceDayA_o d) (priceDayA defaultValue),
      priceNightA = value_or (priceNightA_o d) (priceNightA defaultValue),
      priceDayB = value_or (priceDayB_o d) (priceDayB defaultValue),
      priceNightB = value_or (priceNightB_o d) (priceNightB defaultValue),
      threshold = value_or (threshold_o d) (threshold defaultValue),
      singlePrice = value_or (singlePrice_o d) (singlePrice defaultValue),
      noDiscount = value_or (noDiscount_o d) (noDiscount defaultValue)\<rparr>"

record tariff_conf =
  tc_fee :: double
  tc_free :: double
  tc_traffType :: traff_type
  tc_passiveCost :: double
  tc_name :: string
  tc_period :: period
  tc_changePolicy :: change_policy
  tc_changePolicyTimeout :: time_t

definition TariffConf :: "string \<Rightarrow> tariff_conf" where
  "TariffConf n = \<lparr>tc_fee = 0, tc_free = 0, tc_traffType = TRAFF_UP_DOWN, tc_passiveCost = 0,
     tc_name = n, tc_period = MONTH, tc_changePolicy = ALLOW, tc_changePolicyTimeout = 0\<rparr>"

record tariff_conf_opt =
  fee_o :: "double option"
  free_o :: "double option"
  traffType_o :: "traff_type option"
  passiveCost_o :: "double option"
  name_o :: "string option"
  period_o :: "period option"
  changePolicy_o :: "change_policy option"
  changePolicyTimeout_o :: "time_t option"

definition TariffConfOpt_empty :: tariff_conf_opt where
  "TariffConfOpt_empty = \<lparr>fee_o = None, free_o = None, traffType_o = None, passiveCost_o = None,
     name_o = None, period_o = None, changePolicy_o = None, changePolicyTimeout_o = None\<rparr>"

definition TariffConfOpt :: "tariff_conf \<Rightarrow> tariff_conf_opt" where
  "TariffConfOpt data = \<lparr>fee_o = Some (tc_fee data), free_o = Some (tc_free data),
     traffType_o = Some (tc_traffType data), passiveCost_o = Some (tc_passiveCost data),
     name_o = Some (tc_name data), period_o = Some (tc_period data),
     changePolicy_o = Some (tc_changePolicy data),
     changePolicyTimeout_o = Some (tc_changePolicyTimeout data)\<rparr>"

definition TariffConfOpt_get :: "tariff_conf_opt \<Rightarrow> tariff_conf \<Rightarrow> tariff_conf" where
  "TariffConfOpt_get c defaultValue =
     \<lparr>tc_fee = value_or (fee_o c) (tc_fee defaultValue),
      tc_free = value_or (free_o c) (tc_free defaultValue),
      tc_traffType = value_or (traffType_o c) (tc_traffType defaultValue),
      tc_passiveCost = value_or (passiveCost_o c) (tc_passiveCost defaultValue),
      tc_name = value_or (name_o c) (tc_name defaultValue),
      tc_period = value_or (period_o c) (tc_period defaultValue),
      tc_changePolicy = value_or (changePolicy_o c) (tc_changePolicy defaultValue),
      tc_changePolicyTimeout =
        value_or (changePolicyTimeout_o c) (tc_changePolicyTimeout defaultValue)\<rparr>"

record tariff_data =
  tariffConf :: tariff_conf
  dirPrice :: "dir_price_data list"

definition TariffData :: "string \<Rightarrow> tariff_data" where
  "TariffData name = \<lparr>tariffConf = TariffConf name, dirPrice = replicate DIR_NUM DirPriceData\<rparr>"

text \<open>The vector of prices always has one entry per direction.\<close>

definition tariff_wf :: "tariff_data \<Rightarrow> bool" where
  "tariff_wf td \<longleftrightarrow> length (dirPrice td) = DIR_NUM"

record tariff_data_opt =
  tariffConf_o :: tariff_conf_opt
  dirPrice_o :: "dir_price_data_opt list"

definition TariffDataOpt_empty :: tariff_data_opt where
  "TariffDataOpt_empty = \<lparr>tariffConf_o = TariffConfOpt_empty,
     dirPrice_o = replicate DIR_NUM DirPriceDataOpt_empty\<rparr>"

definition TariffDataOpt :: "tariff_data \<Rightarrow> tariff_data_opt" where
  "TariffDataOpt data = \<lparr>tariffConf_o = TariffConfOpt (tariffConf data),
     dirPrice_o = map (\<lambda>i. DirPriceDataOpt (dirPrice data ! i)) [0..<DIR_NUM]\<rparr>"

definition TariffDataOpt_get :: "tariff_data_opt \<Rightarrow> tariff_data \<Rightarrow> tariff_data" where
  "TariffDataOpt_get d defaultValue =
     \<lparr>tariffConf = TariffConfOpt_get (tariffConf_o d) (tariffConf defaultValue),
      dirPrice = map (\<lambda>i. DirPriceDataOpt_get (dirPrice_o d ! i) (dirPrice defaultValue ! i))
        [0..<DIR_NUM]\<rparr>"

subsection \<open>Prices\<close>

abbreviation GetFee :: "tariff_data \<Rightarrow> double" where
  "GetFee td \<equiv> tc_fee (tariffConf td)"

abbreviation GetFree :: "tariff_data \<Rightarrow> double" where
  "GetFree td \<equiv> tc_free (tariffConf td)"

abbreviation GetPassiveCost :: "tariff_data \<Rightarrow> double" where
  "GetPassiveCost td \<equiv> tc_passiveCost (tariffConf td)"

abbreviation GetPeriod :: "tariff_data \<Rightarrow> period" where
  "GetPeriod td \<equiv> tc_period (tariffConf td)"

abbreviation GetName :: "tariff_data \<Rightarrow> string" where
  "GetName td \<equiv> tc_name (tariffConf td)"

abbreviation GetTraffType :: "tariff_data \<Rightarrow> traff_type" where
  "GetTraffType td \<equiv> tc_traffType (tariffConf td)"

definition GetThreshold :: "tariff_data \<Rightarrow> nat \<Rightarrow> int" where
  "GetThreshold td dir = threshold (dirPrice td ! dir)"

text \<open>The result is an \<open>int64_t\<close>: the unsigned sum is reread as a signed value.\<close>

definition GetTraffByType :: "tariff_data \<Rightarrow> u64 \<Rightarrow> u64 \<Rightarrow> int" where
  "GetTraffByType td up down =
     (case tc_traffType (tariffConf td) of
        TRAFF_UP \<Rightarrow> sint up
      | TRAFF_DOWN \<Rightarrow> sint down
      | TRAFF_MAX \<Rightarrow> sint (max up down)
      | TRAFF_UP_DOWN \<Rightarrow> sint (up + down))"

definition TARIFF_DAY :: int where "TARIFF_DAY = 0"

definition TARIFF_NIGHT :: int where "TARIFF_NIGHT = 1"

definition Interval :: "(time_t \<Rightarrow> tm) \<Rightarrow> tariff_data \<Rightarrow> nat \<Rightarrow> time_t \<Rightarrow> int" where
  "Interval lt td dir t =
     (let d = dirPrice td ! dir;
          s1 = i32 (i32 (hDay d * 3600) + i32 (mDay d * 60));
          s2 = i32 (i32 (hNight d * 3600) + i32 (mNight d * 60));
          lts = i32 (tm_hour (lt t) * 3600 + tm_min (lt t) * 60)
      in if s1 < s2
         then (if lts > s1 \<and> lts < s2 then TARIFF_DAY else TARIFF_NIGHT)
         else (if lts < s1 \<and> lts > s2 then TARIFF_NIGHT else TARIFF_DAY))"

definition GetPriceWithoutFreeMb ::
    "(time_t \<Rightarrow> tm) \<Rightarrow> tariff_data \<Rightarrow> nat \<Rightarrow> int \<Rightarrow> time_t \<Rightarrow> double" where
  "GetPriceWithoutFreeMb lt td dir mb t =
     (let interval = Interval lt td dir t;
          d = dirPrice td ! dir;
          nd = noDiscount d \<noteq> 0;
          sp = singlePrice d \<noteq> 0;
          th = interval = TARIFF_NIGHT;
          tr = mb > threshold d
      in if \<not> nd \<and> \<not> sp \<and> th \<and> tr then priceNightB d
         else if \<not> nd \<and> tr then priceDayB d
         else if \<not> sp \<and> th then priceNightA d
         else priceDayA d)"

definition GetPriceWithTraffType ::
    "(time_t \<Rightarrow> tm) \<Rightarrow> tariff_data \<Rightarrow> u64 \<Rightarrow> u64 \<Rightarrow> nat \<Rightarrow> time_t \<Rightarrow> double" where
  "GetPriceWithTraffType lt td up down dir t =
     GetPriceWithoutFreeMb lt td dir (GetTraffByType td up down sdiv (1024 * 1024)) t"

definition TariffChangeIsAllowed :: "tariff_data \<Rightarrow> tariff_data \<Rightarrow> time_t \<Rightarrow> string" where
  "TariffChangeIsAllowed td to currentTime =
     (let timeout = tc_changePolicyTimeout (tariffConf td);
          policy = tc_changePolicy (tariffConf td)
      in if currentTime > timeout \<and> timeout \<noteq> 0 then ''''
         else case policy of
           ALLOW \<Rightarrow> ''''
         | TO_CHEAP \<Rightarrow>
             (if GetFee to < GetFee td then ''''
              else ''New tariff '' @ squote (GetName to) @ '' is more expensive than current tariff ''
                @ squote (GetName td) @ ''. The policy is ''
                @ squote (toString_ChangePolicy policy) @ ''.'')
         | TO_EXPENSIVE \<Rightarrow>
             (if GetFee to \<ge> GetFee td then ''''
              else ''New tariff '' @ squote (GetName to) @ '' is more cheap than current tariff ''
                @ squote (GetName td) @ ''. The policy is ''
                @ squote (toString_ChangePolicy policy) @ ''.'')
         | DENY \<Rightarrow>
             ''Current tariff '' @ squote (GetName td) @ '', new tariff '' @ squote (GetName to)
                @ ''. The policy is '' @ squote (toString_ChangePolicy policy) @ ''.'')"

lemmas tariff_defs [stg_defs] =
  GetPriceWithTraffType_def GetPriceWithoutFreeMb_def Interval_def GetThreshold_def

subsection \<open>Text forms of the enumerations\<close>

lemma parse_toString_ChangePolicy: "parseChangePolicy (toString_ChangePolicy p) = p"
  by (cases p) (simp_all add: parseChangePolicy_def strcaseeq_def tolower_c_def)

lemma parse_toString_Period: "parsePeriod (toString_Period p) = p"
  by (cases p) (simp_all add: parsePeriod_def strcaseeq_def tolower_c_def)

lemma parse_toString_TraffType: "parseTraffType (toString_TraffType t) = t"
  by (cases t) (simp_all add: parseTraffType_def strcaseeq_def tolower_c_def)

lemma parse_ignores_case:
  assumes "strcaseeq a b"
  shows "parseChangePolicy a = parseChangePolicy b" "parsePeriod a = parsePeriod b"
    "parseTraffType a = parseTraffType b"
  using assms
  by (simp_all add: strcaseeq_def parseChangePolicy_def parsePeriod_def parseTraffType_def)

lemma fromInt_num: "TraffType_fromInt (traff_type_num t) = t"
  by (cases t) (simp_all add: TraffType_fromInt_def)

lemma tolower_idem [simp]: "tolower_c (tolower_c c) = tolower_c c"
  by (auto simp: tolower_c_def Let_def)

lemma strcaseeq_ToLower: "strcaseeq (ToLower s) s"
  by (simp add: strcaseeq_def ToLower_def)

text \<open>Every enumeration of the tariff configuration survives being written as text (or as a
  number) and read back, and the readers ignore letter case.\<close>

theorem tariff_enum_roundtrip:
  "parseChangePolicy (toString_ChangePolicy p) = p \<and> parsePeriod (toString_Period q) = q
   \<and> parseTraffType (toString_TraffType t) = t \<and> TraffType_fromInt (traff_type_num t) = t
   \<and> parseChangePolicy (ToLower s) = parseChangePolicy s
   \<and> parsePeriod (ToLower s) = parsePeriod s \<and> parseTraffType (ToLower s) = parseTraffType s"
  by (simp add: parse_toString_ChangePolicy parse_toString_Period parse_toString_TraffType
      fromInt_num parse_ignores_case [OF strcaseeq_ToLower])

subsection \<open>Partial updates\<close>

lemma DirPriceDataOpt_get_full [simp]: "DirPriceDataOpt_get (DirPriceDataOpt d) e = d"
  by (simp add: DirPriceDataOpt_get_def DirPriceDataOpt_def)

lemma DirPriceDataOpt_get_empty [simp]: "DirPriceDataOpt_get DirPriceDataOpt_empty e = e"
  by (simp add: DirPriceDataOpt_get_def DirPriceDataOpt_empty_def)

lemma TariffConfOpt_get_full [simp]: "TariffConfOpt_get (TariffConfOpt c) e = c"
  by (simp add: TariffConfOpt_get_def TariffConfOpt_def)

lemma TariffConfOpt_get_empty [simp]: "TariffConfOpt_get TariffConfOpt_empty e = e"
  by (simp add: TariffConfOpt_get_def TariffConfOpt_empty_def)

text \<open>Splicing two partial direction updates and then filling in defaults is the same as
  filling in the defaults by the first and overriding the result by the second.\<close>

theorem dir_price_splice_get:
  "DirPriceDataOpt_get (DirPriceDataOpt_splice a b) d =
     DirPriceDataOpt_get b (DirPriceDataOpt_get a d)"
  by (simp add: DirPriceDataOpt_get_def DirPriceDataOpt_splice_def)

text \<open>A full tariff turned into a partial update and resolved against any default gives the
  tariff back, and an empty update leaves a well-formed tariff as it was.\<close>

theorem tariff_opt_roundtrip:
  assumes "tariff_wf td"
  shows "TariffDataOpt_get (TariffDataOpt td) d = td \<and> TariffDataOpt_get TariffDataOpt_empty td = td"
proof -
  have full: "map (\<lambda>i. DirPriceDataOpt_get
      (map (\<lambda>i. DirPriceDataOpt (dirPrice td ! i)) [0..<DIR_NUM] ! i) (dirPrice d ! i)) [0..<DIR_NUM]
      = dirPrice td"
    by (rule nth_equalityI) (use assms in \<open>simp_all add: tariff_wf_def\<close>)
  have empty: "map (\<lambda>i. DirPriceDataOpt_get (replicate DIR_NUM DirPriceDataOpt_empty ! i)
      (dirPrice td ! i)) [0..<DIR_NUM] = dirPrice td"
    by (rule nth_equalityI) (use assms in \<open>simp_all add: tariff_wf_def\<close>)
  show ?thesis
    by (simp add: TariffDataOpt_get_def TariffDataOpt_def TariffDataOpt_empty_def full empty)
qed

theorem tariff_opt_roundtrip_witness:
  "tariff_wf (TariffData ''t'')
   \<and> TariffDataOpt_get (TariffDataOpt (TariffData ''t'')) (TariffData ''u'') = TariffData ''t''"
proof -
  have wf: "tariff_wf (TariffData ''t'')" by (simp add: tariff_wf_def TariffData_def)
  show ?thesis using wf tariff_opt_roundtrip [OF wf, of "TariffData ''u''"] by simp
qed

subsection \<open>Day and night\<close>

text \<open>Seconds from midnight, at minute precision; hours and minutes in their calendar ranges.\<close>

definition day_start :: "dir_price_data \<Rightarrow> int" where
  "day_start d = hDay d * 3600 + mDay d * 60"

definition night_start :: "dir_price_data \<Rightarrow> int" where
  "night_start d = hNight d * 3600 + mNight d * 60"

definition sec_of_day :: "tm \<Rightarrow> int" where
  "sec_of_day t = tm_hour t * 3600 + tm_min t * 60"

definition times_ok :: "dir_price_data \<Rightarrow> bool" where
  "times_ok d \<longleftrightarrow> 0 \<le> hDay d \<and> hDay d < 24 \<and> 0 \<le> mDay d \<and> mDay d < 60
     \<and> 0 \<le> hNight d \<and> hNight d < 24 \<and> 0 \<le> mNight d \<and> mNight d < 60"

lemma day_starts_bounds:
  assumes "times_ok d"
  shows "0 \<le> day_start d" "day_start d < 86400" "0 \<le> night_start d" "night_start d < 86400"
  using assms by (auto simp: times_ok_def day_start_def night_start_def)

lemma sec_of_day_bounds: "tm_ok t \<Longrightarrow> 0 \<le> sec_of_day t \<and> sec_of_day t < 86400"
  by (auto simp: tm_ok_def sec_of_day_def)

lemma Interval_no_wrap:
  assumes "times_ok (dirPrice td ! dir)" and "tm_ok (lt t)"
  shows "Interval lt td dir t =
    (let d = dirPrice td ! dir; s1 = day_start d; s2 = night_start d; x = sec_of_day (lt t) in
     if s1 < s2 then (if s1 < x \<and> x < s2 then TARIFF_DAY else TARIFF_NIGHT)
     else (if x < s1 \<and> s2 < x then TARIFF_NIGHT else TARIFF_DAY))"
proof -
  let ?d = "dirPrice td ! dir"
  have parts: "i32 (hDay ?d * 3600) = hDay ?d * 3600" "i32 (mDay ?d * 60) = mDay ?d * 60"
    "i32 (hNight ?d * 3600) = hNight ?d * 3600" "i32 (mNight ?d * 60) = mNight ?d * 60"
    using assms(1) by (auto simp: times_ok_def intro!: i32_id)
  have sums: "i32 (day_start ?d) = day_start ?d" "i32 (night_start ?d) = night_start ?d"
    "i32 (sec_of_day (lt t)) = sec_of_day (lt t)"
    using day_starts_bounds [OF assms(1)] sec_of_day_bounds [OF assms(2)]
    by (auto intro!: i32_id)
  show ?thesis
    using sums by (simp add: Interval_def parts Let_def day_start_def night_start_def sec_of_day_def)
qed

text \<open>With calendar-valid switching times the tariff interval is the circular one: away from
  the two switching minutes, time \<open>t\<close> is charged as day exactly when, going forward from the day
  start, it comes before the night start, also when the day spans midnight.\<close>

theorem interval_circular:
  assumes "times_ok (dirPrice td ! dir)" and "tm_ok (lt t)"
    and "day_start (dirPrice td ! dir) \<noteq> night_start (dirPrice td ! dir)"
    and "sec_of_day (lt t) \<noteq> day_start (dirPrice td ! dir)"
    and "sec_of_day (lt t) \<noteq> night_start (dirPrice td ! dir)"
  shows "Interval lt td dir t = TARIFF_DAY \<longleftrightarrow>
    (sec_of_day (lt t) - day_start (dirPrice td ! dir)) mod 86400
      < (night_start (dirPrice td ! dir) - day_start (dirPrice td ! dir)) mod 86400"
proof -
  let ?d = "dirPrice td ! dir"
  define s1 s2 x where "s1 = day_start ?d" and "s2 = night_start ?d" and "x = sec_of_day (lt t)"
  have b: "0 \<le> s1" "s1 < 86400" "0 \<le> s2" "s2 < 86400" "0 \<le> x" "x < 86400"
    using day_starts_bounds [OF assms(1)] sec_of_day_bounds [OF assms(2)]
    by (simp_all add: s1_def s2_def x_def)
  have m: "(a - s1) mod 86400 = (if s1 \<le> a then a - s1 else a - s1 + 86400)"
    if "0 \<le> a" "a < 86400" for a
    using that b mod_circular [of 86400 "a - s1"] by auto
  show ?thesis
    unfolding Interval_no_wrap [where lt = lt and t = t, OF assms(1,2)] Let_def
      s1_def [symmetric] s2_def [symmetric] x_def [symmetric]
    using assms(3-5) b m [of x] m [of s2]
    by (simp add: TARIFF_DAY_def TARIFF_NIGHT_def s1_def [symmetric] s2_def [symmetric]
        x_def [symmetric] split: if_splits) linarith?
qed

theorem interval_circular_witness:
  "(let d = DirPriceData\<lparr>hDay := 22, hNight := 6\<rparr>;
        td = (TariffData ''t'')\<lparr>dirPrice := replicate DIR_NUM d\<rparr>;
        lt = (\<lambda>_. example_tm)
    in Interval lt td 3 0 = TARIFF_DAY)"
proof -
  let ?d = "DirPriceData\<lparr>hDay := 22, hNight := 6\<rparr>"
  let ?td = "(TariffData ''t'')\<lparr>dirPrice := replicate DIR_NUM ?d\<rparr>"
  let ?lt = "\<lambda>_::int. example_tm"
  have d: "dirPrice ?td ! 3 = ?d" by (simp add: DIR_NUM_def)
  have "Interval ?lt ?td 3 0 = TARIFF_DAY \<longleftrightarrow>
     (sec_of_day (?lt 0) - day_start ?d) mod 86400 < (night_start ?d - day_start ?d) mod 86400"
    using interval_circular [of ?td 3 ?lt 0] unfolding d
    by (simp add: times_ok_def tm_ok_def day_start_def night_start_def sec_of_day_def DirPriceData_def
        example_tm_def)
  then show ?thesis
    by (simp add: Let_def sec_of_day_def day_start_def night_start_def DirPriceData_def example_tm_def)
qed

subsection \<open>The price table\<close>

text \<open>The specification of a price: two independent switches select one of four prices.\<close>

definition price_table :: "dir_price_data \<Rightarrow> bool \<Rightarrow> bool \<Rightarrow> double" where
  "price_table d night discount =
     (if discount then (if night then priceNightB d else priceDayB d)
      else (if night then priceNightA d else priceDayA d))"

lemma GetPriceWithoutFreeMb_table:
  "GetPriceWithoutFreeMb lt td dir mb t =
     price_table (dirPrice td ! dir)
       (singlePrice (dirPrice td ! dir) = 0 \<and> Interval lt td dir t = TARIFF_NIGHT)
       (noDiscount (dirPrice td ! dir) = 0 \<and> threshold (dirPrice td ! dir) < mb)"
  by (auto simp: GetPriceWithoutFreeMb_def price_table_def Let_def)

lemma mb_above_threshold:
  fixes n thr :: int
  assumes "0 \<le> n"
  shows "thr < n sdiv (1024 * 1024) \<longleftrightarrow> (thr + 1) * (1024 * 1024) \<le> n"
proof -
  have "n sdiv (1024 * 1024) = n div (1024 * 1024)"
    using assms by (simp add: signed_divide_int_def sgn_if)
  then show ?thesis by (simp add: less_div_iff_int)
qed



text \<open>Counting traffic by the tariff's rule never loses a byte while the total stays below
  \<open>2 ^ 63\<close>: the signed result is exactly the upload, the download, their sum or their maximum.\<close>

theorem traff_by_type_exact:
  assumes "uint up + uint down < 2 ^ 63"
  shows "GetTraffByType td up down =
    (case tc_traffType (tariffConf td) of
       TRAFF_UP \<Rightarrow> uint up | TRAFF_DOWN \<Rightarrow> uint down
     | TRAFF_UP_DOWN \<Rightarrow> uint up + uint down | TRAFF_MAX \<Rightarrow> max (uint up) (uint down))"
proof -
  have nn: "0 \<le> uint up" "0 \<le> uint down" by simp_all
  then have s: "uint (up + down) = uint up + uint down"
    using assms by (simp add: uint_plus_if_size word_size)
  have "sint up = uint up" "sint down = uint down" "sint (up + down) = uint up + uint down"
    using assms nn sint64_of_small [of up] sint64_of_small [of down] sint64_of_small [of "up + down"]
    unfolding s by linarith+
  then show ?thesis
    by (auto simp: GetTraffByType_def max_def word_le_def split: traff_type.split)
qed

theorem traff_by_type_exact_witness:
  "uint (5 :: u64) + uint (7 :: u64) < 2 ^ 63 \<and> GetTraffByType (TariffData ''t'') 5 7 = 12"
proof -
  have h: "uint (5 :: u64) + uint (7 :: u64) < 2 ^ 63" by simp
  show ?thesis
    using h traff_by_type_exact [OF h, of "TariffData ''t''"] by (simp add: TariffData_def TariffConf_def)
qed

text \<open>The tariff change check answers with the empty string (allowed) exactly when the policy's
  time limit has passed, or the policy allows any change, or the fee moves in the direction the
  policy asks for; in every other case it returns an explanation.\<close>

theorem tariff_change_allowed_iff:
  "TariffChangeIsAllowed td to now = '''' \<longleftrightarrow>
     (tc_changePolicyTimeout (tariffConf td) \<noteq> 0 \<and> now > tc_changePolicyTimeout (tariffConf td))
     \<or> (case tc_changePolicy (tariffConf td) of
          ALLOW \<Rightarrow> True
        | TO_CHEAP \<Rightarrow> GetFee to < GetFee td
        | TO_EXPENSIVE \<Rightarrow> GetFee to \<ge> GetFee td
        | DENY \<Rightarrow> False)"
  by (auto simp: TariffChangeIsAllowed_def Let_def split: change_policy.split)

end
