(* ===== verification/Stg_Text.thy ===== *)
theory Stg_Text
  imports Stg_Tariff
begin

text \<open>
  Helpers of \<open>libs/common/common.cpp\<close> and the number formats of the C++ library the server
  uses in log lines, change records and script arguments: \<open>%f\<close> and \<open>std::fixed\<close> (six
  decimals) and the default format of an output stream (six significant digits, as \<open>%g\<close>).
  A double is printed from its exact value, rounded to nearest with ties to even.
\<close>

subsection \<open>Number formats\<close>

definition pad_left :: "nat \<Rightarrow> string \<Rightarrow> string" where
  "pad_left n s = replicate (n - length s) (CHR ''0'') @ s"

definition show_fixed6 :: "double \<Rightarrow> string" where
  "show_fixed6 x =
     (let m = nat (rne (\<bar>x\<bar> * 10 ^ 6))
      in (if x < 0 then ''-'' else '''') @ show_nat (m div 10 ^ 6) @ ''.''
         @ pad_left 6 (show_nat (m mod 10 ^ 6)))"

text \<open>The decimal exponent of a positive value; 400 steps reach below the least double.\<close>

fun exp10_down :: "nat \<Rightarrow> rat \<Rightarrow> int" where
  "exp10_down 0 x = 0"
| "exp10_down (Suc n) x = (if 1 \<le> x then 0 else exp10_down n (x * 10) - 1)"

definition exp10_of :: "rat \<Rightarrow> int" where
  "exp10_of x = (if 1 \<le> x then int (length (show_nat (nat \<lfloor>x\<rfloor>))) - 1 else exp10_down 400 x)"

definition strip0 :: "string \<Rightarrow> string" where
  "strip0 s = rev (dropWhile (\<lambda>c. c = CHR ''0'') (rev s))"

definition with_frac :: "string \<Rightarrow> string \<Rightarrow> string" where
  "with_frac a f = (if strip0 f = '''' then a else a @ ''.'' @ strip0 f)"

definition show_g6 :: "double \<Rightarrow> string" where
  "show_g6 x =
     (if x = 0 then ''0''
      else let e0 = exp10_of \<bar>x\<bar>;
               m0 = nat (rne (\<bar>x\<bar> / 10 powi (e0 - 5)));
               (m, e) = (if m0 = 10 ^ 6 then (10 ^ 5, e0 + 1) else (m0, e0));
               ds = show_nat m
           in (if x < 0 then ''-'' else '''') @
              (if - 4 \<le> e \<and> e < 6
               then if 0 \<le> e then with_frac (take (nat e + 1) ds) (drop (nat e + 1) ds)
                    else with_frac ''0'' (replicate (nat (- e) - 1) (CHR ''0'') @ ds)
               else with_frac (take 1 ds) (drop 1 ds) @ ''e'' @ (if e < 0 then ''-'' else ''+'')
                    @ pad_left 2 (show_nat (nat \<bar>e\<bar>))))"

text \<open>\<open>strprintf\<close> formats into a buffer of 1024 bytes.\<close>

definition strprintf :: "string \<Rightarrow> string" where
  "strprintf s = take 1023 s"

subsection \<open>The calendar\<close>

definition DaysInMonth :: "int \<Rightarrow> int \<Rightarrow> int" where
  "DaysInMonth year mon =
     (if mon = 1 then (if year mod 4 = 0 \<and> (year mod 100 \<noteq> 0 \<or> year mod 400 = 0) then 29 else 28)
      else if mon \<in> {3, 5, 8, 10} then 30
      else if mon \<in> {0, 2, 4, 6, 7, 9, 11} then 31
      else - 1)"

text \<open>Called with the years since 1900 that \<open>localtime\<close> delivers for \<open>time(NULL)\<close>; the
  argument is converted to \<open>unsigned\<close>.\<close>

definition DaysInCurrentMonth :: "(time_t \<Rightarrow> tm) \<Rightarrow> time_t \<Rightarrow> int" where
  "DaysInCurrentMonth lt now =
     DaysInMonth (uint (word_of_int (tm_year (lt now)) :: u32)) (uint (word_of_int (tm_mon (lt now)) :: u32))"

definition Min8 :: "int \<Rightarrow> int" where
  "Min8 a = (if a smod 8 = 0 then a else i32 (a + (8 - a smod 8)))"

subsection \<open>Two letters per byte\<close>

definition Encode12str :: "string \<Rightarrow> string" where
  "Encode12str src = concat (map (\<lambda>c. [char_of (97 + (of_char c :: nat) mod 16),
     char_of (97 + (of_char c :: nat) div 16)]) src)"

fun Decode21str :: "string \<Rightarrow> string" where
  "Decode21str (c1 # c2 # cs) =
     char_of (((of_char c1 :: int) - 97 + ((of_char c2 :: int) - 97) * 16) mod 256) # Decode21str cs"
| "Decode21str _ = []"

subsection \<open>Properties\<close>

lemma DaysInMonth_range: "0 \<le> m \<Longrightarrow> m < 12 \<Longrightarrow> 28 \<le> DaysInMonth y m \<and> DaysInMonth y m \<le> 31"
proof -
  assume "0 \<le> m" "m < 12"
  then have "m \<in> {0, 1, 2, 3, 4, 5, 6, 7, 8, 9, 10, 11}" by simp presburger
  then show ?thesis by (elim insertE emptyE) (simp_all add: DaysInMonth_def)
qed

lemma DaysInCurrentMonth_range:
  assumes "tm_ok (lt now)"
  shows "28 \<le> DaysInCurrentMonth lt now \<and> DaysInCurrentMonth lt now \<le> 31"
proof -
  have "uint (word_of_int (tm_mon (lt now)) :: u32) = tm_mon (lt now)"
    using assms by (simp add: tm_ok_def uint_word_of_int)
  then show ?thesis
    unfolding DaysInCurrentMonth_def using DaysInMonth_range assms by (simp add: tm_ok_def)
qed

text \<open>The Gregorian rule on full year numbers.\<close>

definition gregorian_days :: "int \<Rightarrow> int \<Rightarrow> int" where
  "gregorian_days y m =
     (if m = 1 \<and> y mod 4 = 0 \<and> (y mod 100 \<noteq> 0 \<or> y mod 400 = 0) then 29
      else [31, 28, 31, 30, 31, 30, 31, 31, 30, 31, 30, 31] ! nat m)"

lemma DaysInMonth_feb:
  assumes "(y::int) mod 100 = 0 \<longleftrightarrow> y = 100"
  shows "DaysInMonth y 1 = gregorian_days (1900 + y) 1 \<longleftrightarrow> y \<noteq> 100"
proof -
  have l: "(1900 + y) mod 4 = y mod 4" "(1900 + y) mod 100 = y mod 100"
    using mod_add_left_eq [of 1900 4 y] mod_add_left_eq [of 1900 100 y] by simp_all
  show ?thesis
  proof (cases "y = 100")
    case True
    then show ?thesis by (simp add: DaysInMonth_def gregorian_days_def)
  next
    case False
    then have "y mod 100 \<noteq> 0" using assms by simp
    then show ?thesis using False unfolding DaysInMonth_def gregorian_days_def l by simp
  qed
qed
lemma DaysInMonth_other:
  assumes "m \<in> {0, 2, 3, 4, 5, 6, 7, 8, 9, 10, 11}"
  shows "DaysInMonth y m = gregorian_days (1900 + y) m"
  using assms by (elim insertE emptyE) (simp_all add: DaysInMonth_def gregorian_days_def)

text \<open>The length of the current month is right for every month of the years 1901 to 2099 except
  February 2000: the leap-year rule for centuries is applied to the years since 1900.\<close>

theorem days_in_current_month:
  assumes "0 \<le> tm_mon (lt now)" and "tm_mon (lt now) < 12"
    and "0 < tm_year (lt now)" and "tm_year (lt now) < 200"
  shows "DaysInCurrentMonth lt now = gregorian_days (1900 + tm_year (lt now)) (tm_mon (lt now))
    \<longleftrightarrow> \<not> (tm_year (lt now) = 100 \<and> tm_mon (lt now) = 1)"
proof -
  define y m where "y = tm_year (lt now)" and "m = tm_mon (lt now)"
  have u: "uint (word_of_int y :: u32) = y" "uint (word_of_int m :: u32) = m"
    using assms by (simp_all add: y_def m_def uint_word_of_int)
  have m: "m = 1 \<or> m \<in> {0, 2, 3, 4, 5, 6, 7, 8, 9, 10, 11}"
    using assms(1,2) unfolding m_def by simp presburger
  have "y mod 100 = 0 \<longleftrightarrow> y = 100" using assms(3,4) unfolding y_def by presburger
  then have "DaysInMonth y m = gregorian_days (1900 + y) m \<longleftrightarrow> \<not> (y = 100 \<and> m = 1)"
    using m DaysInMonth_feb [of y] DaysInMonth_other [of m y] by auto
  then show ?thesis unfolding DaysInCurrentMonth_def using u by (simp add: y_def m_def)
qed

theorem days_in_current_month_witness:
  "DaysInCurrentMonth (\<lambda>_. example_tm\<lparr>tm_mon := 1\<rparr>) 0 = gregorian_days 2024 1
   \<and> DaysInCurrentMonth (\<lambda>_. example_tm\<lparr>tm_mon := 1, tm_year := 100\<rparr>) 0 \<noteq> gregorian_days 2000 1"
  using days_in_current_month [of "\<lambda>_. example_tm\<lparr>tm_mon := 1\<rparr>" 0]
    days_in_current_month [of "\<lambda>_. example_tm\<lparr>tm_mon := 1, tm_year := 100\<rparr>" 0]
  by (simp add: example_tm_def)

lemma Decode21_byte:
  fixes c :: char
  shows "char_of (((of_char (char_of (97 + (of_char c :: nat) mod 16)) :: int) - 97
      + ((of_char (char_of (97 + (of_char c :: nat) div 16)) :: int) - 97) * 16) mod 256) = c"
proof -
  have b: "(of_char c :: nat) < 256" by simp
  let ?n = "of_char c :: nat"
  have h: "97 + ?n mod 16 < 256" "97 + ?n div 16 < 256" using b by linarith+
  have o: "(of_char (char_of k) :: int) = int k" if "k < 256" for k :: nat
    using that by (metis mod_less of_char_of of_nat_of_char)
  have "int (?n mod 16) + 16 * int (?n div 16) = int ?n"
    by (metis mod_mult_div_eq of_nat_add of_nat_mult of_nat_numeral)
  moreover have "int (97 + k) - 97 = int k" for k by simp
  ultimately have e: "int (97 + ?n mod 16) - 97 + (int (97 + ?n div 16) - 97) * 16 = int ?n"
    by (simp only: mult.commute)
  show ?thesis
    unfolding o [OF h(1)] o [OF h(2)] e by (metis char_of_mod_256 char_of_char of_nat_of_char)
qed
lemma Encode12str_letters: "set (Encode12str s) \<subseteq> {CHR ''a''..CHR ''p''}"
proof
  fix x assume "x \<in> set (Encode12str s)"
  then obtain c where "x = char_of (97 + (of_char c :: nat) mod 16) \<or> x = char_of (97 + (of_char c :: nat) div 16)"
    by (auto simp: Encode12str_def)
  moreover have "(of_char c :: nat) div 16 < 16" using nat_of_char_less_256 [of c] by linarith
  ultimately obtain k where x: "x = char_of (97 + k)" and k: "k < (16 :: nat)"
    by (metis mod_less_divisor zero_less_numeral)
  have "(of_char x :: nat) = 97 + k" using x k by simp
  then show "x \<in> {CHR ''a''..CHR ''p''}" using k by (simp add: less_eq_char_def)
qed
text \<open>Decoding inverts encoding: any string of bytes survives the two-letters-per-byte form
  in which passwords and comments are stored and sent, and the form consists of the letters a to p.\<close>

theorem encode12_decode21:
  "Decode21str (Encode12str s) = s \<and> set (Encode12str s) \<subseteq> {CHR ''a''..CHR ''p''}"
proof
  show "Decode21str (Encode12str s) = s"
    by (induction s) (simp_all only: Encode12str_def Decode21str.simps list.map concat.simps
        append_Cons append_Nil Decode21_byte)
qed (rule Encode12str_letters)

end
