(* ===== verification/Stg_UserIPs.thy ===== *)
theory Stg_UserIPs
  imports Stg_Text
begin

text \<open>
  The addresses a user may log in from: \<open>include/stg/user_ips.h\<close>, with the conversions of
  \<open>libs/common/common.cpp\<close> it uses. IPv4 addresses are \<open>u32\<close> values in network
  byte order on a little-endian host, so the first octet of the dotted form is the least
  significant byte. \<open>inet_addr\<close> of the host's C library is a parameter.
\<close>

subsection \<open>Library routines\<close>

definition inet_ntostring :: "u32 \<Rightarrow> string" where
  "inet_ntostring ip =
     show_nat (unat (ip AND 0xFF)) @ ''.''
     @ show_nat (unat (drop_bit 8 ip AND 0xFF)) @ ''.''
     @ show_nat (unat (drop_bit 16 ip AND 0xFF)) @ ''.''
     @ show_nat (unat (drop_bit 24 ip AND 0xFF))"

definition INADDR_NONE :: u32 where
  "INADDR_NONE = 0xFFFFFFFF"

text \<open>The pieces \<open>strtok\<close> delivers for one delimiter: maximal non-empty runs without it.\<close>

fun split_on :: "char \<Rightarrow> string \<Rightarrow> string \<Rightarrow> string list" where
  "split_on d acc [] = [rev acc]"
| "split_on d acc (c # cs) = (if c = d then rev acc # split_on d [] cs else split_on d (c # acc) cs)"

definition strtok :: "char \<Rightarrow> string \<Rightarrow> string list" where
  "strtok d s = filter (\<lambda>t. t \<noteq> []) (split_on d [] s)"

definition is_space :: "char \<Rightarrow> bool" where
  "is_space c \<longleftrightarrow> c = CHR '' '' \<or> (9 \<le> (of_char c :: nat) \<and> (of_char c :: nat) \<le> 13)"

definition is_digit :: "char \<Rightarrow> bool" where
  "is_digit c \<longleftrightarrow> 48 \<le> (of_char c :: nat) \<and> (of_char c :: nat) \<le> 57"

definition digit_val :: "char \<Rightarrow> int" where
  "digit_val c = int (of_char c :: nat) - 48"

definition digits_val :: "string \<Rightarrow> int" where
  "digits_val ds = foldl (\<lambda>v c. 10 * v + digit_val c) 0 ds"

text \<open>\<open>strtol\<close> in base 10: the value before range checking and the unread rest.\<close>

definition strtol10 :: "string \<Rightarrow> int \<times> string" where
  "strtol10 s =
     (let s1 = dropWhile is_space s;
          neg = (s1 \<noteq> [] \<and> hd s1 = CHR ''-'');
          s2 = (if s1 \<noteq> [] \<and> (hd s1 = CHR ''-'' \<or> hd s1 = CHR ''+'') then tl s1 else s1);
          ds = takeWhile is_digit s2
      in if ds = [] then (0, s)
         else (if neg then - digits_val ds else digits_val ds, dropWhile is_digit s2))"

text \<open>\<open>str2x\<close> for \<open>int32_t\<close>: the value is truncated to 32 bits; a value outside
  \<open>long\<close> is an error. Text after the digits is ignored. The stale \<open>errno\<close> of an
  earlier call is taken to be clear.\<close>

definition str2x_int32 :: "string \<Rightarrow> int option" where
  "str2x_int32 s = (let v = fst (strtol10 s) in
     if v < - (2 ^ 63) \<or> v \<ge> 2 ^ 63 then None else Some (i32 v))"

subsection \<open>Address lists\<close>

record ip_mask =
  im_ip :: u32
  im_mask :: u32

type_synonym user_ips = "ip_mask list"

definition IPMask :: "u32 \<Rightarrow> u32 \<Rightarrow> ip_mask" where
  "IPMask i m = \<lparr>im_ip = i, im_mask = m\<rparr>"

text \<open>Shifting by 32 (mask 0) is undefined in C++; the model shifts all bits out.\<close>

definition calcMask :: "u32 \<Rightarrow> u32" where
  "calcMask msk = (if msk > 32 then 0 else htonl (push_bit (32 - unat msk) 0xFFFFFFFF))"

definition UserIPs_toString :: "user_ips \<Rightarrow> string" where
  "UserIPs_toString ips =
     (if ips = [] then ''''
      else if im_ip (ips ! 0) = 0 then ''*''
      else join '','' (map (\<lambda>m. inet_ntostring (im_ip m)) ips))"

definition UserIPs_find :: "user_ips \<Rightarrow> u32 \<Rightarrow> bool" where
  "UserIPs_find ips ip =
     (if ips = [] then False
      else if im_ip (hd ips) = 0 then True
      else list_ex (\<lambda>m. ip AND calcMask (im_mask m) = im_ip m AND calcMask (im_mask m)) ips)"

definition UserIPs_onlyOneIP :: "user_ips \<Rightarrow> bool" where
  "UserIPs_onlyOneIP ips \<longleftrightarrow> length ips = 1 \<and> im_mask (hd ips) = 32 \<and> im_ip (hd ips) \<noteq> 0"

definition UserIPs_isAnyIP :: "user_ips \<Rightarrow> bool" where
  "UserIPs_isAnyIP ips \<longleftrightarrow> ips \<noteq> [] \<and> im_ip (hd ips) = 0"

text \<open>One element of the comma-separated source; \<open>None\<close> makes \<open>parse\<close> return what it
  has collected so far.\<close>

definition parse_ip_mask :: "(string \<Rightarrow> u32) \<Rightarrow> string \<Rightarrow> ip_mask option" where
  "parse_ip_mask inet_addr tok =
     (case strtok CHR ''/'' tok of
        [] \<Rightarrow> None
      | strIp # rest \<Rightarrow>
          (let ip = inet_addr strIp in
           if ip = INADDR_NONE then None
           else (case rest of
             [] \<Rightarrow> Some (IPMask ip 32)
           | strMask # _ \<Rightarrow>
               (case str2x_int32 strMask of
                  None \<Rightarrow> None
                | Some m \<Rightarrow>
                    (let msk = (word_of_int m :: u32) in
                     if msk > 32 then None
                     else if ip AND calcMask msk \<noteq> ip then None
                     else Some (IPMask ip msk))))))"

fun parse_ip_masks :: "(string \<Rightarrow> u32) \<Rightarrow> string list \<Rightarrow> user_ips" where
  "parse_ip_masks inet_addr [] = []"
| "parse_ip_masks inet_addr (t # ts) =
     (case parse_ip_mask inet_addr t of
        None \<Rightarrow> []
      | Some m \<Rightarrow> m # parse_ip_masks inet_addr ts)"

definition UserIPs_parse :: "(string \<Rightarrow> u32) \<Rightarrow> string \<Rightarrow> user_ips" where
  "UserIPs_parse inet_addr source =
     (if source = [] then []
      else if source = ''*'' then [IPMask 0 0]
      else parse_ip_masks inet_addr (strtok CHR '','' source))"

subsection \<open>Properties\<close>

lemma calcMask_bit:
  assumes "msk \<le> 32"
  shows "bit (htonl (calcMask msk)) n \<longleftrightarrow> 32 - unat msk \<le> n \<and> n < 32"
proof -
  have m: "\<not> msk > 32" using assms by simp
  have ones: "(0xFFFFFFFF :: u32) = mask 32" by (simp add: mask_eq_exp_minus_1)
  have "htonl (calcMask msk) = push_bit (32 - unat msk) 0xFFFFFFFF"
    using m by (simp add: calcMask_def)
  then show ?thesis unfolding ones by (auto simp: bit_simps)
qed

lemma drop_bit_eq_iff_bits:
  fixes a b :: u32
  shows "drop_bit k a = drop_bit k b \<longleftrightarrow> (\<forall>n. k \<le> n \<and> n < 32 \<longrightarrow> bit a n = bit b n)"
proof
  assume eq: "drop_bit k a = drop_bit k b"
  have "bit a n = bit b n" if "k \<le> n" for n
    using arg_cong [OF eq, of "\<lambda>w. bit w (n - k)"] that by (simp add: bit_drop_bit_eq)
  then show "\<forall>n. k \<le> n \<and> n < 32 \<longrightarrow> bit a n = bit b n" by blast
next
  assume *: "\<forall>n. k \<le> n \<and> n < 32 \<longrightarrow> bit a n = bit b n"
  have "bit a n = bit b n" if "k \<le> n" for n
    using * that by (cases "n < 32") (auto dest: bit_imp_le_length)
  then show "drop_bit k a = drop_bit k b"
    by (intro bit_word_eqI) (simp add: bit_drop_bit_eq)
qed

text \<open>Two addresses agree under a mask exactly when their leading bits agree.\<close>

lemma mask_agree_iff:
  assumes "msk \<le> 32"
  shows "a AND calcMask msk = b AND calcMask msk \<longleftrightarrow>
    drop_bit (32 - unat msk) (htonl a) = drop_bit (32 - unat msk) (htonl b)"
proof -
  have "a AND calcMask msk = b AND calcMask msk \<longleftrightarrow>
      htonl a AND htonl (calcMask msk) = htonl b AND htonl (calcMask msk)"
    by (simp flip: htonl_and)
  also have "\<dots> \<longleftrightarrow> (\<forall>n. 32 - unat msk \<le> n \<and> n < 32 \<longrightarrow> bit (htonl a) n = bit (htonl b) n)"
    by (auto simp: bit_eq_iff bit_and_iff calcMask_bit [OF assms])
  also have "\<dots> \<longleftrightarrow> drop_bit (32 - unat msk) (htonl a) = drop_bit (32 - unat msk) (htonl b)"
    by (rule drop_bit_eq_iff_bits [symmetric])
  finally show ?thesis .
qed

text \<open>Membership in a user's address list is CIDR matching: unless the list starts with the
  wildcard, an address belongs to the user exactly when for some entry the leading bits of the two
  addresses, as many as the entry's mask says, coincide.\<close>

theorem user_ips_find_cidr:
  assumes "ips \<noteq> []" and "im_ip (hd ips) \<noteq> 0" and "\<And>m. m \<in> set ips \<Longrightarrow> im_mask m \<le> 32"
  shows "UserIPs_find ips ip \<longleftrightarrow>
    (\<exists>m \<in> set ips. drop_bit (32 - unat (im_mask m)) (htonl ip)
                   = drop_bit (32 - unat (im_mask m)) (htonl (im_ip m)))"
  using assms by (auto simp: UserIPs_find_def list_ex_iff mask_agree_iff)

theorem user_ips_find_cidr_witness:
  "UserIPs_find [IPMask (htonl 0x0A010000) 16] (htonl 0x0A01FF07)
   \<and> \<not> UserIPs_find [IPMask (htonl 0x0A010000) 16] (htonl 0x0A020001)"
  using user_ips_find_cidr [of "[IPMask (htonl 0x0A010000) 16]" "htonl 0x0A01FF07"]
    user_ips_find_cidr [of "[IPMask (htonl 0x0A010000) 16]" "htonl 0x0A020001"]
  by (simp add: IPMask_def drop_bit_eq_div) (simp add: htonl_def)

lemma parse_ip_mask_wf:
  assumes "parse_ip_mask aton tok = Some m"
  shows "im_mask m \<le> 32 \<and> im_ip m \<noteq> INADDR_NONE
    \<and> (im_mask m \<noteq> 32 \<longrightarrow> im_ip m AND calcMask (im_mask m) = im_ip m)"
  using assms
  by (auto simp: parse_ip_mask_def IPMask_def Let_def split: list.splits if_splits option.splits)

lemma calcMask_32: "calcMask 32 = 0xFFFFFFFF"
  by (simp add: calcMask_def htonl_def)

lemma parse_ip_masks_wf:
  "m \<in> set (parse_ip_masks aton ts) \<Longrightarrow> im_mask m \<le> 32 \<and> im_ip m \<noteq> INADDR_NONE
    \<and> im_ip m AND calcMask (im_mask m) = im_ip m"
proof (induction ts)
  case (Cons t ts)
  have ones: "(0xFFFFFFFF :: u32) = - 1" by simp
  show ?case
    using Cons parse_ip_mask_wf [of aton t m]
    by (cases "im_mask m = 32") (auto simp: calcMask_32 ones split: option.splits)
qed simp

text \<open>Whatever text is parsed, every entry of the resulting address list has a mask of at most
  32 bits, is not the error address and has no bits below its mask.\<close>

theorem user_ips_parse_wf:
  assumes "m \<in> set (UserIPs_parse aton source)" and "source \<noteq> ''*''"
  shows "im_mask m \<le> 32 \<and> im_ip m \<noteq> INADDR_NONE \<and> im_ip m AND calcMask (im_mask m) = im_ip m"
  using assms parse_ip_masks_wf
  by (auto simp: UserIPs_parse_def split: if_splits)

theorem user_ips_parse_wf_witness:
  "(let aton = (\<lambda>s. if s = ''10.0.0.0'' then htonl 0x0A000000 else INADDR_NONE);
        ips = UserIPs_parse aton ''10.0.0.0/8'' in
    ips = [IPMask (htonl 0x0A000000) 8] \<and> im_mask (hd ips) \<le> 32)"
proof -
  let ?aton = "\<lambda>s. if s = ''10.0.0.0'' then htonl 0x0A000000 else INADDR_NONE"
  have p: "UserIPs_parse ?aton ''10.0.0.0/8'' = [IPMask (htonl 0x0A000000) 8]"
    by code_simp
  show ?thesis
    unfolding Let_def p
    using user_ips_parse_wf [of "IPMask (htonl 0x0A000000) 8" ?aton "''10.0.0.0/8''"] p
    by (simp add: IPMask_def)
qed

subsection \<open>Printing and reading back\<close>

lemma split_on_nodelim: "d \<notin> set s \<Longrightarrow> split_on d acc s = [rev acc @ s]"
  by (induction s arbitrary: acc) auto

lemma split_on_append:
  "d \<notin> set s \<Longrightarrow> split_on d acc (s @ d # t) = (rev acc @ s) # split_on d [] t"
  by (induction s arbitrary: acc) auto

lemma strtok_join:
  "(\<And>x. x \<in> set xs \<Longrightarrow> x \<noteq> [] \<and> d \<notin> set x) \<Longrightarrow> strtok d (join [d] xs) = xs"
proof (induction "[d]" xs rule: join.induct)
  case (3 x y ys)
  then have "strtok d (join [d] (y # ys)) = y # ys" by simp
  with 3(2) [of x] show ?case
    by (simp add: strtok_def split_on_append)
qed (simp_all add: strtok_def split_on_nodelim)

lemma strtok_single: "s \<noteq> [] \<Longrightarrow> d \<notin> set s \<Longrightarrow> strtok d s = [s]"
  by (simp add: strtok_def split_on_nodelim)

lemma show_nat_digits: "c \<in> set (show_nat n) \<Longrightarrow> is_digit c"
proof (induction n rule: show_nat.induct)
  case (1 n)
  have "is_digit (digit_char d)" if "d < 10" for d
    using that by (simp add: is_digit_def digit_char_def)
  with 1 show ?case
    by (cases "n < 10") (auto simp: show_nat.simps [of n])
qed

lemma show_nat_nonempty [simp]: "show_nat n \<noteq> []"
  by (subst show_nat.simps) simp

lemma inet_ntostring_chars: "c \<in> set (inet_ntostring ip) \<Longrightarrow> is_digit c \<or> c = CHR ''.''"
  by (auto simp: inet_ntostring_def dest: show_nat_digits)

lemma inet_ntostring_nonempty [simp]: "inet_ntostring ip \<noteq> []"
  by (simp add: inet_ntostring_def)

lemma inet_ntostring_no_delims:
  "CHR '','' \<notin> set (inet_ntostring ip)" "CHR ''/'' \<notin> set (inet_ntostring ip)"
  "CHR ''*'' \<notin> set (inet_ntostring ip)"
  using inet_ntostring_chars by (fastforce simp: is_digit_def)+

lemma parse_ip_mask_plain:
  assumes "aton (inet_ntostring ip) = ip" and "ip \<noteq> INADDR_NONE"
  shows "parse_ip_mask aton (inet_ntostring ip) = Some (IPMask ip 32)"
  using assms by (simp add: parse_ip_mask_def strtok_single inet_ntostring_no_delims)

lemma parse_ip_masks_plain:
  "(\<And>ip. aton (inet_ntostring ip) = ip) \<Longrightarrow> (\<And>m. m \<in> set ips \<Longrightarrow> im_ip m \<noteq> INADDR_NONE) \<Longrightarrow>
   parse_ip_masks aton (map (\<lambda>m. inet_ntostring (im_ip m)) ips) = map (\<lambda>m. IPMask (im_ip m) 32) ips"
  by (induction ips) (simp_all add: parse_ip_mask_plain)

lemma join_no_star: "x \<noteq> [] \<Longrightarrow> CHR ''*'' \<notin> set x \<Longrightarrow> join '','' (x # xs) \<noteq> ''*''"
  by (cases xs; cases x) auto

lemma UserIPs_parse_print:
  assumes inet_addr: "\<And>ip. aton (inet_ntostring ip) = ip"
    and "ips \<noteq> []" and "im_ip (hd ips) \<noteq> 0" and "\<And>m. m \<in> set ips \<Longrightarrow> im_ip m \<noteq> INADDR_NONE"
  shows "UserIPs_parse aton (UserIPs_toString ips) = map (\<lambda>m. IPMask (im_ip m) 32) ips"
proof -
  let ?strs = "map (\<lambda>m. inet_ntostring (im_ip m)) ips"
  have str: "UserIPs_toString ips = join '','' ?strs"
    using assms(2,3) by (simp add: UserIPs_toString_def hd_conv_nth)
  obtain m ms where ips: "ips = m # ms" using assms(2) by (cases ips) auto
  have "join '','' ?strs \<noteq> ''*''" "join '','' ?strs \<noteq> []"
    unfolding ips using inet_ntostring_no_delims
    by (simp_all add: join_no_star) (cases ms; simp)
  moreover have "strtok CHR '','' (join '','' ?strs) = ?strs"
    by (rule strtok_join) (auto simp: inet_ntostring_no_delims)
  ultimately show ?thesis
    using parse_ip_masks_plain [of aton ips, OF inet_addr assms(4)]
    by (simp add: UserIPs_parse_def str)
qed

text \<open>Printing an address list and parsing the text gives back the addresses with every mask
  replaced by 32, whatever the masks were: the printed form does not carry the masks. (The file
  store writes this printed form to the user's configuration.)\<close>

theorem user_ips_print_parse:
  assumes inet_addr: "\<And>ip. aton (inet_ntostring ip) = ip"
    and "ips \<noteq> []" and "im_ip (hd ips) \<noteq> 0" and "\<And>m. m \<in> set ips \<Longrightarrow> im_ip m \<noteq> INADDR_NONE"
  shows "UserIPs_parse aton (UserIPs_toString ips) = map (\<lambda>m. IPMask (im_ip m) 32) ips"
  using assms by (rule UserIPs_parse_print)

text \<open>A reader of dotted quads that meets the requirement on \<open>inet_addr\<close>.\<close>

definition quad_addr :: "string \<Rightarrow> u32" where
  "quad_addr s = (case map (\<lambda>t. word_of_int (digits_val t)) (strtok CHR ''.'' s) of
     [a, b, c, d] \<Rightarrow> a OR push_bit 8 b OR push_bit 16 c OR push_bit 24 d
   | _ \<Rightarrow> INADDR_NONE)"

lemma digits_val_snoc: "digits_val (ds @ [c]) = 10 * digits_val ds + digit_val c"
  by (simp add: digits_val_def)

lemma digit_val_digit_char: "d < 10 \<Longrightarrow> digit_val (digit_char d) = int d"
  by (simp add: digit_val_def digit_char_def)

lemma digits_val_show_nat [simp]: "digits_val (show_nat n) = int n"
proof (induction n rule: show_nat.induct)
  case (1 n)
  show ?case
  proof (cases "n < 10")
    case True
    then have "show_nat n = [] @ [digit_char n]" by (simp add: show_nat.simps)
    then show ?thesis
      using True by (simp only: digits_val_snoc) (simp add: digit_val_digit_char digits_val_def)
  next
    case False
    then have "show_nat n = show_nat (n div 10) @ [digit_char (n mod 10)]"
      by (simp add: show_nat.simps)
    then show ?thesis
      using False 1 by (simp add: digits_val_snoc digit_val_digit_char zdiv_int zmod_int)
  qed
qed

lemma bytes_join:
  "(w AND 0xFF) OR push_bit 8 (drop_bit 8 w AND 0xFF) OR push_bit 16 (drop_bit 16 w AND 0xFF)
     OR push_bit 24 (drop_bit 24 w AND 0xFF) = (w :: u32)"
  unfolding byte_masks
proof (rule bit_word_eqI)
  fix n :: nat
  assume "n < LENGTH(32)"
  then consider "n < 8" | "8 \<le> n" "n < 16" | "16 \<le> n" "n < 24" | "24 \<le> n" "n < 32"
    by fastforce
  then show "bit (w AND mask 8 OR push_bit 8 (drop_bit 8 w AND mask 8)
      OR push_bit 16 (drop_bit 16 w AND mask 8) OR push_bit 24 (drop_bit 24 w AND mask 8)) n = bit w n"
    by cases (auto simp: bit_simps)
qed

lemma quad_addr_inet_ntostring: "quad_addr (inet_ntostring ip) = ip"
proof -
  let ?parts = "map (\<lambda>k. show_nat (unat (drop_bit k ip AND 0xFF))) [0, 8, 16, 24]"
  have "inet_ntostring ip = join ''.'' ?parts" by (simp add: inet_ntostring_def)
  moreover have "strtok CHR ''.'' (join ''.'' ?parts) = ?parts"
    by (rule strtok_join) (auto dest!: show_nat_digits simp: is_digit_def)
  ultimately have "strtok CHR ''.'' (inet_ntostring ip) = ?parts" by simp
  then have "quad_addr (inet_ntostring ip) =
      (ip AND 0xFF) OR push_bit 8 (drop_bit 8 ip AND 0xFF) OR push_bit 16 (drop_bit 16 ip AND 0xFF)
        OR push_bit 24 (drop_bit 24 ip AND 0xFF)"
    by (simp add: quad_addr_def)
  then show ?thesis by (simp only: bytes_join)
qed

theorem user_ips_print_parse_witness:
  "UserIPs_parse quad_addr (UserIPs_toString [IPMask 0x0000000A 8]) = [IPMask 0x0000000A 32]"
  using user_ips_print_parse [OF quad_addr_inet_ntostring, of "[IPMask 0x0000000A 8]"]
  by (simp add: IPMask_def INADDR_NONE_def)

end
