(* ===== verification/Stg_Common.thy ===== *)
theory Stg_Common
  imports Stg_Text Stg_UserIPs
begin

text \<open>
  More helpers of \<open>libs/common/common.cpp\<close> and \<open>common.h\<close>: numbers, yes and no, blanks, byte order, time intervals of
  tariffs. A parser gets the old value of the variable it writes to and returns whether it failed and the value the
  variable has afterwards.
\<close>

subsection \<open>Numbers\<close>

text \<open>The template \<open>str2x\<close>; \<open>wrap\<close> brings a value back into the range of its type.\<close>

fun str2x_digits :: "(int \<Rightarrow> int) \<Rightarrow> string \<Rightarrow> int \<Rightarrow> bool \<times> int" where
  "str2x_digits wrap [] x = (False, x)"
| "str2x_digits wrap (c # cs) x =
     (if \<not> is_digit c then (True, x)
      else str2x_digits wrap cs (wrap (wrap (x * 10) + digit_val c)))"

definition str2x :: "(int \<Rightarrow> int) \<Rightarrow> string \<Rightarrow> int \<Rightarrow> bool \<times> int" where
  "str2x wrap str x =
     (if str = [] then (True, x)
      else let pos = (if hd str = CHR ''+'' \<or> hd str = CHR ''-'' then 1 else 0);
               minus = (if hd str = CHR ''-'' then - 1 else 1)
           in case drop pos str of
             [] \<Rightarrow> (True, x)
           | c # cs \<Rightarrow>
               if \<not> is_digit c then (True, x)
               else let (bad, x) = str2x_digits wrap cs (digit_val c)
                    in if bad then (True, x) else (False, wrap (x * minus)))"

definition u32_wrap :: "int \<Rightarrow> int" where
  "u32_wrap x = take_bit 32 x"

definition ParseInt :: "string \<Rightarrow> int \<Rightarrow> bool \<times> int" where
  "ParseInt str val = str2x i32 str val"

definition ParseUnsigned :: "string \<Rightarrow> int \<Rightarrow> bool \<times> int" where
  "ParseUnsigned str val = str2x u32_wrap str val"

definition ParseIntInRange :: "string \<Rightarrow> int \<Rightarrow> int \<Rightarrow> int \<Rightarrow> bool \<times> int" where
  "ParseIntInRange str mn mx val =
     (let (bad, val) = ParseInt str val
      in if bad then (True, val) else if val < mn \<or> val > mx then (True, val) else (False, val))"

definition ParseUnsignedInRange :: "string \<Rightarrow> int \<Rightarrow> int \<Rightarrow> int \<Rightarrow> bool \<times> int" where
  "ParseUnsignedInRange str mn mx val =
     (let (bad, val) = ParseUnsigned str val
      in if bad then (True, val) else if val < mn \<or> val > mx then (True, val) else (False, val))"

subsection \<open>Yes and no\<close>

definition strncaseeq :: "nat \<Rightarrow> string \<Rightarrow> string \<Rightarrow> bool" where
  "strncaseeq n a b \<longleftrightarrow> strcaseeq (take n a) (take n b)"

definition ParseYesNo :: "string \<Rightarrow> bool \<Rightarrow> bool \<times> bool" where
  "ParseYesNo str val =
     (if strncaseeq 3 str ''yes'' then (False, True)
      else if strncaseeq 2 str ''no'' then (False, False)
      else (True, val))"

subsection \<open>Blanks\<close>

definition blank :: "char \<Rightarrow> bool" where
  "blank c \<longleftrightarrow> c = CHR '' '' \<or> c = CHR 0x09"

definition TrimL :: "string \<Rightarrow> string" where
  "TrimL val = dropWhile blank val"

text \<open>A string of blanks only is left alone.\<close>

definition TrimR :: "string \<Rightarrow> string" where
  "TrimR val = (if list_all blank val then val else rev (dropWhile blank (rev val)))"

definition Trim :: "string \<Rightarrow> string" where
  "Trim val = TrimR (TrimL val)"

subsection \<open>Byte order\<close>

definition SwapBytes16 :: "u16 \<Rightarrow> u16" where
  "SwapBytes16 v = drop_bit 8 v OR push_bit 8 v"

definition SwapBytes32 :: "u32 \<Rightarrow> u32" where
  "SwapBytes32 v = drop_bit 24 v OR (push_bit 8 v AND 0x00FF0000) OR (drop_bit 8 v AND 0x0000FF00) OR push_bit 24 v"

definition SwapBytes64 :: "u64 \<Rightarrow> u64" where
  "SwapBytes64 v = drop_bit 56 v OR (push_bit 40 v AND 0x00FF000000000000) OR (push_bit 24 v AND 0x0000FF0000000000)
     OR (push_bit 8 v AND 0x000000FF00000000) OR (drop_bit 8 v AND 0x00000000FF000000)
     OR (drop_bit 24 v AND 0x0000000000FF0000) OR (drop_bit 40 v AND 0x000000000000FF00) OR push_bit 56 v"

subsection \<open>Modes and intervals\<close>

text \<open>\<open>str2mode\<close>: an octal mode of three digits, or of four with a leading 0; -1 otherwise.\<close>

fun str2mode_digits :: "string \<Rightarrow> int \<Rightarrow> int" where
  "str2mode_digits [] res = res"
| "str2mode_digits (c # cs) res =
     (if of_char c > (55 :: nat) \<or> of_char c < (48 :: nat) then - 1 else str2mode_digits cs (res * 8 + digit_val c))"

definition str2mode :: "string \<Rightarrow> int" where
  "str2mode name =
     (if length name < 3 \<or> length name > 4 then - 1
      else if length name = 4 \<and> hd name \<noteq> CHR ''0'' then - 1
      else str2mode_digits name 0)"

text \<open>\<open>ParseTariffTimeStr\<close> copies the pieces of an interval into buffers it does not terminate; a piece that fills its
  buffer has no defined outcome (\<open>None\<close>). \<open>Some None\<close> is the result -1.\<close>

definition hour_minute :: "string \<Rightarrow> (int \<times> int) option option" where
  "hour_minute s = (case strtok CHR '':'' s of
     h # m # _ \<Rightarrow> if length h < 9 \<and> length m < 9
       then Some (case str2x_int32 h of None \<Rightarrow> None | Some h \<Rightarrow> map_option (Pair h) (str2x_int32 m))
       else None
   | h # _ \<Rightarrow> Some None
   | [] \<Rightarrow> Some None)"

definition ParseTariffTimeStr :: "string \<Rightarrow> (int \<times> int \<times> int \<times> int) option option" where
  "ParseTariffTimeStr str =
     (if length str \<ge> 48 then None
      else case strtok CHR ''-'' str of
        s1 # s2 # _ \<Rightarrow> if length s1 < 24 \<and> length s2 < 24
          then (case hour_minute s1 of
              None \<Rightarrow> None
            | Some None \<Rightarrow> Some None
            | Some (Some (h1, m1)) \<Rightarrow> map_option (map_option (\<lambda>(h2, m2). (h1, m1, h2, m2))) (hour_minute s2))
          else None
      | _ \<Rightarrow> Some None)"

subsection \<open>Properties\<close>

lemma digit_val_bounds: "is_digit c \<Longrightarrow> 0 \<le> digit_val c \<and> digit_val c \<le> 9"
  by (auto simp: is_digit_def digit_val_def)

lemma digits_foldl_ge:
  "list_all is_digit ds \<Longrightarrow> 0 \<le> x \<Longrightarrow> x \<le> foldl (\<lambda>v c. 10 * v + digit_val c) x ds"
proof (induction ds arbitrary: x)
  case (Cons d ds)
  then have "0 \<le> digit_val d" by (simp add: digit_val_bounds)
  then have "x \<le> 10 * x + digit_val d" "0 \<le> 10 * x + digit_val d" using Cons.prems by simp_all
  with Cons.IH [of "10 * x + digit_val d"] Cons.prems show ?case by simp
qed simp

lemma str2x_digits_value:
  assumes "\<And>v. 0 \<le> v \<Longrightarrow> v < B \<Longrightarrow> wrap v = v" and "list_all is_digit ds" and "0 \<le> x"
    and "foldl (\<lambda>v c. 10 * v + digit_val c) x ds < B"
  shows "str2x_digits wrap ds x = (False, foldl (\<lambda>v c. 10 * v + digit_val c) x ds)"
  using assms(2-)
proof (induction ds arbitrary: x)
  case (Cons d ds)
  let ?y = "10 * x + digit_val d"
  have d: "0 \<le> digit_val d" using Cons.prems(1) by (simp add: digit_val_bounds)
  have "?y \<le> foldl (\<lambda>v c. 10 * v + digit_val c) ?y ds"
    using digits_foldl_ge [of ds ?y] Cons.prems d by simp
  then have "?y < B" "x * 10 < B" using Cons.prems(3) d by simp_all
  then have "wrap (wrap (x * 10) + digit_val d) = ?y"
    using assms(1) Cons.prems(2) d by (simp add: mult.commute)
  with Cons d show ?case by simp
qed simp

lemma show_nat_list_all: "list_all is_digit (show_nat n)"
  by (simp add: list_all_iff show_nat_digits)

lemma digits_val_Cons: "digits_val (c # cs) = foldl (\<lambda>v c. 10 * v + digit_val c) (digit_val c) cs"
  by (simp add: digits_val_def)

lemma is_digit_sign: "is_digit c \<Longrightarrow> c \<noteq> CHR ''+'' \<and> c \<noteq> CHR ''-''"
  by (auto simp: is_digit_def)

lemma str2x_show_int:
  assumes "\<And>v. - B < v \<Longrightarrow> v < B \<Longrightarrow> wrap v = v" and "- B < n" and "n < B"
  shows "str2x wrap (show_int n) x = (False, n)"
proof -
  obtain c cs where c: "show_nat (nat \<bar>n\<bar>) = c # cs" by (cases "show_nat (nat \<bar>n\<bar>)") auto
  have d: "is_digit c" "list_all is_digit cs" using show_nat_list_all [of "nat \<bar>n\<bar>"] c by simp_all
  have v: "foldl (\<lambda>v c. 10 * v + digit_val c) (digit_val c) cs = \<bar>n\<bar>"
    using digits_val_show_nat [of "nat \<bar>n\<bar>"] c by (simp add: digits_val_Cons)
  have r: "str2x_digits wrap cs (digit_val c) = (False, \<bar>n\<bar>)"
    using str2x_digits_value [of B wrap cs "digit_val c"] d v assms by (simp add: digit_val_bounds)
  have w: "wrap n = n" using assms by simp
  show ?thesis
    using c d(1) r w is_digit_sign [OF d(1)] by (auto simp: str2x_def show_int_def)
qed

lemma ParseInt_show_int: "\<bar>n\<bar> < 2 ^ 31 \<Longrightarrow> ParseInt (show_int n) x = (False, n)"
  unfolding ParseInt_def by (rule str2x_show_int [of "2 ^ 31"]) (simp_all add: i32_id)

lemma ParseIntInRange_bounds: "ParseIntInRange s mn mx x = (False, v) \<Longrightarrow> mn \<le> v \<and> v \<le> mx"
  by (auto simp: ParseIntInRange_def split: prod.splits if_splits)

text \<open>A number between two bounds is read back from its text, one outside is refused, and whatever text is accepted, the
  value is between the bounds; but the digits are added up modulo \<open>2 ^ 32\<close>, so that \<open>4294967301\<close> is read as 5.\<close>

theorem parse_int_in_range:
  assumes "\<bar>n\<bar> < 2 ^ 31"
  shows "ParseIntInRange (show_int n) mn mx x = (n < mn \<or> mx < n, n)
    \<and> (ParseIntInRange s mn mx x = (False, v) \<longrightarrow> mn \<le> v \<and> v \<le> mx)
    \<and> ParseIntInRange ''4294967301'' 5 600 x = (False, 5)"
proof -
  show ?thesis
    using ParseInt_show_int [OF assms, of x] ParseIntInRange_bounds [of s mn mx x v]
    by (auto simp: ParseIntInRange_def ParseInt_def str2x_def is_digit_def digit_val_def i32_def)
qed

theorem parse_int_in_range_witness:
  "ParseIntInRange (show_int 601) 5 600 0 = (True, 601)"
  using parse_int_in_range [of 601 5 600 0 "''42''" 42] by simp

lemma dropWhile_blank_idem [simp]: "dropWhile blank (dropWhile blank s) = dropWhile blank s"
  by (induction s) auto

text \<open>\<open>Trim\<close> leaves no blank at either end, and nothing else to trim.\<close>

lemma trim_ends:
  "(Trim s \<noteq> [] \<longrightarrow> \<not> blank (hd (Trim s)) \<and> \<not> blank (last (Trim s))) \<and> Trim (Trim s) = Trim s"
proof (cases "list_all blank s")
  case True
  then have "TrimL s = []" by (simp add: TrimL_def list_all_iff)
  then have "Trim s = []" by (simp add: Trim_def TrimR_def)
  then show ?thesis by (simp add: Trim_def TrimL_def TrimR_def)
next
  case False
  define t where "t = dropWhile blank s"
  have t: "t \<noteq> []" "\<not> blank (hd t)" using False by (auto simp: t_def list_all_iff hd_dropWhile)
  then have "\<not> list_all blank t" by (cases t) simp_all
  then have T: "Trim s = rev (dropWhile blank (rev t))" by (simp add: Trim_def TrimL_def TrimR_def t_def)
  let ?u = "rev (dropWhile blank (rev t))"
  have u: "?u \<noteq> []" using \<open>\<not> list_all blank t\<close> by (simp add: list_all_iff)
  have "\<exists>r. t = ?u @ r" by (metis rev_append rev_rev_ident takeWhile_dropWhile_id)
  then have h: "hd ?u = hd t" using u by (metis hd_append2)
  have l: "\<not> blank (last ?u)" using u by (simp add: last_rev hd_dropWhile)
  have "\<not> list_all blank ?u" using h t u by (metis hd_in_set list_all_iff)
  moreover have "TrimL ?u = ?u" using h t(2) u by (cases ?u) (simp_all add: TrimL_def)
  ultimately have "Trim ?u = ?u" by (simp add: Trim_def TrimR_def)
  then show ?thesis using T h l t(2) by simp
qed

lemma swap_involution: "SwapBytes16 (SwapBytes16 a) = a" "SwapBytes32 (SwapBytes32 b) = b"
proof -
  show "SwapBytes16 (SwapBytes16 a) = a"
    by (rule bit_word_eqI) (auto simp: SwapBytes16_def bit_simps intro: ccontr)
  have "bit (SwapBytes32 v) n \<longleftrightarrow> (if n < 8 then bit v (n + 24) else if n < 16 then bit v (n + 8)
      else if n < 24 then bit v (n - 8) else n < 32 \<and> bit v (n - 24))" for v n
    unfolding SwapBytes32_def byte_masks by (auto simp: bit_simps add.commute dest: bit_imp_le_length)
  then have "SwapBytes32 v = htonl v" for v
    by (intro bit_word_eqI) (simp add: bit_htonl)
  then show "SwapBytes32 (SwapBytes32 b) = b" by simp
qed

end
