(* ===== verification/Stg_Conf.thy ===== *)
theory Stg_Conf
  imports Stg_UserIPs
begin

text \<open>
  The passive data of the server: traffic vectors (\<open>include/stg/user_traff.h\<close>), user
  statistics and configuration (\<open>user_stat.h\<close>, \<open>user_conf.h\<close>), messages
  (\<open>message.h\<close>), administrators and their privilege mask (\<open>admin_conf.h\<close>,
  \<open>admin.h\<close>), services and corporations (\<open>service_conf.h\<close>, \<open>corp_conf.h\<close>).
  Detailed statistics are kept in a \<open>std::map\<close>, here an association list sorted by key.
\<close>

subsection \<open>Traffic per direction\<close>

type_synonym dir_traff = "u64 list"

definition DirTraff :: dir_traff where
  "DirTraff = replicate DIR_NUM 0"

definition DirTraff_reset :: "dir_traff \<Rightarrow> dir_traff" where
  "DirTraff_reset t = map (\<lambda>_. 0) t"

definition DirTraff_show :: "dir_traff \<Rightarrow> string" where
  "DirTraff_show t = join '','' (map (\<lambda>v. show_nat (unat v)) t)"

definition traff_wf :: "dir_traff \<Rightarrow> bool" where
  "traff_wf t \<longleftrightarrow> length t = DIR_NUM"

lemma traff_wf_simps [simp]:
  "traff_wf DirTraff" "traff_wf (DirTraff_reset t) = traff_wf t" "traff_wf (t[i := v]) = traff_wf t"
  by (simp_all add: traff_wf_def DirTraff_def DirTraff_reset_def)

lemma DirTraff_reset_eq: "traff_wf t \<Longrightarrow> DirTraff_reset t = DirTraff"
  by (simp add: traff_wf_def DirTraff_reset_def DirTraff_def map_replicate_const)

subsection \<open>Detailed statistics\<close>

datatype ip_dir_pair = IPDirPair (ipd_ip: u32) (ipd_dir: nat)

instantiation ip_dir_pair :: linorder
begin

definition less_ip_dir_pair :: "ip_dir_pair \<Rightarrow> ip_dir_pair \<Rightarrow> bool" where
  "a < b \<longleftrightarrow> (if ipd_ip a < ipd_ip b then True
     else if ipd_ip a > ipd_ip b then False
     else if ipd_dir a < ipd_dir b then True
     else False)"

definition less_eq_ip_dir_pair :: "ip_dir_pair \<Rightarrow> ip_dir_pair \<Rightarrow> bool" where
  "(a :: ip_dir_pair) \<le> b \<longleftrightarrow> a < b \<or> a = b"

instance
  by standard
    (auto simp: less_ip_dir_pair_def less_eq_ip_dir_pair_def ip_dir_pair.expand split: if_splits)

end

record stat_node =
  sn_up :: u64
  sn_down :: u64
  sn_cash :: double

type_synonym traff_stat = "(ip_dir_pair \<times> stat_node) list"

text \<open>
  The find-or-insert at the end of \<open>AddTraffStatU\<close> and \<open>AddTraffStatD\<close>: position at
  the first key not below the wanted one, insert a fresh node there or update the node found.
\<close>

fun traff_stat_upd ::
    "ip_dir_pair \<Rightarrow> stat_node \<Rightarrow> (stat_node \<Rightarrow> stat_node) \<Rightarrow> traff_stat \<Rightarrow> traff_stat" where
  "traff_stat_upd k n f [] = [(k, n)]"
| "traff_stat_upd k n f ((k', n') # ts) =
     (if k' < k then (k', n') # traff_stat_upd k n f ts
      else if k' = k then (k', f n') # ts
      else (k, n) # (k', n') # ts)"

definition traff_stat_wf :: "traff_stat \<Rightarrow> bool" where
  "traff_stat_wf ts \<longleftrightarrow> sorted_wrt (<) (map fst ts)"

lemma set_traff_stat_upd: "fst ` set (traff_stat_upd k n f ts) = insert k (fst ` set ts)"
  by (induction k n f ts rule: traff_stat_upd.induct) (simp_all add: insert_commute)

lemma traff_stat_upd_wf [simp]: "traff_stat_wf ts \<Longrightarrow> traff_stat_wf (traff_stat_upd k n f ts)"
proof (induction ts)
  case (Cons a ts)
  obtain k' n' where a: "a = (k', n')" by fastforce
  have "\<forall>x \<in> fst ` set (traff_stat_upd k n f ts). k' < x" if "k' < k"
    using Cons.prems that unfolding set_traff_stat_upd by (simp add: a traff_stat_wf_def)
  moreover have "\<forall>x \<in> fst ` set ts. k < x" if "k < k'"
    using Cons.prems that by (auto simp: a traff_stat_wf_def intro: less_trans)
  ultimately show ?case
    using Cons by (simp add: a traff_stat_wf_def linorder_not_less order_le_less)
qed (simp add: traff_stat_wf_def)

lemma map_of_traff_stat_upd:
  "traff_stat_wf ts \<Longrightarrow> map_of (traff_stat_upd k n f ts) =
     (map_of ts)(k \<mapsto> (case map_of ts k of None \<Rightarrow> n | Some n' \<Rightarrow> f n'))"
proof (induction ts)
  case (Cons a ts)
  obtain k' n' where a: "a = (k', n')" by fastforce
  have "map_of ts k = None" if "k < k'"
    using Cons.prems that by (auto simp: a traff_stat_wf_def map_of_eq_None_iff)
  with Cons show ?case
    by (auto simp: a traff_stat_wf_def fun_eq_iff dest: less_asym)
qed simp

record user_stat =
  us_sessionUp :: dir_traff
  us_sessionDown :: dir_traff
  us_monthUp :: dir_traff
  us_monthDown :: dir_traff
  us_cash :: double
  us_freeMb :: double
  us_lastCashAdd :: double
  us_lastCashAddTime :: time_t
  us_passiveTime :: time_t
  us_lastActivityTime :: time_t

definition UserStat :: user_stat where
  "UserStat = \<lparr>us_sessionUp = DirTraff, us_sessionDown = DirTraff, us_monthUp = DirTraff,
     us_monthDown = DirTraff, us_cash = 0, us_freeMb = 0, us_lastCashAdd = 0,
     us_lastCashAddTime = 0, us_passiveTime = 0, us_lastActivityTime = 0\<rparr>"

subsection \<open>User configuration\<close>

definition USERDATA_NUM :: nat where
  "USERDATA_NUM = 10"

record user_conf =
  uc_password :: string
  uc_passive :: int
  uc_disabled :: int
  uc_disabledDetailStat :: int
  uc_alwaysOnline :: int
  uc_tariffName :: string
  uc_address :: string
  uc_phone :: string
  uc_email :: string
  uc_note :: string
  uc_realName :: string
  uc_corp :: string
  uc_services :: "string list"
  uc_group :: string
  uc_credit :: double
  uc_nextTariff :: string
  uc_userdata :: "string list"
  uc_creditExpire :: time_t
  uc_ips :: user_ips

definition UserConf :: user_conf where
  "UserConf = \<lparr>uc_password = '''', uc_passive = 0, uc_disabled = 0, uc_disabledDetailStat = 0,
     uc_alwaysOnline = 0, uc_tariffName = '''', uc_address = '''', uc_phone = '''', uc_email = '''',
     uc_note = '''', uc_realName = '''', uc_corp = '''', uc_services = [], uc_group = '''',
     uc_credit = 0, uc_nextTariff = '''', uc_userdata = replicate USERDATA_NUM '''',
     uc_creditExpire = 0, uc_ips = []\<rparr>"

subsection \<open>Messages\<close>

record msg_header =
  mh_id :: u64
  mh_ver :: u32
  mh_type :: u32
  mh_lastSendTime :: u32
  mh_creationTime :: u32
  mh_showTime :: u32
  mh_repeat :: int
  mh_repeatPeriod :: u32

record message =
  msg_header :: msg_header
  msg_text :: string

text \<open>\<open>unsigned + int * int\<close> is evaluated modulo \<open>2 ^ 32\<close> before it becomes a
  \<open>time_t\<close>.\<close>

definition GetNextSendTime :: "message \<Rightarrow> time_t" where
  "GetNextSendTime m = uint (mh_lastSendTime (msg_header m)
     + word_of_int (i32 (mh_repeat (msg_header m) * 60)))"

subsection \<open>Administrators\<close>

record priv =
  p_userStat :: u16
  p_userConf :: u16
  p_userCash :: u16
  p_userPasswd :: u16
  p_userAddDel :: u16
  p_adminChg :: u16
  p_tariffChg :: u16
  p_serviceChg :: u16
  p_corpChg :: u16

definition Priv :: "u32 \<Rightarrow> priv" where
  "Priv p = \<lparr>p_userStat = ucast (drop_bit 0x00 (p AND 0x00000003)),
     p_userConf = ucast (drop_bit 0x02 (p AND 0x0000000C)),
     p_userCash = ucast (drop_bit 0x04 (p AND 0x00000030)),
     p_userPasswd = ucast (drop_bit 0x06 (p AND 0x000000C0)),
     p_userAddDel = ucast (drop_bit 0x08 (p AND 0x00000300)),
     p_adminChg = ucast (drop_bit 0x0A (p AND 0x00000C00)),
     p_tariffChg = ucast (drop_bit 0x0C (p AND 0x00003000)),
     p_serviceChg = ucast (drop_bit 0x0E (p AND 0x0000C000)),
     p_corpChg = ucast (drop_bit 0x10 (p AND 0x00030000))\<rparr>"

definition Priv_toInt :: "priv \<Rightarrow> u32" where
  "Priv_toInt p = push_bit 0 (ucast (p_userStat p)) OR push_bit 2 (ucast (p_userConf p))
     OR push_bit 4 (ucast (p_userCash p)) OR push_bit 6 (ucast (p_userPasswd p))
     OR push_bit 8 (ucast (p_userAddDel p)) OR push_bit 10 (ucast (p_adminChg p))
     OR push_bit 12 (ucast (p_tariffChg p)) OR push_bit 14 (ucast (p_serviceChg p))
     OR push_bit 16 (ucast (p_corpChg p))"

definition priv_ok :: "priv \<Rightarrow> bool" where
  "priv_ok p \<longleftrightarrow> p_userStat p < 4 \<and> p_userConf p < 4 \<and> p_userCash p < 4 \<and> p_userPasswd p < 4
     \<and> p_userAddDel p < 4 \<and> p_adminChg p < 4 \<and> p_tariffChg p < 4 \<and> p_serviceChg p < 4 \<and> p_corpChg p < 4"

record admin_conf =
  ac_priv :: priv
  ac_login :: string
  ac_password :: string

record admin =
  ad_conf :: admin_conf
  ad_ip :: u32

definition Admin :: "priv \<Rightarrow> string \<Rightarrow> string \<Rightarrow> admin" where
  "Admin pr l p = \<lparr>ad_conf = \<lparr>ac_priv = pr, ac_login = l, ac_password = p\<rparr>, ad_ip = 0\<rparr>"

abbreviation Admin_priv :: "admin \<Rightarrow> priv" where
  "Admin_priv a \<equiv> ac_priv (ad_conf a)"

abbreviation Admin_login :: "admin \<Rightarrow> string" where
  "Admin_login a \<equiv> ac_login (ad_conf a)"

definition Admin_logStr :: "admin \<Rightarrow> string" where
  "Admin_logStr a = ''Admin '' @ squote (Admin_login a) @ '', '' @ inet_ntostring (ad_ip a) @ '':''"

subsection \<open>Services and corporations\<close>

record service_conf =
  sc_name :: string
  sc_comment :: string
  sc_cost :: double
  sc_payDay :: u8

definition ServiceConf :: "string \<Rightarrow> double \<Rightarrow> u32 \<Rightarrow> string \<Rightarrow> service_conf" where
  "ServiceConf n c p com = \<lparr>sc_name = n, sc_comment = com, sc_cost = c, sc_payDay = ucast p\<rparr>"

record service_conf_opt =
  sco_name :: "string option"
  sco_comment :: "string option"
  sco_cost :: "double option"
  sco_payDay :: "u8 option"

definition ServiceConfOpt :: "service_conf \<Rightarrow> service_conf_opt" where
  "ServiceConfOpt s = \<lparr>sco_name = Some (sc_name s), sco_comment = Some (sc_comment s),
     sco_cost = Some (sc_cost s), sco_payDay = Some (sc_payDay s)\<rparr>"

definition ServiceConfOpt_splice ::
    "service_conf_opt \<Rightarrow> service_conf_opt \<Rightarrow> service_conf_opt" where
  "ServiceConfOpt_splice s rhs =
     \<lparr>sco_name = splice_opt (sco_name s) (sco_name rhs),
      sco_comment = splice_opt (sco_comment s) (sco_comment rhs),
      sco_cost = splice_opt (sco_cost s) (sco_cost rhs),
      sco_payDay = splice_opt (sco_payDay s) (sco_payDay rhs)\<rparr>"

definition ServiceConfOpt_get :: "service_conf_opt \<Rightarrow> service_conf \<Rightarrow> service_conf" where
  "ServiceConfOpt_get s d =
     \<lparr>sc_name = value_or (sco_name s) (sc_name d),
      sc_comment = value_or (sco_comment s) (sc_comment d),
      sc_cost = value_or (sco_cost s) (sc_cost d),
      sc_payDay = value_or (sco_payDay s) (sc_payDay d)\<rparr>"

record corp_conf =
  cc_name :: string
  cc_cash :: double

subsection \<open>The privilege mask\<close>

lemma priv_masks:
  "(0x3 :: u32) = push_bit 0 (mask 2)" "(0xC :: u32) = push_bit 2 (mask 2)" "(0x30 :: u32) = push_bit 4 (mask 2)"
  "(0xC0 :: u32) = push_bit 6 (mask 2)" "(0x300 :: u32) = push_bit 8 (mask 2)"
  "(0xC00 :: u32) = push_bit 10 (mask 2)" "(0x3000 :: u32) = push_bit 12 (mask 2)"
  "(0xC000 :: u32) = push_bit 14 (mask 2)" "(0x30000 :: u32) = push_bit 16 (mask 2)"
  by (simp_all add: mask_eq_exp_minus_1 push_bit_eq_mult)

lemma priv_field_round:
  "push_bit k (ucast (ucast (drop_bit k (p AND push_bit k (mask 2))) :: u16)) = p AND (push_bit k (mask 2) :: u32)"
  by (rule bit_word_eqI) (auto simp: bit_simps)

lemma Priv_toInt_Priv: "Priv_toInt (Priv p) = p AND 0x3FFFF"
proof -
  have "Priv_toInt (Priv p) = p AND (push_bit 0 (mask 2) OR push_bit 2 (mask 2) OR push_bit 4 (mask 2)
     OR push_bit 6 (mask 2) OR push_bit 8 (mask 2) OR push_bit 10 (mask 2) OR push_bit 12 (mask 2)
     OR push_bit 14 (mask 2) OR push_bit 16 (mask 2))"
    unfolding Priv_def Priv_toInt_def priv_masks priv.simps
    by (simp only: priv_field_round bit.conj_disj_distrib)
  also have "(push_bit 0 (mask 2) OR push_bit 2 (mask 2) OR push_bit 4 (mask 2)
     OR push_bit 6 (mask 2) OR push_bit 8 (mask 2) OR push_bit 10 (mask 2) OR push_bit 12 (mask 2)
     OR push_bit 14 (mask 2) OR push_bit 16 (mask 2)) = (0x3FFFF :: u32)"
    by (simp add: mask_eq_exp_minus_1 push_bit_eq_mult)
  finally show ?thesis .
qed

lemma less_4_bits:
  assumes "(w :: u16) < 4" and "2 \<le> n"
  shows "\<not> bit w n"
proof -
  have "w AND mask 2 = w" using assms(1) by (intro less_mask_eq) simp
  then show ?thesis using assms(2) by (metis bit_and_iff bit_mask_iff not_le)
qed

lemma priv_field_read:
  assumes "\<And>n. n < 2 \<Longrightarrow> bit w (k + n) = bit f n" and "(f :: u16) < 4"
  shows "ucast (drop_bit k (w AND push_bit k (mask 2)) :: u32) = f"
proof (rule bit_word_eqI)
  fix n assume "n < LENGTH(16)"
  then show "bit (ucast (drop_bit k (w AND push_bit k (mask 2)) :: u32) :: u16) n = bit f n"
    using assms(1) [of n] less_4_bits [OF assms(2), of n]
    by (cases "n < 2") (auto simp: bit_simps dest: bit_imp_le_length)
qed

lemma Priv_Priv_toInt:
  assumes "priv_ok p"
  shows "Priv (Priv_toInt p) = p"
proof -
  note ok = assms [unfolded priv_ok_def]
  have two: "n < 2 \<Longrightarrow> n = 0 \<or> n = 1" for n :: nat by auto
  show ?thesis
    unfolding Priv_def priv_masks
    by (rule priv.equality; simp only: priv.simps; (rule priv_field_read)?)
      (use ok in \<open>auto simp: Priv_toInt_def bit_simps less_4_bits dest!: two\<close>)
qed

text \<open>The privilege mask an administrator is stored with is exact: unpacking a number and
  packing it again keeps precisely the eighteen bits in use, and packing two-bit privileges and
  unpacking them loses nothing.\<close>

theorem priv_roundtrip:
  "Priv_toInt (Priv n) = n AND 0x3FFFF \<and> (priv_ok p \<longrightarrow> Priv (Priv_toInt p) = p)"
  by (simp add: Priv_toInt_Priv Priv_Priv_toInt)

theorem priv_roundtrip_witness:
  "priv_ok (Priv 0x2FFFF) \<and> Priv (Priv_toInt (Priv 0x2FFFF)) = Priv 0x2FFFF
   \<and> Priv_toInt (Priv 0x72FFFF) = 0x32FFFF AND 0x3FFFF"
proof -
  have ok: "priv_ok (Priv 0x2FFFF)" by (simp add: priv_ok_def Priv_def)
  show ?thesis
    using ok priv_roundtrip [of "0x72FFFF" "Priv 0x2FFFF"] by simp
qed

text \<open>Splicing two partial service updates and resolving against a default is resolving by the
  first and overriding by the second; a complete update determines the service.\<close>

theorem service_splice_get:
  "ServiceConfOpt_get (ServiceConfOpt_splice a b) d = ServiceConfOpt_get b (ServiceConfOpt_get a d)
   \<and> ServiceConfOpt_get (ServiceConfOpt s) d = s"
  by (simp add: ServiceConfOpt_get_def ServiceConfOpt_splice_def ServiceConfOpt_def)

end
