(* ===== verification/Stg_World.thy ===== *)
theory Stg_World
  imports Stg_Conf
begin

text \<open>
  The outside world as the server sees it. Calls that leave the server (the log, the storage
  plugin behind \<open>include/stg/store.h\<close>, external scripts, change notifications to other
  components) are recorded as events in a trace; \<open>LogFmt s\<close> is a call that passes the
  computed text \<open>s\<close> as the format string. Return codes of the storage plugin are a
  parameter: a function of the history and the call, so that a call may fail at any time.
\<close>

datatype store_call =
    S_AddAdmin string | S_DelAdmin string | S_SaveAdmin admin_conf
  | S_AddTariff string | S_DelTariff string | S_SaveTariff tariff_data string
  | S_AddService string | S_DelService string | S_SaveService service_conf
  | S_AddCorp string | S_DelCorp string | S_SaveCorp corp_conf
  | S_AddUser string | S_DelUser string
  | S_SaveUserConf user_conf string | S_SaveUserStat user_stat string
  | S_SaveMonthStat user_stat int int string
  | S_WriteUserConnect string u32
  | S_WriteUserDisconnect string dir_traff dir_traff dir_traff dir_traff double double string
  | S_WriteUserChgLog string string u32 string string string string
  | S_WriteDetailedStat traff_stat time_t string
  | S_AddMessage message string | S_EditMessage message string | S_DelMessage u64 string

datatype event =
    Log string
  | LogFmt string
  | Script string
  | Call store_call
  | CurrIPChange u32 u32
  | ConnectedChange bool bool
  | TariffAdded tariff_data
  | TariffDeleted tariff_data
  | AuthSend nat message u32
  | UserAdded int | UserImplAdded int
  | UserDeleted int | UserImplDeleted int
  | TouchFile string

record world =
  trace :: "event list"

definition emit :: "event \<Rightarrow> 'a world_scheme \<Rightarrow> 'a world_scheme" where
  "emit e w = w\<lparr>trace := trace w @ [e]\<rparr>"

text \<open>The storage plugin: the return code of a call and the error text after it.\<close>

record store =
  st_rc :: "event list \<Rightarrow> store_call \<Rightarrow> int"
  st_err :: "event list \<Rightarrow> string"

definition call :: "store \<Rightarrow> store_call \<Rightarrow> 'a world_scheme \<Rightarrow> int \<times> 'a world_scheme" where
  "call st c w = (st_rc st (trace w) c, emit (Call c) w)"

abbreviation strError_of :: "store \<Rightarrow> 'a world_scheme \<Rightarrow> string" where
  "strError_of st w \<equiv> st_err st (trace w)"

lemma trace_emit [simp]: "trace (emit e w) = trace w @ [e]"
  by (simp add: emit_def)

lemma fst_call [simp]: "fst (call st c w) = st_rc st (trace w) c"
  by (simp add: call_def)

lemma snd_call [simp]: "snd (call st c w) = emit (Call c) w"
  by (simp add: call_def)

text \<open>A storage plugin whose every call succeeds.\<close>

definition good_store :: store where
  "good_store = \<lparr>st_rc = (\<lambda>_ _. 0), st_err = (\<lambda>_. '''')\<rparr>"

subsection \<open>The interface of a registry\<close>

text \<open>
  Administrators, services, corporations and tariffs are kept the same way: a vector of records
  with a name, changed by operations that check the caller's privilege and tell the store. What
  each of them promises about the vector is stated once: an operation leaves it alone, appends an
  entry with a new name, removes the first entry of a name, or rewrites it without renaming it;
  and it reports success only when it did what it was asked.
\<close>

locale registry =
  fixes items :: "'s \<Rightarrow> 'v list"
    and key :: "'v \<Rightarrow> string"
    and mk :: "'a \<Rightarrow> 'v"
    and upd :: "'c \<Rightarrow> 'v \<Rightarrow> 'v"
    and chg_key :: "'c \<Rightarrow> string"
    and add :: "'a \<Rightarrow> 's \<Rightarrow> int \<times> 's"
    and del :: "string \<Rightarrow> 's \<Rightarrow> int \<times> 's"
    and chg :: "'c \<Rightarrow> 's \<Rightarrow> int \<times> 's"
  assumes upd_key: "key v = chg_key c \<Longrightarrow> key (upd c v) = key v"
    and add_cases: "items (snd (add a s)) = items s \<and> fst (add a s) \<noteq> 0 \<or>
      find (\<lambda>v. key v = key (mk a)) (items s) = None \<and> items (snd (add a s)) = items s @ [mk a]"
    and del_cases: "items (snd (del k s)) = items s \<and> fst (del k s) \<noteq> 0 \<or>
      find (\<lambda>v. key v = k) (items s) \<noteq> None \<and>
      items (snd (del k s)) = remove_first (\<lambda>v. key v = k) (items s)"
    and chg_cases: "items (snd (chg c s)) = items s \<and> fst (chg c s) \<noteq> 0 \<or>
      find (\<lambda>v. key v = chg_key c) (items s) \<noteq> None \<and>
      items (snd (chg c s)) = update_first (\<lambda>v. key v = chg_key c) (upd c) (items s)"
begin

definition lookup :: "string \<Rightarrow> 's \<Rightarrow> 'v option" where
  "lookup k s = find (\<lambda>v. key v = k) (items s)"

definition distinct_keys :: "'s \<Rightarrow> bool" where
  "distinct_keys s \<longleftrightarrow> distinct (map key (items s))"

lemma add_distinct: "distinct_keys s \<Longrightarrow> distinct_keys (snd (add a s))"
  using add_cases [of a s] by (auto simp: distinct_keys_def find_None_key)

lemma del_distinct: "distinct_keys s \<Longrightarrow> distinct_keys (snd (del k s))"
  using del_cases [of k s] by (auto simp: distinct_keys_def map_remove_first)

lemma chg_distinct: "distinct_keys s \<Longrightarrow> distinct_keys (snd (chg c s))"
  using chg_cases [of c s] by (auto simp: distinct_keys_def map_update_first upd_key)

lemma add_lookup:
  assumes "fst (add a s) = 0"
  shows "lookup k (snd (add a s)) = (if k = key (mk a) then Some (mk a) else lookup k s)"
    and "lookup (key (mk a)) s = None"
proof -
  have *: "find (\<lambda>v. key v = key (mk a)) (items s) = None" "items (snd (add a s)) = items s @ [mk a]"
    using add_cases [of a s] assms by auto
  then show "lookup (key (mk a)) s = None" by (simp add: lookup_def)
  show "lookup k (snd (add a s)) = (if k = key (mk a) then Some (mk a) else lookup k s)"
    using * by (cases "find (\<lambda>v. key v = k) (items s)")
      (auto simp: lookup_def find_append_none find_append_some)
qed

lemma del_lookup:
  assumes "fst (del k s) = 0" and "distinct_keys s"
  shows "lookup k' (snd (del k s)) = (if k' = k then None else lookup k' s)"
  using del_cases [of k s] assms
  by (auto simp: lookup_def distinct_keys_def find_remove_first_same find_remove_first_other)

lemma chg_lookup:
  assumes "fst (chg c s) = 0"
  shows "lookup k (snd (chg c s)) =
    (if k = chg_key c then map_option (upd c) (lookup k s) else lookup k s)"
  using chg_cases [of c s] assms by (auto simp: lookup_def find_update_first upd_key)

lemma del_missing: "lookup k s = None \<Longrightarrow> fst (del k s) \<noteq> 0 \<and> items (snd (del k s)) = items s"
  using del_cases [of k s] by (auto simp: lookup_def)

lemma chg_missing:
  "lookup (chg_key c) s = None \<Longrightarrow> fst (chg c s) \<noteq> 0 \<and> items (snd (chg c s)) = items s"
  using chg_cases [of c s] by (auto simp: lookup_def)

lemma add_duplicate:
  "lookup (key (mk a)) s \<noteq> None \<Longrightarrow> fst (add a s) \<noteq> 0 \<and> items (snd (add a s)) = items s"
  using add_cases [of a s] by (auto simp: lookup_def)

lemma length_add: "length (items (snd (add a s))) \<le> length (items s) + 1"
  using add_cases [of a s] by auto

end

subsection \<open>The interface of a search\<close>

text \<open>
  Services, corporations and users are enumerated by clients through a handle: \<open>OpenSearch\<close>
  stores an iterator under a new handle, \<open>SearchNext\<close> delivers the element there and moves
  on, until it returns -1. An iterator is a position in the sequence. The result of
  \<open>SearchNext\<close> is the return code, the element delivered through the pointer argument and
  the new state; \<open>None\<close> stands for a call with no defined outcome.
\<close>

primrec search_all ::
    "('s \<Rightarrow> (int \<times> 'v option \<times> 's) option) \<Rightarrow> nat \<Rightarrow> 's \<Rightarrow> ('v list \<times> 's) option" where
  "search_all nxt 0 s = None"
| "search_all nxt (Suc n) s = (case nxt s of
     None \<Rightarrow> None
   | Some (rc, v, s') \<Rightarrow>
       if rc \<noteq> 0 then Some ([], s')
       else (case v of None \<Rightarrow> None
             | Some x \<Rightarrow> map_option (\<lambda>(xs, t). (x # xs, t)) (search_all nxt n s')))"

locale search =
  fixes inv :: "'s \<Rightarrow> bool"
    and items :: "'s \<Rightarrow> 'v list"
    and live :: "'v \<Rightarrow> bool"
    and pos :: "int \<Rightarrow> 's \<Rightarrow> nat option"
    and opn :: "'s \<Rightarrow> int \<times> 's"
    and nxt :: "int \<Rightarrow> 's \<Rightarrow> (int \<times> 'v option \<times> 's) option"
  assumes opn_law: "inv s \<Longrightarrow> pos (fst (opn s)) (snd (opn s)) = Some 0 \<and> items (snd (opn s)) = items s
      \<and> inv (snd (opn s))"
    and nxt_more: "inv s \<Longrightarrow> pos h s = Some i \<Longrightarrow>
      dropWhile (\<lambda>v. \<not> live v) (drop i (items s)) = v # vs \<Longrightarrow>
      \<exists>s' j. nxt h s = Some (0, Some v, s') \<and> items s' = items s \<and> inv s' \<and> pos h s' = Some j
        \<and> j \<le> length (items s) \<and> drop j (items s) = vs"
    and nxt_end: "inv s \<Longrightarrow> pos h s = Some i \<Longrightarrow> i \<le> length (items s) \<Longrightarrow>
      dropWhile (\<lambda>v. \<not> live v) (drop i (items s)) = [] \<Longrightarrow>
      \<exists>s'. nxt h s = Some (- 1, None, s') \<and> items s' = items s"
begin

lemma search_from:
  assumes "inv s" and "pos h s = Some i" and "i \<le> length (items s)" and "length (items s) - i < n"
  shows "\<exists>s'. search_all (nxt h) n s = Some (filter live (drop i (items s)), s') \<and> items s' = items s"
  using assms
proof (induction n arbitrary: s i)
  case (Suc n)
  have f: "filter live (drop i (items s)) =
      filter live (dropWhile (\<lambda>v. \<not> live v) (drop i (items s)))"
    by (simp add: filter_dropWhile_not)
  show ?case
  proof (cases "dropWhile (\<lambda>v. \<not> live v) (drop i (items s))")
    case Nil
    with nxt_end [OF Suc.prems(1-3)] f show ?thesis by fastforce
  next
    case (Cons v vs)
    then obtain s' j where n: "nxt h s = Some (0, Some v, s')" "items s' = items s"
      "inv s'" "pos h s' = Some j" "j \<le> length (items s)" "drop j (items s) = vs"
      using nxt_more [OF Suc.prems(1,2)] by blast
    have "length (v # vs) \<le> length (drop i (items s))"
      using Cons length_dropWhile_le by metis
    then have "length vs < length (items s) - i" by simp
    moreover have "length (items s) - j = length vs" using n(6) by auto
    ultimately have "length (items s') - j < n" using Suc.prems(4) n(2) by simp
    then obtain t where t: "search_all (nxt h) n s' = Some (filter live vs, t)" "items t = items s"
      using Suc.IH [OF n(3,4)] n by auto
    have "live v" using Cons by (metis dropWhile_eq_Cons_conv)
    then show ?thesis using n(1) t f Cons by simp
  qed
qed simp

lemma search_complete:
  assumes "inv s" and "length (items s) < n" and "opn s = (h, s')"
  shows "\<exists>t. search_all (nxt h) n s' = Some (filter live (items s), t) \<and> items t = items s"
  using opn_law [of s] assms search_from [of s' h 0 n] by simp

end

end
