(* ===== verification/Stg_Admins.thy ===== *)
theory Stg_Admins
  imports Stg_World
begin

text \<open>
  Administrators: \<open>projects/stargazer/admins_impl.cpp\<close> and \<open>admins_impl.h\<close>. The state
  is the vector of administrators and the last error text; the mutex is taken and released inside
  each operation and never re-entered. Results that the code delivers through pointer arguments
  are returned.
\<close>

record admins = world +
  as_data :: "admin list"
  as_strError :: string

definition as_stg :: admin where
  "as_stg = Admin (Priv 0xFFFF) ''@stargazer'' ''''"

definition as_noAdmin :: admin where
  "as_noAdmin = Admin (Priv 0xFFFF) ''NO-ADMIN'' ''''"

definition Admins_find_it :: "string \<Rightarrow> admins \<Rightarrow> admin option" where
  "Admins_find_it login s = find (\<lambda>a. Admin_login a = login) (as_data s)"

definition Admins_add :: "store \<Rightarrow> admin \<Rightarrow> string \<Rightarrow> admins \<Rightarrow> int \<times> admins" where
  "Admins_add st adm login s =
     (if p_adminChg (Admin_priv adm) = 0
      then (- 1, emit (LogFmt (Admin_logStr adm @ '' Add administrator '' @ squote login
                   @ ''. Access denied.'')) (s\<lparr>as_strError := ''Access denied.''\<rparr>))
      else if Admins_find_it login s \<noteq> None
      then (let e = ''Administrator '' @ squote login
                    @ '' cannot not be added. Administrator already exists.''
            in (- 1, emit (Log (Admin_logStr adm @ '' '' @ e)) (s\<lparr>as_strError := e\<rparr>)))
      else (let s = s\<lparr>as_data := as_data s @ [Admin (Priv 0) login '''']\<rparr>;
                (rc, s) = call st (S_AddAdmin login) s
            in if rc = 0
               then (0, emit (Log (Admin_logStr adm @ '' Administrator '' @ squote login @ '' added.'')) s)
               else (let e = ''Administrator '' @ squote login @ '' was not added. Error: ''
                             @ strError_of st s
                     in (- 1, emit (Log (Admin_logStr adm @ '' '' @ e)) (s\<lparr>as_strError := e\<rparr>)))))"

definition Admins_del :: "store \<Rightarrow> admin \<Rightarrow> string \<Rightarrow> admins \<Rightarrow> int \<times> admins" where
  "Admins_del st adm login s =
     (if p_adminChg (Admin_priv adm) = 0
      then (- 1, emit (LogFmt (Admin_logStr adm @ '' Delete administrator '' @ squote login
                   @ ''. Access denied.'')) (s\<lparr>as_strError := ''Access denied.''\<rparr>))
      else if Admins_find_it login s = None
      then (let e = ''Administrator '' @ squote login
                    @ '' cannot be deleted. Administrator does not exist.''
            in (- 1, emit (Log (Admin_logStr adm @ '' '' @ e)) (s\<lparr>as_strError := e\<rparr>)))
      else (let s = s\<lparr>as_data := remove_first (\<lambda>a. Admin_login a = login) (as_data s)\<rparr>;
                (rc, s) = call st (S_DelAdmin login) s
            in if rc < 0
               then (let e = ''Administrator '' @ squote login @ '' was not deleted. Error: ''
                             @ strError_of st s
                     in (- 1, emit (Log (Admin_logStr adm @ '' '' @ e)) (s\<lparr>as_strError := e\<rparr>)))
               else (0, emit (Log (Admin_logStr adm @ '' Administrator '' @ squote login
                                   @ '' deleted.'')) s)))"

definition Admins_change :: "store \<Rightarrow> admin \<Rightarrow> admin_conf \<Rightarrow> admins \<Rightarrow> int \<times> admins" where
  "Admins_change st adm ac s =
     (if p_adminChg (Admin_priv adm) = 0
      then (- 1, emit (LogFmt (Admin_logStr adm @ '' Change administrator '' @ squote (ac_login ac)
                   @ ''. Access denied.'')) (s\<lparr>as_strError := ''Access denied.''\<rparr>))
      else if Admins_find_it (ac_login ac) s = None
      then (let e = ''Administrator '' @ squote (ac_login ac)
                    @ '' cannot be changed . Administrator does not exist.''
            in (- 1, emit (Log (Admin_logStr adm @ '' '' @ e)) (s\<lparr>as_strError := e\<rparr>)))
      else (let s = s\<lparr>as_data := update_first (\<lambda>a. Admin_login a = ac_login ac)
                       (\<lambda>a. a\<lparr>ad_conf := ac\<rparr>) (as_data s)\<rparr>;
                (rc, s) = call st (S_SaveAdmin ac) s
            in if rc \<noteq> 0
               then (- 1, emit (Log (strError_of st s))
                            (emit (Log (''Cannot write admin '' @ ac_login ac @ ''.'')) s))
               else (0, emit (Log (Admin_logStr adm @ '' Administrator '' @ squote (ac_login ac)
                                   @ '' changed.'')) s)))"

text \<open>
  \<open>read\<close>: the logins come from \<open>GetAdminsList\<close> with its return code, each record from
  \<open>RestoreAdmin\<close>. The records are appended to the vector itself, which at the end is swapped
  with the local, empty vector \<open>admins\<close>.
\<close>

fun Admins_read_loop ::
    "(string \<Rightarrow> int \<times> admin_conf) \<Rightarrow> store \<Rightarrow> string list \<Rightarrow> admins \<Rightarrow> bool \<times> admins" where
  "Admins_read_loop restore st [] s = (True, s)"
| "Admins_read_loop restore st (login # ls) s =
     (case restore login of (rc, ac) \<Rightarrow>
        if rc \<noteq> 0 then (False, emit (LogFmt (strError_of st s)) s)
        else Admins_read_loop restore st ls
               (s\<lparr>as_data := as_data s @ [\<lparr>ad_conf = ac, ad_ip = 0\<rparr>]\<rparr>))"

definition Admins_read ::
    "int \<times> string list \<Rightarrow> (string \<Rightarrow> int \<times> admin_conf) \<Rightarrow> store \<Rightarrow> admins \<Rightarrow> admins" where
  "Admins_read lst restore st s =
     (if fst lst < 0 then emit (LogFmt (strError_of st s)) s
      else (case Admins_read_loop restore st (snd lst) s of
              (False, s) \<Rightarrow> s
            | (True, s) \<Rightarrow> s\<lparr>as_data := []\<rparr>))"

definition AdminsImpl ::
    "int \<times> string list \<Rightarrow> (string \<Rightarrow> int \<times> admin_conf) \<Rightarrow> store \<Rightarrow> admins" where
  "AdminsImpl lst restore st =
     Admins_read lst restore st \<lparr>trace = [], as_data = [], as_strError = ''''\<rparr>"

text \<open>\<open>find\<close> returns true for "not found".\<close>

definition Admins_find :: "string \<Rightarrow> admins \<Rightarrow> bool \<times> admin option" where
  "Admins_find login s =
     (if as_data s = [] then (False, Some as_noAdmin)
      else case Admins_find_it login s of
             Some a \<Rightarrow> (False, Some a)
           | None \<Rightarrow> (True, None))"

definition Admins_exists :: "string \<Rightarrow> admins \<Rightarrow> bool" where
  "Admins_exists login s = (if as_data s = [] then True else Admins_find_it login s \<noteq> None)"

definition Admins_correct :: "string \<Rightarrow> string \<Rightarrow> admins \<Rightarrow> bool \<times> admin option" where
  "Admins_correct login password s =
     (if as_data s = [] then (True, None)
      else case Admins_find_it login s of
             None \<Rightarrow> (False, None)
           | Some a \<Rightarrow> if ac_password (ad_conf a) \<noteq> password then (False, None) else (True, Some a))"

subsection \<open>The registry contract\<close>

interpretation ar: registry as_data Admin_login "\<lambda>login. Admin (Priv 0) login ''''"
    "\<lambda>ac a. a\<lparr>ad_conf := ac\<rparr>" ac_login
    "Admins_add st adm" "Admins_del st adm" "Admins_change st adm" for st adm
proof (unfold_locales, goal_cases)
  case (1 v c)
  then show ?case by simp
next
  case (2 a s)
  show ?case
    by (auto simp: Admins_add_def Admins_find_it_def Admin_def Let_def call_def emit_def)
next
  case (3 k s)
  show ?case
    by (auto simp: Admins_del_def Admins_find_it_def Let_def call_def emit_def)
next
  case (4 c s)
  show ?case
    by (auto simp: Admins_change_def Admins_find_it_def Let_def call_def emit_def)
qed

lemma Admins_find_it_lookup: "Admins_find_it login s = ar.lookup login s"
  by (simp add: Admins_find_it_def ar.lookup_def)

text \<open>Without the administrator privilege nothing can be changed: every modifying operation
  reports failure, keeps the list of administrators and makes no call to the store.\<close>

theorem admins_access_denied:
  assumes "p_adminChg (Admin_priv adm) = 0"
  shows "\<forall>op \<in> {Admins_add st adm login, Admins_del st adm login, Admins_change st adm ac}.
    fst (op s) = - 1 \<and> as_data (snd (op s)) = as_data s
    \<and> as_strError (snd (op s)) = ''Access denied.''
    \<and> (\<forall>c. Call c \<in> set (trace (snd (op s))) \<longrightarrow> Call c \<in> set (trace s))"
  using assms by (simp add: Admins_add_def Admins_del_def Admins_change_def emit_def)

theorem admins_access_denied_witness:
  "(let s = \<lparr>trace = [], as_data = [as_stg], as_strError = ''''\<rparr>;
        adm = Admin (Priv 0) ''op'' ''x'' in
    p_adminChg (Admin_priv adm) = 0 \<and> fst (Admins_del good_store adm ''@stargazer'' s) = - 1)"
proof -
  have h: "p_adminChg (Admin_priv (Admin (Priv 0) ''op'' ''x'')) = 0"
    by (simp add: Admin_def Priv_def)
  show ?thesis
    using h admins_access_denied [OF h, of good_store "''@stargazer''"
        "\<lparr>ac_priv = Priv 0, ac_login = '''', ac_password = ''''\<rparr>"
        "\<lparr>trace = [], as_data = [as_stg], as_strError = ''''\<rparr>"]
    by (simp add: Let_def)
qed

text \<open>Authentication of administrators: once the list is not empty, the password check succeeds
  exactly for a listed login with its stored password, and then yields that administrator.\<close>

theorem admins_correct_iff:
  assumes "as_data s \<noteq> []"
  shows "Admins_correct login password s = (True, Some a) \<longleftrightarrow>
    ar.lookup login s = Some a \<and> ac_password (ad_conf a) = password"
  using assms
  by (auto simp: Admins_correct_def Admins_find_it_lookup split: option.splits if_splits)

theorem admins_correct_iff_witness:
  "(let a = Admin (Priv 0) ''op'' ''x''; s = \<lparr>trace = [], as_data = [a], as_strError = ''''\<rparr> in
    Admins_correct ''op'' ''x'' s = (True, Some a) \<and> Admins_correct ''op'' ''y'' s \<noteq> (True, Some a))"
  using admins_correct_iff [of "\<lparr>trace = [], as_data = [Admin (Priv 0) ''op'' ''x''], as_strError = ''''\<rparr>"
      "''op''" "''x''" "Admin (Priv 0) ''op'' ''x''"]
    admins_correct_iff [of "\<lparr>trace = [], as_data = [Admin (Priv 0) ''op'' ''x''], as_strError = ''''\<rparr>"
      "''op''" "''y''" "Admin (Priv 0) ''op'' ''x''"]
  by (simp add: Let_def ar.lookup_def Admin_def)

lemma Admins_read_loop_strError: "as_strError (snd (Admins_read_loop restore st ls s)) = as_strError s"
  by (induction restore st ls s rule: Admins_read_loop.induct) (auto simp: emit_def split: prod.split)

lemma Admins_read_loop_ok:
  "(\<And>l. l \<in> set ls \<Longrightarrow> fst (restore l) = 0) \<Longrightarrow> fst (Admins_read_loop restore st ls s)"
proof (induction restore st ls s rule: Admins_read_loop.induct)
  case (2 restore st login ls s)
  obtain rc ac where r: "restore login = (rc, ac)" by force
  have "rc = 0" using "2.prems" [of login] r by simp
  then show ?case using 2 r by auto
qed simp

text \<open>Reading the administrators from a store that answers every request leaves the list
  empty: the records are collected in the vector that is then swapped with an empty one. With the
  list empty every login and password is accepted and every name is resolved to the unrestricted
  pseudo-administrator.\<close>

theorem admins_read_leaves_empty:
  assumes "0 \<le> fst lst" and "\<And>l. l \<in> set (snd lst) \<Longrightarrow> fst (restore l) = 0"
  shows "as_data (AdminsImpl lst restore st) = []
    \<and> fst (Admins_correct login password (AdminsImpl lst restore st))
    \<and> Admins_find login (AdminsImpl lst restore st) = (False, Some as_noAdmin)"
proof -
  have "as_data (AdminsImpl lst restore st) = []"
    using Admins_read_loop_ok [of "snd lst" restore st "\<lparr>trace = [], as_data = [], as_strError = ''''\<rparr>"]
      assms
    by (auto simp: AdminsImpl_def Admins_read_def split: prod.split bool.split)
  then show ?thesis by (simp add: Admins_correct_def Admins_find_def)
qed

theorem admins_read_leaves_empty_witness:
  "as_data (AdminsImpl (0, [''admin''])
     (\<lambda>l. (0, \<lparr>ac_priv = Priv 0x3FFFF, ac_login = l, ac_password = ''123456''\<rparr>)) good_store) = []
   \<and> fst (Admins_correct ''nobody'' ''wrong'' (AdminsImpl (0, [''admin''])
     (\<lambda>l. (0, \<lparr>ac_priv = Priv 0x3FFFF, ac_login = l, ac_password = ''123456''\<rparr>)) good_store))"
  using admins_read_leaves_empty [of "(0, [''admin''])"
      "\<lambda>l. (0, \<lparr>ac_priv = Priv 0x3FFFF, ac_login = l, ac_password = ''123456''\<rparr>)"
      good_store "''nobody''" "''wrong''"]
  by simp

text \<open>The built-in administrator acting for the server itself holds every privilege except the
  one over corporations, whose bits lie outside the mask \<open>0xFFFF\<close> it is created with.\<close>

theorem sys_admin_privileges:
  "Admin_priv as_stg = \<lparr>p_userStat = 3, p_userConf = 3, p_userCash = 3, p_userPasswd = 3,
     p_userAddDel = 3, p_adminChg = 3, p_tariffChg = 3, p_serviceChg = 3, p_corpChg = 0\<rparr>"
  by (simp add: as_stg_def Admin_def Priv_def)

end
