(* ===== verification/Stg_Services.thy ===== *)
theory Stg_Services
  imports Stg_Admins
begin

text \<open>
  Services: \<open>projects/stargazer/services_impl.cpp\<close> and \<open>services_impl.h\<close>. The state is the vector
  of records, the search descriptors (an iterator is the index it stands for; growing the vector,
  which may move it, keeps the index) and the last error text. The mutex is taken and released
  inside each operation and never re-entered.
\<close>

record services = world +
  sv_data :: "service_conf list"
  sv_searchDescriptors :: "int \<rightharpoonup> nat"
  sv_handle :: u32
  sv_strError :: string

definition Services_Add :: "store \<Rightarrow> admin \<Rightarrow> service_conf \<Rightarrow> services \<Rightarrow> int \<times> services" where
  "Services_Add st adm sc s =
     (if p_serviceChg (Admin_priv adm) = 0
      then (- 1, emit (LogFmt (Admin_logStr adm @ '' Add service '' @ squote (sc_name sc)
                   @ ''. Access denied.'')) (s\<lparr>sv_strError := ''Access denied.''\<rparr>))
      else if find (\<lambda>x. sc_name x = sc_name sc) (sv_data s) \<noteq> None
      then (let e = ''Service '' @ squote (sc_name sc)
                    @ '' cannot not be added. Service already exist.''
            in (- 1, emit (Log (Admin_logStr adm @ '' '' @ e)) (s\<lparr>sv_strError := e\<rparr>)))
      else (let s = s\<lparr>sv_data := sv_data s @ [sc]\<rparr>;
                (rc, s) = call st (S_AddService (sc_name sc)) s
            in if rc = 0
               then (0, emit (Log (Admin_logStr adm @ '' Service '' @ squote (sc_name sc)
                                   @ '' added.'')) s)
               else (let e = ''Service '' @ squote (sc_name sc) @ '' was not added. Error: ''
                             @ strError_of st s
                     in (- 1, emit (Log (Admin_logStr adm @ '' '' @ e)) (s\<lparr>sv_strError := e\<rparr>)))))"

text \<open>Before an element is erased, the iterators that point at it are moved to the next one.\<close>

definition Services_Del :: "store \<Rightarrow> admin \<Rightarrow> string \<Rightarrow> services \<Rightarrow> int \<times> services" where
  "Services_Del st adm name s =
     (if p_serviceChg (Admin_priv adm) = 0
      then (- 1, emit (LogFmt (Admin_logStr adm @ '' Delete service '' @ squote name
                   @ ''. Access denied.'')) (s\<lparr>sv_strError := ''Access denied.''\<rparr>))
      else if find (\<lambda>x. sc_name x = name) (sv_data s) = None
      then (let e = ''Service '' @ squote name @ '' cannot be deleted. Service does not exist.''
            in (- 1, emit (Log (Admin_logStr adm @ '' '' @ e)) (s\<lparr>sv_strError := e\<rparr>)))
      else (let si = index_of (\<lambda>x. sc_name x = name) (sv_data s);
                s = s\<lparr>sv_searchDescriptors :=
                        (\<lambda>h. map_option (\<lambda>i. if i = si then i + 1 else i) (sv_searchDescriptors s h)),
                      sv_data := remove_first (\<lambda>x. sc_name x = name) (sv_data s)\<rparr>;
                (rc, s) = call st (S_DelService name) s
            in if rc < 0
               then (let e = ''Service '' @ squote name @ '' was not deleted. Error: ''
                             @ strError_of st s
                     in (- 1, emit (Log (Admin_logStr adm @ '' '' @ e)) (s\<lparr>sv_strError := e\<rparr>)))
               else (0, emit (Log (Admin_logStr adm @ '' Service '' @ squote name @ '' deleted.'')) s)))"

definition Services_Change :: "store \<Rightarrow> admin \<Rightarrow> service_conf \<Rightarrow> services \<Rightarrow> int \<times> services" where
  "Services_Change st adm sc s =
     (if p_serviceChg (Admin_priv adm) = 0
      then (- 1, emit (LogFmt (Admin_logStr adm @ '' Change service '' @ squote (sc_name sc)
                   @ ''. Access denied.'')) (s\<lparr>sv_strError := ''Access denied.''\<rparr>))
      else if find (\<lambda>x. sc_name x = sc_name sc) (sv_data s) = None
      then (let e = ''Service '' @ squote (sc_name sc)
                    @ '' cannot be changed . Service does not exist.''
            in (- 1, emit (Log (Admin_logStr adm @ '' '' @ e)) (s\<lparr>sv_strError := e\<rparr>)))
      else (let s = s\<lparr>sv_data := update_first (\<lambda>x. sc_name x = sc_name sc) (\<lambda>_. sc) (sv_data s)\<rparr>;
                (rc, s) = call st (S_SaveService sc) s
            in if rc \<noteq> 0
               then (- 1, emit (Log (strError_of st s))
                            (emit (Log (''Cannot write service '' @ sc_name sc @ ''.'')) s))
               else (0, emit (Log (Admin_logStr adm @ '' Service '' @ squote (sc_name sc)
                                   @ '' changed.'')) s)))"

text \<open>\<open>Read\<close>, called by the constructor: the names come from \<open>GetServicesList\<close> with its
  return code, each record from \<open>RestoreService\<close>. True is failure.\<close>

fun Services_Read_loop ::
    "(string \<Rightarrow> int \<times> service_conf) \<Rightarrow> store \<Rightarrow> string list \<Rightarrow> services \<Rightarrow> bool \<times> services" where
  "Services_Read_loop restore st [] s = (False, s)"
| "Services_Read_loop restore st (n # ns) s =
     (case restore n of (rc, sc) \<Rightarrow>
        if rc \<noteq> 0 then (True, emit (LogFmt (strError_of st s)) s)
        else Services_Read_loop restore st ns (s\<lparr>sv_data := sv_data s @ [sc]\<rparr>))"

definition Services_Read ::
    "int \<times> string list \<Rightarrow> (string \<Rightarrow> int \<times> service_conf) \<Rightarrow> store \<Rightarrow> services \<Rightarrow> bool \<times> services" where
  "Services_Read lst restore st s =
     (if fst lst < 0 then (True, emit (LogFmt (strError_of st s)) s)
      else Services_Read_loop restore st (snd lst) s)"

definition ServicesImpl ::
    "int \<times> string list \<Rightarrow> (string \<Rightarrow> int \<times> service_conf) \<Rightarrow> store \<Rightarrow> services" where
  "ServicesImpl lst restore st = snd (Services_Read lst restore st
     \<lparr>trace = [], sv_data = [], sv_searchDescriptors = Map.empty, sv_handle = 0,
      sv_strError = ''''\<rparr>)"

text \<open>\<open>Find\<close> returns true for "not found".\<close>

definition Services_Find :: "string \<Rightarrow> services \<Rightarrow> bool \<times> service_conf option" where
  "Services_Find name s =
     (if sv_data s = [] then (True, None)
      else case find (\<lambda>x. sc_name x = name) (sv_data s) of
             Some x \<Rightarrow> (False, Some x)
           | None \<Rightarrow> (True, None))"

definition Services_Find_opt :: "string \<Rightarrow> services \<Rightarrow> bool \<times> service_conf_opt option" where
  "Services_Find_opt name s =
     (if sv_data s = [] then (True, None)
      else case find (\<lambda>x. sc_name x = name) (sv_data s) of
             Some x \<Rightarrow> (False, Some (ServiceConfOpt x))
           | None \<Rightarrow> (True, None))"

definition Services_Exists :: "string \<Rightarrow> services \<Rightarrow> bool" where
  "Services_Exists name s =
     (if sv_data s = [] then True else find (\<lambda>x. sc_name x = name) (sv_data s) \<noteq> None)"

text \<open>The search descriptors are keyed by \<open>int\<close>, the counter is unsigned.\<close>

definition Services_OpenSearch :: "services \<Rightarrow> int \<times> services" where
  "Services_OpenSearch s =
     (let s = s\<lparr>sv_handle := sv_handle s + 1\<rparr>;
          h = sint (sv_handle s)
      in (h, s\<lparr>sv_searchDescriptors := (sv_searchDescriptors s)(h \<mapsto> 0)\<rparr>))"

text \<open>An iterator behind the end (an element before it was erased) is dereferenced: no defined
  outcome.\<close>

definition Services_SearchNext :: "int \<Rightarrow> services \<Rightarrow> (int \<times> service_conf option \<times> services) option" where
  "Services_SearchNext h s = (case sv_searchDescriptors s h of
     None \<Rightarrow> Some (- 1, None, emit (Log ''SERVICES. Incorrect search handle.'') s)
   | Some i \<Rightarrow>
       if i = length (sv_data s) then Some (- 1, None, s)
       else if length (sv_data s) < i then None
       else Some (0, Some (sv_data s ! i),
              s\<lparr>sv_searchDescriptors := (sv_searchDescriptors s)(h \<mapsto> i + 1)\<rparr>))"

definition Services_CloseSearch :: "int \<Rightarrow> services \<Rightarrow> int \<times> services" where
  "Services_CloseSearch h s =
     (if sv_searchDescriptors s h \<noteq> None
      then (0, s\<lparr>sv_searchDescriptors := (sv_searchDescriptors s)(h := None)\<rparr>)
      else (- 1, emit (Log ''SERVICES. Incorrect search handle.'') s))"

subsection \<open>The registry and the search contract\<close>

interpretation svr: registry sv_data sc_name "\<lambda>x. x" "\<lambda>c _. c" sc_name
    "Services_Add st adm" "Services_Del st adm" "Services_Change st adm" for st adm
proof (unfold_locales, goal_cases)
  case (2 a s)
  show ?case by (auto simp: Services_Add_def Let_def call_def emit_def)
next
  case (3 k s)
  show ?case by (auto simp: Services_Del_def Let_def call_def emit_def)
next
  case (4 c s)
  show ?case by (auto simp: Services_Change_def Let_def call_def emit_def)
qed simp

interpretation svrs: search "\<lambda>_. True" sv_data "\<lambda>_. True" "\<lambda>h s. sv_searchDescriptors s h"
    Services_OpenSearch Services_SearchNext
proof (unfold_locales, goal_cases)
  case (1 s)
  show ?case by (simp add: Services_OpenSearch_def Let_def)
next
  case (2 s h i v vs)
  then have d: "drop i (sv_data s) = v # vs" by (cases "drop i (sv_data s)") simp_all
  then have i: "i < length (sv_data s)" by (metis drop_all leI list.distinct(1))
  then have "v = sv_data s ! i" "drop (i + 1) (sv_data s) = vs"
    using d by (metis nth_via_drop, metis Cons_nth_drop_Suc Suc_eq_plus1 list.inject)
  then show ?case using 2 i by (simp add: Services_SearchNext_def)
next
  case (3 s h i)
  have "dropWhile (\<lambda>v. \<not> True) (drop i (sv_data s)) = drop i (sv_data s)"
    by (cases "drop i (sv_data s)") simp_all
  then show ?case using 3 by (simp add: Services_SearchNext_def)
qed

lemma Services_Find_lookup:
  "snd (Services_Find n s) = svr.lookup n s"
  "svr.lookup n s \<noteq> None \<Longrightarrow> Services_Find n s = (False, svr.lookup n s)"
  by (auto simp: Services_Find_def svr.lookup_def split: option.split)

text \<open>C40. The services as a map: when an operation reports success, \<open>Find\<close> afterwards
  delivers the record that was added or changed, finds nothing under a deleted name, and answers as
  before for every other name.\<close>

theorem services_find_after:
  assumes "distinct (map sc_name (sv_data s))"
  shows "(fst (Services_Add st adm sc s) = 0 \<longrightarrow>
      snd (Services_Find n (snd (Services_Add st adm sc s))) =
        (if n = sc_name sc then Some sc else snd (Services_Find n s)))
    \<and> (fst (Services_Change st adm sc s) = 0 \<longrightarrow>
      snd (Services_Find n (snd (Services_Change st adm sc s))) =
        (if n = sc_name sc then Some sc else snd (Services_Find n s)))
    \<and> (fst (Services_Del st adm m s) = 0 \<longrightarrow>
      snd (Services_Find n (snd (Services_Del st adm m s))) =
        (if n = m then None else snd (Services_Find n s)))"
proof (intro conjI impI)
  show "snd (Services_Find n (snd (Services_Add st adm sc s))) =
      (if n = sc_name sc then Some sc else snd (Services_Find n s))"
    if "fst (Services_Add st adm sc s) = 0"
    using svr.add_lookup [OF that] by (simp add: Services_Find_lookup)
  show "snd (Services_Find n (snd (Services_Change st adm sc s))) =
      (if n = sc_name sc then Some sc else snd (Services_Find n s))"
    if ok: "fst (Services_Change st adm sc s) = 0"
    using svr.chg_lookup [OF ok] svr.chg_missing [of sc s st adm] ok
    by (auto simp: Services_Find_lookup)
  show "snd (Services_Find n (snd (Services_Del st adm m s))) =
      (if n = m then None else snd (Services_Find n s))"
    if "fst (Services_Del st adm m s) = 0"
    using assms that by (simp add: Services_Find_lookup svr.del_lookup svr.distinct_keys_def)
qed

definition services0 :: "service_conf list \<Rightarrow> services" where
  "services0 d = \<lparr>trace = [], sv_data = d, sv_searchDescriptors = Map.empty, sv_handle = 0,
     sv_strError = ''''\<rparr>"

theorem services_find_after_witness:
  "snd (Services_Find ''tv'' (snd (Services_Add good_store as_stg (ServiceConf ''tv'' 5 1 '''')
     (services0 [ServiceConf ''ip'' 3 1 '''']))))
   = Some (ServiceConf ''tv'' 5 1 '''')"
  using services_find_after [of "services0 [ServiceConf ''ip'' 3 1 '''']" good_store as_stg
      "ServiceConf ''tv'' 5 1 ''''" "''tv''" "''ip''"]
  by (simp add: services0_def as_stg_def Admin_def Priv_def Services_Add_def ServiceConf_def
      good_store_def Let_def call_def emit_def)

text \<open>A search started with \<open>OpenSearch\<close> and continued with \<open>SearchNext\<close> until it
  returns -1 delivers every service exactly once, in order, and stops.\<close>

theorem services_search_complete:
  assumes "Services_OpenSearch s = (h, s')" and "length (sv_data s) < n"
  shows "\<exists>t. search_all (Services_SearchNext h) n s' = Some (sv_data s, t) \<and> sv_data t = sv_data s"
  using svrs.search_complete [OF TrueI assms(2,1)] by simp

theorem services_search_complete_witness:
  "\<exists>t. search_all (Services_SearchNext 1) 2 (snd (Services_OpenSearch (services0 [ServiceConf ''ip'' 3 1 ''''])))
     = Some ([ServiceConf ''ip'' 3 1 ''''], t)"
  using services_search_complete [of "services0 [ServiceConf ''ip'' 3 1 '''']" 1
      "snd (Services_OpenSearch (services0 [ServiceConf ''ip'' 3 1 '''']))" 2]
  by (auto simp: services0_def Services_OpenSearch_def Let_def)

text \<open>Deleting the service a search is about to deliver makes the search skip the service
  after it: the descriptor is moved forward and the erasure moves the elements back as well.\<close>

theorem services_del_skips_next:
  assumes "distinct (map sc_name (sv_data s))" and "sv_searchDescriptors s h = Some i"
    and "i + 2 < length (sv_data s)" and "p_serviceChg (Admin_priv adm) \<noteq> 0"
  shows "map_option (\<lambda>(rc, v, t). (rc, v))
      (Services_SearchNext h (snd (Services_Del st adm (sc_name (sv_data s ! i)) s)))
    = Some (0, Some (sv_data s ! (i + 2)))"
proof -
  let ?d = "take i (sv_data s) @ drop (Suc i) (sv_data s)"
  let ?s = "snd (Services_Del st adm (sc_name (sv_data s ! i)) s)"
  have i: "i < length (sv_data s)" using assms(3) by simp
  have "sv_data ?s = ?d" "sv_searchDescriptors ?s h = Some (i + 1)"
    using assms find_nth [OF i, of sc_name] remove_first_nth [OF assms(1) i]
      index_of_nth [OF assms(1) i]
    by (auto simp: Services_Del_def Let_def call_def emit_def)
  moreover have "?d ! (i + 1) = sv_data s ! (i + 2)" "i + 1 < length ?d"
    using assms(3) by (simp_all add: nth_append)
  ultimately show ?thesis using assms(3) by (auto simp: Services_SearchNext_def)
qed

theorem services_del_skips_next_witness:
  "(let s = snd (Services_OpenSearch (services0 (map (\<lambda>n. ServiceConf [n] 1 1 '''') ''abc'')))
    in map_option (\<lambda>(rc, v, t). (rc, v))
         (Services_SearchNext 1 (snd (Services_Del good_store as_stg ''a'' s)))
       = Some (0, Some (ServiceConf ''c'' 1 1 '''')))"
  using services_del_skips_next
    [of "snd (Services_OpenSearch (services0 (map (\<lambda>n. ServiceConf [n] 1 1 '''') ''abc'')))" 1 0
        as_stg good_store]
  by (simp add: services0_def Services_OpenSearch_def Let_def ServiceConf_def as_stg_def Admin_def
      Priv_def)

end
