(* ===== verification/Stg_Corps.thy ===== *)
theory Stg_Corps
  imports Stg_Services
begin

text \<open>
  Corporations: \<open>projects/stargazer/corps_impl.cpp\<close> and \<open>corps_impl.h\<close>. The state is the vector
  of records, the search descriptors (an iterator is the index it stands for; growing the vector,
  which may move it, keeps the index) and the last error text. The mutex is taken and released
  inside each operation and never re-entered.
\<close>

record corps = world +
  cp_data :: "corp_conf list"
  cp_searchDescriptors :: "int \<rightharpoonup> nat"
  cp_handle :: u32
  cp_strError :: string

definition Corps_Add :: "store \<Rightarrow> admin \<Rightarrow> corp_conf \<Rightarrow> corps \<Rightarrow> int \<times> corps" where
  "Corps_Add st adm cc s =
     (if p_corpChg (Admin_priv adm) = 0
      then (- 1, emit (LogFmt (Admin_logStr adm @ '' Add corporation '' @ squote (cc_name cc)
                   @ ''. Access denied.'')) (s\<lparr>cp_strError := ''Access denied.''\<rparr>))
      else if find (\<lambda>x. cc_name x = cc_name cc) (cp_data s) \<noteq> None
      then (let e = ''Corporation '' @ squote (cc_name cc)
                    @ '' cannot not be added. Corporation already exist.''
            in (- 1, emit (Log (Admin_logStr adm @ '' '' @ e)) (s\<lparr>cp_strError := e\<rparr>)))
      else (let s = s\<lparr>cp_data := cp_data s @ [cc]\<rparr>;
                (rc, s) = call st (S_AddCorp (cc_name cc)) s
            in if rc = 0
               then (0, emit (Log (Admin_logStr adm @ '' Corporation '' @ squote (cc_name cc)
                                   @ '' added.'')) s)
               else (let e = ''Corporation '' @ squote (cc_name cc) @ '' was not added. Error: ''
                             @ strError_of st s
                     in (- 1, emit (Log (Admin_logStr adm @ '' '' @ e)) (s\<lparr>cp_strError := e\<rparr>)))))"

text \<open>Before an element is erased, the iterators that point at it are moved to the next one.\<close>

definition Corps_Del :: "store \<Rightarrow> admin \<Rightarrow> string \<Rightarrow> corps \<Rightarrow> int \<times> corps" where
  "Corps_Del st adm name s =
     (if p_corpChg (Admin_priv adm) = 0
      then (- 1, emit (LogFmt (Admin_logStr adm @ '' Delete corporation '' @ squote name
                   @ ''. Access denied.'')) (s\<lparr>cp_strError := ''Access denied.''\<rparr>))
      else if find (\<lambda>x. cc_name x = name) (cp_data s) = None
      then (let e = ''Corporation '' @ squote name @ '' cannot be deleted. Corporation does not exist.''
            in (- 1, emit (Log (Admin_logStr adm @ '' '' @ e)) (s\<lparr>cp_strError := e\<rparr>)))
      else (let si = index_of (\<lambda>x. cc_name x = name) (cp_data s);
                s = s\<lparr>cp_searchDescriptors :=
                        (\<lambda>h. map_option (\<lambda>i. if i = si then i + 1 else i) (cp_searchDescriptors s h)),
                      cp_data := remove_first (\<lambda>x. cc_name x = name) (cp_data s)\<rparr>;
                (rc, s) = call st (S_DelCorp name) s
            in if rc < 0
               then (let e = ''Corporation '' @ squote name @ '' was not deleted. Error: ''
                             @ strError_of st s
                     in (- 1, emit (Log (Admin_logStr adm @ '' '' @ e)) (s\<lparr>cp_strError := e\<rparr>)))
               else (0, emit (Log (Admin_logStr adm @ '' Corporation '' @ squote name @ '' deleted.'')) s)))"

definition Corps_Change :: "store \<Rightarrow> admin \<Rightarrow> corp_conf \<Rightarrow> corps \<Rightarrow> int \<times> corps" where
  "Corps_Change st adm cc s =
     (if p_corpChg (Admin_priv adm) = 0
      then (- 1, emit (LogFmt (Admin_logStr adm @ '' Change corporation '' @ squote (cc_name cc)
                   @ ''. Access denied.'')) (s\<lparr>cp_strError := ''Access denied.''\<rparr>))
      else if find (\<lambda>x. cc_name x = cc_name cc) (cp_data s) = None
      then (let e = ''Corporation '' @ squote (cc_name cc)
                    @ '' cannot be changed . Corporation does not exist.''
            in (- 1, emit (Log (Admin_logStr adm @ '' '' @ e)) (s\<lparr>cp_strError := e\<rparr>)))
      else (let s = s\<lparr>cp_data := update_first (\<lambda>x. cc_name x = cc_name cc) (\<lambda>_. cc) (cp_data s)\<rparr>;
                (rc, s) = call st (S_SaveCorp cc) s
            in if rc \<noteq> 0
               then (- 1, emit (Log (strError_of st s))
                            (emit (Log (''Cannot write corporation '' @ cc_name cc @ ''.'')) s))
               else (0, emit (Log (Admin_logStr adm @ '' Corporation '' @ squote (cc_name cc)
                                   @ '' changed.'')) s)))"

text \<open>\<open>Read\<close>, called by the constructor: the names come from \<open>GetCorpsList\<close> with its
  return code, each record from \<open>RestoreCorp\<close>. True is failure.\<close>

fun Corps_Read_loop ::
    "(string \<Rightarrow> int \<times> corp_conf) \<Rightarrow> store \<Rightarrow> string list \<Rightarrow> corps \<Rightarrow> bool \<times> corps" where
  "Corps_Read_loop restore st [] s = (False, s)"
| "Corps_Read_loop restore st (n # ns) s =
     (case restore n of (rc, cc) \<Rightarrow>
        if rc \<noteq> 0 then (True, emit (LogFmt (strError_of st s)) s)
        else Corps_Read_loop restore st ns (s\<lparr>cp_data := cp_data s @ [cc]\<rparr>))"

definition Corps_Read ::
    "int \<times> string list \<Rightarrow> (string \<Rightarrow> int \<times> corp_conf) \<Rightarrow> store \<Rightarrow> corps \<Rightarrow> bool \<times> corps" where
  "Corps_Read lst restore st s =
     (if fst lst < 0 then (True, emit (LogFmt (strError_of st s)) s)
      else Corps_Read_loop restore st (snd lst) s)"

definition CorporationsImpl ::
    "int \<times> string list \<Rightarrow> (string \<Rightarrow> int \<times> corp_conf) \<Rightarrow> store \<Rightarrow> corps" where
  "CorporationsImpl lst restore st = snd (Corps_Read lst restore st
     \<lparr>trace = [], cp_data = [], cp_searchDescriptors = Map.empty, cp_handle = 0,
      cp_strError = ''''\<rparr>)"

text \<open>\<open>Find\<close> returns true for "not found", but false for an empty list, with no record delivered.\<close>

definition Corps_Find :: "string \<Rightarrow> corps \<Rightarrow> bool \<times> corp_conf option" where
  "Corps_Find name s =
     (if cp_data s = [] then (False, None)
      else case find (\<lambda>x. cc_name x = name) (cp_data s) of
             Some x \<Rightarrow> (False, Some x)
           | None \<Rightarrow> (True, None))"

definition Corps_Exists :: "string \<Rightarrow> corps \<Rightarrow> bool" where
  "Corps_Exists name s =
     (if cp_data s = [] then True else find (\<lambda>x. cc_name x = name) (cp_data s) \<noteq> None)"

text \<open>The search descriptors are keyed by \<open>int\<close>, the counter is unsigned.\<close>

definition Corps_OpenSearch :: "corps \<Rightarrow> int \<times> corps" where
  "Corps_OpenSearch s =
     (let s = s\<lparr>cp_handle := cp_handle s + 1\<rparr>;
          h = sint (cp_handle s)
      in (h, s\<lparr>cp_searchDescriptors := (cp_searchDescriptors s)(h \<mapsto> 0)\<rparr>))"

text \<open>An iterator behind the end (an element before it was erased) is dereferenced: no defined
  outcome.\<close>

definition Corps_SearchNext :: "int \<Rightarrow> corps \<Rightarrow> (int \<times> corp_conf option \<times> corps) option" where
  "Corps_SearchNext h s = (case cp_searchDescriptors s h of
     None \<Rightarrow> Some (- 1, None, emit (Log ''CORPORATIONS. Incorrect search handle.'') s)
   | Some i \<Rightarrow>
       if i = length (cp_data s) then Some (- 1, None, s)
       else if length (cp_data s) < i then None
       else Some (0, Some (cp_data s ! i),
              s\<lparr>cp_searchDescriptors := (cp_searchDescriptors s)(h \<mapsto> i + 1)\<rparr>))"

definition Corps_CloseSearch :: "int \<Rightarrow> corps \<Rightarrow> int \<times> corps" where
  "Corps_CloseSearch h s =
     (if cp_searchDescriptors s h \<noteq> None
      then (0, s\<lparr>cp_searchDescriptors := (cp_searchDescriptors s)(h := None)\<rparr>)
      else (- 1, emit (Log ''CORPORATIONS. Incorrect search handle.'') s))"

subsection \<open>The registry and the search contract\<close>

interpretation cpr: registry cp_data cc_name "\<lambda>x. x" "\<lambda>c _. c" cc_name
    "Corps_Add st adm" "Corps_Del st adm" "Corps_Change st adm" for st adm
proof (unfold_locales, goal_cases)
  case (2 a s)
  show ?case by (auto simp: Corps_Add_def Let_def call_def emit_def)
next
  case (3 k s)
  show ?case by (auto simp: Corps_Del_def Let_def call_def emit_def)
next
  case (4 c s)
  show ?case by (auto simp: Corps_Change_def Let_def call_def emit_def)
qed simp

interpretation cprs: search "\<lambda>_. True" cp_data "\<lambda>_. True" "\<lambda>h s. cp_searchDescriptors s h"
    Corps_OpenSearch Corps_SearchNext
proof (unfold_locales, goal_cases)
  case (1 s)
  show ?case by (simp add: Corps_OpenSearch_def Let_def)
next
  case (2 s h i v vs)
  then have d: "drop i (cp_data s) = v # vs" by (cases "drop i (cp_data s)") simp_all
  then have i: "i < length (cp_data s)" by (metis drop_all leI list.distinct(1))
  then have "v = cp_data s ! i" "drop (i + 1) (cp_data s) = vs"
    using d by (metis nth_via_drop, metis Cons_nth_drop_Suc Suc_eq_plus1 list.inject)
  then show ?case using 2 i by (simp add: Corps_SearchNext_def)
next
  case (3 s h i)
  have "dropWhile (\<lambda>v. \<not> True) (drop i (cp_data s)) = drop i (cp_data s)"
    by (cases "drop i (cp_data s)") simp_all
  then show ?case using 3 by (simp add: Corps_SearchNext_def)
qed

text \<open>The operations clients may apply, by whichever administrator and with a store that may fail
  at any call.\<close>

inductive corps_step :: "store \<Rightarrow> corps \<Rightarrow> corps \<Rightarrow> bool" for st where
  corps_add: "corps_step st s (snd (Corps_Add st adm c s))"
| corps_del: "corps_step st s (snd (Corps_Del st adm n s))"
| corps_change: "corps_step st s (snd (Corps_Change st adm c s))"
| corps_open: "corps_step st s (snd (Corps_OpenSearch s))"
| corps_next: "Corps_SearchNext h s = Some (rc, v, s') \<Longrightarrow> corps_step st s s'"
| corps_close: "corps_step st s (snd (Corps_CloseSearch h s))"

inductive_cases corps_stepE: "corps_step st s s'"

lemma corps_search_data:
  "cp_data (snd (Corps_OpenSearch s)) = cp_data s"
  "cp_data (snd (Corps_CloseSearch h s)) = cp_data s"
  "Corps_SearchNext h s = Some (rc, v, s') \<Longrightarrow> cp_data s' = cp_data s"
  by (auto simp: Corps_OpenSearch_def Corps_CloseSearch_def Corps_SearchNext_def Let_def emit_def
      split: option.splits if_splits)

lemma corps_step_distinct:
  "corps_step st s s' \<Longrightarrow> distinct (map cc_name (cp_data s)) \<Longrightarrow> distinct (map cc_name (cp_data s'))"
  using cpr.add_distinct cpr.del_distinct cpr.chg_distinct
  by (elim corps_stepE) (auto simp: cpr.distinct_keys_def corps_search_data)

lemma Corps_Read_loop_data:
  "\<exists>k \<le> length ns. cp_data (snd (Corps_Read_loop restore st ns s)) =
     cp_data s @ map (snd \<circ> restore) (take k ns)"
proof (induction ns arbitrary: s)
  case (Cons n ns)
  obtain rc c where r: "restore n = (rc, c)" by force
  show ?case
  proof (cases "rc = 0")
    case True
    from Cons.IH [of "s\<lparr>cp_data := cp_data s @ [c]\<rparr>"] obtain k where
      "k \<le> length ns" "cp_data (snd (Corps_Read_loop restore st ns (s\<lparr>cp_data := cp_data s @ [c]\<rparr>)))
        = cp_data s @ [c] @ map (snd \<circ> restore) (take k ns)" by auto
    then show ?thesis using r True by (intro exI [of _ "Suc k"]) simp
  qed (use r in \<open>auto simp: emit_def intro: exI [of _ 0]\<close>)
qed simp

text \<open>Names of corporations stay unique: if the store lists distinct names and restores each
  record under its name, then in every state the server can reach by any sequence of operations,
  permitted or refused, successful or failing in the store, no two corporations share a name.\<close>

theorem corps_reachable_distinct:
  assumes "distinct (snd lst)" and "\<And>n. cc_name (snd (restore n)) = n"
    and "(corps_step st)\<^sup>*\<^sup>* (CorporationsImpl lst restore st) s"
  shows "distinct (map cc_name (cp_data s))"
  using assms(3)
proof (induction rule: rtranclp_induct)
  case base
  let ?s0 = "\<lparr>trace = [], cp_data = [], cp_searchDescriptors = Map.empty, cp_handle = 0,
      cp_strError = ''''\<rparr>"
  obtain k where "cp_data (snd (Corps_Read_loop restore st (snd lst) ?s0))
      = map (snd \<circ> restore) (take k (snd lst))"
    using Corps_Read_loop_data [of "snd lst" restore st ?s0] by auto
  moreover have "map cc_name (map (snd \<circ> restore) (take k (snd lst))) = take k (snd lst)"
    using assms(2) by (simp add: comp_def)
  ultimately show ?case
    using assms(1) by (simp add: CorporationsImpl_def Corps_Read_def emit_def)
next
  case (step s s')
  then show ?case using corps_step_distinct by blast
qed

theorem corps_reachable_distinct_witness:
  "(let restore = (\<lambda>n. (0, \<lparr>cc_name = n, cc_cash = 0\<rparr>));
        s0 = CorporationsImpl (0, [''a'']) restore good_store
    in distinct (map cc_name (cp_data (snd (Corps_Del good_store as_stg ''a'' s0)))))"
  unfolding Let_def
  by (rule corps_reachable_distinct
      [of "(0, [''a''])" "\<lambda>n. (0, \<lparr>cc_name = n, cc_cash = 0\<rparr>)" good_store])
    (auto intro: corps_del)

end
