(* ===== verification/Stg_Tariffs.thy ===== *)
theory Stg_Tariffs
  imports Stg_Corps
begin

text \<open>
  The list of tariffs: \<open>projects/stargazer/tariffs_impl.cpp\<close> and \<open>tariffs_impl.h\<close>. A
  \<open>TariffImpl\<close> is its \<open>TariffData\<close>; the pseudo-tariff \<open>noTariff\<close> is kept outside the
  vector. Subscribers to additions and removals are told through events.
\<close>

record tariffs = world +
  tfs_tariffs :: "tariff_data list"
  tfs_strError :: string

definition noTariff :: tariff_data where
  "noTariff = TariffData NO_TARIFF_NAME"

definition Tariffs_FindByName :: "string \<Rightarrow> tariffs \<Rightarrow> tariff_data option" where
  "Tariffs_FindByName name s =
     (if name = NO_TARIFF_NAME then Some noTariff
      else find (\<lambda>t. GetName t = name) (tfs_tariffs s))"

definition Tariffs_Chg :: "store \<Rightarrow> admin \<Rightarrow> tariff_data \<Rightarrow> tariffs \<Rightarrow> int \<times> tariffs" where
  "Tariffs_Chg st adm td s =
     (if p_tariffChg (Admin_priv adm) = 0
      then (- 1, emit (LogFmt (Admin_logStr adm @ '' Change tariff '' @ squote (GetName td)
                   @ ''. Access denied.'')) (s\<lparr>tfs_strError := ''Access denied.''\<rparr>))
      else if find (\<lambda>t. GetName t = GetName td) (tfs_tariffs s) = None
      then (let e = ''Tariff '' @ squote (GetName td) @ '' cannot be changed. Tariff does not exist.''
            in (- 1, emit (Log (Admin_logStr adm @ '' '' @ e)) (s\<lparr>tfs_strError := e\<rparr>)))
      else (let s = s\<lparr>tfs_tariffs := update_first (\<lambda>t. GetName t = GetName td) (\<lambda>_. td) (tfs_tariffs s)\<rparr>;
                (rc, s) = call st (S_SaveTariff td (GetName td)) s
            in if rc \<noteq> 0
               then (- 1, emit (LogFmt (''Tariff '' @ GetName td @ '' writing error. ''
                                         @ strError_of st s)) s)
               else (0, emit (Log (Admin_logStr adm @ '' Tariff '' @ squote (GetName td)
                                   @ '' changed.'')) s)))"

definition Tariffs_Del :: "store \<Rightarrow> admin \<Rightarrow> string \<Rightarrow> tariffs \<Rightarrow> int \<times> tariffs" where
  "Tariffs_Del st adm name s =
     (if p_tariffChg (Admin_priv adm) = 0
      then (- 1, emit (LogFmt (Admin_logStr adm @ '' Delete tariff '' @ squote name
                   @ ''. Access denied.'')) (s\<lparr>tfs_strError := ''Access denied.''\<rparr>))
      else (case find (\<lambda>t. GetName t = name) (tfs_tariffs s) of
        None \<Rightarrow>
          (let e = ''Tariff '' @ squote name @ '' cannot be deleted. Tariff does not exist.''
           in (- 1, emit (Log (Admin_logStr adm @ '' '' @ e)) (s\<lparr>tfs_strError := e\<rparr>)))
      | Some td \<Rightarrow>
          (let (rc, s) = call st (S_DelTariff name) s
           in if rc \<noteq> 0
              then (- 1, emit (Log (strError_of st s))
                           (emit (Log (''Cannot delete tariff '' @ name @ ''.'')) s))
              else (let s = s\<lparr>tfs_tariffs := remove_first (\<lambda>t. GetName t = name) (tfs_tariffs s)\<rparr>;
                        s = emit (TariffDeleted td) s
                    in (0, emit (Log (Admin_logStr adm @ '' Tariff '' @ squote name
                                      @ '' deleted.'')) s)))))"

definition Tariffs_Add :: "store \<Rightarrow> admin \<Rightarrow> string \<Rightarrow> tariffs \<Rightarrow> int \<times> tariffs" where
  "Tariffs_Add st adm name s =
     (if p_tariffChg (Admin_priv adm) = 0
      then (- 1, emit (LogFmt (Admin_logStr adm @ '' Add tariff '' @ squote name
                   @ ''. Access denied.'')) (s\<lparr>tfs_strError := ''Access denied.''\<rparr>))
      else if find (\<lambda>t. GetName t = name) (tfs_tariffs s) \<noteq> None
      then (let e = ''Tariff '' @ squote name @ '' cannot be added. Tariff already exist.''
            in (- 1, emit (Log (Admin_logStr adm @ '' '' @ e)) (s\<lparr>tfs_strError := e\<rparr>)))
      else (let s = s\<lparr>tfs_tariffs := tfs_tariffs s @ [TariffData name]\<rparr>;
                (rc, s) = call st (S_AddTariff name) s
            in if rc < 0
               then (let e = ''Tariff '' @ name @ '' adding error. '' @ strError_of st s
                     in (- 1, emit (LogFmt e) (s\<lparr>tfs_strError := e\<rparr>)))
               else (let s = emit (TariffAdded (last (tfs_tariffs s))) s
                     in (0, emit (Log (Admin_logStr adm @ '' Tariff '' @ squote name
                                       @ '' added.'')) s))))"

text \<open>A failure to list the tariffs is only logged: the names delivered are read all the same.\<close>

fun ReadTariffs_loop ::
    "(string \<Rightarrow> int \<times> tariff_data) \<Rightarrow> store \<Rightarrow> string list \<Rightarrow> tariffs \<Rightarrow> int \<times> tariffs" where
  "ReadTariffs_loop restore st [] s = (0, s)"
| "ReadTariffs_loop restore st (n # ns) s =
     (case restore n of (rc, td) \<Rightarrow>
        if rc \<noteq> 0
        then (- 1, emit (Log (strError_of st s)) (emit (Log (''Cannot read tariff '' @ n @ ''.'')) s))
        else ReadTariffs_loop restore st ns (s\<lparr>tfs_tariffs := tfs_tariffs s @ [td]\<rparr>))"

definition ReadTariffs ::
    "int \<times> string list \<Rightarrow> (string \<Rightarrow> int \<times> tariff_data) \<Rightarrow> store \<Rightarrow> tariffs \<Rightarrow> int \<times> tariffs" where
  "ReadTariffs lst restore st s =
     (let s = (if fst lst \<noteq> 0
               then emit (Log (strError_of st s)) (emit (Log ''Cannot get tariffs list.'') s)
               else s)
      in ReadTariffs_loop restore st (snd lst) s)"

definition GetTariffsData :: "tariff_data list \<Rightarrow> tariffs \<Rightarrow> tariff_data list" where
  "GetTariffsData tdl s = tdl @ tfs_tariffs s"

lemma GetName_TariffData [simp]: "GetName (TariffData n) = n"
  by (simp add: TariffData_def TariffConf_def)

interpretation tfr: registry tfs_tariffs GetName TariffData "\<lambda>c _. c" GetName
    "Tariffs_Add st adm" "Tariffs_Del st adm" "Tariffs_Chg st adm" for st adm
proof (unfold_locales, goal_cases)
  case (2 a s)
  show ?case by (auto simp: Tariffs_Add_def Let_def call_def emit_def)
next
  case (3 k s)
  show ?case by (auto simp: Tariffs_Del_def Let_def call_def emit_def split: option.split)
next
  case (4 c s)
  show ?case by (auto simp: Tariffs_Chg_def Let_def call_def emit_def)
qed simp

lemma Tariffs_FindByName_lookup:
  "Tariffs_FindByName n s = (if n = NO_TARIFF_NAME then Some noTariff else tfr.lookup n s)"
  by (simp add: Tariffs_FindByName_def tfr.lookup_def)

text \<open>The tariff list agrees with its store and its subscribers. Adding a new name puts the
  tariff in the list even when the store refuses it, but subscribers are told, once and with the
  tariff's data, exactly when the operation succeeds; a tariff leaves the list, and subscribers are
  told, exactly when the store has deleted it.\<close>

theorem tariffs_add_del_notify:
  assumes "p_tariffChg (Admin_priv adm) \<noteq> 0" and "n \<noteq> NO_TARIFF_NAME"
  shows "(case Tariffs_FindByName n s of
      None \<Rightarrow>
        Tariffs_FindByName n (snd (Tariffs_Add st adm n s)) = Some (TariffData n)
        \<and> filter (\<lambda>e. \<exists>t. e = TariffAdded t) (trace (snd (Tariffs_Add st adm n s))) =
          filter (\<lambda>e. \<exists>t. e = TariffAdded t) (trace s)
            @ (if fst (Tariffs_Add st adm n s) = 0 then [TariffAdded (TariffData n)] else [])
    | Some td \<Rightarrow>
        (if st_rc st (trace s) (S_DelTariff n) = 0
         then fst (Tariffs_Del st adm n s) = 0
           \<and> tfs_tariffs (snd (Tariffs_Del st adm n s)) = remove_first (\<lambda>t. GetName t = n) (tfs_tariffs s)
           \<and> filter (\<lambda>e. \<exists>t. e = TariffDeleted t) (trace (snd (Tariffs_Del st adm n s))) =
             filter (\<lambda>e. \<exists>t. e = TariffDeleted t) (trace s) @ [TariffDeleted td]
         else fst (Tariffs_Del st adm n s) = - 1
           \<and> tfs_tariffs (snd (Tariffs_Del st adm n s)) = tfs_tariffs s
           \<and> filter (\<lambda>e. \<exists>t. e = TariffDeleted t) (trace (snd (Tariffs_Del st adm n s))) =
             filter (\<lambda>e. \<exists>t. e = TariffDeleted t) (trace s)))"
  using assms
  by (auto simp: Tariffs_FindByName_def Tariffs_Add_def Tariffs_Del_def Let_def call_def emit_def
      find_append_none split: option.split)

theorem tariffs_add_del_notify_witness:
  "(let s = \<lparr>trace = [], tfs_tariffs = [], tfs_strError = ''''\<rparr>
    in Tariffs_FindByName ''t'' (snd (Tariffs_Add good_store as_stg ''t'' s)) = Some (TariffData ''t''))"
  using tariffs_add_del_notify [of as_stg "''t''" good_store
      "\<lparr>trace = [], tfs_tariffs = [], tfs_strError = ''''\<rparr>"]
  by (simp add: as_stg_def Admin_def Priv_def NO_TARIFF_NAME_def Tariffs_FindByName_def)

text \<open>The tariff list as a map: after a successful change exactly the changed name yields the
  new data, after a successful removal exactly the removed name is gone, and no operation changes
  what the pseudo-tariff's name yields.\<close>

theorem tariffs_find_after:
  assumes "distinct (map GetName (tfs_tariffs s))"
  shows "(fst (Tariffs_Chg st adm td s) = 0 \<and> GetName td \<noteq> NO_TARIFF_NAME \<longrightarrow>
      Tariffs_FindByName n (snd (Tariffs_Chg st adm td s)) =
        (if n = GetName td then Some td else Tariffs_FindByName n s))
    \<and> (fst (Tariffs_Del st adm m s) = 0 \<and> m \<noteq> NO_TARIFF_NAME \<longrightarrow>
      Tariffs_FindByName n (snd (Tariffs_Del st adm m s)) =
        (if n = m then None else Tariffs_FindByName n s))
    \<and> Tariffs_FindByName NO_TARIFF_NAME (snd (Tariffs_Chg st adm td s)) = Some noTariff
    \<and> Tariffs_FindByName NO_TARIFF_NAME (snd (Tariffs_Del st adm m s)) = Some noTariff"
proof (intro conjI impI)
  show "Tariffs_FindByName n (snd (Tariffs_Chg st adm td s)) =
      (if n = GetName td then Some td else Tariffs_FindByName n s)"
    if "fst (Tariffs_Chg st adm td s) = 0 \<and> GetName td \<noteq> NO_TARIFF_NAME"
    using that tfr.chg_lookup [of st adm td s] tfr.chg_missing [of td s st adm]
    by (auto simp: Tariffs_FindByName_lookup)
  show "Tariffs_FindByName n (snd (Tariffs_Del st adm m s)) =
      (if n = m then None else Tariffs_FindByName n s)"
    if "fst (Tariffs_Del st adm m s) = 0 \<and> m \<noteq> NO_TARIFF_NAME"
    using that assms by (simp add: Tariffs_FindByName_lookup tfr.del_lookup tfr.distinct_keys_def)
qed (simp_all add: Tariffs_FindByName_def)

theorem tariffs_find_after_witness:
  "(let s = \<lparr>trace = [], tfs_tariffs = [TariffData ''a'', TariffData ''b''], tfs_strError = ''''\<rparr>
    in Tariffs_FindByName ''b'' (snd (Tariffs_Del good_store as_stg ''a'' s)) = Some (TariffData ''b''))"
  using tariffs_find_after [of "\<lparr>trace = [], tfs_tariffs = [TariffData ''a'', TariffData ''b''],
      tfs_strError = ''''\<rparr>" good_store as_stg "TariffData ''a''" "''b''" "''a''"]
  by (simp add: as_stg_def Admin_def Priv_def NO_TARIFF_NAME_def Tariffs_FindByName_def
      Tariffs_Del_def Let_def call_def emit_def good_store_def)

subsection \<open>Pointers to tariffs\<close>

text \<open>
  \<open>FindByName\<close> hands out a pointer: 0 stands for the address of \<open>noTariff\<close>, \<open>i + 1\<close> for
  the address of element \<open>i\<close> of the vector. Users keep such pointers; what one denotes is read
  when it is used.
\<close>

definition Tariffs_FindByName_ptr :: "string \<Rightarrow> tariffs \<Rightarrow> nat option" where
  "Tariffs_FindByName_ptr name s =
     (if name = NO_TARIFF_NAME then Some 0
      else let i = index_of (\<lambda>t. GetName t = name) (tfs_tariffs s)
           in if i < length (tfs_tariffs s) then Some (Suc i) else None)"

definition Tariffs_at :: "nat \<Rightarrow> tariffs \<Rightarrow> tariff_data" where
  "Tariffs_at p s = (case p of 0 \<Rightarrow> noTariff | Suc i \<Rightarrow> tfs_tariffs s ! i)"

lemma Tariffs_FindByName_ptr_at:
  "map_option (\<lambda>p. Tariffs_at p s) (Tariffs_FindByName_ptr n s) = Tariffs_FindByName n s"
  using index_of_find [where P = "\<lambda>t. GetName t = n" and xs = "tfs_tariffs s"]
  by (auto simp: Tariffs_FindByName_ptr_def Tariffs_FindByName_def Tariffs_at_def Let_def)

text \<open>Pointers to tariffs do not survive a removal: deleting one tariff makes the pointer to
  every later tariff of the vector denote its successor, so a user who keeps it is charged by another
  tariff.\<close>

theorem tariff_pointer_shifts:
  assumes "distinct (map GetName (tfs_tariffs s))" and "i < j" and "Suc j < length (tfs_tariffs s)"
    and "fst (Tariffs_Del st adm (GetName (tfs_tariffs s ! i)) s) = 0"
  shows "Tariffs_at (Suc j) (snd (Tariffs_Del st adm (GetName (tfs_tariffs s ! i)) s)) =
      tfs_tariffs s ! Suc j
    \<and> GetName (tfs_tariffs s ! Suc j) \<noteq> GetName (tfs_tariffs s ! j)"
proof
  have i: "i < length (tfs_tariffs s)" using assms by simp
  have "tfs_tariffs (snd (Tariffs_Del st adm (GetName (tfs_tariffs s ! i)) s)) =
      take i (tfs_tariffs s) @ drop (Suc i) (tfs_tariffs s)"
    using tfr.del_cases [of st adm "GetName (tfs_tariffs s ! i)" s] assms(4)
      remove_first_nth [OF assms(1) i] by auto
  then show "Tariffs_at (Suc j) (snd (Tariffs_Del st adm (GetName (tfs_tariffs s ! i)) s)) =
      tfs_tariffs s ! Suc j"
    using assms by (simp add: Tariffs_at_def nth_append)
  have "map GetName (tfs_tariffs s) ! Suc j \<noteq> map GetName (tfs_tariffs s) ! j"
    using nth_eq_iff_index_eq [OF assms(1), of "Suc j" j] assms(3) by simp
  then show "GetName (tfs_tariffs s ! Suc j) \<noteq> GetName (tfs_tariffs s ! j)"
    using assms by simp
qed

theorem tariff_pointer_shifts_witness:
  "(let s = \<lparr>trace = [], tfs_tariffs = [TariffData ''a'', TariffData ''b'', TariffData ''c''],
             tfs_strError = ''''\<rparr>
    in Tariffs_at 2 s = TariffData ''b''
       \<and> Tariffs_at 2 (snd (Tariffs_Del good_store as_stg ''a'' s)) = TariffData ''c'')"
proof -
  let ?s = "\<lparr>trace = [], tfs_tariffs = [TariffData ''a'', TariffData ''b'', TariffData ''c''],
             tfs_strError = ''''\<rparr>"
  have ok: "fst (Tariffs_Del good_store as_stg ''a'' ?s) = 0"
    by (simp add: as_stg_def Admin_def Priv_def Tariffs_Del_def call_def emit_def good_store_def)
  have "Tariffs_at (Suc 1) (snd (Tariffs_Del good_store as_stg ''a'' ?s)) = TariffData ''c''"
    using tariff_pointer_shifts [of ?s 0 1 good_store as_stg] ok by simp
  then show ?thesis by (simp add: Let_def Tariffs_at_def numeral_2_eq_2)
qed

end
