(* ===== verification/Stg_User.thy ===== *)
theory Stg_User
  imports Stg_Tariffs
begin

text \<open>
  A user of the server: \<open>projects/stargazer/user_impl.cpp\<close>, \<open>user_impl.h\<close>,
  \<open>user_property.cpp\<close>, \<open>include/stg/user_property.h\<close> and \<open>include/stg/user.h\<close>. This
  theory has the state, the properties with their change callbacks, authorization, connection and
  messages; \<open>Stg_Billing\<close> has traffic accounting and fees.

  An operation is a function on the record \<open>user\<close>. What it reads from the rest of the server is
  the record \<open>env\<close>: the settings, the clock, the tariffs, the services, the index of addresses,
  the storage plugin and the authorizers. The clocks do not advance during one operation.

  Operations that may not return normally have their result in the option type. \<open>None\<close> is a call
  that does not return: it blocks for ever on a mutex its own thread holds, or it leaves the
  language's defined behaviour (an iterator past the end of a vector is dereferenced). The C++
  standard leaves locking a \<open>std::mutex\<close> twice undefined; \<open>e_relock_blocks\<close> says whether the
  platform's mutex blocks (POSIX default mutexes do). The mutexes inside properties are never
  re-entered and are left out.
\<close>

subsection \<open>Settings and environment\<close>

record settings =
  s_scriptsDir :: string
  s_scriptParams :: "string list"
  s_detailStatWritePeriod :: nat
  s_statWritePeriod :: u32
  s_fullFee :: bool
  s_dayFee :: u32
  s_dayResetTraff :: u32
  s_spreadFee :: bool
  s_freeMbAllowInet :: bool
  s_dayFeeIsLastDay :: bool
  s_stopOnError :: bool
  s_writeFreeMbTraffCost :: bool
  s_showFeeInCash :: bool
  s_messageTimeout :: u32
  s_feeChargeType :: u32
  s_reconnectOnTariffChange :: bool
  s_disableSessionLog :: bool
  s_filterParamsLog :: "string list"

definition GetStatWritePeriod :: "settings \<Rightarrow> int" where
  "GetStatWritePeriod s = uint (s_statWritePeriod s * 60)"

definition GetMessageTimeout :: "settings \<Rightarrow> int" where
  "GetMessageTimeout s = uint (s_messageTimeout s * 3600 * 24)"

record env =
  e_set :: settings
  e_stgTime :: time_t
  e_time :: time_t
  e_random :: int
  e_localtime :: "time_t \<Rightarrow> tm"
  e_inet_addr :: "string \<Rightarrow> u32"
  e_store :: store
  e_FindTariff :: "string \<Rightarrow> nat option"
  e_tariff :: "nat \<Rightarrow> tariff_data"
  e_FindService :: "string \<Rightarrow> bool \<times> service_conf option"
  e_executable :: "string \<Rightarrow> bool"
  e_sysAdmin :: admin
  e_relock_blocks :: bool
  e_users_locked :: bool
  e_ipIndex :: "u32 \<rightharpoonup> int"
  e_auth_send :: "event list \<Rightarrow> nat \<Rightarrow> message \<Rightarrow> u32 \<Rightarrow> int"
  e_stored_message :: "event list \<Rightarrow> message \<Rightarrow> message"
  e_RestoreUserConf :: "string \<Rightarrow> int \<times> user_conf"
  e_RestoreUserStat :: "string \<Rightarrow> int \<times> user_stat"
  e_GetMessageHdrs :: "string \<Rightarrow> int \<times> msg_header list"
  e_GetMessage :: "u64 \<Rightarrow> string \<Rightarrow> int \<times> message"

text \<open>\<open>authorizedBy\<close> is a set of pointers: a strictly ascending list of addresses. \<open>u_mtime\<close>
  has the modification time of each property.\<close>

record user = world +
  u_locked :: bool
  u_login :: string
  u_id :: int
  u_stat :: user_stat
  u_conf :: user_conf
  u_mtime :: "string \<Rightarrow> time_t"
  u_connected :: bool
  u_currIP :: u32
  u_enabledDirs :: "bool list"
  u_lastIPForDisconnect :: u32
  u_lastDisconnectReason :: string
  u_pingTime :: time_t
  u_lastScanMessages :: time_t
  u_tariff :: "nat option"
  u_traffStat :: traff_stat
  u_traffStatSaved :: "time_t \<times> traff_stat"
  u_authorizedBy :: "nat list"
  u_authorizedModificationTime :: time_t
  u_messages :: "message list"
  u_deleted :: bool
  u_lastWriteStat :: time_t
  u_lastWriteDetailedStat :: time_t
  u_sessionUpload :: dir_traff
  u_sessionDownload :: dir_traff
  u_sessionUploadModTime :: time_t
  u_sessionDownloadModTime :: time_t
  u_errorStr :: string

abbreviation cash :: "user \<Rightarrow> double" where "cash u \<equiv> us_cash (u_stat u)"
abbreviation freeMb :: "user \<Rightarrow> double" where "freeMb u \<equiv> us_freeMb (u_stat u)"
abbreviation credit :: "user \<Rightarrow> double" where "credit u \<equiv> uc_credit (u_conf u)"
abbreviation up_traff :: "user \<Rightarrow> dir_traff" where "up_traff u \<equiv> us_monthUp (u_stat u)"
abbreviation down_traff :: "user \<Rightarrow> dir_traff" where "down_traff u \<equiv> us_monthDown (u_stat u)"
abbreviation is_passive :: "user \<Rightarrow> bool" where "is_passive u \<equiv> uc_passive (u_conf u) \<noteq> 0"
abbreviation is_disabled :: "user \<Rightarrow> bool" where "is_disabled u \<equiv> uc_disabled (u_conf u) \<noteq> 0"

abbreviation on_conf :: "(user_conf \<Rightarrow> user_conf) \<Rightarrow> user \<Rightarrow> user" where
  "on_conf f u \<equiv> u\<lparr>u_conf := f (u_conf u)\<rparr>"

abbreviation on_stat :: "(user_stat \<Rightarrow> user_stat) \<Rightarrow> user \<Rightarrow> user" where
  "on_stat f u \<equiv> u\<lparr>u_stat := f (u_stat u)\<rparr>"

text \<open>The tariff the user's pointer denotes now.\<close>

definition tariff_of :: "env \<Rightarrow> user \<Rightarrow> tariff_data option" where
  "tariff_of E u = map_option (e_tariff E) (u_tariff u)"

subsection \<open>The mutex of a user\<close>

definition with_lock :: "env \<Rightarrow> (user \<Rightarrow> ('a \<times> user) option) \<Rightarrow> user \<Rightarrow> ('a \<times> user) option" where
  "with_lock E f u =
     (if u_locked u then (if e_relock_blocks E then None else f u)
      else map_option (\<lambda>(x, u). (x, u\<lparr>u_locked := False\<rparr>)) (f (u\<lparr>u_locked := True\<rparr>)))"

subsection \<open>Properties\<close>

text \<open>
  A \<open>UserProperty\<close> refers to a field of the user's configuration or statistics and carries the
  callbacks registered before and after a change. \<open>pr_text\<close> is the text inserted in a stream with
  fixed notation.
\<close>

record 'a property =
  pr_name :: string
  pr_isPassword :: bool
  pr_isStat :: bool
  pr_get :: "user \<Rightarrow> 'a"
  pr_put :: "'a \<Rightarrow> user \<Rightarrow> user"
  pr_text :: "'a \<Rightarrow> string"
  pr_before :: "'a \<Rightarrow> 'a \<Rightarrow> user \<Rightarrow> user option"
  pr_after :: "'a \<Rightarrow> 'a \<Rightarrow> user \<Rightarrow> user option"

definition ModifyTime :: "env \<Rightarrow> string \<Rightarrow> user \<Rightarrow> user" where
  "ModifyTime E n u = u\<lparr>u_mtime := (u_mtime u)(n := e_time E)\<rparr>"

definition UserProperty_Set :: "env \<Rightarrow> 'a property \<Rightarrow> 'a \<Rightarrow> user \<Rightarrow> user option" where
  "UserProperty_Set E p rhs u =
     do {
       let oldVal = pr_get p u;
       u \<leftarrow> pr_before p oldVal rhs u;
       let u = ModifyTime E (pr_name p) (pr_put p rhs u);
       pr_after p oldVal rhs u
     }"

definition WriteAccessDenied :: "admin \<Rightarrow> string \<Rightarrow> user \<Rightarrow> user" where
  "WriteAccessDenied adm parameter u =
     emit (Log (Admin_logStr adm @ '' Change user '' @ squote (u_login u @ ''.'') @ '' Parameter ''
                @ squote parameter @ ''. Access denied.'')) u"

definition WriteSuccessChange ::
    "env \<Rightarrow> admin \<Rightarrow> string \<Rightarrow> string \<Rightarrow> string \<Rightarrow> string \<Rightarrow> user \<Rightarrow> user" where
  "WriteSuccessChange E adm parameter oldValue newValue msg u =
     (let u = emit (Log (Admin_logStr adm @ '' User '' @ squote (u_login u) @ '': ''
                @ squote parameter @ '' parameter changed from '' @ squote oldValue @ '' to ''
                @ squote newValue @ ''. '' @ msg)) u
      in if list_ex (\<lambda>f. f = ''*'' \<or> strcaseeq f parameter) (s_filterParamsLog (e_set E))
         then snd (call (e_store E) (S_WriteUserChgLog (u_login u) (Admin_login adm) (ad_ip adm)
                     parameter oldValue newValue msg) u)
         else u)"

definition OnChange :: "env \<Rightarrow> string \<Rightarrow> string \<Rightarrow> string \<Rightarrow> admin \<Rightarrow> user \<Rightarrow> user" where
  "OnChange E paramName oldValue newValue adm u =
     (let filePath = s_scriptsDir (e_set E) @ ''/OnChange''
      in if e_executable E filePath
         then emit (Script (dquote filePath @ '' '' @ dquote (u_login u) @ '' '' @ dquote paramName
                @ '' '' @ dquote oldValue @ '' '' @ dquote newValue @ '' '' @ dquote (Admin_login adm)
                @ '' '' @ dquote (inet_ntostring (ad_ip adm)))) u
         else emit (Log (''Script OnChange cannot be executed. File '' @ filePath @ '' not found.'')) u)"

text \<open>Who may change a property.\<close>

definition may_change :: "admin \<Rightarrow> 'a property \<Rightarrow> bool" where
  "may_change adm p \<longleftrightarrow>
     (p_userConf (Admin_priv adm) \<noteq> 0 \<and> \<not> pr_isStat p)
     \<or> (p_userStat (Admin_priv adm) \<noteq> 0 \<and> pr_isStat p)
     \<or> (p_userPasswd (Admin_priv adm) \<noteq> 0 \<and> pr_isPassword p)
     \<or> (p_userCash (Admin_priv adm) \<noteq> 0 \<and> pr_name p = ''cash'')"

definition UserPropertyLogged_Set ::
    "env \<Rightarrow> 'a property \<Rightarrow> 'a \<Rightarrow> admin \<Rightarrow> string \<Rightarrow> user \<Rightarrow> (bool \<times> user) option" where
  "UserPropertyLogged_Set E p val adm msg u =
     (if may_change adm p
      then let oldVal = pr_text p (pr_get p u);
               newVal = pr_text p val;
               u = OnChange E (pr_name p) oldVal newVal adm u;
               u = (if pr_isPassword p
                    then WriteSuccessChange E adm (pr_name p) ''******'' ''******'' msg u
                    else WriteSuccessChange E adm (pr_name p) oldVal newVal msg u)
           in map_option (Pair True) (UserProperty_Set E p val u)
      else Some (False, WriteAccessDenied adm (pr_name p) u))"

text \<open>Properties without callbacks.\<close>

definition plain_property ::
    "string \<Rightarrow> bool \<Rightarrow> bool \<Rightarrow> (user \<Rightarrow> 'a) \<Rightarrow> ('a \<Rightarrow> user \<Rightarrow> user) \<Rightarrow> ('a \<Rightarrow> string) \<Rightarrow> 'a property" where
  "plain_property n pw st g p t =
     \<lparr>pr_name = n, pr_isPassword = pw, pr_isStat = st, pr_get = g, pr_put = p, pr_text = t,
      pr_before = (\<lambda>_ _. Some), pr_after = (\<lambda>_ _. Some)\<rparr>"

definition prop_up :: "dir_traff property" where
  "prop_up = plain_property ''upload'' False True up_traff
     (\<lambda>v. on_stat (us_monthUp_update (\<lambda>_. v))) DirTraff_show"

definition prop_down :: "dir_traff property" where
  "prop_down = plain_property ''download'' False True down_traff
     (\<lambda>v. on_stat (us_monthDown_update (\<lambda>_. v))) DirTraff_show"

definition prop_lastCashAdd :: "double property" where
  "prop_lastCashAdd = plain_property ''lastCashAdd'' False True (us_lastCashAdd \<circ> u_stat)
     (\<lambda>v. on_stat (us_lastCashAdd_update (\<lambda>_. v))) show_fixed6"

definition prop_passiveTime :: "time_t property" where
  "prop_passiveTime = plain_property ''passiveTime'' False True (us_passiveTime \<circ> u_stat)
     (\<lambda>v. on_stat (us_passiveTime_update (\<lambda>_. v))) show_int"

definition prop_lastCashAddTime :: "time_t property" where
  "prop_lastCashAddTime = plain_property ''lastCashAddTime'' False True (us_lastCashAddTime \<circ> u_stat)
     (\<lambda>v. on_stat (us_lastCashAddTime_update (\<lambda>_. v))) show_int"

definition prop_freeMb :: "double property" where
  "prop_freeMb = plain_property ''freeMb'' False True freeMb
     (\<lambda>v. on_stat (us_freeMb_update (\<lambda>_. v))) show_fixed6"

definition prop_password :: "string property" where
  "prop_password = plain_property ''password'' True False (uc_password \<circ> u_conf)
     (\<lambda>v. on_conf (uc_password_update (\<lambda>_. v))) id"

definition prop_nextTariff :: "string property" where
  "prop_nextTariff = plain_property ''nextTariff'' False False (uc_nextTariff \<circ> u_conf)
     (\<lambda>v. on_conf (uc_nextTariff_update (\<lambda>_. v))) id"

definition prop_credit :: "double property" where
  "prop_credit = plain_property ''credit'' False False credit
     (\<lambda>v. on_conf (uc_credit_update (\<lambda>_. v))) show_fixed6"

definition prop_creditExpire :: "time_t property" where
  "prop_creditExpire = plain_property ''creditExpire'' False False (uc_creditExpire \<circ> u_conf)
     (\<lambda>v. on_conf (uc_creditExpire_update (\<lambda>_. v))) show_int"

text \<open>Assignment to a property without callbacks.\<close>

definition assign :: "env \<Rightarrow> 'a property \<Rightarrow> 'a \<Rightarrow> user \<Rightarrow> user" where
  "assign E p v u = ModifyTime E (pr_name p) (pr_put p v u)"

lemma UserProperty_Set_plain [simp]:
  "UserProperty_Set E (plain_property n pw st g p t) v u =
     Some (assign E (plain_property n pw st g p t) v u)"
  by (simp add: UserProperty_Set_def plain_property_def assign_def)

text \<open>The balance remembers when and by how much it was last changed.\<close>

definition onCashChange :: "env \<Rightarrow> double \<Rightarrow> double \<Rightarrow> user \<Rightarrow> user" where
  "onCashChange E oldVal newVal u =
     assign E prop_lastCashAdd (dsub newVal oldVal) (assign E prop_lastCashAddTime (e_stgTime E) u)"

definition prop_cash :: "env \<Rightarrow> double property" where
  "prop_cash E = \<lparr>pr_name = ''cash'', pr_isPassword = False, pr_isStat = True,
     pr_get = cash, pr_put = (\<lambda>v. on_stat (us_cash_update (\<lambda>_. v))), pr_text = show_fixed6,
     pr_before = (\<lambda>old new u. Some (onCashChange E old new u)), pr_after = (\<lambda>_ _. Some)\<rparr>"

text \<open>Going passive costs the tariff's freeze price.\<close>

definition onPassiveChange :: "env \<Rightarrow> int \<Rightarrow> int \<Rightarrow> user \<Rightarrow> user option" where
  "onPassiveChange E oldVal newVal u = map_option snd (with_lock E (\<lambda>u.
     case tariff_of E u of
       Some t \<Rightarrow>
         if newVal \<noteq> 0 \<and> oldVal = 0
         then UserPropertyLogged_Set E (prop_cash E) (dsub (cash u) (GetPassiveCost t)) (e_sysAdmin E)
                ''Freeze'' u
         else Some (False, u)
     | None \<Rightarrow> Some (False, u)) u)"

definition prop_passive :: "env \<Rightarrow> int property" where
  "prop_passive E = \<lparr>pr_name = ''passive'', pr_isPassword = False, pr_isStat = False,
     pr_get = uc_passive \<circ> u_conf, pr_put = (\<lambda>v. on_conf (uc_passive_update (\<lambda>_. v))),
     pr_text = show_int, pr_before = onPassiveChange E, pr_after = (\<lambda>_ _. Some)\<rparr>"

text \<open>The registry behind \<open>GetPropertyValue\<close>: names in lower case, values as an output stream
  prints them by default.\<close>

definition property_values :: "user \<Rightarrow> (string \<times> string) list" where
  "property_values u =
     (let s = u_stat u; c = u_conf u in
      [(''cash'', show_g6 (us_cash s)), (''upload'', DirTraff_show (us_monthUp s)),
       (''download'', DirTraff_show (us_monthDown s)), (''lastcashadd'', show_g6 (us_lastCashAdd s)),
       (''passivetime'', show_int (us_passiveTime s)),
       (''lastcashaddtime'', show_int (us_lastCashAddTime s)), (''freemb'', show_g6 (us_freeMb s)),
       (''lastactivitytime'', show_int (us_lastActivityTime s)), (''password'', uc_password c),
       (''passive'', show_int (uc_passive c)), (''disabled'', show_int (uc_disabled c)),
       (''disableddetailstat'', show_int (uc_disabledDetailStat c)),
       (''alwaysonline'', show_int (uc_alwaysOnline c)), (''tariffname'', uc_tariffName c),
       (''nexttariff'', uc_nextTariff c), (''address'', uc_address c), (''note'', uc_note c),
       (''group'', uc_group c), (''email'', uc_email c), (''phone'', uc_phone c),
       (''realname'', uc_realName c), (''credit'', show_g6 (uc_credit c)),
       (''creditexpire'', show_int (uc_creditExpire c)), (''ips'', UserIPs_toString (uc_ips c))]
      @ map (\<lambda>i. (''userdata'' @ show_nat i, uc_userdata c ! i)) [0..<USERDATA_NUM])"

definition dirsToString :: "bool list \<Rightarrow> string" where
  "dirsToString dirs = map (\<lambda>i. if dirs ! i then CHR ''1'' else CHR ''0'') [0..<DIR_NUM]"

definition dirsFromBits :: "u32 \<Rightarrow> bool list" where
  "dirsFromBits bits = map (\<lambda>i. bit bits i) [0..<DIR_NUM]"

text \<open>The log line has a typographic apostrophe in UTF-8.\<close>

definition GetParamValue :: "string \<Rightarrow> user \<Rightarrow> string \<times> user" where
  "GetParamValue name u =
     (let lowerName = ToLower name in
      if lowerName = ''id'' then (show_int (u_id u), u)
      else if lowerName = ''login'' then (u_login u, u)
      else if lowerName = ''currip'' then (show_int (uint (u_currIP u)), u)
      else if lowerName = ''enableddirs'' then (dirsToString (u_enabledDirs u), u)
      else if lowerName = ''tariff'' then (uc_tariffName (u_conf u), u)
      else case map_of (property_values u) lowerName of
             Some v \<Rightarrow> (v, u)
           | None \<Rightarrow> ('''', emit (Log (''User'' @ [CHR 0xE2, CHR 0x80, CHR 0x99] @ ''s parameter ''
                                    @ squote name @ '' does not exist.'')) u))"

subsection \<open>Connection\<close>

text \<open>\<open>m_connected\<close> and \<open>m_currIP\<close> are properties other components subscribe to (the traffic
  counter to the address, the authorizers to both): a change is an event.\<close>

definition set_connected :: "env \<Rightarrow> bool \<Rightarrow> user \<Rightarrow> user" where
  "set_connected E v u =
     ModifyTime E ''connected'' (emit (ConnectedChange (u_connected u) v) u\<lparr>u_connected := v\<rparr>)"

definition set_currIP :: "env \<Rightarrow> u32 \<Rightarrow> user \<Rightarrow> user" where
  "set_currIP E v u =
     ModifyTime E ''currIP'' (emit (CurrIPChange (u_currIP u) v) u\<lparr>u_currIP := v\<rparr>)"

text \<open>The command line of the scripts run on connecting and disconnecting.\<close>

fun script_params :: "string list \<Rightarrow> string \<Rightarrow> user \<Rightarrow> string \<times> user" where
  "script_params [] acc u = (acc, u)"
| "script_params (p # ps) acc u =
     (let (v, u) = GetParamValue p u in script_params ps (acc @ '' '' @ dquote v) u)"

definition run_script :: "env \<Rightarrow> string \<Rightarrow> u32 \<Rightarrow> user \<Rightarrow> user" where
  "run_script E script ip u =
     (let cmd = strprintf (script @ '' '' @ dquote (u_login u) @ '' '' @ dquote (inet_ntostring ip)
                  @ '' '' @ dquote (show_fixed6 (cash u)) @ '' '' @ dquote (show_int (u_id u))
                  @ '' '' @ dquote (dirsToString (u_enabledDirs u)));
          (cmd, u) = script_params (s_scriptParams (e_set E)) cmd u
      in emit (Script cmd) u)"

definition script_or_log :: "env \<Rightarrow> string \<Rightarrow> string \<Rightarrow> u32 \<Rightarrow> user \<Rightarrow> user" where
  "script_or_log E script msg ip u =
     (if e_executable E script then run_script E script ip u else emit (Log msg) u)"

text \<open>Writing a part of the user to the store and reporting a failure.\<close>

definition save_part :: "env \<Rightarrow> string \<Rightarrow> store_call \<Rightarrow> user \<Rightarrow> int \<times> user" where
  "save_part E what c u =
     (let (rc, u) = call (e_store E) c u
      in if rc \<noteq> 0
         then (- 1, emit (Log (strError_of (e_store E) u))
                      (emit (Log (''Cannot write '' @ what @ '' for user '' @ u_login u @ ''.'')) u))
         else (0, u))"

definition Connect :: "env \<Rightarrow> bool \<Rightarrow> user \<Rightarrow> user" where
  "Connect E fakeConnect u =
     (let script = s_scriptsDir (e_set E) @ ''/OnConnect'';
          u = (if \<not> fakeConnect
               then set_connected E True (script_or_log E script
                      (''Script '' @ script @ '' cannot be executed. File not found.'') (u_currIP u) u)
               else u);
          u = (if \<not> s_disableSessionLog (e_set E)
               then snd (save_part E ''connect'' (S_WriteUserConnect (u_login u) (u_currIP u)) u)
               else u)
      in if \<not> fakeConnect then u\<lparr>u_lastIPForDisconnect := u_currIP u\<rparr> else u)"

definition log_disconnect :: "env \<Rightarrow> string \<Rightarrow> user \<Rightarrow> user" where
  "log_disconnect E reason u =
     (let reasonMessage = (if u_lastDisconnectReason u \<noteq> ''''
                           then reason @ '': '' @ u_lastDisconnectReason u else reason)
      in if \<not> s_disableSessionLog (e_set E)
         then snd (save_part E ''disconnect'' (S_WriteUserDisconnect (u_login u) (up_traff u)
                     (down_traff u) (u_sessionUpload u) (u_sessionDownload u) (cash u)
                     (freeMb u) reasonMessage) u)
         else u)"

definition reset_session :: "env \<Rightarrow> user \<Rightarrow> user" where
  "reset_session E u =
     u\<lparr>u_sessionUpload := DirTraff_reset (u_sessionUpload u),
       u_sessionDownload := DirTraff_reset (u_sessionDownload u),
       u_sessionUploadModTime := e_stgTime E,
       u_sessionDownloadModTime := e_stgTime E\<rparr>"

definition Disconnect :: "env \<Rightarrow> bool \<Rightarrow> string \<Rightarrow> user \<Rightarrow> user" where
  "Disconnect E fakeDisconnect reason u =
     (if u_lastIPForDisconnect u = 0 then u
      else let u = (if \<not> fakeDisconnect
                    then set_connected E False
                           (script_or_log E (s_scriptsDir (e_set E) @ ''/OnDisconnect'')
                              ''Script OnDisconnect cannot be executed. File not found.''
                              (u_lastIPForDisconnect u) (u\<lparr>u_lastDisconnectReason := reason\<rparr>))
                    else u);
               u = log_disconnect E reason u;
               u = (if \<not> fakeDisconnect then u\<lparr>u_lastIPForDisconnect := 0\<rparr> else u)
           in reset_session E u)"

definition IsInetable :: "env \<Rightarrow> user \<Rightarrow> bool" where
  "IsInetable E u =
     (if is_disabled u \<or> is_passive u then False
      else if s_freeMbAllowInet (e_set E) \<and> freeMb u \<ge> 0 then True
      else case tariff_of E u of
             None \<Rightarrow> cash u \<ge> - credit u
           | Some t \<Rightarrow> if s_showFeeInCash (e_set E) then cash u \<ge> - credit u
                       else dsub (cash u) (GetFee t) \<ge> - credit u)"

subsection \<open>The callbacks that connect and disconnect\<close>

definition onDisabledChange :: "env \<Rightarrow> int \<Rightarrow> int \<Rightarrow> user \<Rightarrow> user option" where
  "onDisabledChange E oldVal newVal u = map_option snd (with_lock E (\<lambda>u.
     Some ((), if oldVal \<noteq> 0 \<and> newVal = 0 \<and> u_connected u then Disconnect E False ''disabled'' u
               else if oldVal = 0 \<and> newVal \<noteq> 0 \<and> IsInetable E u then Connect E False u
               else u)) u)"

definition prop_disabled :: "env \<Rightarrow> int property" where
  "prop_disabled E = \<lparr>pr_name = ''disabled'', pr_isPassword = False, pr_isStat = False,
     pr_get = uc_disabled \<circ> u_conf, pr_put = (\<lambda>v. on_conf (uc_disabled_update (\<lambda>_. v))),
     pr_text = show_int, pr_before = (\<lambda>_ _. Some), pr_after = onDisabledChange E\<rparr>"

definition onTariffChange :: "env \<Rightarrow> string \<Rightarrow> string \<Rightarrow> user \<Rightarrow> user option" where
  "onTariffChange E oldVal newVal u = map_option snd (with_lock E (\<lambda>u.
     let r = s_reconnectOnTariffChange (e_set E);
         u = (if r \<and> u_connected u then Disconnect E False ''Change tariff'' u else u);
         u = u\<lparr>u_tariff := e_FindTariff E newVal\<rparr>
     in Some ((), if r \<and> u_authorizedBy u \<noteq> [] \<and> IsInetable E u
                  then Connect E False (on_conf (uc_tariffName_update (\<lambda>_. newVal)) u)
                  else u)) u)"

definition prop_tariffName :: "env \<Rightarrow> string property" where
  "prop_tariffName E = \<lparr>pr_name = ''tariffName'', pr_isPassword = False, pr_isStat = False,
     pr_get = uc_tariffName \<circ> u_conf, pr_put = (\<lambda>v. on_conf (uc_tariffName_update (\<lambda>_. v))),
     pr_text = id, pr_before = onTariffChange E, pr_after = (\<lambda>_ _. Some)\<rparr>"

definition onIPChange :: "env \<Rightarrow> user_ips \<Rightarrow> user_ips \<Rightarrow> user \<Rightarrow> user option" where
  "onIPChange E oldVal newVal u = map_option snd (with_lock E (\<lambda>u.
     let u = (if u_connected u then Disconnect E False ''Change IP'' u else u)
     in Some ((), if u_authorizedBy u \<noteq> [] \<and> IsInetable E u then Connect E False u else u)) u)"

definition prop_ips :: "env \<Rightarrow> user_ips property" where
  "prop_ips E = \<lparr>pr_name = ''ips'', pr_isPassword = False, pr_isStat = False,
     pr_get = uc_ips \<circ> u_conf, pr_put = (\<lambda>v. on_conf (uc_ips_update (\<lambda>_. v))),
     pr_text = UserIPs_toString, pr_before = (\<lambda>_ _. Some), pr_after = onIPChange E\<rparr>"

subsection \<open>Creation, reading and writing\<close>

text \<open>The constructor with \<open>Init\<close>. \<open>dirs\<close> is the uninitialised array \<open>enabledDirs\<close>. A write
  period of zero divides by zero.\<close>

definition UserImpl :: "env \<Rightarrow> bool list \<Rightarrow> event list \<Rightarrow> user option" where
  "UserImpl E dirs tr =
     (let t = e_stgTime E; now = e_time E;
          conf = UserConf\<lparr>uc_password := ''*_EMPTY_PASSWORD_*'', uc_tariffName := NO_TARIFF_NAME,
                         uc_ips := UserIPs_parse (e_inet_addr E) ''*''\<rparr>
      in if GetStatWritePeriod (e_set E) = 0 then None
         else Some \<lparr>trace = tr, u_locked = False, u_login = '''', u_id = 0, u_stat = UserStat,
           u_conf = conf, u_mtime = (\<lambda>_. now), u_connected = False, u_currIP = 0,
           u_enabledDirs = dirs, u_lastIPForDisconnect = 0, u_lastDisconnectReason = '''',
           u_pingTime = 0, u_lastScanMessages = 0, u_tariff = e_FindTariff E NO_TARIFF_NAME,
           u_traffStat = [], u_traffStatSaved = (0, []), u_authorizedBy = [],
           u_authorizedModificationTime = 0, u_messages = [], u_deleted = False,
           u_lastWriteStat = t + e_random E mod GetStatWritePeriod (e_set E),
           u_lastWriteDetailedStat = t, u_sessionUpload = DirTraff, u_sessionDownload = DirTraff,
           u_sessionUploadModTime = t, u_sessionDownloadModTime = t, u_errorStr = ''''\<rparr>)"

text \<open>The copy constructor: a list node made from a user.\<close>

definition UserImpl_copy :: "env \<Rightarrow> bool list \<Rightarrow> user \<Rightarrow> user" where
  "UserImpl_copy E dirs u =
     u\<lparr>u_locked := False, u_mtime := (\<lambda>_. e_time E), u_connected := False, u_currIP := 0,
       u_enabledDirs := dirs, u_lastIPForDisconnect := 0, u_lastDisconnectReason := '''',
       u_lastScanMessages := 0, u_authorizedBy := [],
       u_sessionUpload := DirTraff, u_sessionDownload := DirTraff,
       u_sessionUploadModTime := e_stgTime E, u_sessionDownloadModTime := e_stgTime E,
       u_errorStr := ''''\<rparr>"

text \<open>\<open>SetLogin\<close> draws the identifier from a static counter, passed as an argument. The counter is
  an \<open>int\<close>: counting past its maximum is undefined.\<close>

definition SetLogin :: "env \<Rightarrow> int \<Rightarrow> string \<Rightarrow> user \<Rightarrow> (int \<times> user) option" where
  "SetLogin E idGen l u = with_lock E (\<lambda>u.
     if u_login u \<noteq> '''' \<or> idGen \<ge> 2 ^ 31 - 1 then None
     else Some (idGen + 1, u\<lparr>u_login := l, u_id := idGen\<rparr>)) u"

definition read_messages :: "env \<Rightarrow> msg_header list \<Rightarrow> user \<Rightarrow> user" where
  "read_messages E hdrs u = fold (\<lambda>h u. case e_GetMessage E (mh_id h) (u_login u) of
     (rc, m) \<Rightarrow> if rc = 0 then u\<lparr>u_messages := u_messages u @ [m]\<rparr> else u) hdrs u"

definition ReadConf :: "env \<Rightarrow> user \<Rightarrow> (int \<times> user) option" where
  "ReadConf E = with_lock E (\<lambda>u. Some (
     case e_RestoreUserConf E (u_login u) of (rc, conf) \<Rightarrow>
       if rc \<noteq> 0
       then (- 1, emit (Log (strError_of (e_store E) u))
                    (emit (Log (''Cannot read conf for user '' @ u_login u @ ''.'')) u))
       else let u = u\<lparr>u_conf := conf\<rparr>;
                u = u\<lparr>u_tariff := e_FindTariff E (uc_tariffName (u_conf u))\<rparr>
            in if u_tariff u = None
               then (- 1, emit (Log (''Cannot read user '' @ u_login u @ ''. Tariff ''
                                     @ uc_tariffName (u_conf u) @ '' not exist.'')) u)
               else case e_GetMessageHdrs E (u_login u) of (rc, hdrs) \<Rightarrow>
                 if rc \<noteq> 0
                 then (- 1, emit (Log (''Cannot read user '' @ u_login u
                              @ ''. Error reading message headers: '' @ strError_of (e_store E) u
                              @ ''.'')) u)
                 else (0, read_messages E hdrs u)))"

definition ReadStat :: "env \<Rightarrow> user \<Rightarrow> (int \<times> user) option" where
  "ReadStat E = with_lock E (\<lambda>u. Some (
     case e_RestoreUserStat E (u_login u) of (rc, stat) \<Rightarrow>
       if rc \<noteq> 0
       then (- 1, emit (Log (strError_of (e_store E) u))
                    (emit (Log (''Cannot read stat for user '' @ u_login u @ ''.'')) u))
       else (0, u\<lparr>u_stat := stat\<rparr>)))"

definition WriteConf :: "env \<Rightarrow> user \<Rightarrow> (int \<times> user) option" where
  "WriteConf E = with_lock E (\<lambda>u. Some (save_part E ''conf'' (S_SaveUserConf (u_conf u) (u_login u)) u))"

definition WriteStat :: "env \<Rightarrow> user \<Rightarrow> (int \<times> user) option" where
  "WriteStat E = with_lock E (\<lambda>u. Some (
     let (rc, u) = save_part E ''stat'' (S_SaveUserStat (u_stat u) (u_login u)) u
     in if rc \<noteq> 0 then (rc, u) else (0, u\<lparr>u_lastWriteStat := e_stgTime E\<rparr>)))"

definition WriteMonthStat :: "env \<Rightarrow> user \<Rightarrow> (int \<times> user) option" where
  "WriteMonthStat E = with_lock E (\<lambda>u. Some (
     let t1 = e_localtime E (e_stgTime E - 3600)
     in save_part E ''month stat'' (S_SaveMonthStat (u_stat u) (tm_mon t1) (tm_year t1) (u_login u)) u))"

subsection \<open>Messages\<close>

text \<open>Every authorizer is offered the message, in the order of the pointers; one success suffices.\<close>

fun send_to :: "env \<Rightarrow> message \<Rightarrow> nat list \<Rightarrow> int \<Rightarrow> user \<Rightarrow> int \<times> user" where
  "send_to E msg [] ret u = (ret, u)"
| "send_to E msg (a # as) ret u =
     (let rc = e_auth_send E (trace u) a msg (u_currIP u);
          u = emit (AuthSend a msg (u_currIP u)) u
      in send_to E msg as (if rc = 0 then 0 else ret) u)"

definition SendMessage :: "env \<Rightarrow> message \<Rightarrow> user \<Rightarrow> int \<times> message \<times> user" where
  "SendMessage E msg u =
     (case send_to E msg (u_authorizedBy u) (- 1) u of (ret, u) \<Rightarrow>
        if ret = 0
        then (ret, msg\<lparr>msg_header := (msg_header msg)\<lparr>
                     mh_lastSendTime := word_of_int (i32 (e_time E)),
                     mh_repeat := i32 (mh_repeat (msg_header msg) - 1)\<rparr>\<rparr>, u)
        else (ret, msg, u))"

definition store_message :: "env \<Rightarrow> string \<Rightarrow> message \<Rightarrow> user \<Rightarrow> int \<times> user" where
  "store_message E what msg u =
     (let stored = e_stored_message E (trace u) msg;
          (rc, u) = call (e_store E) (S_AddMessage msg (u_login u)) u
      in if rc \<noteq> 0
         then let e = strError_of (e_store E) u
              in (- 1, emit (Log (what @ squote e)) (u\<lparr>u_errorStr := e\<rparr>))
         else (0, u\<lparr>u_messages := u_messages u @ [stored]\<rparr>))"

definition AddMessage :: "env \<Rightarrow> message \<Rightarrow> user \<Rightarrow> (int \<times> user) option" where
  "AddMessage E msg0 = with_lock E (\<lambda>u. Some (
     let (rc, msg, u) = SendMessage E msg0 u
     in if rc \<noteq> 0 then store_message E ''Error adding message: '' msg u
        else if mh_repeat (msg_header msg) > 0
        then store_message E ''Error adding repeatable message: ''
               (msg\<lparr>msg_header := (msg_header msg)\<lparr>mh_repeat := mh_repeat (msg_header msg) - 1,
                      mh_lastSendTime := word_of_int (i32 (e_time E))\<rparr>\<rparr>) u
        else (0, u)))"

definition del_message :: "env \<Rightarrow> nat \<Rightarrow> user \<Rightarrow> user" where
  "del_message E i u =
     (let (rc, u) = call (e_store E) (S_DelMessage (mh_id (msg_header (u_messages u ! i))) (u_login u)) u;
          u = (if rc \<noteq> 0
               then emit (Log (''Error deleting message: '' @ squote (strError_of (e_store E) u))) u
               else u)
      in u\<lparr>u_messages := take i (u_messages u) @ drop (Suc i) (u_messages u)\<rparr>)"

lemma send_to_messages [simp]: "u_messages (snd (send_to E m as r u)) = u_messages u"
  by (induction E m as r u rule: send_to.induct) (simp_all add: Let_def emit_def)

lemma SendMessage_messages: "SendMessage E m u = (rc, m', u') \<Longrightarrow> u_messages u' = u_messages u"
  using send_to_messages [of E m "u_authorizedBy u" "- 1" u]
  by (cases "send_to E m (u_authorizedBy u) (- 1) u") (auto simp: SendMessage_def split: if_splits)

lemma length_del_message [simp]:
  "i < length (u_messages u) \<Longrightarrow> length (u_messages (del_message E i u)) = length (u_messages u) - 1"
  by (simp add: del_message_def call_def emit_def)

text \<open>
  The loop of \<open>ScanMessage\<close>. The iterator is an index into the vector. \<open>messages.erase(it++)\<close>
  moves the iterator on and then the remaining elements back, so that the next message is passed
  over; when the last message is erased the iterator is behind the end and the loop, which ends only
  when it is equal to the end, leaves the vector.
\<close>

function (sequential) ScanMessage_loop :: "env \<Rightarrow> nat \<Rightarrow> user \<Rightarrow> user option" where
  "ScanMessage_loop E i u =
     (if i = length (u_messages u) then Some u
      else if length (u_messages u) < i then None
      else let m = u_messages u ! i; timeout = GetMessageTimeout (e_set E)
           in if timeout > 0 \<and> e_stgTime E - uint (mh_creationTime (msg_header m)) > timeout
              then ScanMessage_loop E (Suc i) (del_message E i u)
              else if GetNextSendTime m \<le> e_stgTime E
              then let (rc, m', u') = SendMessage E m u in
                   if rc \<noteq> 0 then ScanMessage_loop E (Suc i) u'
                   else let u' = u'\<lparr>u_messages := (u_messages u)[i := m']\<rparr> in
                        if mh_repeat (msg_header m') < 0
                        then ScanMessage_loop E (Suc i) (del_message E i u')
                        else let (rc, u') = call (e_store E) (S_EditMessage m' (u_login u')) u';
                                 u' = (if rc \<noteq> 0
                                       then emit (Log (''Error modifying message: ''
                                              @ squote (strError_of (e_store E) u'))) u'
                                       else u')
                             in ScanMessage_loop E (Suc i) u'
              else ScanMessage_loop E (Suc i) u)"
  by pat_completeness auto

termination
  by (relation "measure (\<lambda>(E, i, u). length (u_messages u) - i)")
    (auto simp: call_def emit_def dest: SendMessage_messages [OF sym])

declare ScanMessage_loop.simps [simp del]

definition ScanMessage :: "env \<Rightarrow> user \<Rightarrow> user option" where
  "ScanMessage E u = ScanMessage_loop E 0 u"

subsection \<open>Authorization\<close>

text \<open>The calls \<open>users->FindByIPIdx\<close> and \<open>users->IsIPInIndex\<close> take the mutex of the list of
  users.\<close>

definition users_lock :: "env \<Rightarrow> 'a \<Rightarrow> 'a option" where
  "users_lock E x = (if e_users_locked E \<and> e_relock_blocks E then None else Some x)"

definition insert_auth :: "nat \<Rightarrow> nat list \<Rightarrow> nat list" where
  "insert_auth a as = insort_insert a as"

definition Authorize_finish :: "env \<Rightarrow> nat \<Rightarrow> user \<Rightarrow> (int \<times> user) option" where
  "Authorize_finish E auth u = do {
     let u = (if u_authorizedBy u = [] then u\<lparr>u_authorizedModificationTime := e_stgTime E\<rparr> else u);
     let u = u\<lparr>u_authorizedBy := insert_auth auth (u_authorizedBy u)\<rparr>;
     u \<leftarrow> ScanMessage E u;
     Some (0, u)
   }"

definition Authorize_body :: "env \<Rightarrow> u32 \<Rightarrow> u32 \<Rightarrow> nat \<Rightarrow> user \<Rightarrow> (int \<times> user) option" where
  "Authorize_body E ip dirs auth u =
     (let in_use = ''IP address '' @ inet_ntostring ip @ '' is already in use''
      in if auth \<in> set (u_authorizedBy u) then Some (0, u)
         else if ip = 0 then Some (- 1, u)
         else let u = u\<lparr>u_enabledDirs := dirsFromBits dirs\<rparr>
         in if u_authorizedBy u \<noteq> []
            then if u_currIP u \<noteq> ip
                 then Some (- 1, u\<lparr>u_errorStr := ''User '' @ u_login u
                        @ '' already authorized with IP address '' @ inet_ntostring ip\<rparr>)
                 else do {
                   found \<leftarrow> users_lock E (e_ipIndex E ip);
                   (if found \<noteq> None \<and> found \<noteq> Some (u_id u)
                    then Some (- 1, u\<lparr>u_errorStr := in_use\<rparr>)
                    else Authorize_finish E auth u)
                 }
            else do {
              found \<leftarrow> users_lock E (e_ipIndex E ip);
              (if found \<noteq> None then Some (- 1, u\<lparr>u_errorStr := in_use\<rparr>)
               else if UserIPs_find (uc_ips (u_conf u)) ip
               then let u = set_currIP E ip u
                    in Authorize_finish E auth (u\<lparr>u_lastIPForDisconnect := u_currIP u\<rparr>)
               else Some (- 1, u\<lparr>u_errorStr := ''IP address '' @ inet_ntostring ip
                        @ '' does not belong to user '' @ u_login u\<rparr>))
            })"

definition Authorize :: "env \<Rightarrow> u32 \<Rightarrow> u32 \<Rightarrow> nat \<Rightarrow> user \<Rightarrow> (int \<times> user) option" where
  "Authorize E ip dirs auth = with_lock E (Authorize_body E ip dirs auth)"

definition Unauthorize_body :: "env \<Rightarrow> nat \<Rightarrow> string \<Rightarrow> user \<Rightarrow> user" where
  "Unauthorize_body E auth reason u =
     (if auth \<notin> set (u_authorizedBy u) then u
      else let u = u\<lparr>u_authorizedBy := remove1 auth (u_authorizedBy u),
                     u_authorizedModificationTime := e_stgTime E\<rparr>
           in if u_authorizedBy u = []
              then let u = u\<lparr>u_lastDisconnectReason := reason, u_lastIPForDisconnect := u_currIP u\<rparr>;
                       u = set_currIP E 0 u
                   in if u_connected u then Disconnect E False ''not authorized'' u else u
              else u)"

definition Unauthorize :: "env \<Rightarrow> nat \<Rightarrow> string \<Rightarrow> user \<Rightarrow> (unit \<times> user) option" where
  "Unauthorize E auth reason = with_lock E (\<lambda>u. Some ((), Unauthorize_body E auth reason u))"

definition IsAuthorizedBy :: "env \<Rightarrow> nat \<Rightarrow> user \<Rightarrow> (bool \<times> user) option" where
  "IsAuthorizedBy E auth = with_lock E (\<lambda>u. Some (auth \<in> set (u_authorizedBy u), u))"

definition UpdatePingTime :: "env \<Rightarrow> time_t \<Rightarrow> user \<Rightarrow> (unit \<times> user) option" where
  "UpdatePingTime E t = with_lock E (\<lambda>u. Some ((), u\<lparr>u_pingTime := (if t \<noteq> 0 then t else e_stgTime E)\<rparr>))"

subsection \<open>The periodic work on a user\<close>

definition Run_sessions :: "env \<Rightarrow> user \<Rightarrow> user option" where
  "Run_sessions E u =
     (if u_authorizedBy u \<noteq> []
      then let u = (if u_connected u
                    then on_stat (us_lastActivityTime_update (\<lambda>_. e_stgTime E)) u else u);
               u = (if \<not> u_connected u \<and> IsInetable E u then Connect E False u else u);
               u = (if u_connected u \<and> \<not> IsInetable E u
                    then (if is_disabled u then Disconnect E False ''disabled'' u
                          else if is_passive u then Disconnect E False ''passive'' u
                          else Disconnect E False ''no cash'' u)
                    else u)
           in if e_stgTime E - u_lastScanMessages u > 10
              then map_option (\<lambda>u. u\<lparr>u_lastScanMessages := e_stgTime E\<rparr>) (ScanMessage E u)
              else Some u
      else Some (if u_connected u then Disconnect E False ''not authorized'' u else u))"

definition Run_passive :: "env \<Rightarrow> user \<Rightarrow> user" where
  "Run_passive E u =
     (let m = u_mtime u ''passiveTime''
      in if is_passive u \<and> e_stgTime E smod 30 = 0 \<and> m \<noteq> e_stgTime E
         then assign E prop_passiveTime (us_passiveTime (u_stat u) + (e_stgTime E - m)) u
         else u)"

definition Run_body :: "env \<Rightarrow> user \<Rightarrow> (unit \<times> user) option" where
  "Run_body E u = do {
     u \<leftarrow> (if e_stgTime E > u_lastWriteStat u + GetStatWritePeriod (e_set E)
           then map_option snd (WriteStat E u) else Some u);
     u \<leftarrow> (if uc_creditExpire (u_conf u) \<noteq> 0 \<and> uc_creditExpire (u_conf u) < e_stgTime E
           then let u = emit (Log (''User: '' @ u_login u @ ''. Credit expired.'')) u;
                    u = assign E prop_credit 0 u;
                    u = assign E prop_creditExpire 0 u
                in map_option snd (WriteConf E u)
           else Some u);
     let u = Run_passive E u;
     u \<leftarrow> Run_sessions E u;
     Some ((), u)
   }"

definition Run :: "env \<Rightarrow> user \<Rightarrow> (unit \<times> user) option" where
  "Run E = with_lock E (Run_body E)"

definition script_for_login :: "env \<Rightarrow> string \<Rightarrow> user \<Rightarrow> user" where
  "script_for_login E name u =
     (let script = s_scriptsDir (e_set E) @ name
      in if e_executable E script then emit (Script (script @ '' '' @ dquote (u_login u))) u
         else emit (Log (''Script '' @ script @ '' cannot be executed. File not found.'')) u)"

definition OnAdd :: "env \<Rightarrow> user \<Rightarrow> (unit \<times> user) option" where
  "OnAdd E = with_lock E (\<lambda>u. Some ((), script_for_login E ''/OnUserAdd'' u))"

definition OnDelete :: "env \<Rightarrow> user \<Rightarrow> (unit \<times> user) option" where
  "OnDelete E = with_lock E (\<lambda>u. Run E (script_for_login E ''/OnUserDel'' u))"

definition MidnightResetSessionStat :: "env \<Rightarrow> user \<Rightarrow> (unit \<times> user) option" where
  "MidnightResetSessionStat E = with_lock E (\<lambda>u. Some ((),
     if u_connected u then Connect E True (Disconnect E True ''fake'' u) else u))"

end
