(* ===== verification/Stg_Billing.thy ===== *)
theory Stg_Billing
  imports Stg_User
begin

text \<open>
  Traffic accounting and fees of a user (\<open>projects/stargazer/user_impl.cpp\<close>):
  \<open>AddTraffStatU\<close> and \<open>AddTraffStatD\<close> charge a packet's length by the tariff, first against
  the prepaid traffic and then against the balance; \<open>ProcessDayFee\<close>, \<open>ProcessDayFeeSpread\<close>,
  \<open>ProcessDailyFee\<close> and \<open>ProcessServices\<close> charge fees; \<open>ProcessNewMonth\<close> closes the month;
  \<open>WriteDetailStat\<close> hands the detailed statistics to the store. Amounts are binary64 values with
  their rounding, traffic counters wrap at 64 bits, thresholds are computed in \<open>int\<close>.
\<close>

subsection \<open>Traffic accounting\<close>

text \<open>\<open>GetThreshold(dir) * 1024 * 1024\<close> is evaluated in \<open>int\<close>.\<close>

definition threshold_bytes :: "tariff_data \<Rightarrow> nat \<Rightarrow> int" where
  "threshold_bytes t dir = i32 (i32 (GetThreshold t dir * 1024) * 1024)"

text \<open>The price of a chunk of \<open>len\<close> bytes that takes the counters from \<open>up\<close>, \<open>down\<close> to
  \<open>up'\<close>, \<open>down'\<close>: when the chunk crosses the threshold the part before it has the price of
  the old counters and the part after it the price of the new ones.\<close>

definition chunk_cost :: "env \<Rightarrow> tariff_data \<Rightarrow> nat \<Rightarrow> u64 \<Rightarrow> u64 \<Rightarrow> u64 \<Rightarrow> u64 \<Rightarrow> u32 \<Rightarrow> double" where
  "chunk_cost E t dir up down up' down' len =
     (let traff = GetTraffByType t up down;
          threshold = threshold_bytes t dir;
          price = GetPriceWithTraffType (e_localtime E) t
      in if traff < threshold \<and> i64 (traff + uint len) \<ge> threshold
         then let before = i64 (threshold - traff);
                  after = i64 (uint len - before)
              in dadd (dmul (price up down dir (e_stgTime E)) (d_of_int before))
                      (dmul (price up' down' dir (e_stgTime E)) (d_of_int after))
         else dmul (price up down dir (e_stgTime E)) (d_of_int (uint len)))"

text \<open>What of the price the prepaid traffic does not cover.\<close>

definition money_cost :: "double \<Rightarrow> double \<Rightarrow> double" where
  "money_cost free dc = (if free \<le> 0 then dc else if free < dc then dsub dc free else 0)"

definition charge_traff :: "env \<Rightarrow> double \<Rightarrow> user \<Rightarrow> user" where
  "charge_traff E dc u =
     ModifyTime E ''freeMb'' (ModifyTime E ''cash''
       (on_stat (\<lambda>s. s\<lparr>us_freeMb := dsub (us_freeMb s) dc,
                       us_cash := dsub (us_cash s) (money_cost (us_freeMb s) dc)\<rparr>) u))"

definition AddTraffStatU_body :: "env \<Rightarrow> nat \<Rightarrow> u32 \<Rightarrow> u32 \<Rightarrow> user \<Rightarrow> user" where
  "AddTraffStatU_body E dir ip len u = (case tariff_of E u of
     None \<Rightarrow> u
   | Some t \<Rightarrow>
       if \<not> u_connected u then u
       else let dt = (up_traff u)[dir := up_traff u ! dir + ucast len];
                tt = GetTraffType t;
                charged = (tt = TRAFF_UP \<or> tt = TRAFF_UP_DOWN
                           \<or> (tt = TRAFF_MAX \<and> dt ! dir > down_traff u ! dir));
                dc = chunk_cost E t dir (up_traff u ! dir) (down_traff u ! dir)
                       (dt ! dir) (down_traff u ! dir) len;
                cost = (if charged then money_cost (freeMb u) dc else 0);
                u = (if charged then charge_traff E dc u else u);
                u = assign E prop_up dt u;
                u = u\<lparr>u_sessionUpload := (u_sessionUpload u)[dir := u_sessionUpload u ! dir + ucast len],
                      u_sessionUploadModTime := e_stgTime E\<rparr>;
                cost = (if \<not> s_writeFreeMbTraffCost (e_set E) \<and> freeMb u \<ge> 0 then 0 else cost)
            in u\<lparr>u_traffStat := traff_stat_upd (IPDirPair ip dir)
                   \<lparr>sn_up = ucast len, sn_down = 0, sn_cash = cost\<rparr>
                   (\<lambda>n. n\<lparr>sn_cash := dadd (sn_cash n) cost, sn_up := sn_up n + ucast len\<rparr>)
                   (u_traffStat u)\<rparr>)"

definition AddTraffStatU :: "env \<Rightarrow> nat \<Rightarrow> u32 \<Rightarrow> u32 \<Rightarrow> user \<Rightarrow> (unit \<times> user) option" where
  "AddTraffStatU E dir ip len = with_lock E (\<lambda>u. Some ((), AddTraffStatU_body E dir ip len u))"

definition AddTraffStatD_body :: "env \<Rightarrow> nat \<Rightarrow> u32 \<Rightarrow> u32 \<Rightarrow> user \<Rightarrow> user" where
  "AddTraffStatD_body E dir ip len u = (case tariff_of E u of
     None \<Rightarrow> u
   | Some t \<Rightarrow>
       if \<not> u_connected u then u
       else let dt = (down_traff u)[dir := down_traff u ! dir + ucast len];
                tt = GetTraffType t;
                charged = (tt = TRAFF_DOWN \<or> tt = TRAFF_UP_DOWN
                           \<or> (tt = TRAFF_MAX \<and> up_traff u ! dir \<le> dt ! dir));
                dc = chunk_cost E t dir (up_traff u ! dir) (down_traff u ! dir)
                       (up_traff u ! dir) (dt ! dir) len;
                cost = (if charged then money_cost (freeMb u) dc else 0);
                u = (if charged then charge_traff E dc u else u);
                u = assign E prop_down dt u;
                u = u\<lparr>u_sessionDownload :=
                        (u_sessionDownload u)[dir := u_sessionDownload u ! dir + ucast len],
                      u_sessionDownloadModTime := e_stgTime E\<rparr>;
                cost = (if \<not> s_writeFreeMbTraffCost (e_set E) \<and> freeMb u \<ge> 0 then 0 else cost)
            in u\<lparr>u_traffStat := traff_stat_upd (IPDirPair ip dir)
                   \<lparr>sn_up = 0, sn_down = ucast len, sn_cash = cost\<rparr>
                   (\<lambda>n. n\<lparr>sn_cash := dadd (sn_cash n) cost, sn_down := sn_down n + ucast len\<rparr>)
                   (u_traffStat u)\<rparr>)"

definition AddTraffStatD :: "env \<Rightarrow> nat \<Rightarrow> u32 \<Rightarrow> u32 \<Rightarrow> user \<Rightarrow> (unit \<times> user) option" where
  "AddTraffStatD E dir ip len = with_lock E (\<lambda>u. Some ((), AddTraffStatD_body E dir ip len u))"

subsection \<open>Detailed statistics\<close>

text \<open>\<open>WriteDetailStat\<close>: the records saved after a failed write go first; the current records
  are taken out of the user and, when writing them fails, saved unless \<open>hard\<close>. The calls to the
  store are made without the mutex.\<close>

definition WriteDetailStat_saved :: "env \<Rightarrow> user \<Rightarrow> bool \<times> user" where
  "WriteDetailStat_saved E u =
     (if snd (u_traffStatSaved u) = [] then (True, u)
      else let (rc, u) = call (e_store E) (S_WriteDetailedStat (snd (u_traffStatSaved u))
                           (fst (u_traffStatSaved u)) (u_login u)) u
           in if rc \<noteq> 0
              then (False, emit (Log (strError_of (e_store E) u))
                     (emit (Log (''Cannot write detail stat from queue (of size ''
                        @ show_nat (length (snd (u_traffStatSaved u))) @ '' recs) for user ''
                        @ u_login u @ ''.'')) u))
              else (True, u\<lparr>u_traffStatSaved := (fst (u_traffStatSaved u), [])\<rparr>))"

definition WriteDetailStat :: "env \<Rightarrow> bool \<Rightarrow> user \<Rightarrow> (int \<times> user) option" where
  "WriteDetailStat E hard u =
     (case WriteDetailStat_saved E u of
        (False, u) \<Rightarrow> Some (- 1, u)
      | (True, u) \<Rightarrow> do {
          (ts, u) \<leftarrow> with_lock E (\<lambda>u. Some (u_traffStat u, u\<lparr>u_traffStat := []\<rparr>)) u;
          (if ts \<noteq> [] \<and> uc_disabledDetailStat (u_conf u) = 0
           then let (rc, u) = call (e_store E) (S_WriteDetailedStat ts (u_lastWriteDetailedStat u)
                                (u_login u)) u
                in if rc \<noteq> 0
                   then let u = emit (Log (strError_of (e_store E) u))
                                  (emit (Log (''Cannot write detail stat for user '' @ u_login u @ ''.'')) u)
                        in if \<not> hard
                           then with_lock E (\<lambda>u. Some (- 1, u\<lparr>u_traffStatSaved :=
                                  (u_lastWriteDetailedStat u, ts)\<rparr>)) u
                           else Some (- 1, u)
                   else Some (0, u\<lparr>u_lastWriteDetailedStat := e_stgTime E\<rparr>)
           else Some (0, u\<lparr>u_lastWriteDetailedStat := e_stgTime E\<rparr>))
        })"

subsection \<open>Passive time\<close>

definition daysInMonth :: "int list" where
  "daysInMonth = [31, 28, 31, 30, 31, 30, 31, 31, 30, 31, 30, 31]"

definition secMonth :: "tm \<Rightarrow> int" where
  "secMonth tms =
     daysInMonth ! nat ((tm_mon tms + 11) smod 12) * 24 * 3600
     + (if tm_year tms smod 4 = 0 \<and> tm_mon tms = 1 then 24 * 3600 else 0)"

definition getPassiveTimePart :: "env \<Rightarrow> user \<Rightarrow> double" where
  "getPassiveTimePart E u =
     (let sec = secMonth (e_localtime E (e_stgTime E));
          dt = sec - us_passiveTime (u_stat u);
          dt = (if dt < 0 then 0 else dt)
      in ddiv (d_of_int dt) (d_of_int sec))"

text \<open>Conversion of a double to an integer truncates.\<close>

definition trunc :: "double \<Rightarrow> int" where
  "trunc x = (if 0 \<le> x then \<lfloor>x\<rfloor> else \<lceil>x\<rceil>)"

definition new_user_passive_time :: "int \<Rightarrow> int \<Rightarrow> int" where
  "new_user_passive_time mday days =
     trunc (dmul (dmul (dmul (ddiv (d_of_int (mday - 1)) (d_of_int days)) 24) 3600) (d_of_int days))"

definition SetPassiveTimeAsNewUser :: "env \<Rightarrow> user \<Rightarrow> (unit \<times> user) option" where
  "SetPassiveTimeAsNewUser E = with_lock E (\<lambda>u. Some ((), assign E prop_passiveTime
     (new_user_passive_time (tm_mday (e_localtime E (e_stgTime E)))
        (DaysInCurrentMonth (e_localtime E) (e_time E))) u))"

definition ResetPassiveTime :: "env \<Rightarrow> user \<Rightarrow> user" where
  "ResetPassiveTime E u = assign E prop_passiveTime 0 u"

subsection \<open>Fees\<close>

text \<open>\<open>properties.cash.Set(c - fee, *sysAdmin, login, *store, "Subscriber fee charge")\<close>\<close>

definition charge_fee :: "env \<Rightarrow> double \<Rightarrow> user \<Rightarrow> user option" where
  "charge_fee E fee u =
     map_option snd (UserPropertyLogged_Set E (prop_cash E) (dsub (cash u) fee) (e_sysAdmin E)
       ''Subscriber fee charge'' u)"

definition SetPrepaidTraff :: "env \<Rightarrow> user \<Rightarrow> user option" where
  "SetPrepaidTraff E u = (case tariff_of E u of
     None \<Rightarrow> Some u
   | Some t \<Rightarrow> map_option snd (UserPropertyLogged_Set E prop_freeMb (GetFree t) (e_sysAdmin E)
                 ''Prepaid traffic'' u))"

text \<open>The condition of each case of \<open>switch (settings->GetFeeChargeType())\<close>.\<close>

definition fee_due :: "env \<Rightarrow> double \<Rightarrow> user \<Rightarrow> bool" where
  "fee_due E fee u =
     (let ty = s_feeChargeType (e_set E) in
      if ty = 0 then True
      else if ty = 1 then dadd (cash u) (credit u) \<ge> 0
      else if ty = 2 then dadd (cash u) (credit u) \<ge> fee
      else if ty = 3 then cash u \<ge> 0
      else False)"

definition fee_is_small :: "double \<Rightarrow> bool" where
  "fee_is_small fee \<longleftrightarrow> \<bar>fee\<bar> < dbl (1 / 1000)"

definition ProcessDayFeeSpread_body :: "env \<Rightarrow> user \<Rightarrow> user option" where
  "ProcessDayFeeSpread_body E u = (case tariff_of E u of
     None \<Rightarrow> Some u
   | Some t \<Rightarrow>
       if is_passive u \<or> GetPeriod t \<noteq> MONTH then Some u
       else let fee = ddiv (GetFee t) (d_of_int (DaysInCurrentMonth (e_localtime E) (e_time E)))
            in if fee_is_small fee then Some u
               else map_option (ResetPassiveTime E)
                      (if fee_due E fee u then charge_fee E fee u else Some u))"

definition ProcessDayFeeSpread :: "env \<Rightarrow> user \<Rightarrow> (unit \<times> user) option" where
  "ProcessDayFeeSpread E = with_lock E (\<lambda>u. map_option (Pair ()) (ProcessDayFeeSpread_body E u))"

text \<open>The part of the fee to charge: the share of the previous month the user was not passive, or
  the whole fee when fees are always full and the user is not passive (\<open>None\<close>: passive).\<close>

definition fee_part :: "env \<Rightarrow> user \<Rightarrow> double option" where
  "fee_part E u =
     (if \<not> s_fullFee (e_set E) then Some (getPassiveTimePart E u)
      else if is_passive u then None else Some 1)"

definition ProcessDayFee_body :: "env \<Rightarrow> user \<Rightarrow> user option" where
  "ProcessDayFee_body E u = (case tariff_of E u of
     None \<Rightarrow> Some u
   | Some t \<Rightarrow>
       if GetPeriod t \<noteq> MONTH then Some u
       else (case fee_part E u of
         None \<Rightarrow> Some u
       | Some part \<Rightarrow>
           (let fee = dmul (GetFee t) part;
                u = ResetPassiveTime E u
            in if fee_is_small fee then SetPrepaidTraff E u
               else if fee_due E fee u then Option.bind (charge_fee E fee u) (SetPrepaidTraff E)
               else Some u)))"

definition ProcessDayFee :: "env \<Rightarrow> user \<Rightarrow> (unit \<times> user) option" where
  "ProcessDayFee E = with_lock E (\<lambda>u. map_option (Pair ()) (ProcessDayFee_body E u))"

text \<open>The daily fee has no case 3.\<close>

definition ProcessDailyFee_body :: "env \<Rightarrow> user \<Rightarrow> user option" where
  "ProcessDailyFee_body E u = (case tariff_of E u of
     None \<Rightarrow> Some u
   | Some t \<Rightarrow>
       if is_passive u \<or> GetPeriod t \<noteq> DAY then Some u
       else let fee = GetFee t
            in if fee = 0 then Some u
               else map_option (ResetPassiveTime E)
                      (if s_feeChargeType (e_set E) \<noteq> 3 \<and> fee_due E fee u then charge_fee E fee u
                       else Some u))"

definition ProcessDailyFee :: "env \<Rightarrow> user \<Rightarrow> (unit \<times> user) option" where
  "ProcessDailyFee E = with_lock E (\<lambda>u. map_option (Pair ()) (ProcessDailyFee_body E u))"

text \<open>A service is paid on its day of the month, day 0 being the last. The debugging output
  reads the fee of the tariff, also when there is none.\<close>

fun ProcessServices_loop :: "env \<Rightarrow> double \<Rightarrow> string list \<Rightarrow> user \<Rightarrow> user option" where
  "ProcessServices_loop E part [] u = Some u"
| "ProcessServices_loop E part (n # ns) u = (case e_FindService E n of
     (False, Some conf) \<Rightarrow>
       (let mday = tm_mday (e_localtime E (e_stgTime E)) in
        if uint (sc_payDay conf) = mday
           \<or> (sc_payDay conf = 0 \<and> mday = DaysInCurrentMonth (e_localtime E) (e_time E))
        then (case tariff_of E u of
                None \<Rightarrow> None
              | Some _ \<Rightarrow>
                  (let fee = dmul (sc_cost conf) part
                   in Option.bind
                        (if fee_due E fee u then Option.bind (charge_fee E fee u) (SetPrepaidTraff E)
                         else Some u)
                        (ProcessServices_loop E part ns)))
        else ProcessServices_loop E part ns u)
   | _ \<Rightarrow> ProcessServices_loop E part ns u)"

definition ProcessServices_body :: "env \<Rightarrow> user \<Rightarrow> user option" where
  "ProcessServices_body E u = (case fee_part E u of
     None \<Rightarrow> Some u
   | Some part \<Rightarrow> ProcessServices_loop E part (uc_services (u_conf u)) u)"

definition ProcessServices :: "env \<Rightarrow> user \<Rightarrow> (unit \<times> user) option" where
  "ProcessServices E = with_lock E (\<lambda>u. map_option (Pair ()) (ProcessServices_body E u))"

subsection \<open>The end of a month\<close>

text \<open>A user without a tariff who has a next tariff dereferences the null pointer.\<close>

definition change_to_next_tariff :: "env \<Rightarrow> user \<Rightarrow> user option" where
  "change_to_next_tariff E u = (case e_FindTariff E (uc_nextTariff (u_conf u)) of
     None \<Rightarrow> Some (emit (Log (''Cannot change tariff for user '' @ u_login u @ ''. Tariff ''
                              @ uc_tariffName (u_conf u) @ '' not exist.'')) u)
   | Some nt \<Rightarrow> (case tariff_of E u of
       None \<Rightarrow> None
     | Some t \<Rightarrow>
         (let msg = TariffChangeIsAllowed t (e_tariff E nt) (e_stgTime E)
          in if msg = ''''
             then map_option snd (UserPropertyLogged_Set E (prop_tariffName E)
                    (uc_nextTariff (u_conf u)) (e_sysAdmin E) '''' u)
             else Some (emit (Log (''Tariff change is prohibited for user '' @ u_login u @ ''. ''
                                   @ msg)) u))))"

definition ProcessNewMonth_body :: "env \<Rightarrow> user \<Rightarrow> user option" where
  "ProcessNewMonth_body E u = do {
     let u = (if u_connected u then Disconnect E True ''fake'' u else u);
     (_, u) \<leftarrow> WriteMonthStat E u;
     let u = on_stat (\<lambda>s. s\<lparr>us_monthUp := DirTraff_reset (us_monthUp s),
                            us_monthDown := DirTraff_reset (us_monthDown s)\<rparr>) u;
     let u = (if u_connected u then Connect E True u else u);
     (if uc_nextTariff (u_conf u) \<noteq> ''''
      then do {
        u \<leftarrow> change_to_next_tariff E u;
        let u = assign E prop_nextTariff '''' u;
        map_option snd (WriteConf E u)
      }
      else Some u)
   }"

definition ProcessNewMonth :: "env \<Rightarrow> user \<Rightarrow> (unit \<times> user) option" where
  "ProcessNewMonth E = with_lock E (\<lambda>u. map_option (Pair ()) (ProcessNewMonth_body E u))"

end
