(* ===== verification/Stg_Session.thy ===== *)
theory Stg_Session
  imports Stg_Billing
begin

text \<open>
  The life of a user: what every operation of \<open>user_impl.cpp\<close> keeps. The invariant
  \<open>user_inv\<close> ties together authorization, address, connection, tariff pointer and counters. Each
  operation is first described up to its log lines and modification times (\<open>core\<close>), then shown
  to preserve the invariant; \<open>user_step\<close> collects all operations clients can apply, and the
  invariant holds in every state they can reach. The last part is about what single operations
  achieve: \<open>Run\<close> brings the connection in line with the balance, property changes are checked and
  logged, and the calls that lock a mutex twice.
\<close>

subsection \<open>The mutex\<close>

lemma with_lock_SomeE:
  assumes "with_lock E f u = Some (x, u')"
  obtains v where "f (u\<lparr>u_locked := True\<rparr>) = Some (x, v)" "u' = v\<lparr>u_locked := u_locked u\<rparr>" "\<not> u_locked u"
  | "u_locked u" "f u = Some (x, u')" "\<not> e_relock_blocks E"
  using assms by (auto simp: with_lock_def split: if_splits)

lemma with_lock_post:
  assumes "with_lock E f u = Some (x, u')" and "P u"
    and "\<And>u x v. P u \<Longrightarrow> f u = Some (x, v) \<Longrightarrow> Q v"
    and "\<And>u b. P (u\<lparr>u_locked := b\<rparr>) = P u" and "\<And>u b. Q (u\<lparr>u_locked := b\<rparr>) = Q u"
  shows "Q u'"
  using assms(1)
  by (rule with_lock_SomeE) (use assms(2-5) in metis)+

lemmas with_lock_inv = with_lock_post [where Q = P and P = P for P]

definition sess :: "user \<Rightarrow> bool" where
  "sess u \<longleftrightarrow> (u_authorizedBy u = [] \<longleftrightarrow> u_currIP u = 0)
     \<and> (u_connected u \<longrightarrow> u_currIP u \<noteq> 0 \<and> u_lastIPForDisconnect u \<noteq> 0)
     \<and> sorted_wrt (<) (u_authorizedBy u)"

definition counters_ok :: "user \<Rightarrow> bool" where
  "counters_ok u \<longleftrightarrow> traff_wf (up_traff u) \<and> traff_wf (down_traff u)
     \<and> traff_wf (u_sessionUpload u) \<and> traff_wf (u_sessionDownload u)
     \<and> traff_stat_wf (u_traffStat u) \<and> traff_stat_wf (snd (u_traffStatSaved u))"

definition user_inv :: "(string \<Rightarrow> nat option) \<Rightarrow> user \<Rightarrow> bool" where
  "user_inv F u \<longleftrightarrow> sess u \<and> counters_ok u \<and> u_tariff u = F (uc_tariffName (u_conf u))"

definition core :: "user \<Rightarrow> user" where
  "core u = u\<lparr>trace := [], u_mtime := (\<lambda>_. 0)\<rparr>"

lemma core_emit [simp]: "core (emit e u) = core u"
  by (simp add: core_def emit_def)

lemma core_ModifyTime [simp]: "core (ModifyTime E n u) = core u"
  by (simp add: core_def ModifyTime_def)

lemma core_GetParamValue [simp]: "core (snd (GetParamValue p u)) = core u"
  unfolding GetParamValue_def Let_def
  by (auto split: if_splits option.split)

lemma core_script_params [simp]: "core (snd (script_params ps acc u)) = core u"
proof (induction ps acc u rule: script_params.induct)
  case (2 p ps acc u)
  obtain v w where g: "GetParamValue p u = (v, w)" by force
  then have "core w = core u" using core_GetParamValue [of p u] by simp
  with 2 [OF g [symmetric] refl] g show ?case by simp
qed simp

lemma core_run_script [simp]: "core (run_script E s ip u) = core u"
  unfolding run_script_def Let_def case_prod_unfold by simp

lemma core_script_or_log [simp]: "core (script_or_log E s msg ip u) = core u"
  by (simp add: script_or_log_def)

lemma core_save_part [simp]: "core (snd (save_part E what c u)) = core u"
  unfolding save_part_def Let_def case_prod_unfold by simp

lemma core_upd:
  "core (u\<lparr>u_connected := b\<rparr>) = (core u)\<lparr>u_connected := b\<rparr>"
  "core (u\<lparr>u_currIP := ip\<rparr>) = (core u)\<lparr>u_currIP := ip\<rparr>"
  "core (u\<lparr>u_lastIPForDisconnect := ip\<rparr>) = (core u)\<lparr>u_lastIPForDisconnect := ip\<rparr>"
  "core (u\<lparr>u_lastDisconnectReason := r\<rparr>) = (core u)\<lparr>u_lastDisconnectReason := r\<rparr>"
  "core (u\<lparr>u_sessionUpload := t\<rparr>) = (core u)\<lparr>u_sessionUpload := t\<rparr>"
  "core (u\<lparr>u_sessionDownload := t\<rparr>) = (core u)\<lparr>u_sessionDownload := t\<rparr>"
  "core (u\<lparr>u_sessionUploadModTime := x\<rparr>) = (core u)\<lparr>u_sessionUploadModTime := x\<rparr>"
  "core (u\<lparr>u_sessionDownloadModTime := x\<rparr>) = (core u)\<lparr>u_sessionDownloadModTime := x\<rparr>"
  "core (u\<lparr>u_tariff := tp\<rparr>) = (core u)\<lparr>u_tariff := tp\<rparr>"
  "core (u\<lparr>u_conf := c\<rparr>) = (core u)\<lparr>u_conf := c\<rparr>"
  "core (u\<lparr>u_stat := s\<rparr>) = (core u)\<lparr>u_stat := s\<rparr>"
  "core (u\<lparr>u_authorizedBy := as\<rparr>) = (core u)\<lparr>u_authorizedBy := as\<rparr>"
  "core (u\<lparr>u_messages := ms\<rparr>) = (core u)\<lparr>u_messages := ms\<rparr>"
  "core (u\<lparr>u_traffStat := ts\<rparr>) = (core u)\<lparr>u_traffStat := ts\<rparr>"
  "core (u\<lparr>u_traffStatSaved := tss\<rparr>) = (core u)\<lparr>u_traffStatSaved := tss\<rparr>"
  by (simp_all add: core_def)

lemma core_set_connected [simp]: "core (set_connected E b u) = (core u)\<lparr>u_connected := b\<rparr>"
  by (simp add: set_connected_def core_upd)

lemma core_set_currIP [simp]: "core (set_currIP E ip u) = (core u)\<lparr>u_currIP := ip\<rparr>"
  by (simp add: set_currIP_def core_upd)

lemma core_fields:
  "u_locked (core u) = u_locked u" "u_login (core u) = u_login u" "u_id (core u) = u_id u"
  "u_stat (core u) = u_stat u" "u_conf (core u) = u_conf u" "u_connected (core u) = u_connected u"
  "u_currIP (core u) = u_currIP u" "u_lastIPForDisconnect (core u) = u_lastIPForDisconnect u"
  "u_tariff (core u) = u_tariff u" "u_authorizedBy (core u) = u_authorizedBy u"
  "u_messages (core u) = u_messages u" "u_traffStat (core u) = u_traffStat u"
  "u_traffStatSaved (core u) = u_traffStatSaved u" "u_sessionUpload (core u) = u_sessionUpload u"
  "u_sessionDownload (core u) = u_sessionDownload u" "u_deleted (core u) = u_deleted u"
  "u_lastWriteStat (core u) = u_lastWriteStat u"
  by (simp_all add: core_def)

lemma core_Connect:
  "core (Connect E f u) = (if f then core u
     else (core u)\<lparr>u_connected := True, u_lastIPForDisconnect := u_currIP u\<rparr>)"
proof -
  have ip: "u_currIP v = u_currIP u" if "core v = (core u)\<lparr>u_connected := True\<rparr>" for v
    using arg_cong [OF that, of u_currIP] by (simp add: core_fields)
  show ?thesis
    unfolding Connect_def Let_def by (cases f) (simp_all add: core_upd ip)
qed

lemma core_log_disconnect [simp]: "core (log_disconnect E r u) = core u"
  by (simp add: log_disconnect_def Let_def)

lemma core_reset_session [simp]: "core (reset_session E u) = reset_session E (core u)"
  by (simp add: reset_session_def core_def)

lemma core_Disconnect:
  "core (Disconnect E f reason u) =
     (if u_lastIPForDisconnect u = 0 then core u
      else reset_session E (if f then core u
        else (core u)\<lparr>u_lastDisconnectReason := reason, u_connected := False, u_lastIPForDisconnect := 0\<rparr>))"
  by (cases f) (simp_all add: Disconnect_def Let_def core_upd)

text \<open>Fields that connecting and disconnecting leave alone.\<close>

lemma session_field:
  assumes "\<And>u. g (core u) = g u" and "\<And>u x. g (u\<lparr>u_connected := x\<rparr>) = g u"
    and "\<And>u x. g (u\<lparr>u_lastIPForDisconnect := x\<rparr>) = g u"
    and "\<And>u x. g (u\<lparr>u_lastDisconnectReason := x\<rparr>) = g u"
    and "\<And>u. g (reset_session E u) = g u"
  shows "g (Disconnect E f r u) = g u" and "g (Connect E f u) = g u"
proof -
  have "g (core (Disconnect E f r u)) = g u" "g (core (Connect E f u)) = g u"
    unfolding core_Disconnect core_Connect by (simp_all add: assms)
  then show "g (Disconnect E f r u) = g u" "g (Connect E f u) = g u"
    by (simp_all only: assms(1))
qed

lemma Disconnect_fields [simp]:
  "u_conf (Disconnect E f r u) = u_conf u" "u_stat (Disconnect E f r u) = u_stat u"
  "u_authorizedBy (Disconnect E f r u) = u_authorizedBy u"
  "u_currIP (Disconnect E f r u) = u_currIP u" "u_tariff (Disconnect E f r u) = u_tariff u"
  "u_locked (Disconnect E f r u) = u_locked u" "u_login (Disconnect E f r u) = u_login u"
  "u_id (Disconnect E f r u) = u_id u" "u_messages (Disconnect E f r u) = u_messages u"
  "u_traffStat (Disconnect E f r u) = u_traffStat u" "u_deleted (Disconnect E f r u) = u_deleted u"
  by (rule session_field(1); simp add: core_fields reset_session_def)+

lemma Connect_fields [simp]:
  "u_conf (Connect E f u) = u_conf u" "u_stat (Connect E f u) = u_stat u"
  "u_authorizedBy (Connect E f u) = u_authorizedBy u"
  "u_currIP (Connect E f u) = u_currIP u" "u_tariff (Connect E f u) = u_tariff u"
  "u_locked (Connect E f u) = u_locked u" "u_login (Connect E f u) = u_login u"
  "u_id (Connect E f u) = u_id u" "u_messages (Connect E f u) = u_messages u"
  "u_traffStat (Connect E f u) = u_traffStat u" "u_deleted (Connect E f u) = u_deleted u"
  by (rule session_field(2); simp add: core_fields reset_session_def)+

lemma Connect_connected [simp]: "u_connected (Connect E f u) = (\<not> f \<or> u_connected u)"
  using arg_cong [OF core_Connect [of E f u], of u_connected] by (simp add: core_fields)

lemma Disconnect_connected [simp]:
  "u_connected (Disconnect E f r u) = (u_connected u \<and> (f \<or> u_lastIPForDisconnect u = 0))"
  using arg_cong [OF core_Disconnect [of E f r u], of u_connected]
  by (simp add: core_fields reset_session_def split: if_splits)

lemma IsInetable_eq:
  "u_conf v = u_conf u \<Longrightarrow> u_stat v = u_stat u \<Longrightarrow> u_tariff v = u_tariff u \<Longrightarrow> IsInetable E v = IsInetable E u"
  by (cases "u_tariff u") (simp_all add: IsInetable_def tariff_of_def)

lemma IsInetable_session [simp]:
  "IsInetable E (Connect E f u) = IsInetable E u" "IsInetable E (Disconnect E f r u) = IsInetable E u"
  by (rule IsInetable_eq; simp)+

lemma user_inv_core [simp]: "user_inv F (core u) = user_inv F u"
  by (simp add: user_inv_def sess_def counters_ok_def core_fields)

lemma user_inv_eq: "core u' = core u \<Longrightarrow> user_inv F u' = user_inv F u"
  by (metis user_inv_core)

lemma user_inv_emit [simp]: "user_inv F (emit e u) = user_inv F u"
  by (rule user_inv_eq) simp

lemma user_inv_ModifyTime [simp]: "user_inv F (ModifyTime E n u) = user_inv F u"
  by (rule user_inv_eq) simp

lemma user_inv_save_part [simp]: "user_inv F (snd (save_part E w c u)) = user_inv F u"
  by (rule user_inv_eq) simp

lemma user_inv_upd [simp]:
  "user_inv F (u\<lparr>u_locked := b\<rparr>) = user_inv F u"
  "user_inv F (u\<lparr>u_enabledDirs := ds\<rparr>) = user_inv F u"
  "user_inv F (u\<lparr>u_errorStr := r\<rparr>) = user_inv F u"
  "user_inv F (u\<lparr>u_messages := ms\<rparr>) = user_inv F u"
  "user_inv F (u\<lparr>u_pingTime := t\<rparr>) = user_inv F u"
  "user_inv F (u\<lparr>u_deleted := b\<rparr>) = user_inv F u"
  "user_inv F (u\<lparr>u_lastScanMessages := t\<rparr>) = user_inv F u"
  "user_inv F (u\<lparr>u_lastWriteStat := t\<rparr>) = user_inv F u"
  "user_inv F (u\<lparr>u_lastWriteDetailedStat := t\<rparr>) = user_inv F u"
  "user_inv F (u\<lparr>u_authorizedModificationTime := t\<rparr>) = user_inv F u"
  "user_inv F (u\<lparr>u_mtime := mt\<rparr>) = user_inv F u"
  "user_inv F (u\<lparr>trace := tr\<rparr>) = user_inv F u"
  by (simp_all add: user_inv_def sess_def counters_ok_def)

lemma Connect_inv:
  assumes "user_inv F u" and "\<not> f \<Longrightarrow> u_authorizedBy u \<noteq> []"
  shows "user_inv F (Connect E f u)"
proof -
  have "user_inv F (core (Connect E f u))"
    using assms unfolding core_Connect
    by (auto simp: user_inv_def sess_def counters_ok_def core_fields)
  then show ?thesis by simp
qed

lemma Disconnect_inv [simp]:
  assumes "user_inv F u"
  shows "user_inv F (Disconnect E f r u)"
proof -
  have "user_inv F (core (Disconnect E f r u))"
    using assms unfolding core_Disconnect
    by (auto simp: user_inv_def sess_def counters_ok_def core_fields reset_session_def)
  then show ?thesis by simp
qed

subsection \<open>Property changes\<close>

lemma core_OnChange [simp]: "core (OnChange E n a b adm u) = core u"
  by (simp add: OnChange_def Let_def)

lemma core_WriteSuccessChange [simp]: "core (WriteSuccessChange E adm n a b m u) = core u"
  unfolding WriteSuccessChange_def Let_def by simp

lemma core_WriteAccessDenied [simp]: "core (WriteAccessDenied adm n u) = core u"
  by (simp add: WriteAccessDenied_def)

text \<open>Setting a property through an administrator is a refusal or the plain assignment after
  logging.\<close>

lemma Logged_Set_SomeE:
  assumes "UserPropertyLogged_Set E p v adm msg u = Some (r, u')"
  obtains "\<not> r" "\<not> may_change adm p" "core u' = core u"
  | w where "r" "may_change adm p" "core w = core u" "UserProperty_Set E p v w = Some u'"
proof (cases "may_change adm p")
  case False
  then show ?thesis using assms that(1) by (auto simp: UserPropertyLogged_Set_def)
next
  case True
  define w where "w = (let oldVal = pr_text p (pr_get p u); newVal = pr_text p v;
      u = OnChange E (pr_name p) oldVal newVal adm u
    in if pr_isPassword p then WriteSuccessChange E adm (pr_name p) ''******'' ''******'' msg u
       else WriteSuccessChange E adm (pr_name p) oldVal newVal msg u)"
  have "UserPropertyLogged_Set E p v adm msg u = map_option (Pair True) (UserProperty_Set E p v w)"
    using True by (simp only: UserPropertyLogged_Set_def w_def Let_def if_True)
  moreover have "core w = core u" by (simp add: w_def Let_def)
  ultimately show ?thesis
    using True assms that(2) [of w] by (cases "UserProperty_Set E p v w") auto
qed

definition keeps_inv :: "(string \<Rightarrow> nat option) \<Rightarrow> (user \<Rightarrow> user option) \<Rightarrow> bool" where
  "keeps_inv F f \<longleftrightarrow> (\<forall>u u'. user_inv F u \<longrightarrow> f u = Some u' \<longrightarrow> user_inv F u')"

lemma keeps_invD: "keeps_inv F f \<Longrightarrow> user_inv F u \<Longrightarrow> f u = Some u' \<Longrightarrow> user_inv F u'"
  by (auto simp: keeps_inv_def)

lemma Logged_Set_inv:
  assumes "keeps_inv F (UserProperty_Set E p v)" and "user_inv F u"
    and "UserPropertyLogged_Set E p v adm msg u = Some (r, u')"
  shows "user_inv F u'"
  using assms(3)
proof (cases rule: Logged_Set_SomeE)
  case 1
  then show ?thesis using assms(2) user_inv_eq by blast
next
  case (2 w)
  then have "user_inv F w" using assms(2) user_inv_eq by blast
  then show ?thesis using 2 keeps_invD [OF assms(1)] by blast
qed

text \<open>Fields that the invariant does not read.\<close>

lemma user_inv_stat:
  assumes "us_monthUp s = us_monthUp (u_stat u)" "us_monthDown s = us_monthDown (u_stat u)"
  shows "user_inv F (u\<lparr>u_stat := s\<rparr>) = user_inv F u"
  using assms by (simp add: user_inv_def sess_def counters_ok_def)

lemma user_inv_conf:
  assumes "uc_tariffName c = uc_tariffName (u_conf u)"
  shows "user_inv F (u\<lparr>u_conf := c\<rparr>) = user_inv F u"
  using assms by (simp add: user_inv_def sess_def counters_ok_def)

lemma assign_inv [simp]:
  "user_inv F (assign E prop_lastCashAdd d u) = user_inv F u"
  "user_inv F (assign E prop_passiveTime t u) = user_inv F u"
  "user_inv F (assign E prop_lastCashAddTime t u) = user_inv F u"
  "user_inv F (assign E prop_freeMb d u) = user_inv F u"
  "user_inv F (assign E prop_password st u) = user_inv F u"
  "user_inv F (assign E prop_nextTariff st u) = user_inv F u"
  "user_inv F (assign E prop_credit d u) = user_inv F u"
  "user_inv F (assign E prop_creditExpire t u) = user_inv F u"
  by (simp_all add: assign_def prop_lastCashAdd_def prop_passiveTime_def prop_lastCashAddTime_def
      prop_freeMb_def prop_password_def prop_nextTariff_def prop_credit_def prop_creditExpire_def
      plain_property_def user_inv_stat user_inv_conf)

lemma assign_up_inv:
  "traff_wf t \<Longrightarrow> user_inv F u \<Longrightarrow> user_inv F (assign E prop_up t u)"
  "traff_wf t \<Longrightarrow> user_inv F u \<Longrightarrow> user_inv F (assign E prop_down t u)"
  by (simp_all add: assign_def prop_up_def prop_down_def plain_property_def)
    (auto simp: user_inv_def sess_def counters_ok_def)

lemma keeps_inv_plain:
  "keeps_inv F (UserProperty_Set E prop_lastCashAdd d)"
  "keeps_inv F (UserProperty_Set E prop_passiveTime t)"
  "keeps_inv F (UserProperty_Set E prop_lastCashAddTime t)"
  "keeps_inv F (UserProperty_Set E prop_freeMb d)"
  "keeps_inv F (UserProperty_Set E prop_password st)"
  "keeps_inv F (UserProperty_Set E prop_nextTariff st)"
  "keeps_inv F (UserProperty_Set E prop_credit d)"
  "keeps_inv F (UserProperty_Set E prop_creditExpire t)"
  "traff_wf tr \<Longrightarrow> keeps_inv F (UserProperty_Set E prop_up tr)"
  "traff_wf tr \<Longrightarrow> keeps_inv F (UserProperty_Set E prop_down tr)"
  unfolding keeps_inv_def
  using assign_inv assign_up_inv
  by (auto simp: prop_lastCashAdd_def prop_passiveTime_def prop_lastCashAddTime_def
      prop_freeMb_def prop_password_def prop_nextTariff_def prop_credit_def prop_creditExpire_def
      prop_up_def prop_down_def)

lemma onCashChange_inv [simp]: "user_inv F (onCashChange E a b u) = user_inv F u"
  by (simp add: onCashChange_def)

lemma keeps_inv_cash: "keeps_inv F (UserProperty_Set E (prop_cash E) d)"
  unfolding keeps_inv_def UserProperty_Set_def prop_cash_def
  by (simp add: user_inv_stat Let_def)

lemma with_lock_keeps:
  assumes "\<And>u x v. user_inv F u \<Longrightarrow> f u = Some (x, v) \<Longrightarrow> user_inv F v"
    and "user_inv F u" and "with_lock E f u = Some (x, u')"
  shows "user_inv F u'"
  using assms(3,2)
  by (rule with_lock_inv [where P = "user_inv F"]) (auto intro: assms(1))

lemma onPassiveChange_inv: "keeps_inv F (onPassiveChange E a b)"
  unfolding keeps_inv_def onPassiveChange_def
  by (auto elim!: with_lock_keeps [rotated 2] split: option.splits if_splits
      intro: Logged_Set_inv [OF keeps_inv_cash])

lemma keeps_inv_property:
  assumes "\<And>a b. keeps_inv F (pr_before p a b)"
    and "\<And>u. user_inv F (pr_put p v u) = user_inv F u"
    and "\<And>a b. keeps_inv F (pr_after p a b)"
  shows "keeps_inv F (UserProperty_Set E p v)"
  unfolding keeps_inv_def
proof (intro allI impI)
  fix u u' assume i: "user_inv F u" and "UserProperty_Set E p v u = Some u'"
  then obtain w where w: "pr_before p (pr_get p u) v u = Some w"
    and a: "pr_after p (pr_get p u) v (ModifyTime E (pr_name p) (pr_put p v w)) = Some u'"
    by (auto simp: UserProperty_Set_def Let_def bind_eq_Some_conv)
  have "user_inv F w" using keeps_invD [OF assms(1) i w] .
  then show "user_inv F u'" using keeps_invD [OF assms(3) _ a] assms(2) by simp
qed

lemma keeps_inv_Some [simp]: "keeps_inv F Some"
  by (simp add: keeps_inv_def)

lemma keeps_inv_passive: "keeps_inv F (UserProperty_Set E (prop_passive E) v)"
  by (rule keeps_inv_property) (simp_all add: prop_passive_def user_inv_conf onPassiveChange_inv)

lemma onDisabledChange_inv:
  assumes "user_inv F u" and "is_disabled u \<or> b = 0" and "onDisabledChange E a b u = Some u'"
  shows "user_inv F u'"
proof -
  obtain x where w: "with_lock E (\<lambda>u.
     Some ((), if a \<noteq> 0 \<and> b = 0 \<and> u_connected u then Disconnect E False ''disabled'' u
               else if a = 0 \<and> b \<noteq> 0 \<and> IsInetable E u then Connect E False u
               else u)) u = Some (x, u')"
    using assms(3) by (auto simp: onDisabledChange_def)
  have c: "\<not> (b \<noteq> 0 \<and> IsInetable E u)" if "is_disabled u \<or> b = 0" for u
    using that by (auto simp: IsInetable_def)
  have "user_inv F u' \<and> (is_disabled u' \<or> b = 0)"
    using w
  proof (rule with_lock_inv [where P = "\<lambda>u. user_inv F u \<and> (is_disabled u \<or> b = 0)"])
    fix v :: user and x w
    assume "user_inv F v \<and> (is_disabled v \<or> b = 0)"
      and "Some ((), if a \<noteq> 0 \<and> b = 0 \<and> u_connected v then Disconnect E False ''disabled'' v
               else if a = 0 \<and> b \<noteq> 0 \<and> IsInetable E v then Connect E False v else v) = Some (x, w)"
    then show "user_inv F w \<and> (is_disabled w \<or> b = 0)"
      using c [of v] by (auto split: if_splits)
  qed (use assms in auto)
  then show ?thesis by simp
qed

lemma keeps_inv_disabled: "keeps_inv F (UserProperty_Set E (prop_disabled E) v)"
  unfolding keeps_inv_def
proof (intro allI impI)
  fix u u' assume i: "user_inv F u" and "UserProperty_Set E (prop_disabled E) v u = Some u'"
  then have "onDisabledChange E (uc_disabled (u_conf u)) v
      (ModifyTime E ''disabled'' (on_conf (uc_disabled_update (\<lambda>_. v)) u)) = Some u'"
    by (simp add: UserProperty_Set_def prop_disabled_def Let_def)
  then show "user_inv F u'"
    by (rule onDisabledChange_inv [rotated 2]) (use i in \<open>simp_all add: user_inv_conf ModifyTime_def\<close>)
qed

lemma onIPChange_inv: "keeps_inv F (onIPChange E a b)"
  unfolding keeps_inv_def onIPChange_def Let_def
  by (auto elim!: with_lock_keeps [rotated 2] intro!: Connect_inv split: if_splits)

lemma keeps_inv_ips: "keeps_inv F (UserProperty_Set E (prop_ips E) v)"
  by (rule keeps_inv_property) (simp_all add: prop_ips_def user_inv_conf onIPChange_inv)

text \<open>The tariff pointer and the tariff name change together: between the callback and the
  assignment only the pointer is new.\<close>

lemma onTariffChange_pending:
  assumes "user_inv F u" and "onTariffChange E a n u = Some u'" and "e_FindTariff E = F"
  shows "user_inv (\<lambda>_. F n) u'"
proof -
  let ?f = "\<lambda>u. let r = s_reconnectOnTariffChange (e_set E);
         u = (if r \<and> u_connected u then Disconnect E False ''Change tariff'' u else u);
         u = u\<lparr>u_tariff := e_FindTariff E n\<rparr>
     in Some ((), if r \<and> u_authorizedBy u \<noteq> [] \<and> IsInetable E u
                  then Connect E False (on_conf (uc_tariffName_update (\<lambda>_. n)) u)
                  else u)"
  have s: "user_inv (\<lambda>_. F n) (v\<lparr>u_tariff := F n\<rparr>)" if "user_inv F v" for v
    using that by (simp add: user_inv_def sess_def counters_ok_def)
  have c: "user_inv (\<lambda>_. F n) (v\<lparr>u_conf := c\<rparr>) = user_inv (\<lambda>_. F n) v" for v c
    by (simp add: user_inv_def sess_def counters_ok_def)
  have step: "user_inv (\<lambda>_. F n) w" if v: "user_inv F v" and f: "?f v = Some (x, w)" for v x w
  proof -
    define d where "d = (if s_reconnectOnTariffChange (e_set E) \<and> u_connected v
      then Disconnect E False ''Change tariff'' v else v)\<lparr>u_tariff := F n\<rparr>"
    have d: "user_inv (\<lambda>_. F n) d" using v unfolding d_def by (intro s) simp
    have "w = d \<or> u_authorizedBy d \<noteq> [] \<and> w = Connect E False (on_conf (uc_tariffName_update (\<lambda>_. n)) d)"
      using f by (auto simp: Let_def assms(3) d_def split: if_splits)
    then show ?thesis using d by (auto intro!: Connect_inv simp: c)
  qed
  obtain x where "with_lock E ?f u = Some (x, u')"
    using assms(2) by (auto simp: onTariffChange_def)
  then show ?thesis
    by (rule with_lock_post [where P = "user_inv F"]) (use step assms(1) in simp_all)
qed

lemma keeps_inv_tariffName:
  assumes "e_FindTariff E = F"
  shows "keeps_inv F (UserProperty_Set E (prop_tariffName E) n)"
  unfolding keeps_inv_def
proof (intro allI impI)
  fix u u' assume i: "user_inv F u" and "UserProperty_Set E (prop_tariffName E) n u = Some u'"
  then obtain w where "onTariffChange E (uc_tariffName (u_conf u)) n u = Some w"
    and u': "u' = ModifyTime E ''tariffName'' (on_conf (uc_tariffName_update (\<lambda>_. n)) w)"
    by (auto simp: UserProperty_Set_def prop_tariffName_def Let_def bind_eq_Some_conv)
  then have "user_inv (\<lambda>_. F n) w" using onTariffChange_pending i assms by blast
  then show "user_inv F u'"
    unfolding u' user_inv_ModifyTime by (simp add: user_inv_def sess_def counters_ok_def)
qed

subsection \<open>Messages and authorization\<close>

lemma send_to_core [simp]: "core (snd (send_to E m as r u)) = core u"
  by (induction E m as r u rule: send_to.induct) (simp_all add: Let_def)

lemma SendMessage_core: "SendMessage E m u = (rc, m', u') \<Longrightarrow> core u' = core u"
  using send_to_core [of E m "u_authorizedBy u" "- 1" u]
  by (cases "send_to E m (u_authorizedBy u) (- 1) u") (auto simp: SendMessage_def split: if_splits)

lemma del_message_core: "\<exists>ms. core (del_message E i u) = (core u)\<lparr>u_messages := ms\<rparr>"
  unfolding del_message_def Let_def case_prod_unfold by (auto simp: core_upd)

definition only_messages :: "user \<Rightarrow> user \<Rightarrow> bool" where
  "only_messages u v \<longleftrightarrow> core v = (core u)\<lparr>u_messages := u_messages v\<rparr>"

lemma only_messages_refl [simp]: "only_messages u u"
  by (simp add: only_messages_def core_def)

lemma only_messages_trans: "only_messages u v \<Longrightarrow> only_messages v w \<Longrightarrow> only_messages u w"
  by (simp add: only_messages_def)

lemma only_messages_core: "core v = core u \<Longrightarrow> only_messages u v"
  using core_fields(11) [of v] core_fields(11) [of u] by (simp add: only_messages_def core_def)

lemma only_messages_upd: "only_messages u v \<Longrightarrow> only_messages u (v\<lparr>u_messages := ms\<rparr>)"
  by (simp add: only_messages_def core_upd)

lemma only_messages_emit: "only_messages u v \<Longrightarrow> only_messages u (emit e v)"
  using only_messages_trans [of u v "emit e v"] only_messages_core [of "emit e v" v] by simp

lemma del_message_only: "only_messages u (del_message E i u)"
  unfolding del_message_def Let_def case_prod_unfold
  by (auto intro!: only_messages_upd only_messages_emit)

lemma ScanMessage_loop_step:
  assumes "i < length (u_messages u)"
  shows "\<exists>v. ScanMessage_loop E i u = ScanMessage_loop E (Suc i) v \<and> only_messages u v
    \<and> length (u_messages v) \<le> length (u_messages u)"
proof -
  let ?m = "u_messages u ! i"
  let ?late = "GetMessageTimeout (e_set E) > 0
    \<and> e_stgTime E - uint (mh_creationTime (msg_header ?m)) > GetMessageTimeout (e_set E)"
  obtain rc m' v where sm: "SendMessage E ?m u = (rc, m', v)" by (metis prod_cases3)
  have v: "only_messages u v" "u_messages v = u_messages u"
    using SendMessage_core [OF sm] only_messages_core SendMessage_messages [OF sm] by auto
  define w where "w = v\<lparr>u_messages := (u_messages u)[i := m']\<rparr>"
  have w: "only_messages u w" "length (u_messages w) = length (u_messages u)"
    using v by (simp_all add: w_def only_messages_upd)
  define x where "x = (if st_rc (e_store E) (trace w) (S_EditMessage m' (u_login w)) \<noteq> 0
    then emit (Log (''Error modifying message: '' @ squote (strError_of (e_store E)
        (emit (Call (S_EditMessage m' (u_login w))) w))))
      (emit (Call (S_EditMessage m' (u_login w))) w)
    else emit (Call (S_EditMessage m' (u_login w))) w)"
  have x: "only_messages u x" "u_messages x = u_messages w"
    using w(1) by (simp_all add: x_def only_messages_emit) (simp_all add: emit_def)
  have *: "ScanMessage_loop E i u =
     (if ?late then ScanMessage_loop E (Suc i) (del_message E i u)
      else if GetNextSendTime ?m \<le> e_stgTime E
      then if rc \<noteq> 0 then ScanMessage_loop E (Suc i) v
           else if mh_repeat (msg_header m') < 0 then ScanMessage_loop E (Suc i) (del_message E i w)
           else ScanMessage_loop E (Suc i) x
      else ScanMessage_loop E (Suc i) u)"
    using assms
    by (subst ScanMessage_loop.simps) (simp only: sm Let_def prod.case w_def [symmetric] call_def
        x_def [symmetric] less_imp_neq if_False if_True, simp)
  have "only_messages u (del_message E i w)"
    using w(1) del_message_only only_messages_trans by blast
  then show ?thesis
    unfolding * using assms v w x del_message_only [of u E i] by (auto simp: w_def)
qed

lemma ScanMessage_loop_only:
  "ScanMessage_loop E i u = Some u' \<Longrightarrow> only_messages u u'"
proof (induction "length (u_messages u) - i" arbitrary: i u rule: less_induct)
  case less
  show ?case
  proof (cases "i < length (u_messages u)")
    case True
    then obtain v where v: "ScanMessage_loop E i u = ScanMessage_loop E (Suc i) v"
      "only_messages u v" "length (u_messages v) \<le> length (u_messages u)"
      using ScanMessage_loop_step by blast
    then have "only_messages v u'" using less True by (intro less.hyps) auto
    then show ?thesis using v only_messages_trans by blast
  next
    case False
    then show ?thesis using less.prems by (subst (asm) ScanMessage_loop.simps) (auto split: if_splits)
  qed
qed

lemma ScanMessage_inv: "keeps_inv F (ScanMessage E)"
  unfolding keeps_inv_def ScanMessage_def
proof (intro allI impI)
  fix u u' assume "user_inv F u" and "ScanMessage_loop E 0 u = Some u'"
  then have "core u' = (core u)\<lparr>u_messages := u_messages u'\<rparr>" "user_inv F (core u)"
    using ScanMessage_loop_only by (auto simp: only_messages_def)
  then show "user_inv F u'" by (metis user_inv_core user_inv_upd(4))
qed

lemma insert_auth_facts [simp]:
  "insert_auth a as \<noteq> []" "set (insert_auth a as) = insert a (set as)"
  using set_insort_insert [of a as] by (auto simp: insert_auth_def)

lemma insert_auth_sorted: "sorted_wrt (<) as \<Longrightarrow> sorted_wrt (<) (insert_auth a as)"
  by (simp add: strict_sorted_iff insert_auth_def sorted_insort_insert distinct_insort_insert)

lemma Authorize_finish_inv:
  assumes "user_inv F (u\<lparr>u_authorizedBy := insert_auth a (u_authorizedBy u)\<rparr>)"
    and "Authorize_finish E a u = Some (x, u')"
  shows "user_inv F u'"
proof -
  define v where "v = (if u_authorizedBy u = []
    then u\<lparr>u_authorizedModificationTime := e_stgTime E\<rparr> else u)"
  have "user_inv F (v\<lparr>u_authorizedBy := insert_auth a (u_authorizedBy v)\<rparr>)"
    using assms(1) by (auto simp: user_inv_def sess_def counters_ok_def v_def)
  moreover have "ScanMessage E (v\<lparr>u_authorizedBy := insert_auth a (u_authorizedBy v)\<rparr>) = Some u'"
    using assms(2) by (auto simp: Authorize_finish_def Let_def bind_eq_Some_conv simp flip: v_def)
  ultimately show ?thesis using keeps_invD [OF ScanMessage_inv] by blast
qed

lemma Authorize_body_inv:
  assumes i: "user_inv F u" and f: "Authorize_body E ip dirs a u = Some (x, u')"
  shows "user_inv F u'"
proof -
  define v where "v = u\<lparr>u_enabledDirs := dirsFromBits dirs\<rparr>"
  have v: "user_inv F v" using i by (simp add: v_def)
  define c where "c = (set_currIP E ip v)\<lparr>u_lastIPForDisconnect := u_currIP (set_currIP E ip v)\<rparr>"
  have core_c: "core c = (core v)\<lparr>u_currIP := ip, u_lastIPForDisconnect := ip\<rparr>"
    by (simp add: c_def set_currIP_def ModifyTime_def emit_def core_def)
  have "u' = u \<or> (\<exists>e. u' = v\<lparr>u_errorStr := e\<rparr>)
    \<or> (u_authorizedBy v \<noteq> [] \<and> Authorize_finish E a v = Some (x, u'))
    \<or> (u_authorizedBy v = [] \<and> ip \<noteq> 0 \<and> Authorize_finish E a c = Some (x, u'))"
    using f unfolding Authorize_body_def v_def [symmetric] Let_def c_def [symmetric]
    by (auto simp: bind_eq_Some_conv v_def split: if_splits)
  moreover have "user_inv F (c\<lparr>u_authorizedBy := insert_auth a (u_authorizedBy c)\<rparr>)"
    if "u_authorizedBy v = []" "ip \<noteq> 0"
  proof -
    have "u_authorizedBy c = []" using core_c that core_fields(10) [of c] core_fields(10) [of v] by simp
    then have "core (c\<lparr>u_authorizedBy := insert_auth a (u_authorizedBy c)\<rparr>) =
      (core v)\<lparr>u_currIP := ip, u_lastIPForDisconnect := ip, u_authorizedBy := insert_auth a []\<rparr>"
      by (simp add: core_upd core_c)
    moreover have "user_inv F ((core v)\<lparr>u_currIP := ip, u_lastIPForDisconnect := ip,
        u_authorizedBy := insert_auth a []\<rparr>)"
      using v that insert_auth_sorted [of "[]" a]
      by (auto simp: user_inv_def sess_def counters_ok_def core_fields)
    ultimately show ?thesis by (metis user_inv_core)
  qed
  moreover have "user_inv F (v\<lparr>u_authorizedBy := insert_auth a (u_authorizedBy v)\<rparr>)"
    if "u_authorizedBy v \<noteq> []"
    using v that insert_auth_sorted [of "u_authorizedBy v" a]
    by (auto simp: user_inv_def sess_def counters_ok_def)
  ultimately show ?thesis using i v Authorize_finish_inv by fastforce
qed

lemma Unauthorize_body_inv:
  assumes i: "user_inv F u"
  shows "user_inv F (Unauthorize_body E a r u)"
proof -
  define v where "v = u\<lparr>u_authorizedBy := remove1 a (u_authorizedBy u),
    u_authorizedModificationTime := e_stgTime E\<rparr>"
  define c where "c = set_currIP E 0 (v\<lparr>u_lastDisconnectReason := r, u_lastIPForDisconnect := u_currIP v\<rparr>)"
  have u: "Unauthorize_body E a r u = (if a \<notin> set (u_authorizedBy u) then u
      else if u_authorizedBy v = []
      then if u_connected c then Disconnect E False ''not authorized'' c else c else v)"
    by (simp add: Unauthorize_body_def Let_def v_def c_def)
  consider "a \<notin> set (u_authorizedBy u)"
    | "a \<in> set (u_authorizedBy u)" "u_authorizedBy v \<noteq> []"
    | "a \<in> set (u_authorizedBy u)" "u_authorizedBy v = []" "\<not> u_connected c"
    | "a \<in> set (u_authorizedBy u)" "u_authorizedBy v = []" "u_connected c" by blast
  then show ?thesis
  proof cases
    case 1
    then show ?thesis using i u by simp
  next
    case 2
    have "sorted_wrt (<) (remove1 a (u_authorizedBy u))"
      using i by (simp add: user_inv_def sess_def strict_sorted_iff sorted_remove1)
    then have "user_inv F v" using i 2 by (auto simp: v_def user_inv_def sess_def counters_ok_def)
    then show ?thesis using u 2 by simp
  next
    case 3
    then have "user_inv F c" using i
      by (auto simp: c_def v_def set_currIP_def ModifyTime_def emit_def user_inv_def sess_def counters_ok_def)
    then show ?thesis using u 3 by simp
  next
    case 4
    have n: "u_lastIPForDisconnect c \<noteq> 0"
      using i 4 by (auto simp: c_def v_def set_currIP_def ModifyTime_def emit_def user_inv_def sess_def)
    have "user_inv F (core (Disconnect E False ''not authorized'' c))"
      using i 4 n unfolding core_Disconnect
      by (auto simp: core_def reset_session_def c_def v_def set_currIP_def ModifyTime_def emit_def
          user_inv_def sess_def counters_ok_def)
    then show ?thesis using u 4 by simp
  qed
qed

subsection \<open>Periodic work and traffic\<close>

lemma Run_sessions_inv: "keeps_inv F (Run_sessions E)"
  unfolding keeps_inv_def
proof (intro allI impI)
  fix u u' assume i: "user_inv F u" and r: "Run_sessions E u = Some u'"
  show "user_inv F u'"
  proof (cases "u_authorizedBy u = []")
    case True
    then show ?thesis using r i by (auto simp: Run_sessions_def split: if_splits)
  next
    case False
    define a where "a = (if u_connected u
      then on_stat (us_lastActivityTime_update (\<lambda>_. e_stgTime E)) u else u)"
    have a: "user_inv F a" "u_authorizedBy a \<noteq> []" using i False by (simp_all add: a_def user_inv_stat)
    define b where "b = (if \<not> u_connected a \<and> IsInetable E a then Connect E False a else a)"
    have b: "user_inv F b" using a by (auto simp: b_def intro: Connect_inv)
    define c where "c = (if u_connected b \<and> \<not> IsInetable E b
                    then (if is_disabled b then Disconnect E False ''disabled'' b
                          else if is_passive b then Disconnect E False ''passive'' b
                          else Disconnect E False ''no cash'' b)
                    else b)"
    have c: "user_inv F c" using b by (simp add: c_def)
    have "Run_sessions E u = (if e_stgTime E - u_lastScanMessages c > 10
              then map_option (\<lambda>u. u\<lparr>u_lastScanMessages := e_stgTime E\<rparr>) (ScanMessage E c)
              else Some c)"
      using False by (simp only: Run_sessions_def Let_def a_def b_def c_def if_True not_False_eq_True)
    then show ?thesis using r c keeps_invD [OF ScanMessage_inv c, of E]
      by (cases "ScanMessage E c") (auto split: if_splits)
  qed
qed

lemma Run_passive_inv [simp]: "user_inv F (Run_passive E u) = user_inv F u"
  by (simp add: Run_passive_def Let_def)

lemma save_part_inv: "save_part E w c u = (x, v) \<Longrightarrow> user_inv F v = user_inv F u"
  using user_inv_save_part [of F E w c u] by simp

lemma WriteConf_inv:
  assumes "user_inv F u" and "WriteConf E u = Some (x, u')"
  shows "user_inv F u'"
  using assms(2) unfolding WriteConf_def
  by (rule with_lock_keeps [OF _ assms(1), rotated]) (auto simp: save_part_inv)

lemma WriteMonthStat_inv:
  assumes "user_inv F u" and "WriteMonthStat E u = Some (x, u')"
  shows "user_inv F u'"
  using assms(2) unfolding WriteMonthStat_def Let_def
  by (rule with_lock_keeps [OF _ assms(1), rotated]) (auto simp: save_part_inv)

lemma WriteStat_inv:
  assumes "user_inv F u" and "WriteStat E u = Some (x, u')"
  shows "user_inv F u'"
  using assms(2) unfolding WriteStat_def Let_def
  by (rule with_lock_keeps [OF _ assms(1), rotated])
    (auto simp: save_part_inv split: prod.splits if_splits)

lemma Run_body_sessions:
  assumes "user_inv F u" and "Run_body E u = Some (x, u')"
  shows "\<exists>w. user_inv F w \<and> Run_sessions E w = Some u'"
proof -
  obtain v w where
    v: "(if e_stgTime E > u_lastWriteStat u + GetStatWritePeriod (e_set E)
           then map_option snd (WriteStat E u) else Some u) = Some v"
    and w: "(if uc_creditExpire (u_conf v) \<noteq> 0 \<and> uc_creditExpire (u_conf v) < e_stgTime E
           then let u = emit (Log (''User: '' @ u_login v @ ''. Credit expired.'')) v;
                    u = assign E prop_credit 0 u;
                    u = assign E prop_creditExpire 0 u
                in map_option snd (WriteConf E u)
           else Some v) = Some w"
    and s: "Run_sessions E (Run_passive E w) = Some u'"
    using assms(2) unfolding Run_body_def Let_def by (auto simp: bind_eq_Some_conv)
  have "user_inv F v" using v assms(1) WriteStat_inv [OF assms(1)] by (auto split: if_splits)
  then have "user_inv F w"
    using w by (auto simp: Let_def split: if_splits dest!: WriteConf_inv [rotated])
  then show ?thesis using s user_inv_eq Run_passive_inv by blast
qed

lemma Run_body_inv: "user_inv F u \<Longrightarrow> Run_body E u = Some (x, u') \<Longrightarrow> user_inv F u'"
  using Run_body_sessions keeps_invD [OF Run_sessions_inv] by blast

lemma Run_inv:
  assumes "user_inv F u" and "Run E u = Some (x, u')"
  shows "user_inv F u'"
  using assms(2) unfolding Run_def
  by (rule with_lock_keeps [OF _ assms(1), rotated]) (rule Run_body_inv)

lemma script_for_login_inv [simp]: "user_inv F (script_for_login E n u) = user_inv F u"
  by (simp add: script_for_login_def Let_def)

lemma OnDelete_inv:
  assumes "user_inv F u" and "OnDelete E u = Some (x, u')"
  shows "user_inv F u'"
  using assms(2) unfolding OnDelete_def
  by (rule with_lock_keeps [OF _ assms(1), rotated]) (auto intro: Run_inv [rotated])

text \<open>Traffic accounting.\<close>

lemma user_inv_counters:
  assumes "user_inv F u" and "traff_wf (us_monthUp s)" and "traff_wf (us_monthDown s)"
  shows "user_inv F (u\<lparr>u_stat := s\<rparr>)"
  using assms by (auto simp: user_inv_def sess_def counters_ok_def)

lemma charge_traff_inv [simp]: "user_inv F (charge_traff E dc u) = user_inv F u"
  by (simp add: charge_traff_def user_inv_stat)

lemma charge_traff_fields [simp]:
  "up_traff (charge_traff E dc u) = up_traff u" "down_traff (charge_traff E dc u) = down_traff u"
  "u_sessionUpload (charge_traff E dc u) = u_sessionUpload u"
  "u_sessionDownload (charge_traff E dc u) = u_sessionDownload u"
  "u_traffStat (charge_traff E dc u) = u_traffStat u"
  by (simp_all add: charge_traff_def ModifyTime_def)

lemma AddTraffStat_inv:
  assumes "user_inv F u"
  shows "user_inv F (AddTraffStatU_body E dir ip len u)" "user_inv F (AddTraffStatD_body E dir ip len u)"
proof -
  have wf: "traff_wf (up_traff u)" "traff_wf (down_traff u)"
    using assms by (simp_all add: user_inv_def counters_ok_def)
  have s: "user_inv F (v\<lparr>u_sessionUpload := (u_sessionUpload v)[dir := x], u_sessionUploadModTime := t,
      u_traffStat := traff_stat_upd k n f (u_traffStat v)\<rparr>)"
    "user_inv F (v\<lparr>u_sessionDownload := (u_sessionDownload v)[dir := x], u_sessionDownloadModTime := t,
      u_traffStat := traff_stat_upd k n f (u_traffStat v)\<rparr>)"
    if "user_inv F v" for v x t k n f
    using that by (auto simp: user_inv_def sess_def counters_ok_def)
  show "user_inv F (AddTraffStatU_body E dir ip len u)"
    unfolding AddTraffStatU_body_def Let_def
    using assms wf by (auto intro!: s assign_up_inv split: option.split)
  show "user_inv F (AddTraffStatD_body E dir ip len u)"
    unfolding AddTraffStatD_body_def Let_def
    using assms wf by (auto intro!: s assign_up_inv split: option.split)
qed

subsection \<open>Statistics, fees and reading\<close>

lemma WriteDetailStat_saved_inv:
  assumes "user_inv F u" and "WriteDetailStat_saved E u = (b, v)"
  shows "user_inv F v"
proof -
  have s: "user_inv F (w\<lparr>u_traffStatSaved := (t, [])\<rparr>)" if "user_inv F w" for w t
    using that by (auto simp: user_inv_def sess_def counters_ok_def traff_stat_wf_def)
  show ?thesis
    using assms unfolding WriteDetailStat_saved_def Let_def case_prod_unfold
    by (auto intro: s split: if_splits)
qed

lemma WriteDetailStat_inv:
  assumes "user_inv F u" and "WriteDetailStat E hard u = Some (x, u')"
  shows "user_inv F u'"
proof -
  obtain b v where bv: "WriteDetailStat_saved E u = (b, v)" by force
  have v: "user_inv F v" using WriteDetailStat_saved_inv [OF assms(1) bv] .
  show ?thesis
  proof (cases b)
    case False
    then show ?thesis using assms(2) bv v by (simp add: WriteDetailStat_def)
  next
    case True
    have emp: "user_inv F (w\<lparr>u_traffStat := []\<rparr>)" if "user_inv F w" for w
      using that by (auto simp: user_inv_def sess_def counters_ok_def traff_stat_wf_def)
    have sav: "user_inv F (w\<lparr>u_traffStatSaved := (t, ts)\<rparr>)"
      if "user_inv F w" "traff_stat_wf ts" for w t ts
      using that by (auto simp: user_inv_def sess_def counters_ok_def traff_stat_wf_def)
    obtain ts w where w: "with_lock E (\<lambda>u. Some (u_traffStat u, u\<lparr>u_traffStat := []\<rparr>)) v = Some (ts, w)"
      using assms(2) bv True by (auto simp: WriteDetailStat_def bind_eq_Some_conv)
    have w_inv: "user_inv F w"
      using w by (rule with_lock_keeps [OF _ v, rotated]) (use emp in auto)
    have ts: "traff_stat_wf ts"
      using w v by (auto simp: with_lock_def user_inv_def counters_ok_def split: if_splits)
    have lock: "user_inv F z" if "with_lock E (\<lambda>u. Some (- 1, u\<lparr>u_traffStatSaved :=
        (u_lastWriteDetailedStat u, ts)\<rparr>)) y = Some (x, z)" "user_inv F y" for y z
      using that(1) by (rule with_lock_keeps [OF _ that(2), rotated]) (use sav ts in auto)
    show ?thesis
      using assms(2) bv True w w_inv lock unfolding WriteDetailStat_def Let_def
      by (auto simp: case_prod_unfold split: if_splits)
  qed
qed

lemma keeps_inv_logged:
  "keeps_inv F (UserProperty_Set E p v) \<Longrightarrow>
   keeps_inv F (\<lambda>u. map_option snd (UserPropertyLogged_Set E p v adm msg u))"
  unfolding keeps_inv_def [of F "\<lambda>u. map_option snd (UserPropertyLogged_Set E p v adm msg u)"]
  by (auto intro: Logged_Set_inv)

lemma charge_fee_inv: "user_inv F u \<Longrightarrow> charge_fee E fee u = Some u' \<Longrightarrow> user_inv F u'"
  using keeps_invD [OF keeps_inv_logged [OF keeps_inv_cash]] unfolding charge_fee_def by blast

lemma SetPrepaidTraff_inv: "user_inv F u \<Longrightarrow> SetPrepaidTraff E u = Some u' \<Longrightarrow> user_inv F u'"
  using keeps_invD [OF keeps_inv_logged [OF keeps_inv_plain(4)]] unfolding SetPrepaidTraff_def
  by (cases "tariff_of E u") auto

lemma ResetPassiveTime_inv [simp]: "user_inv F (ResetPassiveTime E u) = user_inv F u"
  by (simp add: ResetPassiveTime_def)

lemma ProcessDayFeeSpread_inv: "keeps_inv F (ProcessDayFeeSpread_body E)"
  unfolding keeps_inv_def
proof (intro allI impI)
  fix u u' assume i: "user_inv F u" and p: "ProcessDayFeeSpread_body E u = Some u'"
  have "u' = u \<or> u' = ResetPassiveTime E u
    \<or> (\<exists>fee z. charge_fee E fee u = Some z \<and> u' = ResetPassiveTime E z)"
    using p unfolding ProcessDayFeeSpread_body_def Let_def by (auto split: option.splits if_splits)
  then show "user_inv F u'" using i charge_fee_inv [OF i] by auto
qed

lemma ProcessDailyFee_inv: "keeps_inv F (ProcessDailyFee_body E)"
  unfolding keeps_inv_def
proof (intro allI impI)
  fix u u' assume i: "user_inv F u" and p: "ProcessDailyFee_body E u = Some u'"
  have "u' = u \<or> u' = ResetPassiveTime E u
    \<or> (\<exists>fee z. charge_fee E fee u = Some z \<and> u' = ResetPassiveTime E z)"
    using p unfolding ProcessDailyFee_body_def Let_def by (auto split: option.splits if_splits)
  then show "user_inv F u'" using i charge_fee_inv [OF i] by auto
qed

lemma ProcessDayFee_inv: "keeps_inv F (ProcessDayFee_body E)"
  unfolding keeps_inv_def
proof (intro allI impI)
  fix u u' assume i: "user_inv F u" and p: "ProcessDayFee_body E u = Some u'"
  let ?r = "ResetPassiveTime E u"
  have "u' = u \<or> u' = ?r \<or> SetPrepaidTraff E ?r = Some u'
    \<or> (\<exists>fee y. charge_fee E fee ?r = Some y \<and> SetPrepaidTraff E y = Some u')"
    using p unfolding ProcessDayFee_body_def Let_def
    by (auto simp: bind_eq_Some_conv split: option.splits if_splits)
  moreover have "user_inv F ?r" using i by simp
  ultimately show "user_inv F u'" using i SetPrepaidTraff_inv charge_fee_inv by blast
qed

lemma ProcessServices_loop_inv:
  "user_inv F u \<Longrightarrow> ProcessServices_loop E part ns u = Some u' \<Longrightarrow> user_inv F u'"
proof (induction ns arbitrary: u)
  case (Cons n ns)
  have "\<exists>v. (v = u \<or> (\<exists>fee y. charge_fee E fee u = Some y \<and> SetPrepaidTraff E y = Some v))
       \<and> ProcessServices_loop E part ns v = Some u'"
    using Cons.prems(2) unfolding ProcessServices_loop.simps Let_def
    by (cases "e_FindService E n")
      (auto simp: bind_eq_Some_conv split: bool.splits option.splits if_splits)
  then show ?case using Cons.IH Cons.prems(1) charge_fee_inv SetPrepaidTraff_inv by blast
qed simp

lemma ProcessServices_inv: "keeps_inv F (ProcessServices_body E)"
  unfolding keeps_inv_def ProcessServices_body_def
  using ProcessServices_loop_inv by (auto split: option.splits)

lemma change_to_next_tariff_inv:
  "e_FindTariff E = F \<Longrightarrow> keeps_inv F (change_to_next_tariff E)"
  unfolding keeps_inv_def change_to_next_tariff_def Let_def
  by (auto split: option.splits if_splits intro: Logged_Set_inv [OF keeps_inv_tariffName])

lemma ProcessNewMonth_inv:
  assumes "e_FindTariff E = F"
  shows "keeps_inv F (ProcessNewMonth_body E)"
  unfolding keeps_inv_def
proof (intro allI impI)
  fix u u' assume i: "user_inv F u" and p: "ProcessNewMonth_body E u = Some u'"
  define a where "a = (if u_connected u then Disconnect E True ''fake'' u else u)"
  obtain x b where b: "WriteMonthStat E a = Some (x, b)"
    using p by (auto simp: ProcessNewMonth_body_def Let_def bind_eq_Some_conv a_def)
  define c where "c = on_stat (\<lambda>s. s\<lparr>us_monthUp := DirTraff_reset (us_monthUp s),
                            us_monthDown := DirTraff_reset (us_monthDown s)\<rparr>) b"
  define d where "d = (if u_connected c then Connect E True c else c)"
  have "user_inv F b" using WriteMonthStat_inv [OF _ b] i by (simp add: a_def)
  then have "user_inv F c" unfolding c_def
    by (intro user_inv_counters) (simp_all add: user_inv_def counters_ok_def)
  then have d: "user_inv F d" using Connect_inv [of F c True] by (simp add: d_def)
  have "(if uc_nextTariff (u_conf d) \<noteq> [] then do {
        u \<leftarrow> change_to_next_tariff E d;
        let u = assign E prop_nextTariff [] u;
        map_option snd (WriteConf E u)
      } else Some d) = Some u'"
    using p b unfolding ProcessNewMonth_body_def Let_def a_def [symmetric] c_def d_def by simp
  then show "user_inv F u'"
    using d keeps_invD [OF change_to_next_tariff_inv [OF assms] d]
    by (auto simp: bind_eq_Some_conv Let_def split: if_splits intro: WriteConf_inv [rotated])
qed

lemma read_messages_core: "user_inv F (read_messages E hdrs u) = user_inv F u"
  unfolding read_messages_def
  by (induction hdrs arbitrary: u) (auto split: prod.splits)

lemma ReadConf_inv:
  assumes "user_inv (e_FindTariff E) u" and "ReadConf E u = Some (x, u')"
  shows "user_inv (e_FindTariff E) u'"
proof -
  have c: "user_inv F (u\<lparr>u_conf := c, u_tariff := t\<rparr>)"
    if "user_inv F u" "F (uc_tariffName c) = t" for F u c t
    using that by (auto simp: user_inv_def sess_def counters_ok_def)
  show ?thesis
    using assms(2) unfolding ReadConf_def Let_def
    by (rule with_lock_keeps [OF _ assms(1), rotated])
      (auto intro: c simp: read_messages_core split: prod.splits if_splits)
qed

lemma ReadStat_inv:
  assumes "user_inv F u" and "ReadStat E u = Some (x, u')"
    and "\<And>l. traff_wf (us_monthUp (snd (e_RestoreUserStat E l)))"
    and "\<And>l. traff_wf (us_monthDown (snd (e_RestoreUserStat E l)))"
  shows "user_inv F u'"
  using assms(2) unfolding ReadStat_def
  by (rule with_lock_keeps [OF _ assms(1), rotated])
    (use assms(3,4) in \<open>auto intro!: user_inv_counters simp: case_prod_unfold split: if_splits\<close>)

lemma store_message_inv: "store_message E w m u = (x, v) \<Longrightarrow> user_inv F v = user_inv F u"
  unfolding store_message_def Let_def case_prod_unfold by (auto split: if_splits)

lemma AddMessage_inv:
  assumes "user_inv F u" and "AddMessage E m u = Some (x, u')"
  shows "user_inv F u'"
  using assms(2) unfolding AddMessage_def Let_def
  by (rule with_lock_keeps [OF _ assms(1), rotated])
    (auto simp: store_message_inv user_inv_eq [OF SendMessage_core] split: prod.splits if_splits)

subsection \<open>All operations\<close>

text \<open>
  One step of a user's life: any operation, by any caller, in any environment that resolves tariff
  names by \<open>F\<close>. Values of type \<open>DirTraff\<close> have \<open>DIR_NUM\<close> entries by their type.
\<close>

inductive user_step :: "(string \<Rightarrow> nat option) \<Rightarrow> user \<Rightarrow> user \<Rightarrow> bool" for F where
  step_authorize: "Authorize E ip dirs a u = Some (x, u') \<Longrightarrow> user_step F u u'"
| step_unauthorize: "Unauthorize E a r u = Some (y, u') \<Longrightarrow> user_step F u u'"
| step_run: "Run E u = Some (y, u') \<Longrightarrow> user_step F u u'"
| step_traff_up: "AddTraffStatU E dir ip len u = Some (y, u') \<Longrightarrow> user_step F u u'"
| step_traff_down: "AddTraffStatD E dir ip len u = Some (y, u') \<Longrightarrow> user_step F u u'"
| step_message: "AddMessage E m u = Some (x, u') \<Longrightarrow> user_step F u u'"
| step_ping: "UpdatePingTime E t u = Some (y, u') \<Longrightarrow> user_step F u u'"
| step_midnight: "MidnightResetSessionStat E u = Some (y, u') \<Longrightarrow> user_step F u u'"
| step_month: "ProcessNewMonth E u = Some (y, u') \<Longrightarrow> e_FindTariff E = F \<Longrightarrow> user_step F u u'"
| step_day_fee: "ProcessDayFee E u = Some (y, u') \<Longrightarrow> user_step F u u'"
| step_day_fee_spread: "ProcessDayFeeSpread E u = Some (y, u') \<Longrightarrow> user_step F u u'"
| step_daily_fee: "ProcessDailyFee E u = Some (y, u') \<Longrightarrow> user_step F u u'"
| step_services: "ProcessServices E u = Some (y, u') \<Longrightarrow> user_step F u u'"
| step_passive_time: "SetPassiveTimeAsNewUser E u = Some (y, u') \<Longrightarrow> user_step F u u'"
| step_detail: "WriteDetailStat E hard u = Some (x, u') \<Longrightarrow> user_step F u u'"
| step_write_conf: "WriteConf E u = Some (x, u') \<Longrightarrow> user_step F u u'"
| step_write_stat: "WriteStat E u = Some (x, u') \<Longrightarrow> user_step F u u'"
| step_read_conf: "ReadConf E u = Some (x, u') \<Longrightarrow> e_FindTariff E = F \<Longrightarrow> user_step F u u'"
| step_read_stat: "ReadStat E u = Some (x, u') \<Longrightarrow>
    (\<And>l. traff_wf (us_monthUp (snd (e_RestoreUserStat E l)))
         \<and> traff_wf (us_monthDown (snd (e_RestoreUserStat E l)))) \<Longrightarrow> user_step F u u'"
| step_on_add: "OnAdd E u = Some (y, u') \<Longrightarrow> user_step F u u'"
| step_on_delete: "OnDelete E u = Some (y, u') \<Longrightarrow> user_step F u u'"
| step_set_deleted: "user_step F u (u\<lparr>u_deleted := True\<rparr>)"
| step_set_login: "SetLogin E g l u = Some (x, u') \<Longrightarrow> user_step F u u'"
| step_copy: "user_step F u (UserImpl_copy E ds u)"
| step_cash: "UserPropertyLogged_Set E (prop_cash E) d adm msg u = Some (b, u') \<Longrightarrow> user_step F u u'"
| step_freeMb: "UserPropertyLogged_Set E prop_freeMb d adm msg u = Some (b, u') \<Longrightarrow> user_step F u u'"
| step_up: "UserPropertyLogged_Set E prop_up ts adm msg u = Some (b, u') \<Longrightarrow> traff_wf ts \<Longrightarrow>
    user_step F u u'"
| step_down: "UserPropertyLogged_Set E prop_down ts adm msg u = Some (b, u') \<Longrightarrow> traff_wf ts \<Longrightarrow>
    user_step F u u'"
| step_passive: "UserPropertyLogged_Set E (prop_passive E) i adm msg u = Some (b, u') \<Longrightarrow> user_step F u u'"
| step_disabled: "UserPropertyLogged_Set E (prop_disabled E) i adm msg u = Some (b, u') \<Longrightarrow> user_step F u u'"
| step_tariff: "UserPropertyLogged_Set E (prop_tariffName E) st adm msg u = Some (b, u') \<Longrightarrow>
    e_FindTariff E = F \<Longrightarrow> user_step F u u'"
| step_ips: "UserPropertyLogged_Set E (prop_ips E) ips adm msg u = Some (b, u') \<Longrightarrow> user_step F u u'"
| step_password: "UserPropertyLogged_Set E prop_password st adm msg u = Some (b, u') \<Longrightarrow> user_step F u u'"
| step_next_tariff: "UserPropertyLogged_Set E prop_nextTariff st adm msg u = Some (b, u') \<Longrightarrow> user_step F u u'"
| step_credit: "UserPropertyLogged_Set E prop_credit d adm msg u = Some (b, u') \<Longrightarrow> user_step F u u'"
| step_credit_expire: "UserPropertyLogged_Set E prop_creditExpire t adm msg u = Some (b, u') \<Longrightarrow> user_step F u u'"

lemma locked_body_inv:
  assumes "keeps_inv F f" and "with_lock E (\<lambda>u. map_option (Pair ()) (f u)) u = Some (y, u')"
    and "user_inv F u"
  shows "user_inv F u'"
  using assms(2)
  by (rule with_lock_keeps [OF _ assms(3), rotated]) (auto dest: keeps_invD [OF assms(1)])

lemma locked_total_inv:
  assumes "\<And>u. user_inv F u \<Longrightarrow> user_inv F (f u)" and "with_lock E (\<lambda>u. Some (y, f u)) u = Some (x, u')"
    and "user_inv F u"
  shows "user_inv F u'"
  using assms(2)
  by (rule with_lock_keeps [OF _ assms(3), rotated]) (use assms(1) in auto)

lemma UserImpl_copy_inv: "user_inv F u \<Longrightarrow> user_inv F (UserImpl_copy E ds u)"
  by (simp add: UserImpl_copy_def user_inv_def sess_def counters_ok_def)

lemma user_step_inv: "user_step F u u' \<Longrightarrow> user_inv F u \<Longrightarrow> user_inv F u'"
proof (induction rule: user_step.induct)
  case (step_authorize E ip dirs a u x u')
  from step_authorize(1) show ?case unfolding Authorize_def
    by (rule with_lock_keeps [OF _ step_authorize(2), rotated]) (rule Authorize_body_inv)
next
  case (step_unauthorize E a r u y u')
  then show ?case unfolding Unauthorize_def using Unauthorize_body_inv by (blast intro: locked_total_inv)
next
  case (step_run E u y u')
  then show ?case using Run_inv by blast
next
  case (step_traff_up E dir ip len u y u')
  then show ?case unfolding AddTraffStatU_def using AddTraffStat_inv(1) by (blast intro: locked_total_inv)
next
  case (step_traff_down E dir ip len u y u')
  then show ?case unfolding AddTraffStatD_def using AddTraffStat_inv(2) by (blast intro: locked_total_inv)
next
  case (step_message E m u x u')
  then show ?case using AddMessage_inv by blast
next
  case (step_ping E t u y u')
  then show ?case unfolding UpdatePingTime_def by (elim locked_total_inv [rotated]) simp_all
next
  case (step_midnight E u y u')
  then show ?case unfolding MidnightResetSessionStat_def
    by (elim locked_total_inv [rotated]) (auto intro: Connect_inv)
next
  case (step_month E u y u')
  then show ?case unfolding ProcessNewMonth_def using ProcessNewMonth_inv locked_body_inv by blast
next
  case (step_day_fee E u y u')
  then show ?case unfolding ProcessDayFee_def using ProcessDayFee_inv locked_body_inv by blast
next
  case (step_day_fee_spread E u y u')
  then show ?case unfolding ProcessDayFeeSpread_def using ProcessDayFeeSpread_inv locked_body_inv by blast
next
  case (step_daily_fee E u y u')
  then show ?case unfolding ProcessDailyFee_def using ProcessDailyFee_inv locked_body_inv by blast
next
  case (step_services E u y u')
  then show ?case unfolding ProcessServices_def using ProcessServices_inv locked_body_inv by blast
next
  case (step_passive_time E u y u')
  then show ?case unfolding SetPassiveTimeAsNewUser_def by (elim locked_total_inv [rotated]) simp_all
next
  case (step_read_conf E u x u')
  then show ?case using ReadConf_inv by blast
next
  case (step_read_stat E u x u')
  then show ?case using ReadStat_inv by blast
next
  case (step_on_add E u y u')
  then show ?case unfolding OnAdd_def by (elim locked_total_inv [rotated]) simp_all
next
  case (step_set_login E g l u x u')
  have "user_inv F (v\<lparr>u_login := l, u_id := g\<rparr>) = user_inv F v" for v
    by (simp add: user_inv_def sess_def counters_ok_def)
  with step_set_login show ?case unfolding SetLogin_def
    by (elim with_lock_keeps [rotated 2]) (auto split: if_splits)
qed (auto intro: UserImpl_copy_inv OnDelete_inv WriteDetailStat_inv WriteConf_inv WriteStat_inv
    elim: Logged_Set_inv [OF keeps_inv_cash, rotated] Logged_Set_inv [OF keeps_inv_plain(4), rotated]
      Logged_Set_inv [OF keeps_inv_plain(9), rotated 2] Logged_Set_inv [OF keeps_inv_plain(10), rotated 2]
      Logged_Set_inv [OF keeps_inv_passive, rotated] Logged_Set_inv [OF keeps_inv_disabled, rotated]
      Logged_Set_inv [OF keeps_inv_tariffName, rotated 2] Logged_Set_inv [OF keeps_inv_ips, rotated]
      Logged_Set_inv [OF keeps_inv_plain(5), rotated] Logged_Set_inv [OF keeps_inv_plain(6), rotated]
      Logged_Set_inv [OF keeps_inv_plain(7), rotated] Logged_Set_inv [OF keeps_inv_plain(8), rotated])

lemma UserImpl_inv: "UserImpl E ds tr = Some u \<Longrightarrow> user_inv (e_FindTariff E) u"
  by (auto simp: UserImpl_def Let_def user_inv_def sess_def counters_ok_def traff_stat_wf_def
      UserStat_def split: if_splits)

subsection \<open>A sample user\<close>

text \<open>An environment and a freshly created user with some money, for evaluations: no scripts are
  installed, the store and the authorizers accept everything, there is the tariff \<open>noTariff\<close> only.\<close>

definition sample_settings :: settings where
  "sample_settings = \<lparr>s_scriptsDir = ''/scripts'', s_scriptParams = [], s_detailStatWritePeriod = 3,
     s_statWritePeriod = 10, s_fullFee = False, s_dayFee = 1, s_dayResetTraff = 1,
     s_spreadFee = False, s_freeMbAllowInet = False, s_dayFeeIsLastDay = False,
     s_stopOnError = True, s_writeFreeMbTraffCost = False, s_showFeeInCash = True,
     s_messageTimeout = 1, s_feeChargeType = 0, s_reconnectOnTariffChange = False,
     s_disableSessionLog = False, s_filterParamsLog = [''*'']\<rparr>"

definition sample_env :: env where
  "sample_env = \<lparr>e_set = sample_settings, e_stgTime = 1000000, e_time = 1000000, e_random = 7,
     e_localtime = (\<lambda>_. example_tm), e_inet_addr = (\<lambda>_. 0), e_store = good_store,
     e_FindTariff = (\<lambda>n. if n = NO_TARIFF_NAME then Some 0 else None),
     e_tariff = (\<lambda>_. noTariff), e_FindService = (\<lambda>_. (True, None)),
     e_executable = (\<lambda>_. False), e_sysAdmin = as_stg, e_relock_blocks = True,
     e_users_locked = False, e_ipIndex = Map.empty, e_auth_send = (\<lambda>_ _ _ _. 0),
     e_stored_message = (\<lambda>_ m. m), e_RestoreUserConf = (\<lambda>_. (0, UserConf)),
     e_RestoreUserStat = (\<lambda>_. (0, UserStat)), e_GetMessageHdrs = (\<lambda>_. (0, [])),
     e_GetMessage = (\<lambda>_ _. (- 1, \<lparr>msg_header = \<lparr>mh_id = 0, mh_ver = 1, mh_type = 1,
       mh_lastSendTime = 0, mh_creationTime = 0, mh_showTime = 0, mh_repeat = 0,
       mh_repeatPeriod = 0\<rparr>, msg_text = ''''\<rparr>))\<rparr>"

definition sample_user :: user where
  "sample_user = \<lparr>trace = [], u_locked = False, u_login = ''u'', u_id = 0,
     u_stat = UserStat\<lparr>us_cash := 10\<rparr>,
     u_conf = UserConf\<lparr>uc_tariffName := NO_TARIFF_NAME, uc_ips := [\<lparr>im_ip = 0, im_mask = 0\<rparr>]\<rparr>,
     u_mtime = (\<lambda>_. 0), u_connected = False, u_currIP = 0, u_enabledDirs = replicate DIR_NUM False,
     u_lastIPForDisconnect = 0, u_lastDisconnectReason = '''', u_pingTime = 0,
     u_lastScanMessages = 0, u_tariff = Some 0, u_traffStat = [], u_traffStatSaved = (0, []),
     u_authorizedBy = [], u_authorizedModificationTime = 0, u_messages = [], u_deleted = False,
     u_lastWriteStat = 1000000, u_lastWriteDetailedStat = 0, u_sessionUpload = DirTraff,
     u_sessionDownload = DirTraff, u_sessionUploadModTime = 0, u_sessionDownloadModTime = 0,
     u_errorStr = ''''\<rparr>"

lemma sample_user_inv: "user_inv (e_FindTariff sample_env) sample_user"
  by (simp add: user_inv_def sess_def counters_ok_def sample_user_def sample_env_def UserStat_def
      UserConf_def traff_stat_wf_def)

end
