(* ===== verification/Stg_Users.thy ===== *)
theory Stg_Users
  imports Stg_Session
begin

text \<open>
  The registry of users: \<open>projects/stargazer/users_impl.cpp\<close> and \<open>users_impl.h\<close>. Users live in a
  \<open>std::list\<close>; the indexes by login and address, the list of users to delete and the search
  descriptors hold iterators into it. An iterator is the identifier of its user, which is unique (the
  counter behind it is part of the state); an iterator whose user has left the list dangles, and using it
  has no defined outcome (\<open>None\<close>). \<open>None\<close> also stands for a failed assertion and for a mutex locked twice
  by its thread, as in \<open>Stg_User\<close>. All users share the trace of the registry.
\<close>

subsection \<open>State\<close>

record users = world +
  us_locked :: bool
  us_users :: "user list"
  us_usersToDelete :: "(int \<times> time_t) list"
  us_ipIndex :: "u32 \<rightharpoonup> int"
  us_loginIndex :: "string \<rightharpoonup> int"
  us_idGen :: int
  us_handle :: u32
  us_searchDescriptors :: "u32 \<rightharpoonup> int option"

definition UsersImpl :: "event list \<Rightarrow> users" where
  "UsersImpl tr = \<lparr>trace = tr, us_locked = False, us_users = [], us_usersToDelete = [],
     us_ipIndex = Map.empty, us_loginIndex = Map.empty, us_idGen = 0, us_handle = 0,
     us_searchDescriptors = Map.empty\<rparr>"

definition userDeleteDelayTime :: int where "userDeleteDelayTime = 120"

definition users_locked :: "env \<Rightarrow> (users \<Rightarrow> ('a \<times> users) option) \<Rightarrow> users \<Rightarrow> ('a \<times> users) option" where
  "users_locked E f s =
     (if us_locked s then (if e_relock_blocks E then None else f s)
      else map_option (\<lambda>(x, s). (x, s\<lparr>us_locked := False\<rparr>)) (f (s\<lparr>us_locked := True\<rparr>)))"

text \<open>What a user sees of the registry: its index of addresses and whether it is locked.\<close>

definition env_in :: "env \<Rightarrow> users \<Rightarrow> env" where
  "env_in E s = E\<lparr>e_users_locked := us_locked s, e_ipIndex := us_ipIndex s\<rparr>"

definition user_at :: "int \<Rightarrow> users \<Rightarrow> user option" where
  "user_at i s = find (\<lambda>u. u_id u = i) (us_users s)"

text \<open>A method call through an iterator.\<close>

definition on_user ::
    "env \<Rightarrow> (env \<Rightarrow> user \<Rightarrow> ('a \<times> user) option) \<Rightarrow> int \<Rightarrow> users \<Rightarrow> ('a \<times> users) option" where
  "on_user E f i s = do {
     u \<leftarrow> user_at i s;
     (x, u) \<leftarrow> f (env_in E s) (u\<lparr>trace := trace s\<rparr>);
     Some (x, s\<lparr>us_users := update_first (\<lambda>v. u_id v = i) (\<lambda>_. u\<lparr>trace := []\<rparr>) (us_users s),
               trace := trace u\<rparr>)
   }"

text \<open>\<open>std::for_each\<close> over the list.\<close>

fun each_user :: "env \<Rightarrow> (env \<Rightarrow> user \<Rightarrow> ('a \<times> user) option) \<Rightarrow> int list \<Rightarrow> users \<Rightarrow> users option" where
  "each_user E f [] s = Some s"
| "each_user E f (i # is) s = Option.bind (on_user E f i s) (\<lambda>(_, s). each_user E f is s)"

definition for_each :: "env \<Rightarrow> (env \<Rightarrow> user \<Rightarrow> ('a \<times> user) option) \<Rightarrow> users \<Rightarrow> users option" where
  "for_each E f s = each_user E f (map u_id (us_users s)) s"

subsection \<open>Lookup\<close>

definition FindByNameNonLock :: "string \<Rightarrow> users \<Rightarrow> int option" where
  "FindByNameNonLock login s = us_loginIndex s login"

definition Users_FindByName :: "env \<Rightarrow> string \<Rightarrow> users \<Rightarrow> ((int \<times> int option) \<times> users) option" where
  "Users_FindByName E login = users_locked E (\<lambda>s. Some (case FindByNameNonLock login s of
     None \<Rightarrow> ((- 1, None), s) | Some i \<Rightarrow> ((0, Some i), s)))"

definition Users_Exists :: "env \<Rightarrow> string \<Rightarrow> users \<Rightarrow> (bool \<times> users) option" where
  "Users_Exists E login = users_locked E (\<lambda>s. Some (us_loginIndex s login \<noteq> None, s))"

definition TariffInUse :: "env \<Rightarrow> string \<Rightarrow> users \<Rightarrow> (bool \<times> users) option" where
  "TariffInUse E name = users_locked E (\<lambda>s.
     Some (list_ex (\<lambda>u. uc_tariffName (u_conf u) = name) (us_users s), s))"

definition FindByIPIdx :: "env \<Rightarrow> u32 \<Rightarrow> users \<Rightarrow> ((int \<times> int option) \<times> users) option" where
  "FindByIPIdx E ip = users_locked E (\<lambda>s. Some (case us_ipIndex s ip of
     None \<Rightarrow> ((- 1, None), s) | Some i \<Rightarrow> ((0, Some i), s)))"

definition IsIPInIndex :: "env \<Rightarrow> u32 \<Rightarrow> users \<Rightarrow> (bool \<times> users) option" where
  "IsIPInIndex E ip = users_locked E (\<lambda>s. Some (us_ipIndex s ip \<noteq> None, s))"

definition IsIPInUse :: "env \<Rightarrow> u32 \<Rightarrow> string \<Rightarrow> users \<Rightarrow> (int option \<times> users) option" where
  "IsIPInUse E ip login = users_locked E (\<lambda>s. Some (map_option u_id
     (find (\<lambda>u. u_login u \<noteq> login \<and> \<not> UserIPs_isAnyIP (uc_ips (u_conf u))
              \<and> UserIPs_find (uc_ips (u_conf u)) ip) (us_users s)), s))"

subsection \<open>Indexes\<close>

text \<open>\<open>std::map::insert\<close> keeps an entry that is already there.\<close>

definition AddUserIntoIndexes :: "env \<Rightarrow> string \<Rightarrow> int \<Rightarrow> users \<Rightarrow> (unit \<times> users) option" where
  "AddUserIntoIndexes E login i = users_locked E (\<lambda>s. Some ((),
     if us_loginIndex s login = None then s\<lparr>us_loginIndex := (us_loginIndex s)(login \<mapsto> i)\<rparr> else s))"

definition DelUserFromIndexes :: "env \<Rightarrow> string \<Rightarrow> users \<Rightarrow> (unit \<times> users) option" where
  "DelUserFromIndexes E login = users_locked E (\<lambda>s. Some ((),
     s\<lparr>us_loginIndex := (us_loginIndex s)(login := None)\<rparr>))"

definition AddToIPIdx :: "env \<Rightarrow> int \<Rightarrow> users \<Rightarrow> (unit \<times> users) option" where
  "AddToIPIdx E i s = do {
     u \<leftarrow> user_at i s;
     (if u_currIP u = 0 then Some ((), s)
      else users_locked E (\<lambda>s. if us_ipIndex s (u_currIP u) \<noteq> None then None
             else Some ((), s\<lparr>us_ipIndex := (us_ipIndex s)(u_currIP u \<mapsto> i)\<rparr>)) s)
   }"

definition DelFromIPIdx :: "env \<Rightarrow> u32 \<Rightarrow> users \<Rightarrow> (unit \<times> users) option" where
  "DelFromIPIdx E ip s =
     (if ip = 0 then None
      else users_locked E (\<lambda>s. Some ((), s\<lparr>us_ipIndex := (us_ipIndex s)(ip := None)\<rparr>)) s)"

subsection \<open>Adding and deleting\<close>

text \<open>A user made on the stack: construction and the login. \<open>ds\<close> are the uninitialised flags of the
  enabled directions.\<close>

definition new_user :: "env \<Rightarrow> bool list \<Rightarrow> string \<Rightarrow> users \<Rightarrow> (user \<times> users) option" where
  "new_user E ds login s = do {
     u \<leftarrow> UserImpl (env_in E s) ds (trace s);
     (g, u) \<leftarrow> SetLogin (env_in E s) (us_idGen s) login u;
     Some (u, s\<lparr>us_idGen := g\<rparr>)
   }"

definition push_front :: "env \<Rightarrow> bool list \<Rightarrow> user \<Rightarrow> users \<Rightarrow> users" where
  "push_front E ds u s =
     s\<lparr>us_users := (UserImpl_copy E ds u)\<lparr>trace := []\<rparr> # us_users s, trace := trace u\<rparr>"

definition Users_Add_body :: "env \<Rightarrow> bool list \<Rightarrow> admin \<Rightarrow> string \<Rightarrow> users \<Rightarrow> (int \<times> users) option" where
  "Users_Add_body E ds adm login s =
     (if p_userAddDel (Admin_priv adm) = 0
      then Some (- 1, emit (Log (Admin_logStr adm @ '' tried to add user '' @ squote login
                       @ ''. Access denied.'')) s)
      else let (rc, s) = call (e_store E) (S_AddUser login) s
      in if rc \<noteq> 0 then Some (- 1, s)
      else do {
        (u, s) \<leftarrow> new_user E ds login s;
        (_, u) \<leftarrow> SetPassiveTimeAsNewUser (env_in E s) u;
        (_, u) \<leftarrow> WriteConf (env_in E s) u;
        (_, u) \<leftarrow> WriteStat (env_in E s) u;
        let u = emit (Log (Admin_logStr adm @ '' User '' @ squote login @ '' added.'')) u;
        (_, u) \<leftarrow> OnAdd (env_in E s) u;
        let s = push_front E ds u s;
        (_, s) \<leftarrow> AddUserIntoIndexes E login (u_id u) s;
        Some (0, emit (UserImplAdded (u_id u)) (emit (UserAdded (u_id u)) s))
      })"

definition Users_Add :: "env \<Rightarrow> bool list \<Rightarrow> admin \<Rightarrow> string \<Rightarrow> users \<Rightarrow> (int \<times> users) option" where
  "Users_Add E ds adm login = users_locked E (Users_Add_body E ds adm login)"

text \<open>\<open>Del\<close> releases the mutex while it notifies the observers.\<close>

definition Users_Del_mark :: "env \<Rightarrow> admin \<Rightarrow> string \<Rightarrow> users \<Rightarrow> (int option \<times> users) option" where
  "Users_Del_mark E adm login = users_locked E (\<lambda>s. case FindByNameNonLock login s of
     None \<Rightarrow> Some (None, emit (Log (Admin_logStr adm @ '' tried to delete user '' @ squote login
                      @ '': not found.'')) s)
   | Some i \<Rightarrow> map_option (\<lambda>(_, s). (Some i, s))
       (on_user E (\<lambda>_ u. Some ((), u\<lparr>u_deleted := True\<rparr>)) i s))"

definition Users_Del_finish_body :: "env \<Rightarrow> admin \<Rightarrow> string \<Rightarrow> int \<Rightarrow> users \<Rightarrow> (unit \<times> users) option" where
  "Users_Del_finish_body E adm login i s = do {
     (_, s) \<leftarrow> on_user E OnDelete i s;
     let s = s\<lparr>us_usersToDelete := us_usersToDelete s @ [(i, e_stgTime E)]\<rparr>;
     u \<leftarrow> user_at i s;
     (_, s) \<leftarrow> DelUserFromIndexes E (u_login u) s;
     Some ((), emit (Log (Admin_logStr adm @ '' User '' @ squote login @ '' deleted.'')) s)
   }"

definition Users_Del_finish :: "env \<Rightarrow> admin \<Rightarrow> string \<Rightarrow> int \<Rightarrow> users \<Rightarrow> (unit \<times> users) option" where
  "Users_Del_finish E adm login i = users_locked E (Users_Del_finish_body E adm login i)"

definition Users_Del :: "env \<Rightarrow> admin \<Rightarrow> string \<Rightarrow> users \<Rightarrow> (unit \<times> users) option" where
  "Users_Del E adm login s =
     (if p_userAddDel (Admin_priv adm) = 0
      then Some ((), emit (Log (Admin_logStr adm @ '' tried to remove user '' @ squote login
                       @ ''. Access denied.'')) s)
      else do {
        (r, s) \<leftarrow> Users_Del_mark E adm login s;
        (case r of
           None \<Rightarrow> Some ((), s)
         | Some i \<Rightarrow> Users_Del_finish E adm login i
             (emit (UserImplDeleted i) (emit (UserDeleted i) s)))
      })"

text \<open>Users leave the list when their time has come.\<close>

fun RealDelUser_loop :: "env \<Rightarrow> (int \<times> time_t) list \<Rightarrow> users \<Rightarrow> ((int \<times> time_t) list \<times> users) option" where
  "RealDelUser_loop E [] s = Some ([], s)"
| "RealDelUser_loop E ((i, t) # ds) s = do {
     u \<leftarrow> user_at i s;
     (if t + userDeleteDelayTime < e_stgTime E
      then let (rc, s) = call (e_store E) (S_DelUser (u_login u)) s;
               s = (if rc \<noteq> 0
                    then emit (Log (''Error removing user '' @ squote (u_login u) @ '' from database.'')) s
                    else s)
           in RealDelUser_loop E ds (s\<lparr>us_users := remove_first (\<lambda>v. u_id v = i) (us_users s)\<rparr>)
      else map_option (\<lambda>(ds, s). ((i, t) # ds, s)) (RealDelUser_loop E ds s))
   }"

definition RealDelUser :: "env \<Rightarrow> users \<Rightarrow> (unit \<times> users) option" where
  "RealDelUser E = users_locked E (\<lambda>s. map_option (\<lambda>(ds, s). ((), s\<lparr>us_usersToDelete := ds\<rparr>))
     (RealDelUser_loop E (us_usersToDelete s) s))"

subsection \<open>Authorization\<close>

definition Users_Authorize_body ::
    "env \<Rightarrow> string \<Rightarrow> u32 \<Rightarrow> u32 \<Rightarrow> nat \<Rightarrow> users \<Rightarrow> (bool \<times> users) option" where
  "Users_Authorize_body E login ip dirs auth s = (case FindByNameNonLock login s of
     None \<Rightarrow> Some (False, emit (Log (''Attempt to authorize non-existant user '' @ squote login)) s)
   | Some i \<Rightarrow> (case us_ipIndex s ip of
       Some j \<Rightarrow> do {
         u \<leftarrow> user_at j s;
         (if u_login u \<noteq> login
          then Some (False, emit (Log (''Attempt to authorize user '' @ squote login @ '' from ip ''
                 @ inet_ntostring ip @ '' which already occupied by '' @ squote (u_login u))) s)
          else map_option (\<lambda>(rc, s). (rc = 0, s)) (on_user E (\<lambda>E. Authorize E ip dirs auth) j s))
       }
     | None \<Rightarrow> do {
         (rc, s) \<leftarrow> on_user E (\<lambda>E. Authorize E ip dirs auth) i s;
         (if rc \<noteq> 0 then Some (False, s)
          else map_option (\<lambda>(_, s). (True, s)) (AddToIPIdx E i s))
       }))"

definition Users_Authorize ::
    "env \<Rightarrow> string \<Rightarrow> u32 \<Rightarrow> u32 \<Rightarrow> nat \<Rightarrow> users \<Rightarrow> (bool \<times> users) option" where
  "Users_Authorize E login ip dirs auth = users_locked E (Users_Authorize_body E login ip dirs auth)"

definition Users_Unauthorize_body ::
    "env \<Rightarrow> string \<Rightarrow> nat \<Rightarrow> string \<Rightarrow> users \<Rightarrow> (bool \<times> users) option" where
  "Users_Unauthorize_body E login auth reason s = (case FindByNameNonLock login s of
     None \<Rightarrow> Some (False, emit (Log (''Attempt to unauthorize non-existant user '' @ squote login)) s)
   | Some i \<Rightarrow> do {
       u \<leftarrow> user_at i s;
       (_, s) \<leftarrow> on_user E (\<lambda>E. Unauthorize E auth reason) i s;
       v \<leftarrow> user_at i s;
       (if u_authorizedBy v = []
        then map_option (\<lambda>(_, s). (True, s)) (DelFromIPIdx E (u_currIP u) s)
        else Some (True, s))
     })"

definition Users_Unauthorize ::
    "env \<Rightarrow> string \<Rightarrow> nat \<Rightarrow> string \<Rightarrow> users \<Rightarrow> (bool \<times> users) option" where
  "Users_Unauthorize E login auth reason = users_locked E (Users_Unauthorize_body E login auth reason)"

subsection \<open>Searching\<close>

definition node_at :: "user list \<Rightarrow> int option" where
  "node_at us = (case us of [] \<Rightarrow> None | u # _ \<Rightarrow> Some (u_id u))"

definition Users_OpenSearch :: "env \<Rightarrow> users \<Rightarrow> (int \<times> users) option" where
  "Users_OpenSearch E = users_locked E (\<lambda>s.
     let h = us_handle s + 1
     in Some (uint h, s\<lparr>us_handle := h,
          us_searchDescriptors := (us_searchDescriptors s)(h \<mapsto> node_at (us_users s))\<rparr>))"

definition Users_SearchNext_body :: "int \<Rightarrow> users \<Rightarrow> ((int \<times> user option) \<times> users) option" where
  "Users_SearchNext_body h s =
     (let k = (word_of_int h :: u32) in case us_searchDescriptors s k of
       None \<Rightarrow> Some ((- 1, None), emit (Log ''USERS. Incorrect search handle.'') s)
     | Some None \<Rightarrow> Some ((- 1, None), s)
     | Some (Some i) \<Rightarrow>
         if user_at i s = None then None
         else case dropWhile u_deleted (dropWhile (\<lambda>u. u_id u \<noteq> i) (us_users s)) of
           [] \<Rightarrow> Some ((- 1, None), s\<lparr>us_searchDescriptors := (us_searchDescriptors s)(k \<mapsto> None)\<rparr>)
         | u # us \<Rightarrow> Some ((0, Some u),
             s\<lparr>us_searchDescriptors := (us_searchDescriptors s)(k \<mapsto> node_at us)\<rparr>))"

definition Users_SearchNext :: "env \<Rightarrow> int \<Rightarrow> users \<Rightarrow> ((int \<times> user option) \<times> users) option" where
  "Users_SearchNext E h = users_locked E (Users_SearchNext_body h)"

definition Users_CloseSearch :: "env \<Rightarrow> int \<Rightarrow> users \<Rightarrow> (int \<times> users) option" where
  "Users_CloseSearch E h = users_locked E (\<lambda>s.
     let k = (word_of_int h :: u32) in Some (
       if us_searchDescriptors s k \<noteq> None
       then (0, s\<lparr>us_searchDescriptors := (us_searchDescriptors s)(k := None)\<rparr>)
       else (- 1, emit (Log ''USERS. Incorrect search handle.'') s)))"

subsection \<open>Reading users at the start\<close>

fun ReadUsers_loop :: "env \<Rightarrow> bool list \<Rightarrow> string list \<Rightarrow> nat \<Rightarrow> users \<Rightarrow> (int \<times> users) option" where
  "ReadUsers_loop E ds [] errors s = Some (if errors > 0 then - 1 else 0, s)"
| "ReadUsers_loop E ds (l # ls) errors s = do {
     (u, s) \<leftarrow> new_user E ds l s;
     let s = push_front E ds u s;
     let i = u_id u;
     (_, s) \<leftarrow> AddUserIntoIndexes E l i s;
     (rc, s) \<leftarrow> on_user E ReadConf i s;
     (if s_stopOnError (e_set E) \<and> rc < 0 then Some (- 1, s)
      else do {
        (rc', s) \<leftarrow> on_user E ReadStat i s;
        (if s_stopOnError (e_set E)
         then (if rc' < 0 then Some (- 1, s) else ReadUsers_loop E ds ls errors s)
         else ReadUsers_loop E ds ls (errors + (if rc < 0 then 1 else 0) + (if rc' < 0 then 1 else 0)) s)
      })
   }"

definition ReadUsers :: "env \<Rightarrow> bool list \<Rightarrow> int \<times> string list \<Rightarrow> users \<Rightarrow> (int \<times> users) option" where
  "ReadUsers E ds lst s =
     (if fst lst < 0 then Some (- 1, emit (LogFmt (strError_of (e_store E) s)) s)
      else ReadUsers_loop E ds (snd lst) 0 s)"

subsection \<open>The main loop\<close>

definition TimeToWriteDetailStat :: "env \<Rightarrow> tm \<Rightarrow> bool" where
  "TimeToWriteDetailStat E t =
     (let p = s_detailStatWritePeriod (e_set E) in
      if p = 0 then tm_min t = 0
      else if p = 1 then tm_min t smod 30 = 0
      else if p = 2 then tm_min t smod 15 = 0
      else if p = 3 then tm_min t smod 10 = 0
      else False)"

fun write_detail_stats :: "env \<Rightarrow> int list \<Rightarrow> nat \<Rightarrow> users \<Rightarrow> users option" where
  "write_detail_stats E [] n s = Some s"
| "write_detail_stats E (i # is) n s = do {
     (_, s) \<leftarrow> on_user E (\<lambda>E. WriteDetailStat E False) i s;
     s \<leftarrow> (if Suc n mod 10 = 0 then for_each E Run s else Some s);
     write_detail_stats E is (Suc n) s
   }"

definition NewMinute :: "env \<Rightarrow> tm \<Rightarrow> users \<Rightarrow> users option" where
  "NewMinute E t s = do {
     s \<leftarrow> (if tm_hour t = 23 \<and> tm_min t = 59 then for_each E MidnightResetSessionStat s else Some s);
     s \<leftarrow> (if TimeToWriteDetailStat E t then write_detail_stats E (map u_id (us_users s)) 0 s else Some s);
     map_option snd (RealDelUser E s)
   }"

definition DayResetTraff :: "env \<Rightarrow> tm \<Rightarrow> users \<Rightarrow> users option" where
  "DayResetTraff E t1 s =
     (let d = s_dayResetTraff (e_set E);
          d = (if d = 0 then word_of_int (DaysInCurrentMonth (e_localtime E) (e_time E)) else d)
      in if word_of_int (tm_mday t1) = d then for_each E ProcessNewMonth s else Some s)"

definition NewDay :: "env \<Rightarrow> tm \<Rightarrow> users \<Rightarrow> users option" where
  "NewDay E t s =
     (let t1 = e_localtime E (e_stgTime E);
          dayFee = sint (s_dayFee (e_set E));
          dayFee = (if dayFee = 0 then DaysInCurrentMonth (e_localtime E) (e_time E) else dayFee)
      in do {
        s \<leftarrow> (if \<not> s_dayFeeIsLastDay (e_set E) then DayResetTraff E t1 s else Some s);
        s \<leftarrow> (if s_spreadFee (e_set E) then for_each E ProcessDayFeeSpread s
             else if tm_mday t = dayFee then for_each E ProcessDayFee s else Some s);
        s \<leftarrow> for_each E ProcessDailyFee s;
        s \<leftarrow> for_each E ProcessServices s;
        (if s_dayFeeIsLastDay (e_set E) then DayResetTraff E t1 s else Some s)
      })"

text \<open>One turn of the loop in \<open>Run\<close>; the minute and the day of the previous turn are its local
  variables.\<close>

definition Users_Run_turn :: "env \<Rightarrow> int \<times> int \<Rightarrow> users \<Rightarrow> ((int \<times> int) \<times> users) option" where
  "Users_Run_turn E md s = do {
     s \<leftarrow> for_each E Run s;
     let t = e_localtime E (e_stgTime E);
     s \<leftarrow> (if fst md \<noteq> tm_min t then NewMinute E t s else Some s);
     s \<leftarrow> (if snd md \<noteq> tm_mday t then NewDay E t s else Some s);
     Some ((tm_min t, tm_mday t), s)
   }"

text \<open>What \<open>Run\<close> does when it is asked to stop, and \<open>Stop\<close> after that.\<close>

definition Users_Run_end :: "env \<Rightarrow> users \<Rightarrow> users option" where
  "Users_Run_end E s = map_option snd (RealDelUser E
     (s\<lparr>us_usersToDelete := map (\<lambda>(i, t). (i, t - 2 * userDeleteDelayTime)) (us_usersToDelete s)\<rparr>))"

definition Users_Stop :: "env \<Rightarrow> users \<Rightarrow> users option" where
  "Users_Stop E s = do {
     s \<leftarrow> for_each E Run s;
     s \<leftarrow> for_each E (\<lambda>E. WriteDetailStat E True) s;
     for_each E WriteStat s
   }"

end
