(* ===== verification/Stg_Frame.thy ===== *)
theory Stg_Frame
  imports Stg_Session
begin

text \<open>
  What the operations of a user do not touch. \<open>frame u v\<close> says that \<open>v\<close> is the same user as \<open>u\<close>: same
  identifier, login, address, authorizers and deletion mark. Everything but \<open>SetLogin\<close>, \<open>SetDeleted\<close>,
  \<open>Authorize\<close> and \<open>Unauthorize\<close> keeps it, which is what the registry of users relies on for its indexes.
\<close>

definition frame :: "user \<Rightarrow> user \<Rightarrow> bool" where
  "frame u v \<longleftrightarrow> u_id v = u_id u \<and> u_login v = u_login u \<and> u_currIP v = u_currIP u
     \<and> u_authorizedBy v = u_authorizedBy u \<and> u_deleted v = u_deleted u"

definition framed :: "(user \<Rightarrow> user option) \<Rightarrow> bool" where
  "framed f \<longleftrightarrow> (\<forall>u v. f u = Some v \<longrightarrow> frame u v)"

definition framed_call :: "(user \<Rightarrow> ('a \<times> user) option) \<Rightarrow> bool" where
  "framed_call f \<longleftrightarrow> (\<forall>u x v. f u = Some (x, v) \<longrightarrow> frame u v)"

lemma frame_refl [simp]: "frame u u"
  by (simp add: frame_def)

lemma frame_trans: "frame u v \<Longrightarrow> frame v w \<Longrightarrow> frame u w"
  by (simp add: frame_def)

lemma framedI: "(\<And>u v. f u = Some v \<Longrightarrow> frame u v) \<Longrightarrow> framed f"
  by (simp add: framed_def)

lemma framedD: "framed f \<Longrightarrow> f u = Some v \<Longrightarrow> frame u v"
  by (simp add: framed_def)

lemma framed_callI: "(\<And>u x v. f u = Some (x, v) \<Longrightarrow> frame u v) \<Longrightarrow> framed_call f"
  by (simp add: framed_call_def)

lemma framed_callD: "framed_call f \<Longrightarrow> f u = Some (x, v) \<Longrightarrow> frame u v"
  by (simp add: framed_call_def)

lemma frame_core: "core v = core u \<Longrightarrow> frame u v"
  using core_fields(2,3,7,10,16) [of u] core_fields(2,3,7,10,16) [of v] by (simp add: frame_def)

lemma frame_upd [simp]:
  "frame u (v\<lparr>trace := tr\<rparr>) = frame u v" "frame u (v\<lparr>u_mtime := mt\<rparr>) = frame u v"
  "frame u (v\<lparr>u_locked := b\<rparr>) = frame u v" "frame u (v\<lparr>u_conf := c\<rparr>) = frame u v"
  "frame u (v\<lparr>u_stat := s\<rparr>) = frame u v" "frame u (v\<lparr>u_tariff := tp\<rparr>) = frame u v"
  "frame u (v\<lparr>u_messages := ms\<rparr>) = frame u v" "frame u (v\<lparr>u_errorStr := es\<rparr>) = frame u v"
  "frame u (v\<lparr>u_traffStat := ts\<rparr>) = frame u v" "frame u (v\<lparr>u_traffStatSaved := tss\<rparr>) = frame u v"
  "frame u (v\<lparr>u_lastScanMessages := t\<rparr>) = frame u v" "frame u (v\<lparr>u_lastWriteStat := t\<rparr>) = frame u v"
  "frame u (v\<lparr>u_lastWriteDetailedStat := t\<rparr>) = frame u v"
  "frame (u\<lparr>trace := tr\<rparr>) v = frame u v" "frame (u\<lparr>u_locked := b\<rparr>) v = frame u v"
  by (simp_all add: frame_def)

lemma frame_step [simp]:
  "frame u (emit e v) = frame u v" "frame u (ModifyTime E n v) = frame u v"
  "frame u (Connect E f v) = frame u v" "frame u (Disconnect E f r v) = frame u v"
  "frame u (snd (save_part E w c v)) = frame u v"
proof -
  have "frame v (emit e v)" "frame v (ModifyTime E n v)" "frame v (snd (save_part E w c v))"
    "frame (emit e v) v" "frame (ModifyTime E n v) v" "frame (snd (save_part E w c v)) v"
    by (rule frame_core; simp)+
  then show "frame u (emit e v) = frame u v" "frame u (ModifyTime E n v) = frame u v"
    "frame u (snd (save_part E w c v)) = frame u v"
    using frame_trans by blast+
  show "frame u (Connect E f v) = frame u v" "frame u (Disconnect E f r v) = frame u v"
    by (simp_all add: frame_def)
qed

lemma frame_assign [simp]:
  "frame u (assign E prop_lastCashAdd d v) = frame u v" "frame u (assign E prop_passiveTime t v) = frame u v"
  "frame u (assign E prop_lastCashAddTime t v) = frame u v" "frame u (assign E prop_freeMb d v) = frame u v"
  "frame u (assign E prop_nextTariff st v) = frame u v" "frame u (assign E prop_credit d v) = frame u v"
  "frame u (assign E prop_creditExpire t v) = frame u v" "frame u (assign E prop_up tr v) = frame u v"
  "frame u (assign E prop_down tr v) = frame u v"
  by (simp_all add: assign_def prop_lastCashAdd_def prop_passiveTime_def prop_lastCashAddTime_def prop_freeMb_def
      prop_nextTariff_def prop_credit_def prop_creditExpire_def prop_up_def prop_down_def plain_property_def)

lemma frame_sym: "frame u v = frame v u"
  by (auto simp: frame_def)

lemma frame_left [simp]:
  "frame (emit e u) v = frame u v" "frame (assign E prop_credit d u) v = frame u v"
  "frame (assign E prop_nextTariff st u) v = frame u v" "frame (assign E prop_creditExpire t u) v = frame u v" "frame (assign E prop_passiveTime t u) v = frame u v"
  using frame_sym [of _ v] by simp_all

lemma framed_lock:
  assumes "\<And>u x v. f u = Some (x, v) \<Longrightarrow> frame u v"
  shows "framed_call (with_lock E f)"
proof (rule framed_callI)
  fix u x v assume "with_lock E f u = Some (x, v)"
  then show "frame u v" by (rule with_lock_SomeE) (use assms in fastforce)+
qed

lemma framed_lock_unit: "framed f \<Longrightarrow> framed_call (with_lock E (\<lambda>u. map_option (Pair ()) (f u)))"
  by (rule framed_lock) (auto dest: framedD)

lemma framed_bind: "framed f \<Longrightarrow> framed g \<Longrightarrow> framed (\<lambda>u. Option.bind (f u) g)"
  unfolding framed_def bind_eq_Some_conv using frame_trans by blast

subsection \<open>Property changes\<close>

lemma framed_property:
  assumes "\<And>a b. framed (pr_before p a b)" and "\<And>u w. frame u (pr_put p v w) = frame u w"
    and "\<And>a b. framed (pr_after p a b)"
  shows "framed (UserProperty_Set E p v)"
proof (rule framedI)
  fix u u' assume "UserProperty_Set E p v u = Some u'"
  then obtain w where w: "pr_before p (pr_get p u) v u = Some w"
    and a: "pr_after p (pr_get p u) v (ModifyTime E (pr_name p) (pr_put p v w)) = Some u'"
    by (auto simp: UserProperty_Set_def Let_def bind_eq_Some_conv)
  have "frame u (ModifyTime E (pr_name p) (pr_put p v w))" using framedD [OF assms(1) w] assms(2) by simp
  then show "frame u u'" using framedD [OF assms(3) a] by (rule frame_trans)
qed

lemma framed_logged:
  assumes "framed (UserProperty_Set E p v)"
  shows "framed_call (UserPropertyLogged_Set E p v adm msg)"
proof (rule framed_callI)
  fix u r u' assume "UserPropertyLogged_Set E p v adm msg u = Some (r, u')"
  then show "frame u u'"
  proof (cases rule: Logged_Set_SomeE)
    case (2 w)
    then show ?thesis using framedD [OF assms 2(4)] frame_core frame_trans by blast
  qed (simp add: frame_core)
qed

lemma framed_Some [simp]: "framed Some"
  by (simp add: framed_def)

lemma framed_freeMb: "framed (UserProperty_Set E prop_freeMb d)"
  by (rule framed_property) (simp_all add: prop_freeMb_def plain_property_def)

lemma framed_cash: "framed (UserProperty_Set E (prop_cash E) d)"
  by (rule framed_property) (simp_all add: prop_cash_def framed_def onCashChange_def)

lemma framed_snd: "framed_call f \<Longrightarrow> framed (\<lambda>u. map_option snd (f u))"
  by (auto simp: framed_def framed_call_def)

lemma framed_onTariffChange: "framed (onTariffChange E a n)"
  unfolding onTariffChange_def
proof (intro framed_snd framed_lock)
  fix u x v
  assume "(let r = s_reconnectOnTariffChange (e_set E);
         u = (if r \<and> u_connected u then Disconnect E False ''Change tariff'' u else u);
         u = u\<lparr>u_tariff := e_FindTariff E n\<rparr>
     in Some ((), if r \<and> u_authorizedBy u \<noteq> [] \<and> IsInetable E u
                  then Connect E False (on_conf (uc_tariffName_update (\<lambda>_. n)) u)
                  else u)) = Some (x, v)"
  then have "\<exists>d. d = (if s_reconnectOnTariffChange (e_set E) \<and> u_connected u
        then Disconnect E False ''Change tariff'' u else u)\<lparr>u_tariff := e_FindTariff E n\<rparr>
      \<and> (if s_reconnectOnTariffChange (e_set E) \<and> u_authorizedBy d \<noteq> [] \<and> IsInetable E d
        then Connect E False (on_conf (uc_tariffName_update (\<lambda>_. n)) d) else d) = v"
    unfolding Let_def option.inject prod.inject by (intro exI conjI) (rule refl, elim conjE)
  then obtain d where d: "d = (if s_reconnectOnTariffChange (e_set E) \<and> u_connected u
        then Disconnect E False ''Change tariff'' u else u)\<lparr>u_tariff := e_FindTariff E n\<rparr>"
    and v: "(if s_reconnectOnTariffChange (e_set E) \<and> u_authorizedBy d \<noteq> [] \<and> IsInetable E d
        then Connect E False (on_conf (uc_tariffName_update (\<lambda>_. n)) d) else d) = v"
    by (elim exE conjE)
  have "frame u d" unfolding d by simp
  then show "frame u v" unfolding v [symmetric] by (simp split: if_split)
qed

lemma framed_tariffName: "framed (UserProperty_Set E (prop_tariffName E) n)"
  by (rule framed_property) (simp_all add: prop_tariffName_def framed_onTariffChange)

subsection \<open>Operations\<close>

lemma framed_ScanMessage: "framed (ScanMessage E)"
proof (rule framedI)
  fix u v assume "ScanMessage E u = Some v"
  then have c: "core v = (core u)\<lparr>u_messages := u_messages v\<rparr>"
    using ScanMessage_loop_only by (auto simp: ScanMessage_def only_messages_def)
  have "frame (core u) (core v)" unfolding c by simp
  then show "frame u v" by (simp add: frame_def core_fields)
qed

lemma framed_Run_sessions: "framed (Run_sessions E)"
proof (rule framedI)
  fix u v assume r: "Run_sessions E u = Some v"
  define a where "a = (if u_connected u
    then on_stat (us_lastActivityTime_update (\<lambda>_. e_stgTime E)) u else u)"
  define b where "b = (if \<not> u_connected a \<and> IsInetable E a then Connect E False a else a)"
  define c where "c = (if u_connected b \<and> \<not> IsInetable E b
                  then (if is_disabled b then Disconnect E False ''disabled'' b
                        else if is_passive b then Disconnect E False ''passive'' b
                        else Disconnect E False ''no cash'' b)
                  else b)"
  have c: "frame u c" by (simp add: a_def b_def c_def)
  show "frame u v"
  proof (cases "u_authorizedBy u = []")
    case True
    then have "v = (if u_connected u then Disconnect E False ''not authorized'' u else u)"
      using r by (simp add: Run_sessions_def)
    then show ?thesis by simp
  next
    case False
    then have "Run_sessions E u = (if e_stgTime E - u_lastScanMessages c > 10
            then map_option (\<lambda>u. u\<lparr>u_lastScanMessages := e_stgTime E\<rparr>) (ScanMessage E c)
            else Some c)"
      by (simp only: Run_sessions_def Let_def a_def b_def c_def if_True not_False_eq_True)
    then have "v = c \<or> (\<exists>d. ScanMessage E c = Some d \<and> v = d\<lparr>u_lastScanMessages := e_stgTime E\<rparr>)"
      using r by (cases "ScanMessage E c") (auto split: if_splits)
    then show ?thesis using c framedD [OF framed_ScanMessage] frame_trans by fastforce
  qed
qed

lemma framed_saves: "framed_call (WriteConf E)" "framed_call (WriteMonthStat E)" "framed_call (WriteStat E)"
proof -
  have f: "frame u w" if "save_part E n c u = (rc, w)" for n c u rc w
    using frame_step(5) [of u E n c u] that by simp
  show "framed_call (WriteConf E)" "framed_call (WriteMonthStat E)" "framed_call (WriteStat E)"
    unfolding WriteConf_def WriteMonthStat_def WriteStat_def
    by (rule framed_lock; auto simp: Let_def dest!: f split: prod.splits if_splits)+
qed


lemma framed_Run_body: "framed_call (Run_body E)"
proof (rule framed_callI)
  fix u x v assume "Run_body E u = Some (x, v)"
  then obtain a b c where a: "(if e_stgTime E > u_lastWriteStat u + GetStatWritePeriod (e_set E)
           then map_option snd (WriteStat E u) else Some u) = Some a"
    and b: "(if uc_creditExpire (u_conf a) \<noteq> 0 \<and> uc_creditExpire (u_conf a) < e_stgTime E
           then let u = emit (Log (''User: '' @ u_login a @ ''. Credit expired.'')) a;
                    u = assign E prop_credit 0 u;
                    u = assign E prop_creditExpire 0 u
                in map_option snd (WriteConf E u)
           else Some a) = Some b"
    and c: "Run_sessions E (Run_passive E b) = Some v"
    by (auto simp: Run_body_def Let_def bind_eq_Some_conv)
  have "frame u a" using a framed_callD [OF framed_saves(3)] by (auto split: if_splits)
  moreover have "frame a b" using b
    by (auto simp: Let_def dest!: framed_callD [OF framed_saves(1)] split: if_splits)
  ultimately have "frame u (Run_passive E b)" using frame_trans by (auto simp: Run_passive_def Let_def)
  then show "frame u v" using framedD [OF framed_Run_sessions c] frame_trans by blast
qed

lemma framed_Run: "framed_call (Run E)"
  unfolding Run_def by (rule framed_lock) (rule framed_callD [OF framed_Run_body])

lemma frame_script_for_login [simp]: "frame u (script_for_login E n v) = frame u v"
  by (simp add: script_for_login_def Let_def)

lemma framed_OnAdd: "framed_call (OnAdd E)"
  unfolding OnAdd_def by (rule framed_lock) auto

lemma framed_OnDelete: "framed_call (OnDelete E)"
proof -
  have "frame u v" if "Run E (script_for_login E n u) = Some (x, v)" for n u x v
    using framed_callD [OF framed_Run that] frame_trans [of u "script_for_login E n u"] by simp
  then show ?thesis unfolding OnDelete_def by (rule framed_lock)
qed

lemma framed_Midnight: "framed_call (MidnightResetSessionStat E)"
  unfolding MidnightResetSessionStat_def by (rule framed_lock) (auto split: if_splits)

lemma framed_SetPassiveTime: "framed_call (SetPassiveTimeAsNewUser E)"
  unfolding SetPassiveTimeAsNewUser_def by (rule framed_lock) auto

lemma framed_reads: "framed_call (ReadConf E)" "framed_call (ReadStat E)"
proof -
  have "frame u (read_messages E hs v) = frame u v" for hs u v
    unfolding read_messages_def by (induction hs arbitrary: v) (auto split: prod.split)
  then show "framed_call (ReadConf E)" "framed_call (ReadStat E)"
    unfolding ReadConf_def ReadStat_def
    by (rule_tac framed_lock; auto simp: Let_def split: prod.splits if_splits)+
qed

lemma framed_WriteDetailStat: "framed_call (WriteDetailStat E h)"
proof (rule framed_callI)
  fix u x v assume w: "WriteDetailStat E h u = Some (x, v)"
  obtain ok a where s: "WriteDetailStat_saved E u = (ok, a)" by force
  have a: "frame u a"
    using s by (auto simp: WriteDetailStat_saved_def Let_def call_def split: if_splits)
  have l: "framed_call (with_lock E (\<lambda>u. Some (u_traffStat u, u\<lparr>u_traffStat := []\<rparr>)))"
    "framed_call (with_lock E (\<lambda>u. Some (- 1 :: int, u\<lparr>u_traffStatSaved := (u_lastWriteDetailedStat u, ts)\<rparr>)))" for ts
    by (rule framed_lock; auto)+
  show "frame u v"
  proof (cases ok)
    case True
    then obtain ts b where b: "with_lock E (\<lambda>u. Some (u_traffStat u, u\<lparr>u_traffStat := []\<rparr>)) a = Some (ts, b)"
      using w s by (auto simp: WriteDetailStat_def bind_eq_Some_conv)
    have "frame u b" using a framed_callD [OF l(1) b] frame_trans by blast
    moreover have "frame b v"
      using w s True b
      by (auto simp: WriteDetailStat_def Let_def call_def split: if_splits dest!: framed_callD [OF l(2)])
    ultimately show ?thesis by (rule frame_trans)
  qed (use w s a in \<open>simp add: WriteDetailStat_def\<close>)
qed

subsection \<open>Fees and the end of a month\<close>

lemma framed_charge_fee: "framed (charge_fee E fee)"
proof (rule framedI)
  fix u v assume "charge_fee E fee u = Some v"
  then show "frame u v"
    by (auto simp: charge_fee_def dest: framed_callD [OF framed_logged [OF framed_cash]])
qed

lemma framed_SetPrepaidTraff: "framed (SetPrepaidTraff E)"
proof (rule framedI)
  fix u v assume "SetPrepaidTraff E u = Some v"
  then show "frame u v" unfolding SetPrepaidTraff_def
    by (cases "tariff_of E u") (auto dest: framed_callD [OF framed_logged [OF framed_freeMb]])
qed

lemma framed_fee_then_prepaid:
  "framed (\<lambda>u. Option.bind (charge_fee E fee u) (SetPrepaidTraff E))"
  by (rule framed_bind [OF framed_charge_fee framed_SetPrepaidTraff])

lemma framed_fees:
  "framed (ProcessDayFeeSpread_body E)" "framed (ProcessDailyFee_body E)" "framed (ProcessDayFee_body E)"
proof -
  show "framed (ProcessDayFeeSpread_body E)" "framed (ProcessDailyFee_body E)"
    unfolding ProcessDayFeeSpread_body_def ProcessDailyFee_body_def ResetPassiveTime_def Let_def
    by (rule framedI; auto split: option.splits if_splits dest: framedD [OF framed_charge_fee])+
  show "framed (ProcessDayFee_body E)"
    unfolding ProcessDayFee_body_def ResetPassiveTime_def Let_def
    by (rule framedI) (auto split: option.splits if_splits
        dest: framedD [OF framed_SetPrepaidTraff] framedD [OF framed_fee_then_prepaid])
qed

lemma framed_ProcessServices_loop: "framed (ProcessServices_loop E part ns)"
proof (induction ns)
  case (Cons n ns)
  have g: "framed (\<lambda>u. Option.bind (charge_fee E fee u)
      (\<lambda>y. Option.bind (SetPrepaidTraff E y) (ProcessServices_loop E part ns)))" for fee
    by (intro framed_bind framed_charge_fee framed_SetPrepaidTraff Cons)
  obtain b c where s: "e_FindService E n = (b, c)" by force
  show ?case
    by (rule framedI)
      (auto simp: s Let_def split: bool.splits option.splits if_splits
        dest: framedD [OF Cons] framedD [OF g])
qed simp

lemma framed_ProcessServices_body: "framed (ProcessServices_body E)"
  by (rule framedI) (auto simp: ProcessServices_body_def split: option.splits
      dest: framedD [OF framed_ProcessServices_loop])

lemma framed_change_tariff: "framed (change_to_next_tariff E)"
  by (rule framedI) (auto simp: change_to_next_tariff_def Let_def split: option.splits if_splits
      dest: framed_callD [OF framed_logged [OF framed_tariffName]])

lemma framed_ProcessNewMonth_body: "framed (ProcessNewMonth_body E)"
proof (rule framedI)
  fix u v assume p: "ProcessNewMonth_body E u = Some v"
  define a where "a = (if u_connected u then Disconnect E True ''fake'' u else u)"
  obtain x b where b: "WriteMonthStat E a = Some (x, b)"
    using p by (auto simp: ProcessNewMonth_body_def a_def bind_eq_Some_conv)
  define c where "c = on_stat (\<lambda>s. s\<lparr>us_monthUp := DirTraff_reset (us_monthUp s),
                            us_monthDown := DirTraff_reset (us_monthDown s)\<rparr>) b"
  define d where "d = (if u_connected c then Connect E True c else c)"
  have "frame u a" by (simp add: a_def)
  moreover have "frame a b" by (rule framed_callD [OF framed_saves(2) b])
  ultimately have d: "frame u d" using frame_trans by (auto simp: c_def d_def)
  have "(if uc_nextTariff (u_conf d) \<noteq> ''''
      then Option.bind (change_to_next_tariff E d)
        (\<lambda>u. map_option snd (WriteConf E (assign E prop_nextTariff '''' u))) else Some d) = Some v"
    using p b unfolding ProcessNewMonth_body_def Let_def a_def [symmetric] c_def d_def by simp
  then have "frame d v"
    by (auto simp: bind_eq_Some_conv split: if_splits
        dest!: framedD [OF framed_change_tariff] framed_callD [OF framed_saves(1)] intro: frame_trans)
  then show "frame u v" by (rule frame_trans [OF d])
qed

lemmas framed_ops = framed_Run framed_OnDelete framed_Midnight framed_WriteDetailStat framed_saves

lemma framed_billing:
  "framed_call (ProcessDayFee E)" "framed_call (ProcessDayFeeSpread E)" "framed_call (ProcessDailyFee E)"
  "framed_call (ProcessServices E)" "framed_call (ProcessNewMonth E)"
  unfolding ProcessDayFee_def ProcessDayFeeSpread_def ProcessDailyFee_def ProcessServices_def ProcessNewMonth_def
  by (rule framed_lock_unit framed_fees framed_ProcessServices_body framed_ProcessNewMonth_body)+


subsection \<open>Calls of other threads\<close>

text \<open>What the rest of the server calls on a user: property changes, traffic, messages and pings.\<close>

lemma framed_locked_snd: "(\<And>u. frame u (f u)) \<Longrightarrow> framed (\<lambda>u. map_option snd (with_lock E (\<lambda>u. Some (y, f u)) u))"
  by (rule framed_snd, rule framed_lock) auto

lemma framed_plain:
  assumes "\<And>u w. frame u (pr_put p v w) = frame u w" and "p = plain_property n pw st g pt t"
  shows "framed (UserProperty_Set E p v)"
  by (rule framed_property) (use assms in \<open>simp_all add: plain_property_def\<close>)

lemma framed_passive: "framed (UserProperty_Set E (prop_passive E) i)"
proof (rule framed_property)
  fix a b
  show "framed (pr_before (prop_passive E) a b)"
    unfolding prop_passive_def property.simps onPassiveChange_def
    by (rule framed_snd, rule framed_lock)
      (auto split: option.splits if_splits dest: framed_callD [OF framed_logged [OF framed_cash]])
qed (simp_all add: prop_passive_def)

lemma framed_disabled: "framed (UserProperty_Set E (prop_disabled E) i)"
proof (rule framed_property)
  fix a b
  show "framed (pr_after (prop_disabled E) a b)"
    unfolding prop_disabled_def property.simps onDisabledChange_def by (rule framed_locked_snd) auto
qed (simp_all add: prop_disabled_def)

lemma framed_ips: "framed (UserProperty_Set E (prop_ips E) ips)"
proof (rule framed_property)
  fix a b
  show "framed (pr_after (prop_ips E) a b)"
    unfolding prop_ips_def property.simps onIPChange_def Let_def by (rule framed_locked_snd) auto
qed (simp_all add: prop_ips_def)

lemma framed_plains:
  "framed (UserProperty_Set E prop_up ts)" "framed (UserProperty_Set E prop_down ts)"
  "framed (UserProperty_Set E prop_password st)" "framed (UserProperty_Set E prop_nextTariff st)"
  "framed (UserProperty_Set E prop_credit d)" "framed (UserProperty_Set E prop_creditExpire t)"
  unfolding prop_up_def prop_down_def prop_password_def prop_nextTariff_def prop_credit_def prop_creditExpire_def
  by (rule framed_plain [OF _ refl]; simp add: plain_property_def)+

lemmas framed_properties = framed_cash framed_freeMb framed_tariffName framed_passive framed_disabled framed_ips framed_plains

lemma framed_UpdatePingTime: "framed_call (UpdatePingTime E t)"
  unfolding UpdatePingTime_def by (rule framed_lock) (auto simp: frame_def)

lemma frame_charge_traff [simp]: "frame u (charge_traff E dc v) = frame u v"
  by (simp add: charge_traff_def)

lemma frame_session_counters [simp]:
  "frame u (v\<lparr>u_sessionUpload := a, u_sessionUploadModTime := t\<rparr>) = frame u v"
  "frame u (v\<lparr>u_sessionDownload := a, u_sessionDownloadModTime := t\<rparr>) = frame u v"
  by (simp_all add: frame_def)

lemma framed_AddTraffStat: "framed_call (AddTraffStatU E dir ip len)" "framed_call (AddTraffStatD E dir ip len)"
proof -
  have "frame u (AddTraffStatU_body E dir ip len u)" "frame u (AddTraffStatD_body E dir ip len u)" for u
    unfolding AddTraffStatU_body_def AddTraffStatD_body_def Let_def
    by (simp_all split: option.split)
  then show "framed_call (AddTraffStatU E dir ip len)" "framed_call (AddTraffStatD E dir ip len)"
    unfolding AddTraffStatU_def AddTraffStatD_def by (auto intro!: framed_lock)
qed

lemma framed_AddMessage: "framed_call (AddMessage E m)"
proof -
  have s: "frame u (snd (store_message E w m v)) = frame u v" for u w m v
    by (simp add: store_message_def Let_def case_prod_beta call_def)
  have s': "frame u w" if "store_message E n m v = (x, w)" "frame u v" for u n m v x w
    using s [of u n m v] that by simp
  have "frame u (snd (snd (SendMessage E m u)))" for m u
    by (rule frame_core) (metis SendMessage_core prod.collapse)
  then have "frame u v" if "SendMessage E m u = (rc, m', v)" for m u rc m' v
    using that by (metis snd_conv)
  then show ?thesis unfolding AddMessage_def
    by (intro framed_lock) (auto split: prod.splits if_splits intro: s')
qed

lemmas framed_outside = framed_UpdatePingTime framed_AddTraffStat framed_AddMessage

end
