(* ===== verification/Stg_UsersInv.thy ===== *)
theory Stg_UsersInv
  imports Stg_Users Stg_Frame
begin

text \<open>
  What the registry of users keeps: identifiers are unique, the index by login points to users with that
  login that are not waiting for their deletion, and the index by address lists exactly the users that
  hold an address.
\<close>

subsection \<open>Authorization as the registry sees it\<close>

definition same_user :: "user \<Rightarrow> user \<Rightarrow> bool" where
  "same_user u v \<longleftrightarrow> u_id v = u_id u \<and> u_login v = u_login u \<and> u_deleted v = u_deleted u"

lemma frame_same: "frame u v \<Longrightarrow> same_user u v"
  by (simp add: frame_def same_user_def)

lemma frame_set_currIP: "frame u w \<Longrightarrow> frame (u\<lparr>u_currIP := ip\<rparr>) (set_currIP E ip w)"
proof -
  assume w: "frame u w"
  have "core (set_currIP E ip w) = core (w\<lparr>u_currIP := ip\<rparr>)" by (simp add: core_upd)
  then have "frame (w\<lparr>u_currIP := ip\<rparr>) (set_currIP E ip w)" by (rule frame_core)
  then show ?thesis using w by (simp add: frame_def)
qed

lemma Authorize_finish_frame:
  assumes "Authorize_finish E auth u = Some (rc, v)"
  shows "rc = 0 \<and> frame (u\<lparr>u_authorizedBy := insert_auth auth (u_authorizedBy u)\<rparr>) v"
proof -
  define w where "w = (if u_authorizedBy u = [] then u\<lparr>u_authorizedModificationTime := e_stgTime E\<rparr> else u)"
  have "ScanMessage E (w\<lparr>u_authorizedBy := insert_auth auth (u_authorizedBy w)\<rparr>) = Some v" "rc = 0"
    using assms by (auto simp: Authorize_finish_def w_def Let_def bind_eq_Some_conv)
  with framedD [OF framed_ScanMessage] show ?thesis by (fastforce simp: frame_def w_def split: if_splits)
qed

lemma insert_auth_not_Nil [simp]: "insert_auth a as \<noteq> []"
  by (auto simp: insert_auth_def insort_insert_key_def)

lemma Authorize_body_cases:
  assumes "Authorize_body E ip dirs auth u = Some (rc, v)"
  shows "same_user u v \<and> (frame u v \<and> (rc = 0 \<longrightarrow> auth \<in> set (u_authorizedBy u))
    \<or> rc = 0 \<and> ip \<noteq> 0 \<and> u_currIP v = ip \<and> u_authorizedBy v \<noteq> [] \<and> u_authorizedBy v = insert_auth auth (u_authorizedBy u)
      \<and> (if u_authorizedBy u = [] then e_ipIndex E ip = None else u_currIP u = ip))"
proof -
  define w where "w = u\<lparr>u_enabledDirs := dirsFromBits dirs\<rparr>"
  have w: "frame u w" by (simp add: w_def frame_def)
  define c where "c = (set_currIP E ip w)\<lparr>u_lastIPForDisconnect := u_currIP (set_currIP E ip w)\<rparr>"
  have c: "frame (u\<lparr>u_currIP := ip\<rparr>) c" using frame_set_currIP [OF w] by (simp add: c_def frame_def)
  have err: "frame u (w\<lparr>u_errorStr := e\<rparr>)" for e using w by simp
  consider "auth \<in> set (u_authorizedBy u)" "v = u" "rc = 0"
    | "rc = - 1" "frame u v"
    | "ip \<noteq> 0" "u_authorizedBy u \<noteq> []" "u_currIP u = ip" "Authorize_finish E auth w = Some (rc, v)"
    | "ip \<noteq> 0" "u_authorizedBy u = []" "e_ipIndex E ip = None" "Authorize_finish E auth c = Some (rc, v)"
    using assms w err unfolding Authorize_body_def Let_def w_def [symmetric] c_def [symmetric]
    by (auto simp: frame_def users_lock_def bind_eq_Some_conv split: if_splits)
  then show ?thesis
  proof cases
    case 3
    then show ?thesis using Authorize_finish_frame [OF 3(4)] w by (auto simp: frame_def same_user_def)
  next
    case 4
    then show ?thesis using Authorize_finish_frame [OF 4(4)] c by (auto simp: frame_def same_user_def)
  qed (auto dest: frame_same simp: same_user_def)
qed

lemma Unauthorize_body_cases:
  "same_user u (Unauthorize_body E auth reason u) \<and> (frame u (Unauthorize_body E auth reason u)
    \<or> u_authorizedBy u \<noteq> [] \<and>
      (if u_authorizedBy (Unauthorize_body E auth reason u) = []
       then u_currIP (Unauthorize_body E auth reason u) = 0
       else u_currIP (Unauthorize_body E auth reason u) = u_currIP u))"
proof (cases "auth \<in> set (u_authorizedBy u)")
  case True
  define a where "a = u\<lparr>u_authorizedBy := remove1 auth (u_authorizedBy u),
                     u_authorizedModificationTime := e_stgTime E\<rparr>"
  define b where "b = a\<lparr>u_lastDisconnectReason := reason, u_lastIPForDisconnect := u_currIP a\<rparr>"
  define c where "c = set_currIP E 0 b"
  have c: "frame (b\<lparr>u_currIP := 0\<rparr>) c" unfolding c_def by (rule frame_set_currIP) simp
  have "Unauthorize_body E auth reason u =
      (if u_authorizedBy a = [] then (if u_connected c then Disconnect E False ''not authorized'' c else c) else a)"
    using True by (simp add: Unauthorize_body_def Let_def a_def b_def c_def)
  then show ?thesis
    using c True by (auto simp: frame_def same_user_def a_def b_def)
qed (simp add: Unauthorize_body_def same_user_def)

lemma same_user_lock [simp]:
  "same_user (u\<lparr>u_locked := b\<rparr>) v = same_user u v" "same_user u (v\<lparr>u_locked := b\<rparr>) = same_user u v"
  "same_user (u\<lparr>trace := tr\<rparr>) v = same_user u v" "same_user u (v\<lparr>trace := tr\<rparr>) = same_user u v"
  by (simp_all add: same_user_def)

lemma Authorize_cases:
  assumes "Authorize E ip dirs auth u = Some (rc, v)"
  shows "same_user u v \<and> (frame u v \<and> (rc = 0 \<longrightarrow> auth \<in> set (u_authorizedBy u))
    \<or> rc = 0 \<and> ip \<noteq> 0 \<and> u_currIP v = ip \<and> u_authorizedBy v \<noteq> [] \<and> u_authorizedBy v = insert_auth auth (u_authorizedBy u)
      \<and> (if u_authorizedBy u = [] then e_ipIndex E ip = None else u_currIP u = ip))"
  using assms unfolding Authorize_def
  by (rule with_lock_SomeE) (auto dest!: Authorize_body_cases split: if_splits)

lemma Unauthorize_cases:
  assumes "Unauthorize E auth reason u = Some (y, v)"
  shows "same_user u v \<and> (frame u v \<or> u_authorizedBy u \<noteq> [] \<and>
    (if u_authorizedBy v = [] then u_currIP v = 0 else u_currIP v = u_currIP u))"
  using assms unfolding Unauthorize_def
proof (rule with_lock_SomeE)
  fix w assume "Some ((), Unauthorize_body E auth reason (u\<lparr>u_locked := True\<rparr>)) = Some (y, w)"
    and "v = w\<lparr>u_locked := u_locked u\<rparr>"
  then show ?thesis using Unauthorize_body_cases [of "u\<lparr>u_locked := True\<rparr>" E auth reason] by auto
next
  assume "Some ((), Unauthorize_body E auth reason u) = Some (y, v)"
  then show ?thesis using Unauthorize_body_cases [of u E auth reason] by auto
qed

subsection \<open>Calls through iterators\<close>

lemma user_at_SomeD: "user_at i s = Some u \<Longrightarrow> u_id u = i \<and> u \<in> set (us_users s)"
  by (auto simp: user_at_def find_Some_iff)

lemma on_user_SomeE:
  assumes "on_user E f i s = Some (x, s')"
  obtains u v where "user_at i s = Some u" "f (env_in E s) (u\<lparr>trace := trace s\<rparr>) = Some (x, v)"
    "s' = s\<lparr>us_users := update_first (\<lambda>v. u_id v = i) (\<lambda>_. v\<lparr>trace := []\<rparr>) (us_users s), trace := trace v\<rparr>"
  using assms by (auto simp: on_user_def bind_eq_Some_conv)

lemma user_at_update:
  assumes "user_at i s = Some u" and "u_id v = i"
  shows "user_at j (s\<lparr>us_users := update_first (\<lambda>v. u_id v = i) (\<lambda>_. v) (us_users s)\<rparr>)
    = (if j = i then Some v else user_at j s)"
proof -
  have "find (\<lambda>w. u_id w = j) (update_first (\<lambda>w. u_id w = i) (\<lambda>_. v) us) =
      (if j = i \<and> find (\<lambda>w. u_id w = i) us \<noteq> None then Some v else find (\<lambda>w. u_id w = j) us)" for us
    using assms(2) by (induction us) auto
  then show ?thesis using assms(1) by (simp add: user_at_def)
qed

lemma ids_update:
  "u_id v = i \<Longrightarrow> map u_id (update_first (\<lambda>w. u_id w = i) (\<lambda>_. v) us) = map u_id us"
  by (induction us) auto

lemma user_at_frame [simp]:
  "user_at i (s\<lparr>trace := tr\<rparr>) = user_at i s" "user_at i (s\<lparr>us_locked := b\<rparr>) = user_at i s"
  "user_at i (s\<lparr>us_usersToDelete := ds\<rparr>) = user_at i s" "user_at i (s\<lparr>us_ipIndex := m\<rparr>) = user_at i s"
  "user_at i (s\<lparr>us_loginIndex := n\<rparr>) = user_at i s" "user_at i (s\<lparr>us_searchDescriptors := d\<rparr>) = user_at i s"
  "user_at i (s\<lparr>us_handle := h\<rparr>) = user_at i s" "user_at i (s\<lparr>us_idGen := g\<rparr>) = user_at i s"
  "user_at i (emit e s) = user_at i s"
  by (simp_all add: user_at_def emit_def)

text \<open>What one call does to the registry.\<close>

definition upd_user :: "int \<Rightarrow> user \<Rightarrow> users \<Rightarrow> users \<Rightarrow> bool" where
  "upd_user i v s s' \<longleftrightarrow> map u_id (us_users s') = map u_id (us_users s)
     \<and> (\<forall>j. user_at j s' = (if j = i then Some v else user_at j s))
     \<and> us_usersToDelete s' = us_usersToDelete s \<and> us_ipIndex s' = us_ipIndex s
     \<and> us_loginIndex s' = us_loginIndex s \<and> us_idGen s' = us_idGen s \<and> us_locked s' = us_locked s
     \<and> us_handle s' = us_handle s \<and> us_searchDescriptors s' = us_searchDescriptors s"

lemma on_user_upd:
  assumes "on_user E f i s = Some (x, s')"
    and "\<And>u v. f (env_in E s) u = Some (x, v) \<Longrightarrow> same_user u v"
  obtains u v where "user_at i s = Some u" "f (env_in E s) (u\<lparr>trace := trace s\<rparr>) = Some (x, v)"
    "upd_user i (v\<lparr>trace := []\<rparr>) s s'"
  using assms(1)
proof (rule on_user_SomeE)
  fix u v assume u: "user_at i s = Some u" and f: "f (env_in E s) (u\<lparr>trace := trace s\<rparr>) = Some (x, v)"
    and s': "s' = s\<lparr>us_users := update_first (\<lambda>v. u_id v = i) (\<lambda>_. v\<lparr>trace := []\<rparr>) (us_users s), trace := trace v\<rparr>"
  have "u_id v = i" using assms(2) [OF f] user_at_SomeD [OF u] by (simp add: same_user_def)
  then have "upd_user i (v\<lparr>trace := []\<rparr>) s s'"
    using user_at_update [OF u, of "v\<lparr>trace := []\<rparr>"] by (simp add: s' upd_user_def ids_update)
  with u f show thesis by (rule that)
qed

subsection \<open>The invariant\<close>

definition pending :: "users \<Rightarrow> int set" where
  "pending s = fst ` set (us_usersToDelete s)"

definition addr :: "users \<Rightarrow> int \<rightharpoonup> u32" where
  "addr s i = map_option u_currIP (user_at i s)"

definition login_of :: "users \<Rightarrow> int \<rightharpoonup> string" where
  "login_of s i = map_option u_login (user_at i s)"

definition users_inv :: "(string \<Rightarrow> nat option) \<Rightarrow> users \<Rightarrow> bool" where
  "users_inv F s \<longleftrightarrow> distinct (map u_id (us_users s))
     \<and> (\<forall>i u. user_at i s = Some u \<longrightarrow> i < us_idGen s \<and> user_inv F u)
     \<and> (\<forall>l i. us_loginIndex s l = Some i \<longrightarrow> i \<notin> pending s \<and> login_of s i = Some l)
     \<and> distinct (map fst (us_usersToDelete s))
     \<and> (\<forall>i\<in>pending s. addr s i = Some 0)
     \<and> (\<forall>ip i. us_ipIndex s ip = Some i \<longleftrightarrow> ip \<noteq> 0 \<and> addr s i = Some ip)"

lemma addr_upd [simp]:
  "addr (s\<lparr>trace := tr\<rparr>) = addr s" "addr (s\<lparr>us_locked := b\<rparr>) = addr s"
  "addr (s\<lparr>us_usersToDelete := ds\<rparr>) = addr s" "addr (s\<lparr>us_ipIndex := m\<rparr>) = addr s"
  "addr (s\<lparr>us_loginIndex := n\<rparr>) = addr s" "addr (s\<lparr>us_searchDescriptors := d\<rparr>) = addr s"
  "addr (s\<lparr>us_handle := h\<rparr>) = addr s" "addr (emit e s) = addr s"
  by (simp_all add: addr_def fun_eq_iff)

lemma login_of_upd [simp]:
  "login_of (s\<lparr>trace := tr\<rparr>) = login_of s" "login_of (s\<lparr>us_locked := b\<rparr>) = login_of s"
  "login_of (s\<lparr>us_usersToDelete := ds\<rparr>) = login_of s" "login_of (s\<lparr>us_ipIndex := m\<rparr>) = login_of s"
  "login_of (s\<lparr>us_loginIndex := n\<rparr>) = login_of s" "login_of (s\<lparr>us_searchDescriptors := d\<rparr>) = login_of s"
  "login_of (s\<lparr>us_handle := h\<rparr>) = login_of s" "login_of (emit e s) = login_of s"
  by (simp_all add: login_of_def fun_eq_iff)

lemma users_inv_upd [simp]:
  "users_inv F (s\<lparr>trace := tr\<rparr>) = users_inv F s" "users_inv F (s\<lparr>us_locked := b\<rparr>) = users_inv F s"
  "users_inv F (s\<lparr>us_searchDescriptors := d\<rparr>) = users_inv F s" "users_inv F (s\<lparr>us_handle := h\<rparr>) = users_inv F s"
  "users_inv F (emit e s) = users_inv F s"
  by (simp_all add: users_inv_def pending_def) (simp_all add: emit_def)

lemma users_locked_post:
  assumes "users_locked E f s = Some (x, s')" and "P s"
    and "\<And>s x t. P s \<Longrightarrow> f s = Some (x, t) \<Longrightarrow> Q x t"
    and "\<And>s b. P (s\<lparr>us_locked := b\<rparr>) = P s" and "\<And>x s b. Q x (s\<lparr>us_locked := b\<rparr>) = Q x s"
  shows "Q x s'"
  using assms(1,2) assms(3) [of "s\<lparr>us_locked := True\<rparr>"] assms(3) [of s] assms(4,5)
  by (auto simp: users_locked_def split: if_splits)

text \<open>A call that keeps address and authorizers keeps the invariant.\<close>

lemma upd_user_views:
  assumes "upd_user i v s s'" and "user_at i s = Some u" and "same_user u v"
  shows "login_of s' = login_of s" "addr s' = (addr s)(i \<mapsto> u_currIP v)"
  using assms by (auto simp: upd_user_def login_of_def addr_def same_user_def fun_eq_iff)

lemma same_addr_inv:
  assumes "users_inv F s" and "user_at i s = Some u" and "upd_user i v s s'" and "same_user u v"
    and "u_currIP v = u_currIP u" and "user_inv F v"
  shows "users_inv F s'"
proof -
  have "login_of s' = login_of s" "addr s' = addr s"
    using upd_user_views [OF assms(3,2,4)] assms(2,5) by (auto simp: addr_def)
  then show ?thesis
    using assms(1,2,3,6) unfolding users_inv_def upd_user_def pending_def by (simp split: if_splits)
qed

lemma upd_user_inv:
  assumes "users_inv F s" and "user_at i s = Some u" and "upd_user i v s s'" and "frame u v" and "user_inv F v"
  shows "users_inv F s'"
  using same_addr_inv [OF assms(1-3) frame_same [OF assms(4)] _ assms(5)] assms(4) by (simp add: frame_def)

text \<open>A call of a method the registry does not care about.\<close>

definition user_op :: "(string \<Rightarrow> nat option) \<Rightarrow> (env \<Rightarrow> user \<Rightarrow> ('a \<times> user) option) \<Rightarrow> bool" where
  "user_op F f \<longleftrightarrow> (\<forall>E u x v. e_FindTariff E = F \<longrightarrow> user_inv F u \<longrightarrow> f E u = Some (x, v) \<longrightarrow> frame u v \<and> user_inv F v)"

lemma env_in_FindTariff [simp]: "e_FindTariff (env_in E s) = e_FindTariff E"
  by (simp add: env_in_def)

lemma on_user_op:
  assumes "user_op F f" and "e_FindTariff E = F" and "users_inv F s" and "on_user E f i s = Some (x, s')"
  shows "users_inv F s'"
  using assms(4)
proof (rule on_user_SomeE)
  fix u v assume u: "user_at i s = Some u" and f: "f (env_in E s) (u\<lparr>trace := trace s\<rparr>) = Some (x, v)"
    and s': "s' = s\<lparr>us_users := update_first (\<lambda>v. u_id v = i) (\<lambda>_. v\<lparr>trace := []\<rparr>) (us_users s), trace := trace v\<rparr>"
  have "user_inv F (u\<lparr>trace := trace s\<rparr>)" using assms(3) u by (simp add: users_inv_def)
  then have "frame (u\<lparr>trace := trace s\<rparr>) v \<and> user_inv F v"
    using assms(1,2) f unfolding user_op_def by (metis env_in_FindTariff)
  then have v: "frame u v" "user_inv F v" by simp_all
  then have "u_id v = i" using user_at_SomeD [OF u] by (simp add: frame_def)
  then have "upd_user i (v\<lparr>trace := []\<rparr>) s s'"
    using user_at_update [OF u, of "v\<lparr>trace := []\<rparr>"] by (simp add: s' upd_user_def ids_update)
  from upd_user_inv [OF assms(3) u this] v show ?thesis by simp
qed

lemma each_user_op:
  "user_op F f \<Longrightarrow> e_FindTariff E = F \<Longrightarrow> users_inv F s \<Longrightarrow> each_user E f is s = Some s' \<Longrightarrow> users_inv F s'"
  by (induction E f "is" s rule: each_user.induct) (auto simp: bind_eq_Some_conv dest: on_user_op)

lemma for_each_op:
  "user_op F f \<Longrightarrow> e_FindTariff E = F \<Longrightarrow> users_inv F s \<Longrightarrow> for_each E f s = Some s' \<Longrightarrow> users_inv F s'"
  unfolding for_each_def by (rule each_user_op)

text \<open>The methods the registry calls.\<close>

lemma user_opI:
  assumes "\<And>E. framed_call (f E)" and "\<And>E u x v. e_FindTariff E = F \<Longrightarrow> f E u = Some (x, v) \<Longrightarrow> user_step F u v"
  shows "user_op F f"
  using assms user_step_inv by (fastforce simp: user_op_def dest: framed_callD)

lemma user_ops:
  "user_op F Run" "user_op F OnDelete" "user_op F MidnightResetSessionStat"
  "user_op F (\<lambda>E. WriteDetailStat E h)" "user_op F WriteStat" "user_op F ProcessDayFee"
  "user_op F ProcessDayFeeSpread" "user_op F ProcessDailyFee" "user_op F ProcessServices"
  "user_op F ProcessNewMonth"
  by (rule user_opI; blast intro: framed_ops framed_billing user_step.intros)+

subsection \<open>Operations keep the invariant\<close>

lemma users_invD:
  assumes "users_inv F s"
  shows "distinct (map u_id (us_users s))"
    and "user_at i s = Some u \<Longrightarrow> i < us_idGen s \<and> user_inv F u"
    and "us_loginIndex s l = Some i \<Longrightarrow> i \<notin> pending s \<and> login_of s i = Some l"
    and "distinct (map fst (us_usersToDelete s))"
    and "i \<in> pending s \<Longrightarrow> addr s i = Some 0"
    and "us_ipIndex s ip = Some i \<longleftrightarrow> ip \<noteq> 0 \<and> addr s i = Some ip"
  using assms by (auto simp: users_inv_def)

lemma login_at: "login_of s i = Some l \<Longrightarrow> \<exists>u. user_at i s = Some u \<and> u_login u = l"
  by (auto simp: login_of_def)

lemma user_inv_auth: "user_inv F u \<Longrightarrow> u_authorizedBy u = [] \<longleftrightarrow> u_currIP u = 0"
  by (simp add: user_inv_def sess_def)

text \<open>A call that changes the address of one user: the index must follow.\<close>

lemma readdress_inv:
  assumes "users_inv F s" and "user_at i s = Some u" and "upd_user i v s s'" and "same_user u v"
    and "user_inv F v" and "i \<notin> pending s"
    and "\<And>ip j. idx ip = Some j \<longleftrightarrow> ip \<noteq> 0 \<and> ((addr s)(i \<mapsto> u_currIP v)) j = Some ip"
  shows "users_inv F (s'\<lparr>us_ipIndex := idx\<rparr>)"
proof -
  note w = upd_user_views [OF assms(3,2,4)]
  have p: "pending s' = pending s" using assms(3) by (simp add: pending_def upd_user_def)
  have "\<forall>j\<in>pending s. addr s' j = Some 0" using w(2) users_invD(5) [OF assms(1)] assms(6) by auto
  moreover have "i < us_idGen s" using users_invD(2) [OF assms(1,2)] by simp
  ultimately show ?thesis
    using assms(1,3,5) w assms(7) p
    unfolding users_inv_def upd_user_def by (auto simp: pending_def split: if_splits)
qed

lemma AddToIPIdx_SomeD:
  assumes "AddToIPIdx E i s = Some (x, s')" and "user_at i s = Some u" and "u_currIP u \<noteq> 0"
  shows "us_ipIndex s (u_currIP u) = None
    \<and> s' = s\<lparr>us_ipIndex := (us_ipIndex s)(u_currIP u \<mapsto> i)\<rparr>"
  using assms by (auto simp: AddToIPIdx_def users_locked_def split: if_splits)

lemma Users_Authorize_body_inv:
  assumes E: "e_FindTariff E = F" and i: "users_inv F s"
    and b: "Users_Authorize_body E login ip dirs auth s = Some (ok, s')"
  shows "users_inv F s'"
proof -
  have step: "same_user u v \<and> user_inv F v"
    if "user_at j s = Some u" "Authorize (env_in E s) ip dirs auth (u\<lparr>trace := trace s\<rparr>) = Some (rc, v)" for j u v rc
    using Authorize_cases [OF that(2)] user_step_inv [OF step_authorize [OF that(2)]] users_invD(2) [OF i that(1)]
    by simp
  have au: "\<And>u v. Authorize (env_in E s) ip dirs auth u = Some (x, v) \<Longrightarrow> same_user u v" for x
    using Authorize_cases by blast
  consider "s' = emit (Log (''Attempt to authorize non-existant user '' @ squote login)) s"
    | j u where "us_ipIndex s ip = Some j" "user_at j s = Some u" "\<exists>m. s' = emit (Log m) s"
    | j rc where "us_ipIndex s ip = Some j" "on_user E (\<lambda>E. Authorize E ip dirs auth) j s = Some (rc, s')"
    | j rc where "us_loginIndex s login = Some j" "us_ipIndex s ip = None" "rc \<noteq> 0"
        "on_user E (\<lambda>E. Authorize E ip dirs auth) j s = Some (rc, s')"
    | j t x where "us_loginIndex s login = Some j" "us_ipIndex s ip = None"
        "on_user E (\<lambda>E. Authorize E ip dirs auth) j s = Some (0, t)" "AddToIPIdx E j t = Some (x, s')"
    using b
    by (auto simp: Users_Authorize_body_def FindByNameNonLock_def bind_eq_Some_conv
        split: option.splits if_splits)
  then show ?thesis
  proof cases
    case (3 j rc)
    from 3(2) au show ?thesis
    proof (rule on_user_upd)
      fix u v assume u: "user_at j s = Some u" and a: "Authorize (env_in E s) ip dirs auth (u\<lparr>trace := trace s\<rparr>) = Some (rc, v)"
        and p: "upd_user j (v\<lparr>trace := []\<rparr>) s s'"
      have ip: "u_currIP u = ip" using users_invD(6) [OF i] 3(1) u by (auto simp: addr_def)
      then have "u_currIP v = ip" using Authorize_cases [OF a] by (auto simp: frame_def)
      then show ?thesis using same_addr_inv [OF i u p] step [OF u a] ip by simp
    qed
  next
    case (4 j rc)
    from 4(4) au show ?thesis
    proof (rule on_user_upd)
      fix u v assume u: "user_at j s = Some u" and a: "Authorize (env_in E s) ip dirs auth (u\<lparr>trace := trace s\<rparr>) = Some (rc, v)"
        and p: "upd_user j (v\<lparr>trace := []\<rparr>) s s'"
      have "frame u (v\<lparr>trace := []\<rparr>)" using Authorize_cases [OF a] 4(3) by simp
      then show ?thesis using upd_user_inv [OF i u p] step [OF u a] by simp
    qed
  next
    case (5 j t x)
    from 5(3) au show ?thesis
    proof (rule on_user_upd)
      fix u v assume u: "user_at j s = Some u" and a: "Authorize (env_in E s) ip dirs auth (u\<lparr>trace := trace s\<rparr>) = Some (0, v)"
        and p: "upd_user j (v\<lparr>trace := []\<rparr>) s t"
      let ?v = "v\<lparr>trace := []\<rparr>"
      have t: "user_at j t = Some ?v" "us_ipIndex t = us_ipIndex s" using p by (simp_all add: upd_user_def)
      have ui: "user_inv F u" using users_invD(2) [OF i u] by simp
      have nip: "u_currIP u \<noteq> ip \<or> ip = 0"
        using users_invD(6) [OF i, of ip j] 5(2) u by (auto simp: addr_def)
      show ?thesis
      proof (cases "u_currIP v = 0")
        case True
        then have "s' = t" using 5(4) t by (auto simp: AddToIPIdx_def)
        moreover have "frame u ?v" using Authorize_cases [OF a] True by auto
        ultimately show ?thesis using upd_user_inv [OF i u p] step [OF u a] by simp
      next
        case False
        have s': "us_ipIndex s (u_currIP v) = None" "s' = t\<lparr>us_ipIndex := (us_ipIndex s)(u_currIP v \<mapsto> j)\<rparr>"
          using AddToIPIdx_SomeD [OF 5(4) t(1)] False t(2) by auto
        have "\<not> frame u v"
          using s'(1) users_invD(6) [OF i, of "u_currIP u" j] u False by (auto simp: frame_def addr_def)
        then have "u_currIP v = ip" "u_authorizedBy u = []" using Authorize_cases [OF a] nip by (auto split: if_splits)
        then have "u_currIP u = 0" using user_inv_auth [OF ui] by simp
        then have z: "addr s j = Some 0" using u by (simp add: addr_def)
        have "same_user u ?v" "user_inv F ?v" "j \<notin> pending s"
          using step [OF u a] users_invD(3) [OF i 5(1)] by simp_all
        then show ?thesis unfolding s'(2)
        proof (rule readdress_inv [OF i u p])
          show "((us_ipIndex s)(u_currIP v \<mapsto> j)) ip' = Some k \<longleftrightarrow>
              ip' \<noteq> 0 \<and> ((addr s)(j \<mapsto> u_currIP ?v)) k = Some ip'" for ip' k
            using users_invD(6) [OF i, of ip' k] s'(1) users_invD(6) [OF i, of "u_currIP v" k] z False by auto
        qed
      qed
    qed
  qed (use i in auto)
qed

lemma Users_Unauthorize_body_inv:
  assumes E: "e_FindTariff E = F" and i: "users_inv F s"
    and b: "Users_Unauthorize_body E login auth reason s = Some (ok, s')"
  shows "users_inv F s'"
proof (cases "us_loginIndex s login")
  case None
  then show ?thesis using b i by (auto simp: Users_Unauthorize_body_def FindByNameNonLock_def)
next
  case (Some j)
  then obtain u t y w where u: "user_at j s = Some u"
    and o: "on_user E (\<lambda>E. Unauthorize E auth reason) j s = Some (y, t)" and w: "user_at j t = Some w"
    and r: "(if u_authorizedBy w = [] then map_option (\<lambda>(_, s). (True, s)) (DelFromIPIdx E (u_currIP u) t)
        else Some (True, t)) = Some (ok, s')"
    using b by (auto simp: Users_Unauthorize_body_def FindByNameNonLock_def bind_eq_Some_conv)
  have un: "\<And>u v. Unauthorize (env_in E s) auth reason u = Some (y, v) \<Longrightarrow> same_user u v"
    using Unauthorize_cases by blast
  from o un show ?thesis
  proof (rule on_user_upd)
    fix u' v assume u': "user_at j s = Some u'"
      and a: "Unauthorize (env_in E s) auth reason (u'\<lparr>trace := trace s\<rparr>) = Some (y, v)"
      and p: "upd_user j (v\<lparr>trace := []\<rparr>) s t"
    have e: "u' = u" "w = v\<lparr>trace := []\<rparr>" using u u' p w by (auto simp: upd_user_def)
    note a = a [unfolded e(1)]
    have ui: "user_inv F u" using users_invD(2) [OF i u] by simp
    have v: "same_user u (v\<lparr>trace := []\<rparr>)" "user_inv F (v\<lparr>trace := []\<rparr>)"
      using Unauthorize_cases [OF a] user_step_inv [OF step_unauthorize [OF a]] ui by simp_all
    note va = user_inv_auth [OF v(2)] user_inv_auth [OF ui]
    show ?thesis
    proof (cases "u_authorizedBy w = []")
      case True
      then have d: "u_currIP u \<noteq> 0" "s' = t\<lparr>us_ipIndex := (us_ipIndex s)(u_currIP u := None)\<rparr>"
        using r p by (auto simp: DelFromIPIdx_def users_locked_def upd_user_def split: if_splits)
      have "j \<notin> pending s" using users_invD(3) [OF i Some] by blast
      with v show ?thesis unfolding d(2)
      proof (rule readdress_inv [OF i u p])
        have "addr s j = Some (u_currIP u)" "u_currIP v = 0" using u va(1) True e by (simp_all add: addr_def)
        then show "((us_ipIndex s)(u_currIP u := None)) ip' = Some k \<longleftrightarrow>
            ip' \<noteq> 0 \<and> ((addr s)(j \<mapsto> u_currIP (v\<lparr>trace := []\<rparr>))) k = Some ip'" for ip' k
          using users_invD(6) [OF i, of ip' k] users_invD(6) [OF i, of "u_currIP u" j] d(1) by auto
      qed
    next
      case False
      then have "s' = t" using r by simp
      moreover have "u_currIP v = u_currIP u" using Unauthorize_cases [OF a] False e by (auto simp: frame_def)
      ultimately show ?thesis using same_addr_inv [OF i u p v(1) _ v(2)] by simp
    qed
  qed
qed

lemma push_front_inv:
  assumes i: "users_inv F s" and "us_idGen s \<le> u_id u" and "u_id u < g" and "user_inv F u"
  shows "users_inv F (push_front E ds u (s\<lparr>us_idGen := g\<rparr>))"
    and "login_of (push_front E ds u (s\<lparr>us_idGen := g\<rparr>)) (u_id u) = Some (u_login u)"
    and "u_id u \<notin> pending s"
proof -
  let ?c = "(UserImpl_copy E ds u)\<lparr>trace := []\<rparr>"
  have c: "u_id ?c = u_id u" "u_login ?c = u_login u" "u_currIP ?c = 0" "user_inv F ?c"
    using UserImpl_copy_inv [OF assms(4)] by (simp_all add: UserImpl_copy_def)
  have at: "user_at j (push_front E ds u (s\<lparr>us_idGen := g\<rparr>)) = (if j = u_id u then Some ?c else user_at j s)" for j
    using c(1) by (auto simp: push_front_def user_at_def)
  have new: "user_at (u_id u) s = None" using users_invD(2) [OF i] assms(2) by (cases "user_at (u_id u) s") force+
  have dis: "u_id u \<notin> u_id ` set (us_users s)"
    using new by (auto simp: user_at_def find_None_iff)
  have ad: "addr (push_front E ds u (s\<lparr>us_idGen := g\<rparr>)) = (addr s)(u_id u \<mapsto> 0)"
    and lo: "login_of (push_front E ds u (s\<lparr>us_idGen := g\<rparr>)) = (login_of s)(u_id u \<mapsto> u_login u)"
    using at c by (simp_all add: addr_def login_of_def fun_eq_iff)
  have none: "addr s (u_id u) = None" "login_of s (u_id u) = None" using new by (simp_all add: addr_def login_of_def)
  show pe: "u_id u \<notin> pending s" using users_invD(5) [OF i, of "u_id u"] none by auto
  have ids: "map u_id (us_users (push_front E ds u (s\<lparr>us_idGen := g\<rparr>))) = u_id u # map u_id (us_users s)"
    and rest: "us_usersToDelete (push_front E ds u (s\<lparr>us_idGen := g\<rparr>)) = us_usersToDelete s"
      "us_ipIndex (push_front E ds u (s\<lparr>us_idGen := g\<rparr>)) = us_ipIndex s"
      "us_loginIndex (push_front E ds u (s\<lparr>us_idGen := g\<rparr>)) = us_loginIndex s"
      "us_idGen (push_front E ds u (s\<lparr>us_idGen := g\<rparr>)) = g"
    using c(1) by (simp_all add: push_front_def)
  show "login_of (push_front E ds u (s\<lparr>us_idGen := g\<rparr>)) (u_id u) = Some (u_login u)" using lo by simp
  have ll: "l = u_login u \<or> login_of s k = Some l" if "us_loginIndex s l = Some k" for l k
    using users_invD(3) [OF i that] by simp
  show "users_inv F (push_front E ds u (s\<lparr>us_idGen := g\<rparr>))"
    unfolding users_inv_def
  proof (intro conjI allI impI ballI)
    show "distinct (map u_id (us_users (push_front E ds u (s\<lparr>us_idGen := g\<rparr>))))"
      using users_invD(1) [OF i] dis by (simp add: ids)
  next
    fix j w assume "user_at j (push_front E ds u (s\<lparr>us_idGen := g\<rparr>)) = Some w"
    then show "j < us_idGen (push_front E ds u (s\<lparr>us_idGen := g\<rparr>))" "user_inv F w"
      using at users_invD(2) [OF i, of j w] c(4) assms(2,3) by (auto simp: rest split: if_splits)
  next
    fix l k assume k: "us_loginIndex (push_front E ds u (s\<lparr>us_idGen := g\<rparr>)) l = Some k"
    then have "us_loginIndex s l = Some k" by (simp add: rest)
    from users_invD(3) [OF i this] none
    show "k \<notin> pending (push_front E ds u (s\<lparr>us_idGen := g\<rparr>))"
      "login_of (push_front E ds u (s\<lparr>us_idGen := g\<rparr>)) k = Some l"
      by (auto simp: lo pending_def rest)
  next
    show "distinct (map fst (us_usersToDelete (push_front E ds u (s\<lparr>us_idGen := g\<rparr>))))"
      using users_invD(4) [OF i] by (simp add: rest)
  next
    fix k assume "k \<in> pending (push_front E ds u (s\<lparr>us_idGen := g\<rparr>))"
    then show "addr (push_front E ds u (s\<lparr>us_idGen := g\<rparr>)) k = Some 0"
      using users_invD(5) [OF i, of k] by (auto simp: ad pending_def rest)
  next
    fix ip k
    show "us_ipIndex (push_front E ds u (s\<lparr>us_idGen := g\<rparr>)) ip = Some k \<longleftrightarrow>
        ip \<noteq> 0 \<and> addr (push_front E ds u (s\<lparr>us_idGen := g\<rparr>)) k = Some ip"
      using users_invD(6) [OF i, of ip k] none by (auto simp: ad rest)
  qed
qed

lemma new_user_SomeD:
  assumes "new_user E ds login s = Some (u, t)"
  shows "t = s\<lparr>us_idGen := us_idGen s + 1\<rparr>" "u_id u = us_idGen s" "u_login u = login"
    "user_inv (e_FindTariff E) u"
proof -
  obtain w g where w: "UserImpl (env_in E s) ds (trace s) = Some w"
    and g: "SetLogin (env_in E s) (us_idGen s) login w = Some (g, u)" and t: "t = s\<lparr>us_idGen := g\<rparr>"
    using assms by (auto simp: new_user_def bind_eq_Some_conv)
  have "g = us_idGen s + 1 \<and> u_id u = us_idGen s \<and> u_login u = login"
    using g by (auto simp: SetLogin_def with_lock_def split: if_splits)
  then show "t = s\<lparr>us_idGen := us_idGen s + 1\<rparr>" "u_id u = us_idGen s" "u_login u = login" using t by simp_all
  show "user_inv (e_FindTariff E) u"
    using user_step_inv [OF step_set_login [OF g]] UserImpl_inv [OF w] by simp
qed

lemma index_login_inv:
  assumes i: "users_inv F s" and "login_of s k = Some l" and "k \<notin> pending s"
    and "AddUserIntoIndexes E l k s = Some (x, s')"
  shows "users_inv F s'"
proof -
  have s': "s' = (if us_loginIndex s l = None then s\<lparr>us_loginIndex := (us_loginIndex s)(l \<mapsto> k)\<rparr> else s)"
    using assms(4) by (auto simp: AddUserIntoIndexes_def users_locked_def split: if_splits)
  have "users_inv F (s\<lparr>us_loginIndex := (us_loginIndex s)(l \<mapsto> k)\<rparr>)"
    using i assms(2,3) unfolding users_inv_def pending_def by auto
  then show ?thesis using s' i by simp
qed

lemma pending_push [simp]: "pending (push_front E ds u s) = pending s"
  by (simp add: pending_def push_front_def)

lemma pending_upd [simp]:
  "pending (s\<lparr>trace := tr\<rparr>) = pending s" "pending (s\<lparr>us_locked := b\<rparr>) = pending s"
  "pending (s\<lparr>us_idGen := g\<rparr>) = pending s" "pending (emit e s) = pending s"
  by (simp_all add: pending_def emit_def)

text \<open>Putting a new user in the list and the index.\<close>

lemma enlist_inv:
  assumes i: "users_inv F s" and n: "u_id u = us_idGen s" "user_inv F u"
    and a: "AddUserIntoIndexes E (u_login u) (u_id u) (push_front E ds u (s\<lparr>us_idGen := us_idGen s + 1\<rparr>)) = Some (x, s')"
  shows "users_inv F s'"
proof -
  have "us_idGen s \<le> u_id u" "u_id u < us_idGen s + 1" using n by simp_all
  note p = push_front_inv [OF i this n(2)]
  show ?thesis by (rule index_login_inv [OF p(1,2) _ a]) (use p(3) in simp)
qed

lemma Users_Add_body_inv:
  assumes E: "e_FindTariff E = F" and i: "users_inv F s" and b: "Users_Add_body E ds adm login s = Some (rc, s')"
  shows "users_inv F s'"
proof (cases "p_userAddDel (Admin_priv adm) = 0 \<or> st_rc (e_store E) (trace s) (S_AddUser login) \<noteq> 0")
  case True
  then show ?thesis using b i by (auto simp: Users_Add_body_def call_def Let_def split: if_splits)
next
  case False
  define s1 where "s1 = emit (Call (S_AddUser login)) s"
  have i1: "users_inv F s1" using i by (simp add: s1_def)
  obtain u t u1 u2 u3 u4 x1 x2 x3 x4 x5 t' where n: "new_user E ds login s1 = Some (u, t)"
    and 1: "SetPassiveTimeAsNewUser (env_in E t) u = Some (x1, u1)"
    and 2: "WriteConf (env_in E t) u1 = Some (x2, u2)" and 3: "WriteStat (env_in E t) u2 = Some (x3, u3)"
    and 4: "OnAdd (env_in E t) (emit (Log (Admin_logStr adm @ '' User '' @ squote login @ '' added.'')) u3) = Some (x4, u4)"
    and 5: "AddUserIntoIndexes E login (u_id u4) (push_front E ds u4 t) = Some (x5, t')"
    and s': "s' = emit (UserImplAdded (u_id u4)) (emit (UserAdded (u_id u4)) t')"
    using False b by (auto simp: Users_Add_body_def call_def Let_def s1_def [symmetric] bind_eq_Some_conv)
  note nu = new_user_SomeD [OF n]
  have f: "frame u u4"
    using framed_callD [OF framed_SetPassiveTime 1] framed_callD [OF framed_saves(1) 2]
      framed_callD [OF framed_saves(3) 3] framed_callD [OF framed_OnAdd 4] by (simp add: frame_def emit_def)
  have "user_inv F u3"
    using nu(4) E user_step_inv [OF step_passive_time [OF 1]] user_step_inv [OF step_write_conf [OF 2]]
      user_step_inv [OF step_write_stat [OF 3]] by blast
  then have v: "user_inv F u4" using user_step_inv [OF step_on_add [OF 4]] by simp
  have "u_id u4 = us_idGen s1" "u_login u4 = login" using f nu by (simp_all add: frame_def)
  then have "users_inv F t'" using enlist_inv [OF i1 _ v, where E = E and ds = ds] 5 nu(1) by simp
  then show ?thesis by (simp add: s')
qed

lemma ReadUsers_loop_inv:
  assumes E: "e_FindTariff E = F"
    and st: "\<And>l. traff_wf (us_monthUp (snd (e_RestoreUserStat E l)))
         \<and> traff_wf (us_monthDown (snd (e_RestoreUserStat E l)))"
  shows "users_inv F s \<Longrightarrow> ReadUsers_loop E ds ls errors s = Some (rc, s') \<Longrightarrow> users_inv F s'"
proof (induction ls arbitrary: errors s)
  case (Cons l ls)
  from Cons.prems(2) obtain u t x1 t1 rc1 t2 where n: "new_user E ds l s = Some (u, t)"
    and 1: "AddUserIntoIndexes E l (u_id u) (push_front E ds u t) = Some (x1, t1)"
    and 2: "on_user E ReadConf (u_id u) t1 = Some (rc1, t2)"
    and 3: "(if s_stopOnError (e_set E) \<and> rc1 < 0 then Some (- 1, t2)
      else do {
        (rc', s) \<leftarrow> on_user E ReadStat (u_id u) t2;
        (if s_stopOnError (e_set E)
         then (if rc' < 0 then Some (- 1, s) else ReadUsers_loop E ds ls errors s)
         else ReadUsers_loop E ds ls (errors + (if rc1 < 0 then 1 else 0) + (if rc' < 0 then 1 else 0)) s)
      }) = Some (rc, s')"
    by (auto simp: bind_eq_Some_conv Let_def simp del: not_less)
  note nu = new_user_SomeD [OF n]
  have i1: "users_inv F t1"
    using enlist_inv [OF Cons.prems(1), where u = u and E = E and ds = ds] nu 1 E by simp
  have ro: "user_op F ReadConf"
    by (rule user_opI) (blast intro: framed_reads step_read_conf)+
  have i2: "users_inv F t2" by (rule on_user_op [OF ro E i1 2])
  have rs: "users_inv F t3" if "on_user E ReadStat (u_id u) t2 = Some (rc', t3)" for rc' t3
  proof -
    define f where "f = (\<lambda>E' u. if \<forall>l. e_RestoreUserStat E' l = e_RestoreUserStat E l then ReadStat E' u else None)"
    have "user_op F f"
      unfolding user_op_def f_def using st framed_callD [OF framed_reads(2)]
      by (auto split: if_splits intro: user_step_inv [OF step_read_stat])
    moreover have "on_user E f (u_id u) t2 = Some (rc', t3)"
      using that by (simp add: on_user_def env_in_def f_def)
    ultimately show ?thesis by (rule on_user_op [OF _ E i2])
  qed
  from 3 i2 show ?case
    by (auto simp: bind_eq_Some_conv split: if_splits dest!: rs dest: Cons.IH)
qed simp

lemma ReadUsers_inv:
  assumes "e_FindTariff E = F"
    and "\<And>l. traff_wf (us_monthUp (snd (e_RestoreUserStat E l)))
         \<and> traff_wf (us_monthDown (snd (e_RestoreUserStat E l)))"
    and "users_inv F s" and "ReadUsers E ds lst s = Some (rc, s')"
  shows "users_inv F s'"
  using assms ReadUsers_loop_inv [OF assms(1,2)] by (auto simp: ReadUsers_def split: if_splits)

lemma UsersImpl_inv: "users_inv F (UsersImpl tr)"
  by (simp add: users_inv_def UsersImpl_def pending_def user_at_def addr_def)

lemma Users_Del_mark_inv:
  assumes E: "e_FindTariff E = F" and i: "users_inv F s" and b: "Users_Del_mark E adm login s = Some (r, s')"
  shows "users_inv F s'"
  using b i unfolding Users_Del_mark_def
proof (rule users_locked_post [where P = "users_inv F" and Q = "\<lambda>_. users_inv F"])
  fix s x t assume i: "users_inv F s" and
    c: "(case FindByNameNonLock login s of
     None \<Rightarrow> Some (None, emit (Log (Admin_logStr adm @ '' tried to delete user '' @ squote login
                      @ '': not found.'')) s)
   | Some i \<Rightarrow> map_option (\<lambda>(_, s). (Some i, s))
       (on_user E (\<lambda>_ u. Some ((), u\<lparr>u_deleted := True\<rparr>)) i s)) = Some (x, t)"
  show "users_inv F t"
  proof (cases "FindByNameNonLock login s")
    case None
    then show ?thesis using c i by auto
  next
    case (Some k)
    then obtain y where o: "on_user E (\<lambda>_ u. Some ((), u\<lparr>u_deleted := True\<rparr>)) k s = Some (y, t)" using c by auto
    then obtain u where u: "user_at k s = Some u"
      and t: "t = s\<lparr>us_users := update_first (\<lambda>v. u_id v = k) (\<lambda>_. u\<lparr>u_deleted := True, trace := []\<rparr>) (us_users s)\<rparr>"
      by (auto elim!: on_user_SomeE)
    have "u_id u = k" using user_at_SomeD [OF u] by simp
    then have at: "user_at j t = (if j = k then Some (u\<lparr>u_deleted := True, trace := []\<rparr>) else user_at j s)" for j
      using user_at_update [OF u, of "u\<lparr>u_deleted := True, trace := []\<rparr>"] by (simp add: t)
    have "addr t = addr s" "login_of t = login_of s" using at u by (simp_all add: addr_def login_of_def fun_eq_iff)
    then show ?thesis
      using i at u \<open>u_id u = k\<close> unfolding users_inv_def pending_def by (auto simp: t ids_update split: if_splits)
  qed
qed simp_all

lemma DelUserFromIndexes_SomeD:
  "DelUserFromIndexes E l s = Some (x, s') \<Longrightarrow> s' = s\<lparr>us_loginIndex := (us_loginIndex s)(l := None)\<rparr>"
  by (auto simp: DelUserFromIndexes_def users_locked_def split: if_splits)

lemma Users_Del_finish_body_inv:
  assumes E: "e_FindTariff E = F" and i: "users_inv F s" and b: "Users_Del_finish_body E adm login k s = Some (x, s')"
    and k: "us_loginIndex s login = Some k" and a: "addr s k = Some 0"
  shows "users_inv F s'"
proof -
  from b obtain y t u z t' where o: "on_user E OnDelete k s = Some (y, t)"
    and u: "user_at k t = Some u"
    and d: "DelUserFromIndexes E (u_login u) (t\<lparr>us_usersToDelete := us_usersToDelete t @ [(k, e_stgTime E)]\<rparr>) = Some (z, t')"
    and s': "s' = emit (Log (Admin_logStr adm @ '' User '' @ squote login @ '' deleted.'')) t'"
    by (auto simp: Users_Del_finish_body_def Let_def bind_eq_Some_conv)
  have t: "users_inv F t" by (rule on_user_op [OF user_ops(2) E i o])
  have same: "\<And>u v. OnDelete (env_in E s) u = Some (y, v) \<Longrightarrow> same_user u v"
    using framed_callD [OF framed_OnDelete] frame_same by blast
  from o same obtain u0 v where u0: "user_at k s = Some u0" "OnDelete (env_in E s) (u0\<lparr>trace := trace s\<rparr>) = Some (y, v)"
    and p: "upd_user k (v\<lparr>trace := []\<rparr>) s t" by (rule on_user_upd)
  have fr: "frame u0 v" using framed_callD [OF framed_OnDelete u0(2)] by simp
  have uv: "u = v\<lparr>trace := []\<rparr>" using p u by (simp add: upd_user_def)
  have at: "addr t k = Some 0" using a u0 fr uv u by (auto simp: addr_def frame_def)
  have lo: "login_of t k = Some login" "u_login u = login" "us_loginIndex t = us_loginIndex s" "k \<notin> pending t"
    using users_invD(3) [OF i k] u0 fr uv u p by (auto simp: login_of_def frame_def upd_user_def pending_def)
  have "users_inv F t'"
    unfolding DelUserFromIndexes_SomeD [OF d] lo(2)
    using t at lo unfolding users_inv_def pending_def by (auto simp: lo(3))
  then show ?thesis by (simp add: s')
qed

text \<open>The deferred deletion.\<close>

lemma user_at_removed:
  assumes "distinct (map u_id (us_users s))"
  shows "user_at j (s\<lparr>us_users := remove_first (\<lambda>v. u_id v = i) (us_users s)\<rparr>) = (if j = i then None else user_at j s)"
  using assms by (simp add: user_at_def find_remove_first_same find_remove_first_other)

lemma remove_inv:
  assumes i: "users_inv F (s\<lparr>us_usersToDelete := ks @ (k, t) # ds\<rparr>)"
  shows "users_inv F (s\<lparr>us_users := remove_first (\<lambda>v. u_id v = k) (us_users s), us_usersToDelete := ks @ ds\<rparr>)"
    (is "users_inv F ?s'")
proof -
  note d = users_invD(1) [OF i, simplified]
  have at: "user_at j ?s' = (if j = k then None else user_at j s)" for j
    using user_at_removed [OF d] by simp
  have ad: "addr ?s' = (addr s)(k := None)" and lo: "login_of ?s' = (login_of s)(k := None)"
    using at by (simp_all add: addr_def login_of_def fun_eq_iff)
  note views = ad [simplified] lo [simplified]
  have z: "addr s k = Some 0" using users_invD(5) [OF i, of k] by (simp add: pending_def)
  have nk: "us_loginIndex s l \<noteq> Some k" for l using users_invD(3) [OF i, of l k] by (auto simp: pending_def)
  have dis: "distinct (map fst (ks @ ds))" "k \<notin> fst ` set (ks @ ds)" using users_invD(4) [OF i] by auto
  show ?thesis
    unfolding users_inv_def
  proof (intro conjI allI impI ballI)
    show "distinct (map u_id (us_users ?s'))" using d by (simp add: map_remove_first)
    show "distinct (map fst (us_usersToDelete ?s'))" using dis by simp
  next
    fix j u assume "user_at j ?s' = Some u"
    then show "j < us_idGen ?s'" "user_inv F u"
      using at users_invD(2) [OF i, of j u] by (auto split: if_splits)
  next
    fix l j assume "us_loginIndex ?s' l = Some j"
    then show "j \<notin> pending ?s'" "login_of ?s' j = Some l"
      using users_invD(3) [OF i, of l j] nk [of l] by (auto simp: pending_def views)
  next
    fix j assume "j \<in> pending ?s'"
    then show "addr ?s' j = Some 0"
      using users_invD(5) [OF i, of j] dis(2) by (auto simp: pending_def views)
  next
    fix ip j
    show "us_ipIndex ?s' ip = Some j \<longleftrightarrow> ip \<noteq> 0 \<and> addr ?s' j = Some ip"
      using users_invD(6) [OF i, of ip j] z by (auto simp: views)
  qed
qed

definition expired :: "env \<Rightarrow> int \<times> time_t \<Rightarrow> bool" where
  "expired E d \<longleftrightarrow> snd d + userDeleteDelayTime < e_stgTime E"

lemma filter_remove_first:
  assumes "distinct (map f xs)"
  shows "filter (\<lambda>x. f x \<notin> A) (remove_first (\<lambda>x. f x = k) xs) = filter (\<lambda>x. f x \<notin> insert k A) xs"
  using assms
proof (induction xs)
  case (Cons x xs)
  have "filter (\<lambda>y. f y \<notin> A) xs = filter (\<lambda>y. f y \<notin> insert (f x) A) xs"
    using Cons.prems by (auto intro!: filter_cong simp: image_iff)
  then show ?case using Cons by auto
qed simp

lemma RealDelUser_loop_spec:
  assumes "users_inv F (s\<lparr>us_usersToDelete := ks @ ds\<rparr>)"
  shows "\<exists>s'. RealDelUser_loop E ds s = Some (filter (\<lambda>d. \<not> expired E d) ds, s')
    \<and> users_inv F (s'\<lparr>us_usersToDelete := ks @ filter (\<lambda>d. \<not> expired E d) ds\<rparr>)
    \<and> us_users s' = filter (\<lambda>u. u_id u \<notin> fst ` set (filter (expired E) ds)) (us_users s)
    \<and> us_loginIndex s' = us_loginIndex s \<and> us_ipIndex s' = us_ipIndex s \<and> us_locked s' = us_locked s"
  using assms
proof (induction ds arbitrary: ks s)
  case (Cons d ds)
  obtain k t where d: "d = (k, t)" by force
  have "addr s k = Some 0" using users_invD(5) [OF Cons.prems, of k] by (simp add: pending_def d)
  then obtain u where u: "user_at k s = Some u" by (auto simp: addr_def)
  show ?case
  proof (cases "expired E d")
    case True
    define s1 where "s1 = (let (rc, s) = call (e_store E) (S_DelUser (u_login u)) s
      in if rc \<noteq> 0 then emit (Log (''Error removing user '' @ squote (u_login u) @ '' from database.'')) s else s)"
    have s1: "us_users s1 = us_users s" "us_loginIndex s1 = us_loginIndex s" "us_ipIndex s1 = us_ipIndex s"
      "us_locked s1 = us_locked s"
      by (simp_all add: s1_def call_def emit_def Let_def)
    have "users_inv F (s1\<lparr>us_usersToDelete := ks @ (k, t) # ds\<rparr>)"
    proof -
      have "s1\<lparr>us_usersToDelete := ks @ (k, t) # ds\<rparr> = (s\<lparr>us_usersToDelete := ks @ (k, t) # ds\<rparr>)\<lparr>trace := trace s1\<rparr>"
        by (simp add: s1_def call_def emit_def Let_def)
      then show ?thesis using Cons.prems d by simp
    qed
    from remove_inv [OF this]
    have i1: "users_inv F ((s1\<lparr>us_users := remove_first (\<lambda>v. u_id v = k) (us_users s1)\<rparr>)\<lparr>us_usersToDelete := ks @ ds\<rparr>)"
      by simp
    have "RealDelUser_loop E (d # ds) s =
        RealDelUser_loop E ds (s1\<lparr>us_users := remove_first (\<lambda>v. u_id v = k) (us_users s1)\<rparr>)"
      using u True by (simp add: d expired_def s1_def Let_def case_prod_beta)
    with Cons.IH [OF i1] True s1 filter_remove_first [OF users_invD(1) [OF Cons.prems, simplified], of "fst ` set (filter (expired E) ds)" k] d
    show ?thesis by auto
  next
    case False
    have "RealDelUser_loop E (d # ds) s = map_option (\<lambda>(ds, s). (d # ds, s)) (RealDelUser_loop E ds s)"
      using u False by (simp add: d expired_def)
    with Cons.IH [of "ks @ [d]" s] Cons.prems False show ?thesis by auto
  qed
qed simp

lemma RealDelUser_inv:
  assumes "users_inv F s" and "RealDelUser E s = Some (x, s')"
  shows "users_inv F s'"
  using assms(2,1) unfolding RealDelUser_def
proof (rule users_locked_post [where P = "users_inv F" and Q = "\<lambda>_. users_inv F"])
  fix s x t assume "users_inv F s"
    and "map_option (\<lambda>(ds, s). ((), s\<lparr>us_usersToDelete := ds\<rparr>)) (RealDelUser_loop E (us_usersToDelete s) s) = Some (x, t)"
  then show "users_inv F t" using RealDelUser_loop_spec [where F = F and s = s and ks = "[]" and ds = "us_usersToDelete s" and E = E] by auto
qed simp_all

subsection \<open>The main loop\<close>

lemma write_detail_stats_inv:
  assumes E: "e_FindTariff E = F"
  shows "users_inv F s \<Longrightarrow> write_detail_stats E is n s = Some s' \<Longrightarrow> users_inv F s'"
proof (induction "is" arbitrary: n s)
  case (Cons i "is")
  from Cons.prems(2) obtain x t t' where 1: "on_user E (\<lambda>E. WriteDetailStat E False) i s = Some (x, t)"
    and 2: "(if Suc n mod 10 = 0 then for_each E Run t else Some t) = Some t'"
    and 3: "write_detail_stats E is (Suc n) t' = Some s'"
    by (auto simp: bind_eq_Some_conv simp del: mod_Suc_eq)
  have "users_inv F t" by (rule on_user_op [OF user_ops(4) E Cons.prems(1) 1])
  then have "users_inv F t'" using 2 for_each_op [OF user_ops(1) E] by (auto split: if_splits)
  then show ?case using Cons.IH 3 by blast
qed simp

lemma NewMinute_inv:
  assumes E: "e_FindTariff E = F" and i: "users_inv F s" and n: "NewMinute E t s = Some s'"
  shows "users_inv F s'"
proof -
  from n obtain a b y where
    1: "(if tm_hour t = 23 \<and> tm_min t = 59 then for_each E MidnightResetSessionStat s else Some s) = Some a"
    and 2: "(if TimeToWriteDetailStat E t then write_detail_stats E (map u_id (us_users a)) 0 a else Some a) = Some b"
    and 3: "RealDelUser E b = Some (y, s')"
    by (auto simp only: NewMinute_def bind_eq_Some_conv map_option_eq_Some snd_conv)
  have "users_inv F a" using 1 i for_each_op [OF user_ops(3) E i] by (cases "tm_hour t = 23 \<and> tm_min t = 59") simp_all
  then have "users_inv F b" using 2 write_detail_stats_inv [OF E] by (cases "TimeToWriteDetailStat E t") simp_all
  then show ?thesis using 3 RealDelUser_inv by blast
qed

lemma DayResetTraff_inv:
  assumes "e_FindTariff E = F" and "users_inv F s" and "DayResetTraff E t s = Some s'"
  shows "users_inv F s'"
  using assms(2,3) for_each_op [OF user_ops(10) assms(1)] by (auto simp: DayResetTraff_def Let_def split: if_splits)

lemma NewDay_inv:
  assumes E: "e_FindTariff E = F" and i: "users_inv F s" and n: "NewDay E t s = Some s'"
  shows "users_inv F s'"
proof -
  let ?t1 = "e_localtime E (e_stgTime E)" and ?last = "s_dayFeeIsLastDay (e_set E)"
  define D where "D = (if sint (s_dayFee (e_set E)) = 0 then DaysInCurrentMonth (e_localtime E) (e_time E)
    else sint (s_dayFee (e_set E)))"
  from n obtain a b c d where 1: "(if \<not> ?last then DayResetTraff E ?t1 s else Some s) = Some a"
    and 2: "(if s_spreadFee (e_set E) then for_each E ProcessDayFeeSpread a
             else if tm_mday t = D then for_each E ProcessDayFee a else Some a) = Some b"
    and 3: "for_each E ProcessDailyFee b = Some c" and 4: "for_each E ProcessServices c = Some d"
    and 5: "(if ?last then DayResetTraff E ?t1 d else Some d) = Some s'"
    unfolding NewDay_def Let_def bind_eq_Some_conv D_def [symmetric] by (elim exE conjE)
  have "users_inv F a" using 1 i DayResetTraff_inv [OF E i] by (cases ?last) simp_all
  moreover have "b = a \<or> for_each E ProcessDayFeeSpread a = Some b \<or> for_each E ProcessDayFee a = Some b"
    using 2 by (metis option.inject)
  ultimately have "users_inv F b" using for_each_op [OF user_ops(7) E] for_each_op [OF user_ops(6) E] by blast
  then have "users_inv F d" using for_each_op [OF user_ops(8) E _ 3] for_each_op [OF user_ops(9) E _ 4] by blast
  then show ?thesis using 5 DayResetTraff_inv [OF E] by (cases ?last) simp_all
qed

lemma Users_Run_turn_inv:
  assumes E: "e_FindTariff E = F" and i: "users_inv F s" and r: "Users_Run_turn E md s = Some (md', s')"
  shows "users_inv F s'"
proof -
  let ?t = "e_localtime E (e_stgTime E)"
  from r obtain a b where 1: "for_each E Run s = Some a"
    and 2: "(if fst md \<noteq> tm_min ?t then NewMinute E ?t a else Some a) = Some b"
    and 3: "(if snd md \<noteq> tm_mday ?t then NewDay E ?t b else Some b) = Some s'"
    unfolding Users_Run_turn_def Let_def bind_eq_Some_conv by (auto simp only: option.inject prod.inject)
  have "users_inv F a" by (rule for_each_op [OF user_ops(1) E i 1])
  then have "users_inv F b" using 2 NewMinute_inv [OF E] by (cases "fst md \<noteq> tm_min ?t") simp_all
  then show ?thesis using 3 NewDay_inv [OF E] by (cases "snd md \<noteq> tm_mday ?t") simp_all
qed

lemma shift_delTime_inv:
  assumes "map fst ds = map fst (us_usersToDelete s)"
  shows "users_inv F (s\<lparr>us_usersToDelete := ds\<rparr>) = users_inv F s"
proof -
  have "pending (s\<lparr>us_usersToDelete := ds\<rparr>) = pending s"
    using arg_cong [OF assms, of set] by (simp add: pending_def)
  then show ?thesis using assms by (simp add: users_inv_def)
qed

lemma Users_Run_end_inv:
  assumes "users_inv F s" and "Users_Run_end E s = Some s'"
  shows "users_inv F s'"
proof -
  let ?ds = "map (\<lambda>(i, t). (i, t - 2 * userDeleteDelayTime)) (us_usersToDelete s)"
  have "users_inv F (s\<lparr>us_usersToDelete := ?ds\<rparr>)"
    using assms(1) by (subst shift_delTime_inv) (auto simp: case_prod_beta)
  then show ?thesis using assms(2) RealDelUser_inv by (auto simp: Users_Run_end_def)
qed

lemma Users_Stop_inv:
  assumes E: "e_FindTariff E = F" and i: "users_inv F s" and r: "Users_Stop E s = Some s'"
  shows "users_inv F s'"
proof -
  from r obtain a b where 1: "for_each E Run s = Some a" "for_each E (\<lambda>E. WriteDetailStat E True) a = Some b"
    "for_each E WriteStat b = Some s'"
    by (auto simp only: Users_Stop_def bind_eq_Some_conv)
  show ?thesis
    using for_each_op [OF user_ops(1) E i 1(1)] for_each_op [OF user_ops(4) E _ 1(2)]
      for_each_op [OF user_ops(5) E _ 1(3)] by blast
qed

subsection \<open>Reachable states\<close>

text \<open>
  The calls that change the registry. The observers of a deletion run between the two halves of \<open>Del\<close>; by
  the time of the second half nobody authorizes the user any more (the authorizers of the server do that when
  they are notified) and nobody else has deleted it.
\<close>

inductive property_setter :: "(env \<Rightarrow> user \<Rightarrow> (bool \<times> user) option) \<Rightarrow> bool" where
  "property_setter (\<lambda>E. UserPropertyLogged_Set E (prop_cash E) d adm msg)"
| "property_setter (\<lambda>E. UserPropertyLogged_Set E prop_freeMb d adm msg)"
| "traff_wf ts \<Longrightarrow> property_setter (\<lambda>E. UserPropertyLogged_Set E prop_up ts adm msg)"
| "traff_wf ts \<Longrightarrow> property_setter (\<lambda>E. UserPropertyLogged_Set E prop_down ts adm msg)"
| "property_setter (\<lambda>E. UserPropertyLogged_Set E (prop_passive E) i adm msg)"
| "property_setter (\<lambda>E. UserPropertyLogged_Set E (prop_disabled E) i adm msg)"
| "property_setter (\<lambda>E. UserPropertyLogged_Set E (prop_tariffName E) st adm msg)"
| "property_setter (\<lambda>E. UserPropertyLogged_Set E (prop_ips E) ips adm msg)"
| "property_setter (\<lambda>E. UserPropertyLogged_Set E prop_password st adm msg)"
| "property_setter (\<lambda>E. UserPropertyLogged_Set E prop_nextTariff st adm msg)"
| "property_setter (\<lambda>E. UserPropertyLogged_Set E prop_credit d adm msg)"
| "property_setter (\<lambda>E. UserPropertyLogged_Set E prop_creditExpire t adm msg)"

lemma property_setter_op: "property_setter f \<Longrightarrow> user_op F f"
  by (erule property_setter.cases; simp; rule user_opI;
      blast intro: framed_logged framed_properties user_step.intros)

lemma outside_ops:
  "user_op F (\<lambda>E. AddTraffStatU E dir ip len)" "user_op F (\<lambda>E. AddTraffStatD E dir ip len)"
  "user_op F (\<lambda>E. AddMessage E m)" "user_op F (\<lambda>E. UpdatePingTime E t)"
  by (rule user_opI; blast intro: framed_outside user_step.intros)+

inductive users_step :: "(string \<Rightarrow> nat option) \<Rightarrow> users \<Rightarrow> users \<Rightarrow> bool" for F where
  us_add: "Users_Add E ds adm login s = Some (rc, s') \<Longrightarrow> e_FindTariff E = F \<Longrightarrow> users_step F s s'"
| us_del_mark: "Users_Del_mark E adm login s = Some (r, s') \<Longrightarrow> e_FindTariff E = F \<Longrightarrow> users_step F s s'"
| us_del_finish: "Users_Del_finish E adm login k s = Some (x, s') \<Longrightarrow> e_FindTariff E = F \<Longrightarrow>
    us_loginIndex s login = Some k \<Longrightarrow> addr s k = Some 0 \<Longrightarrow> users_step F s s'"
| us_real_del: "RealDelUser E s = Some (x, s') \<Longrightarrow> users_step F s s'"
| us_authorize: "Users_Authorize E login ip dirs auth s = Some (ok, s') \<Longrightarrow> e_FindTariff E = F \<Longrightarrow> users_step F s s'"
| us_unauthorize: "Users_Unauthorize E login auth r s = Some (ok, s') \<Longrightarrow> e_FindTariff E = F \<Longrightarrow> users_step F s s'"
| us_open: "Users_OpenSearch E s = Some (h, s') \<Longrightarrow> users_step F s s'"
| us_next: "Users_SearchNext E h s = Some (v, s') \<Longrightarrow> users_step F s s'"
| us_close: "Users_CloseSearch E h s = Some (rc, s') \<Longrightarrow> users_step F s s'"
| us_turn: "Users_Run_turn E md s = Some (md', s') \<Longrightarrow> e_FindTariff E = F \<Longrightarrow> users_step F s s'"
| us_end: "Users_Run_end E s = Some s' \<Longrightarrow> users_step F s s'"
| us_stop: "Users_Stop E s = Some s' \<Longrightarrow> e_FindTariff E = F \<Longrightarrow> users_step F s s'"
| us_set: "property_setter f \<Longrightarrow> on_user E f i s = Some (b, s') \<Longrightarrow> e_FindTariff E = F \<Longrightarrow> users_step F s s'"
| us_traff_up: "on_user E (\<lambda>E. AddTraffStatU E dir ip len) i s = Some (y, s') \<Longrightarrow> e_FindTariff E = F \<Longrightarrow> users_step F s s'"
| us_traff_down: "on_user E (\<lambda>E. AddTraffStatD E dir ip len) i s = Some (y, s') \<Longrightarrow> e_FindTariff E = F \<Longrightarrow> users_step F s s'"
| us_message: "on_user E (\<lambda>E. AddMessage E m) i s = Some (rc, s') \<Longrightarrow> e_FindTariff E = F \<Longrightarrow> users_step F s s'"
| us_ping: "on_user E (\<lambda>E. UpdatePingTime E t) i s = Some (y, s') \<Longrightarrow> e_FindTariff E = F \<Longrightarrow> users_step F s s'"

lemma users_inv_locked:
  assumes "users_locked E f s = Some (x, s')" and "users_inv F s"
    and "\<And>s x t. users_inv F s \<Longrightarrow> f s = Some (x, t) \<Longrightarrow> users_inv F t"
  shows "users_inv F s'"
  by (rule users_locked_post [where P = "users_inv F" and Q = "\<lambda>_. users_inv F", OF assms]) simp_all

lemma Users_OpenSearch_inv: "Users_OpenSearch E s = Some (h, s') \<Longrightarrow> users_inv F s \<Longrightarrow> users_inv F s'"
  unfolding Users_OpenSearch_def by (erule users_inv_locked) (auto simp: Let_def)

lemma Users_SearchNext_inv: "Users_SearchNext E k s = Some (v, s') \<Longrightarrow> users_inv F s \<Longrightarrow> users_inv F s'"
  unfolding Users_SearchNext_def
  by (erule users_inv_locked)
    (auto simp: Users_SearchNext_body_def Let_def split: option.splits list.splits if_splits)

lemma Users_CloseSearch_inv: "Users_CloseSearch E k s = Some (rc, s') \<Longrightarrow> users_inv F s \<Longrightarrow> users_inv F s'"
  unfolding Users_CloseSearch_def by (erule users_inv_locked) (auto simp: Let_def split: if_splits)

lemma Users_Add_inv:
  assumes "Users_Add E ds adm login s = Some (rc, s')" and "e_FindTariff E = F" and "users_inv F s"
  shows "users_inv F s'"
  by (rule users_inv_locked [OF assms(1) [unfolded Users_Add_def] assms(3)]) (rule Users_Add_body_inv [OF assms(2)])

lemma Users_Authorize_inv:
  assumes "Users_Authorize E login ip dirs auth s = Some (ok, s')" and "e_FindTariff E = F" and "users_inv F s"
  shows "users_inv F s'"
  by (rule users_inv_locked [OF assms(1) [unfolded Users_Authorize_def] assms(3)])
    (rule Users_Authorize_body_inv [OF assms(2)])

lemma Users_Unauthorize_inv:
  assumes "Users_Unauthorize E login auth r s = Some (ok, s')" and "e_FindTariff E = F" and "users_inv F s"
  shows "users_inv F s'"
  by (rule users_inv_locked [OF assms(1) [unfolded Users_Unauthorize_def] assms(3)])
    (rule Users_Unauthorize_body_inv [OF assms(2)])

lemma Users_Del_finish_inv:
  assumes "Users_Del_finish E adm login k s = Some (x, s')" and "e_FindTariff E = F" and "users_inv F s"
    and "us_loginIndex s login = Some k" and "addr s k = Some 0"
  shows "users_inv F s'"
proof (rule users_locked_post [where Q = "\<lambda>_. users_inv F"
        and P = "\<lambda>s. users_inv F s \<and> us_loginIndex s login = Some k \<and> addr s k = Some 0",
        OF assms(1) [unfolded Users_Del_finish_def]])
  show "users_inv F t"
    if "users_inv F s \<and> us_loginIndex s login = Some k \<and> addr s k = Some 0"
      "Users_Del_finish_body E adm login k s = Some (x, t)" for s x t
    using Users_Del_finish_body_inv [OF assms(2) _ that(2)] that(1) by blast
qed (use assms(3-5) in simp_all)

lemma users_step_inv: "users_step F s s' \<Longrightarrow> users_inv F s \<Longrightarrow> users_inv F s'"
proof (induction rule: users_step.induct)
  case us_add
  then show ?case by (rule Users_Add_inv)
next
  case us_del_mark
  then show ?case using Users_Del_mark_inv by blast
next
  case us_del_finish
  then show ?case using Users_Del_finish_inv by blast
next
  case us_real_del
  then show ?case using RealDelUser_inv by blast
next
  case us_authorize
  then show ?case by (rule Users_Authorize_inv)
next
  case us_unauthorize
  then show ?case by (rule Users_Unauthorize_inv)
next
  case us_open
  then show ?case by (rule Users_OpenSearch_inv)
next
  case us_next
  then show ?case by (rule Users_SearchNext_inv)
next
  case us_close
  then show ?case by (rule Users_CloseSearch_inv)
next
  case us_turn
  then show ?case using Users_Run_turn_inv by blast
next
  case us_end
  then show ?case using Users_Run_end_inv by blast
next
  case us_stop
  then show ?case using Users_Stop_inv by blast
next
  case us_set
  then show ?case using on_user_op [OF property_setter_op] by blast
next
  case us_traff_up
  then show ?case using on_user_op [OF outside_ops(1)] by blast
next
  case us_traff_down
  then show ?case using on_user_op [OF outside_ops(2)] by blast
next
  case us_message
  then show ?case using on_user_op [OF outside_ops(3)] by blast
next
  case us_ping
  then show ?case using on_user_op [OF outside_ops(4)] by blast
qed

lemma users_reach_inv:
  "(users_step F)\<^sup>*\<^sup>* s s' \<Longrightarrow> users_inv F s \<Longrightarrow> users_inv F s'"
  by (induction rule: rtranclp_induct) (auto dest: users_step_inv)

lemma find_distinct: "distinct (map f xs) \<Longrightarrow> x \<in> set xs \<Longrightarrow> find (\<lambda>y. f y = f x) xs = Some x"
  by (induction xs) auto

lemma mem_user_at: "distinct (map u_id (us_users s)) \<Longrightarrow> u \<in> set (us_users s) \<Longrightarrow> user_at (u_id u) s = Some u"
  by (simp add: user_at_def find_distinct)

end
