(* ===== verification/Stg_UsersLife.thy ===== *)
theory Stg_UsersLife
  imports Stg_UsersInv
begin

text \<open>
  What the registry of users achieves: the indexes in every reachable state, the calls that lock the mutex
  of the registry twice, deferred deletion and searching.
\<close>

subsection \<open>Reachable states\<close>



definition sample_users_env :: env where
  "sample_users_env = sample_env\<lparr>e_relock_blocks := False,
     e_RestoreUserConf := (\<lambda>_. (0, u_conf sample_user)), e_RestoreUserStat := (\<lambda>_. (0, u_stat sample_user))\<rparr>"

definition sample_users :: users where
  "sample_users = (case ReadUsers sample_users_env [] (0, [''u'']) (UsersImpl []) of
     Some (rc, s) \<Rightarrow> s | None \<Rightarrow> UsersImpl [])"

lemmas sample_users_simps = sample_users_def ReadUsers_def new_user_def UserImpl_def sample_users_env_def sample_env_def
  SetLogin_def with_lock_def push_front_def UserImpl_copy_def AddUserIntoIndexes_def users_locked_def on_user_def
  user_at_def ReadConf_def ReadStat_def env_in_def UsersImpl_def sample_settings_def GetStatWritePeriod_def
  sample_user_def Let_def read_messages_def

lemma sample_users_eq: "ReadUsers sample_users_env [] (0, [''u'']) (UsersImpl []) = Some (0, sample_users)"
  by (simp add: sample_users_simps)

lemma sample_users_fields:
  "\<exists>u. us_users sample_users = [u] \<and> u_id u = 0 \<and> u_login u = ''u'' \<and> u_authorizedBy u = [] \<and> u_currIP u = 0
     \<and> u_messages u = [] \<and> \<not> u_locked u \<and> \<not> u_deleted u \<and> uc_ips (u_conf u) = [\<lparr>im_ip = 0, im_mask = 0\<rparr>]"
  "us_loginIndex sample_users = [''u'' \<mapsto> 0]" "us_ipIndex sample_users = Map.empty" "\<not> us_locked sample_users"
  "us_usersToDelete sample_users = []" "us_idGen sample_users = 1" "us_handle sample_users = 0"
  "us_searchDescriptors sample_users = Map.empty"
  by (simp_all add: sample_users_simps)

lemma set_currIP_fields [simp]:
  "u_messages (set_currIP E ip u) = u_messages u" "u_id (set_currIP E ip u) = u_id u"
  "u_authorizedBy (set_currIP E ip u) = u_authorizedBy u" "u_login (set_currIP E ip u) = u_login u" "u_currIP (set_currIP E ip u) = ip"
  by (simp_all add: set_currIP_def ModifyTime_def emit_def)

lemma sample_authorize:
  "\<exists>s v. Users_Authorize sample_users_env ''u'' 5 0 1 sample_users = Some (True, s) \<and> us_ipIndex s 5 = Some 0
     \<and> \<not> us_locked s \<and> us_loginIndex s ''u'' = Some 0 \<and> user_at 0 s = Some v \<and> \<not> u_locked v \<and> u_login v = ''u''
     \<and> u_authorizedBy v = [1] \<and> u_currIP v = 5"
proof -
  obtain u where u: "us_users sample_users = [u]" "u_id u = 0" "u_login u = ''u''" "u_authorizedBy u = []" "u_currIP u = 0"
     "u_messages u = []" "\<not> u_locked u" "\<not> u_deleted u" "uc_ips (u_conf u) = [\<lparr>im_ip = 0, im_mask = 0\<rparr>]"
    using sample_users_fields(1) by blast
  show ?thesis
    using u sample_users_fields(2-)
    by (simp add: Users_Authorize_def users_locked_def Users_Authorize_body_def UserIPs_find_def
     FindByNameNonLock_def on_user_def user_at_def env_in_def with_lock_def Authorize_def Authorize_body_def users_lock_def
     Authorize_finish_def ScanMessage_def ScanMessage_loop.simps AddToIPIdx_def sample_users_env_def sample_env_def Let_def insert_auth_def insort_insert_key_def)
qed


subsection \<open>Calls that lock the mutex twice\<close>

lemma Authorize_blocks:
  assumes "e_relock_blocks E" and "e_users_locked E" and "\<not> u_locked u" and "auth \<notin> set (u_authorizedBy u)"
    and "ip \<noteq> 0" and "u_authorizedBy u = [] \<or> u_currIP u = ip"
  shows "Authorize E ip dirs auth u = None"
  using assms by (auto simp: Authorize_def with_lock_def Authorize_body_def users_lock_def Let_def)

lemma users_locked_None:
  "\<not> us_locked s \<Longrightarrow> f (s\<lparr>us_locked := True\<rparr>) = None \<Longrightarrow> users_locked E f s = None"
  by (simp add: users_locked_def)

lemma nested_lock_None: "us_locked s \<Longrightarrow> e_relock_blocks E \<Longrightarrow> users_locked E f s = None"
  by (simp add: users_locked_def)

lemma bind_None_all: "(\<And>x. f x = None) \<Longrightarrow> Option.bind m f = None"
  by (cases m) simp_all

lemma Users_Add_blocks:
  assumes "e_relock_blocks E" and "\<not> us_locked s" and "p_userAddDel (Admin_priv adm) \<noteq> 0"
    and "st_rc (e_store E) (trace s) (S_AddUser new) = 0"
  shows "Users_Add E ds adm new s = None"
  unfolding Users_Add_def
proof (rule users_locked_None [OF assms(2)], rule ccontr)
  let ?s = "s\<lparr>us_locked := True\<rparr>"
  assume "Users_Add_body E ds adm new ?s \<noteq> None"
  then obtain u1 s1 w s2 y where 1: "new_user E ds new (emit (Call (S_AddUser new)) ?s) = Some (u1, s1)"
    and 2: "AddUserIntoIndexes E new (u_id w) (push_front E ds w s1) = Some (y, s2)"
    using assms(3,4) by (auto simp: Users_Add_body_def call_def bind_eq_Some_conv)
  have "us_locked (push_front E ds w s1)"
    using 1 by (auto simp: new_user_def push_front_def bind_eq_Some_conv emit_def)
  with 2 show False using assms(1) by (simp add: AddUserIntoIndexes_def nested_lock_None)
qed

lemma Users_Authorize_blocks:
  assumes "e_relock_blocks E" and "\<not> us_locked s" and "us_loginIndex s login = Some i" and "user_at i s = Some u" and "\<not> u_locked u"
    and "ip \<noteq> 0 \<and> (us_ipIndex s ip = None \<or> us_ipIndex s ip = Some i \<and> u_login u = login)"
    and "auth \<notin> set (u_authorizedBy u) \<and> (u_authorizedBy u = [] \<or> u_currIP u = ip)"
  shows "Users_Authorize E login ip dirs auth s = None"
  unfolding Users_Authorize_def
proof (rule users_locked_None [OF assms(2)])
  let ?s = "s\<lparr>us_locked := True\<rparr>"
  have "on_user E (\<lambda>E. Authorize E ip dirs auth) i ?s = None"
    using assms(1,4-7) Authorize_blocks [of "env_in E ?s" "u\<lparr>trace := trace s\<rparr>" auth ip dirs]
    by (simp add: on_user_def user_at_def env_in_def)
  then show "Users_Authorize_body E login ip dirs auth ?s = None"
    using assms(3,4,6) by (auto simp: Users_Authorize_body_def FindByNameNonLock_def user_at_def)
qed

lemma Users_Del_finish_blocks:
  assumes "e_relock_blocks E" and "\<not> us_locked t"
  shows "Users_Del_finish E adm login i t = None"
  unfolding Users_Del_finish_def
proof (rule users_locked_None [OF assms(2)], rule ccontr)
  assume "Users_Del_finish_body E adm login i (t\<lparr>us_locked := True\<rparr>) \<noteq> None"
  then obtain x a v b y where o: "on_user E OnDelete i (t\<lparr>us_locked := True\<rparr>) = Some (x, a)"
    and d: "DelUserFromIndexes E v (a\<lparr>us_usersToDelete := b\<rparr>) = Some y"
    by (auto simp: Users_Del_finish_body_def Let_def bind_eq_Some_conv)
  have "us_locked a" using o by (auto simp: on_user_def bind_eq_Some_conv)
  with d show False using assms(1) by (simp add: DelUserFromIndexes_def nested_lock_None)
qed

lemma Users_Del_blocks:
  assumes "e_relock_blocks E" and "\<not> us_locked s" and "us_loginIndex s login = Some i" and "p_userAddDel (Admin_priv adm) \<noteq> 0"
  shows "Users_Del E adm login s = None"
proof (rule ccontr)
  assume "Users_Del E adm login s \<noteq> None"
  then obtain r t where m: "Users_Del_mark E adm login s = Some (r, t)"
    and r: "(case r of None \<Rightarrow> Some ((), t) | Some i \<Rightarrow> Users_Del_finish E adm login i
           (emit (UserImplDeleted i) (emit (UserDeleted i) t))) \<noteq> None"
    using assms(4) by (auto simp: Users_Del_def bind_eq_Some_conv)
  have "r = Some i \<and> \<not> us_locked t"
    using m assms(2,3) by (auto simp: Users_Del_mark_def users_locked_def FindByNameNonLock_def)
  with r Users_Del_finish_blocks [OF assms(1)] show False by (simp add: emit_def)
qed

lemma last_authorizer_leaves:
  assumes "on_user E (\<lambda>E. Unauthorize E auth' reason) i s = Some (x, t)" and "user_at i t = Some v"
    and "user_at i s = Some u" and "\<not> u_locked u" and "u_authorizedBy u = [auth']"
  shows "u_authorizedBy v = []"
  using assms(1)
proof (rule on_user_upd)
  show "same_user a b" if "Unauthorize (env_in E s) auth' reason a = Some (x, b)" for a b
    using Unauthorize_cases [OF that] by blast
  fix a b assume a: "user_at i s = Some a" "Unauthorize (env_in E s) auth' reason (a\<lparr>trace := trace s\<rparr>) = Some (x, b)"
    "upd_user i (b\<lparr>trace := []\<rparr>) s t"
  have "u_authorizedBy b = []"
    using a(1,2) assms(3-5) by (auto simp: Unauthorize_def with_lock_def Unauthorize_body_def Let_def)
  then show ?thesis using a(3) assms(2) by (auto simp: upd_user_def)
qed

lemma Users_Unauthorize_blocks:
  assumes "e_relock_blocks E" and "\<not> us_locked s" and "us_loginIndex s login = Some i" and "user_at i s = Some u" and "\<not> u_locked u"
    and "u_authorizedBy u = [auth']"
  shows "Users_Unauthorize E login auth' reason s = None"
  unfolding Users_Unauthorize_def
proof (rule users_locked_None [OF assms(2)], rule ccontr)
  let ?s = "s\<lparr>us_locked := True\<rparr>"
  assume "Users_Unauthorize_body E login auth' reason ?s \<noteq> None"
  then obtain x t v where o: "on_user E (\<lambda>E. Unauthorize E auth' reason) i ?s = Some (x, t)"
    and v: "user_at i t = Some v" and d: "u_authorizedBy v = [] \<Longrightarrow> DelFromIPIdx E (u_currIP u) t \<noteq> None"
    using assms(3,4) by (auto simp: Users_Unauthorize_body_def FindByNameNonLock_def user_at_def bind_eq_Some_conv
        split: if_splits)
  have "us_locked t" using o by (auto simp: on_user_def bind_eq_Some_conv)
  then have "DelFromIPIdx E (u_currIP u) t = None" using assms(1) by (simp add: DelFromIPIdx_def nested_lock_None)
  moreover have "user_at i ?s = Some u" using assms(4) by (simp add: user_at_def)
  ultimately show False using d last_authorizer_leaves [OF o v _ assms(5,6)] by blast
qed

text \<open>C38. The mutex of the registry is not recursive, and four of its methods lock it again while they hold
  it: on a platform where that blocks, adding a user, deleting a known user, authorizing a user from an
  address and withdrawing its last authorization never return.\<close>

theorem users_self_deadlock:
  assumes "e_relock_blocks E" and "\<not> us_locked s" and "us_loginIndex s login = Some i" and "user_at i s = Some u"
    and "\<not> u_locked u" and "p_userAddDel (Admin_priv adm) \<noteq> 0"
    and "ip \<noteq> 0 \<and> (us_ipIndex s ip = None \<or> us_ipIndex s ip = Some i \<and> u_login u = login)"
    and "auth \<notin> set (u_authorizedBy u) \<and> (u_authorizedBy u = [] \<or> u_currIP u = ip)"
    and "st_rc (e_store E) (trace s) (S_AddUser new) = 0"
  shows "Users_Add E ds adm new s = None \<and> Users_Del E adm login s = None
    \<and> Users_Authorize E login ip dirs auth s = None
    \<and> (u_authorizedBy u = [auth'] \<longrightarrow> Users_Unauthorize E login auth' reason s = None)"
  using Users_Add_blocks [OF assms(1,2,6,9)] Users_Del_blocks [OF assms(1-3,6)] Users_Authorize_blocks [OF assms(1-5,7,8)]
    Users_Unauthorize_blocks [OF assms(1-5)] by blast

theorem users_self_deadlock_witness:
  "\<exists>s. Users_Authorize sample_users_env ''u'' 5 0 1 sample_users = Some (True, s)
     \<and> Users_Add sample_env [] as_stg ''v'' s = None \<and> Users_Del sample_env as_stg ''u'' s = None
     \<and> Users_Authorize sample_env ''u'' 5 0 2 s = None \<and> Users_Unauthorize sample_env ''u'' 1 '''' s = None"
proof -
  obtain s v where s: "Users_Authorize sample_users_env ''u'' 5 0 1 sample_users = Some (True, s)"
    "us_ipIndex s 5 = Some 0" "\<not> us_locked s" "us_loginIndex s ''u'' = Some 0" "user_at 0 s = Some v" "\<not> u_locked v"
    "u_login v = ''u''" "u_authorizedBy v = [1]" "u_currIP v = 5"
    using sample_authorize by blast
  have p: "p_userAddDel (Admin_priv as_stg) \<noteq> 0" by (simp add: as_stg_def Admin_def Priv_def)
  have "e_relock_blocks sample_env" "st_rc (e_store sample_env) (trace s) (S_AddUser ''v'') = 0"
    by (simp_all add: sample_env_def good_store_def)
  from users_self_deadlock [OF this(1) s(3-6) p, where ip = 5 and auth = 2 and new = "''v''" and auth' = 1] this(2) s
  show ?thesis by simp
qed

subsection \<open>Deferred deletion\<close>

text \<open>\<open>RealDelUser\<close> returns in every consistent state of the registry and takes out of the list exactly the
  users whose deletion was asked for longer than \<open>userDeleteDelayTime\<close> ago; the others stay in the list and in
  the queue, and the indexes are left as they were.\<close>

theorem users_real_del:
  assumes "users_inv F s" and "\<not> us_locked s"
  shows "\<exists>s'. RealDelUser E s = Some ((), s')
    \<and> us_users s' = filter (\<lambda>u. \<not> (\<exists>t. (u_id u, t) \<in> set (us_usersToDelete s) \<and> t + userDeleteDelayTime < e_stgTime E))
         (us_users s)
    \<and> us_usersToDelete s' = filter (\<lambda>(i, t). \<not> t + userDeleteDelayTime < e_stgTime E) (us_usersToDelete s)
    \<and> us_loginIndex s' = us_loginIndex s \<and> us_ipIndex s' = us_ipIndex s \<and> \<not> us_locked s' \<and> users_inv F s'"
proof -
  let ?s = "s\<lparr>us_locked := True\<rparr>"
  obtain t where t: "RealDelUser_loop E (us_usersToDelete s) ?s
      = Some (filter (\<lambda>d. \<not> expired E d) (us_usersToDelete s), t)"
    "users_inv F (t\<lparr>us_usersToDelete := filter (\<lambda>d. \<not> expired E d) (us_usersToDelete s)\<rparr>)"
    "us_users t = filter (\<lambda>u. u_id u \<notin> fst ` set (filter (expired E) (us_usersToDelete s))) (us_users s)"
    "us_loginIndex t = us_loginIndex s" "us_ipIndex t = us_ipIndex s"
    using RealDelUser_loop_spec [where F = F and s = ?s and ks = "[]" and ds = "us_usersToDelete s" and E = E] assms(1)
    by auto
  define s' where "s' = t\<lparr>us_usersToDelete := filter (\<lambda>d. \<not> expired E d) (us_usersToDelete s), us_locked := False\<rparr>"
  have "RealDelUser E s = Some ((), s')"
    using t(1) assms(2) by (simp add: RealDelUser_def users_locked_def s'_def)
  moreover have "us_users s' = filter (\<lambda>u. \<not> (\<exists>t. (u_id u, t) \<in> set (us_usersToDelete s)
      \<and> t + userDeleteDelayTime < e_stgTime E)) (us_users s)"
    using t(3) by (auto simp: s'_def expired_def image_iff intro!: filter_cong)
  moreover have "us_usersToDelete s' = filter (\<lambda>(i, t). \<not> t + userDeleteDelayTime < e_stgTime E) (us_usersToDelete s)"
    by (auto simp: s'_def expired_def intro!: filter_cong)
  moreover have "users_inv F s'" using t(2) by (simp add: s'_def)
  ultimately show ?thesis using t by (simp add: s'_def)
qed

subsection \<open>Searching\<close>

text \<open>The place in the list a search descriptor stands at.\<close>

definition node_pos :: "user list \<Rightarrow> int option \<Rightarrow> nat option" where
  "node_pos us p = (case p of
     None \<Rightarrow> Some (length us)
   | Some i \<Rightarrow> if find (\<lambda>u. u_id u = i) us = None then None else Some (length (takeWhile (\<lambda>u. u_id u \<noteq> i) us)))"

definition search_pos :: "int \<Rightarrow> users \<Rightarrow> nat option" where
  "search_pos h s = Option.bind (us_searchDescriptors s (word_of_int h)) (node_pos (us_users s))"

definition open_users :: "env \<Rightarrow> users \<Rightarrow> int \<times> users" where
  "open_users E s = (case Users_OpenSearch E s of Some r \<Rightarrow> r | None \<Rightarrow> (0, s))"

definition next_user :: "env \<Rightarrow> int \<Rightarrow> users \<Rightarrow> (int \<times> user option \<times> users) option" where
  "next_user E h s = map_option (\<lambda>((rc, v), s). (rc, v, s)) (Users_SearchNext E h s)"

definition searchable :: "users \<Rightarrow> bool" where
  "searchable s \<longleftrightarrow> distinct (map u_id (us_users s)) \<and> \<not> us_locked s"

lemma dropWhile_to:
  "distinct (map f (xs @ y # ys)) \<Longrightarrow> dropWhile (\<lambda>x. f x \<noteq> f y) (xs @ y # ys) = y # ys"
  by (induction xs) auto

lemma pos_node_at:
  assumes "distinct (map u_id (xs @ vs))"
  shows "node_pos (xs @ vs) (node_at vs) = Some (length xs)"
proof (cases vs)
  case (Cons v ws)
  have "find (\<lambda>u. u_id u = u_id v) (xs @ v # ws) = Some v"
    by (rule find_distinct) (use assms Cons in auto)
  moreover have "length (takeWhile (\<lambda>u. u_id u \<noteq> u_id v) (xs @ v # ws)) = length xs"
    using assms Cons by (subst takeWhile_append2) (auto simp: image_iff)
  ultimately show ?thesis by (simp add: Cons node_at_def node_pos_def)
qed (simp add: node_at_def node_pos_def)

lemma search_pos_drop:
  assumes "search_pos h s = Some i"
  obtains "us_searchDescriptors s (word_of_int h) = Some None" "drop i (us_users s) = []"
  | k where "us_searchDescriptors s (word_of_int h) = Some (Some k)" "user_at k s \<noteq> None"
      "dropWhile (\<lambda>u. u_id u \<noteq> k) (us_users s) = drop i (us_users s)"
proof -
  from assms obtain p where p: "us_searchDescriptors s (word_of_int h) = Some p" "node_pos (us_users s) p = Some i"
    by (auto simp: search_pos_def bind_eq_Some_conv)
  show thesis
  proof (cases p)
    case None
    then show ?thesis using p that(1) by (simp add: node_pos_def)
  next
    case (Some k)
    then show ?thesis using p that(2) by (simp add: node_pos_def user_at_def dropWhile_eq_drop split: if_splits)
  qed
qed

lemma next_user_more:
  assumes "searchable s" and "search_pos h s = Some i"
    and d: "dropWhile (\<lambda>v. \<not> \<not> u_deleted v) (drop i (us_users s)) = v # vs"
  shows "next_user E h s =
    Some (0, Some v, s\<lparr>us_searchDescriptors := (us_searchDescriptors s)(word_of_int h \<mapsto> node_at vs)\<rparr>)"
  using assms(2)
proof (cases rule: search_pos_drop)
  case (2 k)
  then show ?thesis using assms(1) d
    by (auto simp: next_user_def Users_SearchNext_def users_locked_def searchable_def Users_SearchNext_body_def Let_def
        user_at_def)
qed (use d in simp)

lemma next_user_end:
  assumes "searchable s" and "search_pos h s = Some i"
    and d: "dropWhile (\<lambda>v. \<not> \<not> u_deleted v) (drop i (us_users s)) = []"
  shows "\<exists>s'. next_user E h s = Some (- 1, None, s') \<and> us_users s' = us_users s"
  using assms(2)
proof (cases rule: search_pos_drop)
  case 1
  then show ?thesis using assms(1)
    by (simp add: next_user_def Users_SearchNext_def users_locked_def searchable_def Users_SearchNext_body_def Let_def)
next
  case (2 k)
  then show ?thesis using assms(1) d
    by (auto simp: next_user_def Users_SearchNext_def users_locked_def searchable_def Users_SearchNext_body_def Let_def
        user_at_def simp del: dropWhile_eq_Nil_conv)
qed

interpretation uss: search searchable us_users "\<lambda>u. \<not> u_deleted u" search_pos "open_users E" "next_user E" for E
proof (unfold_locales, goal_cases)
  case (1 s)
  then show ?case
    using pos_node_at [of "[]" "us_users s"]
    by (simp add: open_users_def Users_OpenSearch_def users_locked_def searchable_def Let_def search_pos_def)
next
  case (2 s h i v vs)
  let ?s = "s\<lparr>us_searchDescriptors := (us_searchDescriptors s)(word_of_int h \<mapsto> node_at vs)\<rparr>"
  have n: "next_user E h s = Some (0, Some v, ?s)" by (rule next_user_more [OF 2])
  obtain xs where xs: "us_users s = xs @ vs"
    using 2(3) by (metis append_Cons append_assoc append_take_drop_id self_append_conv2 takeWhile_dropWhile_id)
  have "search_pos h ?s = Some (length xs)"
    using pos_node_at [of xs vs] 2(1) xs by (simp add: search_pos_def searchable_def)
  then show ?case using n 2(1) xs by (auto simp: searchable_def)
next
  case (3 s h i)
  then show ?case using next_user_end by blast
qed

text \<open>Opening a search on the registry and asking for users until it says there are no more visits exactly the
  users that are not marked as deleted, each once and in the order of the list, provided nobody changes the list
  meanwhile; the number of calls is bounded by the length of the list.\<close>

theorem users_search_visits_live:
  assumes "users_inv F s" and "\<not> us_locked s" and "Users_OpenSearch E s = Some (h, s')"
    and "length (us_users s) < n"
  shows "\<exists>t. search_all (next_user E h) n s' = Some (filter (\<lambda>u. \<not> u_deleted u) (us_users s), t)
    \<and> us_users t = us_users s"
proof (rule uss.search_complete)
  show "searchable s" using assms(1,2) users_invD(1) by (simp add: searchable_def)
  show "open_users E s = (h, s')" using assms(3) by (simp add: open_users_def)
qed (rule assms(4))

lemma sample_users_inv: "users_inv (e_FindTariff sample_users_env) sample_users"
  by (rule ReadUsers_inv [OF refl _ UsersImpl_inv sample_users_eq])
    (simp add: traff_wf_def sample_users_env_def sample_env_def UserStat_def sample_user_def DirTraff_def)

theorem users_search_visits_live_witness:
  "\<exists>h s' u t. Users_OpenSearch sample_users_env sample_users = Some (h, s') \<and> u_login u = ''u''
     \<and> search_all (next_user sample_users_env h) 2 s' = Some ([u], t)"
proof -
  obtain u where u: "us_users sample_users = [u]" "u_login u = ''u''" "\<not> u_deleted u" using sample_users_fields(1) by blast
  obtain h s' where o: "Users_OpenSearch sample_users_env sample_users = Some (h, s')"
    using sample_users_fields(4) by (simp add: Users_OpenSearch_def users_locked_def Let_def)
  from users_search_visits_live [OF sample_users_inv sample_users_fields(4) o, of 2] u o show ?thesis by auto
qed

definition sample_pending :: users where
  "sample_pending = sample_users\<lparr>us_usersToDelete := [(0, 1000000)], us_loginIndex := Map.empty\<rparr>"

lemma sample_pending_inv: "users_inv (e_FindTariff sample_users_env) sample_pending"
proof -
  obtain u where u: "us_users sample_users = [u]" "u_id u = 0" "u_currIP u = 0" using sample_users_fields(1) by blast
  have "addr sample_users = [0 \<mapsto> 0]" using u by (auto simp: addr_def user_at_def)
  then show ?thesis
    using sample_users_inv u sample_users_fields(3)
    by (auto simp: users_inv_def sample_pending_def pending_def addr_def user_at_def)
qed

theorem users_real_del_witness:
  "(\<exists>s. RealDelUser (sample_users_env\<lparr>e_stgTime := 1000121\<rparr>) sample_pending = Some ((), s)
      \<and> us_users s = [] \<and> us_usersToDelete s = [])
   \<and> (\<exists>s. RealDelUser (sample_users_env\<lparr>e_stgTime := 1000120\<rparr>) sample_pending = Some ((), s)
      \<and> us_users s = us_users sample_users \<and> us_usersToDelete s = [(0, 1000000)])"
proof -
  obtain u where u: "us_users sample_users = [u]" "u_id u = 0" using sample_users_fields(1) by blast
  have l: "\<not> us_locked sample_pending" using sample_users_fields(4) by (simp add: sample_pending_def)
  show ?thesis
    using users_real_del [OF sample_pending_inv l, where E = "sample_users_env\<lparr>e_stgTime := 1000121\<rparr>"]
      users_real_del [OF sample_pending_inv l, where E = "sample_users_env\<lparr>e_stgTime := 1000120\<rparr>"] u
    by (auto simp: sample_pending_def userDeleteDelayTime_def)
qed

end
