(* ===== verification/Stg_Packet.thy ===== *)
theory Stg_Packet
  imports Stg_UsersLife Stg_Bytes "HOL-Library.Product_Lexorder"
begin

text \<open>
  Captured packets: \<open>include/stg/raw_ip_packet.h\<close>, and the ordered map (\<open>std::map\<close> with that comparison) the
  traffic counter keeps them in. A packet is its first 68 bytes; multi-byte fields are read as a little-endian
  host reads them, so that fields in network byte order come out swapped, as in the source.
\<close>

subsection \<open>Packets\<close>

definition packetSize :: nat where "packetSize = 68"

record raw_packet =
  rp_data :: "u8 list"
  rp_dataLen :: int

definition RawPacket :: raw_packet where
  "RawPacket = \<lparr>rp_data = replicate packetSize 0, rp_dataLen = - 1\<rparr>"

definition packet_wf :: "raw_packet \<Rightarrow> bool" where
  "packet_wf p \<longleftrightarrow> length (rp_data p) = packetSize"

text \<open>The bit fields of the first byte: header length in words below, version above.\<close>

definition ip_hl :: "raw_packet \<Rightarrow> nat" where
  "ip_hl p = unat (rp_data p ! 0 AND 0xF)"

definition GetIPVersion :: "raw_packet \<Rightarrow> u16" where
  "GetIPVersion p = ucast (drop_bit 4 (rp_data p ! 0))"

definition GetHeaderLen :: "raw_packet \<Rightarrow> u8" where
  "GetHeaderLen p = of_nat (ip_hl p * 4)"

definition GetProto :: "raw_packet \<Rightarrow> u8" where
  "GetProto p = rp_data p ! 9"

definition GetLen :: "raw_packet \<Rightarrow> u32" where
  "GetLen p = (if rp_dataLen p \<noteq> - 1 then word_of_int (rp_dataLen p) else ucast (ntohs (le16 (rp_data p) 2)))"

definition GetSrcIP :: "raw_packet \<Rightarrow> u32" where
  "GetSrcIP p = le32 (rp_data p) 12"

definition GetDstIP :: "raw_packet \<Rightarrow> u32" where
  "GetDstIP p = le32 (rp_data p) 16"

text \<open>The four bytes behind the header, as the comparisons read them.\<close>

definition raw_sport :: "raw_packet \<Rightarrow> u16" where
  "raw_sport p = le16 (rp_data p) (ip_hl p * 4)"

definition raw_dport :: "raw_packet \<Rightarrow> u16" where
  "raw_dport p = le16 (rp_data p) (ip_hl p * 4 + 2)"

definition GetSrcPort :: "raw_packet \<Rightarrow> u16" where
  "GetSrcPort p = (if GetProto p = 1 then 0 else ntohs (raw_sport p))"

definition GetDstPort :: "raw_packet \<Rightarrow> u16" where
  "GetDstPort p = (if GetProto p = 1 then 0 else ntohs (raw_dport p))"

definition RawPacket_eq :: "raw_packet \<Rightarrow> raw_packet \<Rightarrow> bool" where
  "RawPacket_eq a b =
     (if GetSrcIP a \<noteq> GetSrcIP b then False
      else if GetDstIP a \<noteq> GetDstIP b then False
      else if GetProto a \<noteq> 1 \<and> GetProto b \<noteq> 1 \<and> raw_sport a \<noteq> raw_sport b then False
      else if GetProto a \<noteq> 1 \<and> GetProto b \<noteq> 1 \<and> raw_dport a \<noteq> raw_dport b then False
      else if GetProto a \<noteq> GetProto b then False
      else True)"

definition RawPacket_less :: "raw_packet \<Rightarrow> raw_packet \<Rightarrow> bool" where
  "RawPacket_less a b =
     (let ports = (GetProto a \<noteq> 1 \<and> GetProto b \<noteq> 1)
      in if GetSrcIP a < GetSrcIP b then True
      else if GetSrcIP a > GetSrcIP b then False
      else if GetDstIP a < GetDstIP b then True
      else if GetDstIP a > GetDstIP b then False
      else if ports \<and> raw_sport a < raw_sport b then True
      else if ports \<and> raw_sport a > raw_sport b then False
      else if ports \<and> raw_dport a < raw_dport b then True
      else if ports \<and> raw_dport a > raw_dport b then False
      else if GetProto a < GetProto b then True
      else False)"

subsection \<open>Ordered maps\<close>

text \<open>A \<open>std::map\<close> with comparison \<open>lt\<close> as the list of its entries in order: \<open>find\<close>, \<open>insert\<close> (an
  entry that is there stays) and changing the value an iterator points to.\<close>

fun map_find :: "('k \<Rightarrow> 'k \<Rightarrow> bool) \<Rightarrow> 'k \<Rightarrow> ('k \<times> 'v) list \<Rightarrow> 'v option" where
  "map_find lt k [] = None"
| "map_find lt k ((a, v) # ps) =
     (if lt a k then map_find lt k ps else if lt k a then None else Some v)"

fun map_insert :: "('k \<Rightarrow> 'k \<Rightarrow> bool) \<Rightarrow> 'k \<Rightarrow> 'v \<Rightarrow> ('k \<times> 'v) list \<Rightarrow> ('k \<times> 'v) list" where
  "map_insert lt k v [] = [(k, v)]"
| "map_insert lt k v ((a, w) # ps) =
     (if lt a k then (a, w) # map_insert lt k v ps
      else if lt k a then (k, v) # (a, w) # ps
      else (a, w) # ps)"

fun map_change :: "('k \<Rightarrow> 'k \<Rightarrow> bool) \<Rightarrow> 'k \<Rightarrow> ('v \<Rightarrow> 'v) \<Rightarrow> ('k \<times> 'v) list \<Rightarrow> ('k \<times> 'v) list" where
  "map_change lt k f [] = []"
| "map_change lt k f ((a, w) # ps) =
     (if lt a k then (a, w) # map_change lt k f ps
      else if lt k a then (a, w) # ps
      else (a, f w) # ps)"

definition keys_ok :: "('k \<Rightarrow> bool) \<Rightarrow> ('k \<Rightarrow> 'k \<Rightarrow> bool) \<Rightarrow> ('k \<times> 'v) list \<Rightarrow> bool" where
  "keys_ok ok lt ps \<longleftrightarrow> sorted_wrt lt (map fst ps) \<and> list_all ok (map fst ps)"

text \<open>A comparison that on the keys that occur is the order of a sort key: then the map behaves as a finite
  function of the sort key.\<close>

locale keyed_order =
  fixes ok :: "'k \<Rightarrow> bool" and lt :: "'k \<Rightarrow> 'k \<Rightarrow> bool" and key :: "'k \<Rightarrow> 'o :: linorder"
  assumes lt_key: "ok a \<Longrightarrow> ok b \<Longrightarrow> lt a b \<longleftrightarrow> key a < key b"
begin

lemma keys_ok_Cons:
  "keys_ok ok lt ((a, w) # ps) \<longleftrightarrow> ok a \<and> (\<forall>p\<in>set ps. key a < key (fst p)) \<and> keys_ok ok lt ps"
  by (auto simp: keys_ok_def list_all_iff lt_key) (metis fst_conv lt_key)+

lemma insert_keys: "p \<in> set (map_insert lt k v ps) \<Longrightarrow> p = (k, v) \<or> p \<in> set ps"
  by (induction ps) (auto split: if_splits)

lemma insert_ok: "keys_ok ok lt ps \<Longrightarrow> ok k \<Longrightarrow> keys_ok ok lt (map_insert lt k v ps)"
proof (induction ps)
  case (Cons p ps)
  obtain a w where p: "p = (a, w)" by force
  have "keys_ok ok lt (map_insert lt k v ps)" using Cons by (simp add: p keys_ok_Cons)
  then show ?case
    using Cons.prems insert_keys [of _ k v ps] by (fastforce simp: p keys_ok_Cons lt_key)
qed (simp add: keys_ok_def)

lemma change_keys [simp]: "map fst (map_change lt k f ps) = map fst ps"
  by (induction ps) auto

lemma change_ok [simp]: "keys_ok ok lt (map_change lt k f ps) = keys_ok ok lt ps"
  by (simp add: keys_ok_def)

lemma find_eq: "keys_ok ok lt ps \<Longrightarrow> ok k \<Longrightarrow> map_find lt k ps = map_of (map (\<lambda>(a, v). (key a, v)) ps) (key k)"
proof (induction ps)
  case (Cons p ps)
  obtain a w where p: "p = (a, w)" by force
  have "key k < key a \<Longrightarrow> map_of (map (\<lambda>(a, v). (key a, v)) ps) (key k) = None"
    using Cons.prems by (fastforce simp: p keys_ok_Cons map_of_eq_None_iff)
  then show ?case using Cons by (auto simp: p keys_ok_Cons lt_key)
qed simp

lemma find_change:
  "keys_ok ok lt ps \<Longrightarrow> ok k \<Longrightarrow> ok j \<Longrightarrow> map_find lt j (map_change lt k f ps) =
     (if key k = key j then map_option f (map_find lt j ps) else map_find lt j ps)"
  by (induction ps) (auto simp: keys_ok_Cons lt_key)

lemma find_insert:
  "keys_ok ok lt ps \<Longrightarrow> ok k \<Longrightarrow> ok j \<Longrightarrow> map_find lt j (map_insert lt k v ps) =
     (if map_find lt k ps = None \<and> key k = key j then Some v else map_find lt j ps)"
  by (induction ps) (auto simp: keys_ok_Cons lt_key)

lemma change_not_found: "keys_ok ok lt ps \<Longrightarrow> ok k \<Longrightarrow> map_find lt k ps = None \<Longrightarrow> map_change lt k f ps = ps"
  by (induction ps) (auto simp: keys_ok_Cons lt_key)

lemma change_split:
  "keys_ok ok lt ps \<Longrightarrow> ok k \<Longrightarrow> map_find lt k ps = Some v \<Longrightarrow>
     \<exists>as a bs. ps = as @ (a, v) # bs \<and> key a = key k \<and> map_change lt k f ps = as @ (a, f v) # bs"
proof (induction ps)
  case (Cons p ps)
  obtain a w where p: "p = (a, w)" by force
  show ?case
  proof (cases "lt a k")
    case True
    then obtain as b bs where "ps = as @ (b, v) # bs" "key b = key k" "map_change lt k f ps = as @ (b, f v) # bs"
      using Cons by (auto simp: p keys_ok_Cons)
    then show ?thesis using True p by (metis append_Cons map_change.simps(2))
  next
    case False
    then show ?thesis using Cons.prems
      by (intro exI [of _ "[]"] exI [of _ a] exI [of _ ps]) (auto simp: p keys_ok_Cons lt_key split: if_splits)
  qed
qed simp

lemma insert_split:
  "keys_ok ok lt ps \<Longrightarrow> ok k \<Longrightarrow> map_find lt k ps = None \<Longrightarrow>
     \<exists>as bs. ps = as @ bs \<and> map_insert lt k v ps = as @ (k, v) # bs"
proof (induction ps)
  case (Cons p ps)
  obtain a w where p: "p = (a, w)" by force
  show ?case
  proof (cases "lt a k")
    case True
    then obtain as bs where "ps = as @ bs" "map_insert lt k v ps = as @ (k, v) # bs"
      using Cons by (auto simp: p keys_ok_Cons)
    then show ?thesis using True p by (metis append_Cons map_insert.simps(2))
  next
    case False
    then show ?thesis using Cons.prems by (intro exI [of _ "[]"] exI [of _ "p # ps"]) (auto simp: p keys_ok_Cons lt_key split: if_splits)
  qed
qed simp

end

subsection \<open>The order of packets\<close>

text \<open>Ports of ICMP packets do not take part in comparisons.\<close>

definition packet_key :: "raw_packet \<Rightarrow> u32 \<times> u32 \<times> bool \<times> u16 \<times> u16 \<times> u8" where
  "packet_key p = (let t = GetProto p \<noteq> 1 in
     (GetSrcIP p, GetDstIP p, t, (if t then raw_sport p else 0), (if t then raw_dport p else 0), GetProto p))"

lemma RawPacket_eq_key: "RawPacket_eq a b \<longleftrightarrow> packet_key a = packet_key b"
  by (auto simp: RawPacket_eq_def packet_key_def Let_def)

lemma word8_neq: "(x :: u8) \<noteq> 0 \<Longrightarrow> x \<noteq> 1 \<Longrightarrow> 1 < x"
  by unat_arith

lemma RawPacket_less_key:
  assumes "GetProto a \<noteq> 0" and "GetProto b \<noteq> 0"
  shows "RawPacket_less a b \<longleftrightarrow> packet_key a < packet_key b"
proof (cases "GetProto a = 1 \<or> GetProto b = 1")
  case True
  then show ?thesis
    using word8_neq [OF assms(1)] word8_neq [OF assms(2)]
    by (cases "GetProto a = 1"; cases "GetProto b = 1") (auto simp: RawPacket_less_def packet_key_def less_prod_simp)
next
  case False
  then show ?thesis by (auto simp: RawPacket_less_def packet_key_def less_prod_simp)
qed

interpretation pk: keyed_order "\<lambda>p. GetProto p \<noteq> 0" RawPacket_less packet_key
  by unfold_locales (rule RawPacket_less_key)

text \<open>On packets of any protocol but number 0, the comparison the packet map is built on is a strict total
  order up to the equality of packets: addresses first, then ports unless ICMP is involved, then the
  protocol.\<close>

theorem packet_order:
  assumes "GetProto a \<noteq> 0" and "GetProto b \<noteq> 0" and "GetProto c \<noteq> 0"
  shows "\<not> RawPacket_less a a
    \<and> (RawPacket_less a b \<and> RawPacket_less b c \<longrightarrow> RawPacket_less a c)
    \<and> (RawPacket_eq a b \<longleftrightarrow> \<not> RawPacket_less a b \<and> \<not> RawPacket_less b a)
    \<and> (RawPacket_eq a b \<longrightarrow> RawPacket_less a c = RawPacket_less b c)"
  using assms by (auto simp: RawPacket_less_key RawPacket_eq_key)

definition sample_packet :: "u8 \<Rightarrow> u8 \<Rightarrow> raw_packet" where
  "sample_packet proto port = RawPacket\<lparr>rp_data := (replicate packetSize 0)[0 := 0x45, 3 := 100, 9 := proto,
     12 := 10, 15 := 1, 16 := 10, 19 := 2, 21 := port, 23 := 80]\<rparr>"

lemma sample_packet_fields [simp]:
  "GetProto (sample_packet proto port) = proto" "GetSrcIP (sample_packet proto port) = 0x0100000A"
  "GetDstIP (sample_packet proto port) = 0x0200000A" "raw_sport (sample_packet proto port) = push_bit 8 (ucast port)"
  "raw_dport (sample_packet proto port) = 0x5000" "ip_hl (sample_packet proto port) = 5"
  "GetLen (sample_packet proto port) = 100"
  by (simp_all add: sample_packet_def GetProto_def GetSrcIP_def GetDstIP_def raw_sport_def raw_dport_def ip_hl_def
      le32_def join4_def le16_def packetSize_def GetLen_def RawPacket_def ntohs_def)

theorem packet_order_witness:
  "RawPacket_less (sample_packet 1 0) (sample_packet 6 7) \<and> RawPacket_less (sample_packet 6 7) (sample_packet 6 9)
   \<and> RawPacket_less (sample_packet 1 0) (sample_packet 6 9)"
proof -
  have "RawPacket_less (sample_packet 1 0) (sample_packet 6 7)" "RawPacket_less (sample_packet 6 7) (sample_packet 6 9)"
    by (simp_all add: RawPacket_less_def)
  then show ?thesis using packet_order [of "sample_packet 1 0" "sample_packet 6 7" "sample_packet 6 9"] by simp
qed

text \<open>With packets of protocol number 0 the comparison has cycles: a TCP packet below a protocol 0
  packet with a greater port, that one below an ICMP packet, and that one below the TCP packet. A \<open>std::map\<close> with
  such a comparison has no defined behaviour.\<close>

theorem packet_order_cycle:
  "\<exists>a b c. RawPacket_less a b \<and> RawPacket_less b c \<and> RawPacket_less c a"
proof -
  have "RawPacket_less (sample_packet 6 7) (sample_packet 0 9)" "RawPacket_less (sample_packet 0 9) (sample_packet 1 0)"
    "RawPacket_less (sample_packet 1 0) (sample_packet 6 7)"
    by (simp_all add: RawPacket_less_def)
  then show ?thesis by blast
qed

end
