(* ===== verification/Stg_Rules.thy ===== *)
theory Stg_Rules
  imports Stg_Packet
begin

text \<open>
  The rules of the traffic counter: reading the rules file, and the direction a packet is counted in
  (\<open>projects/stargazer/traffcounter_impl.cpp\<close>). The file is its contents as a string without NUL characters,
  or \<open>None\<close> when it cannot be opened; \<open>inet_aton\<close> of the C library is a parameter. The routines copy into
  buffers on the stack. A write behind the end of a buffer has no defined outcome (\<open>None\<close>). A write to the
  byte before the buffer \<open>mask\<close>, which \<open>ParseAddress\<close> makes for every address with a mask, is undefined as well;
  the parameter \<open>oob\<close> says whether it is fatal or goes unnoticed.
\<close>

subsection \<open>Rules and the state of the counter\<close>

record rule =
  ru_ip :: u32
  ru_mask :: u32
  ru_port1 :: u16
  ru_port2 :: u16
  ru_proto :: u8
  ru_dir :: u32

record extra_data =
  pe_flushTime :: time_t
  pe_updateTime :: time_t
  pe_userU :: "int option"
  pe_userUPresent :: bool
  pe_userD :: "int option"
  pe_userDPresent :: bool
  pe_dirU :: int
  pe_dirD :: int
  pe_lenU :: u32
  pe_lenD :: u32

text \<open>Tasks in the queue of the asynchronous pool.\<close>

datatype task = T_SetUserNotifiers int | T_UserDeleted int | T_DelUser u32 | T_AddUser int

text \<open>The map of packets is the list of its entries in order, the multimap from addresses to packets a list in
  the order of addresses. \<open>tc_onIPConns\<close> are the identifiers of the users whose address is watched.\<close>

record traffcounter = world +
  tc_rules :: "rule list"
  tc_packets :: "(raw_packet \<times> extra_data) list"
  tc_ip2packets :: "(u32 \<times> raw_packet) list"
  tc_monitorDir :: string
  tc_monitoring :: bool
  tc_touchTimeP :: time_t
  tc_stopped :: bool
  tc_onIPConns :: "int list"
  tc_tasks :: "task list"

definition PROTOMAX :: nat where "PROTOMAX = 5"

definition protoName :: "string list" where
  "protoName = [''TCP'', ''UDP'', ''ICMP'', ''TCP_UDP'', ''ALL'']"

definition dirName :: "string list" where
  "dirName = map (\<lambda>i. ''DIR'' @ show_nat i) [0..<DIR_NUM] @ [''NULL'']"

subsection \<open>Addresses of rules\<close>

definition CalcMask :: "u32 \<Rightarrow> u32" where
  "CalcMask msk = (if msk \<ge> 32 then 0xFFFFFFFF else if msk = 0 then 0
     else htonl (push_bit (32 - unat msk) 0xFFFFFFFF))"

text \<open>\<open>strtol\<close> with its saturation, converted to 16 bits; \<open>None\<close> when text is left over.\<close>

definition strtol_u16 :: "string \<Rightarrow> u16 option" where
  "strtol_u16 s = (let (v, rest) = strtol10 s
     in if rest \<noteq> [] then None else Some (word_of_int (max (- (2 ^ 63)) (min (2 ^ 63 - 1) v))))"

text \<open>The buffers \<open>addr\<close>, \<open>mask\<close> and \<open>ports\<close> after the first half of \<open>ParseAddress\<close>; \<open>Inl\<close> is the
  early return for a protocol without ports.\<close>

definition split_address :: "bool \<Rightarrow> string \<Rightarrow> u8 \<Rightarrow> (unit + string \<times> string \<times> string) option" where
  "split_address oob ta proto =
     (let astr = takeWhile (\<lambda>c. c \<noteq> CHR ''/'' \<and> c \<noteq> CHR '':'') ta;
          rest = drop (length astr) ta;
          slash = (rest \<noteq> [] \<and> hd rest = CHR ''/'');
          mstr = (if slash then takeWhile (\<lambda>c. c \<noteq> CHR '':'') (tl rest) else ''32'');
          rest = (if slash then drop (length mstr) (tl rest) else rest)
      in if length astr + 1 \<ge> 50 \<or> slash \<and> (oob \<or> length mstr \<ge> 20) then None
         else if rest = [] then Some (Inr (astr, mstr, ''0-65535''))
         else if \<not> (proto = 0 \<or> proto = 1 \<or> proto = 3) then Some (Inl ())
         else if length (tl rest) \<ge> 40 then None
         else Some (Inr (astr, mstr, tl rest)))"

definition split_ports :: "string \<Rightarrow> (string \<times> string) option" where
  "split_ports ports =
     (let port1 = takeWhile (\<lambda>c. c \<noteq> CHR ''-'') ports;
          port2 = (if length port1 < length ports then drop (length port1 + 1) ports else ports)
      in if length port1 \<ge> 20 \<or> length port2 \<ge> 20 then None else Some (port1, port2))"

text \<open>\<open>ParseAddress\<close> returns whether it failed, the rule and the lines it logs.\<close>

definition ParseAddress :: "bool \<Rightarrow> (string \<Rightarrow> u32 option) \<Rightarrow> string \<Rightarrow> rule \<Rightarrow> (bool \<times> rule \<times> string list) option" where
  "ParseAddress oob inet_aton ta r = do {
     parts \<leftarrow> split_address oob ta (ru_proto r);
     (case parts of
        Inl _ \<Rightarrow> Some (True, r, [''No ports specified for this protocol.''])
      | Inr (astr, mstr, ports) \<Rightarrow> do {
          (port1, port2) \<leftarrow> split_ports ports;
          Some (case (strtol_u16 mstr, strtol_u16 port1, strtol_u16 port2, inet_aton astr) of
            (Some msk, Some prt1, Some prt2, Some ip) \<Rightarrow>
              let r = r\<lparr>ru_ip := ip, ru_mask := CalcMask (ucast msk)\<rparr>
              in if ip AND ru_mask r \<noteq> ip then (True, r, [''Address does'n match mask.''])
                 else (False, r\<lparr>ru_port1 := prt1, ru_port2 := prt2\<rparr>, [])
          | _ \<Rightarrow> (True, r, []))
        })
   }"

subsection \<open>The rules file\<close>

text \<open>What \<open>fgets\<close> with a buffer of 1023 characters delivers.\<close>

definition fgets_line :: "string \<Rightarrow> string" where
  "fgets_line s = (let l = takeWhile (\<lambda>c. c \<noteq> CHR 0x0A) s in take 1022 (take (length l + 1) s))"

function (sequential) fgets_lines :: "string \<Rightarrow> string list" where
  "fgets_lines [] = []"
| "fgets_lines s = fgets_line s # fgets_lines (drop (length (fgets_line s)) s)"
  by pat_completeness auto

termination
  by (relation "measure length") (auto simp: fgets_line_def Let_def)

text \<open>\<open>sscanf\<close> with the format \<open>%99s %99s %99s\<close>.\<close>

definition scan_word :: "string \<Rightarrow> string \<times> string" where
  "scan_word s =
     (let s = dropWhile is_space s; w = take 99 (takeWhile (\<lambda>c. \<not> is_space c) s)
      in (w, drop (length w) s))"

definition sscanf3 :: "string \<Rightarrow> (string \<times> string \<times> string) option" where
  "sscanf3 s =
     (let (a, s) = scan_word s; (b, s) = scan_word s; (c, s) = scan_word s
      in if c = [] then None else Some (a, b, c))"

definition comment_line :: "string \<Rightarrow> bool" where
  "comment_line str =
     (let r = dropWhile (\<lambda>c. c = CHR '' '' \<or> c = CHR 0x09) str
      in r \<noteq> [] \<and> (hd r = CHR ''#'' \<or> hd r = CHR 0x0A))"

definition proto_of :: "string \<Rightarrow> u8" where
  "proto_of tp = foldl (\<lambda>p i. if strcaseeq tp (protoName ! i) then of_nat i else p) 0xFF [0..<PROTOMAX]"

definition dir_of :: "string \<Rightarrow> u32" where
  "dir_of td = foldl (\<lambda>d i. if td = dirName ! i then of_nat i else d) 0xFF [0..<DIR_NUM + 1]"

text \<open>The loop over the lines: whether it failed, the rules read (up to the error) and the lines it logs.\<close>

fun ReadRules_loop ::
    "bool \<Rightarrow> (string \<Rightarrow> u32 option) \<Rightarrow> string \<Rightarrow> string list \<Rightarrow> nat \<Rightarrow> rule \<Rightarrow> (bool \<times> rule list \<times> string list) option" where
  "ReadRules_loop oob aton fn [] n rul = Some (False, [], [])"
| "ReadRules_loop oob aton fn (str # ls) n rul =
     (if comment_line str then ReadRules_loop oob aton fn ls (Suc n) rul
      else case sscanf3 str of
        None \<Rightarrow> Some (True, [], [''Error in file '' @ squote fn @ '' at line '' @ show_nat (Suc n)
                  @ ''. There must be 3 parameters.''])
      | Some (tp, ta, td) \<Rightarrow>
          let rul = rul\<lparr>ru_proto := proto_of tp, ru_dir := dir_of td\<rparr>
          in if ru_dir rul = 0xFF \<or> ru_proto rul = 0xFF
             then Some (True, [], [''Error in file '' @ fn @ ''. Line '' @ show_nat (Suc n) @ ''.''])
             else do {
               (bad, rul, logs) \<leftarrow> ParseAddress oob aton ta rul;
               (if bad
                then Some (True, [], logs @ [''Error in file '' @ fn @ ''. Error in adress. Line ''
                       @ show_nat (Suc n) @ ''.''])
                else do {
                  (err, rs, logs') \<leftarrow> ReadRules_loop oob aton fn ls (Suc n) rul;
                  Some (err, rul # rs, logs @ logs')
                })
             })"

definition last_rule :: rule where
  "last_rule = \<lparr>ru_ip = 0, ru_mask = 0, ru_port1 = 0, ru_port2 = 65535, ru_proto = 4, ru_dir = of_nat DIR_NUM\<rparr>"

definition ReadRules ::
    "bool \<Rightarrow> (string \<Rightarrow> u32 option) \<Rightarrow> string \<Rightarrow> string option \<Rightarrow> bool \<Rightarrow> rule \<Rightarrow> traffcounter
      \<Rightarrow> (bool \<times> traffcounter) option" where
  "ReadRules oob aton fn file test rul s = (case file of
     None \<Rightarrow> Some (True, emit (Log (''File '' @ squote fn @ '' cannot be oppened.'')) s)
   | Some txt \<Rightarrow> do {
       (err, rs, logs) \<leftarrow> ReadRules_loop oob aton fn (fgets_lines txt) 0 rul;
       let s = s\<lparr>trace := trace s @ map Log logs\<rparr>;
       let s = (if test then s else s\<lparr>tc_rules := tc_rules s @ rs\<rparr>);
       Some (if err then (True, s)
             else (False, if test then s else s\<lparr>tc_rules := tc_rules s @ [last_rule]\<rparr>))
     })"

definition FreeRules :: "traffcounter \<Rightarrow> traffcounter" where
  "FreeRules s = s\<lparr>tc_rules := []\<rparr>"

text \<open>The file is opened twice: \<open>file\<close> and \<open>file'\<close> are what the two readings see.\<close>

definition Reload ::
    "bool \<Rightarrow> (string \<Rightarrow> u32 option) \<Rightarrow> string \<Rightarrow> string option \<Rightarrow> string option \<Rightarrow> rule \<Rightarrow> traffcounter
      \<Rightarrow> (int \<times> traffcounter) option" where
  "Reload oob aton fn file file' rul s = do {
     (err, s) \<leftarrow> ReadRules oob aton fn file True rul s;
     (if err then Some (- 1, emit (Log ''TraffCounter: Cannot reload rules. Errors found.'') s)
      else do {
        (_, s) \<leftarrow> ReadRules oob aton fn file' False rul (FreeRules s);
        Some (0, emit (Log ''TraffCounter: Reloaded rules successfully.'') s)
      })
   }"

subsection \<open>The direction of a packet\<close>

text \<open>The two switches over the protocol of a rule: \<open>port\<close> is the destination port for the upload direction and the
  source port for the download direction.\<close>

definition port_match :: "rule \<Rightarrow> u8 \<Rightarrow> u16 \<Rightarrow> bool" where
  "port_match r proto port =
     (let in_range = (ru_port1 r \<le> port \<and> port \<le> ru_port2 r); k = ru_proto r
      in if k = 4 then True
         else if k = 2 then proto = 1
         else if k = 3 then (proto = 6 \<or> proto = 17) \<and> in_range
         else if k = 0 then proto = 6 \<and> in_range
         else if k = 1 then proto = 17 \<and> in_range
         else False)"

fun DeterminateDir_loop :: "raw_packet \<Rightarrow> rule list \<Rightarrow> bool \<times> int \<Rightarrow> bool \<times> int \<Rightarrow> (bool \<times> int) \<times> (bool \<times> int)" where
  "DeterminateDir_loop p [] U D = (U, D)"
| "DeterminateDir_loop p (r # rs) U D =
     (let U = (if fst U then U
               else if GetDstIP p AND ru_mask r = ru_ip r \<and> port_match r (GetProto p) (GetDstPort p)
                    then (True, sint (ru_dir r)) else U);
          D = (if fst D then D
               else if GetSrcIP p AND ru_mask r = ru_ip r \<and> port_match r (GetProto p) (GetSrcPort p)
                    then (True, sint (ru_dir r)) else D)
      in DeterminateDir_loop p rs U D)"

definition DeterminateDir :: "rule list \<Rightarrow> raw_packet \<Rightarrow> int \<times> int \<Rightarrow> int \<times> int" where
  "DeterminateDir rs p dirs =
     (case DeterminateDir_loop p rs (False, fst dirs) (False, snd dirs) of
        ((foundU, dirU), (foundD, dirD)) \<Rightarrow>
          (if foundU then dirU else int DIR_NUM, if foundD then dirD else int DIR_NUM))"

subsection \<open>First match\<close>

definition rule_matches :: "u8 \<Rightarrow> u32 \<Rightarrow> u16 \<Rightarrow> rule \<Rightarrow> bool" where
  "rule_matches proto ip port r \<longleftrightarrow> ip AND ru_mask r = ru_ip r \<and> port_match r proto port"

definition first_dir :: "(rule \<Rightarrow> bool) \<Rightarrow> rule list \<Rightarrow> int" where
  "first_dir P rs = (case find P rs of Some r \<Rightarrow> sint (ru_dir r) | None \<Rightarrow> int DIR_NUM)"

lemma DeterminateDir_loop_eq:
  "DeterminateDir_loop p rs U D =
    ((if fst U then U else case find (rule_matches (GetProto p) (GetDstIP p) (GetDstPort p)) rs of
        Some r \<Rightarrow> (True, sint (ru_dir r)) | None \<Rightarrow> U),
     (if fst D then D else case find (rule_matches (GetProto p) (GetSrcIP p) (GetSrcPort p)) rs of
        Some r \<Rightarrow> (True, sint (ru_dir r)) | None \<Rightarrow> D))"
  by (induction rs arbitrary: U D) (auto simp: rule_matches_def Let_def)

lemma DeterminateDir_eq:
  "DeterminateDir rs p dirs =
    (first_dir (rule_matches (GetProto p) (GetDstIP p) (GetDstPort p)) rs,
     first_dir (rule_matches (GetProto p) (GetSrcIP p) (GetSrcPort p)) rs)"
  by (simp add: DeterminateDir_def DeterminateDir_loop_eq first_dir_def split: option.split)

text \<open>C36. The direction of a packet is decided by the first rule that matches, separately for the two sides: for
  upload by destination address and port, for download by source address and port; a side no rule matches
  gets the direction that is not counted.\<close>

theorem determinate_dir_first_match:
  "DeterminateDir rs p dirs =
    (first_dir (rule_matches (GetProto p) (GetDstIP p) (GetDstPort p)) rs,
     first_dir (rule_matches (GetProto p) (GetSrcIP p) (GetSrcPort p)) rs)"
  by (rule DeterminateDir_eq)

subsection \<open>Addresses\<close>

lemma CalcMask_calcMask: "m \<le> 32 \<Longrightarrow> CalcMask m = calcMask m"
proof -
  assume "m \<le> 32"
  then consider "m = 32" | "m = 0" | "m \<noteq> 0" "m < 32" by fastforce
  then show ?thesis
  proof cases
    case 1
    then show ?thesis by (simp add: CalcMask_def calcMask_def htonl_def)
  next
    case 2
    have "push_bit 32 (0xFFFFFFFF :: u32) = 0" by simp
    then show ?thesis using 2 by (simp add: CalcMask_def calcMask_def htonl_def)
  next
    case 3
    then show ?thesis by (auto simp: CalcMask_def calcMask_def)
  qed
qed

lemma takeWhile_upto: "(\<And>c. c \<in> set xs \<Longrightarrow> P c) \<Longrightarrow> \<not> P y \<Longrightarrow> takeWhile P (xs @ y # ys) = xs"
  by (simp add: takeWhile_append2)

lemma show_nat_length: "n < 10 ^ k \<Longrightarrow> 0 < k \<Longrightarrow> length (show_nat n) \<le> k"
proof (induction k arbitrary: n)
  case (Suc k)
  show ?case
  proof (cases "n < 10")
    case False
    then have "0 < k" using Suc.prems by (cases k) auto
    moreover have "n div 10 < 10 ^ k" using Suc.prems by (simp add: div_less_iff_less_mult)
    ultimately show ?thesis using Suc.IH [of "n div 10"] False by (simp add: show_nat.simps [of n])
  qed (simp add: show_nat.simps [of n])
qed simp

lemma strtol_digits:
  assumes "\<And>c. c \<in> set s \<Longrightarrow> is_digit c" and "s \<noteq> []"
  shows "strtol10 s = (digits_val s, [])"
proof -
  have d: "is_digit (hd s)" using assms by simp
  then have "\<not> is_space (hd s)" "hd s \<noteq> CHR ''-''" "hd s \<noteq> CHR ''+''" by (auto simp: is_digit_def is_space_def)
  then have "dropWhile is_space s = s" using assms(2) by (cases s) auto
  then show ?thesis
    using assms \<open>hd s \<noteq> CHR ''-''\<close> \<open>hd s \<noteq> CHR ''+''\<close>
    by (simp add: strtol10_def Let_def takeWhile_eq_all_conv [THEN iffD2] dropWhile_eq_Nil_conv [THEN iffD2])
qed

lemma strtol_u16_show: "n < 65536 \<Longrightarrow> strtol_u16 (show_nat n) = Some (of_nat n)"
  using strtol_digits [of "show_nat n", OF show_nat_digits] by (simp add: strtol_u16_def)

lemma octet_text: "length (show_nat (unat (x AND 0xFF :: u32))) \<le> 3"
proof (rule show_nat_length)
  have "x AND 0xFF \<le> 0xFF" by (rule word_and_le1)
  then show "unat (x AND 0xFF) < 10 ^ 3" by unat_arith
qed simp

lemma inet_ntostring_length: "length (inet_ntostring ip) \<le> 15"
  using octet_text [of ip] octet_text [of "drop_bit 8 ip"] octet_text [of "drop_bit 16 ip"] octet_text [of "drop_bit 24 ip"]
  by (simp add: inet_ntostring_def)

lemma show_nat_no:
  "c \<in> set (show_nat n) \<Longrightarrow> c \<noteq> CHR ''/'' \<and> c \<noteq> CHR '':'' \<and> c \<noteq> CHR ''-''"
  using show_nat_digits [of c n] by (auto simp: is_digit_def)

lemma inet_ntostring_no: "c \<in> set (inet_ntostring ip) \<Longrightarrow> c \<noteq> CHR ''/'' \<and> c \<noteq> CHR '':''"
  using inet_ntostring_chars [of c ip] by (auto simp: is_digit_def)

definition address_text :: "u32 \<Rightarrow> nat \<Rightarrow> nat \<Rightarrow> nat \<Rightarrow> string" where
  "address_text ip m p1 p2 =
     inet_ntostring ip @ ''/'' @ show_nat m @ '':'' @ show_nat p1 @ ''-'' @ show_nat p2"

lemma split_address_text:
  assumes "m \<le> 32" and "p1 < 65536" and "p2 < 65536" and "proto = 0 \<or> proto = 1 \<or> proto = 3"
  shows "split_address oob (address_text ip m p1 p2) proto =
    (if oob then None else Some (Inr (inet_ntostring ip, show_nat m, show_nat p1 @ ''-'' @ show_nat p2)))"
proof -
  have a: "takeWhile (\<lambda>c. c \<noteq> CHR ''/'' \<and> c \<noteq> CHR '':'') (address_text ip m p1 p2) = inet_ntostring ip"
    unfolding address_text_def append.simps by (rule takeWhile_upto) (use inet_ntostring_no in auto)
  have m: "takeWhile (\<lambda>c. c \<noteq> CHR '':'') (show_nat m @ '':'' @ show_nat p1 @ ''-'' @ show_nat p2) = show_nat m"
    unfolding append.simps by (rule takeWhile_upto) (use show_nat_no in auto)
  have "length (show_nat m) \<le> 2" "length (show_nat p1) \<le> 5" "length (show_nat p2) \<le> 5"
    using assms(1-3) by (intro show_nat_length; simp)+
  then show ?thesis
    unfolding split_address_def Let_def a using inet_ntostring_length [of ip] assms(4) m
    by (auto simp: address_text_def)
qed

lemma split_ports_text:
  assumes "p1 < 65536" and "p2 < 65536"
  shows "split_ports (show_nat p1 @ ''-'' @ show_nat p2) = Some (show_nat p1, show_nat p2)"
proof -
  have "takeWhile (\<lambda>c. c \<noteq> CHR ''-'') (show_nat p1 @ ''-'' @ show_nat p2) = show_nat p1"
    unfolding append.simps by (rule takeWhile_upto) (use show_nat_no in auto)
  moreover have "length (show_nat p1) \<le> 5" "length (show_nat p2) \<le> 5"
    using assms by (intro show_nat_length; simp)+
  ultimately show ?thesis by (simp add: split_ports_def Let_def)
qed

text \<open>An address written as \<open>a.b.c.d/m:p-q\<close> for a protocol with ports is read back: the rule gets the address,
  the ports, and a mask under which it matches exactly the addresses that agree with it in the first \<open>m\<close> bits;
  an address with bits behind the mask is refused. This holds where the write before the mask buffer
  goes unnoticed; where it does not, no address with a mask can be read.\<close>

theorem parse_address_text:
  assumes "m \<le> 32" and "p1 < 65536" and "p2 < 65536"
    and "ru_proto r = 0 \<or> ru_proto r = 1 \<or> ru_proto r = 3"
    and "\<And>a. aton (inet_ntostring a) = Some a" and "msk = CalcMask (of_nat m)"
  shows "ParseAddress False aton (address_text ip m p1 p2) r =
       (if ip AND msk = ip
        then Some (False, r\<lparr>ru_ip := ip, ru_mask := msk, ru_port1 := of_nat p1, ru_port2 := of_nat p2\<rparr>, [])
        else Some (True, r\<lparr>ru_ip := ip, ru_mask := msk\<rparr>, [''Address does'n match mask.'']))
    \<and> (ip AND msk = ip \<longrightarrow>
        (\<forall>a. a AND msk = ip \<longleftrightarrow> drop_bit (32 - m) (htonl a) = drop_bit (32 - m) (htonl ip)))
    \<and> ParseAddress True aton (address_text ip m p1 p2) r = None"
proof -
  let ?w = "of_nat m :: u32" let ?msk = "CalcMask ?w"
  have w: "?w \<le> 32" "unat ?w = m" using assms(1) by (simp_all add: word_le_nat_alt unat_of_nat)
  have u: "ucast (of_nat m :: u16) = ?w" using assms(1) by (simp add: unsigned_of_nat take_bit_nat_eq_self)
  have p: "ParseAddress False aton (address_text ip m p1 p2) r =
       (if ip AND ?msk = ip
        then Some (False, r\<lparr>ru_ip := ip, ru_mask := ?msk, ru_port1 := of_nat p1, ru_port2 := of_nat p2\<rparr>, [])
        else Some (True, r\<lparr>ru_ip := ip, ru_mask := ?msk\<rparr>, [''Address does'n match mask.'']))"
    using assms(1) split_address_text [OF assms(1-4)] split_ports_text [OF assms(2,3)]
      strtol_u16_show [of m] strtol_u16_show [OF assms(2)] strtol_u16_show [OF assms(3)] assms(5) u
    by (simp add: ParseAddress_def)
  moreover have "a AND ?msk = ip \<longleftrightarrow> drop_bit (32 - m) (htonl a) = drop_bit (32 - m) (htonl ip)"
    if "ip AND ?msk = ip" for a
    using mask_agree_iff [OF w(1), of a ip] that w by (simp add: CalcMask_calcMask)
  moreover have "split_address True (address_text ip m p1 p2) (ru_proto r) = None"
    by (simp add: split_address_text [OF assms(1-4)])
  ultimately show ?thesis by (simp add: ParseAddress_def assms(6))
qed

lemma quad_aton: "(\<lambda>t. Some (quad_addr t)) (inet_ntostring a) = Some a"
  by (simp add: quad_addr_inet_ntostring)

theorem parse_address_text_witness:
  "\<exists>r. ParseAddress False (\<lambda>t. Some (quad_addr t)) (address_text 0x0000000A 8 80 443)
       (last_rule\<lparr>ru_proto := 0\<rparr>) = Some (False, r, [])
     \<and> ru_ip r = 0x0000000A \<and> ru_port1 r = 80 \<and> ru_port2 r = 443 \<and> 0x0301000A AND ru_mask r = ru_ip r"
proof -
  have m: "0x0000000A AND CalcMask 8 = (0x0000000A :: u32)" "0x0301000A AND CalcMask 8 = (0x0000000A :: u32)"
    by (simp_all add: CalcMask_def htonl_def)
  show ?thesis
    using parse_address_text [of 8 80 443 "last_rule\<lparr>ru_proto := 0\<rparr>" "\<lambda>t. Some (quad_addr t)", OF _ _ _ _ quad_aton refl,
      where ip = "0x0000000A"] m
    by simp
qed

subsection \<open>Reading the file\<close>

text \<open>A rule from the file: a known protocol, a direction that is counted or not, and an address with no bits
  behind its mask.\<close>

definition rule_wf :: "rule \<Rightarrow> bool" where
  "rule_wf r \<longleftrightarrow> ru_proto r < 5 \<and> ru_dir r \<le> of_nat DIR_NUM \<and> ru_ip r AND ru_mask r = ru_ip r"

lemma ParseAddress_ok:
  assumes "ParseAddress oob aton ta r = Some (False, r', logs)"
  shows "ru_proto r' = ru_proto r \<and> ru_dir r' = ru_dir r \<and> ru_ip r' AND ru_mask r' = ru_ip r' \<and> logs = []"
proof -
  from assms obtain parts where p: "split_address oob ta (ru_proto r) = Some parts"
    by (auto simp: ParseAddress_def bind_eq_Some_conv)
  show ?thesis
  proof (cases parts)
    case (Inr q)
    obtain a m ps where q: "q = (a, m, ps)" by (cases q)
    from assms obtain p1 p2 where "split_ports ps = Some (p1, p2)"
      by (auto simp: ParseAddress_def p Inr q bind_eq_Some_conv)
    then show ?thesis
      using assms by (auto simp: ParseAddress_def p Inr q Let_def split: option.splits if_splits)
  qed (use assms p in \<open>simp add: ParseAddress_def\<close>)
qed

lemma proto_of_cases: "proto_of tp = 0xFF \<or> proto_of tp < 5"
  by (simp add: proto_of_def PROTOMAX_def protoName_def upt_rec)

lemma dir_of_cases: "dir_of td = 0xFF \<or> dir_of td \<le> of_nat DIR_NUM"
  by (simp add: dir_of_def DIR_NUM_def upt_rec)

lemma ReadRules_loop_wf:
  "ReadRules_loop oob aton fn ls n rul = Some (err, rs, logs) \<Longrightarrow> list_all rule_wf rs"
proof (induction ls arbitrary: n rul err rs logs)
  case (Cons l ls)
  show ?case
  proof (cases "comment_line l \<or> sscanf3 l = None")
    case True
    then show ?thesis using Cons by (auto split: if_splits)
  next
    case False
    then obtain tp ta td where w: "sscanf3 l = Some (tp, ta, td)" by (cases "sscanf3 l") auto
    define r where "r = rul\<lparr>ru_proto := proto_of tp, ru_dir := dir_of td\<rparr>"
    have eq: "ReadRules_loop oob aton fn (l # ls) n rul =
      (if ru_dir r = 0xFF \<or> ru_proto r = 0xFF
       then Some (True, [], [''Error in file '' @ fn @ ''. Line '' @ show_nat (Suc n) @ ''.''])
       else Option.bind (ParseAddress oob aton ta r) (\<lambda>(bad, rul, logs).
         if bad then Some (True, [], logs @ [''Error in file '' @ fn @ ''. Error in adress. Line ''
                       @ show_nat (Suc n) @ ''.''])
         else Option.bind (ReadRules_loop oob aton fn ls (Suc n) rul) (\<lambda>(err, rs, logs'). Some (err, rul # rs, logs @ logs'))))"
      using False w by (simp add: r_def Let_def)
    show ?thesis
    proof (cases "rs = []")
      case ne: False
      from ne Cons.prems obtain r' lg rs' lg' where "\<not> (ru_dir r = 0xFF \<or> ru_proto r = 0xFF)"
        and p: "ParseAddress oob aton ta r = Some (False, r', lg)"
        and q: "ReadRules_loop oob aton fn ls (Suc n) r' = Some (err, rs', lg')" "rs = r' # rs'"
        unfolding eq by (auto simp: bind_eq_Some_conv split: if_splits)
      then have "ru_proto r < 5" "ru_dir r \<le> of_nat DIR_NUM"
        using proto_of_cases [of tp] dir_of_cases [of td] by (auto simp: r_def)
      then have "rule_wf r'" using ParseAddress_ok [OF p] by (simp add: rule_wf_def)
      then show ?thesis using Cons.IH [OF q(1)] q(2) by simp
    qed simp
  qed
qed simp

lemma last_rule_facts: "rule_wf last_rule" "rule_matches proto ip port last_rule" "sint (ru_dir last_rule) = int DIR_NUM"
  by (simp_all add: last_rule_def rule_wf_def rule_matches_def port_match_def DIR_NUM_def)

lemma find_append_hit: "P x \<Longrightarrow> find P (xs @ x # ys) = find P (xs @ [x])"
  by (induction xs) auto

lemma rule_wf_dir: "rule_wf r \<Longrightarrow> 0 \<le> sint (ru_dir r) \<and> sint (ru_dir r) \<le> int DIR_NUM"
proof -
  assume "rule_wf r"
  then have "ru_dir r \<le> 10" by (simp add: rule_wf_def DIR_NUM_def)
  then have u: "uint (ru_dir r) \<le> 10" by (simp add: word_le_def)
  then have "signed_take_bit 31 (uint (ru_dir r)) = uint (ru_dir r)"
    using order_trans [OF _ uint_ge_0, of "- (2 ^ 31)" "ru_dir r"] by (intro signed_take_bit_int_eq_self) simp_all
  then show ?thesis using u by (simp add: sint_uint DIR_NUM_def)
qed

lemma first_dir_bounds: "list_all rule_wf rs \<Longrightarrow> 0 \<le> first_dir P rs \<and> first_dir P rs \<le> int DIR_NUM"
proof -
  assume "list_all rule_wf rs"
  then have "rule_wf r" if "find P rs = Some r" for r
    using that by (metis find_Some_iff list_all_length)
  then show ?thesis using rule_wf_dir by (auto simp: first_dir_def split: option.split)
qed

text \<open>A rules file without errors is added to the rules as a block that ends with the rule for everything
  else, so that no later rule is ever consulted: rules read after it (a counter started again) have no effect. All
  rules are well formed, and every packet gets a direction between 0 and \<open>DIR_NUM\<close>.\<close>

theorem read_rules_complete:
  assumes "ReadRules oob aton fn file False rul s = Some (False, s')" and "tc_rules s = []"
  shows "list_all rule_wf (tc_rules s') \<and> last (tc_rules s') = last_rule
    \<and> DeterminateDir (tc_rules s' @ later) p dirs = DeterminateDir (tc_rules s') p dirs
    \<and> 0 \<le> fst (DeterminateDir (tc_rules s') p dirs) \<and> fst (DeterminateDir (tc_rules s') p dirs) \<le> int DIR_NUM
    \<and> 0 \<le> snd (DeterminateDir (tc_rules s') p dirs) \<and> snd (DeterminateDir (tc_rules s') p dirs) \<le> int DIR_NUM"
proof -
  obtain body where f: "file = Some body" using assms(1) by (cases "file") (auto simp: ReadRules_def)
  with assms(1) obtain err rs logs where l: "ReadRules_loop oob aton fn (fgets_lines body) 0 rul = Some (err, rs, logs)"
    by (auto simp: ReadRules_def bind_eq_Some_conv)
  have s': "tc_rules s' = rs @ [last_rule]"
    using assms f l by (cases err) (auto simp: ReadRules_def Let_def)
  have wf: "list_all rule_wf (tc_rules s')"
    using ReadRules_loop_wf [OF l] by (simp add: s' last_rule_facts)
  have later: "first_dir (rule_matches proto ip port) (tc_rules s' @ later) = first_dir (rule_matches proto ip port) (tc_rules s')"
    for proto ip port
    unfolding s' first_dir_def append.simps append_assoc
    by (subst find_append_hit [where P = "rule_matches proto ip port" and x = last_rule, OF last_rule_facts(2)]) (rule refl)
  note b = first_dir_bounds [OF wf]
  show ?thesis unfolding DeterminateDir_eq fst_conv snd_conv later
    using wf b by (intro conjI) (simp_all add: s')
qed

text \<open>Reloading is all or nothing: if the file cannot be read or has an error, the call fails and the rules stay
  as they are; otherwise the rules are exactly those a counter without rules reads from the file.\<close>

theorem reload_all_or_nothing:
  assumes "Reload oob aton fn file file rul s = Some (rc, s')"
  shows "(rc = - 1 \<and> tc_rules s' = tc_rules s \<and> (\<exists>t. ReadRules oob aton fn file True rul s = Some (True, t)))
    \<or> (rc = 0 \<and> (\<exists>t. ReadRules oob aton fn file False rul (s\<lparr>tc_rules := []\<rparr>) = Some (False, t) \<and> tc_rules s' = tc_rules t))"
proof (cases "file")
  case None
  then show ?thesis using assms by (auto simp: Reload_def ReadRules_def emit_def)
next
  case (Some body)
  with assms obtain err rs logs where l: "ReadRules_loop oob aton fn (fgets_lines body) 0 rul = Some (err, rs, logs)"
    by (auto simp: Reload_def ReadRules_def bind_eq_Some_conv)
  show ?thesis
    using assms Some l by (cases err) (auto simp: Reload_def ReadRules_def FreeRules_def emit_def Let_def)
qed


definition sample_counter :: traffcounter where
  "sample_counter = \<lparr>trace = [], tc_rules = [], tc_packets = [], tc_ip2packets = [], tc_monitorDir = '''',
     tc_monitoring = False, tc_touchTimeP = 0, tc_stopped = True, tc_onIPConns = [], tc_tasks = []\<rparr>"

definition sample_file :: string where
  "sample_file = ''# rules'' @ [CHR 0x0A] @ ''TCP 10.0.0.0/8:80 DIR1'' @ [CHR 0x0A] @ ''ALL 0.0.0.0/0 DIR0'' @ [CHR 0x0A]"

lemma sample_read:
  "map_option (\<lambda>(err, t). (err, tc_rules t))
     (ReadRules False (\<lambda>t. Some (quad_addr t)) ''rules'' (Some sample_file) False last_rule sample_counter)
   = Some (False, [\<lparr>ru_ip = 10, ru_mask = 0xFF, ru_port1 = 80, ru_port2 = 80, ru_proto = 0, ru_dir = 1\<rparr>,
        \<lparr>ru_ip = 0, ru_mask = 0, ru_port1 = 0, ru_port2 = 65535, ru_proto = 4, ru_dir = 0\<rparr>, last_rule])"
  by code_simp

lemma map_option_SomeE:
  assumes "map_option (\<lambda>(x, s). (x, f s)) m = Some (a, b)"
  obtains s where "m = Some (a, s)" "f s = b"
  using assms by auto

theorem read_rules_complete_witness:
  "\<exists>t. ReadRules False (\<lambda>t. Some (quad_addr t)) ''rules'' (Some sample_file) False last_rule sample_counter = Some (False, t)
     \<and> length (tc_rules t) = 3 \<and> last (tc_rules t) = last_rule
     \<and> fst (DeterminateDir (tc_rules t) (sample_packet 6 7) (0, 0)) \<le> int DIR_NUM"
proof -
  obtain t where t: "ReadRules False (\<lambda>t. Some (quad_addr t)) ''rules'' (Some sample_file) False last_rule sample_counter
      = Some (False, t)" "length (tc_rules t) = 3"
    using sample_read by (rule map_option_SomeE) simp
  from read_rules_complete [OF t(1), where p = "sample_packet 6 7" and dirs = "(0, 0)"] t show ?thesis
    by (simp add: sample_counter_def)
qed

lemma sample_reload:
  "map_option (\<lambda>(rc, t). (rc, length (tc_rules t)))
     (Reload False (\<lambda>t. Some (quad_addr t)) ''rules'' (Some sample_file) (Some sample_file) last_rule sample_counter) = Some (0, 3)"
  by code_simp

theorem reload_all_or_nothing_witness:
  "\<exists>s t. Reload False (\<lambda>t. Some (quad_addr t)) ''rules'' (Some sample_file) (Some sample_file) last_rule sample_counter = Some (0, s)
     \<and> ReadRules False (\<lambda>t. Some (quad_addr t)) ''rules'' (Some sample_file) False last_rule (sample_counter\<lparr>tc_rules := []\<rparr>) = Some (False, t)
     \<and> tc_rules s = tc_rules t \<and> length (tc_rules s) = 3"
proof -
  obtain s where s: "Reload False (\<lambda>t. Some (quad_addr t)) ''rules'' (Some sample_file) (Some sample_file) last_rule sample_counter
      = Some (0, s)" "length (tc_rules s) = 3"
    using sample_reload by (rule map_option_SomeE)
  from reload_all_or_nothing [OF s(1)] s show ?thesis by auto
qed

end
