(* ===== verification/Stg_TraffCounter.thy ===== *)
theory Stg_TraffCounter
  imports Stg_Rules
begin

text \<open>
  The traffic counter: \<open>projects/stargazer/traffcounter_impl.cpp\<close>. It collects the bytes of captured packets
  per flow, finds the users of the two addresses in the registry, and reports the bytes to the users from time to
  time. Methods take and return the counter together with the registry of users. Pointers to users are their
  identifiers; using one that has left the registry has no defined outcome (\<open>None\<close>), nor has a failed assertion.
  The counter's own mutex is never locked twice by one thread. Callbacks put tasks into the queue of the
  asynchronous pool (\<open>async_pool.h\<close>), whose thread runs them one after the other.
\<close>

subsection \<open>State\<close>

type_synonym counter = "traffcounter \<times> users"

definition FLUSH_TIME :: int where "FLUSH_TIME = 10"

definition REMOVE_TIME :: int where "REMOVE_TIME = 31"

definition MONITOR_TIME_DELAY_SEC :: int where "MONITOR_TIME_DELAY_SEC = 60"

definition TraffCounterImpl :: "env \<Rightarrow> event list \<Rightarrow> traffcounter" where
  "TraffCounterImpl E tr = \<lparr>trace = tr, tc_rules = [], tc_packets = [], tc_ip2packets = [], tc_monitorDir = '''',
     tc_monitoring = False, tc_touchTimeP = e_stgTime E - MONITOR_TIME_DELAY_SEC, tc_stopped = True,
     tc_onIPConns = [], tc_tasks = []\<rparr>"

definition PacketExtraData :: extra_data where
  "PacketExtraData = \<lparr>pe_flushTime = 0, pe_updateTime = 0, pe_userU = None, pe_userUPresent = False,
     pe_userD = None, pe_userDPresent = False, pe_dirU = int DIR_NUM, pe_dirD = int DIR_NUM, pe_lenU = 0, pe_lenD = 0\<rparr>"

definition SetMonitorDir :: "string \<Rightarrow> traffcounter \<Rightarrow> traffcounter" where
  "SetMonitorDir dir s = s\<lparr>tc_monitorDir := dir, tc_monitoring := dir \<noteq> ''''\<rparr>"

text \<open>\<open>multimap::insert\<close>: behind the entries with the same address.\<close>

definition index_insert :: "u32 \<Rightarrow> raw_packet \<Rightarrow> (u32 \<times> raw_packet) list \<Rightarrow> (u32 \<times> raw_packet) list" where
  "index_insert ip p xs = takeWhile (\<lambda>e. fst e \<le> ip) xs @ (ip, p) # dropWhile (\<lambda>e. fst e \<le> ip) xs"

definition equal_range :: "u32 \<Rightarrow> (u32 \<times> raw_packet) list \<Rightarrow> raw_packet list" where
  "equal_range ip xs = map snd (filter (\<lambda>e. fst e = ip) xs)"

definition index_packet :: "raw_packet \<Rightarrow> (u32 \<times> raw_packet) list \<Rightarrow> (u32 \<times> raw_packet) list" where
  "index_packet p xs = index_insert (GetDstIP p) p (index_insert (GetSrcIP p) p xs)"

subsection \<open>Packets\<close>

definition touched :: "env \<Rightarrow> traffcounter \<Rightarrow> traffcounter" where
  "touched E s = (if tc_monitoring s \<and> tc_touchTimeP s + MONITOR_TIME_DELAY_SEC \<le> e_stgTime E
     then emit (TouchFile (tc_monitorDir s @ ''/traffcounter_p'')) (s\<lparr>tc_touchTimeP := e_stgTime E\<rparr>) else s)"

definition process_new :: "env \<Rightarrow> raw_packet \<Rightarrow> counter \<Rightarrow> counter option" where
  "process_new E p = (\<lambda>(s, us). do {
     ((rcU, iU), us) \<leftarrow> FindByIPIdx E (GetSrcIP p) us;
     ((rcD, iD), us) \<leftarrow> FindByIPIdx E (GetDstIP p) us;
     let d = PacketExtraData\<lparr>pe_updateTime := e_stgTime E, pe_flushTime := e_stgTime E,
               pe_userU := iU, pe_userUPresent := rcU = 0, pe_userD := iD, pe_userDPresent := rcD = 0\<rparr>;
     Some (if pe_userUPresent d \<or> pe_userDPresent d
           then let dirs = DeterminateDir (tc_rules s) p (pe_dirU d, pe_dirD d);
                    d = d\<lparr>pe_dirU := fst dirs, pe_dirD := snd dirs, pe_lenU := GetLen p, pe_lenD := GetLen p\<rparr>
                in (s\<lparr>tc_packets := map_insert RawPacket_less p d (tc_packets s),
                      tc_ip2packets := index_packet p (tc_ip2packets s)\<rparr>, us)
           else (s, us))
   })"

definition process :: "env \<Rightarrow> raw_packet \<Rightarrow> counter \<Rightarrow> counter option" where
  "process E p = (\<lambda>(s, us).
     let s = touched E s
     in case map_find RawPacket_less p (tc_packets s) of
       Some _ \<Rightarrow> Some (s\<lparr>tc_packets := map_change RawPacket_less p (\<lambda>d. d\<lparr>pe_lenU := pe_lenU d + GetLen p,
             pe_lenD := pe_lenD d + GetLen p, pe_updateTime := e_stgTime E\<rparr>) (tc_packets s)\<rparr>, us)
     | None \<Rightarrow> process_new E p (s, us))"

text \<open>Reporting the bytes of one packet entry to a user.\<close>

definition report_up :: "env \<Rightarrow> raw_packet \<Rightarrow> extra_data \<Rightarrow> users \<Rightarrow> users option" where
  "report_up E p d us = do {
     i \<leftarrow> pe_userU d;
     map_option snd (on_user E (\<lambda>E. AddTraffStatU E (nat (pe_dirU d)) (GetDstIP p) (pe_lenU d)) i us)
   }"

definition report_down :: "env \<Rightarrow> raw_packet \<Rightarrow> extra_data \<Rightarrow> users \<Rightarrow> users option" where
  "report_down E p d us = do {
     i \<leftarrow> pe_userD d;
     map_option snd (on_user E (\<lambda>E. AddTraffStatD E (nat (pe_dirD d)) (GetSrcIP p) (pe_lenD d)) i us)
   }"

definition flush_packet :: "env \<Rightarrow> raw_packet \<Rightarrow> extra_data \<Rightarrow> users \<Rightarrow> (extra_data \<times> users) option" where
  "flush_packet E p d us =
     (if e_stgTime E - pe_flushTime d > FLUSH_TIME
      then do {
        (d, us) \<leftarrow> (if pe_userUPresent d
                   then do {
                     us \<leftarrow> (if pe_dirU d < int DIR_NUM then report_up E p d us else Some us);
                     Some (d\<lparr>pe_lenU := 0, pe_flushTime := e_stgTime E\<rparr>, us)
                   }
                   else Some (d, us));
        (if pe_userDPresent d
         then do {
           us \<leftarrow> (if pe_dirD d < int DIR_NUM then report_down E p d us else Some us);
           Some (d\<lparr>pe_lenD := 0, pe_flushTime := e_stgTime E\<rparr>, us)
         }
         else Some (d, us))
      }
      else Some (d, us))"

fun FlushAndRemove_loop ::
    "env \<Rightarrow> (raw_packet \<times> extra_data) list \<Rightarrow> (raw_packet \<times> extra_data) list \<Rightarrow> (u32 \<times> raw_packet) list \<Rightarrow> users
      \<Rightarrow> ((raw_packet \<times> extra_data) list \<times> (u32 \<times> raw_packet) list \<times> users) option" where
  "FlushAndRemove_loop E [] new idx us = Some (new, idx, us)"
| "FlushAndRemove_loop E ((p, d) # ps) new idx us = do {
     (d, us) \<leftarrow> flush_packet E p d us;
     (if e_stgTime E - pe_updateTime d < REMOVE_TIME \<and> map_find RawPacket_less p new = None
      then FlushAndRemove_loop E ps (map_insert RawPacket_less p d new) (index_packet p idx) us
      else FlushAndRemove_loop E ps new idx us)
   }"

definition FlushAndRemove :: "env \<Rightarrow> counter \<Rightarrow> counter option" where
  "FlushAndRemove E = (\<lambda>(s, us). do {
     (new, idx, us) \<leftarrow> FlushAndRemove_loop E (tc_packets s) [] [] us;
     Some (s\<lparr>tc_packets := new, tc_ip2packets := idx\<rparr>, us)
   })"

subsection \<open>Users that come and go\<close>

definition add_user_packet :: "int \<Rightarrow> u32 \<Rightarrow> raw_packet \<Rightarrow> extra_data \<Rightarrow> extra_data option" where
  "add_user_packet i uip p d = do {
     d \<leftarrow> (if GetSrcIP p = uip
          then if pe_userUPresent d \<and> pe_userU d \<noteq> Some i then None
               else Some (d\<lparr>pe_lenU := 0, pe_userU := Some i, pe_userUPresent := True\<rparr>)
          else Some d);
     (if GetDstIP p = uip
      then if pe_userDPresent d \<and> pe_userD d \<noteq> Some i then None
           else Some (d\<lparr>pe_lenD := 0, pe_userD := Some i, pe_userDPresent := True\<rparr>)
      else Some d)
   }"

fun AddUser_loop :: "int \<Rightarrow> u32 \<Rightarrow> raw_packet list \<Rightarrow> (raw_packet \<times> extra_data) list \<Rightarrow> (raw_packet \<times> extra_data) list option" where
  "AddUser_loop i uip [] ps = Some ps"
| "AddUser_loop i uip (p # rest) ps = do {
     d \<leftarrow> map_find RawPacket_less p ps;
     d \<leftarrow> add_user_packet i uip p d;
     AddUser_loop i uip rest (map_change RawPacket_less p (\<lambda>_. d) ps)
   }"

definition AddUser :: "int \<Rightarrow> counter \<Rightarrow> counter option" where
  "AddUser i = (\<lambda>(s, us). do {
     u \<leftarrow> user_at i us;
     ps \<leftarrow> AddUser_loop i (u_currIP u) (equal_range (u_currIP u) (tc_ip2packets s)) (tc_packets s);
     Some (s\<lparr>tc_packets := ps\<rparr>, us)
   })"

definition del_user_packet :: "env \<Rightarrow> u32 \<Rightarrow> raw_packet \<Rightarrow> extra_data \<Rightarrow> users \<Rightarrow> (extra_data \<times> users) option" where
  "del_user_packet E uip p d us = do {
     (d, us) \<leftarrow> (if GetSrcIP p = uip
                then do {
                  us \<leftarrow> (if pe_dirU d < int DIR_NUM \<and> pe_userUPresent d then report_up E p d us else Some us);
                  Some (d\<lparr>pe_userUPresent := False\<rparr>, us)
                }
                else Some (d, us));
     (if GetDstIP p = uip
      then do {
        us \<leftarrow> (if pe_dirD d < int DIR_NUM \<and> pe_userDPresent d then report_down E p d us else Some us);
        Some (d\<lparr>pe_userDPresent := False\<rparr>, us)
      }
      else Some (d, us))
   }"

fun DelUser_loop ::
    "env \<Rightarrow> u32 \<Rightarrow> raw_packet list \<Rightarrow> (raw_packet \<times> extra_data) list \<Rightarrow> users
      \<Rightarrow> ((raw_packet \<times> extra_data) list \<times> users) option" where
  "DelUser_loop E uip [] ps us = Some (ps, us)"
| "DelUser_loop E uip (p # rest) ps us = do {
     d \<leftarrow> map_find RawPacket_less p ps;
     (d, us) \<leftarrow> del_user_packet E uip p d us;
     DelUser_loop E uip rest (map_change RawPacket_less p (\<lambda>_. d) ps) us
   }"

text \<open>The final \<open>erase\<close> gets an empty range, because the loop has moved its first end to the second: the
  index keeps its entries.\<close>

definition DelUser :: "env \<Rightarrow> u32 \<Rightarrow> counter \<Rightarrow> counter option" where
  "DelUser E uip = (\<lambda>(s, us). do {
     (ps, us) \<leftarrow> DelUser_loop E uip (equal_range uip (tc_ip2packets s)) (tc_packets s) us;
     Some (s\<lparr>tc_packets := ps\<rparr>, us)
   })"

subsection \<open>Notifications and tasks\<close>

definition SetUserNotifiers :: "int \<Rightarrow> traffcounter \<Rightarrow> traffcounter" where
  "SetUserNotifiers i s = s\<lparr>tc_onIPConns := tc_onIPConns s @ [i]\<rparr>"

definition UnSetUserNotifiers :: "int \<Rightarrow> traffcounter \<Rightarrow> traffcounter" where
  "UnSetUserNotifiers i s = s\<lparr>tc_onIPConns := filter (\<lambda>j. j \<noteq> i) (tc_onIPConns s)\<rparr>"

definition enqueue :: "task \<Rightarrow> traffcounter \<Rightarrow> traffcounter" where
  "enqueue t s = s\<lparr>tc_tasks := tc_tasks s @ [t]\<rparr>"

definition onUserAdd :: "int \<Rightarrow> traffcounter \<Rightarrow> traffcounter" where
  "onUserAdd i s = enqueue (T_SetUserNotifiers i) s"

definition onUserDel :: "int \<Rightarrow> traffcounter \<Rightarrow> traffcounter" where
  "onUserDel i s = enqueue (T_UserDeleted i) s"

definition beforeIPChange :: "u32 \<Rightarrow> traffcounter \<Rightarrow> traffcounter" where
  "beforeIPChange oldVal s = (if oldVal = 0 then s else enqueue (T_DelUser oldVal) s)"

definition afterIPChange :: "int \<Rightarrow> u32 \<Rightarrow> traffcounter \<Rightarrow> traffcounter" where
  "afterIPChange i newVal s = (if newVal = 0 then s else enqueue (T_AddUser i) s)"

text \<open>An address change of a user, seen by every connection made for it.\<close>

definition notify_ip_change :: "int \<Rightarrow> u32 \<Rightarrow> u32 \<Rightarrow> traffcounter \<Rightarrow> traffcounter" where
  "notify_ip_change i oldVal newVal s =
     (let n = count_list (tc_onIPConns s) i
      in (afterIPChange i newVal ^^ n) ((beforeIPChange oldVal ^^ n) s))"

definition run_task :: "env \<Rightarrow> task \<Rightarrow> counter \<Rightarrow> counter option" where
  "run_task E t = (\<lambda>(s, us). case t of
     T_SetUserNotifiers i \<Rightarrow> Some (SetUserNotifiers i s, us)
   | T_UserDeleted i \<Rightarrow> do { u \<leftarrow> user_at i us; DelUser E (u_currIP u) (UnSetUserNotifiers i s, us) }
   | T_DelUser ip \<Rightarrow> DelUser E ip (s, us)
   | T_AddUser i \<Rightarrow> AddUser i (s, us))"

text \<open>The pool's thread takes the oldest task.\<close>

definition AsyncPool_turn :: "env \<Rightarrow> counter \<Rightarrow> counter option" where
  "AsyncPool_turn E = (\<lambda>(s, us). case tc_tasks s of
     [] \<Rightarrow> Some (s, us)
   | t # ts \<Rightarrow> run_task E t (s\<lparr>tc_tasks := ts\<rparr>, us))"

subsection \<open>Start, run and stop\<close>

text \<open>\<open>Start\<close> reads the rules and subscribes to every user a search delivers; the search is bounded by the length of
  the list of users (\<open>None\<close> when that is not enough). Starting the thread is \<open>Run_begin\<close>.\<close>

definition TraffCounter_Start ::
    "env \<Rightarrow> bool \<Rightarrow> (string \<Rightarrow> u32 option) \<Rightarrow> string \<Rightarrow> string option \<Rightarrow> rule \<Rightarrow> counter \<Rightarrow> (int \<times> counter) option" where
  "TraffCounter_Start E oob aton fn fl rul = (\<lambda>(s, us).
     if \<not> tc_stopped s then Some (0, s, us)
     else do {
       (err, s) \<leftarrow> ReadRules oob aton fn fl False rul s;
       (if err then Some (- 1, emit (Log ''TraffCounter: Cannot read rules.'') s, us)
        else do {
          (h, us) \<leftarrow> Users_OpenSearch E us;
          (if h = 0 then None
           else do {
             (vs, us) \<leftarrow> search_all (next_user E h) (Suc (length (us_users us))) us;
             (_, us) \<leftarrow> Users_CloseSearch E h us;
             Some (0, fold (\<lambda>u. SetUserNotifiers (u_id u)) vs s, us)
           })
        })
     })"

definition Run_begin :: "traffcounter \<Rightarrow> traffcounter" where
  "Run_begin s = s\<lparr>tc_stopped := False\<rparr>"

text \<open>One turn of the loop: \<open>c\<close> counts turns, \<open>touchTime\<close> is when the monitor file was last written.\<close>

definition TraffCounter_Run_turn :: "env \<Rightarrow> int \<times> time_t \<Rightarrow> counter \<Rightarrow> ((int \<times> time_t) \<times> counter) option" where
  "TraffCounter_Run_turn E = (\<lambda>(c, touchTime) (s, us).
     let due = (tc_monitoring s \<and> touchTime + MONITOR_TIME_DELAY_SEC \<le> e_stgTime E);
         s = (if due then emit (TouchFile (tc_monitorDir s @ ''/traffcounter_r'')) s else s);
         touchTime = (if due then e_stgTime E else touchTime);
         c = i32 (c + 1)
     in map_option (Pair (c, touchTime))
          (if c smod FLUSH_TIME = 0 then FlushAndRemove E (s, us) else Some (s, us)))"

definition Run_end :: "env \<Rightarrow> counter \<Rightarrow> counter option" where
  "Run_end E c = map_option (\<lambda>(s, us). (s\<lparr>tc_stopped := True\<rparr>, us)) (FlushAndRemove E c)"

text \<open>\<open>Stop\<close>: \<open>joins\<close> says whether the thread ends in time, after its last flush. The search it opens is never
  closed.\<close>

definition TraffCounter_Stop :: "env \<Rightarrow> bool \<Rightarrow> counter \<Rightarrow> (int \<times> counter) option" where
  "TraffCounter_Stop E joins = (\<lambda>(s, us).
     if tc_stopped s then Some (0, s, us)
     else do {
       (h, us) \<leftarrow> Users_OpenSearch E us;
       (if h = 0 then None
        else let s = s\<lparr>tc_onIPConns := []\<rparr>
             in if joins then map_option (Pair 0) (Run_end E (s, us)) else Some (- 1, s, us))
     })"

end
