(* ===== verification/Stg_UserLife.thy ===== *)
theory Stg_UserLife
  imports Stg_Session
begin

text \<open>
  What single operations of a user achieve, on top of the invariant of \<open>Stg_Session\<close>: reachable
  states, \<open>Run\<close> that brings the connection in line with the balance, the calls that lock a mutex
  twice, and property changes with their log lines.
\<close>

subsection \<open>Reachable states\<close>

text \<open>C1. Whatever sequence of calls is applied to a user object after its construction: it holds an address
  exactly as long as somebody authorized it, it is connected only while authorized and then knows the
  address to disconnect, its tariff pointer is the one its tariff name denotes, all four counters have an entry
  per direction, and the detail statistics map stays sorted by its key.\<close>

theorem user_reachable_inv:
  assumes "UserImpl E ds tr = Some u0" and "(user_step (e_FindTariff E))\<^sup>*\<^sup>* u0 u"
  shows "(u_authorizedBy u = [] \<longleftrightarrow> u_currIP u = 0)
    \<and> (u_connected u \<longrightarrow> u_authorizedBy u \<noteq> [] \<and> u_lastIPForDisconnect u \<noteq> 0)
    \<and> u_tariff u = e_FindTariff E (uc_tariffName (u_conf u))
    \<and> length (up_traff u) = DIR_NUM \<and> length (down_traff u) = DIR_NUM
    \<and> length (u_sessionUpload u) = DIR_NUM \<and> length (u_sessionDownload u) = DIR_NUM
    \<and> sorted_wrt (<) (map fst (u_traffStat u))"
proof -
  have "user_inv (e_FindTariff E) u"
    using assms(2)
    by (induction rule: rtranclp_induct) (use assms(1) UserImpl_inv user_step_inv in auto)
  then show ?thesis
    by (auto simp: user_inv_def sess_def counters_ok_def traff_wf_def traff_stat_wf_def)
qed

theorem user_reachable_inv_witness:
  "\<exists>u0 u. UserImpl sample_env [] [] = Some u0 \<and> UpdatePingTime sample_env 5 u0 = Some ((), u)
     \<and> u_pingTime u = 5 \<and> (u_authorizedBy u = [] \<longleftrightarrow> u_currIP u = 0)"
proof -
  obtain u0 where u0: "UserImpl sample_env [] [] = Some u0" "\<not> u_locked u0"
    by (simp add: UserImpl_def sample_env_def sample_settings_def GetStatWritePeriod_def Let_def)
  then obtain u where u: "UpdatePingTime sample_env 5 u0 = Some ((), u)" "u_pingTime u = 5"
    by (simp add: UpdatePingTime_def with_lock_def)
  have "(user_step (e_FindTariff sample_env))\<^sup>*\<^sup>* u0 u" using step_ping [OF u(1)] by blast
  from user_reachable_inv [OF u0(1) this] u u0 show ?thesis by blast
qed

subsection \<open>Run and the connection\<close>

lemma only_messages_fields:
  assumes "only_messages u v"
  shows "u_connected v = u_connected u" "u_authorizedBy v = u_authorizedBy u"
    "u_stat v = u_stat u" "u_conf v = u_conf u" "u_tariff v = u_tariff u"
proof -
  have c: "core v = (core u)\<lparr>u_messages := u_messages v\<rparr>" using assms by (simp add: only_messages_def)
  show "u_connected v = u_connected u" "u_authorizedBy v = u_authorizedBy u"
    "u_stat v = u_stat u" "u_conf v = u_conf u" "u_tariff v = u_tariff u"
    using arg_cong [OF c, of u_connected] arg_cong [OF c, of u_authorizedBy]
      arg_cong [OF c, of u_stat] arg_cong [OF c, of u_conf] arg_cong [OF c, of u_tariff]
    by (simp_all add: core_fields)
qed

lemma Run_sessions_connected:
  assumes i: "user_inv F u" and r: "Run_sessions E u = Some u'"
  shows "u_connected u' \<longleftrightarrow> u_authorizedBy u' \<noteq> [] \<and> IsInetable E u'"
proof (cases "u_authorizedBy u = []")
  case True
  then have "\<not> u_connected u" using i by (auto simp: user_inv_def sess_def)
  then show ?thesis using True r by (simp add: Run_sessions_def)
next
  case False
  define a where "a = (if u_connected u
    then on_stat (us_lastActivityTime_update (\<lambda>_. e_stgTime E)) u else u)"
  have a: "user_inv F a" "u_authorizedBy a \<noteq> []" using i False by (simp_all add: a_def user_inv_stat)
  define b where "b = (if \<not> u_connected a \<and> IsInetable E a then Connect E False a else a)"
  have b: "user_inv F b" "u_authorizedBy b \<noteq> []" "IsInetable E b \<longrightarrow> u_connected b"
    using a by (auto simp: b_def intro: Connect_inv)
  define c where "c = (if u_connected b \<and> \<not> IsInetable E b
                  then (if is_disabled b then Disconnect E False ''disabled'' b
                        else if is_passive b then Disconnect E False ''passive'' b
                        else Disconnect E False ''no cash'' b)
                  else b)"
  have "u_lastIPForDisconnect b \<noteq> 0" if "u_connected b"
    using b(1) that by (simp add: user_inv_def sess_def)
  then have c: "u_connected c \<longleftrightarrow> IsInetable E c" "u_authorizedBy c \<noteq> []"
    using b by (auto simp: c_def)
  have "Run_sessions E u = (if e_stgTime E - u_lastScanMessages c > 10
            then map_option (\<lambda>u. u\<lparr>u_lastScanMessages := e_stgTime E\<rparr>) (ScanMessage E c)
            else Some c)"
    using False by (simp only: Run_sessions_def Let_def a_def b_def c_def if_True not_False_eq_True)
  then have "(\<exists>d t. ScanMessage E c = Some d \<and> u' = d\<lparr>u_lastScanMessages := t\<rparr>)
      \<or> u' = c\<lparr>u_lastScanMessages := u_lastScanMessages c\<rparr>"
    using r by (cases "ScanMessage E c") (auto split: if_splits)
  then obtain d t where d: "u' = d\<lparr>u_lastScanMessages := t\<rparr>" "only_messages c d"
    using ScanMessage_loop_only [of E 0 c] only_messages_refl [of c] unfolding ScanMessage_def by blast
  have "IsInetable E u' = IsInetable E c"
    using only_messages_fields [OF d(2)] d(1) by (intro IsInetable_eq) simp_all
  then show ?thesis using c only_messages_fields [OF d(2)] d(1) by simp
qed


text \<open>C15. After a call of \<open>Run\<close> a user is connected exactly when it is authorized and may use the network
  (\<open>IsInetable\<close>).\<close>

theorem run_connects:
  assumes "user_inv F u" and "Run E u = Some (x, u')"
  shows "u_connected u' \<longleftrightarrow> u_authorizedBy u' \<noteq> [] \<and> IsInetable E u'"
  using assms(2) unfolding Run_def
proof (rule with_lock_post [where P = "user_inv F"])
  show "user_inv F u" by fact
  show "u_connected v \<longleftrightarrow> u_authorizedBy v \<noteq> [] \<and> IsInetable E v"
    if "user_inv F u" and "Run_body E u = Some (x, v)" for u x v
    using Run_body_sessions [OF that] Run_sessions_connected by blast
  show "(u_connected (u\<lparr>u_locked := b\<rparr>) \<longleftrightarrow> u_authorizedBy (u\<lparr>u_locked := b\<rparr>) \<noteq> []
      \<and> IsInetable E (u\<lparr>u_locked := b\<rparr>)) = (u_connected u \<longleftrightarrow> u_authorizedBy u \<noteq> [] \<and> IsInetable E u)"
    for u b using IsInetable_eq [of "u\<lparr>u_locked := b\<rparr>" u E] by simp
qed simp

theorem run_connects_witness:
  "(let u = sample_user\<lparr>u_currIP := 1, u_authorizedBy := [1]\<rparr>
    in \<exists>x u'. user_inv (e_FindTariff sample_env) u \<and> Run sample_env u = Some (x, u')
      \<and> u_connected u' = (u_authorizedBy u' \<noteq> [] \<and> IsInetable sample_env u'))"
proof -
  let ?u = "sample_user\<lparr>u_currIP := 1, u_authorizedBy := [1]\<rparr>"
  have i: "user_inv (e_FindTariff sample_env) ?u"
    by (simp add: user_inv_def sess_def counters_ok_def sample_user_def sample_env_def UserStat_def
        UserConf_def traff_stat_wf_def)
  have "Run sample_env ?u \<noteq> None"
    by (simp add: Run_def with_lock_def Run_body_def Run_passive_def Run_sessions_def ScanMessage_def
        ScanMessage_loop.simps sample_user_def sample_env_def sample_settings_def UserConf_def UserStat_def GetStatWritePeriod_def Let_def)
  then obtain x u' where r: "Run sample_env ?u = Some (x, u')" by auto
  show ?thesis using i r run_connects [OF i r] by (auto simp: Let_def)
qed

subsection \<open>Locking twice\<close>

lemma with_lock_blocks: "u_locked u \<Longrightarrow> e_relock_blocks E \<Longrightarrow> with_lock E f u = None"
  by (simp add: with_lock_def)

lemma with_lock_free: "\<not> u_locked u \<Longrightarrow> with_lock E f u =
    map_option (\<lambda>(x, u). (x, u\<lparr>u_locked := False\<rparr>)) (f (u\<lparr>u_locked := True\<rparr>))"
  by (simp add: with_lock_def)

lemma script_for_login_locked [simp]: "u_locked (script_for_login E n u) = u_locked u"
  by (simp add: script_for_login_def Let_def emit_def)

text \<open>C37. With a mutex that blocks when its owner locks it again, \<open>ProcessNewMonth\<close> and \<open>OnDelete\<close> never return,
  and neither does \<open>Run\<close> once the statistics are due: each calls a method that takes the lock its
  caller already holds.\<close>

theorem user_self_deadlock:
  assumes "e_relock_blocks E" and "\<not> u_locked u"
  shows "ProcessNewMonth E u = None \<and> OnDelete E u = None
    \<and> (e_stgTime E > u_lastWriteStat u + GetStatWritePeriod (e_set E) \<longrightarrow> Run E u = None)"
proof (intro conjI impI)
  let ?u = "u\<lparr>u_locked := True\<rparr>"
  have "u_locked (if u_connected ?u then Disconnect E True ''fake'' ?u else ?u)" by simp
  then show "ProcessNewMonth E u = None"
    using assms
    by (simp add: ProcessNewMonth_def with_lock_free ProcessNewMonth_body_def WriteMonthStat_def
        with_lock_blocks Let_def)
  show "OnDelete E u = None"
    using assms by (simp add: OnDelete_def with_lock_free Run_def with_lock_blocks)
  show "Run E u = None" if "e_stgTime E > u_lastWriteStat u + GetStatWritePeriod (e_set E)"
    using assms that by (simp add: Run_def with_lock_free Run_body_def WriteStat_def with_lock_blocks)
qed

theorem user_self_deadlock_witness:
  "e_relock_blocks sample_env \<and> OnDelete sample_env sample_user = None
   \<and> Run (sample_env\<lparr>e_stgTime := 2000000\<rparr>) sample_user = None"
  using user_self_deadlock [of sample_env sample_user]
    user_self_deadlock [of "sample_env\<lparr>e_stgTime := 2000000\<rparr>" sample_user]
  by (simp add: sample_env_def sample_user_def sample_settings_def GetStatWritePeriod_def)

subsection \<open>Property changes and their traces\<close>

lemma emit_fields [simp]: "u_login (emit e u) = u_login u" "u_conf (emit e u) = u_conf u"
  "u_stat (emit e u) = u_stat u" "u_mtime (emit e u) = u_mtime u" "u_tariff (emit e u) = u_tariff u"
  "u_locked (emit e u) = u_locked u"
  by (simp_all add: emit_def)

text \<open>The event of the \<open>OnChange\<close> script.\<close>

definition change_event :: "env \<Rightarrow> admin \<Rightarrow> string \<Rightarrow> string \<Rightarrow> string \<Rightarrow> user \<Rightarrow> event" where
  "change_event E adm n a b u = last (trace (OnChange E n a b adm u))"

lemma trace_OnChange: "trace (OnChange E n a b adm u) = trace u @ [change_event E adm n a b u]"
  by (simp add: change_event_def OnChange_def Let_def)

lemma OnChange_login [simp]: "u_login (OnChange E n a b adm u) = u_login u"
  by (simp add: OnChange_def Let_def)

definition change_log :: "admin \<Rightarrow> string \<Rightarrow> string \<Rightarrow> string \<Rightarrow> string \<Rightarrow> string \<Rightarrow> event" where
  "change_log adm login n a b msg = Log (Admin_logStr adm @ '' User '' @ squote login @ '': ''
     @ squote n @ '' parameter changed from '' @ squote a @ '' to '' @ squote b @ ''. '' @ msg)"

lemma trace_WriteSuccessChange:
  "trace (WriteSuccessChange E adm n a b msg u) = trace u @ [change_log adm (u_login u) n a b msg] @
     (if list_ex (\<lambda>f. f = ''*'' \<or> strcaseeq f n) (s_filterParamsLog (e_set E))
      then [Call (S_WriteUserChgLog (u_login u) (Admin_login adm) (ad_ip adm) n a b msg)] else [])"
  unfolding WriteSuccessChange_def change_log_def Let_def by simp

text \<open>A change of the password is carried out exactly for an administrator with one of the two
  privileges; logs and the change log in the store see six stars for both values, but the event of the
  \<open>OnChange\<close> script carries them in clear text.\<close>

theorem password_change_masked:
  "UserPropertyLogged_Set E prop_password new adm msg u =
    (if p_userConf (Admin_priv adm) \<noteq> 0 \<or> p_userPasswd (Admin_priv adm) \<noteq> 0
     then Some (True, (on_conf (uc_password_update (\<lambda>_. new)) u)\<lparr>
        u_mtime := (u_mtime u)(''password'' := e_time E),
        trace := trace u @ [change_event E adm ''password'' (uc_password (u_conf u)) new u,
          change_log adm (u_login u) ''password'' ''******'' ''******'' msg] @
          (if list_ex (\<lambda>f. f = ''*'' \<or> strcaseeq f ''password'') (s_filterParamsLog (e_set E))
           then [Call (S_WriteUserChgLog (u_login u) (Admin_login adm) (ad_ip adm)
                   ''password'' ''******'' ''******'' msg)] else [])\<rparr>)
     else Some (False, WriteAccessDenied adm ''password'' u))"
proof -
  have m: "may_change adm prop_password \<longleftrightarrow>
      p_userConf (Admin_priv adm) \<noteq> 0 \<or> p_userPasswd (Admin_priv adm) \<noteq> 0"
    by (simp add: may_change_def prop_password_def plain_property_def)
  have s: "OnChange E n a b adm u = u\<lparr>trace := trace (OnChange E n a b adm u)\<rparr>"
    "WriteSuccessChange E adm n a b msg u = u\<lparr>trace := trace (WriteSuccessChange E adm n a b msg u)\<rparr>"
    for n a b u
    unfolding OnChange_def WriteSuccessChange_def Let_def by (simp_all add: emit_def)
  have w: "WriteSuccessChange E adm ''password'' ''******'' ''******'' msg
      (OnChange E ''password'' (uc_password (u_conf u)) new adm u) = u\<lparr>trace := trace u @
        [change_event E adm ''password'' (uc_password (u_conf u)) new u,
         change_log adm (u_login u) ''password'' ''******'' ''******'' msg] @
          (if list_ex (\<lambda>f. f = ''*'' \<or> strcaseeq f ''password'') (s_filterParamsLog (e_set E))
           then [Call (S_WriteUserChgLog (u_login u) (Admin_login adm) (ad_ip adm)
                   ''password'' ''******'' ''******'' msg)] else [])\<rparr>"
    by (subst s(2), subst s(1)) (simp add: trace_WriteSuccessChange trace_OnChange)
  show ?thesis
    unfolding UserPropertyLogged_Set_def m
    by (simp add: prop_password_def assign_def Let_def) (simp add: plain_property_def w ModifyTime_def)
qed

theorem password_change_masked_witness:
  "\<exists>u'. UserPropertyLogged_Set sample_env prop_password ''new'' as_stg '''' sample_user = Some (True, u')
     \<and> uc_password (u_conf u') = ''new''
     \<and> trace u' ! 1 = change_log as_stg ''u'' ''password'' ''******'' ''******'' ''''"
  unfolding password_change_masked
  by (simp add: as_stg_def Admin_def Priv_def sample_user_def UserConf_def)

subsection \<open>Changes of the balance\<close>

lemma cash_Set:
  "UserProperty_Set E (prop_cash E) v u = Some (ModifyTime E ''cash''
     (on_stat (us_cash_update (\<lambda>_. v)) (onCashChange E (cash u) v u)))"
  by (simp add: UserProperty_Set_def prop_cash_def Let_def)

lemma onCashChange_fields [simp]:
  "cash (onCashChange E a b u) = cash u" "freeMb (onCashChange E a b u) = freeMb u"
  "u_conf (onCashChange E a b u) = u_conf u" "u_tariff (onCashChange E a b u) = u_tariff u"
  "us_passiveTime (u_stat (onCashChange E a b u)) = us_passiveTime (u_stat u)"
  "up_traff (onCashChange E a b u) = up_traff u" "down_traff (onCashChange E a b u) = down_traff u"
  "u_locked (onCashChange E a b u) = u_locked u"
  by (simp_all add: onCashChange_def assign_def prop_lastCashAdd_def prop_lastCashAddTime_def
      plain_property_def ModifyTime_def)

lemma cash_Logged_Set:
  assumes "may_change adm (prop_cash E)"
  obtains u' where "UserPropertyLogged_Set E (prop_cash E) v adm msg u = Some (True, u')"
    "cash u' = v" "freeMb u' = freeMb u" "u_conf u' = u_conf u" "u_tariff u' = u_tariff u"
    "us_passiveTime (u_stat u') = us_passiveTime (u_stat u)" "u_locked u' = u_locked u"
    "us_lastCashAdd (u_stat u') = dsub v (cash u)"
proof -
  obtain r u' where s: "UserPropertyLogged_Set E (prop_cash E) v adm msg u = Some (r, u')"
    using assms by (simp add: UserPropertyLogged_Set_def cash_Set Let_def)
  then show ?thesis
  proof (cases rule: Logged_Set_SomeE)
    case (2 w)
    have f: "u_stat w = u_stat u" "u_conf w = u_conf u" "u_tariff w = u_tariff u" "u_locked w = u_locked u"
      using core_fields(1,4,5,9) [of w] core_fields(1,4,5,9) [of u] 2(3) by simp_all
    have u': "u' = ModifyTime E ''cash'' (on_stat (us_cash_update (\<lambda>_. v)) (onCashChange E (cash w) v w))"
      using 2(4) by (simp add: cash_Set)
    show ?thesis
      by (rule that [of u'])
        (use s 2(1) f u' in \<open>simp_all add: ModifyTime_def onCashChange_def assign_def
          prop_lastCashAdd_def prop_lastCashAddTime_def plain_property_def\<close>)
  qed (use assms in simp)
qed

end
