(* ===== verification/Stg_Money.thy ===== *)
theory Stg_Money
  imports Stg_UserLife
begin

text \<open>
  What the billing operations of \<open>user_impl.cpp\<close> do to the balance: the cost of becoming passive, fees and
  their bounds, traffic and its price, detail statistics and messages.
\<close>

subsection \<open>Becoming passive\<close>

lemma sys_may: "p_userStat (Admin_priv adm) \<noteq> 0 \<Longrightarrow> may_change adm (prop_cash E)"
  by (simp add: may_change_def prop_cash_def)

lemma onPassiveChange_cash:
  assumes "p_userStat (Admin_priv (e_sysAdmin E)) \<noteq> 0" and "tariff_of E w = Some t"
    and "onPassiveChange E a v w = Some z"
  shows "cash z = (if v \<noteq> 0 \<and> a = 0 then dsub (cash w) (GetPassiveCost t) else cash w) \<and> u_conf z = u_conf w"
proof -
  define g where "g = (\<lambda>u. case tariff_of E u of
       Some t \<Rightarrow>
         if v \<noteq> 0 \<and> a = 0
         then UserPropertyLogged_Set E (prop_cash E) (dsub (cash u) (GetPassiveCost t)) (e_sysAdmin E)
                ''Freeze'' u
         else Some (False, u)
     | None \<Rightarrow> Some (False, u))"
  have g: "cash q = (if v \<noteq> 0 \<and> a = 0 then dsub (cash y) (GetPassiveCost t) else cash y) \<and> u_conf q = u_conf y"
    if t: "tariff_of E y = Some t" and q: "g y = Some (x, q)" for y x q
  proof (cases "v \<noteq> 0 \<and> a = 0")
    case True
    obtain q' where q': "UserPropertyLogged_Set E (prop_cash E) (dsub (cash y) (GetPassiveCost t))
        (e_sysAdmin E) ''Freeze'' y = Some (True, q')"
      "cash q' = dsub (cash y) (GetPassiveCost t)" "u_conf q' = u_conf y"
      by (rule cash_Logged_Set [OF sys_may [OF assms(1)], of E "dsub (cash y) (GetPassiveCost t)"
          "''Freeze''" y])
    have "g y = Some (True, q')" unfolding g_def t option.case if_P [OF True] by (rule q'(1))
    then show ?thesis using True q q'(2,3) by simp
  next
    case False
    then have "g y = Some (False, y)" unfolding g_def t option.case by (rule if_not_P)
    then show ?thesis using False q by auto
  qed
  have "map_option snd (with_lock E g w) = Some z"
    using assms(3) unfolding onPassiveChange_def g_def .
  then obtain x where "with_lock E g w = Some (x, z)" by auto
  then show ?thesis
  proof (rule with_lock_SomeE)
    fix q assume "g (w\<lparr>u_locked := True\<rparr>) = Some (x, q)" and "z = q\<lparr>u_locked := u_locked w\<rparr>"
    then show ?thesis using g [of "w\<lparr>u_locked := True\<rparr>" x q] assms(2) by (simp add: tariff_of_def)
  next
    assume "g w = Some (x, z)"
    then show ?thesis using g [of w x z] assms(2) by simp
  qed
qed

lemma onPassiveChange_total:
  assumes "p_userStat (Admin_priv (e_sysAdmin E)) \<noteq> 0" and "tariff_of E w = Some t" and "\<not> u_locked w"
  shows "\<exists>z. onPassiveChange E a v w = Some z"
proof -
  let ?w = "w\<lparr>u_locked := True\<rparr>"
  obtain q where "UserPropertyLogged_Set E (prop_cash E) (dsub (cash ?w) (GetPassiveCost t))
        (e_sysAdmin E) ''Freeze'' ?w = Some (True, q)"
    by (rule cash_Logged_Set [OF sys_may [OF assms(1)], of E "dsub (cash ?w) (GetPassiveCost t)"
          "''Freeze''" ?w])
  then show ?thesis
    using assms(2,3) by (auto simp: onPassiveChange_def with_lock_def tariff_of_def)
qed

lemma Logged_Set_total:
  assumes "\<And>w. core w = core u \<Longrightarrow> \<exists>z. UserProperty_Set E p v w = Some z"
  shows "\<exists>u'. UserPropertyLogged_Set E p v adm msg u = Some (may_change adm p, u')"
proof -
  define w where "w = (let oldVal = pr_text p (pr_get p u); newVal = pr_text p v;
      u = OnChange E (pr_name p) oldVal newVal adm u
    in if pr_isPassword p then WriteSuccessChange E adm (pr_name p) ''******'' ''******'' msg u
       else WriteSuccessChange E adm (pr_name p) oldVal newVal msg u)"
  have "core w = core u" by (simp add: w_def Let_def)
  then obtain z where "UserProperty_Set E p v w = Some z" using assms by blast
  then show ?thesis by (simp add: UserPropertyLogged_Set_def w_def Let_def)
qed

lemma same_core_fields:
  assumes "core w = core u"
  shows "u_stat w = u_stat u" "u_conf w = u_conf u" "u_tariff w = u_tariff u" "u_locked w = u_locked u"
  using assms core_fields(1,4,5,9) [of w] core_fields(1,4,5,9) [of u] by simp_all

text \<open>Switching a user to passive charges the tariff's passive cost exactly once: when the
  administrator may change the property, the user was not passive and the new value is not zero. In every
  other case the balance does not change.\<close>

theorem passive_freeze_cost:
  assumes "p_userStat (Admin_priv (e_sysAdmin E)) \<noteq> 0" and "tariff_of E u = Some t" and "\<not> u_locked u"
  shows "\<exists>u'. UserPropertyLogged_Set E (prop_passive E) v adm msg u = Some (may_change adm (prop_passive E), u')
    \<and> cash u' = (if may_change adm (prop_passive E) \<and> v \<noteq> 0 \<and> uc_passive (u_conf u) = 0
                 then dsub (cash u) (GetPassiveCost t) else cash u)
    \<and> uc_passive (u_conf u') = (if may_change adm (prop_passive E) then v else uc_passive (u_conf u))"
proof -
  have "\<exists>z. UserProperty_Set E (prop_passive E) v w = Some z" if "core w = core u" for w
  proof -
    note f = same_core_fields [OF that]
    have "tariff_of E w = Some t" "\<not> u_locked w" using assms(2,3) f by (simp_all add: tariff_of_def)
    from onPassiveChange_total [OF assms(1) this] show ?thesis
      by (simp add: UserProperty_Set_def prop_passive_def Let_def bind_eq_Some_conv)
  qed
  from Logged_Set_total [OF this, where adm = adm and msg = msg] obtain b u'
    where r: "UserPropertyLogged_Set E (prop_passive E) v adm msg u = Some (b, u')" by blast
  then show ?thesis
  proof (cases rule: Logged_Set_SomeE)
  case 1
  then show ?thesis using r same_core_fields [OF 1(3)] by simp
next
  case (2 w)
  note f = same_core_fields [OF 2(3)]
  obtain z where z: "onPassiveChange E (uc_passive (u_conf w)) v w = Some z"
    and u': "u' = ModifyTime E ''passive'' (on_conf (uc_passive_update (\<lambda>_. v)) z)"
    using 2(4) by (auto simp: UserProperty_Set_def prop_passive_def Let_def bind_eq_Some_conv)
  have "tariff_of E w = Some t" using assms(2) f by (simp add: tariff_of_def)
  from onPassiveChange_cash [OF assms(1) this z] show ?thesis
    using r u' 2(1,2) f by (simp add: ModifyTime_def)
qed
qed

subsection \<open>Fees\<close>

lemma charge_fee_eff:
  assumes "p_userStat (Admin_priv (e_sysAdmin E)) \<noteq> 0"
  obtains u' where "charge_fee E fee u = Some u'"
    "cash u' = dsub (cash u) fee" "freeMb u' = freeMb u" "u_conf u' = u_conf u" "u_tariff u' = u_tariff u"
    "us_passiveTime (u_stat u') = us_passiveTime (u_stat u)" "u_locked u' = u_locked u"
proof (rule cash_Logged_Set [OF sys_may [OF assms], of E "dsub (cash u) fee" "''Subscriber fee charge''" u])
  fix u'
  assume "UserPropertyLogged_Set E (prop_cash E) (dsub (cash u) fee) (e_sysAdmin E)
      ''Subscriber fee charge'' u = Some (True, u')"
    and "cash u' = dsub (cash u) fee" "freeMb u' = freeMb u" "u_conf u' = u_conf u" "u_tariff u' = u_tariff u"
    "us_passiveTime (u_stat u') = us_passiveTime (u_stat u)" "u_locked u' = u_locked u"
  then show thesis by (intro that [of u']) (simp_all add: charge_fee_def)
qed

lemma SetPrepaidTraff_eff:
  assumes "p_userStat (Admin_priv (e_sysAdmin E)) \<noteq> 0" and "tariff_of E u = Some t"
  obtains u' where "SetPrepaidTraff E u = Some u'" "freeMb u' = GetFree t" "cash u' = cash u"
    "u_conf u' = u_conf u" "u_tariff u' = u_tariff u" "u_locked u' = u_locked u"
    "us_passiveTime (u_stat u') = us_passiveTime (u_stat u)"
proof -
  have m: "may_change (e_sysAdmin E) prop_freeMb"
    using assms(1) by (simp add: may_change_def prop_freeMb_def plain_property_def)
  obtain r u' where s: "UserPropertyLogged_Set E prop_freeMb (GetFree t) (e_sysAdmin E) ''Prepaid traffic'' u
      = Some (r, u')"
    using m by (simp add: UserPropertyLogged_Set_def Let_def prop_freeMb_def)
  then show ?thesis
  proof (cases rule: Logged_Set_SomeE)
    case (2 w)
    have f: "u_stat w = u_stat u" "u_conf w = u_conf u" "u_tariff w = u_tariff u" "u_locked w = u_locked u"
      using core_fields(1,4,5,9) [of w] core_fields(1,4,5,9) [of u] 2(3) by simp_all
    have "u' = assign E prop_freeMb (GetFree t) w" using 2(4) by (simp add: prop_freeMb_def)
    then show ?thesis
      by (intro that [of u'])
        (use s f assms(2) in \<open>simp_all add: SetPrepaidTraff_def assign_def prop_freeMb_def
          plain_property_def ModifyTime_def\<close>)
  qed (use m in simp)
qed

lemma ResetPassiveTime_fields [simp]:
  "cash (ResetPassiveTime E u) = cash u" "freeMb (ResetPassiveTime E u) = freeMb u"
  "u_conf (ResetPassiveTime E u) = u_conf u" "u_tariff (ResetPassiveTime E u) = u_tariff u"
  "u_locked (ResetPassiveTime E u) = u_locked u"
  "us_passiveTime (u_stat (ResetPassiveTime E u)) = 0"
  by (simp_all add: ResetPassiveTime_def assign_def prop_passiveTime_def plain_property_def ModifyTime_def)

lemma fee_due_cong: "cash v = cash u \<Longrightarrow> u_conf v = u_conf u \<Longrightarrow> fee_due E fee v = fee_due E fee u"
  by (simp add: fee_due_def Let_def)


subsection \<open>Bounds of fees\<close>

lemma daysInMonth_pos: "0 \<le> k \<Longrightarrow> k < 12 \<Longrightarrow> 28 \<le> daysInMonth ! nat k \<and> daysInMonth ! nat k \<le> 31"
proof -
  assume "0 \<le> k" "k < 12"
  then have "k \<in> {0, 1, 2, 3, 4, 5, 6, 7, 8, 9, 10, 11}" by simp presburger
  then show ?thesis by (elim insertE emptyE) (simp_all add: daysInMonth_def)
qed

lemma secMonth_bounds:
  assumes "tm_ok tms"
  shows "0 < secMonth tms" and "secMonth tms \<le> 32 * 86400"
proof -
  have "(tm_mon tms + 11) smod 12 = (tm_mon tms + 11) mod 12"
    using assms by (simp add: tm_ok_def signed_modulo_int_def)
  then have "28 \<le> daysInMonth ! nat ((tm_mon tms + 11) smod 12)
      \<and> daysInMonth ! nat ((tm_mon tms + 11) smod 12) \<le> 31"
    using daysInMonth_pos [of "(tm_mon tms + 11) mod 12"] by simp
  then show "0 < secMonth tms" "secMonth tms \<le> 32 * 86400" by (auto simp: secMonth_def)
qed

text \<open>The share of the month a user has to pay for lies between 0 and 1, is 1 exactly for a user who
  was never passive, and is 0 for one passive for the whole month.\<close>

theorem passive_part_bounds:
  assumes "tm_ok (e_localtime E (e_stgTime E))" and "0 \<le> us_passiveTime (u_stat u)"
  shows "0 \<le> getPassiveTimePart E u \<and> getPassiveTimePart E u \<le> 1
    \<and> (getPassiveTimePart E u = 1 \<longleftrightarrow> us_passiveTime (u_stat u) = 0)
    \<and> (us_passiveTime (u_stat u) \<ge> secMonth (e_localtime E (e_stgTime E)) \<longrightarrow> getPassiveTimePart E u = 0)"
proof -
  define s where "s = secMonth (e_localtime E (e_stgTime E))"
  define p where "p = us_passiveTime (u_stat u)"
  define d where "d = (if s - p < 0 then 0 else s - p)"
  have s: "0 < s" "s \<le> 32 * 86400" using secMonth_bounds [OF assms(1)] by (simp_all add: s_def)
  have p: "0 \<le> p" using assms(2) by (simp add: p_def)
  have d: "0 \<le> d" "d \<le> s" "d = s \<longleftrightarrow> p = 0" "p \<ge> s \<longrightarrow> d = 0"
    using s p by (auto simp: d_def)
  have e: "d_of_int d = of_int d" "d_of_int s = of_int s"
    using d s by (auto intro!: d_of_int_exact)
  have g: "getPassiveTimePart E u = dbl (of_int d / of_int s)"
    unfolding getPassiveTimePart_def Let_def s_def [symmetric] p_def [symmetric] d_def [symmetric] ddiv_def e
    by (rule refl)
  have q: "0 \<le> (of_int d / of_int s :: rat)" "(of_int d / of_int s :: rat) \<le> 1" using d s by simp_all
  have one: "dbl 1 = 1" using is_dbl_of_int [of 1] by (simp add: is_dbl_def)
  have "0 \<le> dbl (of_int d / of_int s)" "dbl (of_int d / of_int s) \<le> 1"
    using dbl_mono [OF q(1)] dbl_mono [OF q(2)] one by simp_all
  moreover have "dbl (of_int d / of_int s) = 1 \<longleftrightarrow> p = 0"
  proof
    assume "p = 0"
    then show "dbl (of_int d / of_int s) = 1" using d s one by simp
  next
    assume 1: "dbl (of_int d / of_int s) = 1"
    show "p = 0"
    proof (rule ccontr)
      assume "p \<noteq> 0"
      then have "d \<le> s - 1" using d by linarith
      have h: "is_dbl (1 - 1 / 2 ^ 22)"
        using is_dbl_scaled [of "2 ^ 22 - 1" "- 22"] by (simp add: field_simps power_int_minus)
      have "of_int d / of_int s \<le> (of_int (s - 1) / of_int s :: rat)"
        using \<open>d \<le> s - 1\<close> s by (intro divide_right_mono) auto
      also have "\<dots> = 1 - 1 / of_int s" using s by (simp add: field_simps)
      also have "\<dots> \<le> 1 - 1 / 2 ^ 22" using s by (simp add: field_simps)
      finally have "dbl (of_int d / of_int s) \<le> dbl (1 - 1 / 2 ^ 22)" by (rule dbl_mono)
      then show False using 1 h by (simp add: is_dbl_def)
    qed
  qed
  moreover have "p \<ge> s \<longrightarrow> dbl (of_int d / of_int s) = 0" using d by auto
  ultimately show ?thesis by (simp add: g s_def [symmetric] p_def [symmetric])
qed

lemma fee2_keeps_credit:
  assumes "dadd c cr \<ge> fee" and "is_dbl (c + cr)" and "is_dbl cr"
  shows "dsub c fee \<ge> - cr"
proof -
  have "c + cr \<ge> fee" using assms(1,2) by (simp add: dadd_def is_dbl_def)
  then have "- cr \<le> c - fee" by simp
  then have "dbl (- cr) \<le> dsub c fee" unfolding dsub_def by (rule dbl_mono)
  then show ?thesis using assms(3) by (simp add: is_dbl_def dbl_minus)
qed

text \<open>A fee operation leaves the balance alone or subtracts one fee that was due.\<close>

definition one_fee :: "env \<Rightarrow> user \<Rightarrow> user \<Rightarrow> bool" where
  "one_fee E u u' \<longleftrightarrow> u_conf u' = u_conf u
     \<and> (cash u' = cash u \<or> (\<exists>fee. fee_due E fee u \<and> cash u' = dsub (cash u) fee))"

lemma one_fee_refl [simp]: "one_fee E u u" "one_fee E u (ResetPassiveTime E u)"
  by (simp_all add: one_fee_def)

lemma one_fee_charge:
  assumes "p_userStat (Admin_priv (e_sysAdmin E)) \<noteq> 0" and "b \<Longrightarrow> fee_due E fee u"
  shows "\<exists>u'. (if b then charge_fee E fee u else Some u) = Some u' \<and> one_fee E u u'"
proof (cases b)
  case True
  obtain u' where "charge_fee E fee u = Some u'" "cash u' = dsub (cash u) fee" "u_conf u' = u_conf u"
    by (rule charge_fee_eff [OF assms(1), of fee u])
  then show ?thesis using True assms(2) by (auto simp: one_fee_def)
qed simp

lemma prepaid_after:
  assumes "p_userStat (Admin_priv (e_sysAdmin E)) \<noteq> 0"
  shows "\<exists>u'. SetPrepaidTraff E u = Some u' \<and> cash u' = cash u \<and> u_conf u' = u_conf u"
proof (cases "tariff_of E u")
  case (Some t)
  obtain u' where "SetPrepaidTraff E u = Some u'" "cash u' = cash u" "u_conf u' = u_conf u"
    by (rule SetPrepaidTraff_eff [OF assms Some])
  then show ?thesis by blast
qed (simp add: SetPrepaidTraff_def)

lemma ProcessDayFeeSpread_one:
  assumes "p_userStat (Admin_priv (e_sysAdmin E)) \<noteq> 0"
  shows "\<exists>u'. ProcessDayFeeSpread_body E u = Some u' \<and> one_fee E u u'"
proof (cases "tariff_of E u")
  case (Some t)
  let ?fee = "ddiv (GetFee t) (d_of_int (DaysInCurrentMonth (e_localtime E) (e_time E)))"
  obtain u' where "(if fee_due E ?fee u then charge_fee E ?fee u else Some u) = Some u'" "one_fee E u u'"
    using one_fee_charge [OF assms] by blast
  then show ?thesis using Some by (auto simp: ProcessDayFeeSpread_body_def Let_def one_fee_def)
qed (simp add: ProcessDayFeeSpread_body_def)

lemma ProcessDailyFee_one:
  assumes "p_userStat (Admin_priv (e_sysAdmin E)) \<noteq> 0"
  shows "\<exists>u'. ProcessDailyFee_body E u = Some u' \<and> one_fee E u u'"
proof (cases "tariff_of E u")
  case (Some t)
  let ?b = "s_feeChargeType (e_set E) \<noteq> 3 \<and> fee_due E (GetFee t) u"
  obtain u' where "(if ?b then charge_fee E (GetFee t) u else Some u) = Some u'" "one_fee E u u'"
    using one_fee_charge [OF assms, of ?b "GetFee t" u] by blast
  then show ?thesis using Some by (auto simp: ProcessDailyFee_body_def Let_def one_fee_def)
qed (simp add: ProcessDailyFee_body_def)

lemma ProcessDayFee_one:
  assumes "p_userStat (Admin_priv (e_sysAdmin E)) \<noteq> 0"
  shows "\<exists>u'. ProcessDayFee_body E u = Some u' \<and> one_fee E u u'"
proof (cases "tariff_of E u")
  case (Some t)
  show ?thesis
  proof (cases "GetPeriod t = MONTH \<and> fee_part E u \<noteq> None")
    case True
    then obtain part where p: "GetPeriod t = MONTH" "fee_part E u = Some part" by auto
    let ?fee = "dmul (GetFee t) part" and ?r = "ResetPassiveTime E u"
    have d: "fee_due E ?fee ?r = fee_due E ?fee u" by (rule fee_due_cong) simp_all
    obtain s where s: "SetPrepaidTraff E ?r = Some s" "cash s = cash u" "u_conf s = u_conf u"
      using prepaid_after [OF assms, of ?r] by auto
    obtain y where y: "charge_fee E ?fee ?r = Some y" "cash y = dsub (cash u) ?fee" "u_conf y = u_conf u"
      by (rule charge_fee_eff [OF assms, of ?fee ?r]) simp
    obtain z where z: "SetPrepaidTraff E y = Some z" "cash z = cash y" "u_conf z = u_conf y"
      using prepaid_after [OF assms, of y] by auto
    show ?thesis using Some p s y z d
      by (auto simp: ProcessDayFee_body_def Let_def one_fee_def)
  qed (use Some in \<open>auto simp: ProcessDayFee_body_def\<close>)
qed (simp add: ProcessDayFee_body_def)

lemma locked_one_fee:
  assumes "\<And>u. \<exists>u'. body u = Some u' \<and> one_fee E u u'" and "\<not> u_locked u"
  shows "\<exists>u'. with_lock E (\<lambda>u. map_option (Pair ()) (body u)) u = Some ((), u') \<and> one_fee E u u'"
proof -
  obtain v where "body (u\<lparr>u_locked := True\<rparr>) = Some v" "one_fee E (u\<lparr>u_locked := True\<rparr>) v"
    using assms(1) by blast
  moreover have "fee_due E fee (u\<lparr>u_locked := True\<rparr>) = fee_due E fee u" for fee
    by (rule fee_due_cong) simp_all
  ultimately show ?thesis using assms(2) by (auto simp: with_lock_def one_fee_def)
qed


subsection \<open>Traffic\<close>

lemma threshold_bytes_eq:
  assumes "0 \<le> GetThreshold t dir" and "GetThreshold t dir < 4096"
  shows "threshold_bytes t dir =
    (if GetThreshold t dir < 2048 then GetThreshold t dir * 2 ^ 20 else GetThreshold t dir * 2 ^ 20 - 2 ^ 32)"
proof -
  have k: "i32 (GetThreshold t dir * 1024) = GetThreshold t dir * 1024"
    using assms by (intro i32_id) simp_all
  show ?thesis
  proof (cases "GetThreshold t dir < 2048")
    case True
    then show ?thesis using assms unfolding threshold_bytes_def k by (subst i32_id) simp_all
  next
    case False
    have "i32 (GetThreshold t dir * 1024 * 1024) = i32 (GetThreshold t dir * 2 ^ 20 - 2 ^ 32)"
      unfolding i32_def signed_take_bit_eq_iff_take_bit_eq take_bit_eq_mod
      using minus_mod_self2 [of "GetThreshold t dir * 2 ^ 20" "2 ^ 32"] by (simp add: mult.commute)
    also have "\<dots> = GetThreshold t dir * 2 ^ 20 - 2 ^ 32"
      using assms False by (intro i32_id) simp_all
    finally show ?thesis unfolding threshold_bytes_def k using False by simp
  qed
qed

lemma assign_updown_fields [simp]:
  "up_traff (assign E prop_up t u) = t" "down_traff (assign E prop_up t u) = down_traff u"
  "down_traff (assign E prop_down t u) = t" "up_traff (assign E prop_down t u) = up_traff u"
  "u_sessionUpload (assign E prop_up t u) = u_sessionUpload u"
  "u_sessionDownload (assign E prop_up t u) = u_sessionDownload u"
  "u_sessionUpload (assign E prop_down t u) = u_sessionUpload u"
  "u_sessionDownload (assign E prop_down t u) = u_sessionDownload u"
  "u_traffStat (assign E prop_up t u) = u_traffStat u" "u_traffStat (assign E prop_down t u) = u_traffStat u"
  "cash (assign E prop_up t u) = cash u" "freeMb (assign E prop_up t u) = freeMb u"
  "cash (assign E prop_down t u) = cash u" "freeMb (assign E prop_down t u) = freeMb u"
  by (simp_all add: assign_def prop_up_def prop_down_def plain_property_def ModifyTime_def)

definition detail_up :: "user \<Rightarrow> ip_dir_pair \<Rightarrow> u64" where
  "detail_up u k = (case map_of (u_traffStat u) k of None \<Rightarrow> 0 | Some n \<Rightarrow> sn_up n)"

definition detail_down :: "user \<Rightarrow> ip_dir_pair \<Rightarrow> u64" where
  "detail_down u k = (case map_of (u_traffStat u) k of None \<Rightarrow> 0 | Some n \<Rightarrow> sn_down n)"

lemma AddTraffStatU_counts:
  assumes "u_connected u" and "tariff_of E u = Some t" and "traff_stat_wf (u_traffStat u)"
  shows "up_traff (AddTraffStatU_body E dir ip len u) = (up_traff u)[dir := up_traff u ! dir + ucast len]
    \<and> down_traff (AddTraffStatU_body E dir ip len u) = down_traff u
    \<and> u_sessionUpload (AddTraffStatU_body E dir ip len u) =
        (u_sessionUpload u)[dir := u_sessionUpload u ! dir + ucast len]
    \<and> u_sessionDownload (AddTraffStatU_body E dir ip len u) = u_sessionDownload u
    \<and> detail_up (AddTraffStatU_body E dir ip len u) =
        (detail_up u)(IPDirPair ip dir := detail_up u (IPDirPair ip dir) + ucast len)
    \<and> detail_down (AddTraffStatU_body E dir ip len u) = detail_down u"
  using assms unfolding AddTraffStatU_body_def Let_def
  by (auto simp: detail_up_def detail_down_def map_of_traff_stat_upd fun_eq_iff split: option.split)

lemma AddTraffStatD_counts:
  assumes "u_connected u" and "tariff_of E u = Some t" and "traff_stat_wf (u_traffStat u)"
  shows "down_traff (AddTraffStatD_body E dir ip len u) = (down_traff u)[dir := down_traff u ! dir + ucast len]
    \<and> up_traff (AddTraffStatD_body E dir ip len u) = up_traff u
    \<and> u_sessionDownload (AddTraffStatD_body E dir ip len u) =
        (u_sessionDownload u)[dir := u_sessionDownload u ! dir + ucast len]
    \<and> u_sessionUpload (AddTraffStatD_body E dir ip len u) = u_sessionUpload u
    \<and> detail_down (AddTraffStatD_body E dir ip len u) =
        (detail_down u)(IPDirPair ip dir := detail_down u (IPDirPair ip dir) + ucast len)
    \<and> detail_up (AddTraffStatD_body E dir ip len u) = detail_up u"
  using assms unfolding AddTraffStatD_body_def Let_def
  by (auto simp: detail_up_def detail_down_def map_of_traff_stat_upd fun_eq_iff split: option.split)

lemma with_lock_total: "\<not> u_locked u \<Longrightarrow>
    with_lock E (\<lambda>u. Some ((), f u)) u = Some ((), (f (u\<lparr>u_locked := True\<rparr>))\<lparr>u_locked := False\<rparr>)"
  by (simp add: with_lock_def)

text \<open>C11. Traffic of a connected user with a tariff is counted once in the statistics of its direction, once
  in the session counter and once in the detail statistics of its address, and nowhere else; the counters
  wrap at 64 bits.\<close>

theorem traffic_counted:
  assumes "user_inv F u" and "\<not> u_locked u" and "u_connected u" and "tariff_of E u = Some t"
  shows "\<exists>u1 u2. AddTraffStatU E dir ip len u = Some ((), u1) \<and> AddTraffStatD E dir ip len u = Some ((), u2)
    \<and> up_traff u1 = (up_traff u)[dir := up_traff u ! dir + ucast len] \<and> down_traff u1 = down_traff u
    \<and> u_sessionUpload u1 = (u_sessionUpload u)[dir := u_sessionUpload u ! dir + ucast len]
    \<and> u_sessionDownload u1 = u_sessionDownload u
    \<and> detail_up u1 = (detail_up u)(IPDirPair ip dir := detail_up u (IPDirPair ip dir) + ucast len)
    \<and> detail_down u1 = detail_down u
    \<and> down_traff u2 = (down_traff u)[dir := down_traff u ! dir + ucast len] \<and> up_traff u2 = up_traff u
    \<and> u_sessionDownload u2 = (u_sessionDownload u)[dir := u_sessionDownload u ! dir + ucast len]
    \<and> u_sessionUpload u2 = u_sessionUpload u
    \<and> detail_down u2 = (detail_down u)(IPDirPair ip dir := detail_down u (IPDirPair ip dir) + ucast len)
    \<and> detail_up u2 = detail_up u"
proof -
  let ?v = "u\<lparr>u_locked := True\<rparr>"
  have h: "u_connected ?v" "tariff_of E ?v = Some t" "traff_stat_wf (u_traffStat ?v)"
    using assms by (simp_all add: tariff_of_def user_inv_def counters_ok_def)
  have d: "detail_up (w\<lparr>u_locked := b\<rparr>) = detail_up w" "detail_down (w\<lparr>u_locked := b\<rparr>) = detail_down w" for w b
    by (simp_all add: detail_up_def detail_down_def fun_eq_iff)
  show ?thesis
    using AddTraffStatU_counts [OF h, of dir ip len] AddTraffStatD_counts [OF h, of dir ip len]
    unfolding AddTraffStatU_def AddTraffStatD_def with_lock_total [OF assms(2)] by (simp add: d)
qed

text \<open>Prices.\<close>

definition prices_nonneg :: "tariff_data \<Rightarrow> nat \<Rightarrow> bool" where
  "prices_nonneg t dir \<longleftrightarrow> priceDayA (dirPrice t ! dir) \<ge> 0 \<and> priceDayB (dirPrice t ! dir) \<ge> 0
     \<and> priceNightA (dirPrice t ! dir) \<ge> 0 \<and> priceNightB (dirPrice t ! dir) \<ge> 0"

lemma price_nonneg: "prices_nonneg t dir \<Longrightarrow> GetPriceWithTraffType lt t up down dir tm \<ge> 0"
  unfolding GetPriceWithTraffType_def GetPriceWithoutFreeMb_def Let_def prices_nonneg_def by simp

lemma i64_small: "- 9223372036854775808 \<le> x \<Longrightarrow> x < 9223372036854775808 \<Longrightarrow> i64 x = x"
  by (rule i64_id) simp_all

lemma chunk_cost_nonneg:
  assumes "prices_nonneg t dir" and "- (2 ^ 62) \<le> GetTraffByType t up down" and "GetTraffByType t up down < 2 ^ 62"
  shows "chunk_cost E t dir up down up' down' len \<ge> 0"
proof -
  let ?T = "GetTraffByType t up down" and ?th = "threshold_bytes t dir"
  have l: "0 \<le> uint len" "uint len < 4294967296" using uint_lt2p [of len] by simp_all
  have th: "- 2147483648 \<le> ?th" "?th < 2147483648" using i32_range by (simp_all add: threshold_bytes_def)
  have T: "- 4611686018427387904 \<le> ?T" "?T < 4611686018427387904" using assms(2,3) by simp_all
  have e: "i64 (?T + uint len) = ?T + uint len" "i64 (?th - ?T) = ?th - ?T"
    by (rule i64_small, use l th T in linarith, use l th T in linarith)+
  have c: "i64 (uint len - (?th - ?T)) = uint len - (?th - ?T)"
    by (rule i64_small, use l th T in linarith, use l th T in linarith)
  show ?thesis
    unfolding chunk_cost_def Let_def e c
    using price_nonneg [OF assms(1)] l
    by (auto intro!: dadd_nonneg dmul_nonneg d_of_int_nonneg)
qed

lemma charge_traff_money [simp]:
  "cash (charge_traff E dc u) = dsub (cash u) (money_cost (freeMb u) dc)"
  "freeMb (charge_traff E dc u) = dsub (freeMb u) dc"
  by (simp_all add: charge_traff_def ModifyTime_def)

lemma money_cost_bounds:
  assumes "0 \<le> dc" and "is_dbl dc"
  shows "0 \<le> money_cost free dc" and "money_cost free dc \<le> dc" and "dc \<le> free \<Longrightarrow> 0 < free \<Longrightarrow> money_cost free dc = 0"
  using assms dsub_nonneg [of free dc] dsub_le [of dc free] by (auto simp: money_cost_def)


lemma chunk_cost_is_dbl [simp]: "is_dbl (chunk_cost E t dir up down up' down' len)"
  by (simp add: chunk_cost_def Let_def)

lemma AddTraffStatU_money:
  assumes "u_connected u" and "tariff_of E u = Some t"
    and dc: "dc = chunk_cost E t dir (up_traff u ! dir) (down_traff u ! dir)
      ((up_traff u)[dir := up_traff u ! dir + ucast len] ! dir) (down_traff u ! dir) len"
  shows "\<exists>charged. (GetTraffType t = TRAFF_DOWN \<longrightarrow> \<not> charged)
    \<and> (GetTraffType t = TRAFF_UP \<or> GetTraffType t = TRAFF_UP_DOWN \<longrightarrow> charged)
    \<and> cash (AddTraffStatU_body E dir ip len u) =
        (if charged then dsub (cash u) (money_cost (freeMb u) dc) else cash u)
    \<and> freeMb (AddTraffStatU_body E dir ip len u) = (if charged then dsub (freeMb u) dc else freeMb u)"
  using assms(1,2) unfolding AddTraffStatU_body_def Let_def dc
  by (intro exI [of _ "GetTraffType t = TRAFF_UP \<or> GetTraffType t = TRAFF_UP_DOWN
      \<or> (GetTraffType t = TRAFF_MAX \<and>
         (up_traff u)[dir := up_traff u ! dir + ucast len] ! dir > down_traff u ! dir)"]) simp


text \<open>The chunk that crosses the threshold is split at the threshold, but both parts have the same
  price as long as the total stays within the next megabyte: the discount starts one megabyte late.\<close>

theorem threshold_discount_late:
  assumes "0 \<le> GetThreshold t dir" and "GetThreshold t dir < 2047" and "GetTraffType t = TRAFF_UP"
    and "uint up < GetThreshold t dir * 2 ^ 20" and "up' = up + ucast len"
    and "GetThreshold t dir * 2 ^ 20 \<le> uint up + uint len"
    and "uint up + uint len < (GetThreshold t dir + 1) * 2 ^ 20"
  shows "chunk_cost E t dir up down up' down len =
    (let price = GetPriceWithTraffType (e_localtime E) t up down dir (e_stgTime E);
         before = GetThreshold t dir * 2 ^ 20 - uint up
     in dadd (dmul price (d_of_int before)) (dmul price (d_of_int (uint len - before))))"
proof -
  let ?T = "GetThreshold t dir"
  have b: "?T * 2 ^ 20 < 2 ^ 31" using assms(2) by simp
  have l: "0 \<le> uint len" "0 \<le> uint up" by simp_all
  have u': "uint up' = uint up + uint len"
    using assms(5,7) b by (simp add: uint_word_ariths uint_up_ucast is_up)
  have s: "sint up = uint up" "sint up' = uint up'"
    using u' assms(4,7) b by (intro sint64_of_small; simp)+
  have th: "threshold_bytes t dir = ?T * 2 ^ 20" using threshold_bytes_eq [of t dir] assms(1,2) by simp
  have tr: "GetTraffByType t up down = uint up" "GetTraffByType t up' down = uint up'"
    using assms(3) s by (simp_all add: GetTraffByType_def)
  have mb: "\<not> uint up sdiv (1024 * 1024) > ?T" "\<not> uint up' sdiv (1024 * 1024) > ?T"
    using mb_above_threshold [of "uint up" ?T] mb_above_threshold [of "uint up'" ?T] assms(4,7) u' l
    by simp_all
  have p: "GetPriceWithTraffType (e_localtime E) t up' down dir (e_stgTime E) =
      GetPriceWithTraffType (e_localtime E) t up down dir (e_stgTime E)"
    unfolding GetPriceWithTraffType_def GetPriceWithoutFreeMb_def tr using mb
    by (simp only: GetThreshold_def simp_thms Let_def if_False)
  have n: "0 \<le> ?T * 2 ^ 20" "?T * 2 ^ 20 \<le> 2147483648" "uint up \<le> 2147483648" "uint len < 4294967296"
    using assms(1,2,4) b uint_lt2p [of len] by simp_all
  have i: "i64 (uint up + uint len) = uint up + uint len" "i64 (?T * 2 ^ 20 - uint up) = ?T * 2 ^ 20 - uint up"
    "i64 (uint len - (?T * 2 ^ 20 - uint up)) = uint len - (?T * 2 ^ 20 - uint up)"
    by (rule i64_small, use n l in linarith, use n l in linarith)+
  show ?thesis
    unfolding chunk_cost_def Let_def tr th i p using assms(4,6) by simp
qed

subsection \<open>Detail statistics and messages\<close>

text \<open>Detail statistics are not lost: a successful write has handed the postponed and the current
  statistics to the store, in this order, and a failed one keeps what it did not hand over.\<close>

theorem detail_stat_not_lost:
  assumes "\<not> u_locked u" and "uc_disabledDetailStat (u_conf u) = 0"
  shows "\<exists>rc u'. WriteDetailStat E False u = Some (rc, u') \<and>
    (if rc = 0
     then u_traffStat u' = [] \<and> snd (u_traffStatSaved u') = []
       \<and> filter (\<lambda>e. \<exists>ts t l. e = Call (S_WriteDetailedStat ts t l)) (trace u') =
         filter (\<lambda>e. \<exists>ts t l. e = Call (S_WriteDetailedStat ts t l)) (trace u) @
         map (\<lambda>(t, ts). Call (S_WriteDetailedStat ts t (u_login u)))
           (filter (\<lambda>(t, ts). ts \<noteq> []) [u_traffStatSaved u, (u_lastWriteDetailedStat u, u_traffStat u)])
     else (u_traffStatSaved u' = u_traffStatSaved u \<and> u_traffStat u' = u_traffStat u)
       \<or> (u_traffStatSaved u' = (u_lastWriteDetailedStat u, u_traffStat u) \<and> u_traffStat u' = []))"
proof -
  obtain st ss where sv: "u_traffStatSaved u = (st, ss)" by force
  show ?thesis
    using assms sv
    unfolding WriteDetailStat_def WriteDetailStat_saved_def Let_def
    by (simp add: with_lock_def call_def emit_def split: prod.split)
qed

definition msg_expired :: "env \<Rightarrow> message \<Rightarrow> bool" where
  "msg_expired E m \<longleftrightarrow> GetMessageTimeout (e_set E) > 0
     \<and> e_stgTime E - uint (mh_creationTime (msg_header m)) > GetMessageTimeout (e_set E)"

definition msg_quiet :: "env \<Rightarrow> message \<Rightarrow> bool" where
  "msg_quiet E m \<longleftrightarrow> \<not> msg_expired E m \<and> e_stgTime E < GetNextSendTime m"

lemma ScanMessage_loop_quiet:
  assumes "i < length (u_messages u)" and "msg_quiet E (u_messages u ! i)"
  shows "ScanMessage_loop E i u = ScanMessage_loop E (Suc i) u"
  using assms
  by (subst ScanMessage_loop.simps) (auto simp: msg_quiet_def msg_expired_def Let_def)

lemma ScanMessage_loop_expired:
  assumes "i < length (u_messages u)" and "msg_expired E (u_messages u ! i)"
  shows "ScanMessage_loop E i u = ScanMessage_loop E (Suc i) (del_message E i u)"
  using assms
  by (subst ScanMessage_loop.simps) (simp add: msg_expired_def Let_def)

lemma ScanMessage_loop_prefix:
  assumes "i \<le> j" and "j \<le> length (u_messages u)"
    and "\<And>k. i \<le> k \<Longrightarrow> k < j \<Longrightarrow> msg_quiet E (u_messages u ! k)"
  shows "ScanMessage_loop E i u = ScanMessage_loop E j u"
  using assms
proof (induction j rule: dec_induct)
  case (step n)
  then show ?case using ScanMessage_loop_quiet [of n u E] by simp
qed simp

text \<open>Scanning messages none of which is due leaves the user as it is; when the last message has
  expired its removal runs past the end of the vector.\<close>

theorem scan_message_outcomes:
  assumes "\<And>m. m \<in> set ms \<Longrightarrow> msg_quiet E m"
  shows "(u_messages u = ms \<longrightarrow> ScanMessage E u = Some u)
    \<and> (u_messages u = ms @ [m] \<and> msg_expired E m \<longrightarrow> ScanMessage E u = None)"
proof (intro conjI impI)
  assume u: "u_messages u = ms"
  have "ScanMessage_loop E 0 u = ScanMessage_loop E (length ms) u"
    by (rule ScanMessage_loop_prefix) (use u assms in auto)
  then show "ScanMessage E u = Some u"
    using u by (simp add: ScanMessage_def ScanMessage_loop.simps)
next
  assume u: "u_messages u = ms @ [m] \<and> msg_expired E m"
  have "ScanMessage_loop E 0 u = ScanMessage_loop E (length ms) u"
    by (rule ScanMessage_loop_prefix) (use u assms in \<open>auto simp: nth_append\<close>)
  also have "\<dots> = ScanMessage_loop E (Suc (length ms)) (del_message E (length ms) u)"
    by (rule ScanMessage_loop_expired) (use u in auto)
  also have "\<dots> = None" using u by (subst ScanMessage_loop.simps) simp
  finally show "ScanMessage E u = None" by (simp add: ScanMessage_def)
qed


text \<open>A user who connects on the day before last of a month of 31 days gets a second less than
  29 days of passive time: the division in \<open>double\<close> is truncated.\<close>

lemma new_user_passive_time_loses: "new_user_passive_time 30 31 = 29 * 86400 - 1"
  by code_simp

subsection \<open>The properties on sample states\<close>

lemmas sample_defs = sample_user_def sample_env_def sample_settings_def UserConf_def UserStat_def
  noTariff_def TariffData_def TariffConf_def as_stg_def Admin_def Priv_def

lemma sample_tariff: "tariff_of sample_env sample_user = Some noTariff"
  by (simp add: tariff_of_def sample_defs)

lemma sample_priv: "p_userStat (Admin_priv (e_sysAdmin sample_env)) \<noteq> 0"
  by (simp add: sample_defs)

text \<open>A tariff with a fee and a cost of becoming passive.\<close>

definition sample_tariff_data :: tariff_data where
  "sample_tariff_data = noTariff\<lparr>tariffConf := (tariffConf noTariff)\<lparr>tc_passiveCost := 3, tc_fee := 4, tc_free := 5\<rparr>\<rparr>"

definition sample_tariff_env :: env where
  "sample_tariff_env = sample_env\<lparr>e_tariff := (\<lambda>_. sample_tariff_data)\<rparr>"

lemma sample_tariff_env: "tariff_of sample_tariff_env sample_user = Some sample_tariff_data"
   "p_userStat (Admin_priv (e_sysAdmin sample_tariff_env)) \<noteq> 0" "\<not> u_locked sample_user"
   "cash sample_user = 10" "uc_passive (u_conf sample_user) = 0" "e_set sample_tariff_env = sample_settings"
  "GetPassiveCost sample_tariff_data = 3" "GetFee sample_tariff_data = 4" "GetFree sample_tariff_data = 5"
  "GetPeriod sample_tariff_data = MONTH"
  by (simp_all add: sample_tariff_env_def sample_tariff_data_def tariff_of_def sample_defs)

theorem passive_freeze_cost_witness:
  "\<exists>u'. UserPropertyLogged_Set sample_tariff_env (prop_passive sample_tariff_env) 1 as_stg '''' sample_user
     = Some (True, u') \<and> cash u' = 7 \<and> uc_passive (u_conf u') = 1"
proof -
  have m: "may_change as_stg (prop_passive sample_tariff_env)"
    by (simp add: may_change_def prop_passive_def sample_defs)
  have "dsub 10 3 = (7 :: rat)" by code_simp
  then show ?thesis
    using passive_freeze_cost [OF sample_tariff_env(2,1,3), where v = 1 and adm = as_stg and msg = "''''"] m
    by (simp add: sample_tariff_env)
qed

theorem passive_part_bounds_witness:
  "tm_ok (e_localtime sample_env (e_stgTime sample_env))
   \<and> getPassiveTimePart sample_env sample_user = 1
   \<and> getPassiveTimePart sample_env (on_stat (us_passiveTime_update (\<lambda>_. 31 * 86400)) sample_user) = 0"
  using passive_part_bounds [of sample_env sample_user]
    passive_part_bounds [of sample_env "on_stat (us_passiveTime_update (\<lambda>_. 31 * 86400)) sample_user"]
  by (simp add: sample_defs secMonth_def daysInMonth_def example_tm_def tm_ok_def signed_modulo_int_def)

lemma sample_part: "getPassiveTimePart sample_tariff_env sample_user = 1"
proof -
  have "d_of_int 2678400 = 2678400" by (rule d_of_int_exact [of 2678400, simplified])
  moreover have "dbl 1 = 1" using is_dbl_of_int [of 1] by (simp add: is_dbl_def)
  ultimately show ?thesis
  by (simp add: sample_tariff_env_def getPassiveTimePart_def secMonth_def sample_defs daysInMonth_def example_tm_def
      signed_modulo_int_def ddiv_def)
qed


definition sample_type2 :: env where
  "sample_type2 = sample_tariff_env\<lparr>e_set := sample_settings\<lparr>s_feeChargeType := 2\<rparr>\<rparr>"

lemma credit_sample: "credit sample_user = 0" by (simp add: sample_defs)


definition sample_online :: user where
  "sample_online = sample_user\<lparr>u_currIP := 1, u_authorizedBy := [1], u_connected := True,
     u_lastIPForDisconnect := 1\<rparr>"

lemma sample_online: "user_inv (e_FindTariff sample_tariff_env) sample_online" "\<not> u_locked sample_online"
  "u_connected sample_online" "tariff_of sample_tariff_env sample_online = Some sample_tariff_data"
  "up_traff sample_online = DirTraff" "down_traff sample_online = DirTraff" "cash sample_online = 10" "freeMb sample_online = 0"
  "u_traffStat sample_online = []"
  by (simp_all add: user_inv_def sess_def counters_ok_def sample_defs sample_tariff_env_def sample_online_def
      sample_tariff_data_def tariff_of_def traff_stat_wf_def)

theorem traffic_counted_witness:
  "\<exists>u1 u2. AddTraffStatU sample_tariff_env 2 8 100 sample_online = Some ((), u1)
    \<and> AddTraffStatD sample_tariff_env 2 8 50 sample_online = Some ((), u2)
    \<and> up_traff u1 ! 2 = 100 \<and> down_traff u2 ! 2 = 50 \<and> detail_up u1 (IPDirPair 8 2) = 100"
proof -
  have d: "(DirTraff[2 := n]) ! 2 = n" "DirTraff ! 2 = 0" "detail_up sample_online (IPDirPair 8 2) = 0" for n
    by (simp_all add: DirTraff_def DIR_NUM_def detail_up_def sample_online)
  obtain u1 where 1: "AddTraffStatU sample_tariff_env 2 8 100 sample_online = Some ((), u1)"
      "up_traff u1 = DirTraff[2 := DirTraff ! 2 + 100]"
      "detail_up u1 (IPDirPair 8 2) = detail_up sample_online (IPDirPair 8 2) + 100"
    using traffic_counted [OF sample_online(1-4), of 2 8 100] by (auto simp: sample_online)
  obtain u2 where 2: "AddTraffStatD sample_tariff_env 2 8 50 sample_online = Some ((), u2)"
      "down_traff u2 = DirTraff[2 := DirTraff ! 2 + 50]"
    using traffic_counted [OF sample_online(1-4), of 2 8 50] by (auto simp: sample_online)
  show ?thesis using 1 2 by (simp add: d)
qed


definition sample_threshold :: tariff_data where
  "sample_threshold = noTariff\<lparr>tariffConf := (tariffConf noTariff)\<lparr>tc_traffType := TRAFF_UP\<rparr>,
     dirPrice := replicate DIR_NUM (DirPriceData\<lparr>threshold := 1\<rparr>)\<rparr>"

theorem threshold_discount_late_witness:
  "chunk_cost sample_env sample_threshold 0 1048000 0 1049000 0 1000 =
    (let price = GetPriceWithTraffType (e_localtime sample_env) sample_threshold 1048000 0 0 (e_stgTime sample_env)
     in dadd (dmul price (d_of_int 576)) (dmul price (d_of_int 424)))"
proof -
  have th: "GetThreshold sample_threshold 0 = 1" "GetTraffType sample_threshold = TRAFF_UP"
    by (simp_all add: GetThreshold_def sample_threshold_def noTariff_def TariffData_def DIR_NUM_def)
  show ?thesis
    using threshold_discount_late [of sample_threshold 0 1048000 1049000 1000 sample_env 0] th by (simp add: Let_def)
qed

theorem detail_stat_not_lost_witness:
  "\<exists>rc u'. WriteDetailStat sample_env False sample_user = Some (rc, u') \<and> u_traffStat u' = []"
proof -
  have "\<not> u_locked sample_user" "uc_disabledDetailStat (u_conf sample_user) = 0" "u_traffStat sample_user = []"
    by (simp_all add: sample_defs)
  then show ?thesis using detail_stat_not_lost [of sample_user sample_env] by metis
qed

theorem scan_message_outcomes_witness:
  "(let m = \<lparr>msg_header = \<lparr>mh_id = 0, mh_ver = 1, mh_type = 1, mh_lastSendTime = 0, mh_creationTime = 0,
        mh_showTime = 0, mh_repeat = 0, mh_repeatPeriod = 0\<rparr>, msg_text = ''''\<rparr>;
        q = m\<lparr>msg_header := (msg_header m)\<lparr>mh_creationTime := 1000000, mh_lastSendTime := 1000000, mh_repeat := 1\<rparr>\<rparr>
    in msg_expired sample_env m \<and> msg_quiet sample_env q
      \<and> ScanMessage sample_env (sample_user\<lparr>u_messages := [q]\<rparr>) = Some (sample_user\<lparr>u_messages := [q]\<rparr>)
      \<and> ScanMessage sample_env (sample_user\<lparr>u_messages := [q, m]\<rparr>) = None)"
  (is "let m = ?m; q = ?q m in ?A m \<and> ?B q \<and> _")
proof -
  have e: "msg_expired sample_env ?m" "msg_quiet sample_env (?q ?m)"
    by (simp_all add: msg_expired_def msg_quiet_def sample_defs GetMessageTimeout_def GetNextSendTime_def i32_def)
  then show ?thesis
    using scan_message_outcomes [of "[?q ?m]" sample_env "sample_user\<lparr>u_messages := [?q ?m]\<rparr>" ?m]
      scan_message_outcomes [of "[?q ?m]" sample_env "sample_user\<lparr>u_messages := [?q ?m, ?m]\<rparr>" ?m]
    unfolding Let_def by simp
qed

end
