(* ===== verification/Stg_Traffic.thy ===== *)
theory Stg_Traffic
  imports Stg_TraffCounter Stg_Money
begin

text \<open>
  What the traffic counter achieves: bytes it has collected for a user are either still pending or have been
  reported to the user, exactly once.
\<close>

subsection \<open>Reports\<close>

text \<open>A call of \<open>AddTraffStatU\<close> or \<open>AddTraffStatD\<close>: user, direction, remote address and length.\<close>

datatype report = Up int nat u32 u32 | Down int nat u32 u32

fun apply_report :: "env \<Rightarrow> report \<Rightarrow> users \<Rightarrow> users option" where
  "apply_report E (Up i dir ip len) us = map_option snd (on_user E (\<lambda>E. AddTraffStatU E dir ip len) i us)"
| "apply_report E (Down i dir ip len) us = map_option snd (on_user E (\<lambda>E. AddTraffStatD E dir ip len) i us)"

fun apply_reports :: "env \<Rightarrow> report list \<Rightarrow> users \<Rightarrow> users option" where
  "apply_reports E [] us = Some us"
| "apply_reports E (r # rs) us = Option.bind (apply_report E r us) (apply_reports E rs)"

lemma apply_reports_append:
  "apply_reports E (rs @ rs') us = Option.bind (apply_reports E rs us) (apply_reports E rs')"
proof (induction rs arbitrary: us)
  case (Cons r rs)
  then show ?case by (cases "apply_report E r us") simp_all
qed simp

lemma bind_no_reports [simp]: "Option.bind m (apply_reports E []) = m"
  by (cases m) simp_all

definition entry_ok :: "extra_data \<Rightarrow> bool" where
  "entry_ok d \<longleftrightarrow> (pe_userUPresent d \<longrightarrow> pe_userU d \<noteq> None) \<and> (pe_userDPresent d \<longrightarrow> pe_userD d \<noteq> None)
     \<and> 0 \<le> pe_dirU d \<and> 0 \<le> pe_dirD d"

definition up_reports :: "raw_packet \<Rightarrow> extra_data \<Rightarrow> report list" where
  "up_reports p d = (if pe_userUPresent d \<and> pe_dirU d < int DIR_NUM
     then [Up (the (pe_userU d)) (nat (pe_dirU d)) (GetDstIP p) (pe_lenU d)] else [])"

definition down_reports :: "raw_packet \<Rightarrow> extra_data \<Rightarrow> report list" where
  "down_reports p d = (if pe_userDPresent d \<and> pe_dirD d < int DIR_NUM
     then [Down (the (pe_userD d)) (nat (pe_dirD d)) (GetSrcIP p) (pe_lenD d)] else [])"

lemma report_up_eq:
  "entry_ok d \<Longrightarrow> (if pe_dirU d < int DIR_NUM \<and> pe_userUPresent d then report_up E p d us else Some us)
     = apply_reports E (up_reports p d) us"
  by (auto simp: report_up_def up_reports_def entry_ok_def split: option.split)

lemma report_down_eq:
  "entry_ok d \<Longrightarrow> (if pe_dirD d < int DIR_NUM \<and> pe_userDPresent d then report_down E p d us else Some us)
     = apply_reports E (down_reports p d) us"
  by (auto simp: report_down_def down_reports_def entry_ok_def split: option.split)

subsection \<open>Flushing as a list of reports\<close>

definition flush_due :: "env \<Rightarrow> extra_data \<Rightarrow> bool" where
  "flush_due E d \<longleftrightarrow> e_stgTime E - pe_flushTime d > FLUSH_TIME"

definition flush_reports :: "env \<Rightarrow> raw_packet \<times> extra_data \<Rightarrow> report list" where
  "flush_reports E e = (if flush_due E (snd e) then up_reports (fst e) (snd e) @ down_reports (fst e) (snd e) else [])"

definition flushed :: "env \<Rightarrow> extra_data \<Rightarrow> extra_data" where
  "flushed E d =
     (if flush_due E d
      then d\<lparr>pe_lenU := (if pe_userUPresent d then 0 else pe_lenU d),
             pe_lenD := (if pe_userDPresent d then 0 else pe_lenD d),
             pe_flushTime := (if pe_userUPresent d \<or> pe_userDPresent d then e_stgTime E else pe_flushTime d)\<rparr>
      else d)"

lemma flush_packet_eq:
  assumes "entry_ok d"
  shows "flush_packet E p d us = map_option (Pair (flushed E d)) (apply_reports E (flush_reports E (p, d)) us)"
proof -
  have u: "pe_userUPresent d \<Longrightarrow> (if pe_dirU d < int DIR_NUM then report_up E p d us else Some us)
      = apply_reports E (up_reports p d) us" for us
    using report_up_eq [OF assms] by simp
  have nu: "\<not> pe_userUPresent d \<Longrightarrow> up_reports p d = []" "\<not> pe_userDPresent d \<Longrightarrow> down_reports p d = []"
    by (simp_all add: up_reports_def down_reports_def)
  define d1 where "d1 = (if pe_userUPresent d then d\<lparr>pe_lenU := 0, pe_flushTime := e_stgTime E\<rparr> else d)"
  have d1: "entry_ok d1" "pe_userDPresent d1 = pe_userDPresent d" "down_reports p d1 = down_reports p d"
    "pe_dirD d1 = pe_dirD d"
    using assms by (simp_all add: d1_def entry_ok_def down_reports_def)
  have v: "pe_userDPresent d \<Longrightarrow> (if pe_dirD d < int DIR_NUM then report_down E p d1 us else Some us)
      = apply_reports E (down_reports p d) us" for us
    using report_down_eq [OF d1(1)] d1 by simp
  show ?thesis
  proof (cases "flush_due E d")
    case True
    have "flush_packet E p d us = Option.bind (apply_reports E (up_reports p d) us)
        (\<lambda>us. if pe_userDPresent d then Option.bind (apply_reports E (down_reports p d) us)
           (\<lambda>us. Some (d1\<lparr>pe_lenD := 0, pe_flushTime := e_stgTime E\<rparr>, us)) else Some (d1, us))"
      using True u v nu d1(2,4) unfolding flush_packet_def flush_due_def
      by (cases "pe_userUPresent d") (simp_all add: d1_def cong: if_cong)
    also have "\<dots> = map_option (Pair (flushed E d)) (apply_reports E (up_reports p d @ down_reports p d) us)"
      using nu True by (cases "pe_userUPresent d"; cases "pe_userDPresent d")
        (auto simp: d1_def flushed_def apply_reports_append split: Option.bind_split)
    finally show ?thesis using True by (simp add: flush_reports_def)
  qed (simp add: flush_packet_def flush_due_def flushed_def flush_reports_def)
qed

abbreviation packets_ok :: "(raw_packet \<times> extra_data) list \<Rightarrow> bool" where
  "packets_ok \<equiv> keys_ok (\<lambda>p. GetProto p \<noteq> 0) RawPacket_less"

definition kept :: "env \<Rightarrow> (raw_packet \<times> extra_data) list \<Rightarrow> (raw_packet \<times> extra_data) list" where
  "kept E ps = filter (\<lambda>(p, d). e_stgTime E - pe_updateTime d < REMOVE_TIME) (map (\<lambda>(p, d). (p, flushed E d)) ps)"

lemma flushed_fields [simp]:
  "pe_updateTime (flushed E d) = pe_updateTime d" "pe_userU (flushed E d) = pe_userU d"
  "pe_userD (flushed E d) = pe_userD d" "pe_userUPresent (flushed E d) = pe_userUPresent d"
  "pe_userDPresent (flushed E d) = pe_userDPresent d" "pe_dirU (flushed E d) = pe_dirU d"
  "pe_dirD (flushed E d) = pe_dirD d" "entry_ok (flushed E d) = entry_ok d"
  by (simp_all add: flushed_def entry_ok_def)

lemma packets_ok_append:
  "packets_ok (xs @ ys) \<longleftrightarrow> packets_ok xs \<and> packets_ok ys
     \<and> (\<forall>a\<in>set xs. \<forall>b\<in>set ys. RawPacket_less (fst a) (fst b))"
  by (auto simp: keys_ok_def sorted_wrt_append)

lemma find_last:
  "\<forall>a\<in>set xs. RawPacket_less (fst a) p \<Longrightarrow> map_find RawPacket_less p xs = None
     \<and> map_insert RawPacket_less p d xs = xs @ [(p, d)]"
  by (induction xs) auto

lemma FlushAndRemove_loop_eq:
  "packets_ok (new @ ps) \<Longrightarrow> list_all (\<lambda>e. entry_ok (snd e)) ps \<Longrightarrow>
   FlushAndRemove_loop E ps new idx us =
     map_option (\<lambda>us. (new @ kept E ps, fold index_packet (map fst (kept E ps)) idx, us))
       (apply_reports E (concat (map (flush_reports E) ps)) us)"
proof (induction ps arbitrary: new idx us)
  case (Cons e ps)
  obtain p d where e: "e = (p, d)" by force
  have ok: "packets_ok (new @ ps)" "packets_ok (new @ (p, flushed E d) # ps)" "\<forall>a\<in>set new. RawPacket_less (fst a) p"
    using Cons.prems(1) by (auto simp: e keys_ok_def sorted_wrt_append)
  note n = find_last [OF ok(3), where d = "flushed E d"]
  have d: "entry_ok d" "list_all (\<lambda>e. entry_ok (snd e)) ps" using Cons.prems(2) by (simp_all add: e)
  show ?case
  proof (cases "apply_reports E (flush_reports E (p, d)) us")
    case None
    then show ?thesis by (simp add: e flush_packet_eq [OF d(1)] apply_reports_append)
  next
    case (Some us1)
    show ?thesis
    proof (cases "e_stgTime E - pe_updateTime d < REMOVE_TIME")
      case True
      then have k: "kept E (e # ps) = (p, flushed E d) # kept E ps" by (simp add: kept_def e)
      from True show ?thesis
        using Cons.IH [of "new @ [(p, flushed E d)]" "index_packet p idx" us1] ok(2) d(2) n Some
        by (simp add: e k [unfolded e] flush_packet_eq [OF d(1)] apply_reports_append)
    next
      case False
      then have k: "kept E (e # ps) = kept E ps" by (simp add: kept_def e)
      from False show ?thesis
        using Cons.IH [OF ok(1) d(2), of idx us1] Some
        by (simp add: e k [unfolded e] flush_packet_eq [OF d(1)] apply_reports_append)
    qed
  qed
qed (simp add: kept_def)

subsection \<open>Pending and reported bytes\<close>

definition pending_up :: "int \<Rightarrow> nat \<Rightarrow> (raw_packet \<times> extra_data) list \<Rightarrow> nat" where
  "pending_up i dir ps = sum_list (map (\<lambda>(p, d).
     if pe_userUPresent d \<and> pe_userU d = Some i \<and> pe_dirU d = int dir then unat (pe_lenU d) else 0) ps)"

definition pending_down :: "int \<Rightarrow> nat \<Rightarrow> (raw_packet \<times> extra_data) list \<Rightarrow> nat" where
  "pending_down i dir ps = sum_list (map (\<lambda>(p, d).
     if pe_userDPresent d \<and> pe_userD d = Some i \<and> pe_dirD d = int dir then unat (pe_lenD d) else 0) ps)"

fun report_size_up :: "int \<Rightarrow> nat \<Rightarrow> report \<Rightarrow> nat" where
  "report_size_up i dir (Up j k ip len) = (if j = i \<and> k = dir then unat len else 0)"
| "report_size_up i dir (Down j k ip len) = 0"

fun report_size_down :: "int \<Rightarrow> nat \<Rightarrow> report \<Rightarrow> nat" where
  "report_size_down i dir (Up j k ip len) = 0"
| "report_size_down i dir (Down j k ip len) = (if j = i \<and> k = dir then unat len else 0)"

abbreviation reported_up :: "int \<Rightarrow> nat \<Rightarrow> report list \<Rightarrow> nat" where
  "reported_up i dir rs \<equiv> sum_list (map (report_size_up i dir) rs)"

abbreviation reported_down :: "int \<Rightarrow> nat \<Rightarrow> report list \<Rightarrow> nat" where
  "reported_down i dir rs \<equiv> sum_list (map (report_size_down i dir) rs)"

text \<open>An entry flushed after its last packet has nothing pending.\<close>

definition entry_settled :: "extra_data \<Rightarrow> bool" where
  "entry_settled d \<longleftrightarrow> (pe_updateTime d < pe_flushTime d \<longrightarrow>
     (pe_userUPresent d \<longrightarrow> pe_lenU d = 0) \<and> (pe_userDPresent d \<longrightarrow> pe_lenD d = 0))"

lemma reports_of_entry:
  assumes "entry_ok d" and "dir < DIR_NUM"
  shows "reported_up i dir (up_reports p d) = pending_up i dir [(p, d)]" "reported_up i dir (down_reports p d) = 0"
    "reported_down i dir (down_reports p d) = pending_down i dir [(p, d)]" "reported_down i dir (up_reports p d) = 0"
  using assms by (auto simp: up_reports_def down_reports_def pending_up_def pending_down_def entry_ok_def)

lemma pending_append:
  "pending_up i dir (xs @ ys) = pending_up i dir xs + pending_up i dir ys"
  "pending_down i dir (xs @ ys) = pending_down i dir xs + pending_down i dir ys"
  by (simp_all add: pending_up_def pending_down_def)

lemma pending_Cons:
  "pending_up i dir (e # es) = pending_up i dir [e] + pending_up i dir es"
  "pending_down i dir (e # es) = pending_down i dir [e] + pending_down i dir es"
  by (simp_all add: pending_up_def pending_down_def)

lemma pending_Nil [simp]: "pending_up i dir [] = 0" "pending_down i dir [] = 0"
  by (simp_all add: pending_up_def pending_down_def)

lemma flush_entry_conserves:
  assumes "entry_ok d" and "entry_settled d" and "dir < DIR_NUM"
  shows "reported_up i dir (flush_reports E (p, d)) + pending_up i dir (kept E [(p, d)]) = pending_up i dir [(p, d)]"
    and "reported_down i dir (flush_reports E (p, d)) + pending_down i dir (kept E [(p, d)]) = pending_down i dir [(p, d)]"
proof -
  have z: "pending_up i dir [(p, d)] = 0 \<and> pending_down i dir [(p, d)] = 0"
    if "\<not> flush_due E d" "\<not> e_stgTime E - pe_updateTime d < REMOVE_TIME"
  proof -
    have "pe_updateTime d < pe_flushTime d" using that by (simp add: flush_due_def FLUSH_TIME_def REMOVE_TIME_def)
    then show ?thesis using assms(2) by (simp add: entry_settled_def pending_up_def pending_down_def)
  qed
  have f: "pending_up i dir [(p, flushed E d)] = 0 \<and> pending_down i dir [(p, flushed E d)] = 0" if "flush_due E d"
    using that by (simp add: pending_up_def pending_down_def flushed_def)
  have k: "kept E [(p, d)] = (if e_stgTime E - pe_updateTime d < REMOVE_TIME then [(p, flushed E d)] else [])"
    by (simp add: kept_def)
  have n: "\<not> flush_due E d \<Longrightarrow> flushed E d = d" by (simp add: flushed_def)
  note r = reports_of_entry [OF assms(1,3)]
  show "reported_up i dir (flush_reports E (p, d)) + pending_up i dir (kept E [(p, d)]) = pending_up i dir [(p, d)]"
    "reported_down i dir (flush_reports E (p, d)) + pending_down i dir (kept E [(p, d)]) = pending_down i dir [(p, d)]"
    using z f n by (cases "flush_due E d"; simp add: flush_reports_def k r)+
qed

lemma flush_conserves:
  assumes "list_all (\<lambda>e. entry_ok (snd e)) ps" and "list_all (\<lambda>e. entry_settled (snd e)) ps" and "dir < DIR_NUM"
  shows "reported_up i dir (concat (map (flush_reports E) ps)) + pending_up i dir (kept E ps) = pending_up i dir ps
    \<and> reported_down i dir (concat (map (flush_reports E) ps)) + pending_down i dir (kept E ps) = pending_down i dir ps"
  using assms(1,2)
proof (induction ps)
  case (Cons e ps)
  obtain p d where e: "e = (p, d)" by force
  have k: "kept E (e # ps) = kept E [e] @ kept E ps" by (simp add: kept_def)
  show ?case
    using Cons flush_entry_conserves [of d dir i E p] assms(3)
    by (simp add: k [unfolded e] pending_append pending_Cons [of i dir "(p, d)" ps] e)
qed (simp add: kept_def)

subsection \<open>What a report does to a user\<close>

definition counting :: "env \<Rightarrow> user \<Rightarrow> bool" where
  "counting E u \<longleftrightarrow> u_connected u \<and> \<not> u_locked u \<and> tariff_of E u \<noteq> None
     \<and> length (up_traff u) = DIR_NUM \<and> length (down_traff u) = DIR_NUM"

lemma counting_env [simp]: "counting (env_in E us) u = counting E u" "counting E (u\<lparr>trace := tr\<rparr>) = counting E u"
  by (simp_all add: counting_def tariff_of_def env_in_def)

lemma charge_traff_user [simp]:
  "u_connected (charge_traff E dc u) = u_connected u" "u_tariff (charge_traff E dc u) = u_tariff u"
  "u_locked (charge_traff E dc u) = u_locked u"
  by (simp_all add: charge_traff_def ModifyTime_def)

lemma assign_traff_user [simp]:
  "u_connected (assign E prop_up t u) = u_connected u" "u_tariff (assign E prop_up t u) = u_tariff u"
  "u_connected (assign E prop_down t u) = u_connected u" "u_tariff (assign E prop_down t u) = u_tariff u"
  by (simp_all add: assign_def prop_up_def prop_down_def plain_property_def ModifyTime_def)

lemma tariff_of_trace [simp]: "tariff_of E (u\<lparr>trace := tr\<rparr>) = tariff_of E u"
  by (simp add: tariff_of_def)

lemma AddTraffStat_user:
  assumes "u_connected u" and "tariff_of E u = Some t"
  shows "up_traff (AddTraffStatU_body E dir ip len u) = (up_traff u)[dir := up_traff u ! dir + ucast len]"
    "down_traff (AddTraffStatU_body E dir ip len u) = down_traff u"
    "u_connected (AddTraffStatU_body E dir ip len u)" "u_tariff (AddTraffStatU_body E dir ip len u) = u_tariff u"
    "down_traff (AddTraffStatD_body E dir ip len u) = (down_traff u)[dir := down_traff u ! dir + ucast len]"
    "up_traff (AddTraffStatD_body E dir ip len u) = up_traff u"
    "u_connected (AddTraffStatD_body E dir ip len u)" "u_tariff (AddTraffStatD_body E dir ip len u) = u_tariff u"
  using assms by (simp_all add: AddTraffStatU_body_def AddTraffStatD_body_def Let_def)

lemma AddTraffStatU_counting:
  assumes "counting E u"
  shows "\<exists>v. AddTraffStatU E dir ip len u = Some ((), v) \<and> counting E v
    \<and> up_traff v = (up_traff u)[dir := up_traff u ! dir + ucast len] \<and> down_traff v = down_traff u"
proof -
  let ?u = "u\<lparr>u_locked := True\<rparr>"
  obtain t where t: "tariff_of E u = Some t" "u_connected u" "\<not> u_locked u" using assms by (auto simp: counting_def)
  then have "tariff_of E ?u = Some t" "u_connected ?u" by (simp_all add: tariff_of_def)
  note f = AddTraffStat_user(1-4) [OF this(2,1), of dir ip len]
  have "u_tariff u \<noteq> None" using t(1) by (auto simp: tariff_of_def)
  then show ?thesis
    unfolding AddTraffStatU_def with_lock_total [OF t(3)] using f assms by (auto simp: counting_def tariff_of_def)
qed

lemma AddTraffStatD_counting:
  assumes "counting E u"
  shows "\<exists>v. AddTraffStatD E dir ip len u = Some ((), v) \<and> counting E v
    \<and> down_traff v = (down_traff u)[dir := down_traff u ! dir + ucast len] \<and> up_traff v = up_traff u"
proof -
  let ?u = "u\<lparr>u_locked := True\<rparr>"
  obtain t where t: "tariff_of E u = Some t" "u_connected u" "\<not> u_locked u" using assms by (auto simp: counting_def)
  then have "tariff_of E ?u = Some t" "u_connected ?u" by (simp_all add: tariff_of_def)
  note f = AddTraffStat_user(5-8) [OF this(2,1), of dir ip len]
  have "u_tariff u \<noteq> None" using t(1) by (auto simp: tariff_of_def)
  then show ?thesis
    unfolding AddTraffStatD_def with_lock_total [OF t(3)] using f assms by (auto simp: counting_def tariff_of_def)
qed

text \<open>\<open>counted E u v m n\<close>: \<open>v\<close> is \<open>u\<close> with \<open>m\<close> and \<open>n\<close> bytes more per direction.\<close>

definition counted :: "env \<Rightarrow> user \<Rightarrow> user \<Rightarrow> (nat \<Rightarrow> nat) \<Rightarrow> (nat \<Rightarrow> nat) \<Rightarrow> bool" where
  "counted E u v m n \<longleftrightarrow> counting E v \<and> (\<forall>dir<DIR_NUM. up_traff v ! dir = up_traff u ! dir + of_nat (m dir)
     \<and> down_traff v ! dir = down_traff u ! dir + of_nat (n dir))"

lemma ucast_len: "(ucast (len :: u32) :: u64) = of_nat (unat len)"
  by simp

lemma counted_same: "counting E u \<Longrightarrow> counted E u u (\<lambda>_. 0) (\<lambda>_. 0)"
  by (simp add: counted_def)

lemma on_user_call:
  assumes "on_user E f j us = Some (y, us')" and "\<And>E. framed_call (f E)" and "user_at i us = Some u"
  obtains "j \<noteq> i" "user_at i us' = Some u"
  | v where "j = i" "f (env_in E us) (u\<lparr>trace := trace us\<rparr>) = Some (y, v)" "user_at i us' = Some (v\<lparr>trace := []\<rparr>)"
  using assms(1)
proof (rule on_user_upd)
  show "same_user a b" if "f (env_in E us) a = Some (y, b)" for a b
    using framed_callD [OF assms(2) that] by (rule frame_same)
  fix a b assume a: "user_at j us = Some a" "f (env_in E us) (a\<lparr>trace := trace us\<rparr>) = Some (y, b)"
    "upd_user j (b\<lparr>trace := []\<rparr>) us us'"
  show thesis
  proof (cases "j = i")
    case True
    with a(1) assms(3) have "a = u" by simp
    then show ?thesis using that(2) [of b] a True by (simp add: upd_user_def)
  next
    case False
    then show ?thesis using that(1) a(3) assms(3) by (simp add: upd_user_def)
  qed
qed

lemma apply_report_counted:
  assumes "user_at i us = Some u" and "counting E u" and "apply_report E r us = Some us'"
  shows "\<exists>v. user_at i us' = Some v \<and> counted E u v (\<lambda>dir. report_size_up i dir r) (\<lambda>dir. report_size_down i dir r)"
proof (cases r)
  case (Up j k ip len)
  with assms(3) obtain y where "on_user E (\<lambda>E. AddTraffStatU E k ip len) j us = Some (y, us')" by auto
  then show ?thesis
  proof (cases rule: on_user_call [OF _ framed_AddTraffStat(1) assms(1), consumes 1, case_names 1 2])
    case 1
    then show ?thesis using Up counted_same [OF assms(2)] by simp
  next
    case (2 v)
    then obtain w where w: "v = w" "counting E w" "up_traff w = (up_traff u)[k := up_traff u ! k + ucast len]" "down_traff w = down_traff u"
      using AddTraffStatU_counting [of "env_in E us" "u\<lparr>trace := trace us\<rparr>" k ip len] assms(2) by auto
    then show ?thesis
      using 2 Up assms(2) by (auto simp: counted_def counting_def nth_list_update)
  qed
next
  case (Down j k ip len)
  with assms(3) obtain y where "on_user E (\<lambda>E. AddTraffStatD E k ip len) j us = Some (y, us')" by auto
  then show ?thesis
  proof (cases rule: on_user_call [OF _ framed_AddTraffStat(2) assms(1), consumes 1, case_names 1 2])
    case 1
    then show ?thesis using Down counted_same [OF assms(2)] by simp
  next
    case (2 v)
    then obtain w where w: "v = w" "counting E w" "down_traff w = (down_traff u)[k := down_traff u ! k + ucast len]" "up_traff w = up_traff u"
      using AddTraffStatD_counting [of "env_in E us" "u\<lparr>trace := trace us\<rparr>" k ip len] assms(2) by auto
    then show ?thesis
      using 2 Down assms(2) by (auto simp: counted_def counting_def nth_list_update)
  qed
qed

lemma apply_reports_counted:
  "user_at i us = Some u \<Longrightarrow> counting E u \<Longrightarrow> apply_reports E rs us = Some us' \<Longrightarrow>
    \<exists>v. user_at i us' = Some v \<and> counted E u v (\<lambda>dir. reported_up i dir rs) (\<lambda>dir. reported_down i dir rs)"
proof (induction rs arbitrary: us u)
  case (Cons r rs)
  then obtain us1 where 1: "apply_report E r us = Some us1" "apply_reports E rs us1 = Some us'"
    by (auto simp: bind_eq_Some_conv)
  obtain w where w: "user_at i us1 = Some w"
    "counted E u w (\<lambda>dir. report_size_up i dir r) (\<lambda>dir. report_size_down i dir r)"
    using apply_report_counted [OF Cons.prems(1,2) 1(1)] by blast
  then obtain v where "user_at i us' = Some v" "counted E w v (\<lambda>dir. reported_up i dir rs) (\<lambda>dir. reported_down i dir rs)"
    using Cons.IH [OF w(1) _ 1(2)] by (auto simp: counted_def)
  then show ?case using w(2) by (auto simp: counted_def)
qed (simp add: counted_same)

subsection \<open>The invariant of the counter\<close>

definition entry_inv :: "int \<Rightarrow> extra_data \<Rightarrow> bool" where
  "entry_inv now d \<longleftrightarrow> entry_ok d \<and> entry_settled d \<and> pe_flushTime d \<le> now"

definition index_of_packets :: "raw_packet list \<Rightarrow> (u32 \<times> raw_packet) set" where
  "index_of_packets ks = (\<Union>p\<in>set ks. {(GetSrcIP p, p), (GetDstIP p, p)})"

definition tc_inv :: "int \<Rightarrow> traffcounter \<Rightarrow> bool" where
  "tc_inv now s \<longleftrightarrow> packets_ok (tc_packets s) \<and> list_all (\<lambda>e. entry_inv now (snd e)) (tc_packets s)
     \<and> sorted (map fst (tc_ip2packets s)) \<and> set (tc_ip2packets s) = index_of_packets (map fst (tc_packets s))
     \<and> list_all rule_wf (tc_rules s)"

lemma tc_invD:
  assumes "tc_inv now s"
  shows "packets_ok (tc_packets s)" "list_all (\<lambda>e. entry_ok (snd e)) (tc_packets s)"
    "list_all (\<lambda>e. entry_settled (snd e)) (tc_packets s)"
  using assms by (auto simp: tc_inv_def entry_inv_def list_all_iff)

lemma tc_inv_later: "tc_inv now s \<Longrightarrow> now \<le> now' \<Longrightarrow> tc_inv now' s"
  by (auto simp: tc_inv_def entry_inv_def list_all_iff)

lemma tc_inv_upd [simp]:
  "tc_inv now (s\<lparr>trace := tr\<rparr>) = tc_inv now s" "tc_inv now (emit e s) = tc_inv now s"
  "tc_inv now (s\<lparr>tc_touchTimeP := t\<rparr>) = tc_inv now s" "tc_inv now (s\<lparr>tc_tasks := ts\<rparr>) = tc_inv now s"
  "tc_inv now (s\<lparr>tc_onIPConns := is\<rparr>) = tc_inv now s" "tc_inv now (s\<lparr>tc_stopped := b\<rparr>) = tc_inv now s"
  by (simp_all add: tc_inv_def emit_def)

lemma map_find_mem: "map_find lt k ps = Some v \<Longrightarrow> \<exists>a. (a, v) \<in> set ps"
  by (induction ps) (auto split: if_splits)

lemma change_all:
  "list_all (\<lambda>e. P (snd e)) ps \<Longrightarrow> (\<And>v. v \<in> snd ` set ps \<Longrightarrow> P (f v)) \<Longrightarrow> list_all (\<lambda>e. P (snd e)) (map_change lt k f ps)"
  by (induction ps) auto

lemma insert_all:
  "list_all (\<lambda>e. P (snd e)) ps \<Longrightarrow> P v \<Longrightarrow> list_all (\<lambda>e. P (snd e)) (map_insert lt k v ps)"
  by (induction ps) auto

lemma index_insert_facts [simp]:
  "set (index_insert ip p xs) = insert (ip, p) (set xs)"
  "sorted (map fst xs) \<Longrightarrow> sorted (map fst (index_insert ip p xs))"
proof -
  show "set (index_insert ip p xs) = insert (ip, p) (set xs)"
    unfolding index_insert_def set_append list.set using set_append takeWhile_dropWhile_id by (metis Un_insert_right)
  show "sorted (map fst (index_insert ip p xs))" if "sorted (map fst xs)"
    using that
  proof (induction xs)
    case (Cons x xs)
    have d: "\<forall>y\<in>set (dropWhile (\<lambda>e. fst e \<le> ip) xs). fst y \<in> fst ` set xs" by (metis image_eqI set_dropWhileD)
    have t: "\<forall>y\<in>set (takeWhile (\<lambda>e. fst e \<le> ip) xs). fst y \<in> fst ` set xs" by (metis image_eqI set_takeWhileD)
    show ?case using Cons d t by (fastforce simp: index_insert_def)
  qed (simp add: index_insert_def)
qed

lemma index_packet_facts:
  "set (index_packet p xs) = {(GetSrcIP p, p), (GetDstIP p, p)} \<union> set xs"
  "sorted (map fst xs) \<Longrightarrow> sorted (map fst (index_packet p xs))"
  by (auto simp: index_packet_def)

lemma index_fold:
  "set (fold index_packet ks xs) = index_of_packets ks \<union> set xs"
  "sorted (map fst xs) \<Longrightarrow> sorted (map fst (fold index_packet ks xs))"
  by (induction ks arbitrary: xs) (auto simp: index_of_packets_def index_packet_facts)

lemma kept_ok: "packets_ok ps \<Longrightarrow> packets_ok (kept E ps)"
proof (induction ps)
  case (Cons e ps)
  obtain p d where e: "e = (p, d)" by force
  have "\<forall>a\<in>set (kept E ps). \<exists>b\<in>set ps. fst a = fst b" by (force simp: kept_def)
  then show ?case using Cons by (fastforce simp: kept_def e pk.keys_ok_Cons)
qed (simp add: kept_def)

lemma flushed_inv: "entry_inv now d \<Longrightarrow> now \<le> e_stgTime E \<Longrightarrow> entry_inv (e_stgTime E) (flushed E d)"
  by (auto simp: entry_inv_def entry_settled_def flushed_def entry_ok_def)

lemma FlushAndRemove_eq:
  assumes "tc_inv now s"
  shows "FlushAndRemove E (s, us) = map_option (\<lambda>us. (s\<lparr>tc_packets := kept E (tc_packets s),
      tc_ip2packets := fold index_packet (map fst (kept E (tc_packets s))) []\<rparr>, us))
    (apply_reports E (concat (map (flush_reports E) (tc_packets s))) us)"
  using FlushAndRemove_loop_eq [of "[]" "tc_packets s" E "[]" us] tc_invD [OF assms]
  by (auto simp: FlushAndRemove_def split: Option.bind_split)

lemma FlushAndRemove_inv:
  assumes "tc_inv now s" and "now \<le> e_stgTime E" and "FlushAndRemove E (s, us) = Some (s', us')"
  shows "tc_inv (e_stgTime E) s'"
proof -
  have s': "s' = s\<lparr>tc_packets := kept E (tc_packets s), tc_ip2packets := fold index_packet (map fst (kept E (tc_packets s))) []\<rparr>"
    using assms(3) unfolding FlushAndRemove_eq [OF assms(1)] by auto
  have "list_all (\<lambda>e. entry_inv (e_stgTime E) (snd e)) (kept E (tc_packets s))"
    using assms(1) flushed_inv [OF _ assms(2)] by (auto simp: tc_inv_def list_all_iff kept_def)
  then show ?thesis
    using assms(1) kept_ok index_fold(1) [of "map fst (kept E (tc_packets s))" "[]"] index_fold(2) [of "[]"]
    by (auto simp: s' tc_inv_def)
qed

subsection \<open>Users leaving\<close>

definition del_entry :: "u32 \<Rightarrow> raw_packet \<Rightarrow> extra_data \<Rightarrow> extra_data" where
  "del_entry uip p d = d\<lparr>pe_userUPresent := pe_userUPresent d \<and> GetSrcIP p \<noteq> uip,
     pe_userDPresent := pe_userDPresent d \<and> GetDstIP p \<noteq> uip\<rparr>"

definition del_reports :: "u32 \<Rightarrow> raw_packet \<Rightarrow> extra_data \<Rightarrow> report list" where
  "del_reports uip p d = (if GetSrcIP p = uip then up_reports p d else []) @ (if GetDstIP p = uip then down_reports p d else [])"

lemma del_user_packet_eq:
  assumes "entry_ok d"
  shows "del_user_packet E uip p d us = map_option (Pair (del_entry uip p d)) (apply_reports E (del_reports uip p d) us)"
proof -
  define d1 where "d1 = (if GetSrcIP p = uip then d\<lparr>pe_userUPresent := False\<rparr> else d)"
  have d1: "entry_ok d1" "down_reports p d1 = down_reports p d"
    using assms by (simp_all add: d1_def entry_ok_def down_reports_def)
  have e: "del_entry uip p d = (if GetDstIP p = uip then d1\<lparr>pe_userDPresent := False\<rparr> else d1)"
    by (simp add: del_entry_def d1_def)
  have "del_user_packet E uip p d us =
      Option.bind (apply_reports E (if GetSrcIP p = uip then up_reports p d else []) us)
        (\<lambda>us. if GetDstIP p = uip then Option.bind (apply_reports E (down_reports p d) us)
           (\<lambda>us. Some (d1\<lparr>pe_userDPresent := False\<rparr>, us)) else Some (d1, us))"
    unfolding del_user_packet_def report_up_eq [OF assms]
    using report_down_eq [OF d1(1), of E p] d1(2) by (cases "GetSrcIP p = uip") (simp_all add: d1_def cong: if_cong)
  also have "\<dots> = map_option (Pair (del_entry uip p d)) (apply_reports E (del_reports uip p d) us)"
    unfolding del_reports_def apply_reports_append e
    by (cases "apply_reports E (if GetSrcIP p = uip then up_reports p d else []) us"; cases "GetDstIP p = uip")
      (auto split: Option.bind_split)
  finally show ?thesis .
qed

lemma del_entry_conserves:
  assumes "entry_ok d" and "dir < DIR_NUM"
  shows "reported_up i dir (del_reports uip p d) + pending_up i dir [(a, del_entry uip p d)] = pending_up i dir [(a, d)]"
    "reported_down i dir (del_reports uip p d) + pending_down i dir [(a, del_entry uip p d)] = pending_down i dir [(a, d)]"
proof -
  note r = reports_of_entry [OF assms, of i p]
  have p: "pending_up i dir [(a, x)] = pending_up i dir [(p, x)]" "pending_down i dir [(a, x)] = pending_down i dir [(p, x)]" for x
    by (simp_all add: pending_up_def pending_down_def)
  have e: "pending_up i dir [(p, del_entry uip p d)] = (if GetSrcIP p = uip then 0 else pending_up i dir [(p, d)])"
    "pending_down i dir [(p, del_entry uip p d)] = (if GetDstIP p = uip then 0 else pending_down i dir [(p, d)])"
    by (simp_all add: pending_up_def pending_down_def del_entry_def)
  show "reported_up i dir (del_reports uip p d) + pending_up i dir [(a, del_entry uip p d)] = pending_up i dir [(a, d)]"
    "reported_down i dir (del_reports uip p d) + pending_down i dir [(a, del_entry uip p d)] = pending_down i dir [(a, d)]"
    by (cases "GetSrcIP p = uip"; cases "GetDstIP p = uip"; simp add: p e r del_reports_def)+
qed

lemma del_entry_inv: "entry_inv now d \<Longrightarrow> entry_inv now (del_entry uip p d)"
  by (auto simp: entry_inv_def entry_ok_def entry_settled_def del_entry_def)

lemma pending_change:
  assumes "packets_ok ps" and "GetProto p \<noteq> 0" and "map_find RawPacket_less p ps = Some d"
  shows "\<exists>a. pending_up i dir (map_change RawPacket_less p f ps) + pending_up i dir [(a, d)]
      = pending_up i dir ps + pending_up i dir [(a, f d)]
    \<and> pending_down i dir (map_change RawPacket_less p f ps) + pending_down i dir [(a, d)]
      = pending_down i dir ps + pending_down i dir [(a, f d)]"
proof -
  obtain as a bs where "ps = as @ (a, d) # bs" "map_change RawPacket_less p f ps = as @ (a, f d) # bs"
    using pk.change_split [OF assms(1) _ assms(3)] assms(2) by blast
  then show ?thesis
    by (intro exI [of _ a]) (simp add: pending_append pending_Cons [of i dir "(a, d)" bs] pending_Cons [of i dir "(a, f d)" bs])
qed

definition conserved :: "env \<Rightarrow> (raw_packet \<times> extra_data) list \<Rightarrow> users \<Rightarrow> (raw_packet \<times> extra_data) list \<Rightarrow> users \<Rightarrow> bool" where
  "conserved E ps us ps' us' \<longleftrightarrow> (\<exists>rs. apply_reports E rs us = Some us' \<and> (\<forall>i. \<forall>dir<DIR_NUM.
     reported_up i dir rs + pending_up i dir ps' = pending_up i dir ps
     \<and> reported_down i dir rs + pending_down i dir ps' = pending_down i dir ps))"

lemma conserved_refl: "conserved E ps us ps us"
  unfolding conserved_def by (rule exI [of _ "[]"]) simp

lemma conserved_trans: "conserved E ps us qs vs \<Longrightarrow> conserved E qs vs rs ws \<Longrightarrow> conserved E ps us rs ws"
  unfolding conserved_def
proof (elim exE conjE)
  fix xs ys
  assume x: "apply_reports E xs us = Some vs" "\<forall>i. \<forall>dir<DIR_NUM.
     reported_up i dir xs + pending_up i dir qs = pending_up i dir ps \<and> reported_down i dir xs + pending_down i dir qs = pending_down i dir ps"
    and y: "apply_reports E ys vs = Some ws" "\<forall>i. \<forall>dir<DIR_NUM.
     reported_up i dir ys + pending_up i dir rs = pending_up i dir qs \<and> reported_down i dir ys + pending_down i dir rs = pending_down i dir qs"
  have "reported_up i dir (xs @ ys) + pending_up i dir rs = pending_up i dir ps
     \<and> reported_down i dir (xs @ ys) + pending_down i dir rs = pending_down i dir ps" if "dir < DIR_NUM" for i dir
  proof -
    have "reported_up i dir xs + pending_up i dir qs = pending_up i dir ps"
      "reported_down i dir xs + pending_down i dir qs = pending_down i dir ps"
      "reported_up i dir ys + pending_up i dir rs = pending_up i dir qs"
      "reported_down i dir ys + pending_down i dir rs = pending_down i dir qs"
      using x(2) y(2) that by blast+
    then show ?thesis by simp
  qed
  then show "\<exists>zs. apply_reports E zs us = Some ws \<and> (\<forall>i. \<forall>dir<DIR_NUM.
     reported_up i dir zs + pending_up i dir rs = pending_up i dir ps \<and> reported_down i dir zs + pending_down i dir rs = pending_down i dir ps)"
    using x(1) y(1) by (intro exI [of _ "xs @ ys"]) (simp add: apply_reports_append)
qed

definition cleared :: "u32 \<Rightarrow> raw_packet \<Rightarrow> extra_data \<Rightarrow> bool" where
  "cleared uip p d \<longleftrightarrow> (GetSrcIP p = uip \<longrightarrow> \<not> pe_userUPresent d) \<and> (GetDstIP p = uip \<longrightarrow> \<not> pe_userDPresent d)"

lemma del_step_conserved:
  assumes "packets_ok ps" and "GetProto p \<noteq> 0" and "map_find RawPacket_less p ps = Some d" and "entry_ok d"
    and "apply_reports E (del_reports uip p d) us = Some us'"
  shows "conserved E ps us (map_change RawPacket_less p (\<lambda>_. del_entry uip p d) ps) us'"
  unfolding conserved_def
proof (intro exI [of _ "del_reports uip p d"] conjI allI impI, rule assms(5))
  fix i dir assume dir: "dir < DIR_NUM"
  obtain a where a: "pending_up i dir (map_change RawPacket_less p (\<lambda>_. del_entry uip p d) ps) + pending_up i dir [(a, d)]
      = pending_up i dir ps + pending_up i dir [(a, del_entry uip p d)]"
    "pending_down i dir (map_change RawPacket_less p (\<lambda>_. del_entry uip p d) ps) + pending_down i dir [(a, d)]
      = pending_down i dir ps + pending_down i dir [(a, del_entry uip p d)]"
    using pending_change [OF assms(1-3)] by blast
  show "reported_up i dir (del_reports uip p d)
      + pending_up i dir (map_change RawPacket_less p (\<lambda>_. del_entry uip p d) ps) = pending_up i dir ps"
    using a(1) del_entry_conserves(1) [OF assms(4) dir, of i uip p a] by linarith
  show "reported_down i dir (del_reports uip p d)
      + pending_down i dir (map_change RawPacket_less p (\<lambda>_. del_entry uip p d) ps) = pending_down i dir ps"
    using a(2) del_entry_conserves(2) [OF assms(4) dir, of i uip p a] by linarith
qed

lemma same_key: "packet_key p = packet_key k \<Longrightarrow> GetSrcIP p = GetSrcIP k \<and> GetDstIP p = GetDstIP k"
  by (simp add: packet_key_def Let_def)

lemma cleared_del_entry: "packet_key p = packet_key k \<Longrightarrow> cleared uip k (del_entry uip p d)"
  using same_key [of p k] by (simp add: cleared_def del_entry_def)

lemma DelUser_loop_spec:
  assumes "DelUser_loop E uip rest ps us = Some (ps', us')" and "packets_ok ps"
    and "list_all (\<lambda>e. entry_inv now (snd e)) ps" and "\<forall>p\<in>set rest. GetProto p \<noteq> 0"
  shows "conserved E ps us ps' us' \<and> map fst ps' = map fst ps \<and> list_all (\<lambda>e. entry_inv now (snd e)) ps'
    \<and> (\<forall>k d d'. GetProto k \<noteq> 0 \<longrightarrow> map_find RawPacket_less k ps = Some d \<longrightarrow> map_find RawPacket_less k ps' = Some d' \<longrightarrow>
        cleared uip k d \<or> k \<in> set rest \<longrightarrow> cleared uip k d')"
  using assms
proof (induction rest arbitrary: ps us)
  case Nil
  then show ?case by (auto simp: conserved_refl)
next
  case (Cons p rest)
  from Cons.prems(1) obtain d d1 us1 where f: "map_find RawPacket_less p ps = Some d"
    and d: "del_user_packet E uip p d us = Some (d1, us1)"
    and l: "DelUser_loop E uip rest (map_change RawPacket_less p (\<lambda>_. d1) ps) us1 = Some (ps', us')"
    by (auto simp: bind_eq_Some_conv)
  have p: "GetProto p \<noteq> 0" using Cons.prems(4) by simp
  have di: "entry_inv now d" using map_find_mem [OF f] Cons.prems(3) by (auto simp: list_all_iff)
  then have ok: "entry_ok d" by (simp add: entry_inv_def)
  have d1: "d1 = del_entry uip p d" and r: "apply_reports E (del_reports uip p d) us = Some us1"
    using d unfolding del_user_packet_eq [OF ok] by auto
  let ?ps = "map_change RawPacket_less p (\<lambda>_. d1) ps"
  have ps: "packets_ok ?ps" "list_all (\<lambda>e. entry_inv now (snd e)) ?ps"
    using Cons.prems(2,3) del_entry_inv [OF di] by (auto simp: d1 intro!: change_all)
  have c: "conserved E ps us ?ps us1" unfolding d1 by (rule del_step_conserved [OF Cons.prems(2) p f ok r])
  note IH = Cons.IH [OF l ps, rule_format]
  have step: "\<exists>e. map_find RawPacket_less k ?ps = Some e \<and> (cleared uip k v \<or> k = p \<longrightarrow> cleared uip k e)"
    if k: "GetProto k \<noteq> 0" "map_find RawPacket_less k ps = Some v" for k v
    using pk.find_change [OF Cons.prems(2) p k(1), of "\<lambda>_. d1"] k(2) cleared_del_entry [of p k] d1
    by (cases "packet_key p = packet_key k") auto
  have "\<forall>k d d'. GetProto k \<noteq> 0 \<longrightarrow> map_find RawPacket_less k ps = Some d \<longrightarrow> map_find RawPacket_less k ps' = Some d' \<longrightarrow>
        cleared uip k d \<or> k \<in> set (p # rest) \<longrightarrow> cleared uip k d'"
    using step IH Cons.prems(4) by (metis list.set_intros(2) set_ConsD)
  moreover have "conserved E ps us ps' us'" "map fst ps' = map fst ps" "list_all (\<lambda>e. entry_inv now (snd e)) ps'"
    using conserved_trans [OF c] IH Cons.prems(4) by simp_all
  ultimately show ?case by blast
qed

lemma equal_range_mem: "set (equal_range ip xs) = {p. (ip, p) \<in> set xs}"
  by (force simp: equal_range_def)

lemma index_proto:
  assumes "tc_inv now s" and "p \<in> set (equal_range ip (tc_ip2packets s))"
  shows "GetProto p \<noteq> 0"
  using assms by (auto simp: equal_range_mem tc_inv_def index_of_packets_def keys_ok_def list_all_iff)

lemma find_mem: "packets_ok ps \<Longrightarrow> (p, d) \<in> set ps \<Longrightarrow> map_find RawPacket_less p ps = Some d"
proof (induction ps)
  case (Cons e ps)
  obtain a w where e: "e = (a, w)" by force
  have pr: "GetProto p \<noteq> 0" using Cons.prems by (force simp: keys_ok_def list_all_iff)
  have c: "GetProto a \<noteq> 0" "\<forall>x\<in>set ps. packet_key a < packet_key (fst x)" "packets_ok ps"
    using Cons.prems(1) by (simp_all add: e pk.keys_ok_Cons)
  show ?case
  proof (cases "(p, d) \<in> set ps")
    case True
    then have "RawPacket_less a p" using c pr by (fastforce simp: pk.lt_key)
    then show ?thesis using Cons.IH [OF c(3) True] by (simp add: e)
  next
    case False
    then have "a = p" "w = d" using Cons.prems(2) by (auto simp: e)
    then show ?thesis using pr by (simp add: e pk.lt_key)
  qed
qed simp

lemma DelUser_spec:
  assumes "tc_inv now s" and "DelUser E uip (s, us) = Some (s', us')"
  shows "conserved E (tc_packets s) us (tc_packets s') us' \<and> tc_inv now s'
    \<and> list_all (\<lambda>(p, d). cleared uip p d) (tc_packets s')"
proof -
  obtain ps where l: "DelUser_loop E uip (equal_range uip (tc_ip2packets s)) (tc_packets s) us = Some (ps, us')"
    and s': "s' = s\<lparr>tc_packets := ps\<rparr>"
    using assms(2) by (auto simp: DelUser_def bind_eq_Some_conv)
  have ok: "packets_ok (tc_packets s)" "list_all (\<lambda>e. entry_inv now (snd e)) (tc_packets s)"
    using assms(1) by (simp_all add: tc_inv_def)
  note sp = DelUser_loop_spec [OF l ok] index_proto [OF assms(1)]
  then have f: "conserved E (tc_packets s) us ps us'" "map fst ps = map fst (tc_packets s)" "list_all (\<lambda>e. entry_inv now (snd e)) ps"
    by blast+
  then have pok: "packets_ok ps" using ok(1) by (simp add: keys_ok_def)
  have inv: "tc_inv now s'" using assms(1) f pok by (simp add: s' tc_inv_def)
  have "cleared uip p d" if m: "(p, d) \<in> set ps" for p d
  proof (cases "GetSrcIP p = uip \<or> GetDstIP p = uip")
    case True
    have k: "p \<in> fst ` set (tc_packets s)" using m f(2) by (metis fst_conv image_eqI list.set_map)
    then have idx: "p \<in> set (equal_range uip (tc_ip2packets s))"
      using True assms(1) by (auto simp: equal_range_mem tc_inv_def index_of_packets_def)
    have pr: "GetProto p \<noteq> 0" by (rule index_proto [OF assms(1) idx])
    obtain d0 where "(p, d0) \<in> set (tc_packets s)" using k by force
    then have "map_find RawPacket_less p (tc_packets s) = Some d0" "map_find RawPacket_less p ps = Some d"
      using m find_mem ok(1) pok by blast+
    then show ?thesis using sp(1) sp(2) pr idx by blast
  qed (simp add: cleared_def)
  then show ?thesis using f inv by (auto simp: s' list_all_iff)
qed

subsection \<open>Users arriving, packets\<close>

lemma add_user_packet_inv:
  "add_user_packet i uip p d = Some d' \<Longrightarrow> entry_inv now d \<Longrightarrow> entry_inv now d'"
  by (auto simp: add_user_packet_def entry_inv_def entry_ok_def entry_settled_def bind_eq_Some_conv split: if_splits)

lemma AddUser_loop_inv:
  "AddUser_loop i uip rest ps = Some ps' \<Longrightarrow> list_all (\<lambda>e. entry_inv now (snd e)) ps \<Longrightarrow>
    map fst ps' = map fst ps \<and> list_all (\<lambda>e. entry_inv now (snd e)) ps'"
proof (induction rest arbitrary: ps)
  case (Cons p rest)
  from Cons.prems(1) obtain d d1 where f: "map_find RawPacket_less p ps = Some d" "add_user_packet i uip p d = Some d1"
    and l: "AddUser_loop i uip rest (map_change RawPacket_less p (\<lambda>_. d1) ps) = Some ps'"
    by (auto simp: bind_eq_Some_conv)
  have "entry_inv now d1"
    using add_user_packet_inv [OF f(2)] map_find_mem [OF f(1)] Cons.prems(2) by (auto simp: list_all_iff)
  then have "list_all (\<lambda>e. entry_inv now (snd e)) (map_change RawPacket_less p (\<lambda>_. d1) ps)"
    using Cons.prems(2) by (auto intro!: change_all)
  then show ?case using Cons.IH [OF l] by simp
qed simp

lemma AddUser_inv: "AddUser i (s, us) = Some (s', us') \<Longrightarrow> tc_inv now s \<Longrightarrow> tc_inv now s'"
  by (auto simp: AddUser_def bind_eq_Some_conv tc_inv_def keys_ok_def dest!: AddUser_loop_inv)

lemma FindByIPIdx_result:
  "FindByIPIdx E ip us = Some ((rc, i), us') \<Longrightarrow> (rc = 0 \<longleftrightarrow> i \<noteq> None) \<and> i = us_ipIndex us ip \<and> us_ipIndex us' = us_ipIndex us
     \<and> us_users us' = us_users us"
  by (cases "us_ipIndex us ip") (auto simp: FindByIPIdx_def users_locked_def split: if_splits dest: sym)

text \<open>The state \<open>process\<close> leaves: a known flow grows; a new one is entered when one of its users is known.\<close>

definition new_entry :: "env \<Rightarrow> rule list \<Rightarrow> (u32 \<rightharpoonup> int) \<Rightarrow> raw_packet \<Rightarrow> extra_data" where
  "new_entry E rules idx p = (let dirs = DeterminateDir rules p (int DIR_NUM, int DIR_NUM) in
     \<lparr>pe_flushTime = e_stgTime E, pe_updateTime = e_stgTime E, pe_userU = idx (GetSrcIP p),
      pe_userUPresent = idx (GetSrcIP p) \<noteq> None, pe_userD = idx (GetDstIP p), pe_userDPresent = idx (GetDstIP p) \<noteq> None,
      pe_dirU = fst dirs, pe_dirD = snd dirs, pe_lenU = GetLen p, pe_lenD = GetLen p\<rparr>)"

lemma touched_fields [simp]:
  "tc_packets (touched E s) = tc_packets s" "tc_ip2packets (touched E s) = tc_ip2packets s"
  "tc_rules (touched E s) = tc_rules s" "tc_inv now (touched E s) = tc_inv now s"
  by (simp_all add: touched_def emit_def)

lemma process_known:
  assumes "map_find RawPacket_less p (tc_packets s) = Some d"
  shows "process E p (s, us) = Some ((touched E s)\<lparr>tc_packets := map_change RawPacket_less p (\<lambda>d. d\<lparr>pe_lenU := pe_lenU d + GetLen p,
             pe_lenD := pe_lenD d + GetLen p, pe_updateTime := e_stgTime E\<rparr>) (tc_packets s)\<rparr>, us)"
  using assms by (simp add: process_def Let_def)

lemma process_unknown:
  assumes "map_find RawPacket_less p (tc_packets s) = None" and "process E p (s, us) = Some (s', us')"
  shows "s' = (if us_ipIndex us (GetSrcIP p) = None \<and> us_ipIndex us (GetDstIP p) = None then touched E s
     else (touched E s)\<lparr>tc_packets := map_insert RawPacket_less p (new_entry E (tc_rules s) (us_ipIndex us) p) (tc_packets s),
                        tc_ip2packets := index_packet p (tc_ip2packets s)\<rparr>)"
proof -
  define t where "t = touched E s"
  have t: "tc_packets t = tc_packets s" "tc_ip2packets t = tc_ip2packets s" "tc_rules t = tc_rules s" by (simp_all add: t_def)
  from assms have p: "process_new E p (t, us) = Some (s', us')" by (simp add: process_def t_def Let_def)
  then obtain rcU iU us1 rcD iD us2 where 1: "FindByIPIdx E (GetSrcIP p) us = Some ((rcU, iU), us1)"
    "FindByIPIdx E (GetDstIP p) us1 = Some ((rcD, iD), us2)"
    by (auto simp: process_new_def bind_eq_Some_conv)
  have "(rcU = 0) = (iU \<noteq> None)" "iU = us_ipIndex us (GetSrcIP p)" "(rcD = 0) = (iD \<noteq> None)" "iD = us_ipIndex us (GetDstIP p)"
    using FindByIPIdx_result [OF 1(1)] FindByIPIdx_result [OF 1(2)] by auto
  then show ?thesis
    using p 1 t by (auto simp: process_new_def PacketExtraData_def new_entry_def Let_def t_def split: if_splits)
qed

lemma new_entry_inv:
  assumes "list_all rule_wf rules"
  shows "entry_inv (e_stgTime E) (new_entry E rules idx p)"
proof -
  have "0 \<le> fst (DeterminateDir rules p dirs) \<and> 0 \<le> snd (DeterminateDir rules p dirs)" for dirs
    using first_dir_bounds [OF assms] by (simp add: DeterminateDir_eq)
  then show ?thesis by (simp add: new_entry_def Let_def entry_inv_def entry_ok_def entry_settled_def)
qed

lemma insert_key_set:
  "map_find lt p ps = None \<Longrightarrow> set (map_insert lt p d ps) = insert (p, d) (set ps)"
  by (induction ps) (auto split: if_splits)

lemma process_inv:
  assumes i: "tc_inv now s" and n: "now \<le> e_stgTime E" and p: "GetProto p \<noteq> 0" and r: "process E p (s, us) = Some (s', us')"
  shows "tc_inv (e_stgTime E) s'"
proof (cases "map_find RawPacket_less p (tc_packets s)")
  case (Some d)
  let ?f = "\<lambda>d. d\<lparr>pe_lenU := pe_lenU d + GetLen p, pe_lenD := pe_lenD d + GetLen p, pe_updateTime := e_stgTime E\<rparr>"
  have s': "s' = (touched E s)\<lparr>tc_packets := map_change RawPacket_less p ?f (tc_packets s)\<rparr>"
    using r process_known [OF Some, of E us] by auto
  have "entry_inv (e_stgTime E) (?f v)" if "entry_inv now v" for v
    using that n by (simp add: entry_inv_def entry_ok_def entry_settled_def)
  then have "list_all (\<lambda>e. entry_inv (e_stgTime E) (snd e)) (map_change RawPacket_less p ?f (tc_packets s))"
    using tc_inv_later [OF i n] i by (intro change_all) (auto simp: tc_inv_def list_all_iff)
  then show ?thesis using i by (simp add: s' tc_inv_def)
next
  case None
  note s' = process_unknown [OF None r]
  have i': "tc_inv (e_stgTime E) (touched E s)" using tc_inv_later [OF i n] by simp
  show ?thesis
  proof (cases "us_ipIndex us (GetSrcIP p) = None \<and> us_ipIndex us (GetDstIP p) = None")
    case True
    then show ?thesis using s' i' by simp
  next
    case False
    let ?e = "new_entry E (tc_rules s) (us_ipIndex us) p"
    have e: "entry_inv (e_stgTime E) ?e" using i by (intro new_entry_inv) (simp add: tc_inv_def)
    have "packets_ok (map_insert RawPacket_less p ?e (tc_packets s))"
      using i p by (intro pk.insert_ok) (simp_all add: tc_inv_def)
    moreover have "list_all (\<lambda>x. entry_inv (e_stgTime E) (snd x)) (map_insert RawPacket_less p ?e (tc_packets s))"
      using e i' by (intro insert_all) (simp_all add: tc_inv_def)
    moreover have "set (index_packet p (tc_ip2packets s)) = index_of_packets (map fst (map_insert RawPacket_less p ?e (tc_packets s)))"
      using i insert_key_set [OF None, of ?e]
      by (auto simp: index_packet_facts tc_inv_def index_of_packets_def)
    moreover have "s' = (touched E s)\<lparr>tc_packets := map_insert RawPacket_less p ?e (tc_packets s),
        tc_ip2packets := index_packet p (tc_ip2packets s)\<rparr>"
      using s' False by metis
    ultimately show ?thesis using i by (simp add: tc_inv_def index_packet_facts)
  qed
qed

subsection \<open>Reachable states\<close>

lemma ReadRules_inv:
  assumes "ReadRules oob aton fn fl test rul s = Some (err, s')" and "tc_inv now s"
  shows "tc_inv now s'"
proof (cases fl)
  case (Some body)
  with assms(1) obtain e rs logs where l: "ReadRules_loop oob aton fn (fgets_lines body) 0 rul = Some (e, rs, logs)"
    by (auto simp: ReadRules_def bind_eq_Some_conv)
  show ?thesis
    using assms Some l ReadRules_loop_wf [OF l] last_rule_facts(1)
    by (cases e; cases test) (auto simp: ReadRules_def Let_def tc_inv_def)
qed (use assms in \<open>auto simp: ReadRules_def\<close>)

lemma Reload_inv:
  assumes "Reload oob aton fn fl fl' rul s = Some (rc, s')" and "tc_inv now s"
  shows "tc_inv now s'"
proof -
  from assms(1) obtain err t where t: "ReadRules oob aton fn fl True rul s = Some (err, t)"
    and r: "(if err then Some (- 1, emit (Log ''TraffCounter: Cannot reload rules. Errors found.'') t)
      else Option.bind (ReadRules oob aton fn fl' False rul (FreeRules t))
        (\<lambda>(_, s). Some (0, emit (Log ''TraffCounter: Reloaded rules successfully.'') s))) = Some (rc, s')"
    by (auto simp: Reload_def bind_eq_Some_conv)
  have i: "tc_inv now t" by (rule ReadRules_inv [OF t assms(2)])
  then have "tc_inv now (FreeRules t)" by (simp add: FreeRules_def tc_inv_def)
  then show ?thesis using i r ReadRules_inv by (cases err) (auto simp: bind_eq_Some_conv)
qed

lemma notify_inv [simp]:
  "tc_inv now (SetUserNotifiers i s) = tc_inv now s" "tc_inv now (UnSetUserNotifiers i s) = tc_inv now s"
  "tc_inv now (enqueue t s) = tc_inv now s" "tc_inv now (notify_ip_change i a b s) = tc_inv now s"
  "tc_inv now (fold (\<lambda>u. SetUserNotifiers (u_id u)) vs s) = tc_inv now s"
proof -
  show e: "tc_inv now (enqueue t s) = tc_inv now s" for t s by (simp add: enqueue_def)
  show n: "tc_inv now (SetUserNotifiers i s) = tc_inv now s" for i s by (simp add: SetUserNotifiers_def)
  show "tc_inv now (UnSetUserNotifiers i s) = tc_inv now s" by (simp add: UnSetUserNotifiers_def)
  have "tc_inv now (beforeIPChange a s) = tc_inv now s" "tc_inv now (afterIPChange i b s) = tc_inv now s" for s
    by (simp_all add: beforeIPChange_def afterIPChange_def e)
  then have "tc_inv now ((beforeIPChange a ^^ n) s) = tc_inv now s" "tc_inv now ((afterIPChange i b ^^ n) s) = tc_inv now s" for n s
    by (induction n) simp_all
  then show "tc_inv now (notify_ip_change i a b s) = tc_inv now s" by (simp add: notify_ip_change_def Let_def)
  show "tc_inv now (fold (\<lambda>u. SetUserNotifiers (u_id u)) vs s) = tc_inv now s"
    by (induction vs arbitrary: s) (simp_all add: n)
qed

lemma SetMonitorDir_inv: "tc_inv now (SetMonitorDir dir s) = tc_inv now s"
  by (simp add: SetMonitorDir_def tc_inv_def)

text \<open>The states of a counter as time goes on, whatever happens to the registry of users between its calls.\<close>

inductive counter_reach :: "int \<Rightarrow> traffcounter \<Rightarrow> bool" where
  cr_init: "counter_reach (e_stgTime E) (TraffCounterImpl E tr)"
| cr_later: "counter_reach now s \<Longrightarrow> now \<le> now' \<Longrightarrow> counter_reach now' s"
| cr_process: "counter_reach (e_stgTime E) s \<Longrightarrow> GetProto p \<noteq> 0 \<Longrightarrow> process E p (s, us) = Some (s', us') \<Longrightarrow>
    counter_reach (e_stgTime E) s'"
| cr_start: "counter_reach (e_stgTime E) s \<Longrightarrow> TraffCounter_Start E oob aton fn fl rul (s, us) = Some (rc, s', us') \<Longrightarrow>
    counter_reach (e_stgTime E) s'"
| cr_begin: "counter_reach now s \<Longrightarrow> counter_reach now (Run_begin s)"
| cr_turn: "counter_reach (e_stgTime E) s \<Longrightarrow> TraffCounter_Run_turn E ct (s, us) = Some (ct', s', us') \<Longrightarrow>
    counter_reach (e_stgTime E) s'"
| cr_stop: "counter_reach (e_stgTime E) s \<Longrightarrow> TraffCounter_Stop E joins (s, us) = Some (rc, s', us') \<Longrightarrow>
    counter_reach (e_stgTime E) s'"
| cr_reload: "counter_reach now s \<Longrightarrow> Reload oob aton fn fl fl' rul s = Some (rc, s') \<Longrightarrow> counter_reach now s'"
| cr_pool: "counter_reach (e_stgTime E) s \<Longrightarrow> AsyncPool_turn E (s, us) = Some (s', us') \<Longrightarrow> counter_reach (e_stgTime E) s'"
| cr_add: "counter_reach now s \<Longrightarrow> counter_reach now (onUserAdd i s)"
| cr_del: "counter_reach now s \<Longrightarrow> counter_reach now (onUserDel i s)"
| cr_ip: "counter_reach now s \<Longrightarrow> counter_reach now (notify_ip_change i a b s)"
| cr_monitor: "counter_reach now s \<Longrightarrow> counter_reach now (SetMonitorDir dir s)"

lemma flush_now: "FlushAndRemove E (s, us) = Some (s', us') \<Longrightarrow> tc_inv (e_stgTime E) s \<Longrightarrow> tc_inv (e_stgTime E) s'"
  using FlushAndRemove_inv [OF _ order_refl] by blast

lemma counter_reach_inv: "counter_reach now s \<Longrightarrow> tc_inv now s"
proof (induction rule: counter_reach.induct)
  case (cr_init E tr)
  show ?case by (simp add: tc_inv_def TraffCounterImpl_def keys_ok_def index_of_packets_def)
next
  case (cr_start E s oob aton fn fl rul us rc s' us')
  from cr_start(2,3) show ?case
    by (auto simp: TraffCounter_Start_def bind_eq_Some_conv split: if_splits dest: ReadRules_inv)
next
  case (cr_turn E s ct us ct' s' us')
  from cr_turn(2,3) show ?case
    by (auto simp: TraffCounter_Run_turn_def Let_def case_prod_beta split: if_splits dest: flush_now)
next
  case (cr_stop E s joins us rc s' us')
  from cr_stop(2,3) show ?case
    by (auto simp: TraffCounter_Stop_def Run_end_def Let_def bind_eq_Some_conv split: if_splits dest!: flush_now)
next
  case (cr_pool E s us s' us')
  from cr_pool(2,3) show ?case
    by (auto simp: AsyncPool_turn_def run_task_def bind_eq_Some_conv split: list.splits task.splits
        dest!: AddUser_inv DelUser_spec [rotated])
next
  case (cr_process E s p us s' us')
  then show ?case using process_inv [OF _ order_refl] by blast
next
  case (cr_reload now s oob aton fn fl fl' rul rc s')
  then show ?case using Reload_inv by blast
qed (simp_all add: tc_inv_later Run_begin_def onUserAdd_def onUserDel_def SetMonitorDir_inv)

end
