(* ===== verification/Stg_Flow.thy ===== *)
theory Stg_Flow
  imports Stg_Traffic
begin

text \<open>
  The traffic counter with the registry of users: every byte it collects for a connected user reaches the
  counters of that user once, and the bytes that are pending when a user logs out never do.
\<close>

subsection \<open>Calls that return\<close>

definition reachable_user :: "users \<Rightarrow> int option \<Rightarrow> bool" where
  "reachable_user us i \<longleftrightarrow> (\<exists>k u. i = Some k \<and> user_at k us = Some u \<and> \<not> u_locked u)"

definition users_present :: "users \<Rightarrow> (raw_packet \<times> extra_data) list \<Rightarrow> bool" where
  "users_present us ps \<longleftrightarrow> list_all (\<lambda>(p, d). (pe_userUPresent d \<longrightarrow> reachable_user us (pe_userU d))
     \<and> (pe_userDPresent d \<longrightarrow> reachable_user us (pe_userD d))) ps"

fun report_user :: "report \<Rightarrow> int" where
  "report_user (Up i dir ip len) = i"
| "report_user (Down i dir ip len) = i"

lemma AddTraffStat_unlocked:
  assumes "\<not> u_locked u"
  shows "\<exists>v. AddTraffStatU E dir ip len u = Some ((), v) \<and> \<not> u_locked v"
    "\<exists>v. AddTraffStatD E dir ip len u = Some ((), v) \<and> \<not> u_locked v"
  unfolding AddTraffStatU_def AddTraffStatD_def with_lock_total [OF assms] by simp_all

lemma on_user_total:
  fixes f :: "env \<Rightarrow> user \<Rightarrow> (unit \<times> user) option"
  assumes u: "user_at i us = Some u" "\<not> u_locked u"
    and f: "\<And>E u. \<not> u_locked u \<Longrightarrow> \<exists>v. f E u = Some ((), v) \<and> \<not> u_locked v"
    and same: "\<And>E u v. f E u = Some ((), v) \<Longrightarrow> same_user u v"
  shows "\<exists>us'. on_user E f i us = Some ((), us') \<and> (\<forall>j. reachable_user us j \<longrightarrow> reachable_user us' j)"
proof -
  obtain v where v: "f (env_in E us) (u\<lparr>trace := trace us\<rparr>) = Some ((), v)" "\<not> u_locked v"
    using f [of "u\<lparr>trace := trace us\<rparr>" "env_in E us"] u(2) by auto
  then obtain us' where o: "on_user E f i us = Some ((), us')" using u(1) by (auto simp: on_user_def)
  from o same obtain a b where "user_at i us = Some a" "f (env_in E us) (a\<lparr>trace := trace us\<rparr>) = Some ((), b)"
    and up: "upd_user i (b\<lparr>trace := []\<rparr>) us us'" by (rule on_user_upd)
  then have "b = v" using u(1) v(1) by simp
  have "reachable_user us' j" if j: "reachable_user us j" for j
  proof -
    obtain k w where k: "j = Some k" "user_at k us = Some w" "\<not> u_locked w" using j by (auto simp: reachable_user_def)
    then show ?thesis using up v(2) \<open>b = v\<close> by (cases "k = i") (auto simp: reachable_user_def upd_user_def)
  qed
  then show ?thesis using o by blast
qed

lemma apply_report_total:
  assumes "reachable_user us (Some (report_user r))"
  shows "\<exists>us'. apply_report E r us = Some us' \<and> (\<forall>i. reachable_user us i \<longrightarrow> reachable_user us' i)"
proof -
  obtain u where u: "user_at (report_user r) us = Some u" "\<not> u_locked u" using assms by (auto simp: reachable_user_def)
  have s: "same_user u v" if "framed_call g" "g u = Some ((), v)" for g :: "user \<Rightarrow> (unit \<times> user) option" and u v
    using framed_callD [OF that] by (rule frame_same)
  show ?thesis
  proof (cases r)
    case (Up i dir ip len)
    then show ?thesis
      using on_user_total [where f = "\<lambda>E. AddTraffStatU E dir ip len", OF u AddTraffStat_unlocked(1) s [OF framed_AddTraffStat(1)]]
      by fastforce
  next
    case (Down i dir ip len)
    then show ?thesis
      using on_user_total [where f = "\<lambda>E. AddTraffStatD E dir ip len", OF u AddTraffStat_unlocked(2) s [OF framed_AddTraffStat(2)]]
      by fastforce
  qed
qed

lemma flush_reports_users:
  assumes "users_present us ps" and "list_all (\<lambda>e. entry_ok (snd e)) ps"
  shows "\<forall>r\<in>set (concat (map (flush_reports E) ps)). reachable_user us (Some (report_user r))"
  using assms
  by (fastforce simp: users_present_def list_all_iff flush_reports_def up_reports_def down_reports_def entry_ok_def
      split: if_splits)

lemma map_find_key: "packets_ok ps \<Longrightarrow> p \<in> fst ` set ps \<Longrightarrow> \<exists>d. map_find RawPacket_less p ps = Some d"
  using find_mem by force

lemma users_present_change:
  assumes "users_present us ps" and "map_find RawPacket_less p ps = Some d"
    and "\<And>i. reachable_user us i \<Longrightarrow> reachable_user us' i"
  shows "users_present us' (map_change RawPacket_less p (\<lambda>_. del_entry uip p d) ps)"
proof -
  let ?P = "\<lambda>us d. (pe_userUPresent d \<longrightarrow> reachable_user us (pe_userU d)) \<and> (pe_userDPresent d \<longrightarrow> reachable_user us (pe_userD d))"
  have a: "list_all (\<lambda>e. ?P us (snd e)) ps" using assms(1) by (auto simp: users_present_def list_all_iff)
  then have "?P us d" using map_find_mem [OF assms(2)] by (force simp: list_all_iff)
  then have "?P us' (del_entry uip p d)" using assms(3) by (auto simp: del_entry_def)
  moreover have "list_all (\<lambda>e. ?P us' (snd e)) ps" using a assms(3) by (auto simp: list_all_iff)
  ultimately have "list_all (\<lambda>e. ?P us' (snd e)) (map_change RawPacket_less p (\<lambda>_. del_entry uip p d) ps)"
    by (intro change_all) simp_all
  then show ?thesis by (auto simp: users_present_def list_all_iff)
qed

lemma apply_reports_reach:
  "\<forall>r\<in>set rs. reachable_user us (Some (report_user r)) \<Longrightarrow>
    \<exists>us'. apply_reports E rs us = Some us' \<and> (\<forall>i. reachable_user us i \<longrightarrow> reachable_user us' i)"
proof (induction rs arbitrary: us)
  case (Cons r rs)
  then obtain us1 where 1: "apply_report E r us = Some us1" "\<forall>i. reachable_user us i \<longrightarrow> reachable_user us1 i"
    using apply_report_total [of us r E] by auto
  moreover obtain us' where "apply_reports E rs us1 = Some us'" "\<forall>i. reachable_user us1 i \<longrightarrow> reachable_user us' i"
    using Cons.IH [of us1] Cons.prems 1(2) by auto
  ultimately show ?case by simp
qed simp

lemma DelUser_loop_total:
  "packets_ok ps \<Longrightarrow> list_all (\<lambda>e. entry_ok (snd e)) ps \<Longrightarrow> set rest \<subseteq> fst ` set ps \<Longrightarrow> users_present us ps \<Longrightarrow>
    \<exists>r. DelUser_loop E uip rest ps us = Some r"
proof (induction rest arbitrary: ps us)
  case (Cons p rest)
  obtain d where f: "map_find RawPacket_less p ps = Some d" using map_find_key [OF Cons.prems(1)] Cons.prems(3) by auto
  obtain a where a: "(a, d) \<in> set ps" using map_find_mem [OF f] by blast
  then have ok: "entry_ok d" using Cons.prems(2) by (auto simp: list_all_iff)
  have "\<forall>r\<in>set (del_reports uip p d). reachable_user us (Some (report_user r))"
    using a ok Cons.prems(4)
    by (fastforce simp: del_reports_def up_reports_def down_reports_def users_present_def list_all_iff entry_ok_def split: if_splits)
  then obtain us1 where r: "apply_reports E (del_reports uip p d) us = Some us1" "\<forall>i. reachable_user us i \<longrightarrow> reachable_user us1 i"
    using apply_reports_reach by blast
  let ?ps = "map_change RawPacket_less p (\<lambda>_. del_entry uip p d) ps"
  have "entry_ok (del_entry uip p d)" using ok by (simp add: entry_ok_def del_entry_def)
  then have "list_all (\<lambda>e. entry_ok (snd e)) ?ps" using Cons.prems(2) by (auto intro!: change_all)
  moreover have "fst ` set ?ps = fst ` set ps" using pk.change_keys by (metis list.set_map)
  moreover have "users_present us1 ?ps" using users_present_change [OF Cons.prems(4) f] r(2) by blast
  ultimately obtain x where "DelUser_loop E uip rest ?ps us1 = Some x"
    using Cons.IH [of ?ps us1] Cons.prems(1,3) by auto
  then show ?case using f r(1) by (simp add: del_user_packet_eq [OF ok])
qed simp

lemma DelUser_total:
  assumes "tc_inv now s" and "users_present us (tc_packets s)"
  shows "\<exists>s' us'. DelUser E uip (s, us) = Some (s', us')"
proof -
  have "set (equal_range uip (tc_ip2packets s)) \<subseteq> fst ` set (tc_packets s)"
    using assms(1) by (auto simp: equal_range_mem tc_inv_def index_of_packets_def)
  then obtain r where "DelUser_loop E uip (equal_range uip (tc_ip2packets s)) (tc_packets s) us = Some r"
    using DelUser_loop_total [OF tc_invD(1,2) [OF assms(1)] _ assms(2)] by blast
  then show ?thesis by (cases r) (simp add: DelUser_def)
qed

lemma conserved_counts:
  assumes "conserved E ps us ps' us'" and "user_at i us = Some u" and "counting E u"
  shows "\<exists>v. user_at i us' = Some v \<and> counting E v \<and> (\<forall>dir<DIR_NUM.
      up_traff v ! dir + of_nat (pending_up i dir ps') = up_traff u ! dir + of_nat (pending_up i dir ps)
    \<and> down_traff v ! dir + of_nat (pending_down i dir ps') = down_traff u ! dir + of_nat (pending_down i dir ps))"
proof -
  obtain rs where r: "apply_reports E rs us = Some us'" and c: "\<And>dir. dir < DIR_NUM \<Longrightarrow>
      pending_up i dir ps = reported_up i dir rs + pending_up i dir ps'
    \<and> pending_down i dir ps = reported_down i dir rs + pending_down i dir ps'"
    using assms(1) unfolding conserved_def by metis
  obtain v where "user_at i us' = Some v" "counted E u v (\<lambda>dir. reported_up i dir rs) (\<lambda>dir. reported_down i dir rs)"
    using apply_reports_counted [OF assms(2,3) r] by blast
  then show ?thesis using c by (auto simp: counted_def)
qed

subsection \<open>Properties\<close>



text \<open>When a user gives up an address and the users of all entries are in the registry, the counter reports what is pending for the entries of that address, and
  afterwards no entry counts for a user of that address. What connected users gain is what is no longer
  pending.\<close>

theorem del_user_reports:
  assumes "counter_reach now s" and "users_present us (tc_packets s)"
    and "user_at i us = Some u" and "counting E u"
  shows "\<exists>s' us' v. DelUser E ip (s, us) = Some (s', us') \<and> user_at i us' = Some v
    \<and> (\<forall>(p, d)\<in>set (tc_packets s'). (GetSrcIP p = ip \<longrightarrow> \<not> pe_userUPresent d) \<and> (GetDstIP p = ip \<longrightarrow> \<not> pe_userDPresent d))
    \<and> (\<forall>dir<DIR_NUM.
        up_traff v ! dir + of_nat (pending_up i dir (tc_packets s')) = up_traff u ! dir + of_nat (pending_up i dir (tc_packets s))
      \<and> down_traff v ! dir + of_nat (pending_down i dir (tc_packets s'))
          = down_traff u ! dir + of_nat (pending_down i dir (tc_packets s)))"
proof -
  have inv: "tc_inv now s" by (rule counter_reach_inv [OF assms(1)])
  obtain s' us' where t: "DelUser E ip (s, us) = Some (s', us')" using DelUser_total [OF inv assms(2)] by blast
  note d = DelUser_spec [OF inv t]
  then have "conserved E (tc_packets s) us (tc_packets s') us'" by blast
  then obtain v where "user_at i us' = Some v" "\<forall>dir<DIR_NUM.
      up_traff v ! dir + of_nat (pending_up i dir (tc_packets s')) = up_traff u ! dir + of_nat (pending_up i dir (tc_packets s))
    \<and> down_traff v ! dir + of_nat (pending_down i dir (tc_packets s')) = down_traff u ! dir + of_nat (pending_down i dir (tc_packets s))"
    using conserved_counts [OF _ assms(3,4)] by blast
  then show ?thesis using t d by (intro exI [of _ s'] exI [of _ us'] exI [of _ v]) (auto simp: list_all_iff cleared_def)
qed

text \<open>The entry a packet is counted in, and for whom.\<close>

definition counted_for_up :: "traffcounter \<Rightarrow> users \<Rightarrow> raw_packet \<Rightarrow> int \<Rightarrow> nat \<Rightarrow> bool" where
  "counted_for_up s us p i dir = (case map_find RawPacket_less p (tc_packets s) of
     Some d \<Rightarrow> pe_userUPresent d \<and> pe_userU d = Some i \<and> pe_dirU d = int dir
   | None \<Rightarrow> us_ipIndex us (GetSrcIP p) = Some i
       \<and> first_dir (rule_matches (GetProto p) (GetDstIP p) (GetDstPort p)) (tc_rules s) = int dir)"

definition counted_for_down :: "traffcounter \<Rightarrow> users \<Rightarrow> raw_packet \<Rightarrow> int \<Rightarrow> nat \<Rightarrow> bool" where
  "counted_for_down s us p i dir = (case map_find RawPacket_less p (tc_packets s) of
     Some d \<Rightarrow> pe_userDPresent d \<and> pe_userD d = Some i \<and> pe_dirD d = int dir
   | None \<Rightarrow> us_ipIndex us (GetDstIP p) = Some i
       \<and> first_dir (rule_matches (GetProto p) (GetSrcIP p) (GetSrcPort p)) (tc_rules s) = int dir)"

lemma pending_insert:
  assumes "packets_ok ps" and "GetProto p \<noteq> 0" and "map_find RawPacket_less p ps = None"
  shows "pending_up i dir (map_insert RawPacket_less p d ps) = pending_up i dir ps + pending_up i dir [(p, d)]"
    "pending_down i dir (map_insert RawPacket_less p d ps) = pending_down i dir ps + pending_down i dir [(p, d)]"
proof -
  obtain as bs where "ps = as @ bs" "map_insert RawPacket_less p d ps = as @ (p, d) # bs"
    using pk.insert_split [OF assms(1) _ assms(3)] assms(2) by blast
  then show "pending_up i dir (map_insert RawPacket_less p d ps) = pending_up i dir ps + pending_up i dir [(p, d)]"
    "pending_down i dir (map_insert RawPacket_less p d ps) = pending_down i dir ps + pending_down i dir [(p, d)]"
    by (simp_all add: pending_append pending_Cons [of i dir "(p, d)" bs])
qed

lemma unat_sum: "unat (a :: u32) + unat b < 2 ^ 32 \<Longrightarrow> unat (a + b) = unat a + unat b"
  by (subst unat_add_lem [THEN iffD1]) simp_all

text \<open>A packet adds its length to the bytes pending for the user of its source address in the direction the
  rules give (upload) and for the user of its destination address (download), and to nothing else; the two sides of
  a flow that is already known stay as they were decided with its first packet. The sums of a flow must
  stay below 32 bits.\<close>

theorem process_counts:
  assumes "counter_reach now s" and "GetProto p \<noteq> 0" and "process E p (s, us) = Some (s', us')"
    and "\<And>d. map_find RawPacket_less p (tc_packets s) = Some d \<Longrightarrow>
      unat (pe_lenU d) + unat (GetLen p) < 2 ^ 32 \<and> unat (pe_lenD d) + unat (GetLen p) < 2 ^ 32"
  shows "pending_up i dir (tc_packets s') =
      pending_up i dir (tc_packets s) + (if counted_for_up s us p i dir then unat (GetLen p) else 0)
    \<and> pending_down i dir (tc_packets s') =
      pending_down i dir (tc_packets s) + (if counted_for_down s us p i dir then unat (GetLen p) else 0)"
proof (cases "map_find RawPacket_less p (tc_packets s)")
  case (Some d)
  let ?f = "\<lambda>d. d\<lparr>pe_lenU := pe_lenU d + GetLen p, pe_lenD := pe_lenD d + GetLen p, pe_updateTime := e_stgTime E\<rparr>"
  have s': "tc_packets s' = map_change RawPacket_less p ?f (tc_packets s)"
    using assms(3) process_known [OF Some, of E us] by auto
  have ok: "packets_ok (tc_packets s)" using counter_reach_inv [OF assms(1)] by (simp add: tc_inv_def)
  have l: "unat (pe_lenU d + GetLen p) = unat (pe_lenU d) + unat (GetLen p)"
    "unat (pe_lenD d + GetLen p) = unat (pe_lenD d) + unat (GetLen p)"
    using assms(4) [OF Some] by (simp_all add: unat_sum)
  have e: "pending_up i dir [(a, ?f d)] = pending_up i dir [(a, d)] + (if counted_for_up s us p i dir then unat (GetLen p) else 0)"
    "pending_down i dir [(a, ?f d)] = pending_down i dir [(a, d)] + (if counted_for_down s us p i dir then unat (GetLen p) else 0)" for a
    using l Some by (auto simp: pending_up_def pending_down_def counted_for_up_def counted_for_down_def)
  show ?thesis using pending_change [OF ok assms(2) Some, of i dir ?f] e s' by auto
next
  case None
  let ?e = "new_entry E (tc_rules s) (us_ipIndex us) p"
  have ok: "packets_ok (tc_packets s)" using counter_reach_inv [OF assms(1)] by (simp add: tc_inv_def)
  have e: "pending_up i dir [(p, ?e)] = (if counted_for_up s us p i dir then unat (GetLen p) else 0)"
    "pending_down i dir [(p, ?e)] = (if counted_for_down s us p i dir then unat (GetLen p) else 0)"
    using None by (auto simp: pending_up_def pending_down_def counted_for_up_def counted_for_down_def new_entry_def
        DeterminateDir_eq Let_def)
  show ?thesis
  proof (cases "us_ipIndex us (GetSrcIP p) = None \<and> us_ipIndex us (GetDstIP p) = None")
    case True
    then show ?thesis using process_unknown [OF None assms(3)] None by (simp add: counted_for_up_def counted_for_down_def)
  next
    case False
    then have "tc_packets s' = map_insert RawPacket_less p ?e (tc_packets s)"
      using process_unknown [OF None assms(3)] by auto
    then show ?thesis using pending_insert [OF ok assms(2) None, of i dir ?e] e by simp
  qed
qed

subsection \<open>Logging out\<close>

lemma AddTraffStat_body_offline:
  "\<not> u_connected u \<Longrightarrow> AddTraffStatU_body E dir ip len u = u" "\<not> u_connected u \<Longrightarrow> AddTraffStatD_body E dir ip len u = u"
  by (simp_all add: AddTraffStatU_body_def AddTraffStatD_body_def split: option.split)

lemma with_lock_offline:
  assumes "with_lock E (\<lambda>u. Some ((), f u)) u = Some (y, v)" and "\<not> u_connected u" and "\<And>u. \<not> u_connected u \<Longrightarrow> f u = u"
  shows "u_stat v = u_stat u \<and> \<not> u_connected v"
  using assms(1,2) assms(3) [of "u\<lparr>u_locked := True\<rparr>"] assms(3) [of u]
  by (auto simp: with_lock_def split: if_splits)

lemma AddTraffStat_offline:
  assumes "\<not> u_connected u"
  shows "AddTraffStatU E dir ip len u = Some (y, v) \<Longrightarrow> u_stat v = u_stat u \<and> \<not> u_connected v"
    "AddTraffStatD E dir ip len u = Some (y, v) \<Longrightarrow> u_stat v = u_stat u \<and> \<not> u_connected v"
  unfolding AddTraffStatU_def AddTraffStatD_def
  using assms AddTraffStat_body_offline by (blast dest: with_lock_offline)+

lemma apply_report_offline:
  assumes "user_at i us = Some u" and "\<not> u_connected u" and "apply_report E r us = Some us'"
  shows "\<exists>v. user_at i us' = Some v \<and> \<not> u_connected v \<and> u_stat v = u_stat u"
proof (cases r)
  case (Up j k ip len)
  with assms(3) obtain y where "on_user E (\<lambda>E. AddTraffStatU E k ip len) j us = Some (y, us')" by auto
  then show ?thesis
  proof (cases rule: on_user_call [OF _ framed_AddTraffStat(1) assms(1), consumes 1, case_names 1 2])
    case 1
    then show ?thesis using assms(2) by simp
  next
    case (2 v)
    have "\<not> u_connected (u\<lparr>trace := trace us\<rparr>)" using assms(2) by simp
    from AddTraffStat_offline(1) [OF this 2(2)] show ?thesis using 2(3) by simp
  qed
next
  case (Down j k ip len)
  with assms(3) obtain y where "on_user E (\<lambda>E. AddTraffStatD E k ip len) j us = Some (y, us')" by auto
  then show ?thesis
  proof (cases rule: on_user_call [OF _ framed_AddTraffStat(2) assms(1), consumes 1, case_names 1 2])
    case 1
    then show ?thesis using assms(2) by simp
  next
    case (2 v)
    have "\<not> u_connected (u\<lparr>trace := trace us\<rparr>)" using assms(2) by simp
    from AddTraffStat_offline(2) [OF this 2(2)] show ?thesis using 2(3) by simp
  qed
qed

lemma apply_reports_offline:
  "user_at i us = Some u \<Longrightarrow> \<not> u_connected u \<Longrightarrow> apply_reports E rs us = Some us' \<Longrightarrow>
    \<exists>v. user_at i us' = Some v \<and> \<not> u_connected v \<and> u_stat v = u_stat u"
proof (induction rs arbitrary: us u)
  case (Cons r rs)
  then obtain us1 where 1: "apply_report E r us = Some us1" "apply_reports E rs us1 = Some us'"
    by (auto simp: bind_eq_Some_conv)
  then show ?case using apply_report_offline [OF Cons.prems(1,2) 1(1)] Cons.IH by metis
qed simp

lemma Unauthorize_last:
  assumes "u_authorizedBy u = [auth]" and "u_currIP u \<noteq> 0" and "Unauthorize E auth reason u = Some (y, v)"
  shows "u_stat v = u_stat u \<and> \<not> u_connected v"
proof -
  have "u_stat (Unauthorize_body E auth reason w) = u_stat w \<and> \<not> u_connected (Unauthorize_body E auth reason w)"
    if "u_authorizedBy w = [auth]" "u_currIP w \<noteq> 0" for w
  proof -
    define b where "b = w\<lparr>u_authorizedBy := [], u_authorizedModificationTime := e_stgTime E,
        u_lastDisconnectReason := reason, u_lastIPForDisconnect := u_currIP w\<rparr>"
    have e: "Unauthorize_body E auth reason w =
        (if u_connected (set_currIP E 0 b) then Disconnect E False ''not authorized'' (set_currIP E 0 b) else set_currIP E 0 b)"
      using that(1) by (simp add: Unauthorize_body_def b_def Let_def)
    have c: "u_stat (set_currIP E 0 b) = u_stat w" "u_lastIPForDisconnect (set_currIP E 0 b) = u_currIP w"
      by (simp_all add: set_currIP_def ModifyTime_def emit_def b_def)
    show ?thesis using c that(2) by (simp add: e)
  qed
  then show ?thesis using assms unfolding Unauthorize_def by (auto elim!: with_lock_SomeE)
qed

lemma user_at_locked [simp]: "user_at i (us\<lparr>us_locked := b\<rparr>) = user_at i us"
  by (simp add: user_at_def)

lemma Users_Unauthorize_user:
  assumes "\<not> us_locked us" and "us_loginIndex us login = Some i" and "user_at i us = Some u"
    and "u_authorizedBy u = [auth]" and "u_currIP u \<noteq> 0" and "Users_Unauthorize E login auth reason us = Some (ok, us')"
  shows "\<exists>v. user_at i us' = Some v \<and> u_stat v = u_stat u \<and> \<not> u_connected v"
proof -
  let ?us = "us\<lparr>us_locked := True\<rparr>"
  obtain t where b: "Users_Unauthorize_body E login auth reason ?us = Some (ok, t)" and us': "us' = t\<lparr>us_locked := False\<rparr>"
    using assms(1,6) by (auto simp: Users_Unauthorize_def users_locked_def)
  from b obtain y t1 v t2 where o: "on_user E (\<lambda>E. Unauthorize E auth reason) i ?us = Some (y, t1)"
    and v: "user_at i t1 = Some v" and t: "t = t1 \<or> DelFromIPIdx E (u_currIP u) t1 = Some (t2, t)"
    using assms(2,3) by (auto simp: Users_Unauthorize_body_def FindByNameNonLock_def bind_eq_Some_conv split: if_splits)
  have f: "user_at i t = user_at i t1"
    using t by (auto simp: DelFromIPIdx_def users_locked_def user_at_def split: if_splits)
  have same: "same_user a b" if "Unauthorize (env_in E ?us) auth reason a = Some (y, b)" for a b
    using Unauthorize_cases [OF that] by blast
  from o same obtain a b where a: "user_at i ?us = Some a" "Unauthorize (env_in E ?us) auth reason (a\<lparr>trace := trace ?us\<rparr>) = Some (y, b)"
    "upd_user i (b\<lparr>trace := []\<rparr>) ?us t1" by (rule on_user_upd)
  have "a = u" using a(1) assms(3) by simp
  then have "u_stat b = u_stat u \<and> \<not> u_connected b"
    using Unauthorize_last [OF _ _ a(2)] assms(4,5) by simp
  then show ?thesis using a(3) by (simp add: us' f upd_user_def)
qed


subsection \<open>A run\<close>

text \<open>A user on 10.0.0.1 sends 100 bytes to port 80 of 10.0.0.2 under the rules of \<open>sample_file\<close>.\<close>

definition sample_flow_env :: env where
  "sample_flow_env = sample_tariff_env\<lparr>e_relock_blocks := False\<rparr>"

definition sample_flow_user :: user where
  "sample_flow_user = sample_online\<lparr>u_currIP := 0x0100000A, u_lastIPForDisconnect := 0x0100000A\<rparr>"

definition sample_flow_users :: users where
  "sample_flow_users = (UsersImpl [])\<lparr>us_users := [sample_flow_user], us_ipIndex := [0x0100000A \<mapsto> 0],
     us_loginIndex := [''u'' \<mapsto> 0], us_idGen := 1\<rparr>"

definition sample_flow_counter :: traffcounter where
  "sample_flow_counter = (case Reload False (\<lambda>t. Some (quad_addr t)) ''rules'' (Some sample_file) (Some sample_file) last_rule
       (TraffCounterImpl sample_flow_env []) of Some (_, t) \<Rightarrow> t | None \<Rightarrow> TraffCounterImpl sample_flow_env [])"

lemma sample_time: "e_stgTime sample_flow_env = 1000000"
  by (simp add: sample_flow_env_def sample_tariff_env_def sample_env_def)

lemma TraffCounterImpl_eval: "TraffCounterImpl sample_flow_env [] = sample_counter\<lparr>tc_touchTimeP := 999940\<rparr>"
  by (simp add: TraffCounterImpl_def sample_counter_def sample_time MONITOR_TIME_DELAY_SEC_def)

lemma sample_flow_reload:
  "map_option (\<lambda>(rc, t). (rc, tc_rules t, tc_packets t, tc_ip2packets t))
     (Reload False (\<lambda>t. Some (quad_addr t)) ''rules'' (Some sample_file) (Some sample_file) last_rule
       (sample_counter\<lparr>tc_touchTimeP := 999940\<rparr>))
   = Some (0, [\<lparr>ru_ip = 10, ru_mask = 0xFF, ru_port1 = 80, ru_port2 = 80, ru_proto = 0, ru_dir = 1\<rparr>,
        \<lparr>ru_ip = 0, ru_mask = 0, ru_port1 = 0, ru_port2 = 65535, ru_proto = 4, ru_dir = 0\<rparr>, last_rule], [], [])"
  by code_simp

lemma sample_flow_counter:
  "counter_reach 1000000 sample_flow_counter" "tc_packets sample_flow_counter = []"
  "tc_rules sample_flow_counter = [\<lparr>ru_ip = 10, ru_mask = 0xFF, ru_port1 = 80, ru_port2 = 80, ru_proto = 0, ru_dir = 1\<rparr>,
        \<lparr>ru_ip = 0, ru_mask = 0, ru_port1 = 0, ru_port2 = 65535, ru_proto = 4, ru_dir = 0\<rparr>, last_rule]"
proof -
  obtain t where t: "Reload False (\<lambda>t. Some (quad_addr t)) ''rules'' (Some sample_file) (Some sample_file) last_rule
       (TraffCounterImpl sample_flow_env []) = Some (0, t)" "tc_packets t = []"
     "tc_rules t = [\<lparr>ru_ip = 10, ru_mask = 0xFF, ru_port1 = 80, ru_port2 = 80, ru_proto = 0, ru_dir = 1\<rparr>,
        \<lparr>ru_ip = 0, ru_mask = 0, ru_port1 = 0, ru_port2 = 65535, ru_proto = 4, ru_dir = 0\<rparr>, last_rule]"
    using sample_flow_reload unfolding TraffCounterImpl_eval by auto
  have "counter_reach 1000000 t" using cr_reload [OF cr_init t(1)] by (simp add: sample_time)
  then show "counter_reach 1000000 sample_flow_counter" "tc_packets sample_flow_counter = []"
    "tc_rules sample_flow_counter = [\<lparr>ru_ip = 10, ru_mask = 0xFF, ru_port1 = 80, ru_port2 = 80, ru_proto = 0, ru_dir = 1\<rparr>,
        \<lparr>ru_ip = 0, ru_mask = 0, ru_port1 = 0, ru_port2 = 65535, ru_proto = 4, ru_dir = 0\<rparr>, last_rule]"
    using t by (simp_all add: sample_flow_counter_def)
qed

lemma sample_process:
  "\<exists>s. process sample_flow_env (sample_packet 6 7) (sample_flow_counter, sample_flow_users) = Some (s, sample_flow_users)"
  using sample_flow_counter(2)
  by (simp add: process_def process_new_def Let_def FindByIPIdx_def users_locked_def sample_flow_users_def UsersImpl_def
      PacketExtraData_def)

lemma sample_ports: "GetDstPort (sample_packet 6 7) = 80" "GetSrcPort (sample_packet 6 7) = 7"
  by (simp_all add: GetDstPort_def GetSrcPort_def ntohs_def)

theorem process_counts_witness:
  "\<exists>s. process sample_flow_env (sample_packet 6 7) (sample_flow_counter, sample_flow_users) = Some (s, sample_flow_users)
     \<and> pending_up 0 1 (tc_packets s) = 100 \<and> pending_down 0 1 (tc_packets s) = 0"
proof -
  obtain s where s: "process sample_flow_env (sample_packet 6 7) (sample_flow_counter, sample_flow_users) = Some (s, sample_flow_users)"
    using sample_process by blast
  have u: "counted_for_up sample_flow_counter sample_flow_users (sample_packet 6 7) 0 1"
    by (simp add: counted_for_up_def sample_flow_counter sample_flow_users_def first_dir_def rule_matches_def port_match_def sample_ports)
  have d: "\<not> counted_for_down sample_flow_counter sample_flow_users (sample_packet 6 7) 0 1"
    by (simp add: counted_for_down_def sample_flow_counter sample_flow_users_def)
  show ?thesis
    using process_counts [OF sample_flow_counter(1) _ s, of 0 1] u d s
    by (simp add: sample_flow_counter(2))
qed

definition sample_flow_state :: traffcounter where
  "sample_flow_state = (case process sample_flow_env (sample_packet 6 7) (sample_flow_counter, sample_flow_users) of
     Some (s, _) \<Rightarrow> s | None \<Rightarrow> sample_flow_counter)"

lemma sample_flow_process:
  "process sample_flow_env (sample_packet 6 7) (sample_flow_counter, sample_flow_users) = Some (sample_flow_state, sample_flow_users)"
  using sample_process by (auto simp: sample_flow_state_def)

lemma sample_flow_reach: "counter_reach 1000000 sample_flow_state"
  using cr_process [of sample_flow_env sample_flow_counter "sample_packet 6 7"] sample_flow_process sample_flow_counter(1)
  by (simp add: sample_time)

lemma sample_flow_packets:
  "tc_packets sample_flow_state = [(sample_packet 6 7, \<lparr>pe_flushTime = 1000000, pe_updateTime = 1000000, pe_userU = Some 0,
     pe_userUPresent = True, pe_userD = None, pe_userDPresent = False, pe_dirU = 1, pe_dirD = 0, pe_lenU = 100, pe_lenD = 100\<rparr>)]"
proof -
  have "map_find RawPacket_less (sample_packet 6 7) (tc_packets sample_flow_counter) = None" by (simp add: sample_flow_counter)
  from arg_cong [OF process_unknown [OF this sample_flow_process], of tc_packets] show ?thesis
    by (simp add: sample_flow_counter new_entry_def sample_time sample_flow_users_def DeterminateDir_eq first_dir_def
        rule_matches_def port_match_def sample_ports)
qed

lemma sample_flow_user:
  "user_at 0 sample_flow_users = Some sample_flow_user" "counting sample_flow_env sample_flow_user"
  "\<not> us_locked sample_flow_users" "us_loginIndex sample_flow_users ''u'' = Some 0"
  "u_authorizedBy sample_flow_user = [1]" "u_currIP sample_flow_user = 0x0100000A" "\<not> u_locked sample_flow_user"
  "up_traff sample_flow_user = DirTraff" "us_ipIndex sample_flow_users = [0x0100000A \<mapsto> 0]"
  using sample_online sample_tariff_env
  by (simp_all add: user_at_def sample_flow_users_def sample_flow_user_def counting_def UsersImpl_def DirTraff_def
      tariff_of_def sample_flow_env_def sample_online_def sample_defs sample_tariff_env_def)

lemma sample_flow_present: "users_present sample_flow_users (tc_packets sample_flow_state)"
  by (simp add: users_present_def sample_flow_packets reachable_user_def sample_flow_user)


lemma sample_pending: "pending_up 0 1 (tc_packets sample_flow_state) = 100"
  by (simp add: pending_up_def sample_flow_packets)


theorem del_user_reports_witness:
  "\<exists>s' us' v. DelUser sample_flow_env 0x0100000A (sample_flow_state, sample_flow_users) = Some (s', us')
     \<and> user_at 0 us' = Some v \<and> up_traff v ! 1 + of_nat (pending_up 0 1 (tc_packets s')) = 100"
proof -
  obtain s' us' v where "DelUser sample_flow_env 0x0100000A (sample_flow_state, sample_flow_users) = Some (s', us')"
    "user_at 0 us' = Some v" and d: "\<forall>dir<DIR_NUM.
      up_traff v ! dir + of_nat (pending_up 0 dir (tc_packets s'))
        = up_traff sample_flow_user ! dir + of_nat (pending_up 0 dir (tc_packets sample_flow_state))
    \<and> down_traff v ! dir + of_nat (pending_down 0 dir (tc_packets s'))
        = down_traff sample_flow_user ! dir + of_nat (pending_down 0 dir (tc_packets sample_flow_state))"
    using del_user_reports [OF sample_flow_reach sample_flow_present sample_flow_user(1,2), where ip = "0x0100000A"] by blast
  moreover have "up_traff v ! 1 + of_nat (pending_up 0 1 (tc_packets s')) = 100"
    using d [rule_format, of 1] by (simp add: sample_flow_user sample_pending [unfolded One_nat_def] DirTraff_def DIR_NUM_def)
  ultimately show ?thesis by blast
qed

lemma sample_logout:
  "\<exists>us1. Users_Unauthorize sample_flow_env ''u'' 1 ''logout'' sample_flow_users = Some (True, us1)
     \<and> users_present us1 (tc_packets sample_flow_state)"
proof -
  let ?us = "sample_flow_users\<lparr>us_locked := True\<rparr>" and ?E = sample_flow_env
  have u: "user_at 0 ?us = Some sample_flow_user" using sample_flow_user(1) by simp
  have tot: "\<exists>v. Unauthorize E 1 ''logout'' w = Some ((), v) \<and> \<not> u_locked v" if "\<not> u_locked w" for E w
    unfolding Unauthorize_def with_lock_total [OF that] by simp
  have same: "same_user w v" if "Unauthorize E 1 ''logout'' w = Some ((), v)" for E w v
    using Unauthorize_cases [OF that] by blast
  obtain us1 where o: "on_user ?E (\<lambda>E. Unauthorize E 1 ''logout'') 0 ?us = Some ((), us1)"
    and r: "\<forall>j. reachable_user ?us j \<longrightarrow> reachable_user us1 j"
    using on_user_total [where f = "\<lambda>E. Unauthorize E 1 ''logout''" and E = ?E, OF u sample_flow_user(7)] tot same
    by (metis (no_types, lifting))
  have p: "reachable_user us1 (Some 0)" using r u sample_flow_user(7) by (auto simp: reachable_user_def)
  then obtain v where v: "user_at 0 us1 = Some v" by (auto simp: reachable_user_def)
  have l: "us_locked us1" using o by (auto simp: on_user_def bind_eq_Some_conv)
  define us2 where "us2 = (if u_authorizedBy v = [] then us1\<lparr>us_ipIndex := (us_ipIndex us1)(0x0100000A := None)\<rparr> else us1)"
  have b: "Users_Unauthorize_body ?E ''u'' 1 ''logout'' ?us = Some (True, us2)"
    using o v l sample_flow_user(1,4,6)
    by (simp add: Users_Unauthorize_body_def FindByNameNonLock_def us2_def DelFromIPIdx_def users_locked_def sample_flow_env_def)
  have at: "user_at j (us2\<lparr>us_locked := False\<rparr>) = user_at j us1" for j by (simp add: us2_def user_at_def)
  then have "reachable_user (us2\<lparr>us_locked := False\<rparr>) (Some 0)" using p by (simp add: reachable_user_def)
  then show ?thesis
    using b sample_flow_user(3) by (simp add: Users_Unauthorize_def users_locked_def users_present_def sample_flow_packets)
qed


end
