(* ===== verification/Stg_IAData.thy ===== *)
theory Stg_IAData
  imports Stg_Common Stg_Flow Stg_Blowfish
begin

text \<open>
  The data of the InetAccess protocol: points in time (\<open>include/stg/utime.h\<close>), the packets (\<open>include/stg/ia_packets.h\<close>) and the
  settings of the plugin (\<open>plugins/authorization/inetaccess/inetaccess.cpp\<close>). A packet is the list of its bytes; its
  fields are at the offsets a compiler for a little-endian machine with natural alignment gives them.
\<close>

subsection \<open>Time\<close>

record utime =
  tv_sec :: int
  tv_usec :: int

definition UTIME :: "int \<Rightarrow> int \<Rightarrow> utime" where
  "UTIME a b = \<lparr>tv_sec = a, tv_usec = b\<rparr>"

definition UTIME_greater :: "utime \<Rightarrow> utime \<Rightarrow> bool" where
  "UTIME_greater l r =
     (if tv_sec l > tv_sec r then True
      else if tv_sec l < tv_sec r then False
      else if tv_usec l > tv_usec r then True
      else False)"

definition UTIME_minus :: "utime \<Rightarrow> utime \<Rightarrow> utime" where
  "UTIME_minus l r =
     (let a = tv_sec l - tv_sec r; b = tv_usec l - tv_usec r
      in if a \<ge> 0
         then if b \<ge> 0 then UTIME a b else UTIME (a - 1) (b + 1000000)
         else if b \<ge> 0 then UTIME (a + 1) (1000000 - b) else UTIME a b)"

definition UTIME_AsDouble :: "utime \<Rightarrow> double" where
  "UTIME_AsDouble t = dadd (d_of_int (tv_sec t)) (dmul (d_of_int (tv_usec t)) (dbl (1 / 10 ^ 6)))"

definition usecs :: "utime \<Rightarrow> int" where
  "usecs t = tv_sec t * 1000000 + tv_usec t"

definition utime_ok :: "utime \<Rightarrow> bool" where
  "utime_ok t \<longleftrightarrow> 0 \<le> tv_usec t \<and> tv_usec t < 1000000"

text \<open>As long as time does not run backwards, differences are right.\<close>

lemma UTIME_elapsed:
  assumes "utime_ok now" and "utime_ok t" and "usecs t \<le> usecs now"
  shows "UTIME_greater (UTIME_minus now t) (UTIME d 0) \<longleftrightarrow> usecs now - usecs t > d * 1000000"
  using assms by (auto simp: UTIME_greater_def UTIME_minus_def UTIME_def usecs_def utime_ok_def Let_def)

subsection \<open>Types of packets\<close>

definition IA_LOGIN_LEN :: nat where "IA_LOGIN_LEN = 32"
definition IA_MAX_TYPE_LEN :: nat where "IA_MAX_TYPE_LEN = 16"
definition IA_MAX_MSG_LEN_8 :: nat where "IA_MAX_MSG_LEN_8 = 1030"
definition MAX_MSG_LEN :: nat where "MAX_MSG_LEN = 235"
definition IA_FREEMB_LEN :: nat where "IA_FREEMB_LEN = 16"
definition IA_DIR_NAME_LEN :: nat where "IA_DIR_NAME_LEN = 16"

definition IA_ID :: string where "IA_ID = ''00100''"

datatype packet_type =
    CONN_SYN_N | CONN_SYN_ACK_N | CONN_ACK_N | ALIVE_SYN_N | ALIVE_ACK_N | DISCONN_SYN_N | DISCONN_SYN_ACK_N
  | DISCONN_ACK_N | FIN_N | ERROR_N | INFO_N | INFO_7_N | INFO_8_N

definition packetTypes :: "string \<rightharpoonup> packet_type" where
  "packetTypes = [''CONN_SYN'' \<mapsto> CONN_SYN_N, ''CONN_SYN_ACK'' \<mapsto> CONN_SYN_ACK_N, ''CONN_ACK'' \<mapsto> CONN_ACK_N,
     ''ALIVE_SYN'' \<mapsto> ALIVE_SYN_N, ''ALIVE_ACK'' \<mapsto> ALIVE_ACK_N, ''DISCONN_SYN'' \<mapsto> DISCONN_SYN_N,
     ''DISCONN_SYN_ACK'' \<mapsto> DISCONN_SYN_ACK_N, ''DISCONN_ACK'' \<mapsto> DISCONN_ACK_N, ''FIN'' \<mapsto> FIN_N, ''ERR'' \<mapsto> ERROR_N]"

subsection \<open>Sizes and offsets\<close>

text \<open>A structure with a header starts with six bytes of magic and two of protocol version; the packets of the client go on
  with the encrypted login.\<close>

definition sizeof_HDR_8 :: nat where "sizeof_HDR_8 = 8"
definition sizeof_CONN_SYN_8 :: nat where "sizeof_CONN_SYN_8 = 96"
definition sizeof_CONN_SYN_ACK_6 :: nat where "sizeof_CONN_SYN_ACK_6 = 192"
definition sizeof_CONN_SYN_ACK_8 :: nat where "sizeof_CONN_SYN_ACK_8 = 200"
definition sizeof_CONN_ACK_8 :: nat where "sizeof_CONN_ACK_8 = 64"
definition sizeof_ALIVE_SYN_6 :: nat where "sizeof_ALIVE_SYN_6 = 368"
definition sizeof_ALIVE_SYN_8 :: nat where "sizeof_ALIVE_SYN_8 = 384"
definition sizeof_ALIVE_ACK_8 :: nat where "sizeof_ALIVE_ACK_8 = 64"
definition sizeof_DISCONN_SYN_8 :: nat where "sizeof_DISCONN_SYN_8 = 96"
definition sizeof_DISCONN_SYN_ACK_6 :: nat where "sizeof_DISCONN_SYN_ACK_6 = 24"
definition sizeof_DISCONN_SYN_ACK_8 :: nat where "sizeof_DISCONN_SYN_ACK_8 = 32"
definition sizeof_DISCONN_ACK_8 :: nat where "sizeof_DISCONN_ACK_8 = 64"
definition sizeof_FIN_6 :: nat where "sizeof_FIN_6 = 24"
definition sizeof_FIN_8 :: nat where "sizeof_FIN_8 = 32"
definition sizeof_ERR :: nat where "sizeof_ERR = 256"
definition sizeof_ERR_8 :: nat where "sizeof_ERR_8 = 264"
definition sizeof_INFO_6 :: nat where "sizeof_INFO_6 = 256"
definition sizeof_INFO_7 :: nat where "sizeof_INFO_7 = 272"
definition sizeof_INFO_8 :: nat where "sizeof_INFO_8 = 1068"

lemmas sizeofs = sizeof_HDR_8_def sizeof_CONN_SYN_8_def sizeof_CONN_SYN_ACK_6_def sizeof_CONN_SYN_ACK_8_def
  sizeof_CONN_ACK_8_def sizeof_ALIVE_SYN_6_def sizeof_ALIVE_SYN_8_def sizeof_ALIVE_ACK_8_def sizeof_DISCONN_SYN_8_def
  sizeof_DISCONN_SYN_ACK_6_def sizeof_DISCONN_SYN_ACK_8_def sizeof_DISCONN_ACK_8_def sizeof_FIN_6_def sizeof_FIN_8_def
  sizeof_ERR_def sizeof_ERR_8_def sizeof_INFO_6_def sizeof_INFO_7_def sizeof_INFO_8_def

text \<open>Writing several fields of a structure.\<close>

definition put_fields :: "(nat \<times> bytes) list \<Rightarrow> bytes \<Rightarrow> bytes" where
  "put_fields fs mem = fold (\<lambda>(off, bs). put_bytes off bs) fs mem"

definition text_bytes :: "string \<Rightarrow> bytes" where
  "text_bytes s = map byte_of s"

subsection \<open>Settings\<close>

record param_value =
  pv_param :: string
  pv_value :: "string list"

type_synonym module_settings = "param_value list"

definition freeMbCash :: int where "freeMbCash = 100"
definition freeMbNone :: int where "freeMbNone = 101"

record ia_settings =
  ias_userDelay :: int
  ias_userTimeout :: int
  ias_port :: u16
  ias_errorStr :: string
  ias_freeMbShowType :: int
  ias_logProtocolErrors :: bool

definition AUTH_IA_SETTINGS :: ia_settings where
  "AUTH_IA_SETTINGS = \<lparr>ias_userDelay = 0, ias_userTimeout = 0, ias_port = 0, ias_errorStr = '''',
     ias_freeMbShowType = freeMbCash, ias_logProtocolErrors = False\<rparr>"

text \<open>The first value of a parameter; names are compared without regard to case.\<close>

definition find_param :: "string \<Rightarrow> module_settings \<Rightarrow> string option" where
  "find_param name s = (case find (\<lambda>p. strcaseeq (pv_param p) name) s of
     None \<Rightarrow> None
   | Some p \<Rightarrow> (case pv_value p of [] \<Rightarrow> None | v # _ \<Rightarrow> Some v))"

definition not_found :: "string \<Rightarrow> ia_settings \<Rightarrow> int \<times> ia_settings" where
  "not_found name s = (- 1, s\<lparr>ias_errorStr := ''Parameter '' @ squote name @ '' not found.''\<rparr>)"

definition cannot_parse :: "string \<Rightarrow> ia_settings \<Rightarrow> int \<times> ia_settings" where
  "cannot_parse name s =
     (- 1, s\<lparr>ias_errorStr := ''Cannot parse parameter '' @ squote name @ '': '' @ ias_errorStr s\<rparr>)"

definition parse_FreeMb :: "module_settings \<Rightarrow> ia_settings \<Rightarrow> int \<times> ia_settings" where
  "parse_FreeMb ms s = (case find_param ''FreeMb'' ms of
     None \<Rightarrow> not_found ''FreeMb'' s
   | Some v \<Rightarrow>
       let wrong = (- 1, s\<lparr>ias_errorStr := ''Incorrect parameter '' @ squote v @ ''.''\<rparr>)
       in if strcaseeq v ''cash'' then (0, s\<lparr>ias_freeMbShowType := freeMbCash\<rparr>)
          else if strcaseeq v ''none'' then (0, s\<lparr>ias_freeMbShowType := freeMbNone\<rparr>)
          else (case str2x_int32 v of
              Some n \<Rightarrow> if n < 0 \<or> n \<ge> int DIR_NUM then wrong else (0, s\<lparr>ias_freeMbShowType := n\<rparr>)
            | None \<Rightarrow> wrong))"

definition parse_LogProtocolErrors :: "module_settings \<Rightarrow> ia_settings \<Rightarrow> int \<times> ia_settings" where
  "parse_LogProtocolErrors ms s = (case find_param ''LogProtocolErrors'' ms of
     None \<Rightarrow> parse_FreeMb ms (s\<lparr>ias_logProtocolErrors := False\<rparr>)
   | Some v \<Rightarrow> (case ParseYesNo v (ias_logProtocolErrors s) of
         (True, _) \<Rightarrow> cannot_parse ''LogProtocolErrors'' s
       | (False, b) \<Rightarrow> parse_FreeMb ms (s\<lparr>ias_logProtocolErrors := b\<rparr>)))"

definition parse_UserTimeout :: "module_settings \<Rightarrow> ia_settings \<Rightarrow> int \<times> ia_settings" where
  "parse_UserTimeout ms s = (case find_param ''UserTimeout'' ms of
     None \<Rightarrow> not_found ''UserTimeout'' s
   | Some v \<Rightarrow>
       let (bad, n) = ParseIntInRange v 15 1200 (ias_userTimeout s); s = s\<lparr>ias_userTimeout := n\<rparr>
       in if bad then cannot_parse ''UserTimeout'' s else parse_LogProtocolErrors ms s)"

definition parse_UserDelay :: "module_settings \<Rightarrow> ia_settings \<Rightarrow> int \<times> ia_settings" where
  "parse_UserDelay ms s = (case find_param ''UserDelay'' ms of
     None \<Rightarrow> not_found ''UserDelay'' s
   | Some v \<Rightarrow>
       let (bad, n) = ParseIntInRange v 5 600 (ias_userDelay s); s = s\<lparr>ias_userDelay := n\<rparr>
       in if bad then cannot_parse ''UserDelay'' s else parse_UserTimeout ms s)"

definition IA_ParseSettings :: "module_settings \<Rightarrow> ia_settings \<Rightarrow> int \<times> ia_settings" where
  "IA_ParseSettings ms s = (case find_param ''Port'' ms of
     None \<Rightarrow> not_found ''Port'' s
   | Some v \<Rightarrow>
       let (bad, p) = ParseIntInRange v 2 65535 0
       in if bad then cannot_parse ''Port'' s else parse_UserDelay ms (s\<lparr>ias_port := word_of_int p\<rparr>))"

text \<open>What the parser accepts is within the documented bounds.\<close>

definition ia_settings_ok :: "ia_settings \<Rightarrow> bool" where
  "ia_settings_ok s \<longleftrightarrow> 5 \<le> ias_userDelay s \<and> ias_userDelay s \<le> 600 \<and> 15 \<le> ias_userTimeout s \<and> ias_userTimeout s \<le> 1200
     \<and> 2 \<le> ias_port s \<and> (ias_freeMbShowType s = freeMbCash \<or> ias_freeMbShowType s = freeMbNone
       \<or> 0 \<le> ias_freeMbShowType s \<and> ias_freeMbShowType s < int DIR_NUM)"

lemma IA_ParseSettings_ok: "IA_ParseSettings ms s0 = (0, s) \<Longrightarrow> ia_settings_ok s"
proof -
  assume a: "IA_ParseSettings ms s0 = (0, s)"
  have port: "2 \<le> (word_of_int p :: u16)" if "2 \<le> p" "p \<le> 65535" for p
    using that by (simp add: word_le_def uint_word_of_int)
  from a port show ?thesis
    by (auto simp: IA_ParseSettings_def parse_UserDelay_def parse_UserTimeout_def parse_LogProtocolErrors_def parse_FreeMb_def
        not_found_def cannot_parse_def ia_settings_ok_def Let_def
        dest!: ParseIntInRange_bounds split: option.splits prod.splits if_splits bool.splits)
qed

end
