(* ===== verification/Stg_InetAccess.thy ===== *)
theory Stg_InetAccess
  imports Stg_IAData
begin

text \<open>
  The authorization plugin for InetAccess, \<open>plugins/authorization/inetaccess/inetaccess.cpp\<close> and \<open>inetaccess.h\<close>: clients
  send datagrams encrypted with the user's password; a user who completes the handshake is authorized at the
  address the datagrams come from, and has to answer from time to time to stay authorized. Methods take and return the
  plugin together with the registry of users. Datagrams that are sent are part of the plugin's state. The
  value \<open>None\<close> stands for a call with no defined outcome: a read outside a buffer, a pointer to a user or a tariff that is
  not there any more, a mutex locked twice by its thread.
\<close>

subsection \<open>State\<close>

text \<open>The texts of error packets (Cyrillic, converted to koi8-ru by the C library).\<close>

datatype ia_error = WrongLogin | UserDisabled | UserPassive | WrongIP | IPInUse | IPInUse2 | WrongPassword | LoginInUse

record ia_env =
  ie_env :: env
  ie_now :: utime
  ie_random :: "nat \<Rightarrow> u32"
  ie_send :: "u32 \<times> u16 \<times> bytes \<Rightarrow> bool"
  ie_self :: nat
  ie_text :: "ia_error \<Rightarrow> string"
  ie_dirName :: "nat \<Rightarrow> string"
  ie_monitoring :: bool
  ie_monitorDir :: string

record ia_user =
  iu_login :: string
  iu_user :: int
  iu_phase :: int
  iu_phaseTime :: utime
  iu_lastSendAlive :: utime
  iu_rnd :: u32
  iu_port :: u16
  iu_ctx :: blowfish_ctx
  iu_messagesToSend :: "message list"
  iu_protoVer :: int
  iu_password :: string

record ia = world +
  ia_settings :: ia_settings
  ia_errorStr :: string
  ia_ip2user :: "(u32 \<times> ia_user) list" \<comment> \<open>a \<open>std::map\<close>: ascending addresses\<close>
  ia_ctxS :: blowfish_ctx
  ia_enabledDirs :: u32
  ia_connSynAck6 :: bytes
  ia_connSynAck8 :: bytes
  ia_disconnSynAck6 :: bytes
  ia_disconnSynAck8 :: bytes
  ia_aliveSyn6 :: bytes
  ia_aliveSyn8 :: bytes
  ia_fin6 :: bytes
  ia_fin8 :: bytes
  ia_draws :: nat \<comment> \<open>how often \<open>random()\<close> has been called\<close>
  ia_sent :: "(u32 \<times> u16 \<times> bytes) list"
  ia_isRunningRun :: bool
  ia_isRunningRunTimeouter :: bool

type_synonym iasys = "ia \<times> users"

definition AUTH_IA :: "event list \<Rightarrow> ia" where
  "AUTH_IA tr = \<lparr>trace = tr, ia_settings = AUTH_IA_SETTINGS, ia_errorStr = '''', ia_ip2user = [],
     ia_ctxS = InitContext ''pr7Hhen'' 7, ia_enabledDirs = 0xFFFFFFFF,
     ia_connSynAck6 = replicate sizeof_CONN_SYN_ACK_6 0, ia_connSynAck8 = replicate sizeof_CONN_SYN_ACK_8 0,
     ia_disconnSynAck6 = replicate sizeof_DISCONN_SYN_ACK_6 0, ia_disconnSynAck8 = replicate sizeof_DISCONN_SYN_ACK_8 0,
     ia_aliveSyn6 = replicate sizeof_ALIVE_SYN_6 0, ia_aliveSyn8 = replicate sizeof_ALIVE_SYN_8 0,
     ia_fin6 = replicate sizeof_FIN_6 0, ia_fin8 = replicate sizeof_FIN_8 0, ia_draws = 0, ia_sent = [],
     ia_isRunningRun = False, ia_isRunningRunTimeouter = False\<rparr>"

text \<open>The map of clients.\<close>

abbreviation ip_find :: "u32 \<Rightarrow> ia \<Rightarrow> ia_user option" where
  "ip_find ip s \<equiv> map_find (<) ip (ia_ip2user s)"

definition ip_upd :: "u32 \<Rightarrow> (ia_user \<Rightarrow> ia_user) \<Rightarrow> ia \<Rightarrow> ia" where
  "ip_upd ip f s = s\<lparr>ia_ip2user := map_change (<) ip f (ia_ip2user s)\<rparr>"

definition ip_erase :: "u32 \<Rightarrow> ia \<Rightarrow> ia" where
  "ip_erase ip s = s\<lparr>ia_ip2user := filter (\<lambda>p. fst p \<noteq> ip) (ia_ip2user s)\<rparr>"

text \<open>\<open>random()\<close>, with the result in the user and the packet.\<close>

definition draw :: "ia_env \<Rightarrow> ia \<Rightarrow> u32 \<times> ia" where
  "draw A s = (ie_random A (ia_draws s), s\<lparr>ia_draws := Suc (ia_draws s)\<rparr>)"

definition SetPhase :: "ia_env \<Rightarrow> int \<Rightarrow> ia_user \<Rightarrow> ia_user" where
  "SetPhase A n e = e\<lparr>iu_phase := n, iu_phaseTime := ie_now A\<rparr>"

definition UpdateTime :: "ia_env \<Rightarrow> ia_user \<Rightarrow> ia_user" where
  "UpdateTime A e = e\<lparr>iu_phaseTime := ie_now A\<rparr>"

definition IA_USER :: "ia_env \<Rightarrow> string \<Rightarrow> int \<Rightarrow> string \<Rightarrow> u32 \<Rightarrow> u16 \<Rightarrow> int \<Rightarrow> ia_user" where
  "IA_USER A l u pass rnd p ver = \<lparr>iu_login = l, iu_user = u, iu_phase = 1, iu_phaseTime = ie_now A, iu_lastSendAlive = UTIME 0 0,
     iu_rnd = rnd, iu_port = p, iu_ctx = Blowfish_Init (strncpy PASSWD_LEN pass), iu_messagesToSend = [], iu_protoVer = ver,
     iu_password = pass\<rparr>"

subsection \<open>Sending\<close>

definition IA_Send :: "ia_env \<Rightarrow> u32 \<Rightarrow> u16 \<Rightarrow> bytes \<Rightarrow> ia \<Rightarrow> int \<times> ia" where
  "IA_Send A ip port bs s = (if ie_send A (ip, port, bs) then 0 else - 1, s\<lparr>ia_sent := ia_sent s @ [(ip, port, bs)]\<rparr>)"

definition SendError :: "ia_env \<Rightarrow> u32 \<Rightarrow> u16 \<Rightarrow> int \<Rightarrow> ia_error \<Rightarrow> ia \<Rightarrow> ia" where
  "SendError A ip port protoVer err s =
     (let txt = take MAX_MSG_LEN (text_bytes (ie_text A err))
      in if protoVer = 6 \<or> protoVer = 7
         then snd (IA_Send A ip port (put_fields [(0, word_bytes 4 (1 :: u32)), (4, text_bytes ''ERR''), (20, txt)]
                (replicate sizeof_ERR 0)) s)
         else if protoVer = 8
         then snd (IA_Send A ip port (put_fields [(8, word_bytes 4 (256 :: u32)), (12, text_bytes ''ERR''), (28, txt)]
                (replicate sizeof_ERR_8 0)) s)
         else s)"

text \<open>Encrypt a structure in place and send it.\<close>

definition sz8 :: "nat \<Rightarrow> nat" where
  "sz8 n = nat (Min8 (int n))"

definition encrypt_in_place :: "blowfish_ctx \<Rightarrow> nat \<Rightarrow> bytes \<Rightarrow> bytes option" where
  "encrypt_in_place ctx len buf = map_option (\<lambda>r. put_bytes 0 r buf) (EncryptString ctx len buf)"

definition hdr8 :: "(nat \<times> bytes) list" where
  "hdr8 = [(0, text_bytes IA_ID), (6, [0, 8])]"

text \<open>The names of the directions, each cut to 15 characters; a shorter one leaves the bytes behind it as they are.\<close>

definition put_dirNames :: "ia_env \<Rightarrow> nat \<Rightarrow> bytes \<Rightarrow> bytes" where
  "put_dirNames A off buf =
     put_fields (concat (map (\<lambda>j. [(off + 16 * j, take 16 (text_bytes (ie_dirName A j))), (off + 16 * j + 15, [0])]) [0..<DIR_NUM])) buf"

definition Send_CONN_SYN_ACK_6 :: "ia_env \<Rightarrow> u32 \<Rightarrow> ia \<Rightarrow> (int \<times> ia) option" where
  "Send_CONN_SYN_ACK_6 A sip s = do {
     let n = sz8 sizeof_CONN_SYN_ACK_6;
     let buf = put_fields [(0, word_bytes 4 (of_nat n :: u32)), (4, text_bytes ''CONN_SYN_ACK'')] (ia_connSynAck6 s);
     let buf = put_dirNames A 32 buf;
     let (rnd, s) = draw A s;
     let s = ip_upd sip (iu_rnd_update (\<lambda>_. rnd)) s;
     let buf = put_fields [(20, word_bytes 4 rnd), (24, word_bytes 4 (word_of_int (ias_userTimeout (ia_settings s)) :: u32)),
                 (28, word_bytes 4 (word_of_int (ias_userDelay (ia_settings s)) :: u32))] buf;
     e \<leftarrow> ip_find sip s;
     buf \<leftarrow> encrypt_in_place (iu_ctx e) n buf;
     Some (IA_Send A sip (ias_port (ia_settings s)) (take n buf) (s\<lparr>ia_connSynAck6 := buf\<rparr>)) }"

definition Send_CONN_SYN_ACK_8 :: "ia_env \<Rightarrow> u32 \<Rightarrow> ia \<Rightarrow> (int \<times> ia) option" where
  "Send_CONN_SYN_ACK_8 A sip s = do {
     let n = sz8 sizeof_CONN_SYN_ACK_8;
     let buf = put_fields (hdr8 @ [(8, word_bytes 4 (of_nat n :: u32)), (12, text_bytes ''CONN_SYN_ACK'')]) (ia_connSynAck8 s);
     let buf = put_dirNames A 40 buf;
     let (rnd, s) = draw A s;
     let s = ip_upd sip (iu_rnd_update (\<lambda>_. rnd)) s;
     let buf = put_fields [(28, word_bytes 4 rnd), (32, word_bytes 4 (word_of_int (ias_userTimeout (ia_settings s)) :: u32)),
                 (36, word_bytes 4 (word_of_int (ias_userDelay (ia_settings s)) :: u32))] buf;
     e \<leftarrow> ip_find sip s;
     buf \<leftarrow> encrypt_in_place (iu_ctx e) n buf;
     Some (IA_Send A sip (iu_port e) (take n buf) (s\<lparr>ia_connSynAck8 := buf\<rparr>)) }"

text \<open>The amount of prepaid traffic as text; \<open>snprintf\<close> writes at most 15 characters and a terminator.\<close>

definition show_fixed3 :: "double \<Rightarrow> string" where
  "show_fixed3 x =
     (let m = nat (rne (\<bar>x\<bar> * 10 ^ 3))
      in (if x < 0 then ''-'' else '''') @ show_nat (m div 10 ^ 3) @ ''.'' @ pad_left 3 (show_nat (m mod 10 ^ 3)))"

definition snprintf16 :: "string \<Rightarrow> bytes" where
  "snprintf16 t = text_bytes (take (IA_FREEMB_LEN - 1) t) @ [0]"

definition freeMb_field :: "ia_env \<Rightarrow> ia \<Rightarrow> user \<Rightarrow> bytes option" where
  "freeMb_field A s u =
     (let E = ie_env A; dn = ias_freeMbShowType (ia_settings s);
          fmb = (if freeMb u < 0 then 0 else freeMb u)
      in if dn < int DIR_NUM
         then do {
           tf \<leftarrow> tariff_of E u;
           let p = GetPriceWithTraffType (e_localtime E) tf (up_traff u ! nat dn) (down_traff u ! nat dn) (nat dn) (e_stgTime E);
           let p = dmul p (1024 * 1024);
           Some (if \<bar>p\<bar> < dbl (1 / 1000) then text_bytes ''---'' else snprintf16 (show_fixed3 (ddiv fmb p)))
         }
         else Some (if dn = freeMbNone then [0] else snprintf16 (''C'' @ show_fixed3 fmb)))"

definition cash_field :: "ia_env \<Rightarrow> user \<Rightarrow> u64 option" where
  "cash_field A u =
     (let E = ie_env A; c = i64 (trunc (dmul (cash u) 1000))
      in if s_showFeeInCash (e_set E) then Some (word_of_int c)
         else map_option (\<lambda>tf. word_of_int (i64 (c - i64 (trunc (dmul (GetFee tf) 1000))))) (tariff_of E u))"

text \<open>The counters of a user from offset \<open>off\<close> on: month up and down, session up and down.\<close>

definition stat_fields :: "nat \<Rightarrow> user \<Rightarrow> (nat \<times> bytes) list" where
  "stat_fields off u = concat (map (\<lambda>i.
     [(off + 80 + 8 * i, word_bytes 8 (down_traff u ! i)), (off + 8 * i, word_bytes 8 (up_traff u ! i)),
      (off + 240 + 8 * i, word_bytes 8 (u_sessionDownload u ! i)), (off + 160 + 8 * i, word_bytes 8 (u_sessionUpload u ! i))])
     [0..<DIR_NUM])"

definition Send_ALIVE_SYN_6 :: "ia_env \<Rightarrow> u32 \<Rightarrow> iasys \<Rightarrow> (int \<times> iasys) option" where
  "Send_ALIVE_SYN_6 A sip = (\<lambda>(s, us). do {
     let n = sz8 sizeof_ALIVE_SYN_6;
     let (rnd, s) = draw A s;
     let s = ip_upd sip (iu_rnd_update (\<lambda>_. rnd)) s;
     e \<leftarrow> ip_find sip s;
     u \<leftarrow> user_at (iu_user e) us;
     fmb \<leftarrow> freeMb_field A s u;
     c \<leftarrow> cash_field A u;
     let buf = put_fields ([(0, word_bytes 4 (of_nat n :: u32)), (20, word_bytes 4 rnd), (4, text_bytes ''ALIVE_SYN'')]
                 @ stat_fields 24 u @ [(352, fmb), (344, word_bytes 8 c)]) (ia_aliveSyn6 s);
     buf \<leftarrow> encrypt_in_place (iu_ctx e) n buf;
     let (rc, s) = IA_Send A sip (ias_port (ia_settings s)) (take n buf) (s\<lparr>ia_aliveSyn6 := buf\<rparr>);
     Some (rc, s, us) })"

definition Send_ALIVE_SYN_8 :: "ia_env \<Rightarrow> u32 \<Rightarrow> iasys \<Rightarrow> (int \<times> iasys) option" where
  "Send_ALIVE_SYN_8 A sip = (\<lambda>(s, us). do {
     let n = sz8 sizeof_ALIVE_SYN_8;
     let (rnd, s) = draw A s;
     let s = ip_upd sip (iu_rnd_update (\<lambda>_. rnd)) s;
     e \<leftarrow> ip_find sip s;
     u \<leftarrow> user_at (iu_user e) us;
     fmb \<leftarrow> freeMb_field A s u;
     c \<leftarrow> cash_field A u;
     let buf = put_fields (hdr8 @ [(8, word_bytes 4 (of_nat n :: u32)), (28, word_bytes 4 rnd), (12, text_bytes ''ALIVE_SYN'')]
                 @ stat_fields 32 u @ [(360, fmb), (352, word_bytes 8 c)]) (ia_aliveSyn8 s);
     buf \<leftarrow> encrypt_in_place (iu_ctx e) n buf;
     let (rc, s) = IA_Send A sip (iu_port e) (take n buf) (s\<lparr>ia_aliveSyn8 := buf\<rparr>);
     Some (rc, s, us) })"

definition Send_DISCONN_SYN_ACK_6 :: "ia_env \<Rightarrow> u32 \<Rightarrow> ia \<Rightarrow> (int \<times> ia) option" where
  "Send_DISCONN_SYN_ACK_6 A sip s = do {
     let n = sz8 sizeof_DISCONN_SYN_ACK_6;
     let (rnd, s) = draw A s;
     let s = ip_upd sip (iu_rnd_update (\<lambda>_. rnd)) s;
     let buf = put_fields [(0, word_bytes 4 (of_nat n :: u32)), (4, text_bytes ''DISCONN_SYN_ACK''), (20, word_bytes 4 rnd)]
                 (ia_disconnSynAck6 s);
     e \<leftarrow> ip_find sip s;
     buf \<leftarrow> encrypt_in_place (iu_ctx e) n buf;
     Some (IA_Send A sip (ias_port (ia_settings s)) (take n buf) (s\<lparr>ia_disconnSynAck6 := buf\<rparr>)) }"

definition Send_DISCONN_SYN_ACK_8 :: "ia_env \<Rightarrow> u32 \<Rightarrow> ia \<Rightarrow> (int \<times> ia) option" where
  "Send_DISCONN_SYN_ACK_8 A sip s = do {
     let n = sz8 sizeof_DISCONN_SYN_ACK_8;
     let (rnd, s) = draw A s;
     let s = ip_upd sip (iu_rnd_update (\<lambda>_. rnd)) s;
     let buf = put_fields (hdr8 @ [(8, word_bytes 4 (of_nat n :: u32)), (12, text_bytes ''DISCONN_SYN_ACK''), (28, word_bytes 4 rnd)])
                 (ia_disconnSynAck8 s);
     e \<leftarrow> ip_find sip s;
     buf \<leftarrow> encrypt_in_place (iu_ctx e) n buf;
     Some (IA_Send A sip (iu_port e) (take n buf) (s\<lparr>ia_disconnSynAck8 := buf\<rparr>)) }"

definition Send_FIN_6 :: "ia_env \<Rightarrow> u32 \<Rightarrow> iasys \<Rightarrow> (int \<times> iasys) option" where
  "Send_FIN_6 A sip = (\<lambda>(s, us). do {
     let n = sz8 sizeof_FIN_6;
     let buf = put_fields [(0, word_bytes 4 (of_nat n :: u32)), (4, text_bytes ''FIN''), (20, text_bytes ''OK'')] (ia_fin6 s);
     e \<leftarrow> ip_find sip s;
     buf \<leftarrow> encrypt_in_place (iu_ctx e) n buf;
     (_, us) \<leftarrow> Users_Unauthorize (ie_env A) (iu_login e) (ie_self A) '''' us;
     let (rc, s) = IA_Send A sip (ias_port (ia_settings s)) (take n buf) (s\<lparr>ia_fin6 := buf\<rparr>);
     Some (rc, ip_erase sip s, us) })"

definition Send_FIN_8 :: "ia_env \<Rightarrow> u32 \<Rightarrow> iasys \<Rightarrow> (int \<times> iasys) option" where
  "Send_FIN_8 A sip = (\<lambda>(s, us). do {
     let n = sz8 sizeof_FIN_8;
     let buf = put_fields (hdr8 @ [(8, word_bytes 4 (of_nat n :: u32)), (12, text_bytes ''FIN''), (28, text_bytes ''OK'')]) (ia_fin8 s);
     e \<leftarrow> ip_find sip s;
     buf \<leftarrow> encrypt_in_place (iu_ctx e) n buf;
     (_, us) \<leftarrow> Users_Unauthorize (ie_env A) (iu_login e) (ie_self A) '''' us;
     let (rc, s) = IA_Send A sip (iu_port e) (take n buf) (s\<lparr>ia_fin8 := buf\<rparr>);
     Some (rc, ip_erase sip s, us) })"

subsection \<open>Messages\<close>

definition IA_SendMessage :: "message \<Rightarrow> u32 \<Rightarrow> ia \<Rightarrow> int \<times> ia" where
  "IA_SendMessage msg ip s = (case ip_find ip s of
     None \<Rightarrow> (- 1, s\<lparr>ia_errorStr := ''Unknown user.''\<rparr>)
   | Some _ \<Rightarrow> (0, ip_upd ip (\<lambda>e. e\<lparr>iu_messagesToSend := iu_messagesToSend e @ [msg]\<rparr>) s))"

text \<open>The structure is copied to the front of a larger buffer and encrypted there; only its first bytes are
  encrypted and sent.\<close>

definition RealSendMessage6 :: "ia_env \<Rightarrow> message \<Rightarrow> u32 \<Rightarrow> ia_user \<Rightarrow> ia \<Rightarrow> (int \<times> ia) option" where
  "RealSendMessage6 A msg ip e s = do {
     let info = put_fields [(0, word_bytes 4 (256 :: u32)), (4, text_bytes ''INFO''), (20, text_bytes ''I''),
                  (21, take 235 (text_bytes (msg_text msg))), (21 + 234, [0])] (replicate sizeof_INFO_6 0);
     buf \<leftarrow> encrypt_in_place (iu_ctx e) 256 info;
     Some (IA_Send A ip (ias_port (ia_settings s)) (take 256 buf) s) }"

definition RealSendMessage7 :: "ia_env \<Rightarrow> message \<Rightarrow> u32 \<Rightarrow> ia_user \<Rightarrow> ia \<Rightarrow> (int \<times> ia) option" where
  "RealSendMessage7 A msg ip e s = do {
     let h = msg_header msg;
     let info = put_fields [(0, word_bytes 4 (264 :: u32)), (4, text_bytes ''INFO_7''), (20, [ucast (mh_type h)]),
                  (28, [ucast (mh_showTime h)]), (24, word_bytes 4 (mh_creationTime h)),
                  (29, take (MAX_MSG_LEN - 1) (text_bytes (msg_text msg))), (29 + (MAX_MSG_LEN - 1), [0])] (replicate sizeof_INFO_7 0);
     buf \<leftarrow> encrypt_in_place (iu_ctx e) 264 info;
     Some (IA_Send A ip (ias_port (ia_settings s)) (take 264 buf) s) }"

definition RealSendMessage8 :: "ia_env \<Rightarrow> message \<Rightarrow> u32 \<Rightarrow> ia_user \<Rightarrow> ia \<Rightarrow> (int \<times> ia) option" where
  "RealSendMessage8 A msg ip e s = do {
     let h = msg_header msg;
     let info = put_fields [(8, word_bytes 4 (1056 :: u32)), (12, text_bytes ''INFO_8''), (28, [ucast (mh_type h)]),
                  (36, [ucast (mh_showTime h)]), (32, word_bytes 4 (mh_creationTime h)),
                  (37, take (IA_MAX_MSG_LEN_8 - 1) (text_bytes (msg_text msg))), (37 + (IA_MAX_MSG_LEN_8 - 1), [0])] (replicate sizeof_INFO_8 0);
     buf \<leftarrow> encrypt_in_place (iu_ctx e) 1056 info;
     Some (IA_Send A ip (iu_port e) (take 1056 buf) s) }"

subsection \<open>Handlers of packets\<close>

definition log_proto :: "string \<Rightarrow> ia \<Rightarrow> ia" where
  "log_proto msg s = (if ias_logProtocolErrors (ia_settings s) then emit (Log msg) s else s)"

definition user_line :: "u32 \<Rightarrow> ia_user \<Rightarrow> string \<Rightarrow> string" where
  "user_line sip e msg = ''IP: '' @ inet_ntostring sip @ ''. User '' @ squote (iu_login e) @ ''. Protocol version: ''
     @ show_int (iu_protoVer e) @ ''. '' @ msg"

text \<open>The two complaints about a packet that does not fit: the phase and the control number.\<close>

definition log_mismatch :: "string \<Rightarrow> int \<Rightarrow> u32 \<Rightarrow> u32 \<Rightarrow> ia_user \<Rightarrow> ia \<Rightarrow> ia" where
  "log_mismatch what phase rnd sip e s =
     (let s = (if iu_phase e \<noteq> phase
               then log_proto (user_line sip e (what @ '': invalid phase, expected '' @ show_int phase @ '', got ''
                      @ show_int (iu_phase e) @ ''.'')) s else s)
      in if rnd \<noteq> iu_rnd e + 1
         then log_proto (user_line sip e (what @ '': invalid control number, expected '' @ show_int (sint (iu_rnd e + 1))
                @ '', got '' @ show_int (sint rnd) @ ''.'')) s
         else s)"

definition Process_CONN_SYN_6 :: "ia_env \<Rightarrow> u32 \<Rightarrow> ia \<Rightarrow> (int \<times> ia) option" where
  "Process_CONN_SYN_6 A sip s = do {
     e \<leftarrow> ip_find sip s;
     Some (if \<not> (iu_phase e = 1 \<or> iu_phase e = 3) then (- 1, s)
           else (0, ip_upd sip (SetPhase A 2) (s\<lparr>ia_enabledDirs := 0xFFFFFFFF\<rparr>))) }"

definition Process_CONN_SYN_8 :: "ia_env \<Rightarrow> bytes \<Rightarrow> u32 \<Rightarrow> ia \<Rightarrow> (int \<times> ia) option" where
  "Process_CONN_SYN_8 A buff sip s =
     map_option (\<lambda>(ret, s). (ret, s\<lparr>ia_enabledDirs := le32 buff 92\<rparr>)) (Process_CONN_SYN_6 A sip s)"

definition Process_CONN_ACK_6 :: "ia_env \<Rightarrow> bytes \<Rightarrow> u32 \<Rightarrow> iasys \<Rightarrow> (int \<times> iasys) option" where
  "Process_CONN_ACK_6 A buff sip = (\<lambda>(s, us). do {
     e \<leftarrow> ip_find sip s;
     let rnd = le32 buff 60;
     (if iu_phase e = 2 \<and> rnd = iu_rnd e + 1
      then do {
        let s = ip_upd sip (\<lambda>e. (UpdateTime A e)\<lparr>iu_lastSendAlive := ie_now A\<rparr>) s;
        (ok, us) \<leftarrow> Users_Authorize (ie_env A) (iu_login e) sip (ia_enabledDirs s) (ie_self A) us;
        (if ok then Some (0, ip_upd sip (SetPhase A 3) s, us)
         else do {
           u \<leftarrow> user_at (iu_user e) us;
           let s = s\<lparr>ia_errorStr := u_errorStr u\<rparr>;
           let s = log_proto (user_line sip e (''CONN_ACK: phase 2, authorization error ('' @ squote (ia_errorStr s) @ '').'')) s;
           Some (- 1, ip_erase sip s, us) })
      }
      else Some (- 1, log_mismatch ''CONN_ACK'' 2 rnd sip e s, us)) })"

definition Process_CONN_ACK_8 :: "ia_env \<Rightarrow> bytes \<Rightarrow> u32 \<Rightarrow> iasys \<Rightarrow> (int \<times> iasys) option" where
  "Process_CONN_ACK_8 A buff sip = (\<lambda>(s, us). do {
     e \<leftarrow> ip_find sip s;
     let rnd = le32 buff 60;
     (if iu_phase e = 2 \<and> rnd = iu_rnd e + 1
      then do {
        let s = ip_upd sip (\<lambda>e. (UpdateTime A e)\<lparr>iu_lastSendAlive := ie_now A\<rparr>) s;
        (ok, us) \<leftarrow> Users_Authorize (ie_env A) (iu_login e) sip (ia_enabledDirs s) (ie_self A) us;
        (if ok then Some (0, ip_upd sip (SetPhase A 3) s, us)
         else do {
           u \<leftarrow> user_at (iu_user e) us;
           let s = s\<lparr>ia_errorStr := u_errorStr u\<rparr>;
           let s = log_proto (user_line sip e (''CONN_ACK: phase 2, authorization error ('' @ squote (ia_errorStr s) @ '').'')) s;
           Some (- 1, ip_erase sip s, us) })
      }
      else Some (- 1, log_mismatch ''CONN_ACK'' 2 rnd sip e s, us)) })"

definition Process_ALIVE_ACK_6 :: "ia_env \<Rightarrow> bytes \<Rightarrow> u32 \<Rightarrow> ia \<Rightarrow> (int \<times> ia) option" where
  "Process_ALIVE_ACK_6 A buff sip s = do {
     e \<leftarrow> ip_find sip s;
     Some (0, if iu_phase e = 3 \<and> le32 buff 60 = iu_rnd e + 1 then ip_upd sip (UpdateTime A) s else s) }"

definition Process_ALIVE_ACK_8 :: "ia_env \<Rightarrow> bytes \<Rightarrow> u32 \<Rightarrow> ia \<Rightarrow> (int \<times> ia) option" where
  "Process_ALIVE_ACK_8 A buff sip s = do {
     e \<leftarrow> ip_find sip s;
     Some (0, if iu_phase e = 3 \<and> le32 buff 60 = iu_rnd e + 1 then ip_upd sip (UpdateTime A) s else s) }"

definition Process_DISCONN_SYN_6 :: "ia_env \<Rightarrow> u32 \<Rightarrow> ia \<Rightarrow> (int \<times> ia) option" where
  "Process_DISCONN_SYN_6 A sip s = do {
     e \<leftarrow> ip_find sip s;
     Some (if iu_phase e \<noteq> 3
           then (- 1, (log_proto (user_line sip e (''DISCONN_SYN: invalid phase, expected 3, got '' @ show_int (iu_phase e) @ ''.'')) s)
                        \<lparr>ia_errorStr := ''Incorrect request DISCONN_SYN''\<rparr>)
           else (0, ip_upd sip (SetPhase A 4) s)) }"

definition Process_DISCONN_SYN_8 :: "ia_env \<Rightarrow> u32 \<Rightarrow> ia \<Rightarrow> (int \<times> ia) option" where
  "Process_DISCONN_SYN_8 A sip s = do {
     e \<leftarrow> ip_find sip s;
     Some (if iu_phase e \<noteq> 3
           then (- 1, (log_proto (user_line sip e (''DISCONN_SYN: invalid phase, expected 3, got '' @ show_int (iu_phase e) @ ''.'')) s)
                        \<lparr>ia_errorStr := ''Incorrect request DISCONN_SYN''\<rparr>)
           else (0, ip_upd sip (SetPhase A 4) s)) }"

definition Process_DISCONN_ACK_6 :: "bytes \<Rightarrow> u32 \<Rightarrow> ia \<Rightarrow> (int \<times> ia) option" where
  "Process_DISCONN_ACK_6 buff sip s = do {
     e \<leftarrow> ip_find sip s;
     let rnd = le32 buff 60;
     Some (if \<not> (iu_phase e = 4 \<and> rnd = iu_rnd e + 1) then (- 1, log_mismatch ''DISCONN_ACK'' 4 rnd sip e s) else (0, s)) }"

definition Process_DISCONN_ACK_8 :: "bytes \<Rightarrow> u32 \<Rightarrow> ia \<Rightarrow> (int \<times> ia) option" where
  "Process_DISCONN_ACK_8 buff sip s = do {
     e \<leftarrow> ip_find sip s;
     let rnd = le32 buff 60;
     Some (if \<not> (iu_phase e = 4 \<and> rnd = iu_rnd e + 1) then (- 1, log_mismatch ''DISCONN_ACK'' 4 rnd sip e s) else (0, s)) }"

text \<open>A handler that does not touch the registry, and a reply that depends on its result.\<close>

definition on_ia :: "(ia \<Rightarrow> (int \<times> ia) option) \<Rightarrow> iasys \<Rightarrow> (int \<times> iasys) option" where
  "on_ia f = (\<lambda>(s, us). map_option (\<lambda>(rc, s). (rc, s, us)) (f s))"

definition then_reply :: "(iasys \<Rightarrow> (int \<times> iasys) option) \<Rightarrow> (iasys \<Rightarrow> (int \<times> iasys) option) \<Rightarrow> iasys \<Rightarrow> (int \<times> iasys) option" where
  "then_reply f g st = do { (rc, st) \<leftarrow> f st; if rc \<noteq> 0 then Some (- 1, st) else g st }"

definition dispatch :: "ia_env \<Rightarrow> packet_type \<Rightarrow> int \<Rightarrow> bytes \<Rightarrow> u32 \<Rightarrow> iasys \<Rightarrow> (int \<times> iasys) option" where
  "dispatch A pt protoVer buff sip st = (case pt of
     CONN_SYN_N \<Rightarrow>
       if protoVer = 6 \<or> protoVer = 7 then then_reply (on_ia (Process_CONN_SYN_6 A sip)) (on_ia (Send_CONN_SYN_ACK_6 A sip)) st
       else if protoVer = 8 then then_reply (on_ia (Process_CONN_SYN_8 A buff sip)) (on_ia (Send_CONN_SYN_ACK_8 A sip)) st
       else Some (- 1, st)
   | CONN_ACK_N \<Rightarrow>
       if protoVer = 6 \<or> protoVer = 7 then then_reply (Process_CONN_ACK_6 A buff sip) (Send_ALIVE_SYN_6 A sip) st
       else if protoVer = 8 then then_reply (Process_CONN_ACK_8 A buff sip) (Send_ALIVE_SYN_8 A sip) st
       else Some (- 1, st)
   | ALIVE_ACK_N \<Rightarrow>
       if protoVer = 6 \<or> protoVer = 7 then on_ia (Process_ALIVE_ACK_6 A buff sip) st
       else if protoVer = 8 then on_ia (Process_ALIVE_ACK_8 A buff sip) st
       else Some (- 1, st)
   | DISCONN_SYN_N \<Rightarrow>
       if protoVer = 6 \<or> protoVer = 7 then then_reply (on_ia (Process_DISCONN_SYN_6 A sip)) (on_ia (Send_DISCONN_SYN_ACK_6 A sip)) st
       else if protoVer = 8 then then_reply (on_ia (Process_DISCONN_SYN_8 A sip)) (on_ia (Send_DISCONN_SYN_ACK_8 A sip)) st
       else Some (- 1, st)
   | DISCONN_ACK_N \<Rightarrow>
       if protoVer = 6 \<or> protoVer = 7 then then_reply (on_ia (Process_DISCONN_ACK_6 buff sip)) (Send_FIN_6 A sip) st
       else if protoVer = 8 then then_reply (on_ia (Process_DISCONN_ACK_8 buff sip)) (Send_FIN_8 A sip) st
       else Some (- 1, st)
   | _ \<Rightarrow> Some (- 1, st))"

subsection \<open>Receiving\<close>

definition ip_in_use :: "ia_env \<Rightarrow> u32 \<Rightarrow> u16 \<Rightarrow> int \<Rightarrow> ia_error \<Rightarrow> string \<Rightarrow> string \<Rightarrow> ia \<Rightarrow> ia" where
  "ip_in_use A sip sport protoVer err other login s =
     SendError A sip sport protoVer err (emit (Log (''IP address is already in use by user '' @ squote other @ ''. IP ''
       @ inet_ntostring sip @ '', login: '' @ squote login)) s)"

definition new_client :: "ia_env \<Rightarrow> u32 \<Rightarrow> u16 \<Rightarrow> int \<Rightarrow> user \<Rightarrow> ia \<Rightarrow> ia" where
  "new_client A sip sport protoVer u s =
     (let (rnd, s) = draw A s
      in s\<lparr>ia_ip2user := map_insert (<) sip (IA_USER A (u_login u) (u_id u) (uc_password (u_conf u)) rnd sport protoVer)
             (ia_ip2user s)\<rparr>)"

text \<open>The entry of the client, made when there is none; \<open>Inl\<close> is the early return.\<close>

definition client_entry :: "ia_env \<Rightarrow> u32 \<Rightarrow> u16 \<Rightarrow> int \<Rightarrow> user \<Rightarrow> iasys \<Rightarrow> (iasys + iasys) option" where
  "client_entry A sip sport protoVer u = (\<lambda>(s, us). case ip_find sip s of
     None \<Rightarrow> do {
       ((rc, j), us) \<leftarrow> FindByIPIdx (ie_env A) sip us;
       (case j of
          None \<Rightarrow> Some (Inr (new_client A sip sport protoVer u s, us))
        | Some j \<Rightarrow> do {
            v \<leftarrow> user_at j us;
            Some (if u_id v \<noteq> u_id u then Inl (ip_in_use A sip sport protoVer IPInUse (u_login v) (u_login u) s, us)
                  else Inr (new_client A sip sport protoVer u s, us)) }) }
   | Some e \<Rightarrow> do {
       v \<leftarrow> user_at (iu_user e) us;
       Some (if u_id u \<noteq> u_id v then Inl (ip_in_use A sip sport protoVer IPInUse2 (u_login v) (u_login u) s, us)
             else Inr (s, us)) })"

definition refresh_password :: "u32 \<Rightarrow> user \<Rightarrow> ia \<Rightarrow> ia" where
  "refresh_password sip u = ip_upd sip (\<lambda>e.
     if iu_password e \<noteq> uc_password (u_conf u)
     then e\<lparr>iu_ctx := InitContext (uc_password (u_conf u)) (length (uc_password (u_conf u))), iu_password := uc_password (u_conf u)\<rparr>
     else e)"

text \<open>\<open>LOGIN_LEN + sizeOfMagic + sizeOfVer\<close>\<close>

definition ia_offset :: nat where "ia_offset = 40"

text \<open>The complaints of \<open>PacketProcessor\<close> about a packet it cannot read and about a login used at another address.\<close>

definition wrong_password :: "ia_env \<Rightarrow> u32 \<Rightarrow> u16 \<Rightarrow> int \<Rightarrow> user \<Rightarrow> ia \<Rightarrow> ia" where
  "wrong_password A sip sport protoVer u s =
     emit (Log (''User'' @ CHR 0x27 # ''s connect failed. User: '' @ squote (u_login u) @ '', ip '' @ inet_ntostring sip
       @ ''. Wrong login or password'')) (SendError A sip sport protoVer WrongPassword s)"

definition login_in_use :: "ia_env \<Rightarrow> u32 \<Rightarrow> u16 \<Rightarrow> int \<Rightarrow> user \<Rightarrow> ia \<Rightarrow> ia" where
  "login_in_use A sip sport protoVer u s =
     SendError A sip sport protoVer LoginInUse (emit (Log (''Login '' @ squote (u_login u) @ '' is already in use from ip ''
       @ inet_ntostring (u_currIP u) @ ''. IP '' @ inet_ntostring sip)) s)"

definition PacketProcessor ::
    "ia_env \<Rightarrow> bytes \<Rightarrow> u64 \<Rightarrow> u32 \<Rightarrow> u16 \<Rightarrow> int \<Rightarrow> user \<Rightarrow> iasys \<Rightarrow> (int \<times> bytes \<times> iasys) option" where
  "PacketProcessor A buff dataLen sip sport protoVer u st = do {
     r \<leftarrow> client_entry A sip sport protoVer u st;
     (case r of
        Inl st \<Rightarrow> Some (0, buff, st)
      | Inr (s, us) \<Rightarrow> do {
          let s = refresh_password sip u s;
          e \<leftarrow> ip_find sip s;
          body \<leftarrow> DecryptString (iu_ctx e) (unat (dataLen - of_nat ia_offset)) (drop ia_offset buff);
          let buff = put_bytes ia_offset body buff;
          let packetName = cstring (take (IA_MAX_TYPE_LEN - 1) (drop (ia_offset + 4) buff));
          (case packetTypes packetName of
             None \<Rightarrow>
               Some (0, buff, ip_erase sip (wrong_password A sip sport protoVer u s), us)
           | Some pt \<Rightarrow> do {
               (byMe, us) \<leftarrow> on_user (ie_env A) (\<lambda>E. IsAuthorizedBy E (ie_self A)) (u_id u) us;
               (if byMe \<and> u_currIP u \<noteq> sip
                then Some (0, buff, ip_erase sip (login_in_use A sip sport protoVer u s), us)
                else map_option (\<lambda>(rc, st). (rc, buff, st)) (dispatch A pt protoVer buff sip (s, us))) }) }) }"

definition CheckHeader :: "bytes \<Rightarrow> u32 \<Rightarrow> ia \<Rightarrow> int option \<times> ia" where
  "CheckHeader buff sip s =
     (let line = (\<lambda>t. ''IP: '' @ inet_ntostring sip @ ''. Header: '' @ t)
      in if take 5 buff \<noteq> text_bytes IA_ID then (None, log_proto (line ''invalid packed signature.'') s)
         else if buff ! 6 \<noteq> 0
         then (None, log_proto (line (''invalid protocol major version: '' @ show_int (sint (buff ! 6)) @ ''.'')) s)
         else if sint (buff ! 7) < 6
         then (None, log_proto (line (''invalid protocol minor version: '' @ show_int (sint (buff ! 7)) @ ''.'')) s)
         else (Some (sint (buff ! 7)), s))"

text \<open>What \<open>WaitPackets\<close> and \<open>recvfrom\<close> deliver; the sender's port is already in host byte order.\<close>

datatype recv_result = RecvTimeout | RecvEOF | RecvInterrupted | RecvError string | Datagram bytes u32 u16

definition refuse_user :: "ia_env \<Rightarrow> u32 \<Rightarrow> u16 \<Rightarrow> int \<Rightarrow> string \<Rightarrow> string \<Rightarrow> ia_error \<Rightarrow> ia \<Rightarrow> ia" where
  "refuse_user A sip sport protoVer login why err s =
     SendError A sip sport protoVer err (emit (Log (''Cannont authorize '' @ squote login @ '', user is '' @ why @ ''.'')) s)"

definition process_datagram ::
    "ia_env \<Rightarrow> bytes \<Rightarrow> nat \<Rightarrow> u32 \<Rightarrow> u16 \<Rightarrow> int \<Rightarrow> iasys \<Rightarrow> (int \<times> bytes \<times> iasys) option" where
  "process_datagram A buffer dataLen sip sport protoVer = (\<lambda>(s, us). do {
     loginS \<leftarrow> DecryptString (ia_ctxS s) PASSWD_LEN (drop 8 buffer);
     _ \<leftarrow> (if 0 \<in> set loginS then Some () else None);
     let login = cstring loginS;
     ((rc, i), us) \<leftarrow> Users_FindByName (ie_env A) login us;
     (case i of
        None \<Rightarrow>
          let s = emit (Log (''User'' @ CHR 0x27 # ''s connect failed: user '' @ squote login @ '' not found. IP '' @ inet_ntostring sip)) s
          in Some (- 1, buffer, SendError A sip sport protoVer WrongLogin s, us)
      | Some i \<Rightarrow> do {
          u \<leftarrow> user_at i us;
          (if is_disabled u then Some (0, buffer, refuse_user A sip sport protoVer login ''disabled'' UserDisabled s, us)
           else if is_passive u then Some (0, buffer, refuse_user A sip sport protoVer login ''passive'' UserPassive s, us)
           else if \<not> UserIPs_find (uc_ips (u_conf u)) sip
           then let s = emit (Log (''User '' @ u_login u @ ''. IP address is incorrect. IP '' @ inet_ntostring sip)) s
                in Some (0, buffer, SendError A sip sport protoVer WrongIP s, us)
           else PacketProcessor A buffer (of_nat dataLen) sip sport protoVer u (s, us)) }) })"

text \<open>The buffer of \<open>Run\<close> keeps what earlier datagrams left in it.\<close>

definition RecvData :: "ia_env \<Rightarrow> recv_result \<Rightarrow> bytes \<Rightarrow> iasys \<Rightarrow> (int \<times> bytes \<times> iasys) option" where
  "RecvData A r buffer = (\<lambda>(s, us). case r of
     RecvTimeout \<Rightarrow> Some (0, buffer, s, us)
   | RecvEOF \<Rightarrow> Some (0, buffer, s, us)
   | RecvInterrupted \<Rightarrow> Some (0, buffer, s, us)
   | RecvError err \<Rightarrow> Some (- 1, buffer, emit (Log (''recvfrom error: '' @ err)) s, us)
   | Datagram d sip sport \<Rightarrow>
       let d = take (length buffer) d; buffer = put_bytes 0 d buffer
       in if d = [] then Some (0, buffer, s, us)
          else if length d > 256 then Some (- 1, buffer, s, us)
          else (case CheckHeader buffer sip s of
              (None, s) \<Rightarrow> Some (- 1, buffer, s, us)
            | (Some protoVer, s) \<Rightarrow> process_datagram A buffer (length d) sip sport protoVer (s, us)))"

subsection \<open>Timeouts\<close>

definition timeout_line :: "ia_env \<Rightarrow> ia_user \<Rightarrow> string \<Rightarrow> int \<Rightarrow> string" where
  "timeout_line A e what limit = ''User '' @ squote (iu_login e) @ ''. Protocol version: '' @ show_int (iu_protoVer e) @ ''. '' @ what @ '' timeout (''
     @ show_fixed6 (UTIME_AsDouble (UTIME_minus (ie_now A) (iu_phaseTime e))) @ '' > '' @ show_int limit @ '').''"

definition elapsed :: "ia_env \<Rightarrow> utime \<Rightarrow> int \<Rightarrow> bool" where
  "elapsed A t limit = UTIME_greater (UTIME_minus (ie_now A) t) (UTIME limit 0)"

definition send_first_message :: "ia_env \<Rightarrow> u32 \<Rightarrow> iasys \<Rightarrow> iasys option" where
  "send_first_message A sip = (\<lambda>(s, us). do {
     e \<leftarrow> ip_find sip s;
     (case iu_messagesToSend e of
        [] \<Rightarrow> Some (s, us)
      | m # ms \<Rightarrow> do {
          (_, s) \<leftarrow> (if iu_protoVer e = 6 then RealSendMessage6 A m sip e s
                    else if iu_protoVer e = 7 then RealSendMessage7 A m sip e s
                    else if iu_protoVer e = 8 then RealSendMessage8 A m sip e s
                    else Some (0, s));
          Some (ip_upd sip (iu_messagesToSend_update (\<lambda>_. ms)) s, us) }) })"

definition send_alive :: "ia_env \<Rightarrow> u32 \<Rightarrow> iasys \<Rightarrow> iasys option" where
  "send_alive A sip = (\<lambda>(s, us). do {
     e \<leftarrow> ip_find sip s;
     (if elapsed A (iu_lastSendAlive e) (ias_userDelay (ia_settings s))
      then do {
        (_, s, us) \<leftarrow> (if iu_protoVer e = 6 \<or> iu_protoVer e = 7 then Send_ALIVE_SYN_6 A sip (s, us)
                      else if iu_protoVer e = 8 then Send_ALIVE_SYN_8 A sip (s, us)
                      else Some (0, s, us));
        Some (ip_upd sip (iu_lastSendAlive_update (\<lambda>_. ie_now A)) s, us) }
      else Some (s, us)) })"

definition Timeouter_user :: "ia_env \<Rightarrow> u32 \<Rightarrow> iasys \<Rightarrow> iasys option" where
  "Timeouter_user A sip = (\<lambda>(s, us). do {
     e \<leftarrow> ip_find sip s;
     let delay = ias_userDelay (ia_settings s);
     (if iu_phase e = 2 \<and> elapsed A (iu_phaseTime e) delay
      then Some (ip_erase sip (log_proto (timeout_line A e ''Phase 2: connect request'' delay) s), us)
      else if iu_phase e = 3
      then do {
        (s, us) \<leftarrow> send_first_message A sip (s, us);
        (s, us) \<leftarrow> send_alive A sip (s, us);
        e \<leftarrow> ip_find sip s;
        (if elapsed A (iu_phaseTime e) (ias_userTimeout (ia_settings s))
         then do {
           let s = log_proto (timeout_line A e ''Phase 3: alive'' (ias_userTimeout (ia_settings s))) s;
           u \<leftarrow> user_at (iu_user e) us;
           (_, us) \<leftarrow> Users_Unauthorize (ie_env A) (u_login u) (ie_self A) '''' us;
           Some (ip_erase sip s, us) }
         else Some (s, us)) }
      else if iu_phase e = 4 \<and> elapsed A (iu_phaseTime e) delay
      then Some (ip_upd sip (SetPhase A 3) (log_proto (timeout_line A e ''Phase 4: disconnect request'' delay) s), us)
      else Some (s, us)) })"

fun Timeouter_loop :: "ia_env \<Rightarrow> u32 list \<Rightarrow> iasys \<Rightarrow> iasys option" where
  "Timeouter_loop A [] st = Some st"
| "Timeouter_loop A (ip # ips) st = Timeouter_user A ip st \<bind> Timeouter_loop A ips"

text \<open>Each client once, in the order of the map.\<close>

definition Timeouter :: "ia_env \<Rightarrow> iasys \<Rightarrow> iasys option" where
  "Timeouter A st = Timeouter_loop A (map fst (ia_ip2user (fst st))) st"

subsection \<open>The life of the plugin\<close>

definition IA_DelUser :: "ia_env \<Rightarrow> int \<Rightarrow> iasys \<Rightarrow> iasys option" where
  "IA_DelUser A i = (\<lambda>(s, us). do {
     u \<leftarrow> user_at i us;
     let ip = u_currIP u;
     (if ip = 0 then Some (s, us)
      else case ip_find ip s of
        None \<Rightarrow> Some (s, us)
      | Some e \<Rightarrow>
          if iu_user e = i
          then map_option (\<lambda>(_, us). (ip_erase ip s, us)) (Users_Unauthorize (ie_env A) (u_login u) (ie_self A) '''' us)
          else Some (s, us)) })"

text \<open>\<open>PrepareNet\<close>: whether the socket can be made and bound, with the texts of the errors.\<close>

datatype net_result = NetOk | NoSocket string | NoBind string

definition PrepareNet :: "net_result \<Rightarrow> ia \<Rightarrow> int \<times> ia" where
  "PrepareNet r s = (case r of
     NetOk \<Rightarrow> (0, s)
   | NoSocket err \<Rightarrow> (- 1, emit (Log (''Cannot create a socket: '' @ err)) (s\<lparr>ia_errorStr := ''Cannot create socket.''\<rparr>))
   | NoBind err \<Rightarrow> (- 1, emit (Log (''Cannot bind the socket: '' @ err)) (s\<lparr>ia_errorStr := ''AUTH_IA: Bind failed.''\<rparr>)))"

text \<open>Starting the two threads makes them run; \<open>Stop\<close> withdraws the authorization of every client and keeps the
  entries.\<close>

definition IA_Start :: "net_result \<Rightarrow> ia \<Rightarrow> int \<times> ia" where
  "IA_Start r s = (let (rc, s) = PrepareNet r s in
     if rc \<noteq> 0 then (- 1, s) else (0, s\<lparr>ia_errorStr := '''', ia_isRunningRun := True, ia_isRunningRunTimeouter := True\<rparr>))"

fun unauthorize_all :: "ia_env \<Rightarrow> (u32 \<times> ia_user) list \<Rightarrow> users \<Rightarrow> users option" where
  "unauthorize_all A [] us = Some us"
| "unauthorize_all A ((ip, e) # es) us = do {
     u \<leftarrow> user_at (iu_user e) us;
     (_, us) \<leftarrow> Users_Unauthorize (ie_env A) (u_login u) (ie_self A) '''' us;
     unauthorize_all A es us }"

text \<open>\<open>ended\<close> tells whether the two threads end within the time \<open>Stop\<close> waits for them.\<close>

definition IA_Stop :: "ia_env \<Rightarrow> bool \<times> bool \<Rightarrow> iasys \<Rightarrow> (int \<times> iasys) option" where
  "IA_Stop A ended = (\<lambda>(s, us).
     if \<not> (ia_isRunningRunTimeouter s \<or> ia_isRunningRun s) then Some (0, s, us)
     else do {
       us \<leftarrow> unauthorize_all A (ia_ip2user s) us;
       let s = s\<lparr>ia_isRunningRun := ia_isRunningRun s \<and> \<not> fst ended,
                 ia_isRunningRunTimeouter := ia_isRunningRunTimeouter s \<and> \<not> snd ended\<rparr>;
       Some (if ia_isRunningRun s \<or> ia_isRunningRunTimeouter s then - 1 else 0, s, us) })"

definition ParseSettings :: "module_settings \<Rightarrow> ia \<Rightarrow> int \<times> ia" where
  "ParseSettings ms s =
     (let (ret, ias) = IA_ParseSettings ms (ia_settings s); s = s\<lparr>ia_settings := ias\<rparr>
      in (ret, if ret \<noteq> 0 then s\<lparr>ia_errorStr := ias_errorStr ias\<rparr> else s))"

definition IA_Reload :: "module_settings \<Rightarrow> ia \<Rightarrow> int \<times> ia" where
  "IA_Reload ms s =
     (let (ret, ias) = IA_ParseSettings ms AUTH_IA_SETTINGS
      in if ret \<noteq> 0 then (- 1, emit (Log ''AUTH_IA: Cannot reload InetAccess. Errors found.'') s)
         else (0, (emit (Log ''AUTH_IA: Reloaded InetAccess successfully.'') s)\<lparr>ia_settings := ias\<rparr>))"

text \<open>One turn of \<open>Run\<close>, whose locals are the buffer and the time the monitoring file was touched; one turn of
  \<open>RunTimeouter\<close>, whose local is the counter of turns.\<close>

definition IA_Run_turn :: "ia_env \<Rightarrow> recv_result \<Rightarrow> (bytes \<times> time_t) \<Rightarrow> iasys \<Rightarrow> ((bytes \<times> time_t) \<times> iasys) option" where
  "IA_Run_turn A r = (\<lambda>(buffer, touchTime) st. do {
     (_, buffer, s, us) \<leftarrow> RecvData A r buffer st;
     Some (if touchTime + MONITOR_TIME_DELAY_SEC \<le> e_stgTime (ie_env A) \<and> ie_monitoring A
           then ((buffer, e_stgTime (ie_env A)), emit (TouchFile (ie_monitorDir A @ ''/inetaccess_r'')) s, us)
           else ((buffer, touchTime), s, us)) })"

definition IA_RunTimeouter_turn :: "ia_env \<Rightarrow> int \<Rightarrow> iasys \<Rightarrow> (int \<times> iasys) option" where
  "IA_RunTimeouter_turn A a st = do {
     (s, us) \<leftarrow> Timeouter A st;
     let a = i32 (a + 1);
     Some (a, if a smod (50 * 60) = 0 \<and> ie_monitoring A then emit (TouchFile (ie_monitorDir A @ ''/inetaccess_t'')) s else s, us) }"

end
