(* ===== verification/Stg_IAInv.thy ===== *)
theory Stg_IAInv
  imports Stg_InetAccess
begin

text \<open>
  What the InetAccess plugin keeps: the map of clients is ordered, every client has a phase from 1 to 4 and the cipher
  of the password stored with it, the buffers of the packets have their sizes; a client in phase 3 or 4 is a user who is
  authorized by the plugin at the client's address.
\<close>

subsection \<open>The map of clients\<close>

interpretation ipm: keyed_order "\<lambda>_. True" "(<)" "id :: u32 \<Rightarrow> u32"
  by unfold_locales simp

abbreviation ips_ok :: "(u32 \<times> ia_user) list \<Rightarrow> bool" where
  "ips_ok \<equiv> keys_ok (\<lambda>_. True) (<)"

lemma ips_ok_erase: "ips_ok ps \<Longrightarrow> ips_ok (filter (\<lambda>p. fst p \<noteq> k) ps)"
  by (induction ps) (auto simp: ipm.keys_ok_Cons)

lemma find_erase: "ips_ok ps \<Longrightarrow> map_find (<) j (filter (\<lambda>p. fst p \<noteq> k) ps) = (if j = k then None else map_find (<) j ps)"
proof (induction ps)
  case (Cons p ps)
  obtain a w where p: "p = (a, w)" by force
  have none: "map_find (<) j qs = None" if "\<forall>q\<in>set qs. j < fst q" for qs :: "(u32 \<times> ia_user) list"
    using that by (cases qs) auto
  have "map_find (<) j ps = None" if "j \<le> a"
    using Cons.prems that by (intro none) (auto simp: p ipm.keys_ok_Cons)
  then show ?case using Cons by (auto simp: p ipm.keys_ok_Cons)
qed simp

lemma find_in_set: "ips_ok ps \<Longrightarrow> (ip, e) \<in> set ps \<longleftrightarrow> map_find (<) ip ps = Some e"
proof (induction ps)
  case (Cons p ps)
  then show ?case by (cases p) (auto simp: ipm.keys_ok_Cons)
qed simp

lemma ip_find_upd [simp]:
  "ips_ok (ia_ip2user s) \<Longrightarrow> ip_find j (ip_upd k f s) = (if k = j then map_option f (ip_find j s) else ip_find j s)"
  by (simp add: ip_upd_def ipm.find_change)

lemma ip_find_erase [simp]: "ips_ok (ia_ip2user s) \<Longrightarrow> ip_find j (ip_erase k s) = (if j = k then None else ip_find j s)"
  by (simp add: ip_erase_def find_erase)

lemma ips_ok_upd [simp]: "ips_ok (ia_ip2user (ip_upd k f s)) = ips_ok (ia_ip2user s)"
  by (simp add: ip_upd_def)

lemma ips_ok_erase' [simp]: "ips_ok (ia_ip2user s) \<Longrightarrow> ips_ok (ia_ip2user (ip_erase k s))"
  by (simp add: ip_erase_def ips_ok_erase)

subsection \<open>The invariant\<close>

text \<open>The eight buffers.\<close>

definition ia_buffers :: "ia \<Rightarrow> nat list" where
  "ia_buffers s = map length [ia_connSynAck6 s, ia_connSynAck8 s, ia_disconnSynAck6 s, ia_disconnSynAck8 s, ia_aliveSyn6 s,
     ia_aliveSyn8 s, ia_fin6 s, ia_fin8 s]"

definition key_of :: "string \<Rightarrow> blowfish_ctx" where
  "key_of pass = InitContext pass (length pass)"

definition client_ok :: "ia_user \<Rightarrow> bool" where
  "client_ok e \<longleftrightarrow> iu_phase e \<in> {1, 2, 3, 4} \<and> iu_ctx e = key_of (iu_password e)"

definition ia_inv :: "ia \<Rightarrow> bool" where
  "ia_inv s \<longleftrightarrow> ips_ok (ia_ip2user s) \<and> (\<forall>ip e. ip_find ip s = Some e \<longrightarrow> client_ok e)
     \<and> ia_ctxS s = InitContext ''pr7Hhen'' 7 \<and> ia_buffers s = [192, 200, 24, 32, 368, 384, 24, 32]"

text \<open>What the rest of the plugin sees of a client.\<close>

definition client_view :: "ia_user \<Rightarrow> int \<times> string \<times> int" where
  "client_view e = (iu_user e, iu_login e, iu_phase e)"

definition clients :: "ia \<Rightarrow> u32 \<rightharpoonup> int \<times> string \<times> int" where
  "clients s ip = map_option client_view (ip_find ip s)"

lemma strncpy_key: "put_bytes 0 (strncpy (min (length p) n) p) (replicate n 0) = strncpy n p"
proof -
  let ?w = "map byte_of (takeWhile (\<lambda>c. byte_of c \<noteq> 0) p)"
  have "length ?w \<le> length p" by (simp add: length_takeWhile_le)
  then show ?thesis
    by (auto simp: put_bytes_def strncpy_def min_def replicate_add [symmetric])
qed

lemma key_of_new: "Blowfish_Init (strncpy PASSWD_LEN p) = key_of p"
  by (simp add: key_of_def InitContext_def strncpy_key)

lemma AUTH_IA_inv: "ia_inv (AUTH_IA tr)"
  by (simp add: ia_inv_def AUTH_IA_def key_of_def ia_buffers_def sizeofs keys_ok_def)

text \<open>Operations that leave the invariant and the view as they are.\<close>

definition quiet :: "ia \<Rightarrow> ia \<Rightarrow> bool" where
  "quiet s s' \<longleftrightarrow> (ia_inv s \<longrightarrow> ia_inv s' \<and> clients s' = clients s)"

lemma quiet_trans: "quiet a b \<Longrightarrow> quiet b c \<Longrightarrow> quiet a c"
  by (simp add: quiet_def)

lemma quiet_same:
  "ia_ip2user s' = ia_ip2user s \<Longrightarrow> ia_ctxS s' = ia_ctxS s \<Longrightarrow> ia_buffers s' = ia_buffers s \<Longrightarrow> quiet s s'"
  by (simp add: quiet_def ia_inv_def clients_def fun_eq_iff)

lemma quiet_upd:
  assumes "\<And>e. client_view (f e) = client_view e" and "\<And>e. client_ok e \<Longrightarrow> client_ok (f e)"
  shows "quiet s (ip_upd ip f s)"
  using assms by (auto simp: quiet_def ia_inv_def clients_def ip_upd_def ia_buffers_def ipm.find_change fun_eq_iff option.map_comp comp_def
      split: if_splits)

lemma IA_Send_fields [simp]:
  "ia_ip2user (snd (IA_Send A ip p bs s)) = ia_ip2user s" "ia_ctxS (snd (IA_Send A ip p bs s)) = ia_ctxS s"
  "ia_buffers (snd (IA_Send A ip p bs s)) = ia_buffers s" "ia_settings (snd (IA_Send A ip p bs s)) = ia_settings s"
  by (simp_all add: IA_Send_def ia_buffers_def)

lemma SendError_fields [simp]:
  "ia_ip2user (SendError A ip p v err s) = ia_ip2user s" "ia_ctxS (SendError A ip p v err s) = ia_ctxS s"
  "ia_buffers (SendError A ip p v err s) = ia_buffers s" "ia_settings (SendError A ip p v err s) = ia_settings s"
  by (simp_all add: SendError_def Let_def)

lemma ia_emit_fields [simp]:
  "ia_ip2user (emit x s) = ia_ip2user s" "ia_ctxS (emit x s) = ia_ctxS s" "ia_buffers (emit x s) = ia_buffers s"
  "ia_settings (emit x s) = ia_settings s"
  by (simp_all add: emit_def ia_buffers_def)

lemma log_proto_fields [simp]:
  "ia_ip2user (log_proto m s) = ia_ip2user s" "ia_ctxS (log_proto m s) = ia_ctxS s" "ia_buffers (log_proto m s) = ia_buffers s"
  "ia_settings (log_proto m s) = ia_settings s"
  by (simp_all add: log_proto_def)

lemma log_mismatch_fields [simp]:
  "ia_ip2user (log_mismatch w p r ip e s) = ia_ip2user s" "ia_ctxS (log_mismatch w p r ip e s) = ia_ctxS s"
  "ia_buffers (log_mismatch w p r ip e s) = ia_buffers s"
  by (simp_all add: log_mismatch_def Let_def)

lemma draw_fields [simp]:
  "ia_ip2user (snd (draw A s)) = ia_ip2user s" "ia_ctxS (snd (draw A s)) = ia_ctxS s" "ia_buffers (snd (draw A s)) = ia_buffers s"
  by (simp_all add: draw_def ia_buffers_def)

subsection \<open>Sending keeps the invariant\<close>

lemma length_put_fields:
  "list_all (\<lambda>(off, bs). off + length bs \<le> length mem) fs \<Longrightarrow> length (put_fields fs mem) = length mem"
  unfolding put_fields_def by (induction fs arbitrary: mem) auto

lemma length_text_bytes [simp]: "length (text_bytes t) = length t"
  by (simp add: text_bytes_def)

lemma length_snprintf16: "length (snprintf16 t) \<le> 16"
  by (simp add: snprintf16_def IA_FREEMB_LEN_def)

lemma length_put_dirNames: "off + 160 \<le> length buf \<Longrightarrow> length (put_dirNames A off buf) = length buf"
  unfolding put_dirNames_def
  by (rule length_put_fields) (auto simp: list_all_iff DIR_NUM_def)

lemma sz8_sizes [simp]:
  "sz8 192 = 192" "sz8 200 = 200" "sz8 24 = 24" "sz8 32 = 32" "sz8 368 = 368" "sz8 384 = 384"
  by (simp_all add: sz8_def Min8_def)

lemma encrypt_in_place_Some:
  assumes "length buf = n" and "8 dvd n"
  shows "encrypt_in_place ctx n buf = Some (ecb (EncryptBlock ctx) buf)" "length (ecb (EncryptBlock ctx) buf) = n"
proof -
  show "length (ecb (EncryptBlock ctx) buf) = n" using assms by (simp add: length_ecb)
  then show "encrypt_in_place ctx n buf = Some (ecb (EncryptBlock ctx) buf)"
    using assms by (simp add: encrypt_in_place_def EncryptString_ecb pad8_dvd put_bytes_def)
qed

lemma length_stat_fields:
  "off + 320 \<le> n \<Longrightarrow> list_all (\<lambda>(o1, bs). o1 + length bs \<le> n) (stat_fields off u)"
  by (auto simp: stat_fields_def list_all_iff DIR_NUM_def)

lemma length_freeMb_field: "freeMb_field A s u = Some b \<Longrightarrow> length b \<le> 16"
  using length_snprintf16 by (auto simp: freeMb_field_def Let_def bind_eq_Some_conv split: if_splits)


text \<open>Every packet the plugin sends is written into its buffer, encrypted there and sent.\<close>

lemma quiet_rnd: "quiet s (ip_upd ip (iu_rnd_update g) s)"
  by (rule quiet_upd) (simp_all add: client_view_def client_ok_def)

lemma quiet_send:
  assumes "ia_inv s \<Longrightarrow> ia_buffers s' = ia_buffers s" and "ia_ip2user s' = ia_ip2user (ip_upd ip (iu_rnd_update g) s)"
    and "ia_ctxS s' = ia_ctxS s"
  shows "quiet s s'"
proof -
  have "quiet (ip_upd ip (iu_rnd_update g) s) s'" if "ia_inv s"
    using assms that by (intro quiet_same) (simp_all add: ip_upd_def ia_buffers_def)
  then show ?thesis using quiet_rnd [of s ip g] by (simp add: quiet_def)
qed

lemma ia_inv_lengths:
  assumes "ia_inv s"
  shows "length (ia_connSynAck6 s) = 192" "length (ia_connSynAck8 s) = 200" "length (ia_disconnSynAck6 s) = 24"
    "length (ia_disconnSynAck8 s) = 32" "length (ia_aliveSyn6 s) = 368" "length (ia_aliveSyn8 s) = 384" "length (ia_fin6 s) = 24"
    "length (ia_fin8 s) = 32"
  using assms by (simp_all add: ia_inv_def ia_buffers_def)

lemma ia_inv_ips [simp]: "ia_inv s \<Longrightarrow> ips_ok (ia_ip2user s)"
  by (simp add: ia_inv_def)

lemma draw_eq: "draw A s = (ie_random A (ia_draws s), s\<lparr>ia_draws := Suc (ia_draws s)\<rparr>)"
  by (simp add: draw_def)

text \<open>The state in which the control number has been drawn.\<close>

definition drawn :: "ia_env \<Rightarrow> u32 \<Rightarrow> ia \<Rightarrow> ia" where
  "drawn A ip s = ip_upd ip (iu_rnd_update (\<lambda>_. ie_random A (ia_draws s))) (s\<lparr>ia_draws := Suc (ia_draws s)\<rparr>)"

lemma drawn_fields [simp]:
  "ia_ctxS (drawn A ip s) = ia_ctxS s" "ia_buffers (drawn A ip s) = ia_buffers s" "ia_settings (drawn A ip s) = ia_settings s"
  "ia_connSynAck6 (drawn A ip s) = ia_connSynAck6 s" "ia_connSynAck8 (drawn A ip s) = ia_connSynAck8 s"
  "ia_disconnSynAck6 (drawn A ip s) = ia_disconnSynAck6 s" "ia_disconnSynAck8 (drawn A ip s) = ia_disconnSynAck8 s"
  "ia_aliveSyn6 (drawn A ip s) = ia_aliveSyn6 s" "ia_aliveSyn8 (drawn A ip s) = ia_aliveSyn8 s"
  "ia_sent (drawn A ip s) = ia_sent s" "ia_fin6 (drawn A ip s) = ia_fin6 s" "ia_fin8 (drawn A ip s) = ia_fin8 s"
  "ia_ip2user (drawn A ip s) = ia_ip2user (ip_upd ip (iu_rnd_update (\<lambda>_. ie_random A (ia_draws s))) s)"
  by (simp_all add: drawn_def ip_upd_def ia_buffers_def)

lemma drawn_find [simp]:
  "ips_ok (ia_ip2user s) \<Longrightarrow> ip_find j (drawn A ip s) =
     (if ip = j then map_option (iu_rnd_update (\<lambda>_. ie_random A (ia_draws s))) (ip_find j s) else ip_find j s)"
  by (simp add: drawn_def)

lemma drawn_fold:
  "ip_upd ip (iu_rnd_update (\<lambda>_. ie_random A (ia_draws s))) (s\<lparr>ia_draws := Suc (ia_draws s)\<rparr>) = drawn A ip s"
  by (simp add: drawn_def)

definition conn_syn_ack6 :: "ia_env \<Rightarrow> ia \<Rightarrow> bytes" where
  "conn_syn_ack6 A s = put_fields [(20, word_bytes 4 (ie_random A (ia_draws s))),
     (24, word_bytes 4 (word_of_int (ias_userTimeout (ia_settings s)) :: u32)), (28, word_bytes 4 (word_of_int (ias_userDelay (ia_settings s)) :: u32))]
     (put_dirNames A 32 (put_fields [(0, word_bytes 4 (192 :: u32)), (4, text_bytes ''CONN_SYN_ACK'')] (ia_connSynAck6 s)))"

definition conn_syn_ack8 :: "ia_env \<Rightarrow> ia \<Rightarrow> bytes" where
  "conn_syn_ack8 A s = put_fields [(28, word_bytes 4 (ie_random A (ia_draws s))),
     (32, word_bytes 4 (word_of_int (ias_userTimeout (ia_settings s)) :: u32)), (36, word_bytes 4 (word_of_int (ias_userDelay (ia_settings s)) :: u32))]
     (put_dirNames A 40 (put_fields (hdr8 @ [(8, word_bytes 4 (200 :: u32)), (12, text_bytes ''CONN_SYN_ACK'')]) (ia_connSynAck8 s)))"

lemma length_conn_syn_ack:
  assumes "ia_inv s"
  shows "length (conn_syn_ack6 A s) = 192" "length (conn_syn_ack8 A s) = 200"
  using ia_inv_lengths [OF assms]
  by (simp_all add: conn_syn_ack6_def conn_syn_ack8_def length_put_fields length_put_dirNames hdr8_def IA_ID_def)

lemma Send_CONN_SYN_ACK_6_eq:
  assumes "ia_inv s" and "ip_find sip s = Some e"
  shows "Send_CONN_SYN_ACK_6 A sip s = (let bs = ecb (EncryptBlock (iu_ctx e)) (conn_syn_ack6 A s)
    in Some (IA_Send A sip (ias_port (ia_settings s)) bs ((drawn A sip s)\<lparr>ia_connSynAck6 := bs\<rparr>)))"
  using encrypt_in_place_Some [OF length_conn_syn_ack(1) [OF assms(1)], of "iu_ctx e" A] assms
  by (simp add: Send_CONN_SYN_ACK_6_def draw_eq drawn_fold sizeofs Let_def conn_syn_ack6_def)

lemma Send_CONN_SYN_ACK_8_eq:
  assumes "ia_inv s" and "ip_find sip s = Some e"
  shows "Send_CONN_SYN_ACK_8 A sip s = (let bs = ecb (EncryptBlock (iu_ctx e)) (conn_syn_ack8 A s)
    in Some (IA_Send A sip (iu_port e) bs ((drawn A sip s)\<lparr>ia_connSynAck8 := bs\<rparr>)))"
  using encrypt_in_place_Some [OF length_conn_syn_ack(2) [OF assms(1)], of "iu_ctx e" A] assms
  by (simp add: Send_CONN_SYN_ACK_8_def draw_eq drawn_fold sizeofs Let_def conn_syn_ack8_def)

definition alive_syn6 :: "ia_env \<Rightarrow> bytes \<Rightarrow> u64 \<Rightarrow> user \<Rightarrow> ia \<Rightarrow> bytes" where
  "alive_syn6 A fmb c u s = put_fields ([(0, word_bytes 4 (368 :: u32)), (20, word_bytes 4 (ie_random A (ia_draws s))), (4, text_bytes ''ALIVE_SYN'')]
     @ stat_fields 24 u @ [(352, fmb), (344, word_bytes 8 c)]) (ia_aliveSyn6 s)"

definition alive_syn8 :: "ia_env \<Rightarrow> bytes \<Rightarrow> u64 \<Rightarrow> user \<Rightarrow> ia \<Rightarrow> bytes" where
  "alive_syn8 A fmb c u s = put_fields (hdr8 @ [(8, word_bytes 4 (384 :: u32)), (28, word_bytes 4 (ie_random A (ia_draws s))), (12, text_bytes ''ALIVE_SYN'')]
     @ stat_fields 32 u @ [(360, fmb), (352, word_bytes 8 c)]) (ia_aliveSyn8 s)"

lemma length_alive_syn:
  assumes "ia_inv s" and "length fmb \<le> 16"
  shows "length (alive_syn6 A fmb c u s) = 368" "length (alive_syn8 A fmb c u s) = 384"
  using ia_inv_lengths [OF assms(1)] assms(2)
  by (simp_all add: alive_syn6_def alive_syn8_def length_put_fields length_stat_fields hdr8_def IA_ID_def)

lemma Send_ALIVE_SYN_6_eq:
  assumes "ia_inv s" and "ip_find sip s = Some e"
  shows "Send_ALIVE_SYN_6 A sip (s, us) = do {
    u \<leftarrow> user_at (iu_user e) us; fmb \<leftarrow> freeMb_field A s u; c \<leftarrow> cash_field A u;
    let bs = ecb (EncryptBlock (iu_ctx e)) (alive_syn6 A fmb c u s);
    let (rc, s) = IA_Send A sip (ias_port (ia_settings s)) bs ((drawn A sip s)\<lparr>ia_aliveSyn6 := bs\<rparr>);
    Some (rc, s, us) }"
proof -
  have f: "freeMb_field A (drawn A sip s) u = freeMb_field A s u" for u by (simp add: freeMb_field_def)
  have "encrypt_in_place ctx 368 (alive_syn6 A fmb c u s) = Some (ecb (EncryptBlock ctx) (alive_syn6 A fmb c u s))
      \<and> length (ecb (EncryptBlock ctx) (alive_syn6 A fmb c u s)) = 368"
    if "length fmb \<le> 16" for fmb c u ctx
    using encrypt_in_place_Some [OF length_alive_syn(1) [OF assms(1) that]] by simp
  with assms f show ?thesis
    by (auto simp: Send_ALIVE_SYN_6_def draw_eq drawn_fold sizeofs Let_def alive_syn6_def
        intro!: Option.bind_cong dest!: length_freeMb_field)
qed

lemma Send_ALIVE_SYN_8_eq:
  assumes "ia_inv s" and "ip_find sip s = Some e"
  shows "Send_ALIVE_SYN_8 A sip (s, us) = do {
    u \<leftarrow> user_at (iu_user e) us; fmb \<leftarrow> freeMb_field A s u; c \<leftarrow> cash_field A u;
    let bs = ecb (EncryptBlock (iu_ctx e)) (alive_syn8 A fmb c u s);
    let (rc, s) = IA_Send A sip (iu_port e) bs ((drawn A sip s)\<lparr>ia_aliveSyn8 := bs\<rparr>);
    Some (rc, s, us) }"
proof -
  have f: "freeMb_field A (drawn A sip s) u = freeMb_field A s u" for u by (simp add: freeMb_field_def)
  have "encrypt_in_place ctx 384 (alive_syn8 A fmb c u s) = Some (ecb (EncryptBlock ctx) (alive_syn8 A fmb c u s))
      \<and> length (ecb (EncryptBlock ctx) (alive_syn8 A fmb c u s)) = 384"
    if "length fmb \<le> 16" for fmb c u ctx
    using encrypt_in_place_Some [OF length_alive_syn(2) [OF assms(1) that]] by simp
  with assms f show ?thesis
    by (auto simp: Send_ALIVE_SYN_8_def draw_eq drawn_fold sizeofs Let_def alive_syn8_def
        intro!: Option.bind_cong dest!: length_freeMb_field)
qed

definition disconn_syn_ack6 :: "ia_env \<Rightarrow> ia \<Rightarrow> bytes" where
  "disconn_syn_ack6 A s = put_fields [(0, word_bytes 4 (24 :: u32)), (4, text_bytes ''DISCONN_SYN_ACK''),
     (20, word_bytes 4 (ie_random A (ia_draws s)))] (ia_disconnSynAck6 s)"

definition disconn_syn_ack8 :: "ia_env \<Rightarrow> ia \<Rightarrow> bytes" where
  "disconn_syn_ack8 A s = put_fields (hdr8 @ [(8, word_bytes 4 (32 :: u32)), (12, text_bytes ''DISCONN_SYN_ACK''),
     (28, word_bytes 4 (ie_random A (ia_draws s)))]) (ia_disconnSynAck8 s)"

lemma length_disconn_syn_ack:
  assumes "ia_inv s"
  shows "length (disconn_syn_ack6 A s) = 24" "length (disconn_syn_ack8 A s) = 32"
  using ia_inv_lengths [OF assms]
  by (simp_all add: disconn_syn_ack6_def disconn_syn_ack8_def length_put_fields hdr8_def IA_ID_def)

lemma Send_DISCONN_SYN_ACK_6_eq:
  assumes "ia_inv s" and "ip_find sip s = Some e"
  shows "Send_DISCONN_SYN_ACK_6 A sip s = (let bs = ecb (EncryptBlock (iu_ctx e)) (disconn_syn_ack6 A s)
    in Some (IA_Send A sip (ias_port (ia_settings s)) bs ((drawn A sip s)\<lparr>ia_disconnSynAck6 := bs\<rparr>)))"
  using encrypt_in_place_Some [OF length_disconn_syn_ack(1) [OF assms(1)], of "iu_ctx e" A] assms
  by (simp add: Send_DISCONN_SYN_ACK_6_def draw_eq drawn_fold sizeofs Let_def disconn_syn_ack6_def)

lemma Send_DISCONN_SYN_ACK_8_eq:
  assumes "ia_inv s" and "ip_find sip s = Some e"
  shows "Send_DISCONN_SYN_ACK_8 A sip s = (let bs = ecb (EncryptBlock (iu_ctx e)) (disconn_syn_ack8 A s)
    in Some (IA_Send A sip (iu_port e) bs ((drawn A sip s)\<lparr>ia_disconnSynAck8 := bs\<rparr>)))"
  using encrypt_in_place_Some [OF length_disconn_syn_ack(2) [OF assms(1)], of "iu_ctx e" A] assms
  by (simp add: Send_DISCONN_SYN_ACK_8_def draw_eq drawn_fold sizeofs Let_def disconn_syn_ack8_def)

definition fin6 :: "ia \<Rightarrow> bytes" where
  "fin6 s = put_fields [(0, word_bytes 4 (24 :: u32)), (4, text_bytes ''FIN''), (20, text_bytes ''OK'')] (ia_fin6 s)"

definition fin8 :: "ia \<Rightarrow> bytes" where
  "fin8 s = put_fields (hdr8 @ [(8, word_bytes 4 (32 :: u32)), (12, text_bytes ''FIN''), (28, text_bytes ''OK'')]) (ia_fin8 s)"

lemma length_fin:
  assumes "ia_inv s"
  shows "length (fin6 s) = 24" "length (fin8 s) = 32"
  using ia_inv_lengths [OF assms] by (simp_all add: fin6_def fin8_def length_put_fields hdr8_def IA_ID_def)

lemma Send_FIN_6_eq:
  assumes "ia_inv s" and "ip_find sip s = Some e"
  shows "Send_FIN_6 A sip (s, us) = do {
    (_, us) \<leftarrow> Users_Unauthorize (ie_env A) (iu_login e) (ie_self A) '''' us;
    let bs = ecb (EncryptBlock (iu_ctx e)) (fin6 s);
    let (rc, s) = IA_Send A sip (ias_port (ia_settings s)) bs (s\<lparr>ia_fin6 := bs\<rparr>);
    Some (rc, ip_erase sip s, us) }"
  using encrypt_in_place_Some [OF length_fin(1) [OF assms(1)], of "iu_ctx e"] assms
  by (simp add: Send_FIN_6_def sizeofs Let_def fin6_def)

lemma Send_FIN_8_eq:
  assumes "ia_inv s" and "ip_find sip s = Some e"
  shows "Send_FIN_8 A sip (s, us) = do {
    (_, us) \<leftarrow> Users_Unauthorize (ie_env A) (iu_login e) (ie_self A) '''' us;
    let bs = ecb (EncryptBlock (iu_ctx e)) (fin8 s);
    let (rc, s) = IA_Send A sip (iu_port e) bs (s\<lparr>ia_fin8 := bs\<rparr>);
    Some (rc, ip_erase sip s, us) }"
  using encrypt_in_place_Some [OF length_fin(2) [OF assms(1)], of "iu_ctx e"] assms
  by (simp add: Send_FIN_8_def sizeofs Let_def fin8_def)

lemma sent_inv:
  assumes "ia_inv s" and "ia_buffers t = ia_buffers s" and "ia_ip2user t = ia_ip2user (drawn A sip s)" and "ia_ctxS t = ia_ctxS s"
  shows "ia_inv t \<and> clients t = clients s"
  using quiet_send [of s t sip] assms by (auto simp: quiet_def)

lemma Send_no_entry:
  assumes "ia_inv s" and "ip_find sip s = None"
  shows "Send_CONN_SYN_ACK_6 A sip s = None" "Send_CONN_SYN_ACK_8 A sip s = None" "Send_ALIVE_SYN_6 A sip (s, us) = None"
    "Send_ALIVE_SYN_8 A sip (s, us) = None" "Send_DISCONN_SYN_ACK_6 A sip s = None" "Send_DISCONN_SYN_ACK_8 A sip s = None"
    "Send_FIN_6 A sip (s, us) = None" "Send_FIN_8 A sip (s, us) = None"
proof -
  have "ip_find sip (drawn A sip s) = None" using assms by simp
  then show "Send_CONN_SYN_ACK_6 A sip s = None" "Send_CONN_SYN_ACK_8 A sip s = None" "Send_ALIVE_SYN_6 A sip (s, us) = None"
    "Send_ALIVE_SYN_8 A sip (s, us) = None" "Send_DISCONN_SYN_ACK_6 A sip s = None" "Send_DISCONN_SYN_ACK_8 A sip s = None"
    "Send_FIN_6 A sip (s, us) = None" "Send_FIN_8 A sip (s, us) = None"
    using assms
    by (simp_all del: drawn_fields drawn_find add: Send_CONN_SYN_ACK_6_def Send_CONN_SYN_ACK_8_def Send_ALIVE_SYN_6_def Send_ALIVE_SYN_8_def
        Send_DISCONN_SYN_ACK_6_def Send_DISCONN_SYN_ACK_8_def Send_FIN_6_def Send_FIN_8_def draw_eq drawn_fold Let_def)
qed

lemma buffer_upd:
  assumes "ia_inv s"
  shows "length b = 192 \<Longrightarrow> ia_buffers ((drawn A ip s)\<lparr>ia_connSynAck6 := b\<rparr>) = ia_buffers s"
    "length b = 200 \<Longrightarrow> ia_buffers ((drawn A ip s)\<lparr>ia_connSynAck8 := b\<rparr>) = ia_buffers s"
    "length b = 368 \<Longrightarrow> ia_buffers ((drawn A ip s)\<lparr>ia_aliveSyn6 := b\<rparr>) = ia_buffers s"
    "length b = 384 \<Longrightarrow> ia_buffers ((drawn A ip s)\<lparr>ia_aliveSyn8 := b\<rparr>) = ia_buffers s"
    "length b = 24 \<Longrightarrow> ia_buffers ((drawn A ip s)\<lparr>ia_disconnSynAck6 := b\<rparr>) = ia_buffers s"
    "length b = 32 \<Longrightarrow> ia_buffers ((drawn A ip s)\<lparr>ia_disconnSynAck8 := b\<rparr>) = ia_buffers s"
    "length b = 24 \<Longrightarrow> ia_buffers (s\<lparr>ia_fin6 := b\<rparr>) = ia_buffers s"
    "length b = 32 \<Longrightarrow> ia_buffers (s\<lparr>ia_fin8 := b\<rparr>) = ia_buffers s"
  using ia_inv_lengths [OF assms] by (simp_all add: ia_buffers_def)

lemma length_encrypted: "8 dvd length b \<Longrightarrow> length (ecb (EncryptBlock ctx) b) = length b"
  by (simp add: length_ecb)

lemmas packet_lengths = length_conn_syn_ack length_disconn_syn_ack length_fin

lemma sent_keeps:
  assumes "ia_inv s" and "IA_Send A sip p bs t = (rc, s')" and "ia_buffers t = ia_buffers s"
    and "ia_ip2user t = ia_ip2user (drawn A sip s)" and "ia_ctxS t = ia_ctxS s"
  shows "ia_inv s' \<and> clients s' = clients s"
  using sent_inv [OF assms(1), of s' A sip] assms IA_Send_fields [of A sip p bs t] by simp

text \<open>A result that keeps the invariant and the view of the clients.\<close>

definition keeps :: "ia \<Rightarrow> (int \<times> ia) option \<Rightarrow> bool" where
  "keeps s r \<longleftrightarrow> (\<forall>rc s'. r = Some (rc, s') \<longrightarrow> ia_inv s' \<and> clients s' = clients s)"

lemma keeps_None [simp]: "keeps s None"
  by (simp add: keeps_def)

lemma keeps_sent:
  assumes "ia_inv s" and "ia_buffers t = ia_buffers s" and "ia_ip2user t = ia_ip2user (drawn A sip s)" and "ia_ctxS t = ia_ctxS s"
  shows "keeps s (Some (IA_Send A sip p bs t))"
  unfolding keeps_def using assms by (auto dest: sent_keeps)

lemma Send_keeps:
  assumes "ia_inv s"
  shows "keeps s (Send_CONN_SYN_ACK_6 A sip s)" "keeps s (Send_CONN_SYN_ACK_8 A sip s)"
    "keeps s (Send_DISCONN_SYN_ACK_6 A sip s)" "keeps s (Send_DISCONN_SYN_ACK_8 A sip s)"
proof -
  note eqs = Send_CONN_SYN_ACK_6_eq Send_CONN_SYN_ACK_8_eq Send_DISCONN_SYN_ACK_6_eq Send_DISCONN_SYN_ACK_8_eq
  have "keeps s (Send_CONN_SYN_ACK_6 A sip s) \<and> keeps s (Send_CONN_SYN_ACK_8 A sip s)
      \<and> keeps s (Send_DISCONN_SYN_ACK_6 A sip s) \<and> keeps s (Send_DISCONN_SYN_ACK_8 A sip s)"
  proof (cases "ip_find sip s")
    case None
    with assms show ?thesis by (simp add: Send_no_entry)
  next
    case (Some e)
    show ?thesis
      unfolding eqs [OF assms Some] Let_def using assms
      by (intro conjI keeps_sent) (simp_all add: buffer_upd packet_lengths length_encrypted)
  qed
  then show "keeps s (Send_CONN_SYN_ACK_6 A sip s)" "keeps s (Send_CONN_SYN_ACK_8 A sip s)"
    "keeps s (Send_DISCONN_SYN_ACK_6 A sip s)" "keeps s (Send_DISCONN_SYN_ACK_8 A sip s)" by simp_all
qed

lemma freeMb_cash_Some:
  assumes "tariff_of (ie_env A) u \<noteq> None"
  shows "\<exists>f c. freeMb_field A s u = Some f \<and> cash_field A u = Some c"
  using assms by (auto simp: freeMb_field_def cash_field_def Let_def)

lemma Send_ALIVE_SYN_6_inv:
  assumes "ia_inv s" and "Send_ALIVE_SYN_6 A sip (s, us) = Some (rc, s', us')"
  shows "us' = us \<and> ia_inv s' \<and> clients s' = clients s"
proof (cases "ip_find sip s")
  case (Some e)
  then obtain u fmb c where "freeMb_field A s u = Some fmb" and us: "us' = us"
    and i: "IA_Send A sip (ias_port (ia_settings s)) (ecb (EncryptBlock (iu_ctx e)) (alive_syn6 A fmb c u s))
       ((drawn A sip s)\<lparr>ia_aliveSyn6 := ecb (EncryptBlock (iu_ctx e)) (alive_syn6 A fmb c u s)\<rparr>) = (rc, s')"
    using assms by (auto simp: Send_ALIVE_SYN_6_eq Let_def bind_eq_Some_conv case_prod_beta prod_eq_iff)
  then have "length (alive_syn6 A fmb c u s) = 368" using assms(1) by (simp add: length_alive_syn length_freeMb_field)
  then show ?thesis using sent_keeps [OF assms(1) i] us assms(1) by (simp add: buffer_upd length_encrypted)
qed (use assms in \<open>simp add: Send_no_entry\<close>)

lemma Send_ALIVE_SYN_8_inv:
  assumes "ia_inv s" and "Send_ALIVE_SYN_8 A sip (s, us) = Some (rc, s', us')"
  shows "us' = us \<and> ia_inv s' \<and> clients s' = clients s"
proof (cases "ip_find sip s")
  case (Some e)
  then obtain u fmb c where "freeMb_field A s u = Some fmb" and us: "us' = us"
    and i: "IA_Send A sip (iu_port e) (ecb (EncryptBlock (iu_ctx e)) (alive_syn8 A fmb c u s))
       ((drawn A sip s)\<lparr>ia_aliveSyn8 := ecb (EncryptBlock (iu_ctx e)) (alive_syn8 A fmb c u s)\<rparr>) = (rc, s')"
    using assms by (auto simp: Send_ALIVE_SYN_8_eq Let_def bind_eq_Some_conv case_prod_beta prod_eq_iff)
  then have "length (alive_syn8 A fmb c u s) = 384" using assms(1) by (simp add: length_alive_syn length_freeMb_field)
  then show ?thesis using sent_keeps [OF assms(1) i] us assms(1) by (simp add: buffer_upd length_encrypted)
qed (use assms in \<open>simp add: Send_no_entry\<close>)

subsection \<open>The registry as the plugin sees it\<close>

definition auths :: "users \<Rightarrow> int \<rightharpoonup> nat list" where
  "auths us i = map_option u_authorizedBy (user_at i us)"

definition same_registry :: "users \<Rightarrow> users \<Rightarrow> bool" where
  "same_registry us us' \<longleftrightarrow> auths us' = auths us \<and> addr us' = addr us \<and> login_of us' = login_of us
     \<and> us_loginIndex us' = us_loginIndex us"

lemma same_registry_refl [simp]: "same_registry us us"
  by (simp add: same_registry_def)

lemma lookup_same:
  "Users_FindByName E l us = Some (x, us') \<Longrightarrow> us' = us \<and> snd x = us_loginIndex us l"
  "FindByIPIdx E ip us = Some (y, us') \<Longrightarrow> us' = us \<and> snd y = us_ipIndex us ip"
  by (auto simp: Users_FindByName_def FindByIPIdx_def FindByNameNonLock_def users_locked_def split: if_splits option.splits)

lemma auths_upd:
  assumes "upd_user i v s s'" and "user_at i s = Some u"
  shows "auths s' = (auths s)(i \<mapsto> u_authorizedBy v)"
  using assms by (auto simp: upd_user_def auths_def fun_eq_iff)

lemma IsAuthorizedBy_same:
  assumes "e_FindTariff E = F" and "users_inv F us" and "on_user E (\<lambda>E. IsAuthorizedBy E a) i us = Some (b, us')"
  shows "same_registry us us' \<and> users_inv F us' \<and> (\<exists>l. auths us i = Some l \<and> b = (a \<in> set l))"
proof -
  have eq: "v = u \<and> x = (a \<in> set (u_authorizedBy u))" if "IsAuthorizedBy E' a u = Some (x, v)" for E' u v x
    using that by (auto simp: IsAuthorizedBy_def elim!: with_lock_SomeE)
  have same: "same_user u v" if "IsAuthorizedBy (env_in E us) a u = Some (b, v)" for u v
    using eq [OF that] by (simp add: same_user_def)
  obtain u v where u: "user_at i us = Some u"
    "IsAuthorizedBy (env_in E us) a (u\<lparr>trace := trace us\<rparr>) = Some (b, v)" "upd_user i (v\<lparr>trace := []\<rparr>) us us'"
    using on_user_upd [OF assms(3)] same by blast
  from eq [OF u(2)] have v: "v = u\<lparr>trace := trace us\<rparr>" "b = (a \<in> set (u_authorizedBy u))" by simp_all
  have "same_user u (v\<lparr>trace := []\<rparr>)" by (simp add: v same_user_def)
  note w = upd_user_views [OF u(3,1) this] auths_upd [OF u(3,1)]
  have "user_inv F (v\<lparr>trace := []\<rparr>)" using users_invD(2) [OF assms(2) u(1)] by (simp add: v)
  then have "users_inv F us'" using same_addr_inv [OF assms(2) u(1,3)] by (simp add: v same_user_def)
  with w u(1) v show ?thesis
    using u(3) by (auto simp: same_registry_def upd_user_def auths_def addr_def fun_eq_iff)
qed

text \<open>The two calls of the registry that the plugin makes to log users in and out.\<close>

lemma insert_auth_set [simp]: "set (insert_auth a l) = insert a (set l)"
  by (auto simp: insert_auth_def set_insort_insert)

definition login_effect :: "nat \<Rightarrow> u32 \<Rightarrow> int \<Rightarrow> user \<Rightarrow> user \<Rightarrow> bool" where
  "login_effect a ip rc u v \<longleftrightarrow>
     (if rc = 0 then set (u_authorizedBy v) = insert a (set (u_authorizedBy u))
        \<and> (u_currIP v = ip \<or> a \<in> set (u_authorizedBy u) \<and> u_currIP v = u_currIP u)
      else u_authorizedBy v = u_authorizedBy u \<and> u_currIP v = u_currIP u)"

lemma Authorize_effect: "Authorize E ip dirs a u = Some (rc, v) \<Longrightarrow> login_effect a ip rc u v"
  by (drule Authorize_cases) (auto simp: login_effect_def frame_def)

lemma Unauthorize_body_effect:
  "u_authorizedBy (Unauthorize_body E a reason u) = remove1 a (u_authorizedBy u)
    \<and> u_currIP (Unauthorize_body E a reason u) = (if remove1 a (u_authorizedBy u) = [] \<and> a \<in> set (u_authorizedBy u) then 0 else u_currIP u)"
  by (simp add: Unauthorize_body_def Let_def remove1_idem)

lemma Unauthorize_effect:
  assumes "Unauthorize E a reason u = Some (x, v)"
  shows "u_authorizedBy v = remove1 a (u_authorizedBy u)
    \<and> u_currIP v = (if remove1 a (u_authorizedBy u) = [] \<and> a \<in> set (u_authorizedBy u) then 0 else u_currIP u)"
  using assms unfolding Unauthorize_def
  by (rule with_lock_SomeE)
    (use Unauthorize_body_effect [of E a reason u] Unauthorize_body_effect [of E a reason "u\<lparr>u_locked := True\<rparr>"] in auto)

lemma auths_frame [simp]:
  "auths (s\<lparr>us_locked := b\<rparr>) = auths s" "auths (s\<lparr>us_ipIndex := m\<rparr>) = auths s" "auths (emit e s) = auths s"
  by (simp_all add: auths_def fun_eq_iff)

lemma users_lockedE:
  assumes "users_locked E f us = Some (x, us')"
  obtains b c t where "f (us\<lparr>us_locked := b\<rparr>) = Some (x, t)" "us' = t\<lparr>us_locked := c\<rparr>"
proof (cases "us_locked us")
  case True
  then have "us\<lparr>us_locked := True\<rparr> = us" by simp
  moreover have "f us = Some (x, us')" using assms True by (simp add: users_locked_def split: if_splits)
  ultimately show thesis using that [of True us' "us_locked us'"] by simp
next
  case False
  then show thesis using assms that by (auto simp: users_locked_def)
qed

lemma emit_loginIndex [simp]: "us_loginIndex (emit e us) = us_loginIndex us"
  by (simp add: emit_def)

definition logged_in :: "nat \<Rightarrow> string \<Rightarrow> u32 \<Rightarrow> int \<Rightarrow> users \<Rightarrow> users \<Rightarrow> bool" where
  "logged_in a login ip i us us' \<longleftrightarrow> login_of us i = Some login \<and> (us_loginIndex us login = Some i \<or> ip \<noteq> 0 \<and> addr us i = Some ip)
     \<and> (\<exists>l l'. auths us i = Some l \<and> auths us' = (auths us)(i \<mapsto> l') \<and> set l' = insert a (set l)
        \<and> (addr us' = (addr us)(i \<mapsto> ip) \<or> a \<in> set l \<and> addr us' = addr us))
     \<and> us_loginIndex us' = us_loginIndex us \<and> login_of us' = login_of us"

lemma on_user_Authorize:
  assumes "on_user E (\<lambda>E. Authorize E ip dirs a) i us = Some (rc, us')"
  shows "login_of us' = login_of us \<and> us_loginIndex us' = us_loginIndex us \<and>
    (if rc = 0 then \<exists>l l'. auths us i = Some l \<and> auths us' = (auths us)(i \<mapsto> l') \<and> set l' = insert a (set l)
        \<and> (addr us' = (addr us)(i \<mapsto> ip) \<or> a \<in> set l \<and> addr us' = addr us)
     else auths us' = auths us \<and> addr us' = addr us)"
proof -
  have same: "same_user u v" if "Authorize (env_in E us) ip dirs a u = Some (rc, v)" for u v
    using Authorize_cases [OF that] by blast
  obtain u v where u: "user_at i us = Some u"
    "Authorize (env_in E us) ip dirs a (u\<lparr>trace := trace us\<rparr>) = Some (rc, v)" "upd_user i (v\<lparr>trace := []\<rparr>) us us'"
    using on_user_upd [OF assms] same by blast
  have "same_user u (v\<lparr>trace := []\<rparr>)" using same [OF u(2)] by simp
  note w = upd_user_views [OF u(3,1) this] auths_upd [OF u(3,1)]
  have "us_loginIndex us' = us_loginIndex us" using u(3) by (simp add: upd_user_def)
  moreover have a: "auths us i = Some (u_authorizedBy u)" "addr us i = Some (u_currIP u)" using u(1) by (simp_all add: auths_def addr_def)
  ultimately show ?thesis
    using Authorize_effect [OF u(2)] w map_upd_triv [of "addr us", OF a(2)]
    by (auto simp: login_effect_def split: if_splits intro!: exI [of _ "u_authorizedBy v"])
qed

lemma Users_Authorize_effect:
  assumes "users_inv F us" and "Users_Authorize E login ip dirs a us = Some (ok, us')"
  shows "if ok then \<exists>i. logged_in a login ip i us us' else same_registry us us'"
  using assms(2) unfolding Users_Authorize_def
proof (rule users_lockedE)
  fix b c t assume b: "Users_Authorize_body E login ip dirs a (us\<lparr>us_locked := b\<rparr>) = Some (ok, t)" and us': "us' = t\<lparr>us_locked := c\<rparr>"
  let ?us = "us\<lparr>us_locked := b\<rparr>"
  have inv: "users_inv F ?us" using assms(1) by simp
  consider m where "t = emit (Log m) ?us" "\<not> ok"
    | j u rc where "us_ipIndex us ip = Some j" "user_at j us = Some u" "u_login u = login"
        "on_user E (\<lambda>E. Authorize E ip dirs a) j ?us = Some (rc, t)" "ok = (rc = 0)"
    | i rc t' where "us_loginIndex us login = Some i" "on_user E (\<lambda>E. Authorize E ip dirs a) i ?us = Some (rc, t')" "ok = (rc = 0)"
        "rc \<noteq> 0 \<and> t = t' \<or> rc = 0 \<and> AddToIPIdx E i t' = Some ((), t)"
    using b by (auto simp: Users_Authorize_body_def FindByNameNonLock_def bind_eq_Some_conv split: option.splits if_splits)
  then show ?thesis
  proof cases
    case 1
    then show ?thesis by (simp add: us' same_registry_def)
  next
    case (2 j u rc)
    then have "login_of us j = Some login" "addr us j = Some ip" "ip \<noteq> 0"
      using users_invD(6) [OF assms(1), of ip j] by (auto simp: login_of_def)
    then show ?thesis using on_user_Authorize [OF 2(4)] 2(5)
      by (auto simp: us' logged_in_def same_registry_def split: if_splits)
  next
    case (3 i rc t')
    have t: "auths t = auths t'" "addr t = addr t'" "login_of t = login_of t'" "us_loginIndex t = us_loginIndex t'"
      using 3(4) by (auto simp: AddToIPIdx_def users_locked_def bind_eq_Some_conv split: if_splits)
    have "login_of us i = Some login" using users_invD(3) [OF assms(1) 3(1)] by simp
    then show ?thesis using on_user_Authorize [OF 3(2)] 3(1,3)
      by (auto simp: us' t logged_in_def same_registry_def split: if_splits)
  qed
qed

definition logged_out :: "nat \<Rightarrow> int \<Rightarrow> users \<Rightarrow> users \<Rightarrow> bool" where
  "logged_out a i us us' \<longleftrightarrow> (\<exists>l. auths us i = Some l \<and> auths us' = (auths us)(i \<mapsto> remove1 a l)
     \<and> addr us' = (if remove1 a l = [] \<and> a \<in> set l then (addr us)(i \<mapsto> 0) else addr us))
     \<and> us_loginIndex us' = us_loginIndex us \<and> login_of us' = login_of us"

lemma on_user_Unauthorize:
  assumes "on_user E (\<lambda>E. Unauthorize E a reason) i us = Some (x, us')"
  shows "logged_out a i us us'"
proof -
  have same: "same_user u v" if "Unauthorize (env_in E us) a reason u = Some (x, v)" for u v
    using Unauthorize_cases [OF that] by blast
  obtain u v where u: "user_at i us = Some u"
    "Unauthorize (env_in E us) a reason (u\<lparr>trace := trace us\<rparr>) = Some (x, v)" "upd_user i (v\<lparr>trace := []\<rparr>) us us'"
    using on_user_upd [OF assms] same by blast
  have "same_user u (v\<lparr>trace := []\<rparr>)" using same [OF u(2)] by simp
  note w = upd_user_views [OF u(3,1) this] auths_upd [OF u(3,1)]
  have "us_loginIndex us' = us_loginIndex us" using u(3) by (simp add: upd_user_def)
  moreover have a: "auths us i = Some (u_authorizedBy u)" "addr us i = Some (u_currIP u)" using u(1) by (simp_all add: auths_def addr_def)
  ultimately show ?thesis
    using Unauthorize_effect [OF u(2)] w map_upd_triv [of "addr us", OF a(2)] by (auto simp: logged_out_def)
qed

lemma Users_Unauthorize_effect:
  assumes "Users_Unauthorize E login a reason us = Some (ok, us')"
  shows "case us_loginIndex us login of None \<Rightarrow> same_registry us us' | Some i \<Rightarrow> logged_out a i us us'"
  using assms unfolding Users_Unauthorize_def
proof (rule users_lockedE)
  fix b c t assume b: "Users_Unauthorize_body E login a reason (us\<lparr>us_locked := b\<rparr>) = Some (ok, t)" and us': "us' = t\<lparr>us_locked := c\<rparr>"
  let ?us = "us\<lparr>us_locked := b\<rparr>"
  show ?thesis
  proof (cases "us_loginIndex us login")
    case None
    then show ?thesis using b by (auto simp: us' Users_Unauthorize_body_def FindByNameNonLock_def same_registry_def)
  next
    case (Some i)
    then obtain x t' u where o: "on_user E (\<lambda>E. Unauthorize E a reason) i ?us = Some (x, t')"
      and t: "t = t' \<or> DelFromIPIdx E u t' = Some ((), t)"
      using b by (auto simp: Users_Unauthorize_body_def FindByNameNonLock_def bind_eq_Some_conv split: if_splits)
    have "auths t = auths t'" "addr t = addr t'" "login_of t = login_of t'" "us_loginIndex t = us_loginIndex t'"
      using t by (auto simp: DelFromIPIdx_def users_locked_def split: if_splits)
    then show ?thesis using on_user_Unauthorize [OF o] Some by (auto simp: us' logged_out_def)
  qed
qed

end
