(* ===== verification/Stg_IALife.thy ===== *)
theory Stg_IALife
  imports Stg_IAInv
begin

text \<open>
  The life of the InetAccess plugin: which clients are authorized, what a datagram can do, what silence leads to.
\<close>

subsection \<open>Clients and users\<close>

text \<open>A client in phase 3 or 4 is authorized by the plugin \<open>a\<close> at its address; the login stored with a client is the one of
  the user; a user with an address is found by login.\<close>

definition online :: "nat \<Rightarrow> u32 \<Rightarrow> int \<Rightarrow> string \<Rightarrow> users \<Rightarrow> bool" where
  "online a ip i l us \<longleftrightarrow> us_loginIndex us l = Some i \<and> addr us i = Some ip \<and> (\<exists>as. auths us i = Some as \<and> a \<in> set as)"

definition ia_link :: "nat \<Rightarrow> ia \<Rightarrow> users \<Rightarrow> bool" where
  "ia_link a s us \<longleftrightarrow>
     (\<forall>ip i l p. clients s ip = Some (i, l, p) \<longrightarrow> (\<forall>n. login_of us i = Some n \<longrightarrow> n = l) \<and> (p \<in> {3, 4} \<longrightarrow> online a ip i l us))
     \<and> (\<forall>i ip l. addr us i = Some ip \<longrightarrow> ip \<noteq> 0 \<longrightarrow> login_of us i = Some l \<longrightarrow> us_loginIndex us l = Some i)"

definition ia_sys_inv :: "(string \<Rightarrow> nat option) \<Rightarrow> nat \<Rightarrow> iasys \<Rightarrow> bool" where
  "ia_sys_inv F a = (\<lambda>(s, us). users_inv F us \<and> ia_inv s \<and> ia_link a s us)"

lemma ia_linkD:
  assumes "ia_link a s us"
  shows "clients s ip = Some (i, l, p) \<Longrightarrow> login_of us i = Some n \<Longrightarrow> n = l"
    "clients s ip = Some (i, l, p) \<Longrightarrow> p = 3 \<or> p = 4 \<Longrightarrow> online a ip i l us"
    "addr us i = Some ip \<Longrightarrow> ip \<noteq> 0 \<Longrightarrow> login_of us i = Some l \<Longrightarrow> us_loginIndex us l = Some i"
  using assms by (auto simp: ia_link_def)

lemma online_same: "same_registry us us' \<Longrightarrow> online a ip i l us' = online a ip i l us"
  by (simp add: same_registry_def online_def)

lemma link_same: "same_registry us us' \<Longrightarrow> clients s' = clients s \<Longrightarrow> ia_link a s us \<Longrightarrow> ia_link a s' us'"
  unfolding ia_link_def by (simp add: online_same) (auto simp: same_registry_def)

text \<open>Clients may leave and may get another phase, as long as nobody enters phases 3 and 4.\<close>

lemma link_clients:
  assumes "ia_link a s us"
    and "\<And>ip i l p. clients s' ip = Some (i, l, p) \<Longrightarrow> \<exists>q. clients s ip = Some (i, l, q) \<and> (p \<in> {3, 4} \<longrightarrow> q \<in> {3, 4})"
  shows "ia_link a s' us"
  using assms unfolding ia_link_def by meson

lemma link_login:
  assumes "ia_link a s us" and "logged_in a l sip j us us'" and "us_loginIndex us l = Some i" and "clients s sip = Some (i, l, p)"
    and "\<And>as. auths us i = Some as \<Longrightarrow> a \<in> set as \<Longrightarrow> addr us i = Some sip"
    and "clients s' = (clients s)(sip \<mapsto> (i, l, 3))"
  shows "ia_link a s' us'"
proof -
  have j: "j = i" using assms(2,3) ia_linkD(3) [OF assms(1), of j sip l] by (auto simp: logged_in_def)
  obtain as bs where auths: "auths us i = Some as" "auths us' = (auths us)(i \<mapsto> bs)" "set bs = insert a (set as)"
    and ad: "addr us' = (addr us)(i \<mapsto> sip) \<or> a \<in> set as \<and> addr us' = addr us"
    and idx: "us_loginIndex us' = us_loginIndex us" "login_of us' = login_of us" "login_of us i = Some l"
    using assms(2) by (auto simp: logged_in_def j)
  have ad: "addr us' = (addr us)(i \<mapsto> sip)"
    using ad assms(5) [OF auths(1)] by (auto simp: map_upd_triv)
  have "online a ip i' l' us'" if "clients s' ip = Some (i', l', q)" "q = 3 \<or> q = 4" for ip i' l' q
  proof (cases "ip = sip")
    case True
    then show ?thesis using that assms(3,6) by (simp add: online_def idx ad auths)
  next
    case False
    then have o: "online a ip i' l' us" using that assms(6) ia_linkD(2) [OF assms(1)] by simp
    then have "i' \<noteq> i" using assms(5) False by (auto simp: online_def)
    then show ?thesis using o by (simp add: online_def idx ad auths)
  qed
  moreover have "n = l'" if "clients s' ip = Some (i', l', q)" "login_of us' i' = Some n" for ip i' l' q n
    using that assms(4,6) ia_linkD(1) [OF assms(1)] by (auto simp: idx split: if_splits)
  moreover have "us_loginIndex us' l' = Some i'" if "addr us' i' = Some ip" "ip \<noteq> 0" "login_of us' i' = Some l'" for i' ip l'
    using that assms(3) ia_linkD(3) [OF assms(1)] by (auto simp: idx ad split: if_splits)
  ultimately show ?thesis unfolding ia_link_def by blast
qed

lemma link_logout:
  assumes "ia_link a s us" and "logged_out a i us us'" and "addr us i = Some ip" and "clients s' = (clients s)(ip := None)"
  shows "ia_link a s' us'"
proof -
  obtain as where auths: "auths us i = Some as" "auths us' = (auths us)(i \<mapsto> remove1 a as)"
    and ad: "addr us' = (if remove1 a as = [] \<and> a \<in> set as then (addr us)(i \<mapsto> 0) else addr us)"
    and idx: "us_loginIndex us' = us_loginIndex us" "login_of us' = login_of us"
    using assms(2) by (auto simp: logged_out_def)
  have "online a jp j l us'" if "clients s' jp = Some (j, l, q)" "q = 3 \<or> q = 4" for jp j l q
  proof -
    have o: "online a jp j l us" "jp \<noteq> ip" using that assms(4) ia_linkD(2) [OF assms(1)] by (auto split: if_splits)
    then have "j \<noteq> i" using assms(3) by (auto simp: online_def)
    then show ?thesis using o by (auto simp: online_def idx ad auths)
  qed
  moreover have "n = l" if "clients s' jp = Some (j, l, q)" "login_of us' j = Some n" for jp j l q n
    using that assms(4) ia_linkD(1) [OF assms(1)] by (auto simp: idx split: if_splits)
  moreover have "us_loginIndex us' l = Some j" if "addr us' j = Some jp" "jp \<noteq> 0" "login_of us' j = Some l" for j jp l
    using that ia_linkD(3) [OF assms(1)] by (auto simp: idx ad split: if_splits)
  ultimately show ?thesis unfolding ia_link_def by blast
qed

subsection \<open>Steps of the handlers\<close>

definition set_phase :: "int \<Rightarrow> int \<times> string \<times> int \<Rightarrow> int \<times> string \<times> int" where
  "set_phase n = (\<lambda>(i, l, p). (i, l, n))"

lemma ia_inv_upd:
  assumes "ia_inv s" and "\<And>e. ip_find ip s = Some e \<Longrightarrow> client_ok e \<Longrightarrow> client_ok (f e)"
  shows "ia_inv (ip_upd ip f s)"
  using assms by (auto simp: ia_inv_def ip_upd_def ia_buffers_def ipm.find_change split: if_splits)

lemma ia_inv_erase: "ia_inv s \<Longrightarrow> ia_inv (ip_erase ip s)"
  by (auto simp: ia_inv_def ip_erase_def ia_buffers_def ips_ok_erase find_erase split: if_splits)

lemma clients_erase: "ia_inv s \<Longrightarrow> clients (ip_erase ip s) = (clients s)(ip := None)"
  by (auto simp: clients_def fun_eq_iff)

lemma clients_upd:
  "ia_inv s \<Longrightarrow> (\<And>e. client_view (f e) = g (client_view e)) \<Longrightarrow> clients (ip_upd ip f s) = (clients s)(ip := map_option g (clients s ip))"
  by (auto simp: clients_def fun_eq_iff option.map_comp comp_def)

lemma SetPhase_view [simp]: "client_view (SetPhase A n e) = set_phase n (client_view e)"
  by (simp add: client_view_def SetPhase_def set_phase_def)

lemma SetPhase_ok: "n \<in> {1, 2, 3, 4} \<Longrightarrow> client_ok e \<Longrightarrow> client_ok (SetPhase A n e)"
  by (simp add: client_ok_def SetPhase_def)

lemma ia_inv_phase: "n \<in> {1, 2, 3, 4} \<Longrightarrow> ia_inv s \<Longrightarrow> ia_inv (ip_upd ip (SetPhase A n) s)"
  by (rule ia_inv_upd) (auto intro: SetPhase_ok)

lemma clients_phase: "ia_inv s \<Longrightarrow> clients (ip_upd ip (SetPhase A n) s) = (clients s)(ip := map_option (set_phase n) (clients s ip))"
  by (rule clients_upd) simp_all

lemma quiet_time: "quiet s (ip_upd ip (UpdateTime A) s)"
  by (rule quiet_upd) (simp_all add: client_view_def client_ok_def UpdateTime_def)

lemma quiet_times: "quiet s (ip_upd ip (\<lambda>e. (UpdateTime A e)\<lparr>iu_lastSendAlive := t\<rparr>) s)"
  by (rule quiet_upd) (simp_all add: client_view_def client_ok_def UpdateTime_def)

lemma quiet_fields [simp]:
  "quiet s (emit x s)" "quiet s (log_proto m s)" "quiet s (SendError A ip p v err s)" "quiet s (s\<lparr>ia_errorStr := t\<rparr>)"
  "quiet s (s\<lparr>ia_enabledDirs := d\<rparr>)" "quiet s (log_mismatch w ph r ip e s)"
  by (rule quiet_same; simp?; simp add: ia_buffers_def)+

lemma quietD: "quiet s s' \<Longrightarrow> ia_inv s \<Longrightarrow> ia_inv s' \<and> clients s' = clients s"
  by (simp add: quiet_def)

lemma sys_quiet: "ia_sys_inv F a (s, us) \<Longrightarrow> quiet s s' \<Longrightarrow> ia_sys_inv F a (s', us)"
  by (auto simp: ia_sys_inv_def quiet_def intro: link_same [OF same_registry_refl])

lemma sys_keeps: "ia_sys_inv F a (s, us) \<Longrightarrow> keeps s r \<Longrightarrow> r = Some (rc, s') \<Longrightarrow> ia_sys_inv F a (s', us)"
  by (auto simp: ia_sys_inv_def keeps_def intro: link_same [OF same_registry_refl])

lemma sys_erase: "ia_sys_inv F a (s, us) \<Longrightarrow> ia_sys_inv F a (ip_erase ip s, us)"
  by (auto simp: ia_sys_inv_def ia_inv_erase clients_erase elim!: link_clients split: if_splits)

lemma sys_phase:
  assumes "ia_sys_inv F a (s, us)" and "n \<in> {1, 2, 3, 4}"
    and "\<And>i l p. clients s ip = Some (i, l, p) \<Longrightarrow> n \<in> {3, 4} \<Longrightarrow> p \<in> {3, 4}"
  shows "ia_sys_inv F a (ip_upd ip (SetPhase A n) s, us)"
proof -
  have i: "ia_inv s" "users_inv F us" "ia_link a s us" using assms(1) by (simp_all add: ia_sys_inv_def)
  have "ia_link a (ip_upd ip (SetPhase A n) s) us"
    using assms(3) by (intro link_clients [OF i(3)]) (auto simp: clients_phase [OF i(1)] set_phase_def split: if_splits)
  with i ia_inv_phase [OF assms(2) i(1)] show ?thesis by (simp add: ia_sys_inv_def)
qed

lemma clients_find: "ip_find ip s = Some e \<Longrightarrow> clients s ip = Some (iu_user e, iu_login e, iu_phase e)"
  by (simp add: clients_def client_view_def)

text \<open>The state in which \<open>PacketProcessor\<close> calls a handler.\<close>

definition ia_ready :: "nat \<Rightarrow> u32 \<Rightarrow> iasys \<Rightarrow> bool" where
  "ia_ready a sip = (\<lambda>(s, us). \<exists>e. ip_find sip s = Some e \<and> us_loginIndex us (iu_login e) = Some (iu_user e)
     \<and> (\<forall>as. auths us (iu_user e) = Some as \<longrightarrow> a \<in> set as \<longrightarrow> addr us (iu_user e) = Some sip))"

lemma Process_CONN_SYN_sys:
  assumes "ia_sys_inv F a (s, us)"
  shows "Process_CONN_SYN_6 A sip s = Some (rc, s') \<Longrightarrow> ia_sys_inv F a (s', us)"
    "Process_CONN_SYN_8 A buff sip s = Some (rc, s') \<Longrightarrow> ia_sys_inv F a (s', us)"
proof -
  have "ia_sys_inv F a (s', us)" if "Process_CONN_SYN_6 A sip s = Some (rc, s')" for s'
    using that sys_phase [OF sys_quiet [OF assms quiet_fields(5)], of 2] assms
    by (auto simp: Process_CONN_SYN_6_def bind_eq_Some_conv split: if_splits)
  then show "Process_CONN_SYN_6 A sip s = Some (rc, s') \<Longrightarrow> ia_sys_inv F a (s', us)"
    "Process_CONN_SYN_8 A buff sip s = Some (rc, s') \<Longrightarrow> ia_sys_inv F a (s', us)"
    using sys_quiet [OF _ quiet_fields(5)] by (auto simp: Process_CONN_SYN_8_def)
qed

lemma Process_CONN_ACK_68: "Process_CONN_ACK_8 = Process_CONN_ACK_6"
  by (intro ext) (simp add: Process_CONN_ACK_8_def Process_CONN_ACK_6_def)

lemma Process_ALIVE_ACK_68: "Process_ALIVE_ACK_8 = Process_ALIVE_ACK_6"
  by (intro ext) (simp add: Process_ALIVE_ACK_8_def Process_ALIVE_ACK_6_def)

lemma Process_DISCONN_SYN_68: "Process_DISCONN_SYN_8 = Process_DISCONN_SYN_6"
  by (intro ext) (simp add: Process_DISCONN_SYN_8_def Process_DISCONN_SYN_6_def)

lemma Process_DISCONN_ACK_68: "Process_DISCONN_ACK_8 = Process_DISCONN_ACK_6"
  by (intro ext) (simp add: Process_DISCONN_ACK_8_def Process_DISCONN_ACK_6_def)

lemma Process_ALIVE_ACK_sys:
  "ia_sys_inv F a (s, us) \<Longrightarrow> Process_ALIVE_ACK_6 A buff sip s = Some (rc, s') \<Longrightarrow> ia_sys_inv F a (s', us)"
  using sys_quiet [OF _ quiet_time] by (auto simp: Process_ALIVE_ACK_6_def bind_eq_Some_conv split: if_splits)

lemma Process_DISCONN_SYN_sys:
  "ia_sys_inv F a (s, us) \<Longrightarrow> Process_DISCONN_SYN_6 A sip s = Some (rc, s') \<Longrightarrow> ia_sys_inv F a (s', us)"
  using sys_quiet [OF sys_quiet [OF _ quiet_fields(2)] quiet_fields(4), of F a s us]
  by (auto simp: Process_DISCONN_SYN_6_def bind_eq_Some_conv clients_find split: if_splits intro!: sys_phase)

lemma Process_DISCONN_ACK_sys:
  assumes "ia_sys_inv F a (s, us)" and "Process_DISCONN_ACK_6 buff sip s = Some (rc, s')"
  shows "ia_sys_inv F a (s', us) \<and> (rc = 0 \<longrightarrow> s' = s \<and> (\<exists>e. ip_find sip s = Some e \<and> iu_phase e = 4 \<and> le32 buff 60 = iu_rnd e + 1))"
  using assms sys_quiet [OF _ quiet_fields(6)]
  by (auto simp: Process_DISCONN_ACK_6_def bind_eq_Some_conv Let_def split: if_splits)

lemma Process_CONN_ACK_sys:
  assumes "ia_sys_inv F (ie_self A) (s, us)" and "e_FindTariff (ie_env A) = F" and "ia_ready (ie_self A) sip (s, us)"
    and "Process_CONN_ACK_6 A buff sip (s, us) = Some (rc, s', us')"
  shows "ia_sys_inv F (ie_self A) (s', us')"
proof -
  obtain e where e: "ip_find sip s = Some e" "us_loginIndex us (iu_login e) = Some (iu_user e)"
    and g: "\<And>as. auths us (iu_user e) = Some as \<Longrightarrow> ie_self A \<in> set as \<Longrightarrow> addr us (iu_user e) = Some sip"
    using assms(3) by (auto simp: ia_ready_def)
  note i = assms(1) [unfolded ia_sys_inv_def prod.case]
  define t where "t = ip_upd sip (\<lambda>e. (UpdateTime A e)\<lparr>iu_lastSendAlive := ie_now A\<rparr>) s"
  have q: "quiet s t" unfolding t_def by (rule quiet_times)
  show ?thesis
  proof (cases "iu_phase e = 2 \<and> le32 buff 60 = iu_rnd e + 1")
    case False
    then show ?thesis using assms(4) sys_quiet [OF assms(1) quiet_fields(6)] by (auto simp: Process_CONN_ACK_6_def e Let_def)
  next
    case True
    obtain ok us1 where au: "Users_Authorize (ie_env A) (iu_login e) sip (ia_enabledDirs t) (ie_self A) us = Some (ok, us1)"
      and r: "if ok then s' = ip_upd sip (SetPhase A 3) t \<and> us' = us1
              else \<exists>w. quiet t w \<and> s' = ip_erase sip w \<and> us' = us1"
      using assms(4) True
      by (auto simp: Process_CONN_ACK_6_def e Let_def t_def [symmetric] bind_eq_Some_conv split: if_splits)
        (blast intro: quiet_trans [OF quiet_fields(4) quiet_fields(2)])
    have inv: "users_inv F us1" using Users_Authorize_inv [OF au] assms(2) i by blast
    note qd = quietD [OF q]
    have c: "clients t sip = Some (iu_user e, iu_login e, 2)" using clients_find [OF e(1)] qd i True by simp
    show ?thesis
    proof (cases ok)
      case True
      then obtain j where l: "logged_in (ie_self A) (iu_login e) sip j us us1"
        using Users_Authorize_effect [OF _ au] i by auto
      have s': "s' = ip_upd sip (SetPhase A 3) t" "us' = us1" using r True by simp_all
      have "ia_link (ie_self A) s' us1"
        using i qd c by (intro link_login [OF _ l e(2) _ g, of s]) (auto simp: s' clients_phase set_phase_def fun_eq_iff)
      then show ?thesis using i qd inv by (simp add: ia_sys_inv_def s' ia_inv_phase)
    next
      case False
      then obtain w where s': "s' = ip_erase sip w" "us' = us1" and w: "quiet t w" using r by auto
      have "same_registry us us1" using Users_Authorize_effect [OF _ au] i False by auto
      then have "ia_sys_inv F (ie_self A) (t, us1)"
        using i qd inv by (auto simp: ia_sys_inv_def intro: link_same)
      then show ?thesis
        unfolding s' by (intro sys_erase sys_quiet [OF _ w])
    qed
  qed
qed

lemma logout_sys:
  assumes "ia_sys_inv F a (s, us)" and "e_FindTariff E = F" and "Users_Unauthorize E login a reason us = Some (ok, us')"
    and "us_loginIndex us login = Some i" and "addr us i = Some ip" and "quiet s t"
  shows "ia_sys_inv F a (ip_erase ip t, us')"
proof -
  note i = assms(1) [unfolded ia_sys_inv_def prod.case] and q = quietD [OF assms(6)]
  have "logged_out a i us us'" using Users_Unauthorize_effect [OF assms(3)] assms(4) by simp
  then have "ia_link a (ip_erase ip t) us'"
    using link_logout [of a s us i us' ip "ip_erase ip t"] assms(5) i q by (simp add: clients_erase)
  moreover have "users_inv F us'" using Users_Unauthorize_inv [OF assms(3)] assms(2) i by blast
  ultimately show ?thesis using i q by (simp add: ia_sys_inv_def ia_inv_erase)
qed

lemma quiet_fin:
  assumes "ia_inv s"
  shows "quiet s (snd (IA_Send A ip p bs (s\<lparr>ia_fin6 := ecb (EncryptBlock ctx) (fin6 s)\<rparr>)))"
    "quiet s (snd (IA_Send A ip p bs (s\<lparr>ia_fin8 := ecb (EncryptBlock ctx) (fin8 s)\<rparr>)))"
  using assms by (auto intro!: quiet_same simp: buffer_upd packet_lengths length_encrypted)

lemma Send_FIN_sys:
  assumes "ia_sys_inv F (ie_self A) (s, us)" and "e_FindTariff (ie_env A) = F" and "ip_find sip s = Some e" and "iu_phase e = 4"
    and "Send_FIN_6 A sip (s, us) = Some (rc, st') \<or> Send_FIN_8 A sip (s, us) = Some (rc, st')"
  shows "ia_sys_inv F (ie_self A) st'"
proof -
  note i = assms(1) [unfolded ia_sys_inv_def prod.case]
  have "online (ie_self A) sip (iu_user e) (iu_login e) us"
    using ia_linkD(2) [of "ie_self A" s us sip] clients_find [OF assms(3)] assms(4) i by blast
  then have o: "us_loginIndex us (iu_login e) = Some (iu_user e)" "addr us (iu_user e) = Some sip" by (simp_all add: online_def)
  obtain ok us' t where "Users_Unauthorize (ie_env A) (iu_login e) (ie_self A) '''' us = Some (ok, us')"
    and "quiet s t" "st' = (ip_erase sip t, us')"
    using assms(3,5) i quiet_fin [of s A sip]
    by (auto simp: Send_FIN_6_eq Send_FIN_8_eq bind_eq_Some_conv Let_def case_prod_beta) (metis+)?
  then show ?thesis using logout_sys [OF assms(1,2) _ o] by simp
qed

subsection \<open>Datagrams\<close>

lemma then_replyE:
  assumes "then_reply f g st = Some (rc, st')"
  obtains r where "f st = Some (r, st')" "r \<noteq> 0" "rc = - 1" | st1 where "f st = Some (0, st1)" "g st1 = Some (rc, st')"
  using assms by (auto simp: then_reply_def bind_eq_Some_conv split: if_splits)

lemma on_iaE:
  assumes "on_ia f (s, us) = Some (rc, st')"
  obtains s' where "f s = Some (rc, s')" "st' = (s', us)"
  using assms by (auto simp: on_ia_def)

lemma reply_ia_sys:
  assumes "ia_sys_inv F a (s, us)" and "then_reply (on_ia f) (on_ia g) (s, us) = Some (rc, st')"
    and "\<And>r s'. f s = Some (r, s') \<Longrightarrow> ia_sys_inv F a (s', us)"
    and "\<And>s'. ia_inv s' \<Longrightarrow> keeps s' (g s')"
  shows "ia_sys_inv F a st'"
  using assms(2)
proof (rule then_replyE)
  fix r assume "on_ia f (s, us) = Some (r, st')"
  then show ?thesis using assms(3) by (auto elim!: on_iaE)
next
  fix st1 assume f: "on_ia f (s, us) = Some (0, st1)" and g: "on_ia g st1 = Some (rc, st')"
  from f obtain s1 where s1: "f s = Some (0, s1)" "st1 = (s1, us)" by (rule on_iaE)
  with g obtain s2 where s2: "g s1 = Some (rc, s2)" "st' = (s2, us)" by (auto elim!: on_iaE)
  have i: "ia_sys_inv F a (s1, us)" using assms(3) s1(1) by blast
  then show ?thesis using sys_keeps [OF i assms(4) s2(1)] s2(2) by (simp add: ia_sys_inv_def)
qed

lemma Send_ALIVE_sys:
  assumes "ia_sys_inv F a st" and "Send_ALIVE_SYN_6 A sip st = Some (rc, st') \<or> Send_ALIVE_SYN_8 A sip st = Some (rc, st')"
  shows "ia_sys_inv F a st'"
proof -
  obtain s us s' us' where st: "st = (s, us)" "st' = (s', us')" by fastforce
  then have "ia_inv s" using assms(1) by (simp add: ia_sys_inv_def)
  then have "us' = us \<and> ia_inv s' \<and> clients s' = clients s"
    using assms(2) Send_ALIVE_SYN_6_inv Send_ALIVE_SYN_8_inv unfolding st by blast
  then show ?thesis using assms(1) by (auto simp: st ia_sys_inv_def intro: link_same [OF same_registry_refl])
qed

lemma CONN_ACK_sys:
  assumes "ia_sys_inv F (ie_self A) (s, us)" and "e_FindTariff (ie_env A) = F" and "ia_ready (ie_self A) sip (s, us)"
    and "then_reply (Process_CONN_ACK_6 A buff sip) g (s, us) = Some (rc, st')"
    and "g = Send_ALIVE_SYN_6 A sip \<or> g = Send_ALIVE_SYN_8 A sip"
  shows "ia_sys_inv F (ie_self A) st'"
  using assms(4)
proof (rule then_replyE)
  fix r assume "Process_CONN_ACK_6 A buff sip (s, us) = Some (r, st')"
  then show ?thesis using Process_CONN_ACK_sys [OF assms(1-3)] by (cases st') blast
next
  fix st1 assume f: "Process_CONN_ACK_6 A buff sip (s, us) = Some (0, st1)" and g: "g st1 = Some (rc, st')"
  have "ia_sys_inv F (ie_self A) st1" using Process_CONN_ACK_sys [OF assms(1-3)] f by (cases st1) blast
  then show ?thesis using Send_ALIVE_sys g assms(5) by blast
qed

lemma DISCONN_ACK_sys:
  assumes "ia_sys_inv F (ie_self A) (s, us)" and "e_FindTariff (ie_env A) = F"
    and "then_reply (on_ia (Process_DISCONN_ACK_6 buff sip)) g (s, us) = Some (rc, st')" and "g = Send_FIN_6 A sip \<or> g = Send_FIN_8 A sip"
  shows "ia_sys_inv F (ie_self A) st'"
  using assms(3)
proof (rule then_replyE)
  fix r assume "on_ia (Process_DISCONN_ACK_6 buff sip) (s, us) = Some (r, st')"
  then show ?thesis using Process_DISCONN_ACK_sys [OF assms(1)] by (auto elim!: on_iaE)
next
  fix st1 assume f: "on_ia (Process_DISCONN_ACK_6 buff sip) (s, us) = Some (0, st1)" and g: "g st1 = Some (rc, st')"
  from f obtain s1 where "Process_DISCONN_ACK_6 buff sip s = Some (0, s1)" "st1 = (s1, us)" by (rule on_iaE)
  then obtain e where "st1 = (s, us)" "ip_find sip s = Some e" "iu_phase e = 4"
    using Process_DISCONN_ACK_sys [OF assms(1)] by blast
  then show ?thesis using Send_FIN_sys [OF assms(1,2)] g assms(4) by blast
qed

lemma dispatch_sys:
  assumes i: "ia_sys_inv F (ie_self A) (s, us)" and F: "e_FindTariff (ie_env A) = F" and r: "ia_ready (ie_self A) sip (s, us)"
    and d: "dispatch A pt v buff sip (s, us) = Some (rc, st')"
  shows "ia_sys_inv F (ie_self A) st'"
proof -
  note p68 = Process_CONN_ACK_68 Process_ALIVE_ACK_68 Process_DISCONN_SYN_68 Process_DISCONN_ACK_68
  have syn: "then_reply (on_ia (Process_CONN_SYN_6 A sip)) (on_ia (Send_CONN_SYN_ACK_6 A sip)) (s, us) = Some (rc, st') \<Longrightarrow> ia_sys_inv F (ie_self A) st'"
      "then_reply (on_ia (Process_CONN_SYN_8 A buff sip)) (on_ia (Send_CONN_SYN_ACK_8 A sip)) (s, us) = Some (rc, st') \<Longrightarrow> ia_sys_inv F (ie_self A) st'"
      "then_reply (on_ia (Process_DISCONN_SYN_6 A sip)) (on_ia (Send_DISCONN_SYN_ACK_6 A sip)) (s, us) = Some (rc, st') \<Longrightarrow> ia_sys_inv F (ie_self A) st'"
      "then_reply (on_ia (Process_DISCONN_SYN_6 A sip)) (on_ia (Send_DISCONN_SYN_ACK_8 A sip)) (s, us) = Some (rc, st') \<Longrightarrow> ia_sys_inv F (ie_self A) st'"
    by (erule reply_ia_sys [OF i], blast intro: Process_CONN_SYN_sys [OF i] Process_DISCONN_SYN_sys [OF i], erule Send_keeps)+
  have alive: "on_ia (Process_ALIVE_ACK_6 A buff sip) (s, us) = Some (rc, st') \<Longrightarrow> ia_sys_inv F (ie_self A) st'"
    using Process_ALIVE_ACK_sys [OF i] by (auto elim!: on_iaE)
  note rules = syn alive CONN_ACK_sys [OF i F r, where g = "Send_ALIVE_SYN_6 A sip", simplified]
    CONN_ACK_sys [OF i F r, where g = "Send_ALIVE_SYN_8 A sip", simplified]
    DISCONN_ACK_sys [OF i F, where g = "Send_FIN_6 A sip", simplified] DISCONN_ACK_sys [OF i F, where g = "Send_FIN_8 A sip", simplified]
  show ?thesis
    using d i unfolding dispatch_def p68 by (cases pt; simp only: packet_type.case split: if_splits; (blast dest: rules | simp))
qed

lemma new_client_sys:
  assumes "ia_sys_inv F a (s, us)" and "user_at i us = Some u" and "ip_find sip s = None"
  shows "ia_sys_inv F a (new_client A sip sport v u s, us)"
    "\<exists>e. ip_find sip (new_client A sip sport v u s) = Some e \<and> iu_user e = i \<and> iu_login e = u_login u"
proof -
  note inv = assms(1) [unfolded ia_sys_inv_def prod.case]
  define e where "e = IA_USER A (u_login u) (u_id u) (uc_password (u_conf u)) (ie_random A (ia_draws s)) sport v"
  define s' where "s' = new_client A sip sport v u s"
  have f: "ip_find j s' = (if sip = j then Some e else ip_find j s)" for j
    using assms(3) inv by (simp add: s'_def new_client_def draw_eq Let_def e_def ipm.find_insert)
  have e: "client_ok e" "iu_user e = i" "iu_login e = u_login u" "iu_phase e = 1"
    using user_at_SomeD [OF assms(2)] by (simp_all add: e_def IA_USER_def client_ok_def key_of_new)
  then show "\<exists>e. ip_find sip (new_client A sip sport v u s) = Some e \<and> iu_user e = i \<and> iu_login e = u_login u"
    using f [of sip] by (auto simp: s'_def)
  have "ips_ok (ia_ip2user s')" using inv by (simp add: s'_def new_client_def draw_eq Let_def ipm.insert_ok)
  moreover have "ia_ctxS s' = ia_ctxS s" "ia_buffers s' = ia_buffers s"
    by (simp_all add: s'_def new_client_def draw_eq Let_def ia_buffers_def)
  ultimately have i: "ia_inv s'" using inv f e(1) by (simp add: ia_inv_def del: ia_inv_ips)
  have c: "clients s' = (clients s)(sip \<mapsto> (i, u_login u, 1))"
    using f e by (auto simp: clients_def client_view_def fun_eq_iff)
  have "login_of us i = Some (u_login u)" using assms(2) by (simp add: login_of_def)
  then have "n = l" if "clients s' ip = Some (j, l, q)" "login_of us j = Some n" for ip j l q n
    using that c ia_linkD(1) [of a s us] inv by (auto split: if_splits)
  moreover have "online a ip j l us" if "clients s' ip = Some (j, l, q)" "q = 3 \<or> q = 4" for ip j l q
    using that c ia_linkD(2) [of a s us] inv by (auto split: if_splits)
  moreover have "us_loginIndex us l = Some j" if "addr us j = Some ip" "ip \<noteq> 0" "login_of us j = Some l" for j ip l
    using that ia_linkD(3) [of a s us] inv by blast
  ultimately have "ia_link a s' us" unfolding ia_link_def by blast
  then show "ia_sys_inv F a (new_client A sip sport v u s, us)" using i inv by (simp add: ia_sys_inv_def s'_def)
qed

lemma quiet_ip_in_use: "quiet s (ip_in_use A sip sport v err other login s)"
  by (simp add: ip_in_use_def) (rule quiet_trans [OF quiet_fields(1) quiet_fields(3)])

lemma client_entry_sys:
  assumes "ia_sys_inv F a (s, us)" and "user_at i us = Some u" and "client_entry A sip sport v u (s, us) = Some r"
  shows "case r of Inl st \<Rightarrow> ia_sys_inv F a st
    | Inr (s', us') \<Rightarrow> us' = us \<and> ia_sys_inv F a (s', us) \<and> (\<exists>e. ip_find sip s' = Some e \<and> iu_user e = i \<and> iu_login e = u_login u)"
proof (cases "ip_find sip s")
  case None
  note new = new_client_sys [OF assms(1,2) None, of A sport v]
  obtain y us1 where y: "FindByIPIdx (ie_env A) sip us = Some (y, us1)" "us1 = us"
    using assms(3) None by (auto simp: client_entry_def bind_eq_Some_conv dest: lookup_same(2))
  then show ?thesis
    using assms(3) None new sys_quiet [OF assms(1) quiet_ip_in_use]
    by (auto simp: client_entry_def bind_eq_Some_conv split: option.splits if_splits prod.splits)
next
  case (Some e)
  note inv = assms(1) [unfolded ia_sys_inv_def prod.case]
  obtain w where w: "user_at (iu_user e) us = Some w" using assms(3) Some by (auto simp: client_entry_def bind_eq_Some_conv)
  have ids: "u_id w = iu_user e" "u_id u = i" using user_at_SomeD [OF w] user_at_SomeD [OF assms(2)] by simp_all
  have "iu_login e = u_login u" if "iu_user e = i"
    using ia_linkD(1) [of a s us sip] clients_find [OF Some] inv that assms(2) by (simp add: login_of_def)
  then show ?thesis
    using assms Some w ids sys_quiet [OF assms(1) quiet_ip_in_use]
    by (auto simp: client_entry_def split: if_splits)
qed

lemma quiet_refresh: "quiet s (refresh_password sip u s)"
  unfolding refresh_password_def by (rule quiet_upd) (simp_all add: client_view_def client_ok_def key_of_def)

lemma PacketProcessor_cases:
  assumes i: "ia_sys_inv F a (s, us)" and u: "user_at i us = Some u"
    and p: "PacketProcessor A buff len sip sport v u (s, us) = Some (rc, buff', st')"
  obtains "client_entry A sip sport v u (s, us) = Some (Inl st')" "ia_sys_inv F a st'"
  | s1 s2 e body b where "client_entry A sip sport v u (s, us) = Some (Inr (s1, us))" "s2 = refresh_password sip u s1"
    "ia_sys_inv F a (s2, us)" "ip_find sip s2 = Some e" "iu_user e = i" "iu_login e = u_login u"
    "DecryptString (iu_ctx e) (unat (len - of_nat ia_offset)) (drop ia_offset buff) = Some body" "b = put_bytes ia_offset body buff"
    "(case packetTypes (cstring (take (IA_MAX_TYPE_LEN - 1) (drop (ia_offset + 4) b))) of
        None \<Rightarrow> Some (0, b, ip_erase sip (wrong_password A sip sport v u s2), us)
      | Some pt \<Rightarrow> do {
          (byMe, us) \<leftarrow> on_user (ie_env A) (\<lambda>E. IsAuthorizedBy E (ie_self A)) (u_id u) us;
          (if byMe \<and> u_currIP u \<noteq> sip then Some (0, b, ip_erase sip (login_in_use A sip sport v u s2), us)
           else map_option (\<lambda>(rc, st). (rc, b, st)) (dispatch A pt v b sip (s2, us))) }) = Some (rc, buff', st')"
proof -
  obtain r where r: "client_entry A sip sport v u (s, us) = Some r"
    using p by (auto simp: PacketProcessor_def bind_eq_Some_conv)
  note c = client_entry_sys [OF i u r]
  show thesis
  proof (cases r)
    case (Inl st)
    then show thesis using p c that(1) by (simp add: PacketProcessor_def r)
  next
    case (Inr x)
    then obtain s1 e where x: "x = (s1, us)" "ia_sys_inv F a (s1, us)" "ip_find sip s1 = Some e" "iu_user e = i" "iu_login e = u_login u"
      using c by (cases x) auto
    define s2 where "s2 = refresh_password sip u s1"
    have i2: "ia_sys_inv F a (s2, us)" unfolding s2_def using x(2) quiet_refresh by (rule sys_quiet)
    have "clients s2 sip = clients s1 sip" using quietD [OF quiet_refresh] x(2) by (simp add: s2_def ia_sys_inv_def)
    then obtain e2 where e2: "ip_find sip s2 = Some e2" "iu_user e2 = i" "iu_login e2 = u_login u"
      using x(3,4,5) by (auto simp: clients_def client_view_def)
    obtain body where body: "DecryptString (iu_ctx e2) (unat (len - of_nat ia_offset)) (drop ia_offset buff) = Some body"
      using p e2(1) by (auto simp: PacketProcessor_def r Inr x(1) s2_def [symmetric] bind_eq_Some_conv)
    define b where "b = put_bytes ia_offset body buff"
    have rest: "(case packetTypes (cstring (take (IA_MAX_TYPE_LEN - 1) (drop (ia_offset + 4) b))) of
        None \<Rightarrow> Some (0, b, ip_erase sip (wrong_password A sip sport v u s2), us)
      | Some pt \<Rightarrow> do {
          (byMe, us) \<leftarrow> on_user (ie_env A) (\<lambda>E. IsAuthorizedBy E (ie_self A)) (u_id u) us;
          (if byMe \<and> u_currIP u \<noteq> sip then Some (0, b, ip_erase sip (login_in_use A sip sport v u s2), us)
           else map_option (\<lambda>(rc, st). (rc, b, st)) (dispatch A pt v b sip (s2, us))) }) = Some (rc, buff', st')"
      using p e2(1) body unfolding s2_def b_def by (simp add: PacketProcessor_def r Inr x(1) Let_def)
    show thesis using that(2) [OF _ s2_def i2 e2 body b_def rest] r Inr x(1) by simp
  qed
qed

lemma quiet_complaints:
  "quiet s (wrong_password A sip sport v u s)" "quiet s (login_in_use A sip sport v u s)"
  unfolding wrong_password_def login_in_use_def
  by (rule quiet_trans [OF quiet_fields(3) quiet_fields(1)], rule quiet_trans [OF quiet_fields(1) quiet_fields(3)])

lemma PacketProcessor_sys:
  assumes i: "ia_sys_inv F (ie_self A) (s, us)" and F: "e_FindTariff (ie_env A) = F" and u: "user_at i us = Some u"
    and idx: "us_loginIndex us (u_login u) = Some i"
    and p: "PacketProcessor A buff len sip sport v u (s, us) = Some (rc, buff', st')"
  shows "ia_sys_inv F (ie_self A) st'"
  using i u p
proof (rule PacketProcessor_cases)
  fix s1 s2 e2 body b
  assume i2: "ia_sys_inv F (ie_self A) (s2, us)" and e2: "ip_find sip s2 = Some e2" "iu_user e2 = i" "iu_login e2 = u_login u"
    and rest: "(case packetTypes (cstring (take (IA_MAX_TYPE_LEN - 1) (drop (ia_offset + 4) b))) of
        None \<Rightarrow> Some (0, b, ip_erase sip (wrong_password A sip sport v u s2), us)
      | Some pt \<Rightarrow> do {
          (byMe, us) \<leftarrow> on_user (ie_env A) (\<lambda>E. IsAuthorizedBy E (ie_self A)) (u_id u) us;
          (if byMe \<and> u_currIP u \<noteq> sip then Some (0, b, ip_erase sip (login_in_use A sip sport v u s2), us)
           else map_option (\<lambda>(rc, st). (rc, b, st)) (dispatch A pt v b sip (s2, us))) }) = Some (rc, buff', st')"
  show ?thesis
  proof (cases "packetTypes (cstring (take (IA_MAX_TYPE_LEN - 1) (drop (ia_offset + 4) b)))")
    case None
    then show ?thesis using rest sys_erase [OF sys_quiet [OF i2 quiet_complaints(1)]] by auto
  next
    case (Some pt)
    then obtain byMe us2 where me: "on_user (ie_env A) (\<lambda>E. IsAuthorizedBy E (ie_self A)) i us = Some (byMe, us2)"
      and d: "if byMe \<and> u_currIP u \<noteq> sip then st' = (ip_erase sip (login_in_use A sip sport v u s2), us2)
              else dispatch A pt v b sip (s2, us2) = Some (rc, st')"
      using rest user_at_SomeD [OF u] by (auto simp: bind_eq_Some_conv split: if_splits)
    note a = IsAuthorizedBy_same [OF F _ me]
    have i3: "ia_sys_inv F (ie_self A) (s2, us2)" and same: "same_registry us us2"
      using a i2 by (auto simp: ia_sys_inv_def intro: link_same)
    have ad: "addr us i = Some (u_currIP u)" using u by (simp add: addr_def)
    have "ia_ready (ie_self A) sip (s2, us2)" if "\<not> (byMe \<and> u_currIP u \<noteq> sip)"
      using that a i2 same e2 idx ad by (auto simp: ia_ready_def same_registry_def ia_sys_inv_def)
    then show ?thesis using d dispatch_sys [OF i3 F] sys_erase [OF sys_quiet [OF i3 quiet_complaints(2)]] by (auto split: if_splits)
  qed
qed simp

lemma quiet_refuse: "quiet s (refuse_user A sip sport v login why err s)"
  unfolding refuse_user_def by (rule quiet_trans [OF quiet_fields(1) quiet_fields(3)])

lemma quiet_CheckHeader: "quiet s (snd (CheckHeader buff sip s))"
  by (auto simp: CheckHeader_def Let_def intro: quiet_same)

lemma process_datagram_cases:
  assumes i: "users_inv F us" and p: "process_datagram A buff len sip sport v (s, us) = Some (rc, buff', st')"
  obtains "quiet s (fst st')" "snd st' = us"
  | i u where "user_at i us = Some u" "us_loginIndex us (u_login u) = Some i"
      "PacketProcessor A buff (of_nat len) sip sport v u (s, us) = Some (rc, buff', st')"
proof -
  obtain loginS where l: "DecryptString (ia_ctxS s) PASSWD_LEN (drop 8 buff) = Some loginS" "0 \<in> set loginS"
    using p by (auto simp: process_datagram_def bind_eq_Some_conv split: if_splits)
  obtain x where f: "Users_FindByName (ie_env A) (cstring loginS) us = Some (x, us)" "snd x = us_loginIndex us (cstring loginS)"
  proof -
    have "Users_FindByName (ie_env A) (cstring loginS) us \<noteq> None"
      using p l by (intro notI) (simp add: process_datagram_def Let_def)
    then obtain x us1 where "Users_FindByName (ie_env A) (cstring loginS) us = Some (x, us1)" by force
    with lookup_same(1) [OF this] show thesis using that by simp
  qed
  have q: "quiet s (SendError A sip sport v err (emit m s))" for m err
    by (rule quiet_trans [OF quiet_fields(1) quiet_fields(3)])
  show thesis
  proof (cases "us_loginIndex us (cstring loginS)")
    case None
    then show thesis using p f q that(1) by (cases x) (auto simp: process_datagram_def l Let_def)
  next
    case (Some j)
    then obtain u where u: "user_at j us = Some u"
      using p f by (cases x) (auto simp: process_datagram_def l Let_def bind_eq_Some_conv)
    have "u_login u = cstring loginS"
      using i users_invD(3) [of F us "cstring loginS" j] Some u by (simp add: login_of_def)
    then have idx: "us_loginIndex us (u_login u) = Some j" using Some by simp
    show thesis
      using p f Some q quiet_refuse that(1) that(2) [OF u idx]
      by (cases x) (auto simp: process_datagram_def l u Let_def split: if_splits)
  qed
qed

lemma process_datagram_sys:
  assumes i: "ia_sys_inv F (ie_self A) (s, us)" and F: "e_FindTariff (ie_env A) = F"
    and p: "process_datagram A buff len sip sport v (s, us) = Some (rc, buff', st')"
  shows "ia_sys_inv F (ie_self A) st'"
proof -
  have "users_inv F us" using i by (simp add: ia_sys_inv_def)
  from this p show ?thesis
  proof (rule process_datagram_cases)
    assume "quiet s (fst st')" "snd st' = us"
    then show ?thesis using sys_quiet [OF i, of "fst st'"] by simp (metis prod.collapse)
  qed (rule PacketProcessor_sys [OF i F])
qed

lemma RecvData_sys:
  assumes i: "ia_sys_inv F (ie_self A) (s, us)" and F: "e_FindTariff (ie_env A) = F"
    and p: "RecvData A r buff (s, us) = Some (rc, buff', st')"
  shows "ia_sys_inv F (ie_self A) st'"
proof (cases r)
  case (Datagram d sip sport)
  define b where "b = put_bytes 0 (take (length buff) d) buff"
  obtain h s1 where h: "CheckHeader b sip s = (h, s1)" by force
  then have "quiet s s1" using quiet_CheckHeader [of s b sip] by simp
  note i1 = sys_quiet [OF i this]
  show ?thesis
    using p i i1 process_datagram_sys [OF i1 F]
    by (auto simp: RecvData_def Datagram Let_def b_def [symmetric] h split: if_splits option.splits)
qed (use assms sys_quiet [OF i quiet_fields(1)] in \<open>auto simp: RecvData_def\<close>)

subsection \<open>Timeouts and the end of a session\<close>

lemma quiet_send_only: "quiet s (snd (IA_Send A ip p bs s))"
  by (rule quiet_same) simp_all

lemma RealSendMessage_quiet:
  "RealSendMessage6 A m ip e s = Some (rc, s') \<Longrightarrow> quiet s s'"
  "RealSendMessage7 A m ip e s = Some (rc, s') \<Longrightarrow> quiet s s'"
  "RealSendMessage8 A m ip e s = Some (rc, s') \<Longrightarrow> quiet s s'"
  by (auto simp: RealSendMessage6_def RealSendMessage7_def RealSendMessage8_def Let_def bind_eq_Some_conv IA_Send_def ia_buffers_def
      intro!: quiet_same)

lemma quiet_messages: "quiet s (ip_upd ip (iu_messagesToSend_update f) s)"
  by (rule quiet_upd) (simp_all add: client_view_def client_ok_def)

lemma quiet_alive_time: "quiet s (ip_upd ip (iu_lastSendAlive_update f) s)"
  by (rule quiet_upd) (simp_all add: client_view_def client_ok_def)

lemma send_first_message_quiet:
  assumes "send_first_message A sip (s, us) = Some (s', us')"
  shows "us' = us \<and> quiet s s'"
proof -
  obtain e where e: "ip_find sip s = Some e" using assms by (auto simp: send_first_message_def bind_eq_Some_conv)
  show ?thesis
  proof (cases "iu_messagesToSend e")
    case Nil
    then show ?thesis using assms by (auto simp: send_first_message_def e intro: quiet_same)
  next
    case (Cons m ms)
    then show ?thesis
      using assms quiet_messages [of s sip]
      by (auto simp: send_first_message_def e bind_eq_Some_conv split: if_splits
          dest!: RealSendMessage_quiet intro: quiet_trans [OF _ quiet_messages])
  qed
qed

lemma Send_ALIVE_quiet:
  assumes "Send_ALIVE_SYN_6 A sip (s, us) = Some (rc, s', us') \<or> Send_ALIVE_SYN_8 A sip (s, us) = Some (rc, s', us')"
  shows "ia_inv s \<Longrightarrow> us' = us \<and> quiet s s'"
  using assms Send_ALIVE_SYN_6_inv Send_ALIVE_SYN_8_inv unfolding quiet_def by blast

lemma send_alive_quiet:
  assumes "send_alive A sip (s, us) = Some (s', us')" and "ia_inv s"
  shows "us' = us \<and> quiet s s'"
proof -
  obtain e where "ip_find sip s = Some e" using assms(1) by (auto simp: send_alive_def bind_eq_Some_conv)
  then show ?thesis
    using assms Send_ALIVE_quiet [of A sip s us]
    by (fastforce simp: send_alive_def bind_eq_Some_conv split: if_splits intro: quiet_trans [OF _ quiet_alive_time] quiet_alive_time quiet_same)
qed

lemma Timeouter_user_sys:
  assumes i: "ia_sys_inv F (ie_self A) (s, us)" and F: "e_FindTariff (ie_env A) = F"
    and p: "Timeouter_user A sip (s, us) = Some st'"
  shows "ia_sys_inv F (ie_self A) st'"
proof -
  obtain e where e: "ip_find sip s = Some e" using p by (auto simp: Timeouter_user_def bind_eq_Some_conv)
  have inv: "ia_inv s" using i by (simp add: ia_sys_inv_def)
  show ?thesis
  proof (cases "iu_phase e = 3")
    case True
    obtain s1 us1 s2 us2 where 1: "send_first_message A sip (s, us) = Some (s1, us1)" "send_alive A sip (s1, us1) = Some (s2, us2)"
      using p True by (auto simp: Timeouter_user_def e bind_eq_Some_conv)
    have u1: "us1 = us" "quiet s s1" using send_first_message_quiet [OF 1(1)] by simp_all
    then have "ia_inv s1" using inv by (simp add: quietD)
    with send_alive_quiet [OF 1(2)] u1 have u2: "us2 = us" "quiet s s2" by (auto intro: quiet_trans)
    note i2 = sys_quiet [OF i u2(2)]
    have c: "clients s2 sip = Some (iu_user e, iu_login e, 3)" using quietD [OF u2(2) inv] clients_find [OF e] True by simp
    then obtain e2 where e2: "ip_find sip s2 = Some e2" "iu_user e2 = iu_user e" by (auto simp: clients_def client_view_def)
    have on: "online (ie_self A) sip (iu_user e) (iu_login e) us"
      using ia_linkD(2) [of "ie_self A" s2 us, OF _ c] i2 by (simp add: ia_sys_inv_def)
    have login: "u_login u = iu_login e" if "user_at (iu_user e) us = Some u" for u
      using ia_linkD(1) [of "ie_self A" s2 us, OF _ c] i2 that by (simp add: ia_sys_inv_def login_of_def)
    have out: "ia_sys_inv F (ie_self A) (ip_erase sip (log_proto m s2), us')"
      if "Users_Unauthorize (ie_env A) (iu_login e) (ie_self A) '''' us = Some (ok, us')" for ok us' m
      by (rule logout_sys [OF i2 F that]) (use on in \<open>auto simp: online_def\<close>)
    show ?thesis
      using p True 1 i2 out u1(1) u2(1) e2 login
      by (auto simp: Timeouter_user_def e bind_eq_Some_conv Let_def split: if_splits)
  next
    case False
    have "ia_sys_inv F (ie_self A) (ip_erase sip (log_proto m s), us)" for m
      using sys_erase [OF sys_quiet [OF i quiet_fields(2)]] .
    moreover have "ia_sys_inv F (ie_self A) (ip_upd sip (SetPhase A 3) (log_proto m s), us)" if "iu_phase e = 4" for m
      using quietD [OF quiet_fields(2) inv] clients_find [OF e] that
      by (intro sys_phase [OF sys_quiet [OF i quiet_fields(2)]]) auto
    ultimately show ?thesis using p False i by (auto simp: Timeouter_user_def e Let_def split: if_splits)
  qed
qed

lemma Timeouter_sys:
  assumes "ia_sys_inv F (ie_self A) st" and "e_FindTariff (ie_env A) = F" and "Timeouter A st = Some st'"
  shows "ia_sys_inv F (ie_self A) st'"
proof -
  have "Timeouter_loop A ips st = Some st' \<Longrightarrow> ia_sys_inv F (ie_self A) st'" if "ia_sys_inv F (ie_self A) st" for ips st
    using that
  proof (induction ips arbitrary: st)
    case (Cons ip ips)
    then obtain st1 where "Timeouter_user A ip st = Some st1" "Timeouter_loop A ips st1 = Some st'" by (auto simp: bind_eq_Some_conv)
    then show ?case using Cons.IH Cons.prems Timeouter_user_sys [OF _ assms(2)] by (cases st) blast
  qed simp
  then show ?thesis using assms by (simp add: Timeouter_def)
qed

lemma IA_DelUser_sys:
  assumes i: "ia_sys_inv F (ie_self A) (s, us)" and F: "e_FindTariff (ie_env A) = F" and p: "IA_DelUser A j (s, us) = Some st'"
  shows "ia_sys_inv F (ie_self A) st'"
proof -
  obtain u where u: "user_at j us = Some u" using p by (auto simp: IA_DelUser_def bind_eq_Some_conv)
  have a: "addr us j = Some (u_currIP u)" using u by (simp add: addr_def)
  have "us_loginIndex us (u_login u) = Some j" if "u_currIP u \<noteq> 0"
    using ia_linkD(3) [of "ie_self A" s us] a that i u by (simp add: ia_sys_inv_def login_of_def)
  then show ?thesis
    using p i logout_sys [OF i F _ _ a quiet_same [of s s]]
    by (auto simp: IA_DelUser_def u Let_def split: if_splits option.splits)
qed

subsection \<open>Reachable states\<close>

text \<open>What can happen while the plugin runs. The rest of the server may change the registry as long as it keeps the
  registry's own invariant, does not withdraw authorizations of the plugin and does not forget the logins of users
  with an address; a user who is deleted is reported to the plugin first (\<open>IA_DelUser\<close>).\<close>

inductive ia_step :: "(string \<Rightarrow> nat option) \<Rightarrow> nat \<Rightarrow> iasys \<Rightarrow> iasys \<Rightarrow> bool" for F a where
  ia_run: "IA_Run_turn A r loc st = Some (loc', st') \<Longrightarrow> ie_self A = a \<Longrightarrow> e_FindTariff (ie_env A) = F \<Longrightarrow> ia_step F a st st'"
| ia_timeouter: "IA_RunTimeouter_turn A n st = Some (n', st') \<Longrightarrow> ie_self A = a \<Longrightarrow> e_FindTariff (ie_env A) = F \<Longrightarrow> ia_step F a st st'"
| ia_message: "IA_SendMessage msg ip s = (rc, s') \<Longrightarrow> ia_step F a (s, us) (s', us)"
| ia_deluser: "IA_DelUser A i st = Some st' \<Longrightarrow> ie_self A = a \<Longrightarrow> e_FindTariff (ie_env A) = F \<Longrightarrow> ia_step F a st st'"
| ia_start: "IA_Start r s = (rc, s') \<Longrightarrow> ia_step F a (s, us) (s', us)"
| ia_parse: "ParseSettings ms s = (rc, s') \<Longrightarrow> ia_step F a (s, us) (s', us)"
| ia_reload: "IA_Reload ms s = (rc, s') \<Longrightarrow> ia_step F a (s, us) (s', us)"
| ia_others: "users_inv F us' \<Longrightarrow> ia_link a s us' \<Longrightarrow> ia_step F a (s, us) (s, us')"

inductive ia_reach :: "(string \<Rightarrow> nat option) \<Rightarrow> nat \<Rightarrow> iasys \<Rightarrow> bool" for F a where
  ia_new: "users_inv F us \<Longrightarrow> ia_link a (AUTH_IA tr) us \<Longrightarrow> ia_reach F a (AUTH_IA tr, us)"
| ia_next: "ia_reach F a st \<Longrightarrow> ia_step F a st st' \<Longrightarrow> ia_reach F a st'"

lemma quiet_refl [simp]: "quiet s s"
  by (simp add: quiet_def)

lemma quiet_SendMessage: "IA_SendMessage msg ip s = (rc, s') \<Longrightarrow> quiet s s'"
  by (auto simp: IA_SendMessage_def split: option.splits intro: quiet_upd simp: client_view_def client_ok_def)

lemma quiet_Start: "IA_Start r s = (rc, s') \<Longrightarrow> quiet s s'"
  by (auto simp: IA_Start_def PrepareNet_def Let_def split: net_result.splits if_splits intro!: quiet_same)
    (simp_all add: ia_buffers_def emit_def)

lemma quiet_Parse: "ParseSettings ms s = (rc, s') \<Longrightarrow> quiet s s'"
  by (auto simp: ParseSettings_def Let_def split: prod.splits if_splits intro!: quiet_same) (simp_all add: ia_buffers_def)

lemma quiet_Reload: "IA_Reload ms s = (rc, s') \<Longrightarrow> quiet s s'"
  by (auto simp: IA_Reload_def Let_def split: prod.splits if_splits intro!: quiet_same) (simp_all add: ia_buffers_def emit_def)

lemma Run_turn_sys:
  assumes "ia_sys_inv F (ie_self A) st" and "e_FindTariff (ie_env A) = F" and "IA_Run_turn A r loc st = Some (loc', st')"
  shows "ia_sys_inv F (ie_self A) st'"
proof -
  obtain buffer t s us where st: "loc = (buffer, t)" "st = (s, us)" by fastforce
  obtain rc b s1 us1 where r: "RecvData A r buffer (s, us) = Some (rc, b, s1, us1)" and q: "us1 = snd st'" "quiet s1 (fst st')"
    using assms(3) by (auto simp: IA_Run_turn_def st bind_eq_Some_conv split: if_splits)
  have "ia_sys_inv F (ie_self A) (s1, us1)" using RecvData_sys [OF _ assms(2) r] assms(1) by (simp add: st)
  from sys_quiet [OF this q(2)] q(1) show ?thesis by simp
qed

lemma RunTimeouter_turn_sys:
  assumes "ia_sys_inv F (ie_self A) st" and "e_FindTariff (ie_env A) = F" and "IA_RunTimeouter_turn A n st = Some (n', st')"
  shows "ia_sys_inv F (ie_self A) st'"
proof -
  obtain s1 us1 where r: "Timeouter A st = Some (s1, us1)" and q: "us1 = snd st'" "quiet s1 (fst st')"
    using assms(3) by (auto simp: IA_RunTimeouter_turn_def Let_def bind_eq_Some_conv split: if_splits)
  have "ia_sys_inv F (ie_self A) (s1, us1)" using Timeouter_sys [OF assms(1,2) r] .
  from sys_quiet [OF this q(2)] q(1) show ?thesis by simp
qed

lemma ia_step_sys: "ia_step F a st st' \<Longrightarrow> ia_sys_inv F a st \<Longrightarrow> ia_sys_inv F a st'"
proof (induction rule: ia_step.induct)
  case (ia_deluser A i st st')
  then show ?case using IA_DelUser_sys [of F A "fst st" "snd st" i st'] by simp
next
  case (ia_others us' s us)
  then show ?case by (simp add: ia_sys_inv_def)
qed (auto intro: Run_turn_sys RunTimeouter_turn_sys sys_quiet quiet_SendMessage quiet_Start quiet_Parse quiet_Reload)

lemma ia_reach_sys: "ia_reach F a st \<Longrightarrow> ia_sys_inv F a st"
proof (induction rule: ia_reach.induct)
  case (ia_new us tr)
  then show ?case by (simp add: ia_sys_inv_def AUTH_IA_inv)
qed (rule ia_step_sys)

end
