(* ===== verification/Stg_Koi.thy ===== *)
theory Stg_Koi
  imports Stg_Bytes
begin

text \<open>
  The conversions between the Cyrillic encodings KOI8 and Windows-1251 of \<open>libs/common/common.cpp\<close>: two tables of 256 bytes and
  the functions that apply them to buffers and to strings.
\<close>

definition koi2win :: "u8 list" where
  "koi2win = [0x00, 0x01, 0x02, 0x03, 0x04, 0x05, 0x06, 0x07, 0x08, 0x09, 0x0A, 0x0B, 0x0C, 0x0D, 0x0E, 0x0F,
     0x10, 0x11, 0x12, 0x13, 0x14, 0x15, 0x16, 0x17, 0x18, 0x19, 0x1A, 0x1B, 0x1C, 0x1D, 0x1E, 0x1F,
     0x20, 0x21, 0x22, 0x23, 0x24, 0x25, 0x26, 0x27, 0x28, 0x29, 0x2A, 0x2B, 0x2C, 0x2D, 0x2E, 0x2F,
     0x30, 0x31, 0x32, 0x33, 0x34, 0x35, 0x36, 0x37, 0x38, 0x39, 0x3A, 0x3B, 0x3C, 0x3D, 0x3E, 0x3F,
     0x40, 0x41, 0x42, 0x43, 0x44, 0x45, 0x46, 0x47, 0x48, 0x49, 0x4A, 0x4B, 0x4C, 0x4D, 0x4E, 0x4F,
     0x50, 0x51, 0x52, 0x53, 0x54, 0x55, 0x56, 0x57, 0x58, 0x59, 0x5A, 0x5B, 0x5C, 0x5D, 0x5E, 0x5F,
     0x60, 0x61, 0x62, 0x63, 0x64, 0x65, 0x66, 0x67, 0x68, 0x69, 0x6A, 0x6B, 0x6C, 0x6D, 0x6E, 0x6F,
     0x70, 0x71, 0x72, 0x73, 0x74, 0x75, 0x76, 0x77, 0x78, 0x79, 0x7A, 0x7B, 0x7C, 0x7D, 0x7E, 0x7F,
     0x80, 0x81, 0x82, 0x83, 0x84, 0x85, 0x86, 0x87, 0x88, 0x89, 0x8A, 0x8B, 0x8C, 0x8D, 0x8E, 0x8F,
     0x90, 0x91, 0x92, 0x93, 0x94, 0x95, 0x96, 0x97, 0x98, 0x99, 0x9A, 0x9B, 0x9C, 0x9D, 0x9E, 0x9F,
     0xA0, 0xA1, 0xA2, 0xB8, 0xBA, 0xA5, 0xB3, 0xBF, 0xA8, 0xA9, 0xAA, 0xAB, 0xAC, 0xB4, 0xAE, 0xAF,
     0xB0, 0xB1, 0xB2, 0xA8, 0xAA, 0xB5, 0xB2, 0xAF, 0xB8, 0xB9, 0xBA, 0xBB, 0xBC, 0xA5, 0xBE, 0xBF,
     0xFE, 0xE0, 0xE1, 0xF6, 0xE4, 0xE5, 0xF4, 0xE3, 0xF5, 0xE8, 0xE9, 0xEA, 0xEB, 0xEC, 0xED, 0xEE,
     0xEF, 0xFF, 0xF0, 0xF1, 0xF2, 0xF3, 0xE6, 0xE2, 0xFC, 0xFB, 0xE7, 0xF8, 0xFD, 0xF9, 0xF7, 0xFA,
     0xDE, 0xC0, 0xC1, 0xD6, 0xC4, 0xC5, 0xD4, 0xC3, 0xD5, 0xC8, 0xC9, 0xCA, 0xCB, 0xCC, 0xCD, 0xCE,
     0xCF, 0xDF, 0xD0, 0xD1, 0xD2, 0xD3, 0xC6, 0xC2, 0xDC, 0xDB, 0xC7, 0xD8, 0xDD, 0xD9, 0xD7, 0xDA]"

definition win2koi :: "u8 list" where
  "win2koi = [0x00, 0x01, 0x02, 0x03, 0x04, 0x05, 0x06, 0x07, 0x08, 0x09, 0x0A, 0x0B, 0x0C, 0x0D, 0x0E, 0x0F,
     0x10, 0x11, 0x12, 0x13, 0x14, 0x15, 0x16, 0x17, 0x18, 0x19, 0x1A, 0x1B, 0x1C, 0x1D, 0x1E, 0x1F,
     0x20, 0x21, 0x22, 0x23, 0x24, 0x25, 0x26, 0x27, 0x28, 0x29, 0x2A, 0x2B, 0x2C, 0x2D, 0x2E, 0x2F,
     0x30, 0x31, 0x32, 0x33, 0x34, 0x35, 0x36, 0x37, 0x38, 0x39, 0x3A, 0x3B, 0x3C, 0x3D, 0x3E, 0x3F,
     0x40, 0x41, 0x42, 0x43, 0x44, 0x45, 0x46, 0x47, 0x48, 0x49, 0x4A, 0x4B, 0x4C, 0x4D, 0x4E, 0x4F,
     0x50, 0x51, 0x52, 0x53, 0x54, 0x55, 0x56, 0x57, 0x58, 0x59, 0x5A, 0x5B, 0x5C, 0x5D, 0x5E, 0x5F,
     0x60, 0x61, 0x62, 0x63, 0x64, 0x65, 0x66, 0x67, 0x68, 0x69, 0x6A, 0x6B, 0x6C, 0x6D, 0x6E, 0x6F,
     0x70, 0x71, 0x72, 0x73, 0x74, 0x75, 0x76, 0x77, 0x78, 0x79, 0x7A, 0x7B, 0x7C, 0x7D, 0x7E, 0x7F,
     0x80, 0x81, 0x82, 0x83, 0x84, 0x85, 0x86, 0x87, 0x88, 0x89, 0x8A, 0x8B, 0x8C, 0x8D, 0x8E, 0x8F,
     0x90, 0x91, 0x92, 0x93, 0x94, 0x95, 0x96, 0x97, 0x98, 0x99, 0x9A, 0x9B, 0x9C, 0x9D, 0x9E, 0x9F,
     0xA0, 0xA1, 0xA2, 0xA3, 0xA4, 0xBD, 0xA6, 0xA7, 0xB3, 0xA9, 0xB4, 0xAB, 0xAC, 0xAD, 0xAE, 0xB7,
     0xB0, 0xB1, 0xB6, 0xA6, 0xAD, 0xB5, 0xB6, 0xB7, 0xA3, 0xB9, 0xA4, 0xBB, 0xBC, 0xBD, 0xBE, 0xA7,
     0xE1, 0xE2, 0xF7, 0xE7, 0xE4, 0xE5, 0xF6, 0xFA, 0xE9, 0xEA, 0xEB, 0xEC, 0xED, 0xEE, 0xEF, 0xF0,
     0xF2, 0xF3, 0xF4, 0xF5, 0xE6, 0xE8, 0xE3, 0xFE, 0xFB, 0xFD, 0xFF, 0xF9, 0xF8, 0xFC, 0xE0, 0xF1,
     0xC1, 0xC2, 0xD7, 0xC7, 0xC4, 0xC5, 0xD6, 0xDA, 0xC9, 0xCA, 0xCB, 0xCC, 0xCD, 0xCE, 0xCF, 0xD0,
     0xD2, 0xD3, 0xD4, 0xD5, 0xC6, 0xC8, 0xC3, 0xDE, 0xDB, 0xDD, 0xDF, 0xD9, 0xD8, 0xDC, 0xC0, 0xD1]"

text \<open>On buffers: at most \<open>l\<close> characters, up to and including the first zero; the memory behind them is kept. \<open>None\<close>: the
  source or the destination is too short.\<close>

fun recode_buf :: "u8 list \<Rightarrow> bytes \<Rightarrow> bytes \<Rightarrow> nat \<Rightarrow> bytes option" where
  "recode_buf table s1 s2 0 = Some s2"
| "recode_buf table (c # s1) (d # s2) (Suc l) =
     (let t = table ! unat c
      in if c = 0 then Some (t # s2) else map_option ((#) t) (recode_buf table s1 s2 l))"
| "recode_buf table _ _ (Suc l) = None"

definition KOIToWin_buf :: "bytes \<Rightarrow> bytes \<Rightarrow> nat \<Rightarrow> bytes option" where
  "KOIToWin_buf = recode_buf koi2win"

definition WinToKOI_buf :: "bytes \<Rightarrow> bytes \<Rightarrow> nat \<Rightarrow> bytes option" where
  "WinToKOI_buf = recode_buf win2koi"

definition KOIToWin :: "string \<Rightarrow> string" where
  "KOIToWin s1 = map (\<lambda>c. char_at (koi2win ! unat (byte_of c))) s1"

definition WinToKOI :: "string \<Rightarrow> string" where
  "WinToKOI s1 = map (\<lambda>c. char_at (win2koi ! unat (byte_of c))) s1"

subsection \<open>Which characters survive\<close>

text \<open>The eight bytes of KOI8 and the eight of Windows-1251 that come back as another byte.\<close>

definition koi_lossy :: "u8 list" where
  "koi_lossy = [0xA5, 0xA8, 0xAA, 0xAF, 0xB2, 0xB8, 0xBA, 0xBF]"

definition win_lossy :: "u8 list" where
  "win_lossy = [0xA3, 0xA4, 0xA6, 0xA7, 0xAD, 0xB6, 0xB7, 0xBD]"


lemma koi_tables: "list_all (\<lambda>n. (win2koi ! unat (koi2win ! n) = of_nat n) = (of_nat n \<notin> set koi_lossy)) [0..<256]"
  by code_simp

lemma win_tables: "list_all (\<lambda>n. (koi2win ! unat (win2koi ! n) = of_nat n) = (of_nat n \<notin> set win_lossy)) [0..<256]"
  by code_simp

lemma table_u8:
  assumes "list_all (\<lambda>n. P (of_nat n :: u8) n) [0..<256]"
  shows "P (b :: u8) (unat b)"
proof -
  have "unat b < 256" using unsigned_less [of b] by simp
  then have "P (of_nat (unat b)) (unat b)" using assms unfolding list_all_iff by (metis atLeastLessThan_iff le0 set_upt)
  then show ?thesis by simp
qed

lemma map_eq_self: "map f xs = xs \<longleftrightarrow> (\<forall>x\<in>set xs. f x = x)"
  by (induction xs) auto

lemma recode_string:
  assumes "\<And>b. (g ! unat (f ! unat b) = b) = (b \<notin> set bad)"
  shows "map (\<lambda>c. char_at (g ! unat (byte_of c))) (map (\<lambda>c. char_at (f ! unat (byte_of c))) s) = s
    \<longleftrightarrow> set (map byte_of s) \<inter> set bad = {}"
proof -
  have "char_at b = c \<longleftrightarrow> b = byte_of c" for b c by auto
  then show ?thesis using assms by (auto simp: map_eq_self comp_def)
qed

text \<open>Converting a text from KOI8 to Windows-1251 and back gives the text exactly when it has none of the eight bytes
  \<open>koi_lossy\<close>, and the other way round with \<open>win_lossy\<close>: each table maps sixteen bytes to eight.\<close>

theorem koi_win_roundtrip:
  "(WinToKOI (KOIToWin s) = s \<longleftrightarrow> set (map byte_of s) \<inter> set koi_lossy = {})
    \<and> (KOIToWin (WinToKOI s) = s \<longleftrightarrow> set (map byte_of s) \<inter> set win_lossy = {})"
proof -
  have "(win2koi ! unat (koi2win ! unat b) = b) = (b \<notin> set koi_lossy)" for b
    by (rule table_u8 [where P = "\<lambda>b n. (win2koi ! unat (koi2win ! n) = b) = (b \<notin> set koi_lossy)", OF koi_tables])
  moreover have "(koi2win ! unat (win2koi ! unat b) = b) = (b \<notin> set win_lossy)" for b
    by (rule table_u8 [where P = "\<lambda>b n. (koi2win ! unat (win2koi ! n) = b) = (b \<notin> set win_lossy)", OF win_tables])
  ultimately show ?thesis
    unfolding WinToKOI_def KOIToWin_def by (intro conjI recode_string)
qed

end
