(* ===== verification/Stg_IAClient.thy ===== *)
theory Stg_IAClient
  imports Stg_IAData Stg_Koi
begin

text \<open>
  The client side of the InetAccess protocol, \<open>libs/ia/ia.cpp\<close> and \<open>ia.h\<close>: \<open>IA_CLIENT_PROT\<close> asks the server for a
  connection, answers its packets, and gives up after some silence. The callbacks of the application and the
  datagrams are recorded in the state. \<open>None\<close>: a read behind the end of a buffer.
\<close>

subsection \<open>State\<close>

datatype client_event = StatusChanged int | StatChanged bytes | InfoText string int int int | ErrorText string int | DirNames "string list"

text \<open>\<open>ce_resolve\<close> stands for \<open>inet_addr\<close> and \<open>gethostbyname\<close>, \<open>ce_tick\<close> for \<open>gettimeofday\<close> in milliseconds.\<close>

record client_env =
  ce_tick :: int
  ce_resolve :: "string \<Rightarrow> u32 option"
  ce_bind :: bool
  ce_fcntl :: bool

record ia_client =
  ic_stat :: bytes
  ic_action :: int
  ic_phase :: int
  ic_phaseTime :: int
  ic_messageText :: string
  ic_strError :: string
  ic_codeError :: int
  ic_isNetPrepared :: bool
  ic_ctxPass :: blowfish_ctx
  ic_ctxHdr :: blowfish_ctx
  ic_selectedDirs :: "bool list"
  ic_password :: string
  ic_login :: string
  ic_serverName :: string
  ic_port :: u16
  ic_ip :: u32
  ic_localName :: string
  ic_localIP :: u32
  ic_localPort :: u32
  ic_servAddr :: "u32 \<times> u16"
  ic_firstConnect :: bool
  ic_reconnect :: int
  ic_userTimeout :: int
  ic_aliveTimeout :: int
  ic_rnd :: u32
  ic_statusCb :: bool
  ic_statCb :: bool
  ic_infoCb :: bool
  ic_errorCb :: bool
  ic_dirNameCb :: bool
  ic_events :: "client_event list"
  ic_out :: "((u32 \<times> u16) \<times> bytes) list"

definition IA_NONE :: int where "IA_NONE = 0"
definition IA_CONNECT :: int where "IA_CONNECT = 1"
definition IA_DISCONNECT :: int where "IA_DISCONNECT = 2"
definition IA_BIND_ERROR :: int where "IA_BIND_ERROR = 1"
definition IA_SERVER_ERROR :: int where "IA_SERVER_ERROR = 2"
definition IA_FCNTL_ERROR :: int where "IA_FCNTL_ERROR = 3"
definition IA_GETHOSTBYNAME_ERROR :: int where "IA_GETHOSTBYNAME_ERROR = 4"

definition sizeof_LOADSTAT :: nat where "sizeof_LOADSTAT = 352"

definition client_packetTypes :: "string \<rightharpoonup> packet_type" where
  "client_packetTypes = packetTypes(''INFO'' \<mapsto> INFO_N, ''INFO_7'' \<mapsto> INFO_7_N, ''INFO_8'' \<mapsto> INFO_8_N)"

text \<open>\<open>m_localIP\<close> is not initialized: \<open>lip\<close> is what it happens to be.\<close>

definition IA_CLIENT_PROT :: "u32 \<Rightarrow> string \<Rightarrow> u16 \<Rightarrow> string \<Rightarrow> u16 \<Rightarrow> ia_client" where
  "IA_CLIENT_PROT lip sn p localN lp = \<lparr>ic_stat = replicate sizeof_LOADSTAT 0, ic_action = IA_NONE, ic_phase = 1, ic_phaseTime = 0,
     ic_messageText = '''', ic_strError = '''', ic_codeError = 0, ic_isNetPrepared = False,
     ic_ctxPass = Blowfish_Init (replicate PASSWD_LEN 0),
     ic_ctxHdr = Blowfish_Init (put_bytes 0 (strncpy 8 ''pr7Hhen'') (replicate PASSWD_LEN 0)),
     ic_selectedDirs = replicate DIR_NUM False, ic_password = '''', ic_login = '''', ic_serverName = sn, ic_port = p, ic_ip = 0,
     ic_localName = localN, ic_localIP = lip, ic_localPort = ucast lp, ic_servAddr = (0, p), ic_firstConnect = True, ic_reconnect = 0,
     ic_userTimeout = 60, ic_aliveTimeout = 5, ic_rnd = 0, ic_statusCb = False, ic_statCb = False, ic_infoCb = False,
     ic_errorCb = False, ic_dirNameCb = False, ic_events = [], ic_out = []\<rparr>"

definition call_back :: "bool \<Rightarrow> client_event \<Rightarrow> ia_client \<Rightarrow> ia_client" where
  "call_back is_set ev c = (if is_set then c\<lparr>ic_events := ic_events c @ [ev]\<rparr> else c)"

definition GetTickCount :: "client_env \<Rightarrow> int" where
  "GetTickCount C = i32 (ce_tick C)"

subsection \<open>The socket\<close>

definition client_error :: "string \<Rightarrow> int \<Rightarrow> ia_client \<Rightarrow> ia_client" where
  "client_error msg code c = call_back (ic_errorCb c) (ErrorText msg code) (c\<lparr>ic_strError := msg, ic_codeError := code\<rparr>)"

definition unknown_host :: "ia_client \<Rightarrow> ia_client" where
  "unknown_host c = client_error (''Unknown host '' @ squote (ic_serverName c)) IA_GETHOSTBYNAME_ERROR c"

definition client_PrepareNet :: "client_env \<Rightarrow> ia_client \<Rightarrow> ia_client" where
  "client_PrepareNet C c = (case ce_resolve C (ic_serverName c) of
     None \<Rightarrow> unknown_host (c\<lparr>ic_ip := 0\<rparr>)
   | Some ip \<Rightarrow>
       let c = c\<lparr>ic_ip := ip\<rparr>;
           c = (if ic_localName c \<noteq> [] then
                  (case ce_resolve C (ic_localName c) of
                     Some l \<Rightarrow> c\<lparr>ic_localIP := l\<rparr>
                   | None \<Rightarrow> (unknown_host c)\<lparr>ic_localIP := 0\<rparr>)
                else c\<lparr>ic_localIP := 0\<rparr>);
           c = c\<lparr>ic_servAddr := (ic_ip c, ic_port c)\<rparr>
       in if \<not> ce_bind C then client_error ''bind error'' IA_BIND_ERROR c
          else if \<not> ce_fcntl C then client_error ''fcntl error'' IA_FCNTL_ERROR c
          else c)"

definition FillHdr8 :: "ia_client \<Rightarrow> bytes \<Rightarrow> bytes" where
  "FillHdr8 c buffer =
     put_fields [(0, strncpy 6 IA_ID), (6, [0]), (7, [8]), (sizeof_HDR_8, strncpy IA_LOGIN_LEN (ic_login c))] buffer"

definition client_Send :: "client_env \<Rightarrow> bytes \<Rightarrow> nat \<Rightarrow> ia_client \<Rightarrow> ia_client option" where
  "client_Send C buffer len c = do {
     let c = (if \<not> ic_isNetPrepared c then (client_PrepareNet C c)\<lparr>ic_isNetPrepared := True\<rparr> else c);
     let db = sizeof_HDR_8;
     r \<leftarrow> EncryptString (ic_ctxHdr c) IA_LOGIN_LEN (drop db buffer);
     let buffer = put_bytes db r buffer;
     let db = db + IA_LOGIN_LEN;
     r \<leftarrow> EncryptString (ic_ctxPass c) (len - sizeof_HDR_8 - IA_LOGIN_LEN) (drop db buffer);
     let buffer = put_bytes db r buffer;
     Some (c\<lparr>ic_out := ic_out c @ [(ic_servAddr c, take len buffer)]\<rparr>) }"

subsection \<open>Packets to the server\<close>

definition dirs_mask :: "bool list \<Rightarrow> u32" where
  "dirs_mask sel = fold (\<lambda>i m. m OR push_bit i (if sel ! i then 1 else 0)) [0..<DIR_NUM] 0"

definition Prepare_CONN_SYN_8 :: "ia_client \<Rightarrow> bytes \<Rightarrow> nat \<times> bytes \<times> ia_client" where
  "Prepare_CONN_SYN_8 c buffer = (sizeof_CONN_SYN_8,
     put_fields [(40, word_bytes 4 (of_nat sizeof_CONN_SYN_8 :: u32)), (44, strncpy IA_MAX_TYPE_LEN ''CONN_SYN''),
       (60, strncpy IA_LOGIN_LEN (ic_login c)), (92, word_bytes 4 (dirs_mask (ic_selectedDirs c)))] buffer, c)"

text \<open>The acknowledgements count the control number up; the last one does so only in the packet.\<close>

definition Prepare_CONN_ACK_8 :: "ia_client \<Rightarrow> bytes \<Rightarrow> nat \<times> bytes \<times> ia_client" where
  "Prepare_CONN_ACK_8 c buffer =
     (let rnd = ic_rnd c + 1
      in (sizeof_CONN_ACK_8,
          put_fields [(40, word_bytes 4 (of_nat sizeof_CONN_ACK_8 :: u32)), (8, strncpy IA_LOGIN_LEN (ic_login c)),
            (44, strncpy IA_MAX_TYPE_LEN ''CONN_ACK''), (60, word_bytes 4 rnd)] buffer,
          c\<lparr>ic_rnd := rnd\<rparr>))"

definition Prepare_ALIVE_ACK_8 :: "ia_client \<Rightarrow> bytes \<Rightarrow> nat \<times> bytes \<times> ia_client" where
  "Prepare_ALIVE_ACK_8 c buffer =
     (let rnd = ic_rnd c + 1
      in (sizeof_ALIVE_ACK_8,
          put_fields [(40, word_bytes 4 (of_nat sizeof_ALIVE_ACK_8 :: u32)), (8, strncpy IA_LOGIN_LEN (ic_login c)),
            (44, strncpy IA_MAX_TYPE_LEN ''ALIVE_ACK''), (60, word_bytes 4 rnd)] buffer,
          c\<lparr>ic_rnd := rnd\<rparr>))"

definition Prepare_DISCONN_SYN_8 :: "ia_client \<Rightarrow> bytes \<Rightarrow> nat \<times> bytes \<times> ia_client" where
  "Prepare_DISCONN_SYN_8 c buffer = (sizeof_DISCONN_SYN_8,
     put_fields [(40, word_bytes 4 (of_nat sizeof_DISCONN_SYN_8 :: u32)), (8, strncpy IA_LOGIN_LEN (ic_login c)),
       (44, strncpy IA_MAX_TYPE_LEN ''DISCONN_SYN''), (60, strncpy IA_LOGIN_LEN (ic_login c))] buffer, c)"

definition Prepare_DISCONN_ACK_8 :: "ia_client \<Rightarrow> bytes \<Rightarrow> nat \<times> bytes \<times> ia_client" where
  "Prepare_DISCONN_ACK_8 c buffer = (sizeof_DISCONN_ACK_8,
     put_fields [(40, word_bytes 4 (of_nat sizeof_DISCONN_ACK_8 :: u32)), (60, word_bytes 4 (ic_rnd c + 1)),
       (8, strncpy IA_LOGIN_LEN (ic_login c)), (44, strncpy IA_MAX_TYPE_LEN ''DISCONN_ACK'')] buffer, c)"

definition NetSend :: "client_env \<Rightarrow> packet_type \<Rightarrow> ia_client \<Rightarrow> (int \<times> ia_client) option" where
  "NetSend C n c =
     (let prepared = (case n of
            CONN_SYN_N \<Rightarrow> Some (Prepare_CONN_SYN_8 c (replicate 2048 0))
          | CONN_ACK_N \<Rightarrow> Some (Prepare_CONN_ACK_8 c (replicate 2048 0))
          | ALIVE_ACK_N \<Rightarrow> Some (Prepare_ALIVE_ACK_8 c (replicate 2048 0))
          | DISCONN_SYN_N \<Rightarrow> Some (Prepare_DISCONN_SYN_8 c (replicate 2048 0))
          | DISCONN_ACK_N \<Rightarrow> Some (Prepare_DISCONN_ACK_8 c (replicate 2048 0))
          | _ \<Rightarrow> None)
      in case prepared of
        None \<Rightarrow> Some (- 1, c)
      | Some (msgLen, buffer, c) \<Rightarrow> map_option (\<lambda>c. (0, c)) (client_Send C (FillHdr8 c buffer) msgLen c))"

subsection \<open>Packets from the server\<close>

text \<open>A C string in the buffer: there must be a terminator.\<close>

definition text_at :: "bytes \<Rightarrow> nat \<Rightarrow> string option" where
  "text_at buffer i = (if 0 \<in> set (drop i buffer) then Some (cstring (drop i buffer)) else None)"

text \<open>\<open>recvfrom\<close> gives no datagram or one; \<open>stack\<close> is what the local buffer holds before.\<close>

definition client_Recv :: "bytes option \<Rightarrow> bytes \<Rightarrow> ia_client \<Rightarrow> bytes option option" where
  "client_Recv res stack c = (case res of
     None \<Rightarrow> Some None
   | Some d \<Rightarrow>
       let buffer = put_bytes 0 (take (length stack) d) stack
       in if take 4 (drop (4 + sizeof_HDR_8) buffer) = text_bytes ''ERR'' @ [0] then Some (Some buffer)
          else map_option Some (DecryptString (ic_ctxPass c) (length stack) buffer))"

definition client_phase :: "client_env \<Rightarrow> int \<Rightarrow> ia_client \<Rightarrow> ia_client" where
  "client_phase C n c = c\<lparr>ic_phase := n, ic_phaseTime := GetTickCount C\<rparr>"

definition Process_CONN_SYN_ACK_8 :: "client_env \<Rightarrow> bytes \<Rightarrow> ia_client \<Rightarrow> (packet_type \<times> ia_client) option" where
  "Process_CONN_SYN_ACK_8 C buffer c = do {
     let c = c\<lparr>ic_rnd := le32 buffer 28, ic_userTimeout := sint (le32 buffer 32), ic_aliveTimeout := sint (le32 buffer 36)\<rparr>;
     _ \<leftarrow> text_at buffer (40 + 16 * (DIR_NUM - 1));
     let dirNames = map (\<lambda>i. cstring (drop (40 + 16 * i) buffer)) [0..<DIR_NUM];
     let c = call_back (ic_dirNameCb c) (DirNames dirNames) c;
     (_, c) \<leftarrow> NetSend C CONN_ACK_N c;
     Some (CONN_SYN_ACK_N, client_phase C 3 c) }"

definition Process_ALIVE_SYN_8 :: "client_env \<Rightarrow> bytes \<Rightarrow> ia_client \<Rightarrow> (packet_type \<times> ia_client) option" where
  "Process_ALIVE_SYN_8 C buffer c = do {
     let c = c\<lparr>ic_rnd := le32 buffer 28, ic_stat := get_bytes 32 sizeof_LOADSTAT buffer\<rparr>;
     let c = call_back (ic_statCb c) (StatChanged (ic_stat c)) c;
     let c = call_back (ic_statusCb c) (StatusChanged 1) c;
     (_, c) \<leftarrow> NetSend C ALIVE_ACK_N c;
     Some (ALIVE_SYN_N, c\<lparr>ic_phaseTime := GetTickCount C\<rparr>) }"

definition Process_DISCONN_SYN_ACK_8 :: "client_env \<Rightarrow> bytes \<Rightarrow> ia_client \<Rightarrow> (packet_type \<times> ia_client) option" where
  "Process_DISCONN_SYN_ACK_8 C buffer c = do {
     (_, c) \<leftarrow> NetSend C DISCONN_ACK_N (c\<lparr>ic_rnd := le32 buffer 28\<rparr>);
     Some (DISCONN_SYN_ACK_N, client_phase C 5 c) }"

definition Process_FIN_8 :: "client_env \<Rightarrow> ia_client \<Rightarrow> packet_type \<times> ia_client" where
  "Process_FIN_8 C c = (FIN_N, call_back (ic_statusCb c) (StatusChanged 0) (client_phase C 1 c))"

definition Process_INFO_8 :: "bytes \<Rightarrow> ia_client \<Rightarrow> (packet_type \<times> ia_client) option" where
  "Process_INFO_8 buffer c =
     (if ic_infoCb c
      then map_option (\<lambda>t. (INFO_8_N, call_back True (InfoText t (sint (buffer ! 28)) (sint (buffer ! 36)) (sint (le32 buffer 32))) c))
        (text_at buffer 37)
      else Some (INFO_8_N, c))"

definition Process_ERROR :: "client_env \<Rightarrow> bytes \<Rightarrow> ia_client \<Rightarrow> (packet_type \<times> ia_client) option" where
  "Process_ERROR C buffer c = do {
     t \<leftarrow> text_at (take sizeof_ERR_8 buffer) 28;
     let c = c\<lparr>ic_messageText := KOIToWin t\<rparr>;
     let c = call_back (ic_errorCb c) (ErrorText (ic_messageText c) IA_SERVER_ERROR) c;
     Some (ERROR_N, (client_phase C 1 c)\<lparr>ic_codeError := IA_SERVER_ERROR\<rparr>) }"

definition NetRecv :: "client_env \<Rightarrow> bytes option \<Rightarrow> bytes \<Rightarrow> ia_client \<Rightarrow> (packet_type option \<times> ia_client) option" where
  "NetRecv C res stack c = do {
     r \<leftarrow> client_Recv res stack c;
     (case r of
        None \<Rightarrow> Some (None, c)
      | Some buffer \<Rightarrow> do {
          name \<leftarrow> text_at buffer 12;
          let found = map_option (\<lambda>(p, c). (Some p, c));
          (case client_packetTypes name of
             Some CONN_SYN_ACK_N \<Rightarrow> found (Process_CONN_SYN_ACK_8 C buffer c)
           | Some ALIVE_SYN_N \<Rightarrow> found (Process_ALIVE_SYN_8 C buffer c)
           | Some DISCONN_SYN_ACK_N \<Rightarrow> found (Process_DISCONN_SYN_ACK_8 C buffer c)
           | Some FIN_N \<Rightarrow> found (Some (Process_FIN_8 C c))
           | Some INFO_8_N \<Rightarrow> found (Process_INFO_8 buffer c)
           | Some ERROR_N \<Rightarrow> found (Process_ERROR C buffer c)
           | _ \<Rightarrow> Some (None, c)) }) }"

subsection \<open>The loop\<close>

definition waited :: "client_env \<Rightarrow> int \<Rightarrow> ia_client \<Rightarrow> bool" where
  "waited C limit c \<longleftrightarrow> i32 (ce_tick C - ic_phaseTime c) sdiv 1000 > limit"

definition give_up :: "client_env \<Rightarrow> ia_client \<Rightarrow> ia_client" where
  "give_up C c = call_back (ic_statusCb c) (StatusChanged 0) (client_phase C 1 c)"

text \<open>Send a request and go on to phase \<open>n\<close> when the application asked for it.\<close>

definition on_action :: "client_env \<Rightarrow> int \<Rightarrow> packet_type \<Rightarrow> int \<Rightarrow> ia_client \<Rightarrow> ia_client option" where
  "on_action C act p n c =
     (if ic_action c = act
      then map_option (\<lambda>(_, c). client_phase C n c) (NetSend C p (c\<lparr>ic_action := IA_NONE\<rparr>))
      else Some c)"

definition Run_phase :: "client_env \<Rightarrow> ia_client \<Rightarrow> ia_client option" where
  "Run_phase C c =
     (if ic_phase c = 1 then
        map_option (\<lambda>c. if ic_reconnect c \<noteq> 0 \<and> \<not> ic_firstConnect c then c\<lparr>ic_action := IA_CONNECT\<rparr> else c)
          (on_action C IA_CONNECT CONN_SYN_N 2 c)
      else if ic_phase c = 2 then
        on_action C IA_DISCONNECT DISCONN_SYN_N 4 (if waited C (ic_aliveTimeout c) c then give_up C c else c)
      else if ic_phase c = 3 then
        on_action C IA_DISCONNECT DISCONN_SYN_N 4
          (if waited C (ic_userTimeout c) c then (give_up C c)\<lparr>ic_firstConnect := False\<rparr> else c)
      else if ic_phase c = 4 \<or> ic_phase c = 5 then
        on_action C IA_CONNECT CONN_SYN_N 2 (if waited C (ic_aliveTimeout c) c then give_up C c else c)
      else Some c)"

definition client_Run_turn :: "client_env \<Rightarrow> bytes option \<Rightarrow> bytes \<Rightarrow> ia_client \<Rightarrow> ia_client option" where
  "client_Run_turn C res stack c = do { (_, c) \<leftarrow> NetRecv C res stack c; Run_phase C c }"

subsection \<open>The interface of the application\<close>

definition GetStat :: "ia_client \<Rightarrow> bytes" where
  "GetStat c = ic_stat c"

definition SetServer :: "client_env \<Rightarrow> string \<Rightarrow> u16 \<Rightarrow> ia_client \<Rightarrow> ia_client" where
  "SetServer C sn p c = client_PrepareNet C (c\<lparr>ic_serverName := sn, ic_port := p\<rparr>)"

definition client_SetLogin :: "string \<Rightarrow> ia_client \<Rightarrow> ia_client" where
  "client_SetLogin l c = c\<lparr>ic_login := l\<rparr>"

definition SetPassword :: "string \<Rightarrow> ia_client \<Rightarrow> ia_client" where
  "SetPassword p c = c\<lparr>ic_password := p, ic_ctxPass := Blowfish_Init (strncpy PASSWD_LEN p)\<rparr>"

definition SetEnabledDirs :: "bool list \<Rightarrow> ia_client \<Rightarrow> ia_client" where
  "SetEnabledDirs sel c = c\<lparr>ic_selectedDirs := take DIR_NUM sel\<rparr>"

definition client_Connect :: "ia_client \<Rightarrow> int \<times> ia_client" where
  "client_Connect c = (0, c\<lparr>ic_action := IA_CONNECT\<rparr>)"

definition client_Disconnect :: "ia_client \<Rightarrow> int \<times> ia_client" where
  "client_Disconnect c = (0, c\<lparr>ic_firstConnect := True, ic_action := IA_DISCONNECT\<rparr>)"

definition client_GetStrError :: "ia_client \<Rightarrow> int \<times> string \<times> ia_client" where
  "client_GetStrError c = (ic_codeError c, ic_strError c, c\<lparr>ic_strError := '''', ic_codeError := 0\<rparr>)"

definition GetAuthorized :: "ia_client \<Rightarrow> bool" where
  "GetAuthorized c \<longleftrightarrow> ic_phase c = 3 \<or> ic_phase c = 4"

end
