(* ===== verification/Stg_IAWire.thy ===== *)
theory Stg_IAWire
  imports Stg_IALife Stg_IAClient
begin

text \<open>
  Client and server together: what the client puts on the wire, how the server reads it, and that a client with the right
  password gets the user authorized.
\<close>

subsection \<open>The wire\<close>

lemma strncpy_pad:
  assumes "length p \<le> k" and "k \<le> n"
  shows "put_bytes 0 (strncpy k p) (replicate n 0) = strncpy n p"
proof -
  let ?w = "map byte_of (takeWhile (\<lambda>c. byte_of c \<noteq> 0) p)"
  have "length ?w \<le> length p" by (simp add: length_takeWhile_le)
  with assms show ?thesis by (auto simp: put_bytes_def strncpy_def min_def replicate_add [symmetric])
qed

definition header_key :: blowfish_ctx where
  "header_key = InitContext ''pr7Hhen'' 7"

lemma header_key_client: "Blowfish_Init (put_bytes 0 (strncpy 8 ''pr7Hhen'') (replicate PASSWD_LEN 0)) = header_key"
  by (simp add: header_key_def InitContext_def strncpy_pad PASSWD_LEN_def)

text \<open>A packet of the client: the header, the login under the common key, the rest under the password.\<close>

definition wire :: "string \<Rightarrow> blowfish_ctx \<Rightarrow> bytes \<Rightarrow> bytes" where
  "wire login key body = [0x30, 0x30, 0x31, 0x30, 0x30, 0, 0, 8]
     @ ecb (EncryptBlock header_key) (strncpy 32 login) @ ecb (EncryptBlock key) body"

lemma length_wire: "8 dvd length body \<Longrightarrow> length (wire login key body) = 40 + length body"
  by (simp add: wire_def length_ecb)

text \<open>The two parts of a prepared packet that are encrypted in place.\<close>

lemma wire_layout:
  assumes "length l = 32" and "40 + length r \<le> length b"
  shows "drop 40 (put_bytes 8 l b) = drop 40 b" "take (40 + length r) (put_bytes 40 r (put_bytes 8 l b)) = take 8 b @ l @ r"
  using assms by (simp_all add: put_bytes_def)

lemma client_Send_wire:
  assumes "ic_isNetPrepared c" and "ic_ctxHdr c = header_key" and "length buffer = 2048" and "8 dvd n" and "n \<le> 2008"
    and "take 8 buffer = [0x30, 0x30, 0x31, 0x30, 0x30, 0, 0, 8]" and "take 32 (drop 8 buffer) = strncpy 32 (ic_login c)"
  shows "client_Send C buffer (40 + n) c =
    Some (c\<lparr>ic_out := ic_out c @ [(ic_servAddr c, wire (ic_login c) (ic_ctxPass c) (take n (drop 40 buffer)))]\<rparr>)"
proof -
  let ?l = "ecb (EncryptBlock header_key) (strncpy 32 (ic_login c))"
  have l: "EncryptString header_key 32 (drop 8 buffer) = Some ?l"
    using assms by (simp add: EncryptString_ecb pad8_dvd)
  have ll: "length ?l = 32" by (simp add: length_ecb)
  let ?r = "ecb (EncryptBlock (ic_ctxPass c)) (take n (drop 40 buffer))"
  have lr: "length ?r = n" using assms by (simp add: length_ecb min_def)
  note w = wire_layout [OF ll, of ?r buffer, unfolded lr]
  have r: "EncryptString (ic_ctxPass c) n (drop 40 (put_bytes 8 ?l buffer)) = Some ?r"
    using assms w(1) by (simp add: EncryptString_ecb pad8_dvd min_def)
  have "take (40 + n) (put_bytes 40 ?r (put_bytes 8 ?l buffer)) = take 8 buffer @ ?l @ ?r"
    using w(2) assms(3,5) by simp
  then show ?thesis
    using assms l r by (simp add: client_Send_def Let_def sizeofs IA_LOGIN_LEN_def wire_def)
qed

definition conn_syn_body :: "string \<Rightarrow> bool list \<Rightarrow> bytes" where
  "conn_syn_body login sel = word_bytes 4 (96 :: u32) @ strncpy 16 ''CONN_SYN'' @ strncpy 32 login @ word_bytes 4 (dirs_mask sel)"

definition ack_body :: "string \<Rightarrow> u32 \<Rightarrow> bytes" where
  "ack_body name rnd = word_bytes 4 (64 :: u32) @ strncpy 16 name @ word_bytes 4 rnd"

lemma length_bodies [simp]: "length (conn_syn_body login sel) = 56" "length (ack_body name rnd) = 24"
  by (simp_all add: conn_syn_body_def ack_body_def)

lemma id_bytes: "strncpy 6 IA_ID = [0x30, 0x30, 0x31, 0x30, 0x30, 0]"
  by code_simp

lemma FillHdr8_parts:
  assumes "length b = 2048"
  shows "length (FillHdr8 c b) = 2048" "take 8 (FillHdr8 c b) = [0x30, 0x30, 0x31, 0x30, 0x30, 0, 0, 8]"
    "take 32 (drop 8 (FillHdr8 c b)) = strncpy 32 (ic_login c)" "drop 40 (FillHdr8 c b) = drop 40 b"
proof -
  have *: "FillHdr8 c b = [0x30, 0x30, 0x31, 0x30, 0x30, 0, 0, 8] @ strncpy 32 (ic_login c) @ drop 40 b"
    using assms by (simp add: FillHdr8_def put_fields_def put_bytes_def sizeofs IA_LOGIN_LEN_def id_bytes)
  show "length (FillHdr8 c b) = 2048" "take 8 (FillHdr8 c b) = [0x30, 0x30, 0x31, 0x30, 0x30, 0, 0, 8]"
    "take 32 (drop 8 (FillHdr8 c b)) = strncpy 32 (ic_login c)" "drop 40 (FillHdr8 c b) = drop 40 b"
    unfolding * using assms by simp_all
qed

lemma prepared_body:
  assumes "length a = 4" and "length t = 16"
  shows "length l = 32 \<Longrightarrow> length d = 4 \<Longrightarrow>
      take 56 (drop 40 (put_fields [(40, a), (44, t), (60, l), (92, d)] (replicate 2048 0))) = a @ t @ l @ d"
    "length l = 32 \<Longrightarrow> length d = 4 \<Longrightarrow>
      take 24 (drop 40 (put_fields [(40, a), (8, l), (44, t), (60, d)] (replicate 2048 0))) = a @ t @ d"
    "length l = 32 \<Longrightarrow> length d = 4 \<Longrightarrow>
      take 24 (drop 40 (put_fields [(40, a), (60, d), (8, l), (44, t)] (replicate 2048 0))) = a @ t @ d"
  using assms by (simp_all add: put_fields_def put_bytes_def)

text \<open>What the client sends.\<close>

definition sends :: "ia_client \<Rightarrow> bytes \<Rightarrow> ia_client" where
  "sends c body = c\<lparr>ic_out := ic_out c @ [(ic_servAddr c, wire (ic_login c) (ic_ctxPass c) body)]\<rparr>"

lemma length_put_fields_2048: "list_all (\<lambda>(off, bs). off + length bs \<le> 2048) fs \<Longrightarrow> length (put_fields fs (replicate 2048 0)) = 2048"
  using length_put_fields [of "replicate 2048 0" fs] by simp

lemma NetSend_wire:
  assumes "ic_isNetPrepared c" and "ic_ctxHdr c = header_key"
  shows "NetSend C CONN_SYN_N c = Some (0, sends c (conn_syn_body (ic_login c) (ic_selectedDirs c)))"
    "NetSend C CONN_ACK_N c = Some (0, sends (c\<lparr>ic_rnd := ic_rnd c + 1\<rparr>) (ack_body ''CONN_ACK'' (ic_rnd c + 1)))"
    "NetSend C ALIVE_ACK_N c = Some (0, sends (c\<lparr>ic_rnd := ic_rnd c + 1\<rparr>) (ack_body ''ALIVE_ACK'' (ic_rnd c + 1)))"
    "NetSend C DISCONN_ACK_N c = Some (0, sends c (ack_body ''DISCONN_ACK'' (ic_rnd c + 1)))"
proof -
  note nums = sizeofs IA_MAX_TYPE_LEN_def IA_LOGIN_LEN_def
  have send: "client_Send C (FillHdr8 c' b) (40 + n) c' = Some (sends c' (take n (drop 40 b)))"
    if "length b = 2048" "8 dvd n" "n \<le> 2008" "ic_isNetPrepared c'" "ic_ctxHdr c' = header_key" for c' b n
    using client_Send_wire [of c' "FillHdr8 c' b" n C] FillHdr8_parts [OF that(1), of c'] that by (simp add: sends_def)
  show "NetSend C CONN_SYN_N c = Some (0, sends c (conn_syn_body (ic_login c) (ic_selectedDirs c)))"
    using send [of _ 56 c] assms
    by (simp add: NetSend_def Prepare_CONN_SYN_8_def nums Let_def length_put_fields_2048 prepared_body conn_syn_body_def)
  show "NetSend C CONN_ACK_N c = Some (0, sends (c\<lparr>ic_rnd := ic_rnd c + 1\<rparr>) (ack_body ''CONN_ACK'' (ic_rnd c + 1)))"
    "NetSend C ALIVE_ACK_N c = Some (0, sends (c\<lparr>ic_rnd := ic_rnd c + 1\<rparr>) (ack_body ''ALIVE_ACK'' (ic_rnd c + 1)))"
    using send [of _ 24 "c\<lparr>ic_rnd := ic_rnd c + 1\<rparr>"] assms
    by (simp_all add: NetSend_def Prepare_CONN_ACK_8_def Prepare_ALIVE_ACK_8_def nums Let_def length_put_fields_2048 prepared_body ack_body_def)
  show "NetSend C DISCONN_ACK_N c = Some (0, sends c (ack_body ''DISCONN_ACK'' (ic_rnd c + 1)))"
    using send [of _ 24 c] assms
    by (simp add: NetSend_def Prepare_DISCONN_ACK_8_def nums Let_def length_put_fields_2048 prepared_body ack_body_def)
qed

subsection \<open>The server reads\<close>

definition c_text :: "string \<Rightarrow> bool" where
  "c_text s \<longleftrightarrow> 0 \<notin> byte_of ` set s"

lemma cstring_strncpy:
  assumes "c_text s" and "length s < n"
  shows "cstring (strncpy n s) = s" "0 \<in> set (strncpy n s)"
proof -
  have t: "takeWhile (\<lambda>c. byte_of c \<noteq> 0) s = s" using assms(1) by (auto simp: c_text_def image_iff takeWhile_eq_all_conv)
  have "strncpy n s = map byte_of s @ replicate (n - length s) 0" using assms(2) by (simp add: strncpy_def t)
  moreover have "takeWhile (\<lambda>b. b \<noteq> 0) (map byte_of s @ replicate (n - length s) 0) = map byte_of s"
    using assms by (subst takeWhile_append2) (auto simp: c_text_def image_iff)
  ultimately show "cstring (strncpy n s) = s" "0 \<in> set (strncpy n s)"
    using assms(2) by (simp_all add: cstring_def comp_def)
qed

text \<open>The server's buffer after a packet of the client has come in and has been deciphered.\<close>

definition arrived :: "bytes \<Rightarrow> bytes \<Rightarrow> bytes" where
  "arrived d buffer = put_bytes 0 d buffer"

definition opened :: "bytes \<Rightarrow> bytes \<Rightarrow> bytes \<Rightarrow> bytes" where
  "opened d body buffer = put_bytes 40 body (arrived d buffer)"

lemma arrived_parts:
  assumes "8 dvd length body" and "40 + length body \<le> length buffer"
  shows "take 8 (arrived (wire login key body) buffer) = [0x30, 0x30, 0x31, 0x30, 0x30, 0, 0, 8]"
    "take 32 (drop 8 (arrived (wire login key body) buffer)) = ecb (EncryptBlock header_key) (strncpy 32 login)"
    "take (length body) (drop 40 (arrived (wire login key body) buffer)) = ecb (EncryptBlock key) body"
    "length (arrived (wire login key body) buffer) = length buffer"
proof -
  have l: "length (ecb (EncryptBlock header_key) (strncpy 32 login)) = 32" "length (ecb (EncryptBlock key) body) = length body"
    using assms(1) by (simp_all add: length_ecb)
  show "take 8 (arrived (wire login key body) buffer) = [0x30, 0x30, 0x31, 0x30, 0x30, 0, 0, 8]"
    "take 32 (drop 8 (arrived (wire login key body) buffer)) = ecb (EncryptBlock header_key) (strncpy 32 login)"
    "take (length body) (drop 40 (arrived (wire login key body) buffer)) = ecb (EncryptBlock key) body"
    "length (arrived (wire login key body) buffer) = length buffer"
    using assms l by (simp_all add: arrived_def wire_def put_bytes_def)
qed

lemma CheckHeader_wire:
  assumes "8 dvd length body" and "40 + length body \<le> length buffer"
  shows "CheckHeader (arrived (wire login key body) buffer) sip s = (Some 8, s)"
proof -
  note p = arrived_parts [OF assms, of login key]
  let ?b = "arrived (wire login key body) buffer"
  have id: "text_bytes IA_ID = [0x30, 0x30, 0x31, 0x30, 0x30]" by code_simp
  have "take 5 ?b = take 5 (take 8 ?b)" "?b ! 6 = take 8 ?b ! 6" "?b ! 7 = take 8 ?b ! 7" by simp_all
  then show ?thesis unfolding p(1) by (simp add: CheckHeader_def Let_def id)
qed

lemma Decrypt_wire:
  assumes "8 dvd length body" and "40 + length body \<le> length buffer"
  shows "DecryptString header_key 32 (drop 8 (arrived (wire login key body) buffer)) = Some (strncpy 32 login)"
    "DecryptString key (length body) (drop 40 (arrived (wire login key body) buffer)) = Some body"
proof -
  note p = arrived_parts [OF assms, of login key]
  show "DecryptString header_key 32 (drop 8 (arrived (wire login key body) buffer)) = Some (strncpy 32 login)"
    using p assms by (simp add: DecryptString_ecb up8_dvd ecb_Decrypt_Encrypt)
  show "DecryptString key (length body) (drop 40 (arrived (wire login key body) buffer)) = Some body"
    using p assms by (simp add: DecryptString_ecb up8_dvd ecb_Decrypt_Encrypt)
qed

text \<open>The conditions under which the server looks at a packet at all.\<close>

definition may_connect :: "ia_env \<Rightarrow> string \<Rightarrow> u32 \<Rightarrow> int \<Rightarrow> user \<Rightarrow> users \<Rightarrow> bool" where
  "may_connect A login sip i u us \<longleftrightarrow> c_text login \<and> length login < 32 \<and> \<not> us_locked us \<and> us_loginIndex us login = Some i
     \<and> user_at i us = Some u \<and> \<not> is_disabled u \<and> \<not> is_passive u \<and> UserIPs_find (uc_ips (u_conf u)) sip"

lemma RecvData_wire:
  assumes body: "8 dvd length body" "length body \<le> 216" "256 \<le> length buffer" and s: "ia_ctxS s = header_key"
    and m: "may_connect A login sip i u us"
  shows "RecvData A (Datagram (wire login key body) sip sport) buffer (s, us) =
    PacketProcessor A (arrived (wire login key body) buffer) (of_nat (40 + length body)) sip sport 8 u (s, us)"
proof -
  let ?d = "wire login key body"
  have l: "40 + length body \<le> length buffer" "length ?d = 40 + length body" using body by (simp_all add: length_wire)
  then have t: "take (length buffer) ?d = ?d" "?d \<noteq> []" by (auto simp: wire_def)
  have f: "Users_FindByName (ie_env A) login us = Some ((0, Some i), us)"
    using m by (simp add: may_connect_def Users_FindByName_def FindByNameNonLock_def users_locked_def)
  have c: "cstring (strncpy 32 login) = login" "0 \<in> set (strncpy 32 login)"
    using m cstring_strncpy [of login 32] by (simp_all add: may_connect_def)
  have "process_datagram A (arrived ?d buffer) (length ?d) sip sport 8 (s, us) =
      PacketProcessor A (arrived ?d buffer) (of_nat (40 + length body)) sip sport 8 u (s, us)"
    using Decrypt_wire(1) [OF body(1) l(1), of login key] f c m
    by (simp add: process_datagram_def s PASSWD_LEN_def l(2) may_connect_def del: of_nat_add)
  then show ?thesis
    using t l CheckHeader_wire [OF body(1) l(1), of login key sip s] body
    by (simp add: RecvData_def arrived_def [symmetric])
qed

lemma packet_name:
  assumes "length a = 4" and "c_text name" and "length name < 15" and "body = a @ strncpy 16 name @ r"
    and "40 + length body \<le> length b"
  shows "cstring (take 15 (drop 44 (put_bytes 40 body b))) = name"
proof -
  have "drop 44 (put_bytes 40 body b) = strncpy 16 name @ r @ drop (40 + length body) b"
    using assms by (simp add: put_bytes_def)
  then have "take 15 (drop 44 (put_bytes 40 body b)) = strncpy 15 name" by (simp add: strncpy_def)
  then show ?thesis using assms(2,3) cstring_strncpy(1) [of name 15] by simp
qed

text \<open>A packet that can be read gets to its handler.\<close>

lemma PacketProcessor_wire:
  assumes body: "8 dvd length body" "length body \<le> 216" "256 \<le> length buffer"
    and name: "body = a @ strncpy 16 name @ r" "length a = 4" "c_text name" "length name < 15" "packetTypes name = Some pt"
    and entry: "client_entry A sip sport v u (s, us) = Some (Inr (s1, us))"
    and e: "ip_find sip (refresh_password sip u s1) = Some e" "iu_ctx e = key"
    and me: "on_user (ie_env A) (\<lambda>E. IsAuthorizedBy E (ie_self A)) (u_id u) us = Some (byMe, us1)" "byMe \<Longrightarrow> u_currIP u = sip"
  shows "PacketProcessor A (arrived (wire login key body) buffer) (of_nat (40 + length body)) sip sport v u (s, us) =
    map_option (\<lambda>(rc, st). (rc, opened (wire login key body) body buffer, st))
      (dispatch A pt v (opened (wire login key body) body buffer) sip (refresh_password sip u s1, us1))"
proof -
  have l: "40 + length body \<le> length buffer" using body by simp
  have len: "unat (of_nat (40 + length body) - 40 :: u64) = length body"
    using body(2) by (simp add: unat_of_nat take_bit_nat_eq_self)
  note d = Decrypt_wire(2) [OF body(1) l, of key login]
  have n: "cstring (take 15 (drop 44 (put_bytes 40 body (arrived (wire login key body) buffer)))) = name"
    using packet_name [OF name(2,3,4,1)] l arrived_parts(4) [OF body(1) l] by simp
  show ?thesis
    using entry e me len d n name(5)
    by (auto simp: PacketProcessor_def ia_offset_def Let_def IA_MAX_TYPE_LEN_def opened_def)
qed

subsection \<open>Calls of the registry that return\<close>

text \<open>A user who can be authorized: nobody has authorized it yet, and no message waits for it.\<close>

definition fresh_user :: "user \<Rightarrow> bool" where
  "fresh_user u \<longleftrightarrow> u_authorizedBy u = [] \<and> u_messages u = [] \<and> \<not> u_locked u"

lemma set_currIP_more [simp]:
  "u_tariff (set_currIP E ip u) = u_tariff u" "u_locked (set_currIP E ip u) = u_locked u" "u_conf (set_currIP E ip u) = u_conf u"
  by (simp_all add: set_currIP_def ModifyTime_def emit_def)

lemma Authorize_fresh:
  assumes "fresh_user u" and "ip \<noteq> 0" and "UserIPs_find (uc_ips (u_conf u)) ip" and "e_ipIndex E ip = None" and "\<not> e_relock_blocks E"
  shows "\<exists>v. Authorize E ip dirs a u = Some (0, v) \<and> u_currIP v = ip \<and> u_authorizedBy v = [a] \<and> u_tariff v = u_tariff u
    \<and> u_id v = u_id u \<and> u_login v = u_login u \<and> u_conf v = u_conf u"
  using assms
  by (simp add: Authorize_def with_lock_def Authorize_body_def users_lock_def Authorize_finish_def ScanMessage_def ScanMessage_loop.simps
      Let_def insert_auth_def insort_insert_key_def fresh_user_def)

lemma Users_Authorize_fresh:
  assumes "\<not> us_locked us" and "us_loginIndex us login = Some i" and "us_ipIndex us ip = None" and "user_at i us = Some u"
    and "fresh_user u" and "ip \<noteq> 0" and "UserIPs_find (uc_ips (u_conf u)) ip" and "\<not> e_relock_blocks E"
  shows "\<exists>us' v. Users_Authorize E login ip dirs a us = Some (True, us') \<and> user_at i us' = Some v \<and> u_currIP v = ip
    \<and> u_authorizedBy v = [a] \<and> u_tariff v = u_tariff u \<and> u_conf v = u_conf u \<and> us_loginIndex us' = us_loginIndex us \<and> \<not> us_locked us'"
proof -
  let ?us = "us\<lparr>us_locked := True\<rparr>"
  have "fresh_user (u\<lparr>trace := trace us\<rparr>)" using assms(5) by (simp add: fresh_user_def)
  then obtain v where v: "Authorize (env_in E ?us) ip dirs a (u\<lparr>trace := trace us\<rparr>) = Some (0, v)" "u_currIP v = ip"
     "u_authorizedBy v = [a]" "u_tariff v = u_tariff u" "u_id v = u_id u" "u_conf v = u_conf u"
    using Authorize_fresh [of "u\<lparr>trace := trace us\<rparr>" ip "env_in E ?us" dirs a] assms by (auto simp: env_in_def)
  define t where "t = ?us\<lparr>us_users := update_first (\<lambda>v. u_id v = i) (\<lambda>_. v\<lparr>trace := []\<rparr>) (us_users ?us), trace := trace v\<rparr>"
  have o: "on_user E (\<lambda>E. Authorize E ip dirs a) i ?us = Some (0, t)" using assms(4) v(1) by (simp add: on_user_def t_def)
  have "u_id (v\<lparr>trace := []\<rparr>) = i" using user_at_SomeD [OF assms(4)] v(5) by simp
  then have ut: "user_at i t = Some (v\<lparr>trace := []\<rparr>)"
    using user_at_update [of i ?us u "v\<lparr>trace := []\<rparr>" i] assms(4) by (simp add: t_def)
  have "us_ipIndex t ip = None" "us_locked t" using assms(3) by (simp_all add: t_def)
  then have "AddToIPIdx E i t = Some ((), t\<lparr>us_ipIndex := (us_ipIndex t)(ip \<mapsto> i)\<rparr>)"
    using ut v(2) assms(6,8) by (simp add: AddToIPIdx_def users_locked_def)
  then have "Users_Authorize_body E login ip dirs a ?us = Some (True, t\<lparr>us_ipIndex := (us_ipIndex t)(ip \<mapsto> i)\<rparr>)"
    using assms(2,3) o by (simp add: Users_Authorize_body_def FindByNameNonLock_def)
  moreover have "us_loginIndex t = us_loginIndex us" by (simp add: t_def)
  ultimately show ?thesis using assms(1) ut v(2-4,6) by (simp add: Users_Authorize_def users_locked_def)
qed

lemma IsAuthorizedBy_fresh:
  assumes "user_at i us = Some u" and "\<not> u_locked u"
  shows "\<exists>us'. on_user E (\<lambda>E. IsAuthorizedBy E a) i us = Some (a \<in> set (u_authorizedBy u), us') \<and> upd_user i (u\<lparr>trace := []\<rparr>) us us'"
proof -
  have f: "IsAuthorizedBy (env_in E us) a (u\<lparr>trace := trace us\<rparr>) = Some (a \<in> set (u_authorizedBy u), u\<lparr>trace := trace us\<rparr>)"
    using assms(2) by (simp add: IsAuthorizedBy_def with_lock_def)
  then obtain us' where o: "on_user E (\<lambda>E. IsAuthorizedBy E a) i us = Some (a \<in> set (u_authorizedBy u), us')"
    using assms(1) by (simp add: on_user_def)
  have "same_user v w" if "IsAuthorizedBy (env_in E us) a v = Some (x, w)" for v w x
    using that by (auto simp: IsAuthorizedBy_def same_user_def elim!: with_lock_SomeE)
  then obtain u1 w where "user_at i us = Some u1" "IsAuthorizedBy (env_in E us) a (u1\<lparr>trace := trace us\<rparr>) = Some (a \<in> set (u_authorizedBy u), w)"
    "upd_user i (w\<lparr>trace := []\<rparr>) us us'" using on_user_upd [OF o] by blast
  then show ?thesis using assms(1) f o by auto
qed

subsection \<open>The first half of the handshake\<close>

lemma opened_field:
  assumes "off + 4 \<le> length body" and "40 + length body \<le> length b" and "take 4 (drop off body) = word_bytes 4 w"
  shows "le32 (put_bytes 40 body b) (40 + off) = (w :: u32)"
proof (rule le32_bytes)
  have "drop (40 + off) (put_bytes 40 body b) = drop off body @ drop (40 + length body) b"
    using assms by (simp add: put_bytes_def)
  then show "take 4 (drop (40 + off) (put_bytes 40 body b)) = word_bytes 4 w" using assms by simp
qed (use assms in \<open>simp add: put_bytes_def\<close>)

lemma body_fields:
  "take 4 (drop 52 (conn_syn_body login sel)) = word_bytes 4 (dirs_mask sel)" "take 4 (drop 20 (ack_body name rnd)) = word_bytes 4 rnd"
  by (simp_all add: conn_syn_body_def ack_body_def)

definition newcomer :: "ia_env \<Rightarrow> u32 \<Rightarrow> u16 \<Rightarrow> int \<Rightarrow> user \<Rightarrow> ia \<Rightarrow> ia_user" where
  "newcomer A sip sport v u s = IA_USER A (u_login u) (u_id u) (uc_password (u_conf u)) (ie_random A (ia_draws s)) sport v"

lemma new_client_fields:
  assumes "ia_inv s" and "ip_find sip s = None"
  shows "refresh_password sip u (new_client A sip sport v u s) = new_client A sip sport v u s"
    "ip_find sip (new_client A sip sport v u s) = Some (newcomer A sip sport v u s)"
    "ia_draws (new_client A sip sport v u s) = Suc (ia_draws s)" "ia_connSynAck8 (new_client A sip sport v u s) = ia_connSynAck8 s"
    "ia_settings (new_client A sip sport v u s) = ia_settings s" "ia_sent (new_client A sip sport v u s) = ia_sent s"
proof -
  let ?n = "new_client A sip sport v u s"
  have ips: "ips_ok (ia_ip2user ?n)" using assms by (simp add: new_client_def draw_eq Let_def ipm.insert_ok)
  show f: "ip_find sip ?n = Some (newcomer A sip sport v u s)"
    using assms by (simp add: new_client_def draw_eq Let_def newcomer_def ipm.find_insert)
  have "map_change (<) sip g (ia_ip2user ?n) = ia_ip2user ?n" if "g (newcomer A sip sport v u s) = newcomer A sip sport v u s" for g
    using ipm.change_split [of "ia_ip2user ?n" sip "newcomer A sip sport v u s" g] ips f that by auto
  then show "refresh_password sip u ?n = ?n"
    unfolding refresh_password_def ip_upd_def by (simp add: newcomer_def IA_USER_def)
  show "ia_draws ?n = Suc (ia_draws s)" "ia_connSynAck8 ?n = ia_connSynAck8 s" "ia_settings ?n = ia_settings s" "ia_sent ?n = ia_sent s"
    by (simp_all add: new_client_def draw_eq Let_def)
qed

text \<open>The entry of a client the server has answered.\<close>

definition invited :: "ia_env \<Rightarrow> u16 \<Rightarrow> int \<Rightarrow> user \<Rightarrow> u32 \<Rightarrow> ia_user \<Rightarrow> bool" where
  "invited A sport i u rnd e \<longleftrightarrow> iu_phase e = 2 \<and> iu_rnd e = rnd \<and> iu_user e = i \<and> iu_login e = u_login u \<and> iu_port e = sport
     \<and> iu_password e = uc_password (u_conf u) \<and> iu_ctx e = key_of (uc_password (u_conf u)) \<and> iu_protoVer e = 8"

lemma server_invites:
  assumes i: "ia_sys_inv F (ie_self A) (s, us)" and m: "may_connect A login sip i u us" and fr: "fresh_user u"
    and no: "ip_find sip s = None" "us_ipIndex us sip = None" and b: "256 \<le> length buffer"
    and key: "key = key_of (uc_password (u_conf u))"
  shows "\<exists>rc buffer' s' us' e x. RecvData A (Datagram (wire login key (conn_syn_body login sel)) sip sport) buffer (s, us) = Some (rc, buffer', s', us')
    \<and> length buffer' = length buffer \<and> ip_find sip s' = Some e \<and> invited A sport i u (ie_random A (Suc (ia_draws s))) e
    \<and> ia_enabledDirs s' = dirs_mask sel \<and> ia_inv s' \<and> upd_user i (u\<lparr>trace := []\<rparr>) us us'
    \<and> ia_connSynAck8 x = ia_connSynAck8 s \<and> ia_settings x = ia_settings s \<and> ia_draws x = Suc (ia_draws s) \<and> ia_settings s' = ia_settings s
    \<and> ia_inv x \<and> ia_sent s' = ia_sent s @ [(sip, sport, ecb (EncryptBlock key) (conn_syn_ack8 A x))]"
proof -
  note inv = i [unfolded ia_sys_inv_def prod.case]
  have u: "user_at i us = Some u" "u_id u = i" using m user_at_SomeD by (auto simp: may_connect_def)
  define n where "n = new_client A sip sport 8 u s"
  note nf = new_client_fields [where s = s and sip = sip and A = A and sport = sport and v = 8 and u = u, folded n_def, OF _ no(1)]
  have n: "ia_inv n" using new_client_sys(1) [OF i u(1) no(1), of A sport 8] by (simp add: n_def ia_sys_inv_def)
  have entry: "client_entry A sip sport 8 u (s, us) = Some (Inr (n, us))"
    using no m by (simp add: client_entry_def FindByIPIdx_def users_locked_def n_def may_connect_def)
  obtain us1 where us1: "on_user (ie_env A) (\<lambda>E. IsAuthorizedBy E (ie_self A)) i us = Some (False, us1)" "upd_user i (u\<lparr>trace := []\<rparr>) us us1"
    using IsAuthorizedBy_fresh [OF u(1), of "ie_env A" "ie_self A"] fr by (auto simp: fresh_user_def)
  define x where "x = (ip_upd sip (SetPhase A 2) (n\<lparr>ia_enabledDirs := 0xFFFFFFFF\<rparr>))\<lparr>ia_enabledDirs := dirs_mask sel\<rparr>"
  define bo where "bo = opened (wire login key (conn_syn_body login sel)) (conn_syn_body login sel) buffer"
  have dirs: "le32 bo 92 = dirs_mask sel"
    using opened_field [of 52 "conn_syn_body login sel" "arrived (wire login key (conn_syn_body login sel)) buffer"] b
      arrived_parts(4) [of "conn_syn_body login sel" buffer login key]
    by (simp add: bo_def opened_def body_fields)
  have ips: "ips_ok (ia_ip2user (n\<lparr>ia_enabledDirs := 0xFFFFFFFF\<rparr>))" using n by simp
  have "ia_inv (ip_upd sip (SetPhase A 2) (n\<lparr>ia_enabledDirs := 0xFFFFFFFF\<rparr>))"
    using quietD [OF quiet_fields(5) n] by (intro ia_inv_phase) simp_all
  then have x: "ia_inv x" using quietD [OF quiet_fields(5)] by (simp add: x_def)
  have xe: "ip_find sip x = Some (SetPhase A 2 (newcomer A sip sport 8 u s))" using nf(2) inv ips by (simp add: x_def)
  have p: "Process_CONN_SYN_8 A bo sip n = Some (0, x)"
    using nf(2) inv dirs by (simp add: Process_CONN_SYN_8_def Process_CONN_SYN_6_def x_def newcomer_def IA_USER_def)
  have we: "iu_ctx (SetPhase A 2 (newcomer A sip sport 8 u s)) = key" "iu_port (SetPhase A 2 (newcomer A sip sport 8 u s)) = sport"
    by (simp_all add: SetPhase_def newcomer_def IA_USER_def key key_of_new)
  let ?r = "ecb (EncryptBlock key) (conn_syn_ack8 A x)"
  define s' where "s' = snd (IA_Send A sip sport ?r ((drawn A sip x)\<lparr>ia_connSynAck8 := ?r\<rparr>))"
  obtain rc where sd: "Send_CONN_SYN_ACK_8 A sip x = Some (rc, s')"
    using Send_CONN_SYN_ACK_8_eq [OF x xe, of A] we by (cases "IA_Send A sip sport ?r ((drawn A sip x)\<lparr>ia_connSynAck8 := ?r\<rparr>)") (simp add: Let_def s'_def)
  have d: "dispatch A CONN_SYN_N 8 bo sip (n, us1) = Some (rc, s', us1)"
    using p sd by (simp add: dispatch_def then_reply_def on_ia_def)
  have me: "on_user (ie_env A) (\<lambda>E. IsAuthorizedBy E (ie_self A)) (u_id u) us = Some (False, us1)" using us1(1) u(2) by simp
  have syn: "conn_syn_body login sel = word_bytes 4 (96 :: u32) @ strncpy 16 ''CONN_SYN'' @ strncpy 32 login @ word_bytes 4 (dirs_mask sel)"
    "c_text ''CONN_SYN''" "packetTypes ''CONN_SYN'' = Some CONN_SYN_N"
    by (simp_all add: conn_syn_body_def c_text_def byte_of_def packetTypes_def)
  have pp: "PacketProcessor A (arrived (wire login key (conn_syn_body login sel)) buffer) (of_nat (40 + length (conn_syn_body login sel))) sip sport 8 u (s, us)
      = Some (rc, bo, s', us1)"
    using d nf inv us1(1) u(2)
    by (subst PacketProcessor_wire [where a = "word_bytes 4 (96 :: u32)" and name = "''CONN_SYN''" and r = "strncpy 32 login @ word_bytes 4 (dirs_mask sel)"
          and pt = CONN_SYN_N and e = "newcomer A sip sport 8 u s", OF _ _ b _ _ _ _ _ entry _ _ me])
      (simp_all add: syn bo_def key newcomer_def IA_USER_def key_of_new)
  have e: "ip_find sip s' = Some ((SetPhase A 2 (newcomer A sip sport 8 u s))\<lparr>iu_rnd := ie_random A (ia_draws x)\<rparr>)"
    using xe x by (simp add: s'_def)
  have "invited A sport i u (ie_random A (Suc (ia_draws s))) ((SetPhase A 2 (newcomer A sip sport 8 u s))\<lparr>iu_rnd := ie_random A (ia_draws x)\<rparr>)"
    using nf(3) inv u(2) by (simp add: invited_def SetPhase_def newcomer_def IA_USER_def key_of_new x_def ip_upd_def)
  moreover have "ia_inv s'" using Send_keeps(2) [OF x, of A sip] sd by (simp add: keeps_def)
  moreover have "length bo = length buffer"
    using arrived_parts(4) [of "conn_syn_body login sel" buffer login key] b by (simp add: bo_def opened_def)
  moreover have "RecvData A (Datagram (wire login key (conn_syn_body login sel)) sip sport) buffer (s, us) = Some (rc, bo, s', us1)"
    using RecvData_wire [OF _ _ b _ m, of "conn_syn_body login sel" s key sport] pp inv by (simp add: ia_inv_def header_key_def)
  moreover have "ia_connSynAck8 x = ia_connSynAck8 s" "ia_settings x = ia_settings s" "ia_draws x = Suc (ia_draws s)" "ia_enabledDirs s' = dirs_mask sel"
     "ia_settings s' = ia_settings s" "ia_sent s' = ia_sent s @ [(sip, sport, ?r)]"
    using nf inv by (simp_all add: x_def ip_upd_def s'_def IA_Send_def drawn_def)
  ultimately show ?thesis using e us1(2) x by blast
qed

subsection \<open>The reply\<close>

lemma put_fields_append: "put_fields (fs @ [(off, bs)]) mem = put_bytes off bs (put_fields fs mem)"
  by (simp add: put_fields_def)

lemma put_fields_Nil [simp]: "put_fields [] mem = mem"
  by (simp add: put_fields_def)

lemma put_fields_Cons: "put_fields ((off, bs) # fs) mem = put_fields fs (put_bytes off bs mem)"
  by (simp add: put_fields_def)

lemma get_put_fields_other:
  "list_all (\<lambda>(off, bs). off + length bs \<le> length mem \<and> (off + length bs \<le> i \<or> i + n \<le> off)) fs
    \<Longrightarrow> get_bytes i n (put_fields fs mem) = get_bytes i n mem"
proof (induction fs arbitrary: mem)
  case (Cons f fs)
  obtain off bs where f: "f = (off, bs)" by force
  have "get_bytes i n (put_fields (f # fs) mem) = get_bytes i n (put_bytes off bs mem)"
    using Cons by (simp add: f put_fields_Cons)
  also have "\<dots> = get_bytes i n mem" using Cons.prems get_put_before [of i n off mem bs] get_put_after [of off bs i mem n] by (auto simp: f)
  finally show ?case .
qed simp

lemma get_dirNames:
  "off + 160 \<le> length mem \<Longrightarrow> i + n \<le> off \<Longrightarrow> get_bytes i n (put_dirNames A off mem) = get_bytes i n mem"
  unfolding put_dirNames_def by (rule get_put_fields_other) (auto simp: list_all_iff DIR_NUM_def)

lemma last_dirName:
  assumes "off + 160 \<le> length mem"
  shows "get_bytes (off + 159) 1 (put_dirNames A off mem) = [0]"
proof -
  define fs where "fs = concat (map (\<lambda>j. [(off + 16 * j, take 16 (text_bytes (ie_dirName A j))), (off + 16 * j + 15, [0 :: u8])]) [0..<9])
      @ [(off + 144, take 16 (text_bytes (ie_dirName A 9)))]"
  have "[0..<DIR_NUM] = [0..<9] @ [9]" using upt_Suc_append [of 0 9] by (simp add: DIR_NUM_def)
  then have "put_dirNames A off mem = put_fields (fs @ [(off + 159, [0])]) mem"
    by (simp add: put_dirNames_def fs_def add.commute [of off])
  moreover have "length (put_fields fs mem) = length mem" using assms by (intro length_put_fields) (auto simp: list_all_iff fs_def)
  ultimately show ?thesis using assms by (simp add: put_fields_append)
qed

lemma conn_syn_ack8_fields:
  fixes A :: ia_env and x :: ia
  assumes "ia_inv x"
  defines "P \<equiv> conn_syn_ack8 A x"
  shows "get_bytes 12 12 P = text_bytes ''CONN_SYN_ACK''" "get_bytes 24 4 P = get_bytes 24 4 (ia_connSynAck8 x)"
    "get_bytes 28 4 P = word_bytes 4 (ie_random A (ia_draws x))"
    "get_bytes 32 4 P = word_bytes 4 (word_of_int (ias_userTimeout (ia_settings x)) :: u32)"
    "get_bytes 36 4 P = word_bytes 4 (word_of_int (ias_userDelay (ia_settings x)) :: u32)" "get_bytes 199 1 P = [0]"
proof -
  define fs where "fs = hdr8 @ [(8, word_bytes 4 (200 :: u32))]"
  define b1 where "b1 = put_fields (fs @ [(12, text_bytes ''CONN_SYN_ACK'')]) (ia_connSynAck8 x)"
  define b2 where "b2 = put_dirNames A 40 b1"
  have l0: "length (ia_connSynAck8 x) = 200" using ia_inv_lengths [OF assms(1)] by simp
  have lf: "length (put_fields fs (ia_connSynAck8 x)) = 200"
    using l0 by (simp add: length_put_fields fs_def hdr8_def IA_ID_def)
  have l1: "length b1 = 200" using lf by (simp add: b1_def put_fields_append)
  have l2: "length b2 = 200" using l1 by (simp add: b2_def length_put_dirNames)
  define a b c where "a = word_bytes 4 (ie_random A (ia_draws x))"
    and "b = word_bytes 4 (word_of_int (ias_userTimeout (ia_settings x)) :: u32)"
    and "c = word_bytes 4 (word_of_int (ias_userDelay (ia_settings x)) :: u32)"
  have P: "P = put_bytes 36 c (put_bytes 32 b (put_bytes 28 a b2))"
    by (simp add: P_def conn_syn_ack8_def b1_def b2_def fs_def a_def b_def c_def put_fields_def)
  have abc: "length a = 4" "length b = 4" "length c = 4" by (simp_all add: a_def b_def c_def)
  have l3: "length (put_bytes 28 a b2) = 200" "length (put_bytes 32 b (put_bytes 28 a b2)) = 200" using l2 abc by simp_all
  have low: "get_bytes i n P = get_bytes i n b1" if "i + n \<le> 28" for i n
    using that l1 l2 l3 abc by (simp add: P get_put_before b2_def get_dirNames)
  show "get_bytes 12 12 P = text_bytes ''CONN_SYN_ACK''"
    using low [of 12 12] lf by (simp add: b1_def put_fields_append)
  show "get_bytes 24 4 P = get_bytes 24 4 (ia_connSynAck8 x)"
    using low [of 24 4] l0 by (simp add: b1_def, subst get_put_fields_other) (simp_all add: fs_def hdr8_def IA_ID_def)
  show "get_bytes 28 4 P = word_bytes 4 (ie_random A (ia_draws x))"
    "get_bytes 32 4 P = word_bytes 4 (word_of_int (ias_userTimeout (ia_settings x)) :: u32)"
    "get_bytes 36 4 P = word_bytes 4 (word_of_int (ias_userDelay (ia_settings x)) :: u32)"
    using l2 l3 abc by (simp_all add: P get_put_before a_def [symmetric] b_def [symmetric] c_def [symmetric])
  have "get_bytes 199 1 P = get_bytes 199 1 b2" using l2 l3 abc by (simp add: P get_put_after)
  then show "get_bytes 199 1 P = [0]" using last_dirName [of 40 b1 A] l1 by (simp add: b2_def)
qed

text \<open>The client opens the reply: the stack behind it is deciphered to something, too.\<close>

lemma client_opens:
  assumes "length P = n" and "8 dvd n" and "n \<le> 2048" and "length stack = 2048"
    and "take 4 (drop 12 (ecb (EncryptBlock (ic_ctxPass c)) P)) \<noteq> text_bytes ''ERR'' @ [0]" and "16 \<le> n"
  shows "\<exists>junk. length junk = 2048 - n \<and> client_Recv (Some (ecb (EncryptBlock (ic_ctxPass c)) P)) stack c = Some (Some (P @ junk))"
proof -
  let ?r = "ecb (EncryptBlock (ic_ctxPass c)) P"
  have l: "length ?r = n" using assms by (simp add: length_ecb)
  have b: "put_bytes 0 (take (length stack) ?r) stack = ?r @ drop n stack" using l assms by (simp add: put_bytes_def)
  have "DecryptString (ic_ctxPass c) 2048 (?r @ drop n stack) = Some (ecb (DecryptBlock (ic_ctxPass c)) (?r @ drop n stack))"
    using l assms by (simp add: DecryptString_ecb up8_dvd)
  also have "ecb (DecryptBlock (ic_ctxPass c)) (?r @ drop n stack) = P @ ecb (DecryptBlock (ic_ctxPass c)) (drop n stack)"
    using l assms by (simp add: ecb_append ecb_Decrypt_Encrypt)
  finally have d: "DecryptString (ic_ctxPass c) 2048 (?r @ drop n stack) = Some (P @ ecb (DecryptBlock (ic_ctxPass c)) (drop n stack))" .
  have "8 dvd (2048 - n)" using assms(2) by (simp add: dvd_diff_nat)
  then have lj: "length (ecb (DecryptBlock (ic_ctxPass c)) (drop n stack)) = 2048 - n" using assms by (simp add: length_ecb)
  have "take 4 (drop 12 (?r @ drop n stack)) \<noteq> text_bytes ''ERR'' @ [0]" using assms l by simp
  then have "client_Recv (Some ?r) stack c = Some (Some (P @ ecb (DecryptBlock (ic_ctxPass c)) (drop n stack)))"
    using d b assms(4) by (simp add: client_Recv_def sizeofs)
  then show ?thesis using lj by blast
qed

lemma le32_append: "get_bytes i 4 P = word_bytes 4 (w :: u32) \<Longrightarrow> i + 4 \<le> length P \<Longrightarrow> le32 (P @ junk) i = w"
  by (rule le32_bytes) (simp_all add: get_bytes_def)

text \<open>The name of a packet in the buffer: the text written there, if a zero follows.\<close>

lemma text_at_name:
  assumes n: "length name = n" and "get_bytes 12 n P = text_bytes name" and "12 + n < length P" and "c_text name"
  shows "P ! (12 + n) = 0 \<Longrightarrow> text_at (P @ junk) 12 = Some name"
    "P ! (12 + n) \<noteq> 0 \<Longrightarrow> 0 \<in> set (drop 12 P) \<Longrightarrow> \<exists>x xs. text_at (P @ junk) 12 = Some (name @ x # xs)"
proof -
  let ?b = "P ! (12 + n)"
  have "drop 12 P = take (n) (drop 12 P) @ drop (12 + n) P"
    by (metis append_take_drop_id drop_drop add.commute)
  also have "drop (12 + n) P = ?b # drop (13 + n) P" using assms(3) by (simp add: Cons_nth_drop_Suc [symmetric])
  finally have d: "drop 12 (P @ junk) = text_bytes name @ ?b # drop (13 + n) P @ junk"
    using assms by (simp add: get_bytes_def)
  have nz: "\<forall>b\<in>set (text_bytes name). b \<noteq> 0" using assms(4) by (auto simp: text_bytes_def c_text_def image_iff)
  have t: "takeWhile (\<lambda>b. b \<noteq> 0) (drop 12 (P @ junk)) = text_bytes name @ takeWhile (\<lambda>b. b \<noteq> 0) (?b # drop (13 + n) P @ junk)"
    unfolding d using nz by (intro takeWhile_append2) blast
  then have c: "cstring (drop 12 (P @ junk)) = name @ map char_at (takeWhile (\<lambda>b. b \<noteq> 0) (?b # drop (13 + n) P @ junk))"
    by (simp add: cstring_def text_bytes_def comp_def)
  show "text_at (P @ junk) 12 = Some name" if "?b = 0"
    using c that d by (simp add: text_at_def)
  show "\<exists>x xs. text_at (P @ junk) 12 = Some (name @ x # xs)" if "?b \<noteq> 0" "0 \<in> set (drop 12 P)"
    using c that by (simp add: text_at_def)
qed

subsection \<open>The client's turns\<close>

definition client_set :: "string \<Rightarrow> blowfish_ctx \<Rightarrow> ia_client \<Rightarrow> bool" where
  "client_set login key c \<longleftrightarrow> ic_isNetPrepared c \<and> ic_ctxHdr c = header_key \<and> ic_ctxPass c = key \<and> ic_login c = login \<and> ic_firstConnect c"

lemma call_back_fields [simp]:
  "ic_isNetPrepared (call_back b ev c) = ic_isNetPrepared c" "ic_ctxHdr (call_back b ev c) = ic_ctxHdr c" "ic_ctxPass (call_back b ev c) = ic_ctxPass c"
  "ic_login (call_back b ev c) = ic_login c" "ic_rnd (call_back b ev c) = ic_rnd c" "ic_out (call_back b ev c) = ic_out c" "ic_servAddr (call_back b ev c) = ic_servAddr c"
  "ic_action (call_back b ev c) = ic_action c" "ic_userTimeout (call_back b ev c) = ic_userTimeout c" "ic_firstConnect (call_back b ev c) = ic_firstConnect c"
  by (simp_all add: call_back_def)

lemma sends_fields [simp]:
  "ic_action (sends c b) = ic_action c" "ic_userTimeout (sends c b) = ic_userTimeout c" "ic_rnd (sends c b) = ic_rnd c"
  "ic_out (sends c b) = ic_out c @ [(ic_servAddr c, wire (ic_login c) (ic_ctxPass c) b)]" "ic_login (sends c b) = ic_login c"
  "ic_isNetPrepared (sends c b) = ic_isNetPrepared c" "ic_ctxHdr (sends c b) = ic_ctxHdr c" "ic_ctxPass (sends c b) = ic_ctxPass c"
  "ic_servAddr (sends c b) = ic_servAddr c" "ic_firstConnect (sends c b) = ic_firstConnect c" "ic_selectedDirs (sends c b) = ic_selectedDirs c"
  by (simp_all add: sends_def)

lemma client_requests:
  assumes "client_set login key c" and "ic_phase c = 1" and "ic_action c = IA_CONNECT"
  shows "\<exists>c1. client_Run_turn C None stack c = Some c1 \<and> client_set login key c1 \<and> ic_phase c1 = 2 \<and> ic_action c1 = IA_NONE
    \<and> ic_servAddr c1 = ic_servAddr c
    \<and> ic_out c1 = ic_out c @ [(ic_servAddr c, wire login key (conn_syn_body login (ic_selectedDirs c)))]"
proof -
  have "NetSend C CONN_SYN_N (c\<lparr>ic_action := IA_NONE\<rparr>) =
      Some (0, sends (c\<lparr>ic_action := IA_NONE\<rparr>) (conn_syn_body login (ic_selectedDirs c)))"
    using assms(1) NetSend_wire(1) [of "c\<lparr>ic_action := IA_NONE\<rparr>" C] by (simp add: client_set_def)
  then show ?thesis
    using assms by (simp add: client_Run_turn_def NetRecv_def client_Recv_def Run_phase_def on_action_def client_phase_def client_set_def)
qed

lemma i32_elapsed: "i32 (t - i32 t) = 0"
proof -
  have "take_bit 32 (signed_take_bit 31 t) = take_bit 32 t" by (rule take_bit_signed_take_bit) simp
  then have "take_bit 32 (t - signed_take_bit 31 t) = 0"
    using take_bit_diff [of 32 t "signed_take_bit 31 t"] by simp
  then have "signed_take_bit 31 (t - signed_take_bit 31 t) = signed_take_bit 31 0"
    using signed_take_bit_eq_iff_take_bit_eq [of 31 "t - signed_take_bit 31 t" 0] by simp
  then show ?thesis by (simp add: i32_def)
qed

lemma client_accepts:
  assumes c: "client_set login key c" "ic_action c = IA_NONE" and x: "ia_inv x" "ia_connSynAck8 x ! 24 = 0"
    and set: "0 \<le> ias_userTimeout (ia_settings x)" "ias_userTimeout (ia_settings x) < 2 ^ 31" and st: "length stack = 2048"
    and r: "take 4 (drop 12 (ecb (EncryptBlock key) (conn_syn_ack8 A x))) \<noteq> text_bytes ''ERR'' @ [0]"
  shows "\<exists>c2. client_Run_turn C (Some (ecb (EncryptBlock key) (conn_syn_ack8 A x))) stack c = Some c2 \<and> ic_phase c2 = 3
    \<and> client_set login key c2 \<and> ic_servAddr c2 = ic_servAddr c
    \<and> ic_out c2 = ic_out c @ [(ic_servAddr c, wire login key (ack_body ''CONN_ACK'' (ie_random A (ia_draws x) + 1)))]"
proof -
  define P where "P = conn_syn_ack8 A x"
  have key: "ic_ctxPass c = key" using c by (simp add: client_set_def)
  have lP: "length P = 200" using length_conn_syn_ack(2) [OF x(1)] by (simp add: P_def)
  note f = conn_syn_ack8_fields [OF x(1), of A, folded P_def]
  obtain junk where j: "client_Recv (Some (ecb (EncryptBlock key) P)) stack c = Some (Some (P @ junk))"
    using client_opens [OF lP _ _ st, of c] r by (auto simp: P_def key)
  have "get_bytes 24 4 P ! 0 = get_bytes 24 4 (ia_connSynAck8 x) ! 0" using f(2) by simp
  then have p24: "P ! 24 = 0" using lP x ia_inv_lengths(2) [OF x(1)] by (simp add: get_bytes_def)
  then have name: "text_at (P @ junk) 12 = Some ''CONN_SYN_ACK''"
    using text_at_name(1) [of "''CONN_SYN_ACK''" 12 P junk] f(1) lP by (simp add: c_text_def byte_of_def)
  have "get_bytes 199 1 P ! 0 = P ! 199" using lP by (simp add: get_bytes_def)
  then have "P ! 199 = 0" using f(6) by simp
  then have "0 \<in> set (drop 184 P)" using lP in_set_conv_nth [of 0 "drop 184 P"] by (auto intro!: exI [of _ 15])
  then have dn: "\<exists>t. text_at (P @ junk) 184 = Some t" using lP by (simp add: text_at_def)
  have l: "le32 (P @ junk) 28 = ie_random A (ia_draws x)" "sint (le32 (P @ junk) 32) = ias_userTimeout (ia_settings x)"
    using le32_append [OF f(3), of junk] le32_append [OF f(4), of junk] lP set
    by (simp_all add: sint_sbintrunc' signed_take_bit_int_eq_self)
  define c1 where "c1 = c\<lparr>ic_rnd := le32 (P @ junk) 28, ic_userTimeout := sint (le32 (P @ junk) 32), ic_aliveTimeout := sint (le32 (P @ junk) 36)\<rparr>"
  define c2 where "c2 = call_back (ic_dirNameCb c1) (DirNames (map (\<lambda>i. cstring (drop (40 + 16 * i) (P @ junk))) [0..<DIR_NUM])) c1"
  have c2: "ic_isNetPrepared c2" "ic_ctxHdr c2 = header_key" "ic_ctxPass c2 = key" "ic_login c2 = login" "ic_servAddr c2 = ic_servAddr c"
    "ic_rnd c2 = ie_random A (ia_draws x)" "ic_out c2 = ic_out c" "ic_action c2 = IA_NONE" "ic_userTimeout c2 = ias_userTimeout (ia_settings x)"
    "ic_firstConnect c2"
    using c l by (simp_all add: c2_def c1_def client_set_def)
  define c3 where "c3 = client_phase C 3 (sends (c2\<lparr>ic_rnd := ic_rnd c2 + 1\<rparr>) (ack_body ''CONN_ACK'' (ic_rnd c2 + 1)))"
  have "Process_CONN_SYN_ACK_8 C (P @ junk) c = Some (CONN_SYN_ACK_N, c3)"
    unfolding Process_CONN_SYN_ACK_8_def Let_def c1_def [symmetric] c2_def [symmetric]
    using dn NetSend_wire(2) [OF c2(1,2), of C] by (auto simp: DIR_NUM_def c3_def)
  then have "NetRecv C (Some (ecb (EncryptBlock key) P)) stack c = Some (Some CONN_SYN_ACK_N, c3)"
    using j name by (simp add: NetRecv_def client_packetTypes_def packetTypes_def)
  moreover have "Run_phase C c3 = Some c3"
    using i32_elapsed [of "ce_tick C"] set c2(8,9)
    by (simp add: Run_phase_def c3_def client_phase_def waited_def on_action_def GetTickCount_def IA_NONE_def IA_DISCONNECT_def)
  ultimately have "client_Run_turn C (Some (ecb (EncryptBlock key) P)) stack c = Some c3" by (simp add: client_Run_turn_def)
  then show ?thesis
    using c2 by (simp add: P_def c3_def client_phase_def client_set_def)
qed

subsection \<open>The second half of the handshake\<close>

lemma Send_ALIVE_SYN_8_total:
  assumes "ia_inv s" and "ip_find sip s = Some e" and "user_at (iu_user e) us = Some u" and "tariff_of (ie_env A) u \<noteq> None"
  shows "\<exists>rc s'. Send_ALIVE_SYN_8 A sip (s, us) = Some (rc, s', us) \<and> clients s' = clients s \<and> ia_inv s'"
proof -
  obtain f c where "freeMb_field A s u = Some f" "cash_field A u = Some c" using freeMb_cash_Some [OF assms(4)] by blast
  then obtain rc s' where r: "Send_ALIVE_SYN_8 A sip (s, us) = Some (rc, s', us)"
    using Send_ALIVE_SYN_8_eq [OF assms(1,2), of A us] assms(3) by (auto simp: Let_def split: prod.splits)
  with Send_ALIVE_SYN_8_inv [OF assms(1) r] show ?thesis by blast
qed

lemma server_authorizes:
  assumes s: "ia_inv s" "ip_find sip s = Some e" "invited A sport i u rnd e" and m: "may_connect A login sip i u us" and fr: "fresh_user u"
    and ip: "us_ipIndex us sip = None" "sip \<noteq> 0" and E: "\<not> e_relock_blocks (ie_env A)" "tariff_of (ie_env A) u \<noteq> None"
    and b: "256 \<le> length buffer" and key: "key = key_of (uc_password (u_conf u))"
    and login: "u_login u = login"
  shows "\<exists>rc buffer' s' us' e' v. RecvData A (Datagram (wire login key (ack_body ''CONN_ACK'' (rnd + 1))) sip sport) buffer (s, us) = Some (rc, buffer', s', us')
    \<and> ip_find sip s' = Some e' \<and> iu_phase e' = 3 \<and> iu_user e' = i \<and> user_at i us' = Some v \<and> u_currIP v = sip \<and> u_authorizedBy v = [ie_self A]
    \<and> u_conf v = u_conf u \<and> us_loginIndex us' = us_loginIndex us \<and> \<not> us_locked us'"
proof -
  have u: "user_at i us = Some u" "u_id u = i" using m user_at_SomeD by (auto simp: may_connect_def)
  have e: "iu_phase e = 2" "iu_rnd e = rnd" "iu_user e = i" "iu_login e = login" "iu_ctx e = key" "iu_password e = uc_password (u_conf u)"
    using s(3) by (simp_all add: invited_def login key)
  have entry: "client_entry A sip sport 8 u (s, us) = Some (Inr (s, us))" using s(2) u e by (simp add: client_entry_def)
  define s1 where "s1 = refresh_password sip u s"
  have s1: "ia_inv s1" "ip_find sip s1 = Some e" using quietD [OF quiet_refresh s(1)] s e by (simp_all add: s1_def refresh_password_def)
  obtain us1 where us1: "on_user (ie_env A) (\<lambda>E. IsAuthorizedBy E (ie_self A)) (u_id u) us = Some (False, us1)" "upd_user i (u\<lparr>trace := []\<rparr>) us us1"
    using IsAuthorizedBy_fresh [OF u(1), of "ie_env A" "ie_self A"] fr u(2) by (auto simp: fresh_user_def)
  let ?body = "ack_body ''CONN_ACK'' (rnd + 1)"
  define bo where "bo = opened (wire login key ?body) ?body buffer"
  have rnd: "le32 bo 60 = rnd + 1"
    using opened_field [of 20 ?body "arrived (wire login key ?body) buffer"] b arrived_parts(4) [of ?body buffer login key]
    by (simp add: bo_def opened_def body_fields)
  define s2 where "s2 = ip_upd sip (\<lambda>e. (UpdateTime A e)\<lparr>iu_lastSendAlive := ie_now A\<rparr>) s1"
  have s2: "ia_inv s2" using quietD [OF quiet_times s1(1)] by (simp add: s2_def)
  have "fresh_user (u\<lparr>trace := []\<rparr>)" using fr by (simp add: fresh_user_def)
  then obtain us2 v where au: "Users_Authorize (ie_env A) login sip (ia_enabledDirs s2) (ie_self A) us1 = Some (True, us2)" "user_at i us2 = Some v"
     "u_currIP v = sip" "u_authorizedBy v = [ie_self A]" "u_tariff v = u_tariff u" "u_conf v = u_conf u"
     "us_loginIndex us2 = us_loginIndex us" "\<not> us_locked us2"
    using Users_Authorize_fresh [of us1 login i sip "u\<lparr>trace := []\<rparr>" "ie_env A" "ia_enabledDirs s2" "ie_self A"] us1(2) m ip E(1)
    by (auto simp: upd_user_def may_connect_def)
  define s3 where "s3 = ip_upd sip (SetPhase A 3) s2"
  have s3: "ia_inv s3" using ia_inv_phase [OF _ s2] by (simp add: s3_def)
  have ack: "Process_CONN_ACK_8 A bo sip (s1, us1) = Some (0, s3, us2)"
    using s1(2) e rnd au(1) by (simp add: Process_CONN_ACK_8_def Let_def s2_def [symmetric] s3_def)
  have s3e: "ip_find sip s3 = Some (SetPhase A 3 ((UpdateTime A e)\<lparr>iu_lastSendAlive := ie_now A\<rparr>))"
    using s1 s2 by (simp add: s3_def) (simp add: s2_def)
  obtain rc s4 where s4: "Send_ALIVE_SYN_8 A sip (s3, us2) = Some (rc, s4, us2)" "clients s4 = clients s3"
    using Send_ALIVE_SYN_8_total [OF s3 s3e, of us2 v A] au(2,5) e(3) E(2) by (auto simp: SetPhase_def UpdateTime_def tariff_of_def)
  have "clients s4 sip = Some (i, login, 3)" using s4(2) clients_find [OF s3e] e by (simp add: SetPhase_def UpdateTime_def)
  then obtain e' where e': "ip_find sip s4 = Some e'" "iu_phase e' = 3" "iu_user e' = i" by (auto simp: clients_def client_view_def)
  have d: "dispatch A CONN_ACK_N 8 bo sip (s1, us1) = Some (rc, s4, us2)" using ack s4(1) by (simp add: dispatch_def then_reply_def)
  have name: "?body = word_bytes 4 (64 :: u32) @ strncpy 16 ''CONN_ACK'' @ word_bytes 4 (rnd + 1)" "c_text ''CONN_ACK''"
    "packetTypes ''CONN_ACK'' = Some CONN_ACK_N"
    by (simp_all add: ack_body_def c_text_def byte_of_def packetTypes_def)
  have "PacketProcessor A (arrived (wire login key ?body) buffer) (of_nat (40 + length ?body)) sip sport 8 u (s, us) = Some (rc, bo, s4, us2)"
    using d s1(2)
    by (subst PacketProcessor_wire [where a = "word_bytes 4 (64 :: u32)" and name = "''CONN_ACK''" and r = "word_bytes 4 (rnd + 1)"
          and pt = CONN_ACK_N and e = e, OF _ _ b _ _ _ _ _ entry _ _ us1(1)])
      (simp_all add: name e(5) s1_def bo_def)
  then have "RecvData A (Datagram (wire login key ?body) sip sport) buffer (s, us) = Some (rc, bo, s4, us2)"
    using RecvData_wire [OF _ _ b _ m, of ?body s key sport] s(1) by (simp add: ia_inv_def header_key_def)
  then show ?thesis using e' au by blast
qed

end
