(* ===== verification/Stg_IASafety.thy ===== *)
theory Stg_IASafety
  imports Stg_IALife
begin

text \<open>
  Who can change an authorization through the InetAccess plugin, and when the plugin withdraws one by itself.
\<close>

subsection \<open>Only acknowledgements change authorizations\<close>

text \<open>The control number of a packet is one more than the one the server sent last, in the right phase.\<close>

definition acknowledges :: "packet_type \<Rightarrow> bytes \<Rightarrow> ia_user \<Rightarrow> bool" where
  "acknowledges pt b e \<longleftrightarrow> (pt = CONN_ACK_N \<and> iu_phase e = 2 \<or> pt = DISCONN_ACK_N \<and> iu_phase e = 4) \<and> le32 b 60 = iu_rnd e + 1"

lemma auths_other:
  "logged_in a l ip j us us' \<Longrightarrow> i \<noteq> j \<Longrightarrow> auths us' i = auths us i" "logged_out a j us us' \<Longrightarrow> i \<noteq> j \<Longrightarrow> auths us' i = auths us i"
  by (auto simp: logged_in_def logged_out_def)

lemma Process_CONN_ACK_auths:
  assumes i: "ia_sys_inv F (ie_self A) (s, us)" and e: "ip_find sip s = Some e" "us_loginIndex us (iu_login e) = Some (iu_user e)"
    and p: "Process_CONN_ACK_6 A b sip (s, us) = Some (rc, s', us')" and d: "auths us' j \<noteq> auths us j"
  shows "j = iu_user e \<and> acknowledges CONN_ACK_N b e"
proof (cases "iu_phase e = 2 \<and> le32 b 60 = iu_rnd e + 1")
  case False
  then have "us' = us" using p e(1) by (auto simp: Process_CONN_ACK_6_def Let_def)
  then show ?thesis using d by simp
next
  case True
  note inv = i [unfolded ia_sys_inv_def prod.case]
  obtain ok dirs where au: "Users_Authorize (ie_env A) (iu_login e) sip dirs (ie_self A) us = Some (ok, us')"
    using p e(1) True by (auto simp: Process_CONN_ACK_6_def Let_def bind_eq_Some_conv split: if_splits)
  obtain k where k: "logged_in (ie_self A) (iu_login e) sip k us us'"
    using Users_Authorize_effect [OF _ au, of F] inv d by (cases ok) (auto simp: same_registry_def)
  have "k = iu_user e" using k e(2) ia_linkD(3) [of "ie_self A" s us k sip "iu_login e"] inv by (auto simp: logged_in_def)
  then show ?thesis using auths_other(1) [OF k] d True by (auto simp: acknowledges_def)
qed

lemma Send_FIN_auths:
  assumes "ia_inv s" and e: "ip_find sip s = Some e" "us_loginIndex us (iu_login e) = Some (iu_user e)"
    and p: "Send_FIN_6 A sip (s, us) = Some (rc, s', us') \<or> Send_FIN_8 A sip (s, us) = Some (rc, s', us')" and d: "auths us' j \<noteq> auths us j"
  shows "j = iu_user e"
proof -
  obtain ok where "Users_Unauthorize (ie_env A) (iu_login e) (ie_self A) '''' us = Some (ok, us')"
    using p e(1) assms(1) by (auto simp: Send_FIN_6_eq Send_FIN_8_eq bind_eq_Some_conv Let_def case_prod_beta)
  from Users_Unauthorize_effect [OF this] e(2) have "logged_out (ie_self A) (iu_user e) us us'" by simp
  then show ?thesis using auths_other(2) d by blast
qed

lemma Send_ALIVE_us:
  "Send_ALIVE_SYN_6 A sip (s, us) = Some (rc, s', us') \<Longrightarrow> us' = us" "Send_ALIVE_SYN_8 A sip (s, us) = Some (rc, s', us') \<Longrightarrow> us' = us"
  by (auto simp: Send_ALIVE_SYN_6_def Send_ALIVE_SYN_8_def Let_def bind_eq_Some_conv case_prod_beta)

lemma dispatch_auths:
  assumes i: "ia_sys_inv F (ie_self A) (s, us)" and e: "ip_find sip s = Some e" "us_loginIndex us (iu_login e) = Some (iu_user e)"
    and p: "dispatch A pt v b sip (s, us) = Some (rc, s', us')" and d: "auths us' j \<noteq> auths us j"
  shows "j = iu_user e \<and> acknowledges pt b e"
proof -
  note p68 = Process_CONN_ACK_68 Process_ALIVE_ACK_68 Process_DISCONN_SYN_68 Process_DISCONN_ACK_68
  have inv: "ia_inv s" using i by (simp add: ia_sys_inv_def)
  have quiet: False if "then_reply (on_ia f) (on_ia g) (s, us) = Some (rc, s', us')" for f g
    using that d by (auto simp: then_reply_def on_ia_def bind_eq_Some_conv split: if_splits)
  have quiet1: False if "on_ia f (s, us) = Some (r, s', us')" for f r using that d by (auto simp: on_ia_def)
  have conn: ?thesis if r: "then_reply (Process_CONN_ACK_6 A b sip) g (s, us) = Some (rc, s', us')"
      and g: "g = Send_ALIVE_SYN_6 A sip \<or> g = Send_ALIVE_SYN_8 A sip" and pt: "pt = CONN_ACK_N" for g
    using r
  proof (rule then_replyE)
    fix rc' assume "Process_CONN_ACK_6 A b sip (s, us) = Some (rc', s', us')"
    then show ?thesis using Process_CONN_ACK_auths [OF i e _ d] pt by blast
  next
    fix st1 assume f: "Process_CONN_ACK_6 A b sip (s, us) = Some (0, st1)" and g1: "g st1 = Some (rc, s', us')"
    obtain s1 us1 where st1: "st1 = (s1, us1)" by fastforce
    have "us' = us1" using g g1 Send_ALIVE_us unfolding st1 by blast
    then show ?thesis using Process_CONN_ACK_auths [OF i e _ d] f pt st1 by blast
  qed
  have disc: ?thesis if r: "then_reply (on_ia (Process_DISCONN_ACK_6 b sip)) g (s, us) = Some (rc, s', us')"
      and g: "g = Send_FIN_6 A sip \<or> g = Send_FIN_8 A sip" and pt: "pt = DISCONN_ACK_N" for g
    using r
  proof (rule then_replyE)
    fix rc' assume "on_ia (Process_DISCONN_ACK_6 b sip) (s, us) = Some (rc', s', us')"
    then show ?thesis using quiet1 by blast
  next
    fix st1 assume f: "on_ia (Process_DISCONN_ACK_6 b sip) (s, us) = Some (0, st1)" and g1: "g st1 = Some (rc, s', us')"
    from f obtain s1 where s1: "Process_DISCONN_ACK_6 b sip s = Some (0, s1)" "st1 = (s1, us)" by (rule on_iaE)
    from Process_DISCONN_ACK_sys [OF i s1(1)] e(1) have "s1 = s" "iu_phase e = 4" "le32 b 60 = iu_rnd e + 1" by auto
    then show ?thesis using Send_FIN_auths [OF inv e _ d] g g1 pt s1(2) by (auto simp: acknowledges_def)
  qed
  show ?thesis
  proof (cases pt)
    case CONN_ACK_N
    then show ?thesis using p d conn [of "Send_ALIVE_SYN_6 A sip"] conn [of "Send_ALIVE_SYN_8 A sip"]
      unfolding dispatch_def p68 by (auto split: if_splits)
  next
    case DISCONN_ACK_N
    then show ?thesis using p d disc [of "Send_FIN_6 A sip"] disc [of "Send_FIN_8 A sip"]
      unfolding dispatch_def p68 by (auto split: if_splits)
  qed (use p d quiet quiet1 in \<open>auto simp: dispatch_def p68 split: if_splits\<close>)
qed

lemma refreshed_entry:
  assumes "ia_inv s1" and "ip_find sip (refresh_password sip u s1) = Some e"
  shows "\<exists>e1. ip_find sip s1 = Some e1 \<and> iu_phase e1 = iu_phase e \<and> iu_rnd e1 = iu_rnd e \<and> iu_user e1 = iu_user e
    \<and> iu_password e = uc_password (u_conf u)"
  using assms by (auto simp: refresh_password_def)

lemma client_entry_old:
  assumes "client_entry A sip sport v u (s, us) = Some (Inr (s1, us1))" and "ia_inv s" and "ip_find sip s1 = Some e1" and "iu_phase e1 \<noteq> 1"
  shows "s1 = s"
proof (cases "ip_find sip s")
  case None
  then have "s1 = new_client A sip sport v u s"
    using assms(1) by (auto simp: client_entry_def bind_eq_Some_conv split: option.splits if_splits)
  then have "iu_phase e1 = 1" using assms(2,3) None by (simp add: new_client_def draw_eq Let_def ipm.find_insert) (auto simp: IA_USER_def)
  then show ?thesis using assms(4) by simp
next
  case (Some e)
  then show ?thesis using assms(1) by (auto simp: client_entry_def bind_eq_Some_conv split: if_splits)
qed

lemma PacketProcessor_auths:
  assumes i: "ia_sys_inv F (ie_self A) (s, us)" and F: "e_FindTariff (ie_env A) = F" and u: "user_at i us = Some u"
    and idx: "us_loginIndex us (u_login u) = Some i"
    and p: "PacketProcessor A buff len sip sport v u (s, us) = Some (rc, b, s', us')" and d: "auths us' j \<noteq> auths us j"
  shows "j = i \<and> (\<exists>e body pt. ip_find sip s = Some e \<and> iu_user e = i \<and> b = put_bytes 40 body buff
    \<and> DecryptString (key_of (uc_password (u_conf u))) (unat (len - 40)) (drop 40 buff) = Some body
    \<and> packetTypes (cstring (take 15 (drop 44 b))) = Some pt \<and> acknowledges pt b e)"
  using i u p
proof (rule PacketProcessor_cases)
  assume "client_entry A sip sport v u (s, us) = Some (Inl (s', us'))"
  then have "us' = us" by (auto simp: client_entry_def bind_eq_Some_conv split: option.splits if_splits dest: lookup_same(2))
  then show ?thesis using d by simp
next
  fix s1 s2 e body b'
  assume en: "client_entry A sip sport v u (s, us) = Some (Inr (s1, us))" and s2: "s2 = refresh_password sip u s1"
    and i2: "ia_sys_inv F (ie_self A) (s2, us)" and e: "ip_find sip s2 = Some e" "iu_user e = i" "iu_login e = u_login u"
    and body: "DecryptString (iu_ctx e) (unat (len - of_nat ia_offset)) (drop ia_offset buff) = Some body" "b' = put_bytes ia_offset body buff"
    and rest: "(case packetTypes (cstring (take (IA_MAX_TYPE_LEN - 1) (drop (ia_offset + 4) b'))) of
        None \<Rightarrow> Some (0, b', ip_erase sip (wrong_password A sip sport v u s2), us)
      | Some pt \<Rightarrow> do {
          (byMe, us) \<leftarrow> on_user (ie_env A) (\<lambda>E. IsAuthorizedBy E (ie_self A)) (u_id u) us;
          (if byMe \<and> u_currIP u \<noteq> sip then Some (0, b', ip_erase sip (login_in_use A sip sport v u s2), us)
           else map_option (\<lambda>(rc, st). (rc, b', st)) (dispatch A pt v b' sip (s2, us))) }) = Some (rc, b, s', us')"
  obtain pt where pt: "packetTypes (cstring (take 15 (drop 44 b'))) = Some pt"
    using rest d by (auto simp: ia_offset_def IA_MAX_TYPE_LEN_def split: option.splits)
  then obtain byMe us2 where me: "on_user (ie_env A) (\<lambda>E. IsAuthorizedBy E (ie_self A)) i us = Some (byMe, us2)"
    and r: "if byMe \<and> u_currIP u \<noteq> sip then us' = us2 else dispatch A pt v b' sip (s2, us2) = Some (rc, s', us')" and b: "b = b'"
    using rest user_at_SomeD [OF u] by (auto simp: ia_offset_def IA_MAX_TYPE_LEN_def bind_eq_Some_conv split: if_splits)
  note a = IsAuthorizedBy_same [OF F _ me]
  have same: "same_registry us us2" and inv2: "users_inv F us2" using a i2 by (auto simp: ia_sys_inv_def)
  have i3: "ia_sys_inv F (ie_self A) (s2, us2)" using i2 same inv2 by (auto simp: ia_sys_inv_def intro: link_same)
  have d2: "auths us' j \<noteq> auths us2 j" using d same by (simp add: same_registry_def)
  have "dispatch A pt v b' sip (s2, us2) = Some (rc, s', us')" using r d2 by (auto split: if_splits)
  from dispatch_auths [OF i3 e(1) _ this d2] have ack: "j = i" "acknowledges pt b' e"
    using e idx same by (simp_all add: same_registry_def)
  have inv1: "ia_inv s1" using client_entry_sys [OF i u en] by (simp add: ia_sys_inv_def)
  from refreshed_entry [OF this, of sip u e] e(1) s2 obtain e1 where e1: "ip_find sip s1 = Some e1" "iu_phase e1 = iu_phase e"
     "iu_rnd e1 = iu_rnd e" "iu_user e1 = iu_user e" and pw: "iu_password e = uc_password (u_conf u)" by auto
  have "iu_phase e1 \<noteq> 1" using ack(2) e1(2) by (auto simp: acknowledges_def)
  then have "s1 = s" using client_entry_old [OF en _ e1(1)] i by (simp add: ia_sys_inv_def)
  moreover have "acknowledges pt b' e1" using ack(2) e1 by (simp add: acknowledges_def)
  moreover have "iu_ctx e = key_of (uc_password (u_conf u))" using i2 e(1) pw by (auto simp: ia_sys_inv_def ia_inv_def client_ok_def)
  ultimately show ?thesis using ack(1) e1 e(2) body pt b by (auto simp: ia_offset_def)
qed

end
