(* ===== verification/Stg_IATimeout.thy ===== *)
theory Stg_IATimeout
  imports Stg_IASafety
begin

text \<open>
  What silence leads to: one pass of \<open>Timeouter\<close> over the clients of the InetAccess plugin.
\<close>

subsection \<open>Withdrawing an authorization always works\<close>

definition tariffs_known :: "env \<Rightarrow> users \<Rightarrow> bool" where
  "tariffs_known E us \<longleftrightarrow> (\<forall>i u. user_at i us = Some u \<longrightarrow> tariff_of E u \<noteq> None)"

lemma Unauthorize_total:
  assumes "\<not> e_relock_blocks E"
  shows "\<exists>v. Unauthorize E a reason u = Some ((), v) \<and> u_tariff v = u_tariff u"
proof -
  have "u_tariff (Unauthorize_body E a reason w) = u_tariff w" for w
    by (simp add: Unauthorize_body_def Let_def set_currIP_def ModifyTime_def)
  then show ?thesis using assms by (simp add: Unauthorize_def with_lock_def)
qed

lemma Users_Unauthorize_total:
  assumes inv: "users_inv F us" and l: "us_loginIndex us login = Some i" and u: "user_at i us = Some u"
    and au: "u_authorizedBy u \<noteq> []" and E: "\<not> e_relock_blocks E"
  shows "\<exists>us'. Users_Unauthorize E login a reason us = Some (True, us') \<and> (tariffs_known E us \<longrightarrow> tariffs_known E us')"
proof -
  have ip: "u_currIP u \<noteq> 0" using users_invD(2) [OF inv u] au by (auto simp: user_inv_def sess_def)
  have body: "\<exists>us'. Users_Unauthorize_body E login a reason (us\<lparr>us_locked := b\<rparr>) = Some (True, us') \<and> (tariffs_known E us \<longrightarrow> tariffs_known E us')" for b
  proof -
    let ?us = "us\<lparr>us_locked := b\<rparr>"
    obtain v where v: "Unauthorize (env_in E ?us) a reason (u\<lparr>trace := trace us\<rparr>) = Some ((), v)" "u_tariff v = u_tariff u"
      using Unauthorize_total [of "env_in E ?us" a reason "u\<lparr>trace := trace us\<rparr>"] E by (auto simp: env_in_def)
    then obtain t where o: "on_user E (\<lambda>E. Unauthorize E a reason) i ?us = Some ((), t)" using u by (simp add: on_user_def)
    have "same_user x y" if "Unauthorize (env_in E ?us) a reason x = Some ((), y)" for x y using Unauthorize_cases [OF that] by blast
    from on_user_upd [OF o this] obtain u' v' where "user_at i ?us = Some u'"
        "Unauthorize (env_in E ?us) a reason (u'\<lparr>trace := trace ?us\<rparr>) = Some ((), v')" "upd_user i (v'\<lparr>trace := []\<rparr>) ?us t"
      by blast
    then have t: "upd_user i (v\<lparr>trace := []\<rparr>) ?us t" using u v by simp
    then have ut: "user_at i t = Some (v\<lparr>trace := []\<rparr>)" by (simp add: upd_user_def)
    have "\<exists>us'. Users_Unauthorize_body E login a reason ?us = Some (True, us') \<and> (\<forall>j. user_at j us' = user_at j t)"
      using l u o ut ip E by (simp add: Users_Unauthorize_body_def FindByNameNonLock_def DelFromIPIdx_def users_locked_def)
    moreover have "tariff_of E w \<noteq> None" if "tariffs_known E us" "user_at j t = Some w" for j w
      using that t u v(2) by (auto simp: tariffs_known_def upd_user_def tariff_of_def split: if_splits)
    ultimately show ?thesis by (auto simp: tariffs_known_def)
  qed
  have k: "tariffs_known E (t\<lparr>us_locked := b\<rparr>) = tariffs_known E t" for t b by (simp add: tariffs_known_def)
  show ?thesis
    using body [of True] body [of "us_locked us"] E by (auto simp: Users_Unauthorize_def users_locked_def k)
qed

subsection \<open>What the pass does to the other clients\<close>

text \<open>Work for one client: the settings and all other clients stay, and of the client the user, the phase and its time.\<close>

definition touches :: "u32 \<Rightarrow> ia \<Rightarrow> ia \<Rightarrow> bool" where
  "touches ip s s' \<longleftrightarrow> ia_settings s' = ia_settings s \<and> (\<forall>q. q \<noteq> ip \<longrightarrow> ip_find q s' = ip_find q s)
     \<and> (\<forall>e. ip_find ip s = Some e \<longrightarrow> (\<exists>e'. ip_find ip s' = Some e' \<and> iu_user e' = iu_user e \<and> iu_login e' = iu_login e
          \<and> iu_phase e' = iu_phase e \<and> iu_phaseTime e' = iu_phaseTime e))"

lemma touches_refl [simp]: "touches ip s s"
  by (simp add: touches_def)

lemma touches_trans:
  assumes "touches ip s t" and "touches ip t r"
  shows "touches ip s r"
proof -
  have "\<exists>e''. ip_find ip r = Some e'' \<and> iu_user e'' = iu_user e \<and> iu_login e'' = iu_login e \<and> iu_phase e'' = iu_phase e
      \<and> iu_phaseTime e'' = iu_phaseTime e" if "ip_find ip s = Some e" for e
    using that assms by (fastforce simp: touches_def)
  then show ?thesis using assms by (simp add: touches_def)
qed

lemma touches_sent: "touches ip s t \<Longrightarrow> touches ip s (snd (IA_Send A ip' p bs t))"
  by (simp add: touches_def IA_Send_def)

lemma touches_buffer:
  "touches ip s t \<Longrightarrow> touches ip s (t\<lparr>ia_aliveSyn6 := b\<rparr>)" "touches ip s t \<Longrightarrow> touches ip s (t\<lparr>ia_aliveSyn8 := b\<rparr>)"
  by (simp_all add: touches_def)

lemma touches_upd:
  assumes "ia_inv s" and "\<And>e. iu_user (f e) = iu_user e \<and> iu_login (f e) = iu_login e \<and> iu_phase (f e) = iu_phase e \<and> iu_phaseTime (f e) = iu_phaseTime e"
  shows "touches ip s (ip_upd ip f s)"
  using assms by (auto simp: touches_def) (simp add: ip_upd_def)

lemma touches_drawn: "ia_inv s \<Longrightarrow> touches ip s (drawn A ip s)"
  unfolding drawn_def by (auto simp: touches_def ipm.find_change ip_upd_def ia_inv_def)

lemma encrypt_total: "n \<le> length b \<Longrightarrow> \<exists>b'. encrypt_in_place ctx n b = Some b'"
  by (simp add: encrypt_in_place_def EncryptString_ecb)

lemma RealSendMessage_total:
  "\<exists>rc s'. RealSendMessage6 A m ip e s = Some (rc, s') \<and> touches ip s s'"
  "\<exists>rc s'. RealSendMessage7 A m ip e s = Some (rc, s') \<and> touches ip s s'"
  "\<exists>rc s'. RealSendMessage8 A m ip e s = Some (rc, s') \<and> touches ip s s'"
proof -
  have t: "\<exists>rc s'. (do { buf \<leftarrow> encrypt_in_place c n b; Some (IA_Send A ip p (take n buf) s) }) = Some (rc, s') \<and> touches ip s s'"
    if "n \<le> length b" for c n b p
    using encrypt_total [OF that, of c] touches_sent [OF touches_refl, of ip s A ip p] by (auto simp: IA_Send_def)
  have "length (put_fields fs (replicate n 0)) = n" if "list_all (\<lambda>(off, bs). off + length bs \<le> n) fs" for fs :: "(nat \<times> bytes) list" and n
    using length_put_fields [of "replicate n 0" fs] that by simp
  note len = this
  show "\<exists>rc s'. RealSendMessage6 A m ip e s = Some (rc, s') \<and> touches ip s s'"
    unfolding RealSendMessage6_def Let_def by (rule t, subst len) (auto simp: sizeof_INFO_6_def)
  show "\<exists>rc s'. RealSendMessage7 A m ip e s = Some (rc, s') \<and> touches ip s s'"
    unfolding RealSendMessage7_def Let_def by (rule t, subst len) (auto simp: sizeof_INFO_7_def MAX_MSG_LEN_def)
  show "\<exists>rc s'. RealSendMessage8 A m ip e s = Some (rc, s') \<and> touches ip s s'"
    unfolding RealSendMessage8_def Let_def by (rule t, subst len) (auto simp: sizeof_INFO_8_def IA_MAX_MSG_LEN_8_def)
qed

lemma send_first_message_total:
  assumes "ia_inv s" and "ip_find sip s = Some e"
  shows "\<exists>s'. send_first_message A sip (s, us) = Some (s', us) \<and> touches sip s s'"
proof (cases "iu_messagesToSend e")
  case Nil
  then show ?thesis using assms by (simp add: send_first_message_def)
next
  case (Cons m ms)
  have "\<exists>rc s1. (if iu_protoVer e = 6 then RealSendMessage6 A m sip e s else if iu_protoVer e = 7 then RealSendMessage7 A m sip e s
      else if iu_protoVer e = 8 then RealSendMessage8 A m sip e s else Some (0, s)) = Some (rc, s1) \<and> touches sip s s1"
    using RealSendMessage_total [of A m sip e s] by simp
  then obtain rc s1 where s1: "(if iu_protoVer e = 6 then RealSendMessage6 A m sip e s else if iu_protoVer e = 7 then RealSendMessage7 A m sip e s
      else if iu_protoVer e = 8 then RealSendMessage8 A m sip e s else Some (0, s)) = Some (rc, s1)" "touches sip s s1" by blast
  have "quiet s s1" using s1(1) by (auto split: if_splits dest: RealSendMessage_quiet)
  then have "ia_inv s1" using assms(1) by (simp add: quietD)
  then have "touches sip s (ip_upd sip (iu_messagesToSend_update (\<lambda>_. ms)) s1)" by (intro touches_trans [OF s1(2) touches_upd]) simp_all
  then show ?thesis using s1(1) Cons assms(2) by (simp add: send_first_message_def)
qed

lemma Send_ALIVE_total:
  assumes "ia_inv s" and "ip_find sip s = Some e" and "user_at (iu_user e) us = Some u" and "tariff_of (ie_env A) u \<noteq> None"
  shows "\<exists>rc s'. Send_ALIVE_SYN_6 A sip (s, us) = Some (rc, s', us) \<and> touches sip s s'"
    "\<exists>rc s'. Send_ALIVE_SYN_8 A sip (s, us) = Some (rc, s', us) \<and> touches sip s s'"
proof -
  obtain f c where "freeMb_field A s u = Some f" "cash_field A u = Some c"
    using freeMb_cash_Some [OF assms(4)] by blast
  moreover have "touches sip s (snd (IA_Send A sip p bs ((drawn A sip s)\<lparr>ia_aliveSyn6 := bs\<rparr>)))"
    "touches sip s (snd (IA_Send A sip p bs ((drawn A sip s)\<lparr>ia_aliveSyn8 := bs\<rparr>)))" for p bs
    using touches_drawn [OF assms(1)] by (simp_all add: touches_sent touches_buffer)
  ultimately show "\<exists>rc s'. Send_ALIVE_SYN_6 A sip (s, us) = Some (rc, s', us) \<and> touches sip s s'"
    "\<exists>rc s'. Send_ALIVE_SYN_8 A sip (s, us) = Some (rc, s', us) \<and> touches sip s s'"
    using assms(3) by (auto simp: Send_ALIVE_SYN_6_eq [OF assms(1,2)] Send_ALIVE_SYN_8_eq [OF assms(1,2)] Let_def case_prod_beta)
qed

lemma send_alive_total:
  assumes "ia_inv s" and "ip_find sip s = Some e" and "user_at (iu_user e) us = Some u" and "tariff_of (ie_env A) u \<noteq> None"
  shows "\<exists>s'. send_alive A sip (s, us) = Some (s', us) \<and> touches sip s s'"
proof (cases "elapsed A (iu_lastSendAlive e) (ias_userDelay (ia_settings s))")
  case False
  then show ?thesis using assms(2) by (simp add: send_alive_def)
next
  case True
  let ?send = "if iu_protoVer e = 6 \<or> iu_protoVer e = 7 then Send_ALIVE_SYN_6 A sip (s, us)
      else if iu_protoVer e = 8 then Send_ALIVE_SYN_8 A sip (s, us) else Some (0, s, us)"
  have "\<exists>rc s1. ?send = Some (rc, s1, us) \<and> touches sip s s1" using Send_ALIVE_total [OF assms] by simp
  then obtain rc s1 where s1: "?send = Some (rc, s1, us)" "touches sip s s1" by blast
  have "ia_inv s1" using s1(1) assms(1) Send_ALIVE_SYN_6_inv Send_ALIVE_SYN_8_inv by (metis option.inject prod.inject)
  then have "touches sip s (ip_upd sip (iu_lastSendAlive_update (\<lambda>_. ie_now A)) s1)" by (intro touches_trans [OF s1(2) touches_upd]) simp_all
  then show ?thesis using s1(1) True assms(2) by (simp add: send_alive_def)
qed

subsection \<open>One client\<close>

text \<open>What the pass makes of a client: the entry afterwards and whether the authorization is withdrawn.\<close>

definition silent :: "ia_env \<Rightarrow> ia \<Rightarrow> ia_user \<Rightarrow> bool" where
  "silent A s e \<longleftrightarrow> iu_phase e = 3 \<and> elapsed A (iu_phaseTime e) (ias_userTimeout (ia_settings s))"

definition phase_after :: "ia_env \<Rightarrow> ia \<Rightarrow> ia_user \<Rightarrow> int option" where
  "phase_after A s e =
     (if silent A s e \<or> iu_phase e = 2 \<and> elapsed A (iu_phaseTime e) (ias_userDelay (ia_settings s)) then None
      else if iu_phase e = 4 \<and> elapsed A (iu_phaseTime e) (ias_userDelay (ia_settings s)) then Some 3
      else Some (iu_phase e))"

definition one_pass :: "ia_env \<Rightarrow> u32 \<Rightarrow> ia_user \<Rightarrow> iasys \<Rightarrow> iasys \<Rightarrow> bool" where
  "one_pass A ip e = (\<lambda>(s, us) (s', us'). ia_settings s' = ia_settings s \<and> (\<forall>q. q \<noteq> ip \<longrightarrow> ip_find q s' = ip_find q s)
     \<and> clients s' ip = map_option (\<lambda>n. (iu_user e, iu_login e, n)) (phase_after A s e)
     \<and> (if silent A s e then logged_out (ie_self A) (iu_user e) us us' else us' = us))"

lemma ip_upd_settings [simp]: "ia_settings (ip_upd ip f s) = ia_settings s" "ia_settings (ip_erase ip s) = ia_settings s"
  by (simp_all add: ip_upd_def ip_erase_def)

lemma Timeouter_user_total:
  assumes i: "ia_sys_inv F (ie_self A) (s, us)" and k: "tariffs_known (ie_env A) us" and E: "\<not> e_relock_blocks (ie_env A)"
    and e: "ip_find sip s = Some e"
  shows "\<exists>s' us'. Timeouter_user A sip (s, us) = Some (s', us') \<and> one_pass A sip e (s, us) (s', us') \<and> tariffs_known (ie_env A) us'"
proof (cases "iu_phase e = 3")
  case False
  have inv: "ips_ok (ia_ip2user s)" using i by (simp add: ia_sys_inv_def)
  then show ?thesis
    using False e k
    by (auto simp: Timeouter_user_def one_pass_def Let_def phase_after_def silent_def clients_def client_view_def SetPhase_def)
next
  case True
  have inv: "ia_inv s" "users_inv F us" "ia_link (ie_self A) s us" using i by (simp_all add: ia_sys_inv_def)
  note c = clients_find [OF e]
  have on: "online (ie_self A) sip (iu_user e) (iu_login e) us" using ia_linkD(2) [OF inv(3) c] True by simp
  then obtain u where u: "user_at (iu_user e) us = Some u" "ie_self A \<in> set (u_authorizedBy u)" by (auto simp: online_def auths_def)
  have l: "u_login u = iu_login e" using ia_linkD(1) [OF inv(3) c] u(1) by (simp add: login_of_def)
  then have idx: "us_loginIndex us (u_login u) = Some (iu_user e)" using on by (simp add: online_def)
  have tf: "tariff_of (ie_env A) u \<noteq> None" using k u(1) by (auto simp: tariffs_known_def)
  obtain s1 where s1: "send_first_message A sip (s, us) = Some (s1, us)" "touches sip s s1" using send_first_message_total [OF inv(1) e] by blast
  have inv1: "ia_inv s1" using send_first_message_quiet [OF s1(1)] inv(1) by (simp add: quietD)
  obtain e1 where e1: "ip_find sip s1 = Some e1" "iu_user e1 = iu_user e" using s1(2) e by (auto simp: touches_def)
  obtain s2 where s2: "send_alive A sip (s1, us) = Some (s2, us)" "touches sip s1 s2" using send_alive_total [OF inv1 e1(1) _ tf] u(1) e1(2) by auto
  have t: "touches sip s s2" by (rule touches_trans [OF s1(2) s2(2)])
  have inv2: "ips_ok (ia_ip2user s2)" using send_alive_quiet [OF s2(1) inv1] inv1 by (simp add: quietD)
  obtain e2 where e2: "ip_find sip s2 = Some e2" "iu_user e2 = iu_user e" "iu_login e2 = iu_login e" "iu_phase e2 = 3" "iu_phaseTime e2 = iu_phaseTime e"
    using t e True by (auto simp: touches_def)
  obtain us' where us': "Users_Unauthorize (ie_env A) (u_login u) (ie_self A) '''' us = Some (True, us')" "tariffs_known (ie_env A) us'"
    using Users_Unauthorize_total [OF inv(2) idx u(1) _ E, of "ie_self A" "''''"] u(2) k by (cases "u_authorizedBy u") auto
  have out: "logged_out (ie_self A) (iu_user e) us us'" using Users_Unauthorize_effect [OF us'(1)] idx by simp
  have set: "ia_settings s2 = ia_settings s" "\<And>q. q \<noteq> sip \<Longrightarrow> ip_find q s2 = ip_find q s" using t by (simp_all add: touches_def)
  show ?thesis
    using True e s1(1) s2(1) e2 us' out u(1) k inv2 set
    by (auto simp: Timeouter_user_def one_pass_def Let_def phase_after_def silent_def clients_def client_view_def)
qed

subsection \<open>The whole pass\<close>

text \<open>All clients in the list get what the pass makes of them, the others stay.\<close>

definition whole_pass :: "ia_env \<Rightarrow> u32 list \<Rightarrow> iasys \<Rightarrow> iasys \<Rightarrow> bool" where
  "whole_pass A ips = (\<lambda>(s, us) (s', us').
     (\<forall>ip. clients s' ip = (if ip \<in> set ips
        then ip_find ip s \<bind> (\<lambda>e. map_option (\<lambda>n. (iu_user e, iu_login e, n)) (phase_after A s e)) else clients s ip))
     \<and> (\<forall>j. auths us' j = (if \<exists>ip\<in>set ips. \<exists>e. ip_find ip s = Some e \<and> silent A s e \<and> iu_user e = j
        then map_option (remove1 (ie_self A)) (auths us j) else auths us j)))"

text \<open>Two clients in phase 3 or 4 have different users.\<close>

lemma online_users:
  assumes "ia_link a s us" and "ip_find p s = Some e" "ip_find q s = Some e'" "iu_phase e \<in> {3, 4}" "iu_phase e' \<in> {3, 4}" "iu_user e = iu_user e'"
  shows "p = q"
proof -
  have "online a p (iu_user e) (iu_login e) us" "online a q (iu_user e') (iu_login e') us"
    using assms ia_linkD(2) [OF assms(1)] by (auto dest!: clients_find)
  then show ?thesis using assms(6) by (auto simp: online_def)
qed

lemma whole_pass_Cons:
  assumes l: "ia_link (ie_self A) s us" and e: "ip_find ip s = Some e" and d: "ip \<notin> set ips"
    and 1: "one_pass A ip e (s, us) (s1, us1)" and 2: "whole_pass A ips (s1, us1) (s', us')"
  shows "whole_pass A (ip # ips) (s, us) (s', us')"
proof -
  have st: "ia_settings s1 = ia_settings s" and other: "\<And>q. q \<noteq> ip \<Longrightarrow> ip_find q s1 = ip_find q s" using 1 by (simp_all add: one_pass_def)
  have same: "silent A s1 = silent A s" "phase_after A s1 = phase_after A s" by (simp_all add: fun_eq_iff silent_def phase_after_def st)
  have "clients s' q = (if q \<in> set (ip # ips) then ip_find q s \<bind> (\<lambda>e. map_option (\<lambda>n. (iu_user e, iu_login e, n)) (phase_after A s e)) else clients s q)" for q
    using 1 2 e d other [of q] by (cases "q = ip") (auto simp: one_pass_def whole_pass_def same clients_def)
  moreover have "auths us' j = (if \<exists>q\<in>set (ip # ips). \<exists>e. ip_find q s = Some e \<and> silent A s e \<and> iu_user e = j
        then map_option (remove1 (ie_self A)) (auths us j) else auths us j)" for j
  proof -
    have ex: "(\<exists>q\<in>set ips. \<exists>e. ip_find q s1 = Some e \<and> silent A s e \<and> iu_user e = j) = (\<exists>q\<in>set ips. \<exists>e. ip_find q s = Some e \<and> silent A s e \<and> iu_user e = j)"
      using other d by metis
    have no: "\<not> (\<exists>q\<in>set ips. \<exists>e'. ip_find q s = Some e' \<and> silent A s e' \<and> iu_user e' = j)" if "silent A s e" "iu_user e = j"
      using online_users [OF l e] that d by (auto simp: silent_def)
    have a2: "auths us' j = (if \<exists>q\<in>set ips. \<exists>e. ip_find q s = Some e \<and> silent A s e \<and> iu_user e = j
        then map_option (remove1 (ie_self A)) (auths us1 j) else auths us1 j)"
      using 2 by (simp add: whole_pass_def same ex)
    have a1: "auths us1 j = (if silent A s e \<and> iu_user e = j then map_option (remove1 (ie_self A)) (auths us j) else auths us j)"
      using 1 by (auto simp: one_pass_def logged_out_def split: if_splits)
    show ?thesis using a1 a2 no e by auto
  qed
  ultimately show ?thesis by (simp add: whole_pass_def)
qed

lemma Timeouter_loop_total:
  assumes F: "e_FindTariff (ie_env A) = F" and E: "\<not> e_relock_blocks (ie_env A)"
  shows "ia_sys_inv F (ie_self A) (s, us) \<Longrightarrow> tariffs_known (ie_env A) us \<Longrightarrow> distinct ips \<Longrightarrow> (\<forall>ip\<in>set ips. ip_find ip s \<noteq> None) \<Longrightarrow>
    \<exists>s' us'. Timeouter_loop A ips (s, us) = Some (s', us') \<and> whole_pass A ips (s, us) (s', us')"
proof (induction ips arbitrary: s us)
  case Nil
  then show ?case by (simp add: whole_pass_def)
next
  case (Cons ip ips)
  obtain e where e: "ip_find ip s = Some e" using Cons.prems(4) by auto
  obtain s1 us1 where 1: "Timeouter_user A ip (s, us) = Some (s1, us1)" "one_pass A ip e (s, us) (s1, us1)" "tariffs_known (ie_env A) us1"
    using Timeouter_user_total [OF Cons.prems(1,2) E e] by blast
  note i1 = Timeouter_user_sys [OF Cons.prems(1) F 1(1)]
  have "ip_find q s1 = ip_find q s" if "q \<noteq> ip" for q using 1(2) that by (simp add: one_pass_def)
  then have "\<forall>q\<in>set ips. ip_find q s1 \<noteq> None" using Cons.prems(3,4) by (metis distinct.simps(2) list.set_intros(2))
  with Cons.IH [OF i1 1(3)] Cons.prems(3) obtain s' us' where
    2: "Timeouter_loop A ips (s1, us1) = Some (s', us')" "whole_pass A ips (s1, us1) (s', us')" by auto
  have "whole_pass A (ip # ips) (s, us) (s', us')"
    using whole_pass_Cons [OF _ e _ 1(2) 2(2)] Cons.prems(1,3) by (simp add: ia_sys_inv_def)
  then show ?case using 1(1) 2(1) by simp
qed

end
