(* ===== verification/Stg_IAThms.thy ===== *)
theory Stg_IAThms
  imports Stg_IAWire Stg_IATimeout
begin

text \<open>
  Both sides of the InetAccess protocol together: a client that asks for a connection gets it; and what goes wrong when packets are
  short, unreadable or come in another order. The other theorems on the plugin get their examples here.
\<close>

subsection \<open>The handshake\<close>

lemma may_connect_upd:
  assumes "may_connect A login sip i u us" and "upd_user i (u\<lparr>trace := []\<rparr>) us us'"
  shows "may_connect A login sip i (u\<lparr>trace := []\<rparr>) us'"
  using assms by (auto simp: may_connect_def upd_user_def)

lemma invited_trace: "invited A sport i (u\<lparr>trace := []\<rparr>) rnd e = invited A sport i u rnd e"
  by (simp add: invited_def)


subsection \<open>A sample exchange\<close>

text \<open>The plugin with the number 1 and a registry with one user, who may connect from any address.\<close>

definition sample_ia_env :: ia_env where
  "sample_ia_env = \<lparr>ie_env = sample_users_env, ie_now = UTIME 1000 0, ie_random = (\<lambda>n. of_nat n), ie_send = (\<lambda>_. True), ie_self = 1,
     ie_text = (\<lambda>_. ''error''), ie_dirName = (\<lambda>_. ''dir''), ie_monitoring = False, ie_monitorDir = ''''\<rparr>"

definition sample_client :: ia_client where
  "sample_client = (IA_CLIENT_PROT 0 ''server'' 5555 '''' 0)\<lparr>ic_isNetPrepared := True\<rparr>"

definition sample_client_env :: client_env where
  "sample_client_env = \<lparr>ce_tick = 0, ce_resolve = (\<lambda>_. Some 1), ce_bind = True, ce_fcntl = True\<rparr>"

lemma sample_member:
  obtains u where "user_at 0 sample_users = Some u" "us_users sample_users = [u]" "may_connect sample_ia_env ''u'' 5 0 u sample_users" "fresh_user u"
    "u_tariff u \<noteq> None" "u_login u = ''u''" "uc_password (u_conf u) = ''''"
proof -
  have "\<exists>u. us_users sample_users = [u] \<and> u_id u = 0 \<and> u_login u = ''u'' \<and> u_authorizedBy u = [] \<and> u_messages u = [] \<and> \<not> u_locked u
     \<and> uc_ips (u_conf u) = [\<lparr>im_ip = 0, im_mask = 0\<rparr>] \<and> u_tariff u \<noteq> None \<and> \<not> is_disabled u \<and> \<not> is_passive u \<and> uc_password (u_conf u) = ''''"
    by (simp add: sample_users_simps UserConf_def)
  then obtain u where u: "us_users sample_users = [u]" "u_id u = 0" "u_login u = ''u''" "u_authorizedBy u = []" "u_messages u = []" "\<not> u_locked u"
     "uc_ips (u_conf u) = [\<lparr>im_ip = 0, im_mask = 0\<rparr>]" "u_tariff u \<noteq> None" "\<not> is_disabled u" "\<not> is_passive u" "uc_password (u_conf u) = ''''" by blast
  moreover have "user_at 0 sample_users = Some u" using u(1,2) by (simp add: user_at_def)
  ultimately show thesis
    using that [of u] sample_users_fields(2-4)
    by (auto simp: may_connect_def fresh_user_def c_text_def byte_of_def UserIPs_find_def)
qed

lemma AUTH_IA_link: "users_inv F us \<Longrightarrow> (\<And>u. u \<in> set (us_users us) \<Longrightarrow> u_currIP u = 0) \<Longrightarrow> ia_link a (AUTH_IA tr) us"
  by (auto simp: ia_link_def clients_def AUTH_IA_def addr_def dest: user_at_SomeD)

lemma sample_ia_reach: "ia_reach (e_FindTariff sample_users_env) (ie_self sample_ia_env) (AUTH_IA [], sample_users)"
proof (rule ia_new)
  show "ia_link (ie_self sample_ia_env) (AUTH_IA []) sample_users"
    using sample_users_fields(1) by (intro AUTH_IA_link [OF sample_users_inv]) auto
qed (rule sample_users_inv)


text \<open>The states of the plugin after the request and after the acknowledgement.\<close>

lemma ia_next_datagram:
  assumes "ia_reach F (ie_self A) st" and "e_FindTariff (ie_env A) = F" and "\<not> ie_monitoring A" and "RecvData A r b st = Some (rc, b', st')"
  shows "ia_reach F (ie_self A) st'"
proof -
  obtain s us where st': "st' = (s, us)" by fastforce
  have "IA_Run_turn A r (b, 0) st = Some ((b', 0), st')" using assms(3,4) by (simp add: IA_Run_turn_def st')
  from ia_run [OF this _ assms(2)] show ?thesis using ia_next [OF assms(1)] by simp
qed

lemma sample_invited:
  obtains b1 s1 us1 e u where "ia_reach (e_FindTariff sample_users_env) (ie_self sample_ia_env) (s1, us1)" "length (b1 :: bytes) = 512" "ip_find 5 s1 = Some e"
    "invited sample_ia_env 6 0 u 1 e" "may_connect sample_ia_env ''u'' 5 0 u us1" "fresh_user u" "us_ipIndex us1 5 = None" "u_login u = ''u''"
    "user_at 0 us1 = Some u" "tariff_of sample_users_env u \<noteq> None" "uc_password (u_conf u) = ''''" "us_loginIndex us1 = [''u'' \<mapsto> 0]"
    "\<forall>i v. user_at i us1 = Some v \<longrightarrow> v = u"
proof -
  obtain u where u: "may_connect sample_ia_env ''u'' 5 0 u sample_users" "fresh_user u" "user_at 0 sample_users = Some u" "u_tariff u \<noteq> None" "u_login u = ''u''"
      "uc_password (u_conf u) = ''''" "us_users sample_users = [u]"
    by (rule sample_member)
  have s: "ip_find 5 (AUTH_IA []) = None" "us_ipIndex sample_users 5 = None" "ia_draws (AUTH_IA []) = 0"
    using sample_users_fields(3) by (simp_all add: AUTH_IA_def)
  from server_invites [OF ia_reach_sys [OF sample_ia_reach] u(1,2) s(1,2) _ refl, of "replicate 512 0" "[]" 6] s(3)
  obtain rc1 b1 s1 us1 e where
    r: "RecvData sample_ia_env (Datagram (wire ''u'' (key_of (uc_password (u_conf u))) (conn_syn_body ''u'' [])) 5 6) (replicate 512 0) (AUTH_IA [], sample_users)
          = Some (rc1, b1, s1, us1)" "length b1 = 512" "ip_find 5 s1 = Some e" "invited sample_ia_env 6 0 u (ie_random sample_ia_env 1) e"
       "upd_user 0 (u\<lparr>trace := []\<rparr>) sample_users us1"
    by auto
  let ?u = "u\<lparr>trace := []\<rparr>"
  have re: "ia_reach (e_FindTariff sample_users_env) (ie_self sample_ia_env) (s1, us1)"
    using ia_next_datagram [OF sample_ia_reach _ _ r(1)] by (simp add: sample_ia_env_def)
  have fr: "fresh_user ?u" "us_ipIndex us1 5 = None" "user_at 0 us1 = Some ?u" "us_loginIndex us1 = [''u'' \<mapsto> 0]"
    using u(2) r(5) s(2) sample_users_fields(2) by (simp_all add: fresh_user_def upd_user_def)
  have one: "\<forall>i v. user_at i us1 = Some v \<longrightarrow> v = ?u" using r(5) u(7) by (auto simp: upd_user_def user_at_def split: if_splits)
  have inv: "invited sample_ia_env 6 0 ?u 1 e" using r(4) by (simp add: invited_trace sample_ia_env_def)
  show thesis
    by (rule that [of s1 us1 b1 e ?u, OF re r(2,3) inv may_connect_upd [OF u(1) r(5)] fr(1,2) _ fr(3) _ _ fr(4) one])
      (use u(4,5,6) in \<open>simp_all add: tariff_of_def\<close>)
qed

lemma sample_acknowledged:
  obtains s us e b u where "ia_reach (e_FindTariff sample_users_env) (ie_self sample_ia_env) (s, us)" "length (b :: bytes) = 512" "ip_find 5 s = Some e"
    "fresh_user u" "user_at 0 us = Some u" "\<exists>d rc b' s' us' e' v. RecvData sample_ia_env (Datagram d 5 6) b (s, us) = Some (rc, b', s', us')
       \<and> ip_find 5 s' = Some e' \<and> iu_phase e' = 3 \<and> iu_user e' = 0 \<and> user_at 0 us' = Some v \<and> u_currIP v = 5 \<and> u_authorizedBy v = [1]
       \<and> may_connect sample_ia_env ''u'' 5 0 v us' \<and> uc_password (u_conf v) = ''''"
proof -
  obtain b s us e u where r: "ia_reach (e_FindTariff sample_users_env) (ie_self sample_ia_env) (s, us)" "length (b :: bytes) = 512" "ip_find 5 s = Some e"
    "invited sample_ia_env 6 0 u 1 e" "may_connect sample_ia_env ''u'' 5 0 u us" "fresh_user u" "us_ipIndex us 5 = None" "u_login u = ''u''"
    "user_at 0 us = Some u" "tariff_of sample_users_env u \<noteq> None" "uc_password (u_conf u) = ''''" by (rule sample_invited)
  have inv: "ia_inv s" using ia_reach_sys [OF r(1)] by (simp add: ia_sys_inv_def)
  have p: "(5 :: u32) \<noteq> 0" "\<not> e_relock_blocks (ie_env sample_ia_env)" "tariff_of (ie_env sample_ia_env) u \<noteq> None" "256 \<le> length b" "ie_self sample_ia_env = 1"
    using r(2,10) by (simp_all add: sample_ia_env_def) (simp add: sample_users_env_def)
  have "may_connect sample_ia_env ''u'' 5 0 v us'" if "user_at 0 us' = Some v" "u_conf v = u_conf u" "us_loginIndex us' = us_loginIndex us" "\<not> us_locked us'" for v us'
    using r(5) that by (simp add: may_connect_def)
  then show thesis
    using server_authorizes [OF inv r(3-7) p(1-4) refl r(8)] r(11) unfolding p(5) by (intro that [OF r(1,2,3,6,9)]) metis
qed

lemma sample_session:
  obtains s us e v where "ia_reach (e_FindTariff sample_users_env) (ie_self sample_ia_env) (s, us)" "ip_find 5 s = Some e" "iu_phase e = 3"
    "iu_user e = 0"
    "user_at 0 us = Some v" "u_authorizedBy v = [1]" "may_connect sample_ia_env ''u'' 5 0 v us" "uc_password (u_conf v) = ''''"
proof -
  obtain s us b where r: "ia_reach (e_FindTariff sample_users_env) (ie_self sample_ia_env) (s, us)"
    and a: "\<exists>d rc b' s' us' e' v. RecvData sample_ia_env (Datagram d 5 6) b (s, us) = Some (rc, b', s', us')
       \<and> ip_find 5 s' = Some e' \<and> iu_phase e' = 3 \<and> iu_user e' = 0 \<and> user_at 0 us' = Some v \<and> u_currIP v = 5 \<and> u_authorizedBy v = [1]
       \<and> may_connect sample_ia_env ''u'' 5 0 v us' \<and> uc_password (u_conf v) = ''''"
    by (rule sample_acknowledged)
  have E: "e_FindTariff (ie_env sample_ia_env) = e_FindTariff sample_users_env" "\<not> ie_monitoring sample_ia_env" by (simp_all add: sample_ia_env_def)
  show thesis using a that ia_next_datagram [OF r E] by blast
qed

subsection \<open>Authorizations\<close>







subsection \<open>Short, unreadable and late packets\<close>

lemma RecvData_header:
  assumes d: "d \<noteq> []" "length d \<le> 256" "256 \<le> length buffer" and h: "take 40 (put_bytes 0 d buffer) = wire login key []"
    and s: "ia_ctxS s = header_key" and m: "may_connect A login sip i u us"
  shows "RecvData A (Datagram d sip sport) buffer (s, us) = PacketProcessor A (put_bytes 0 d buffer) (of_nat (length d)) sip sport 8 u (s, us)"
proof -
  define b where "b = put_bytes 0 d buffer"
  have l: "40 \<le> length b" using d by (simp add: b_def)
  have w: "length (wire login key []) = 40" by (simp add: length_wire)
  have b: "arrived (wire login key []) b = b"
    using h w append_take_drop_id [of 40 b] by (simp add: arrived_def put_bytes_def b_def)
  have t: "take (length buffer) d = d" using d by simp
  have f: "Users_FindByName (ie_env A) login us = Some ((0, Some i), us)"
    using m by (simp add: may_connect_def Users_FindByName_def FindByNameNonLock_def users_locked_def)
  have c: "cstring (strncpy 32 login) = login" "0 \<in> set (strncpy 32 login)"
    using m cstring_strncpy [of login 32] by (simp_all add: may_connect_def)
  have "process_datagram A b (length d) sip sport 8 (s, us) = PacketProcessor A b (of_nat (length d)) sip sport 8 u (s, us)"
    using Decrypt_wire(1) [of "[]" b login key] b l f c m by (simp add: process_datagram_def s PASSWD_LEN_def may_connect_def)
  then show ?thesis
    using t d CheckHeader_wire [of "[]" b login key sip s] b l by (simp add: RecvData_def b_def [symmetric])
qed

lemma known_client:
  assumes "ia_inv s" and "ip_find sip s = Some e" "iu_user e = i" "user_at i us = Some u"
  shows "client_entry A sip sport 8 u (s, us) = Some (Inr (s, us))"
    "\<exists>e'. ip_find sip (refresh_password sip u s) = Some e' \<and> iu_ctx e' = key_of (uc_password (u_conf u))"
proof -
  show "client_entry A sip sport 8 u (s, us) = Some (Inr (s, us))" using assms(2-4) by (simp add: client_entry_def)
  have "iu_ctx e = key_of (iu_password e)" using assms(1,2) by (simp add: ia_inv_def client_ok_def)
  then show "\<exists>e'. ip_find sip (refresh_password sip u s) = Some e' \<and> iu_ctx e' = key_of (uc_password (u_conf u))"
    using assms(1,2) by (auto simp: refresh_password_def key_of_def)
qed

text \<open>C29. A datagram that is shorter than the header (8 bytes and the login) brings the server down: while the buffer still holds the header of an
  earlier packet from a user with a client at the address, any datagram of fewer than 40 bytes that agrees with it (one byte is
  enough) makes the number of bytes to decipher wrap around, and the server reads and writes behind its buffer.\<close>

theorem ia_short_datagram:
  assumes "ia_reach F (ie_self A) (s, us)" and "may_connect A login sip i u us" and "ip_find sip s = Some e" and "iu_user e = i"
    and "256 \<le> length buffer" and "length buffer < 2 ^ 63" and "take 40 buffer = wire login key []" and "0 < n" and "n < 40"
  shows "RecvData A (Datagram (take n buffer) sip sport) buffer (s, us) = None"
proof -
  have inv: "ia_inv s" using ia_reach_sys [OF assms(1)] by (simp add: ia_sys_inv_def)
  have d: "take n buffer \<noteq> []" "length (take n buffer) = n" using assms(5,8,9) by auto
  have b: "put_bytes 0 (take n buffer) buffer = buffer" using d(2) by (simp add: put_bytes_def)
  have "RecvData A (Datagram (take n buffer) sip sport) buffer (s, us) = PacketProcessor A buffer (of_nat n) sip sport 8 u (s, us)"
    using RecvData_header [OF d(1) _ assms(5) _ _ assms(2), of key s sport] inv assms(7,9) d(2) by (simp add: b ia_inv_def header_key_def)
  moreover obtain e' where e': "ip_find sip (refresh_password sip u s) = Some e'"
    using known_client(2) [OF inv assms(3,4)] assms(2) by (auto simp: may_connect_def)
  have "unat (of_nat n - 40 :: u64) = 2 ^ 64 + n - 40"
    using assms(9) by (simp add: unat_sub_if_size unat_of_nat take_bit_nat_eq_self word_size)
  then have "length (drop 40 buffer) < up8 (unat (of_nat n - 40 :: u64))" using assms(6,8) by (simp add: up8_def)
  then have "DecryptString (iu_ctx e') (unat (of_nat n - of_nat ia_offset :: u64)) (drop ia_offset buffer) = None"
    by (simp add: ia_offset_def DecryptString_overrun)
  ultimately show ?thesis
    using known_client(1) [OF inv assms(3,4), of us u A sport] e' assms(2) by (simp add: PacketProcessor_def may_connect_def Let_def)
qed


theorem ia_short_datagram_witness:
  "\<exists>s us. RecvData sample_ia_env (Datagram [0x30] 5 6) (wire ''u'' header_key [] @ replicate 216 0) (s, us) = None
     \<and> ia_reach (e_FindTariff sample_users_env) 1 (s, us)"
proof -
  obtain b s us e u where r: "ia_reach (e_FindTariff sample_users_env) (ie_self sample_ia_env) (s, us)" "length (b :: bytes) = 512" "ip_find 5 s = Some e"
    "invited sample_ia_env 6 0 u 1 e" "may_connect sample_ia_env ''u'' 5 0 u us" by (rule sample_invited)
  have "length (wire ''u'' header_key []) = 40" by (simp add: length_wire)
  then have "take 40 (wire ''u'' header_key [] @ replicate 216 0) = wire ''u'' header_key []" "length (wire ''u'' header_key [] @ replicate 216 0) = 256"
    "take 1 (wire ''u'' header_key [] @ replicate 216 0) = [0x30]" by simp_all (simp add: wire_def)
  moreover have "iu_user e = 0" using r(4) by (simp add: invited_def)
  ultimately have "RecvData sample_ia_env (Datagram [0x30] 5 6) (wire ''u'' header_key [] @ replicate 216 0) (s, us) = None"
    using ia_short_datagram [OF r(1,5,3), of "wire ''u'' header_key [] @ replicate 216 0" header_key 1 6] by simp
  then show ?thesis using r(1) by (auto simp: sample_ia_env_def)
qed


text \<open>Of two answers the second is lost: the type of a packet is copied without its terminator into a buffer that was encrypted in place for the
  previous answer, so the second client finds the name \<open>CONN_SYN_ACK\<close> followed by bytes of the first answer and ignores the packet (unless the
  first of these bytes happens to be zero, or the answer happens to look like an error report).\<close>

theorem ia_stale_reply:
  assumes "ia_reach F a (s, us)" and "ip_find p s = Some e1" and "Send_CONN_SYN_ACK_8 A p s = Some (rc1, s1)"
    and "ip_find q s1 = Some e2" and "Send_CONN_SYN_ACK_8 A q s1 = Some (rc2, s2)" and "ic_ctxPass c = iu_ctx e2" and "length stack = 2048"
  shows "\<exists>r1 r2. ia_sent s2 = ia_sent s @ [(p, iu_port e1, r1), (q, iu_port e2, r2)]
    \<and> (r1 ! 24 = 0 \<or> take 4 (drop 12 r2) = text_bytes ''ERR'' @ [0] \<or> NetRecv C (Some r2) stack c = Some (None, c))"
proof -
  have inv: "ia_inv s" using ia_reach_sys [OF assms(1)] by (simp add: ia_sys_inv_def)
  then have inv1: "ia_inv s1" using Send_keeps(2) [OF inv, of A p] assms(3) by (simp add: keeps_def)
  define P where "P = conn_syn_ack8 A s1"
  define r1 where "r1 = ecb (EncryptBlock (iu_ctx e1)) (conn_syn_ack8 A s)"
  define r2 where "r2 = ecb (EncryptBlock (ic_ctxPass c)) P"
  have s1: "s1 = snd (IA_Send A p (iu_port e1) r1 ((drawn A p s)\<lparr>ia_connSynAck8 := r1\<rparr>))"
    using assms(3) Send_CONN_SYN_ACK_8_eq [OF inv assms(2), of A] by (simp add: r1_def Let_def)
  have s2: "s2 = snd (IA_Send A q (iu_port e2) r2 ((drawn A q s1)\<lparr>ia_connSynAck8 := r2\<rparr>))"
    using assms(5,6) Send_CONN_SYN_ACK_8_eq [OF inv1 assms(4), of A] by (simp add: r2_def P_def Let_def)
  have lP: "length P = 200" using length_conn_syn_ack(2) [OF inv1] by (simp add: P_def)
  note f = conn_syn_ack8_fields [OF inv1, of A, folded P_def]
  have b: "ia_connSynAck8 s1 = r1" "length r1 = 200"
    using ia_inv_lengths(2) [OF inv1] by (simp_all add: s1 IA_Send_def)
  have "get_bytes 24 4 P ! 0 = get_bytes 24 4 r1 ! 0" using f(2) b(1) by simp
  then have p24: "P ! 24 = r1 ! 24" using lP b(2) by (simp add: get_bytes_def)
  have "get_bytes 199 1 P ! 0 = P ! 199" using lP by (simp add: get_bytes_def)
  then have "0 \<in> set (drop 12 P)" using f(6) lP in_set_conv_nth [of 0 "drop 12 P"] by (auto intro!: exI [of _ 187])
  moreover have "c_text ''CONN_SYN_ACK''" by (simp add: c_text_def byte_of_def)
  ultimately have name: "\<exists>x xs. text_at (P @ junk) 12 = Some (''CONN_SYN_ACK'' @ x # xs)" if "r1 ! 24 \<noteq> 0" for junk
    using text_at_name(2) [of "''CONN_SYN_ACK''" 12 P junk] f(1) lP p24 that by simp
  have none: "client_packetTypes (''CONN_SYN_ACK'' @ x # xs) = None" for x xs by (simp add: client_packetTypes_def packetTypes_def)
  have "NetRecv C (Some r2) stack c = Some (None, c)" if r: "r1 ! 24 \<noteq> 0" "take 4 (drop 12 r2) \<noteq> text_bytes ''ERR'' @ [0]"
  proof -
    obtain junk where "client_Recv (Some r2) stack c = Some (Some (P @ junk))"
      using client_opens [OF lP _ _ assms(7), of c] r(2) by (auto simp: r2_def)
    moreover obtain x xs where "text_at (P @ junk) 12 = Some (''CONN_SYN_ACK'' @ x # xs)" using name [OF r(1)] by blast
    ultimately show ?thesis using none [of x xs] unfolding NetRecv_def by simp
  qed
  moreover have "ia_sent s2 = ia_sent s @ [(p, iu_port e1, r1), (q, iu_port e2, r2)]"
    unfolding s2 by (simp add: IA_Send_def drawn_def ip_upd_def) (simp add: s1 IA_Send_def drawn_def ip_upd_def)
  ultimately show ?thesis by blast
qed

theorem ia_stale_reply_witness:
  "\<exists>s us e s1 s2 r1 r2 rc1 rc2. ia_reach (e_FindTariff sample_users_env) 1 (s, us) \<and> ip_find 5 s = Some e
     \<and> Send_CONN_SYN_ACK_8 sample_ia_env 5 s = Some (rc1, s1) \<and> Send_CONN_SYN_ACK_8 sample_ia_env 5 s1 = Some (rc2, s2)
     \<and> ia_sent s2 = ia_sent s @ [(5, iu_port e, r1), (5, iu_port e, r2)]
     \<and> (r1 ! 24 = 0 \<or> take 4 (drop 12 r2) = text_bytes ''ERR'' @ [0]
        \<or> NetRecv sample_client_env (Some r2) (replicate 2048 0) (sample_client\<lparr>ic_ctxPass := iu_ctx e\<rparr>)
          = Some (None, sample_client\<lparr>ic_ctxPass := iu_ctx e\<rparr>))"
proof -
  obtain b s us e u where r: "ia_reach (e_FindTariff sample_users_env) (ie_self sample_ia_env) (s, us)" "length (b :: bytes) = 512" "ip_find 5 s = Some e"
    by (rule sample_invited)
  have inv: "ia_inv s" using ia_reach_sys [OF r(1)] by (simp add: ia_sys_inv_def)
  obtain rc1 s1 where s1: "Send_CONN_SYN_ACK_8 sample_ia_env 5 s = Some (rc1, s1)"
    using Send_CONN_SYN_ACK_8_eq [OF inv r(3), of sample_ia_env] by (auto simp: Let_def IA_Send_def)
  have inv1: "ia_inv s1" using Send_keeps(2) [OF inv, of sample_ia_env 5] s1 by (simp add: keeps_def)
  have e1: "ip_find 5 s1 = Some (e\<lparr>iu_rnd := ie_random sample_ia_env (ia_draws s)\<rparr>)"
    using s1 Send_CONN_SYN_ACK_8_eq [OF inv r(3), of sample_ia_env] inv r(3) by (auto simp: Let_def IA_Send_def)
  obtain rc2 s2 where s2: "Send_CONN_SYN_ACK_8 sample_ia_env 5 s1 = Some (rc2, s2)"
    using Send_CONN_SYN_ACK_8_eq [OF inv1 e1, of sample_ia_env] by (auto simp: Let_def IA_Send_def)
  have "ie_self sample_ia_env = 1" by (simp add: sample_ia_env_def)
  moreover from ia_stale_reply [OF r(1,3) s1 e1 s2, of "sample_client\<lparr>ic_ctxPass := iu_ctx e\<rparr>" "replicate 2048 0" sample_client_env]
  obtain r1 r2 where "ia_sent s2 = ia_sent s @ [(5, iu_port e, r1), (5, iu_port e, r2)]"
    "r1 ! 24 = 0 \<or> take 4 (drop 12 r2) = text_bytes ''ERR'' @ [0]
        \<or> NetRecv sample_client_env (Some r2) (replicate 2048 0) (sample_client\<lparr>ic_ctxPass := iu_ctx e\<rparr>)
          = Some (None, sample_client\<lparr>ic_ctxPass := iu_ctx e\<rparr>)" by auto
  ultimately show ?thesis using r(1,3) s1 s2 by metis
qed

text \<open>C31. A user who asks for a connection and is deleted before it is granted leaves a dangling pointer: a client in phase 1 or 2 has no address in the
  registry, so the plugin does not drop it when the user goes (\<open>DelUser\<close>), and a request of another user from the same address then reads
  the login of the deleted user.\<close>

theorem ia_dangling:
  assumes "ia_reach F (ie_self A) (s, us)" and "ip_find sip s = Some e" and "iu_phase e \<in> {1, 2}" and "user_at (iu_user e) us = Some u" and "u_currIP u = 0"
    and "user_at (iu_user e) us' = None" and "may_connect A login sip i w us'" and "256 \<le> length buffer" and "8 dvd length body" and "length body \<le> 216"
  shows "IA_DelUser A (iu_user e) (s, us) = Some (s, us)
    \<and> RecvData A (Datagram (wire login key body) sip sport) buffer (s, us') = None"
proof
  have "ia_inv s" using ia_reach_sys [OF assms(1)] by (simp add: ia_sys_inv_def)
  moreover have "client_entry A sip sport 8 w (s, us') = None" using assms(2,6) by (simp add: client_entry_def)
  ultimately show "RecvData A (Datagram (wire login key body) sip sport) buffer (s, us') = None"
    using RecvData_wire [OF assms(9,10,8) _ assms(7), of s key sport] by (simp add: ia_inv_def header_key_def PacketProcessor_def)
  show "IA_DelUser A (iu_user e) (s, us) = Some (s, us)" using assms(4,5) by (simp add: IA_DelUser_def)
qed

theorem ia_dangling_witness:
  "\<exists>s us e us'. ia_reach (e_FindTariff sample_users_env) 1 (s, us) \<and> ip_find 5 s = Some e \<and> IA_DelUser sample_ia_env (iu_user e) (s, us) = Some (s, us)
     \<and> RecvData sample_ia_env (Datagram (wire ''v'' header_key []) 5 6) (replicate 512 0) (s, us') = None"
proof -
  obtain b s us e u where r: "ia_reach (e_FindTariff sample_users_env) (ie_self sample_ia_env) (s, us)" "length (b :: bytes) = 512" "ip_find 5 s = Some e"
    "invited sample_ia_env 6 0 u 1 e" "may_connect sample_ia_env ''u'' 5 0 u us" "fresh_user u" "user_at 0 us = Some u" by (rule sample_invited)
  define us' where "us' = us\<lparr>us_users := [u\<lparr>u_id := 1, u_login := ''v''\<rparr>], us_loginIndex := [''v'' \<mapsto> 1]\<rparr>"
  have m: "may_connect sample_ia_env ''v'' 5 1 (u\<lparr>u_id := 1, u_login := ''v''\<rparr>) us'"
    using r(5) by (simp add: may_connect_def us'_def user_at_def c_text_def byte_of_def)
  have e: "iu_phase e \<in> {1, 2}" "iu_user e = 0" using r(4) by (simp_all add: invited_def)
  have n: "user_at (iu_user e) us' = None" by (simp add: e us'_def user_at_def)
  have "user_inv (e_FindTariff sample_users_env) u" using ia_reach_sys [OF r(1)] users_invD(2) [OF _ r(7)] by (auto simp: ia_sys_inv_def)
  then have ip: "u_currIP u = 0" using r(6) by (simp add: user_inv_def sess_def fresh_user_def)
  have u: "user_at (iu_user e) us = Some u" using r(7) e(2) by simp
  from ia_dangling [OF r(1,3) e(1) u ip n m, of "replicate 512 0" "[]" header_key 6]
  have "IA_DelUser sample_ia_env (iu_user e) (s, us) = Some (s, us)
     \<and> RecvData sample_ia_env (Datagram (wire ''v'' header_key []) 5 6) (replicate 512 0) (s, us') = None" by simp
  moreover have "ie_self sample_ia_env = 1" by (simp add: sample_ia_env_def)
  ultimately show ?thesis using r(1,3) by metis
qed

end
