(* ===== verification/Stg_Files.thy ===== *)
theory Stg_Files
  imports Stg_Common "HOL-Library.AList"
begin

text \<open>
  The part of the operating system the file store and the configuration files rely on: a tree of directories and files
  as an association list from paths to nodes, and the system calls the sources make. A path is the list of its
  components, so doubled slashes do not matter. What the kernel decides from outside the program (permissions, identity
  of the process, clock, how much of a text reaches the disk) is the record \<open>os_env\<close>. The order of the list is the order
  in which \<open>readdir\<close> delivers the entries.
\<close>

subsection \<open>Nodes and paths\<close>

record attr =
  at_mode :: nat
  at_uid :: nat
  at_gid :: nat

datatype node = File string (node_attr: attr) | Dir (node_attr: attr)

fun with_attr :: "node \<Rightarrow> attr \<Rightarrow> node" where
  "with_attr (File t _) a = File t a"
| "with_attr (Dir _) a = Dir a"

type_synonym path = "string list"

type_synonym fs = "(path \<times> node) list"

record os_env =
  oe_pid :: int
  oe_now :: time_t
  oe_usec :: int
  oe_localtime :: "time_t \<Rightarrow> tm"
  oe_sec :: "time_t \<Rightarrow> int"
  oe_uid :: nat
  oe_gid :: nat
  oe_umask :: "nat \<Rightarrow> nat"
  oe_read :: "path \<Rightarrow> bool"
  oe_write :: "path \<Rightarrow> bool"
  oe_mkdir :: "path \<Rightarrow> bool"
  oe_rename :: "path \<Rightarrow> path \<Rightarrow> bool"
  oe_unlink :: "path \<Rightarrow> bool"
  oe_rmdir :: "path \<Rightarrow> bool"
  oe_opendir :: "path \<Rightarrow> bool"
  oe_chmod :: "path \<Rightarrow> bool"
  oe_chown :: "path \<Rightarrow> bool"
  oe_disk :: "path \<Rightarrow> string \<Rightarrow> string"
  oe_printf :: "path \<Rightarrow> bool"
  oe_strerror :: string
  oe_inet_addr :: "string \<Rightarrow> u32"
  oe_getpwnam :: "string \<Rightarrow> nat option"
  oe_getgrnam :: "string \<Rightarrow> nat option"

definition path_of :: "string \<Rightarrow> path" where
  "path_of s = strtok CHR ''/'' s"

text \<open>The root is always there.\<close>

definition fs_node :: "fs \<Rightarrow> path \<Rightarrow> node option" where
  "fs_node fs p = (if p = [] then Some (Dir \<lparr>at_mode = 493, at_uid = 0, at_gid = 0\<rparr>) else map_of fs p)"

fun is_dir :: "node option \<Rightarrow> bool" where
  "is_dir (Some (Dir _)) = True"
| "is_dir _ = False"

fun is_file :: "node option \<Rightarrow> bool" where
  "is_file (Some (File _ _)) = True"
| "is_file _ = False"

definition entries :: "fs \<Rightarrow> path \<Rightarrow> string list" where
  "entries fs p = map (last \<circ> fst) (filter (\<lambda>(q, n). q \<noteq> [] \<and> butlast q = p) fs)"

definition set_node :: "path \<Rightarrow> node \<Rightarrow> fs \<Rightarrow> fs" where
  "set_node p n fs = AList.update p n fs"

subsection \<open>System calls\<close>

definition access :: "fs \<Rightarrow> path \<Rightarrow> bool" where
  "access fs p \<longleftrightarrow> fs_node fs p \<noteq> None"

text \<open>Opening for reading. A directory can be opened, but nothing can be read from it.\<close>

definition read_text :: "os_env \<Rightarrow> fs \<Rightarrow> path \<Rightarrow> string option" where
  "read_text oe fs p =
     (if \<not> oe_read oe p then None
      else case fs_node fs p of
        None \<Rightarrow> None
      | Some (File t _) \<Rightarrow> Some t
      | Some (Dir _) \<Rightarrow> Some [])"

definition writable :: "os_env \<Rightarrow> fs \<Rightarrow> path \<Rightarrow> bool" where
  "writable oe fs p \<longleftrightarrow> p \<noteq> [] \<and> oe_write oe p \<and> is_dir (fs_node fs (butlast p)) \<and> \<not> is_dir (fs_node fs p)"

definition new_attr :: "os_env \<Rightarrow> nat \<Rightarrow> attr" where
  "new_attr oe mode = \<lparr>at_mode = oe_umask oe mode, at_uid = oe_uid oe, at_gid = oe_gid oe\<rparr>"

definition file_attr :: "os_env \<Rightarrow> fs \<Rightarrow> path \<Rightarrow> attr" where
  "file_attr oe fs p = (case fs_node fs p of Some n \<Rightarrow> node_attr n | None \<Rightarrow> new_attr oe 438)"

text \<open>Opening for writing (truncating), writing a text and closing.\<close>

definition write_text :: "os_env \<Rightarrow> path \<Rightarrow> string \<Rightarrow> fs \<Rightarrow> fs option" where
  "write_text oe p t fs =
     (if writable oe fs p then Some (set_node p (File (oe_disk oe p t) (file_attr oe fs p)) fs) else None)"

text \<open>Opening for appending.\<close>

definition append_text :: "os_env \<Rightarrow> path \<Rightarrow> string \<Rightarrow> fs \<Rightarrow> fs option" where
  "append_text oe p t fs =
     (if writable oe fs p
      then Some (set_node p (File ((case fs_node fs p of Some (File old _) \<Rightarrow> old | _ \<Rightarrow> []) @ oe_disk oe p t)
        (file_attr oe fs p)) fs)
      else None)"

definition mkdir :: "os_env \<Rightarrow> path \<Rightarrow> nat \<Rightarrow> fs \<Rightarrow> fs option" where
  "mkdir oe p mode fs =
     (if p \<noteq> [] \<and> oe_mkdir oe p \<and> fs_node fs p = None \<and> is_dir (fs_node fs (butlast p))
      then Some (set_node p (Dir (new_attr oe mode)) fs) else None)"

definition under :: "path \<Rightarrow> path \<Rightarrow> bool" where
  "under p q \<longleftrightarrow> take (length p) q = p"

text \<open>A file replaces a file; a directory moves with all it holds to a place that is free or an empty directory.\<close>

definition rename_path :: "os_env \<Rightarrow> path \<Rightarrow> path \<Rightarrow> fs \<Rightarrow> fs option" where
  "rename_path oe a b fs =
     (if a = [] \<or> b = [] \<or> \<not> oe_rename oe a b \<or> \<not> is_dir (fs_node fs (butlast b)) then None
      else case map_of fs a of
        None \<Rightarrow> None
      | Some (File t r) \<Rightarrow>
          if is_dir (map_of fs b) then None
          else if a = b then Some fs
          else Some (set_node b (File t r) (AList.delete a fs))
      | Some (Dir r) \<Rightarrow>
          if a = b then Some fs
          else if under a b \<or> is_file (map_of fs b) \<or> entries fs b \<noteq> [] then None
          else Some (map (\<lambda>(q, n). (if under a q then b @ drop (length a) q else q, n)) (AList.delete b fs)))"

definition unlink :: "os_env \<Rightarrow> path \<Rightarrow> fs \<Rightarrow> fs option" where
  "unlink oe p fs = (if oe_unlink oe p \<and> is_file (map_of fs p) then Some (AList.delete p fs) else None)"

definition rmdir :: "os_env \<Rightarrow> path \<Rightarrow> fs \<Rightarrow> fs option" where
  "rmdir oe p fs =
     (if oe_rmdir oe p \<and> is_dir (map_of fs p) \<and> entries fs p = [] then Some (AList.delete p fs) else None)"

definition opendir :: "os_env \<Rightarrow> fs \<Rightarrow> path \<Rightarrow> string list option" where
  "opendir oe fs p = (if oe_opendir oe p \<and> is_dir (fs_node fs p) then Some (entries fs p) else None)"

definition chmod :: "os_env \<Rightarrow> path \<Rightarrow> nat \<Rightarrow> fs \<Rightarrow> fs" where
  "chmod oe p mode fs =
     (case map_of fs p of
        Some n \<Rightarrow> if oe_chmod oe p then set_node p (with_attr n (node_attr n\<lparr>at_mode := mode\<rparr>)) fs else fs
      | None \<Rightarrow> fs)"

definition chown :: "os_env \<Rightarrow> path \<Rightarrow> nat \<Rightarrow> nat \<Rightarrow> fs \<Rightarrow> fs" where
  "chown oe p uid gid fs =
     (case map_of fs p of
        Some n \<Rightarrow> if oe_chown oe p then set_node p (with_attr n (node_attr n\<lparr>at_uid := uid, at_gid := gid\<rparr>)) fs else fs
      | None \<Rightarrow> fs)"

subsection \<open>Laws of the file tree\<close>

lemma map_of_set_node [simp]: "map_of (set_node p n fs) q = (if q = p then Some n else map_of fs q)"
  by (simp add: set_node_def update_conv')

lemma map_of_delete_node [simp]: "map_of (AList.delete p fs) q = (if q = p then None else map_of fs q)"
  by (simp add: delete_conv')

lemma fs_node_map_of [simp]: "p \<noteq> [] \<Longrightarrow> fs_node fs p = map_of fs p"
  by (simp add: fs_node_def)

lemma fs_node_root [simp]: "is_dir (fs_node fs [])"
  by (simp add: fs_node_def)

lemma is_file_ex: "is_file n \<longleftrightarrow> (\<exists>t a. n = Some (File t a))"
  by (cases n rule: is_file.cases) auto

lemma is_dir_ex: "is_dir n \<longleftrightarrow> (\<exists>a. n = Some (Dir a))"
  by (cases n rule: is_dir.cases) auto

lemma file_not_dir: "is_file n \<Longrightarrow> \<not> is_dir n"
  by (auto simp: is_file_ex is_dir_ex)

lemma with_attr_kind [simp]:
  "is_dir (Some (with_attr n a)) = is_dir (Some n)" "is_file (Some (with_attr n a)) = is_file (Some n)"
  "node_attr (with_attr n a) = a"
  by (cases n; simp)+

text \<open>Changing mode or owner of a node keeps every kind and every text.\<close>

definition node_text :: "node option \<Rightarrow> string option" where
  "node_text n = (case n of Some (File t _) \<Rightarrow> Some t | _ \<Rightarrow> None)"

lemma node_text_simps [simp]:
  "node_text None = None" "node_text (Some (File t a)) = Some t" "node_text (Some (Dir a)) = None"
  by (simp_all add: node_text_def)

lemma node_text_with_attr [simp]: "node_text (Some (with_attr n a)) = node_text (Some n)"
  by (cases n) simp_all

definition same_content :: "fs \<Rightarrow> fs \<Rightarrow> bool" where
  "same_content fs fs' \<longleftrightarrow> (\<forall>q. node_text (map_of fs' q) = node_text (map_of fs q)
     \<and> is_dir (map_of fs' q) = is_dir (map_of fs q))"

lemma same_content_refl [simp]: "same_content fs fs"
  by (simp add: same_content_def)

lemma same_content_trans: "same_content a b \<Longrightarrow> same_content b c \<Longrightarrow> same_content a c"
  by (simp add: same_content_def)

lemma same_content_dir: "same_content fs fs' \<Longrightarrow> is_dir (fs_node fs' p) = is_dir (fs_node fs p)"
  by (cases "p = []") (simp_all add: same_content_def)

lemma chmod_content [simp]: "same_content fs (chmod oe p m fs)"
  by (auto simp: same_content_def chmod_def split: option.splits)

lemma chown_content [simp]: "same_content fs (chown oe p u g fs)"
  by (auto simp: same_content_def chown_def split: option.splits)

lemma file_text: "is_file n \<longleftrightarrow> node_text n \<noteq> None"
  by (cases n rule: is_file.cases) auto

lemma read_text_file: "oe_read oe p \<Longrightarrow> p \<noteq> [] \<Longrightarrow> node_text (map_of fs p) = Some t \<Longrightarrow> read_text oe fs p = Some t"
  by (auto simp: read_text_def node_text_def split: option.splits node.splits)

end
