(* ===== verification/Stg_ConfFile.thy ===== *)
theory Stg_ConfFile
  imports Stg_Rules Stg_Files
begin

text \<open>
  The configuration files of \<open>libs/conffiles/conffiles.cpp\<close>: the class \<open>CONFIGFILE\<close> with its parser, the typed reads and
  writes and the flush through a temporary file. Keys are ordered and compared without regard to case. The number
  parsers of the C library (\<open>strtol\<close>, \<open>strtoul\<close>, \<open>strtod\<close>) are given with their saturation; \<open>strtod\<close> answers \<open>None\<close> for
  infinity and NaN, which the model of doubles does not have.
\<close>

subsection \<open>Numbers of the C library\<close>

definition c_str :: "string \<Rightarrow> string" where
  "c_str s = takeWhile (\<lambda>c. c \<noteq> CHR 0x00) s"

definition strtol :: "string \<Rightarrow> int \<times> string" where
  "strtol s = (let (v, rest) = strtol10 s in (max (- (2 ^ 63)) (min (2 ^ 63 - 1) v), rest))"

text \<open>\<open>strtoul\<close> negates modulo \<open>2 ^ 64\<close> after a minus sign and saturates when the digits exceed the range.\<close>

definition strtoul :: "string \<Rightarrow> int \<times> string" where
  "strtoul s = (let (v, rest) = strtol10 s in (if \<bar>v\<bar> \<ge> 2 ^ 64 then 2 ^ 64 - 1 else v mod 2 ^ 64, rest))"

definition hex_digit :: "char \<Rightarrow> bool" where
  "hex_digit c \<longleftrightarrow> is_digit c \<or> (97 \<le> (of_char (tolower_c c) :: nat) \<and> (of_char (tolower_c c) :: nat) \<le> 102)"

definition hex_val :: "char \<Rightarrow> int" where
  "hex_val c = (if is_digit c then digit_val c else int (of_char (tolower_c c) :: nat) - 87)"

text \<open>The exponent behind a mantissa: its value and the rest; without digits the letter is not part of the number.\<close>

definition exponent :: "char \<Rightarrow> string \<Rightarrow> int \<times> string" where
  "exponent e s =
     (case s of
        c # r \<Rightarrow>
          if tolower_c c \<noteq> e then (0, s)
          else let r1 = (if r \<noteq> [] \<and> (hd r = CHR ''-'' \<or> hd r = CHR ''+'') then tl r else r);
                   ds = takeWhile is_digit r1
               in if ds = [] then (0, s)
                  else (if hd r = CHR ''-'' then - digits_val ds else digits_val ds, dropWhile is_digit r1)
      | [] \<Rightarrow> (0, s))"

text \<open>Digits, fraction and exponent in base 10 or 16; \<open>None\<close> when there is no digit.\<close>

definition mantissa :: "(char \<Rightarrow> bool) \<Rightarrow> (char \<Rightarrow> int) \<Rightarrow> int \<Rightarrow> string \<Rightarrow> (int \<times> nat \<times> string) option" where
  "mantissa dig val base s =
     (let ip = takeWhile dig s;
          r1 = dropWhile dig s;
          point = (r1 \<noteq> [] \<and> hd r1 = CHR ''.'');
          fp = (if point then takeWhile dig (tl r1) else []);
          r2 = (if point then dropWhile dig (tl r1) else r1)
      in if ip = [] \<and> fp = [] then None
         else Some (foldl (\<lambda>v c. base * v + val c) 0 (ip @ fp), length fp, r2))"

definition decimal :: "string \<Rightarrow> (rat \<times> string) option" where
  "decimal s =
     (case mantissa is_digit digit_val 10 s of
        None \<Rightarrow> None
      | Some (m, k, r) \<Rightarrow> let (e, r') = exponent CHR ''e'' r in Some (of_int m * 10 powi (e - int k), r'))"

definition hexadecimal :: "string \<Rightarrow> (rat \<times> string) option" where
  "hexadecimal s =
     (case mantissa hex_digit hex_val 16 s of
        None \<Rightarrow> None
      | Some (m, k, r) \<Rightarrow> let (e, r') = exponent CHR ''p'' r in Some (of_int m * 2 powi (e - 4 * int k), r'))"

definition strtod :: "string \<Rightarrow> (double \<times> string) option" where
  "strtod s =
     (let s1 = dropWhile is_space s;
          neg = (s1 \<noteq> [] \<and> hd s1 = CHR ''-'');
          s2 = (if s1 \<noteq> [] \<and> (hd s1 = CHR ''-'' \<or> hd s1 = CHR ''+'') then tl s1 else s1);
          word = map tolower_c (take 3 s2);
          num = (case (if map tolower_c (take 2 s2) = ''0x'' then hexadecimal (drop 2 s2) else None) of
                   None \<Rightarrow> decimal s2
                 | n \<Rightarrow> n)
      in if word = ''inf'' \<or> word = ''nan'' then None
         else case num of
           None \<Rightarrow> Some (0, s)
         | Some (v, rest) \<Rightarrow> Some (dbl (if neg then - v else v), rest))"

subsection \<open>The parameter map\<close>

definition case_key :: "string \<Rightarrow> string" where
  "case_key s = map tolower_c (c_str s)"

definition StringCaseCmp :: "string \<Rightarrow> string \<Rightarrow> bool" where
  "StringCaseCmp str1 str2 \<longleftrightarrow> case_key str1 < case_key str2"

type_synonym param_map = "(string \<times> string) list"

abbreviation param_find :: "string \<Rightarrow> param_map \<Rightarrow> string option" where
  "param_find \<equiv> map_find StringCaseCmp"

text \<open>Assignment through \<open>operator[]\<close>: an entry that is there keeps its key.\<close>

definition param_assign :: "string \<Rightarrow> string \<Rightarrow> param_map \<Rightarrow> param_map" where
  "param_assign k v m = map_change StringCaseCmp k (\<lambda>_. v) (map_insert StringCaseCmp k v m)"

record configfile =
  cf_param_val :: param_map
  cf_fileName :: string
  cf_error :: int
  cf_changed :: bool

subsection \<open>Loading\<close>

definition getlines :: "string \<Rightarrow> string list" where
  "getlines t = (let ls = split_on CHR 0x0A [] t in if last ls = [] then butlast ls else ls)"

definition blank_line :: "string \<Rightarrow> bool" where
  "blank_line l \<longleftrightarrow> list_all (\<lambda>c. blank c \<or> c = CHR 0x0D) l"

fun load_lines :: "string list \<Rightarrow> param_map \<Rightarrow> int \<times> param_map" where
  "load_lines [] m = (0, m)"
| "load_lines (line # ls) m =
     (let line = takeWhile (\<lambda>c. c \<noteq> CHR ''#'') line
      in if blank_line line then load_lines ls m
         else if CHR ''='' \<notin> set line then (- 1, m)
         else load_lines ls (param_assign (Trim (takeWhile (\<lambda>c. c \<noteq> CHR ''='') line))
           (Trim (tl (dropWhile (\<lambda>c. c \<noteq> CHR ''='') line))) m))"

definition CONFIGFILE :: "os_env \<Rightarrow> fs \<Rightarrow> string \<Rightarrow> bool \<Rightarrow> configfile" where
  "CONFIGFILE oe fs fn nook =
     (case read_text oe fs (path_of fn) of
        None \<Rightarrow> \<lparr>cf_param_val = [], cf_fileName = fn, cf_error = (if nook then 0 else - 1), cf_changed = False\<rparr>
      | Some t \<Rightarrow>
          let (e, m) = load_lines (getlines t) []
          in \<lparr>cf_param_val = m, cf_fileName = fn, cf_error = e, cf_changed = False\<rparr>)"

definition CF_Error :: "configfile \<Rightarrow> int \<times> configfile" where
  "CF_Error cf = (cf_error cf, cf\<lparr>cf_error := 0\<rparr>)"

subsection \<open>Reading\<close>

definition EINVAL :: int where "EINVAL = 22"

definition EIO :: int where "EIO = 5"

definition ReadString :: "configfile \<Rightarrow> string \<Rightarrow> string \<Rightarrow> int \<times> string" where
  "ReadString cf param defaultVal =
     (case param_find param (cf_param_val cf) of Some v \<Rightarrow> (0, v) | None \<Rightarrow> (- 1, defaultVal))"

text \<open>What the integer reads have in common: \<open>conv\<close> is the conversion, the rest of the text must be empty.\<close>

definition read_number :: "(string \<Rightarrow> 'a \<times> string) \<Rightarrow> configfile \<Rightarrow> string \<Rightarrow> 'a \<Rightarrow> int \<times> 'a" where
  "read_number conv cf param defaultVal =
     (case param_find param (cf_param_val cf) of
        Some t \<Rightarrow> let (v, res) = conv (c_str t) in if res \<noteq> [] then (EINVAL, defaultVal) else (0, v)
      | None \<Rightarrow> (- 1, defaultVal))"

definition i16 :: "int \<Rightarrow> int" where
  "i16 x = signed_take_bit 15 x"

definition ReadTime :: "configfile \<Rightarrow> string \<Rightarrow> time_t \<Rightarrow> int \<times> time_t" where
  "ReadTime = read_number strtol"

definition ReadInt :: "configfile \<Rightarrow> string \<Rightarrow> int \<Rightarrow> int \<times> int" where
  "ReadInt = read_number (apfst i32 \<circ> strtol)"

definition ReadUInt :: "configfile \<Rightarrow> string \<Rightarrow> u32 \<Rightarrow> int \<times> u32" where
  "ReadUInt = read_number (apfst word_of_int \<circ> strtoul)"

definition ReadLongInt :: "configfile \<Rightarrow> string \<Rightarrow> int \<Rightarrow> int \<times> int" where
  "ReadLongInt = read_number strtol"

definition ReadULongInt :: "configfile \<Rightarrow> string \<Rightarrow> u64 \<Rightarrow> int \<times> u64" where
  "ReadULongInt = read_number (apfst word_of_int \<circ> strtoul)"

definition ReadLongLongInt :: "configfile \<Rightarrow> string \<Rightarrow> int \<Rightarrow> int \<times> int" where
  "ReadLongLongInt = read_number strtol"

definition ReadULongLongInt :: "configfile \<Rightarrow> string \<Rightarrow> u64 \<Rightarrow> int \<times> u64" where
  "ReadULongLongInt = read_number (apfst word_of_int \<circ> strtoul)"

definition ReadShortInt :: "configfile \<Rightarrow> string \<Rightarrow> int \<Rightarrow> int \<times> int" where
  "ReadShortInt = read_number (apfst i16 \<circ> strtol)"

text \<open>\<open>ReadUShortInt\<close> narrows to \<open>short\<close> before it assigns to the unsigned variable.\<close>

definition ReadUShortInt :: "configfile \<Rightarrow> string \<Rightarrow> u16 \<Rightarrow> int \<times> u16" where
  "ReadUShortInt = read_number (apfst (word_of_int \<circ> i16) \<circ> strtoul)"

definition ReadDouble :: "configfile \<Rightarrow> string \<Rightarrow> double \<Rightarrow> (int \<times> double) option" where
  "ReadDouble cf param defaultVal =
     (case param_find param (cf_param_val cf) of
        Some t \<Rightarrow> (case strtod (c_str t) of
            None \<Rightarrow> None
          | Some (v, res) \<Rightarrow> Some (if res \<noteq> [] then (EINVAL, defaultVal) else (0, v)))
      | None \<Rightarrow> Some (- 1, defaultVal))"

subsection \<open>Writing\<close>

definition WriteString :: "string \<Rightarrow> string \<Rightarrow> configfile \<Rightarrow> configfile" where
  "WriteString param val cf = cf\<lparr>cf_param_val := param_assign param val (cf_param_val cf), cf_changed := True\<rparr>"

text \<open>The argument becomes an \<open>int64_t\<close>.\<close>

definition WriteInt :: "string \<Rightarrow> int \<Rightarrow> configfile \<Rightarrow> configfile" where
  "WriteInt param val cf =
     cf\<lparr>cf_param_val := param_assign param (show_int (i64 val)) (cf_param_val cf), cf_changed := True\<rparr>"

definition WriteTime :: "string \<Rightarrow> time_t \<Rightarrow> configfile \<Rightarrow> configfile" where
  "WriteTime param val cf =
     cf\<lparr>cf_param_val := param_assign param (show_int val) (cf_param_val cf), cf_changed := True\<rparr>"

text \<open>The text is cut off after 29 characters.\<close>

definition WriteDouble :: "string \<Rightarrow> double \<Rightarrow> configfile \<Rightarrow> configfile" where
  "WriteDouble param val cf =
     cf\<lparr>cf_param_val := param_assign param (take 29 (show_fixed6 val)) (cf_param_val cf), cf_changed := True\<rparr>"

subsection \<open>Flushing\<close>

definition print_map :: "param_map \<Rightarrow> string" where
  "print_map m = concat (map (\<lambda>(k, v). k @ ''='' @ v @ [CHR 0x0A]) m)"

definition Flush_path :: "os_env \<Rightarrow> string \<Rightarrow> configfile \<Rightarrow> fs \<Rightarrow> int \<times> configfile \<times> fs" where
  "Flush_path oe path cf fs =
     (case write_text oe (path_of path) (print_map (cf_param_val cf)) fs of
        None \<Rightarrow> (EIO, cf\<lparr>cf_error := EIO\<rparr>, fs)
      | Some fs \<Rightarrow> (0, cf, fs))"

definition tmp_name :: "os_env \<Rightarrow> string \<Rightarrow> string" where
  "tmp_name oe fn = fn @ ''.'' @ take 5 (show_int (oe_pid oe))"

definition Flush :: "os_env \<Rightarrow> configfile \<Rightarrow> fs \<Rightarrow> int \<times> configfile \<times> fs" where
  "Flush oe cf fs =
     (if \<not> cf_changed cf then (0, cf, fs)
      else let (e, cf, fs) = Flush_path oe (tmp_name oe (cf_fileName cf)) cf fs
           in if e \<noteq> 0 then (- 1, cf, fs)
              else case rename_path oe (path_of (tmp_name oe (cf_fileName cf))) (path_of (cf_fileName cf)) fs of
                None \<Rightarrow> (- 1, cf, fs)
              | Some fs \<Rightarrow> (0, cf\<lparr>cf_changed := False\<rparr>, fs))"

text \<open>The destructor flushes and drops the result.\<close>

definition close_conf :: "os_env \<Rightarrow> configfile \<Rightarrow> fs \<Rightarrow> fs" where
  "close_conf oe cf fs = (let (_, _, fs) = Flush oe cf fs in fs)"


subsection \<open>The map as a function of the lower-case key\<close>

interpretation params: keyed_order "\<lambda>_. True" StringCaseCmp case_key
  by unfold_locales (simp add: StringCaseCmp_def)

abbreviation sorted_params :: "param_map \<Rightarrow> bool" where
  "sorted_params \<equiv> keys_ok (\<lambda>_. True) StringCaseCmp"

lemma param_assign_sorted: "sorted_params m \<Longrightarrow> sorted_params (param_assign k v m)"
  by (simp add: param_assign_def params.insert_ok)

lemma param_find_assign:
  "sorted_params m \<Longrightarrow> param_find j (param_assign k v m) = (if case_key k = case_key j then Some v else param_find j m)"
proof -
  assume m: "sorted_params m"
  have same: "case_key k = case_key j \<Longrightarrow> param_find j m = param_find k m" using m by (simp add: params.find_eq)
  show ?thesis
    using m same
    by (auto simp: param_assign_def params.find_change [OF params.insert_ok] params.find_insert)
qed

lemma param_assign_elems: "p \<in> set (param_assign k v m) \<Longrightarrow> p \<in> set m \<or> (snd p = v \<and> (fst p = k \<or> fst p \<in> fst ` set m))"
proof (induction m)
  case (Cons a m)
  obtain b w where a: "a = (b, w)" by force
  show ?case using Cons by (auto simp: a param_assign_def split: if_splits)
qed (auto simp: param_assign_def split: if_splits)

text \<open>An assignment with the greatest key so far appends.\<close>

lemma param_assign_append:
  "sorted_params (m @ [(k, v)]) \<Longrightarrow> param_assign k v m = m @ [(k, v)]"
proof (induction m)
  case (Cons a m)
  obtain b w where a: "a = (b, w)" by force
  have "StringCaseCmp b k" using Cons.prems by (simp add: a keys_ok_def)
  moreover have "sorted_params (m @ [(k, v)])" using Cons.prems by (simp add: a keys_ok_def)
  ultimately show ?case using Cons.IH by (simp add: a param_assign_def)
qed (simp add: param_assign_def StringCaseCmp_def)

subsection \<open>Texts a line can carry\<close>

definition trimmed :: "string \<Rightarrow> bool" where
  "trimmed s \<longleftrightarrow> s = [] \<or> (\<not> blank (hd s) \<and> \<not> blank (last s))"

definition clean_value :: "string \<Rightarrow> bool" where
  "clean_value v \<longleftrightarrow> trimmed v \<and> CHR ''#'' \<notin> set v \<and> CHR 0x0A \<notin> set v"

definition clean_key :: "string \<Rightarrow> bool" where
  "clean_key k \<longleftrightarrow> clean_value k \<and> CHR ''='' \<notin> set k"

definition conf_ok :: "param_map \<Rightarrow> bool" where
  "conf_ok m \<longleftrightarrow> sorted_params m \<and> list_all (\<lambda>(k, v). clean_key k \<and> clean_value v) m"

lemma Trim_trimmed: "trimmed s \<Longrightarrow> Trim s = s"
proof (cases "s = []")
  case False
  assume "trimmed s"
  with False have h: "\<not> blank (hd s)" and l: "\<not> blank (last s)" by (simp_all add: trimmed_def)
  have "dropWhile blank s = s" using h False by (cases s) simp_all
  moreover have "dropWhile blank (rev s) = rev s" using l False by (cases s rule: rev_cases) simp_all
  ultimately show ?thesis by (simp add: Trim_def TrimL_def TrimR_def)
qed (simp add: Trim_def TrimL_def TrimR_def)

lemma trimmed_Trim: "trimmed (Trim s)"
proof (cases "dropWhile blank s = []")
  case False
  let ?l = "dropWhile blank s"
  have h: "\<not> blank (hd ?l)" using False by (rule hd_dropWhile)
  have n: "\<not> list_all blank ?l" using h False by (cases ?l) simp_all
  have r: "dropWhile blank (rev ?l) \<noteq> []" using n by (auto simp: list_all_iff dropWhile_eq_Nil_conv)
  have "\<not> blank (hd (dropWhile blank (rev ?l)))" using r by (rule hd_dropWhile)
  moreover have "last (dropWhile blank (rev ?l)) = last (rev ?l)" using r by (metis last_appendR takeWhile_dropWhile_id)
  ultimately show ?thesis
    using n r h False by (simp add: Trim_def TrimL_def TrimR_def trimmed_def hd_rev last_rev)
next
  case True
  show ?thesis unfolding Trim_def TrimL_def TrimR_def trimmed_def True by simp
qed

lemma set_Trim: "set (Trim s) \<subseteq> set s"
proof -
  have "set (TrimL s) \<subseteq> set s" by (auto simp: TrimL_def dest: set_dropWhileD)
  moreover have "set (TrimR s) \<subseteq> set s" for s by (auto simp: TrimR_def dest: set_dropWhileD)
  ultimately show ?thesis by (auto simp: Trim_def)
qed

lemma clean_Trim: "CHR ''#'' \<notin> set s \<Longrightarrow> CHR 0x0A \<notin> set s \<Longrightarrow> clean_value (Trim s)"
  using trimmed_Trim [of s] set_Trim [of s] by (auto simp: clean_value_def)

lemma conf_ok_Nil [simp]: "conf_ok []"
  by (simp add: conf_ok_def keys_ok_def)

lemma conf_ok_assign: "conf_ok m \<Longrightarrow> clean_key k \<Longrightarrow> clean_value v \<Longrightarrow> conf_ok (param_assign k v m)"
  unfolding conf_ok_def list_all_iff using param_assign_sorted [of m k v]
  by (fastforce dest: param_assign_elems)

text \<open>Loading a text of lines without line feeds keeps the invariant: what was loaded can be written back.\<close>

lemma load_lines_ok:
  "conf_ok m \<Longrightarrow> list_all (\<lambda>l. CHR 0x0A \<notin> set l) ls \<Longrightarrow> conf_ok (snd (load_lines ls m))"
proof (induction ls m rule: load_lines.induct)
  case (2 line ls m)
  let ?l = "takeWhile (\<lambda>c. c \<noteq> CHR ''#'') line"
  let ?k = "takeWhile (\<lambda>c. c \<noteq> CHR ''='') ?l" and ?v = "tl (dropWhile (\<lambda>c. c \<noteq> CHR ''='') ?l)"
  have l: "CHR ''#'' \<notin> set ?l" "CHR 0x0A \<notin> set ?l" using 2(4) by (auto dest: set_takeWhileD)
  have "clean_value (Trim ?k)" using l by (intro clean_Trim) (auto dest: set_takeWhileD)
  moreover have "CHR ''='' \<notin> set (Trim ?k)" using set_Trim [of ?k] by (auto dest: set_takeWhileD)
  ultimately have "clean_key (Trim ?k)" by (simp add: clean_key_def)
  moreover have "clean_value (Trim ?v)"
    using l by (intro clean_Trim) (metis list.sel(2) list.set_sel(2) set_dropWhileD)+
  ultimately have "conf_ok (param_assign (Trim ?k) (Trim ?v) m)" using 2(3) by (intro conf_ok_assign)
  then show ?case using 2 by (auto simp: Let_def)
qed simp

lemma split_on_pieces: "l \<in> set (split_on d acc t) \<Longrightarrow> d \<notin> set acc \<Longrightarrow> d \<notin> set l"
  by (induction d acc t rule: split_on.induct) (auto split: if_splits)

lemma getlines_no_lf: "list_all (\<lambda>l. CHR 0x0A \<notin> set l) (getlines t)"
proof -
  have "l \<in> set (getlines t) \<Longrightarrow> l \<in> set (split_on CHR 0x0A [] t)" for l
    by (auto simp: getlines_def Let_def dest: in_set_butlastD split: if_splits)
  then show ?thesis using split_on_pieces [of _ "CHR 0x0A" "[]" t] by (fastforce simp: list_all_iff)
qed


subsection \<open>Writing and loading\<close>

lemma split_on_not_Nil [simp]: "split_on d acc t \<noteq> []"
  by (induction d acc t rule: split_on.induct) auto

lemma getlines_snoc_lf: "CHR 0x0A \<notin> set l \<Longrightarrow> getlines (l @ CHR 0x0A # t) = l # getlines t"
proof -
  assume l: "CHR 0x0A \<notin> set l"
  show ?thesis by (simp add: getlines_def split_on_append [OF l] Let_def)
qed

lemma takeWhile_absent: "c \<notin> set s \<Longrightarrow> takeWhile (\<lambda>x. x \<noteq> c) s = s"
  by (induction s) auto

text \<open>What survives of a value on its way through a line: what is in front of a number sign, without outer blanks.\<close>

definition survive :: "string \<Rightarrow> string" where
  "survive v = Trim (takeWhile (\<lambda>c. c \<noteq> CHR ''#'') v)"

definition printable :: "param_map \<Rightarrow> bool" where
  "printable m \<longleftrightarrow> sorted_params m \<and> list_all (\<lambda>(k, v). clean_key k \<and> CHR 0x0A \<notin> set v) m"

lemma survive_clean: "CHR 0x0A \<notin> set v \<Longrightarrow> survive v = v \<longleftrightarrow> clean_value v"
proof
  assume n: "CHR 0x0A \<notin> set v"
  assume s: "survive v = v"
  have "CHR ''#'' \<notin> set (survive v)"
    using set_Trim [of "takeWhile (\<lambda>c. c \<noteq> CHR ''#'') v"] by (auto simp: survive_def dest: set_takeWhileD)
  then show "clean_value v" using n s trimmed_Trim [of "takeWhile (\<lambda>c. c \<noteq> CHR ''#'') v"] by (simp add: clean_value_def survive_def)
next
  assume "clean_value v"
  then show "survive v = v" by (simp add: survive_def clean_value_def takeWhile_absent Trim_trimmed)
qed

lemma load_line_survive:
  assumes "clean_key k"
  shows "load_lines ((k @ ''='' @ v) # ls) m = load_lines ls (param_assign k (survive v) m)"
proof -
  let ?w = "takeWhile (\<lambda>c. c \<noteq> CHR ''#'') v"
  have k: "CHR ''#'' \<notin> set k" "CHR ''='' \<notin> set k" "trimmed k" using assms by (simp_all add: clean_key_def clean_value_def)
  have h: "takeWhile (\<lambda>c. c \<noteq> CHR ''#'') (k @ ''='' @ v) = k @ ''='' @ ?w" using k(1) by (induction k) auto
  have "takeWhile (\<lambda>c. c \<noteq> CHR ''='') (k @ ''='' @ ?w) = k" "dropWhile (\<lambda>c. c \<noteq> CHR ''='') (k @ ''='' @ ?w) = ''='' @ ?w"
    using k(2) by (auto simp: takeWhile_append dropWhile_append)
  moreover have "\<not> blank_line (k @ ''='' @ ?w)" by (simp add: blank_line_def blank_def)
  ultimately show ?thesis by (simp add: h Trim_trimmed k survive_def del: append_Cons)
qed

lemma getlines_printable:
  "list_all (\<lambda>(k, v). clean_key k \<and> CHR 0x0A \<notin> set v) m \<Longrightarrow> getlines (print_map m) = map (\<lambda>(k, v). k @ ''='' @ v) m"
proof (induction m)
  case (Cons a m)
  obtain k v where a: "a = (k, v)" by force
  have "print_map (a # m) = (k @ ''='' @ v) @ CHR 0x0A # print_map m" by (simp add: a print_map_def)
  moreover have "CHR 0x0A \<notin> set (k @ ''='' @ v)" using Cons.prems by (simp add: a clean_key_def clean_value_def)
  ultimately show ?case using Cons getlines_snoc_lf [of "k @ ''='' @ v" "print_map m"] by (simp add: a)
qed (simp add: print_map_def getlines_def)

lemma load_survive_from:
  "sorted_params (done @ m) \<Longrightarrow> list_all (\<lambda>(k, v). clean_key k) m \<Longrightarrow>
   load_lines (map (\<lambda>(k, v). k @ ''='' @ v) m) (map (apsnd survive) done) = (0, map (apsnd survive) (done @ m))"
proof (induction m arbitrary: "done")
  case (Cons a m)
  obtain k v where a: "a = (k, v)" by force
  have "sorted_params (map (apsnd survive) done @ [(k, survive v)])"
    using Cons.prems(1) by (auto simp: a keys_ok_def sorted_wrt_append comp_def)
  then have "param_assign k (survive v) (map (apsnd survive) done) = map (apsnd survive) (done @ [(k, v)])"
    by (simp add: param_assign_append)
  then show ?case using Cons.IH [of "done @ [(k, v)]"] Cons.prems load_line_survive [of k] by (simp add: a)
qed simp

lemma load_survive: "printable m \<Longrightarrow> load_lines (getlines (print_map m)) [] = (0, map (apsnd survive) m)"
proof -
  assume p: "printable m"
  then have "list_all (\<lambda>(k, v). clean_key k) m" by (auto simp: printable_def list_all_iff)
  then show ?thesis using load_survive_from [of "[]" m] p by (simp add: printable_def getlines_printable)
qed

lemma find_survive: "param_find k (map (apsnd f) m) = map_option f (param_find k m)"
  by (induction m) auto

text \<open>Writing a map and loading the text is the identity when the values are clean.\<close>

lemma load_print: "conf_ok m \<Longrightarrow> load_lines (getlines (print_map m)) [] = (0, m)"
proof -
  assume m: "conf_ok m"
  then have "map (apsnd survive) m = m"
    by (intro map_idI) (auto simp: conf_ok_def list_all_iff survive_clean clean_value_def)
  moreover have "printable m" using m by (auto simp: conf_ok_def printable_def list_all_iff clean_value_def)
  ultimately show ?thesis using load_survive [of m] by simp
qed

lemma CONFIGFILE_ok [simp]: "conf_ok (cf_param_val (CONFIGFILE oe fs fn nook))"
  using load_lines_ok [OF conf_ok_Nil getlines_no_lf]
  by (auto simp: CONFIGFILE_def Let_def split: option.splits prod.splits) (metis snd_conv)

lemma Write_ok:
  "conf_ok (cf_param_val cf) \<Longrightarrow> clean_key k \<Longrightarrow> clean_value v \<Longrightarrow> conf_ok (cf_param_val (WriteString k v cf))"
  by (simp add: WriteString_def conf_ok_assign)

end
