(* ===== verification/Stg_ConfNum.thy ===== *)
theory Stg_ConfNum
  imports Stg_ConfFile
begin

text \<open>
  Numbers through a configuration file: what \<open>WriteInt\<close> and \<open>WriteDouble\<close> print is read back by the typed reads, integers
  exactly and over the whole range of their type, doubles as the nearest double to their six-digit decimal.
\<close>

subsection \<open>Integers\<close>

lemma strtol10_show_int: "strtol10 (show_int n) = (n, [])"
proof (cases "n < 0")
  case True
  let ?d = "show_nat (nat (- n))"
  have d: "takeWhile is_digit ?d = ?d" "dropWhile is_digit ?d = []"
    by (simp_all add: takeWhile_eq_all_conv dropWhile_eq_Nil_conv show_nat_digits)
  with True show ?thesis by (simp add: strtol10_def show_int_def is_space_def Let_def d)
next
  case False
  then show ?thesis using strtol_digits [of "show_nat (nat n)", OF show_nat_digits] by (simp add: show_int_def)
qed

lemma strtol_show_int: "- (2 ^ 63) \<le> n \<Longrightarrow> n < 2 ^ 63 \<Longrightarrow> strtol (show_int n) = (n, [])"
  by (simp add: strtol_def strtol10_show_int)

lemma i64_mod: "i64 n mod 2 ^ 64 = n mod 2 ^ 64"
  using take_bit_signed_take_bit [of 64 63 n] by (simp add: i64_def take_bit_eq_mod)

lemma strtoul_show_i64: "strtoul (show_int (i64 n)) = (n mod 2 ^ 64, [])"
  using i64_range [of n] i64_mod [of n] by (auto simp: strtoul_def strtol10_show_int)

lemma show_int_chars: "c \<in> set (show_int n) \<Longrightarrow> is_digit c \<or> c = CHR ''-''"
  by (auto simp: show_int_def dest: show_nat_digits split: if_splits)

definition plain_char :: "char \<Rightarrow> bool" where
  "plain_char c \<longleftrightarrow> is_digit c \<or> c \<in> {CHR ''-'', CHR ''.'', CHR '':'', CHR '',''}"

lemma plain_clean:
  assumes "\<And>c. c \<in> set s \<Longrightarrow> plain_char c"
  shows "clean_value s" "c_str s = s"
proof -
  have p: "\<not> blank c \<and> c \<noteq> CHR ''#'' \<and> c \<noteq> CHR 0x0A \<and> c \<noteq> CHR 0x00" if "c \<in> set s" for c
    using assms [OF that] by (auto simp: plain_char_def is_digit_def blank_def)
  show "clean_value s"
    using p [of "hd s"] p [of "last s"] p by (cases "s = []") (auto simp: clean_value_def trimmed_def)
  show "c_str s = s" using p by (auto simp: c_str_def takeWhile_eq_all_conv)
qed

lemma show_int_clean [simp]: "clean_value (show_int n)" "c_str (show_int n) = show_int n"
  using plain_clean [of "show_int n"] show_int_chars [of _ n] by (auto simp: plain_char_def)

subsection \<open>Six decimals\<close>

definition fixed6 :: "double \<Rightarrow> rat" where
  "fixed6 x = (if x < 0 then - 1 else 1) * of_int (rne (\<bar>x\<bar> * 10 ^ 6)) / 10 ^ 6"

lemma digits_val_append: "digits_val (a @ b) = digits_val a * 10 ^ length b + digits_val b"
proof (induction b rule: rev_induct)
  case (snoc c b)
  have "digits_val (a @ b @ [c]) = 10 * digits_val (a @ b) + digit_val c"
    using digits_val_snoc [of "a @ b" c] by simp
  with snoc show ?case by (simp add: digits_val_snoc algebra_simps)
qed (simp add: digits_val_def)

lemma digits_val_zeros: "digits_val (replicate n (CHR ''0'') @ s) = digits_val s"
proof (induction n)
  case (Suc n)
  have "digits_val ((CHR ''0'') # r) = digits_val r" for r by (simp add: digits_val_def digit_val_def)
  with Suc show ?case by simp
qed simp

lemma pad_left_digits: "c \<in> set (pad_left k (show_nat n)) \<Longrightarrow> is_digit c"
  by (auto simp: pad_left_def is_digit_def dest: show_nat_digits)

lemma length_pad_left: "n < 10 ^ 6 \<Longrightarrow> length (pad_left 6 (show_nat n)) = 6"
  using show_nat_length [of n 6] by (simp add: pad_left_def)

lemma show_fixed6_chars: "c \<in> set (show_fixed6 x) \<Longrightarrow> plain_char c"
  by (auto simp: show_fixed6_def Let_def plain_char_def dest: show_nat_digits pad_left_digits split: if_splits)

lemma takeWhile_digits: "(\<And>c. c \<in> set a \<Longrightarrow> P c) \<Longrightarrow> \<not> P d \<Longrightarrow> takeWhile P (a @ d # r) = a \<and> dropWhile P (a @ d # r) = d # r"
  by (simp add: takeWhile_append dropWhile_append)

lemma decimal_fixed:
  assumes "\<And>c. c \<in> set a \<Longrightarrow> is_digit c" and "\<And>c. c \<in> set f \<Longrightarrow> is_digit c" and "a \<noteq> []"
  shows "decimal (a @ ''.'' @ f) = Some (of_int (digits_val (a @ f)) / 10 ^ length f, [])"
proof -
  have nd: "\<not> is_digit CHR ''.''" by (simp add: is_digit_def)
  have a: "takeWhile is_digit (a @ CHR ''.'' # f) = a" "dropWhile is_digit (a @ CHR ''.'' # f) = CHR ''.'' # f"
    using takeWhile_digits [of a is_digit "CHR ''.''" f] assms(1) nd by simp_all
  have f: "takeWhile is_digit f = f" "dropWhile is_digit f = []"
    using assms(2) by (simp_all add: takeWhile_eq_all_conv dropWhile_eq_Nil_conv)
  have p: "(10 :: rat) powi (- int (length f)) = inverse (10 ^ length f)"
    by (simp add: power_int_def power_one_over inverse_eq_divide)
  show ?thesis
    using assms(3) by (simp add: a f decimal_def mantissa_def exponent_def digits_val_def divide_inverse p)
qed

lemma hd_in_digits: "is_digit (hd (show_nat n))"
  using show_nat_digits [of "hd (show_nat n)" n] by simp


lemma strtod_fixed:
  assumes "\<And>c. c \<in> set a \<Longrightarrow> is_digit c" and "\<And>c. c \<in> set f \<Longrightarrow> is_digit c" and "a \<noteq> []"
  shows "strtod ((if neg then ''-'' else '''') @ a @ ''.'' @ f) =
    Some (dbl ((if neg then - 1 else 1) * of_int (digits_val (a @ f)) / 10 ^ length f), [])"
proof -
  obtain c r where c: "a = c # r" using assms(3) by (cases a) auto
  have d: "is_digit c" using assms(1) c by simp
  then have h: "\<not> is_space c" "c \<noteq> CHR ''-''" "c \<noteq> CHR ''+''" "tolower_c c = c"
    "c \<noteq> CHR ''i''" "c \<noteq> CHR ''n''"
    by (auto simp: is_digit_def is_space_def tolower_c_def)
  have x: "map tolower_c (take 2 (a @ ''.'' @ f)) \<noteq> ''0x''"
  proof (cases r)
    case (Cons b r')
    then have "is_digit b" using assms(1) c by simp
    then have "tolower_c b = b" "b \<noteq> CHR ''x''" by (auto simp: is_digit_def tolower_c_def)
    then show ?thesis using c Cons by simp
  qed (simp add: c h(4) tolower_c_def)
  have "hd (map tolower_c (take 3 (a @ ''.'' @ f))) = c" using c h by simp
  then have w: "map tolower_c (take 3 (a @ ''.'' @ f)) \<noteq> ''inf''" "map tolower_c (take 3 (a @ ''.'' @ f)) \<noteq> ''nan''"
    using h by auto
  have dec: "decimal (a @ ''.'' @ f) = Some (of_int (digits_val (a @ f)) / 10 ^ length f, [])"
    using assms by (rule decimal_fixed)
  have ds: "dropWhile is_space (a @ ''.'' @ f) = a @ ''.'' @ f" using c h(1) by simp
  have hd: "a @ ''.'' @ f \<noteq> []" "hd (a @ ''.'' @ f) = c" using c by simp_all
  show ?thesis
  proof (cases neg)
    case True
    then show ?thesis
      by (simp add: strtod_def Let_def is_space_def) (use dec x w in simp)
  next
    case False
    then show ?thesis
      unfolding strtod_def Let_def using dec x w h hd by (simp add: ds del: append_Cons append_assoc)
  qed
qed

text \<open>What \<open>%f\<close> prints is read back as the double nearest to the decimal printed.\<close>

lemma strtod_show_fixed6: "strtod (show_fixed6 x) = Some (dbl (fixed6 x), [])"
proof -
  define m where "m = nat (rne (\<bar>x\<bar> * 10 ^ 6))"
  have m: "int m = rne (\<bar>x\<bar> * 10 ^ 6)" using rne_ge [of 0 "\<bar>x\<bar> * 10 ^ 6"] by (simp add: m_def)
  let ?a = "show_nat (m div 10 ^ 6)" and ?f = "pad_left 6 (show_nat (m mod 10 ^ 6))"
  have l: "length ?f = 6" by (rule length_pad_left) simp
  have "digits_val ?f = int (m mod 10 ^ 6)" by (simp add: pad_left_def digits_val_zeros)
  then have "digits_val (?a @ ?f) = int (m div 10 ^ 6) * 10 ^ 6 + int (m mod 10 ^ 6)"
    by (simp only: digits_val_append digits_val_show_nat l)
  also have "\<dots> = int (m div 10 ^ 6 * 10 ^ 6 + m mod 10 ^ 6)"
    by (simp only: of_nat_add of_nat_mult of_nat_power of_nat_numeral)
  also have "\<dots> = int m" by (simp only: div_mult_mod_eq)
  finally have v: "digits_val (?a @ ?f) = int m" .
  have "strtod ((if x < 0 then ''-'' else '''') @ ?a @ ''.'' @ ?f) =
    Some (dbl ((if x < 0 then - 1 else 1) * of_int (digits_val (?a @ ?f)) / 10 ^ length ?f), [])"
    by (rule strtod_fixed) (auto dest: show_nat_digits pad_left_digits)
  then show ?thesis by (simp only: show_fixed6_def Let_def v l fixed6_def m m_def [symmetric])
qed


lemma show_fixed6_length: "\<bar>x\<bar> \<le> 10 ^ 15 \<Longrightarrow> length (show_fixed6 x) \<le> 29"
proof -
  assume x: "\<bar>x\<bar> \<le> 10 ^ 15"
  define m where "m = nat (rne (\<bar>x\<bar> * 10 ^ 6))"
  have "rne (\<bar>x\<bar> * 10 ^ 6) \<le> 10 ^ 21" using x by (intro rne_le) simp
  then have "m div 10 ^ 6 < 10 ^ 16" by (simp add: m_def)
  then have "length (show_nat (m div 10 ^ 6)) \<le> 16" by (rule show_nat_length) simp
  moreover have "length (pad_left 6 (show_nat (m mod 10 ^ 6))) = 6"
    by (rule length_pad_left) simp
  ultimately show ?thesis unfolding show_fixed6_def Let_def m_def [symmetric] by simp
qed

lemma rne_near: "\<bar>x - of_int k\<bar> < 1 / 2 \<Longrightarrow> rne x = k"
proof -
  assume a: "\<bar>x - of_int k\<bar> < 1 / 2"
  show ?thesis
  proof (cases "of_int k \<le> x")
    case True
    then have "\<lfloor>x\<rfloor> = k" using a by (intro floor_unique) linarith+
    then show ?thesis using a True by (simp add: rne_def)
  next
    case False
    then have "\<lfloor>x\<rfloor> = k - 1" using a by (intro floor_unique) (auto simp: abs_less_iff)
    then show ?thesis using a False by (simp add: rne_def)
  qed
qed

lemma rne_error: "\<bar>of_int (rne x) - x\<bar> \<le> 1 / 2"
proof -
  have "of_int \<lfloor>x\<rfloor> \<le> x" "x < of_int \<lfloor>x\<rfloor> + 1" by linarith+
  then show ?thesis by (auto simp: rne_def Let_def)
qed

lemma dbl_pos_error:
  assumes "0 < x" and "x < 2 powi e" and "- 1021 \<le> e"
  shows "\<bar>dbl_pos x - x\<bar> \<le> 2 powi (e - 54)"
proof -
  let ?u = "2 powi ulp_exp x :: rat"
  have "ilog2 x < e" using assms(1,2) by (rule ilog2_less)
  then have u: "ulp_exp x \<le> e - 53" using assms(3) by (simp add: ulp_exp_def)
  have "dbl_pos x - x = (of_int (rne (x / ?u)) - x / ?u) * ?u"
    by (simp add: dbl_pos_def left_diff_distrib)
  then have "\<bar>dbl_pos x - x\<bar> = \<bar>of_int (rne (x / ?u)) - x / ?u\<bar> * ?u" by (simp add: abs_mult)
  also have "\<dots> \<le> 1 / 2 * ?u" by (intro mult_right_mono rne_error) simp
  also have "\<dots> \<le> 1 / 2 * 2 powi (e - 53)" using powi_2_mono [OF u] by simp
  also have "\<dots> = 2 powi (e - 54)" using power_int_add [of "2 :: rat" "- 1" "e - 53"] by simp
  finally show ?thesis .
qed

text \<open>An amount is \<open>decimal6\<close> when it is the double nearest to a number with six decimals, of a size sums of money have.\<close>

definition decimal6 :: "double \<Rightarrow> bool" where
  "decimal6 x \<longleftrightarrow> \<bar>x\<bar> \<le> 10 ^ 9 \<and> dbl (fixed6 x) = x"

lemma rne_0 [simp]: "rne 0 = 0"
  using rne_of_int [of 0] by simp

lemma fixed6_minus: "fixed6 (- x) = - fixed6 x"
  by (auto simp: fixed6_def)

lemma fixed6_dbl_pos:
  assumes "0 < k" and "k \<le> 10 ^ 15"
  shows "fixed6 (dbl (of_int k / 10 ^ 6)) = of_int k / 10 ^ 6"
proof -
  let ?x = "of_int k / 10 ^ 6 :: rat"
  have k: "of_int k \<le> (10 ^ 15 :: rat)" using assms(2) by (metis of_int_le_iff of_int_numeral of_int_power)
  have x: "0 < ?x" "?x < 2 powi 30" using assms(1) k by (simp_all add: power_int_def)
  have "\<bar>dbl ?x - ?x\<bar> \<le> 2 powi (30 - 54)" using dbl_pos_error [OF x] x by (simp add: dbl_def)
  then have "\<bar>(dbl ?x - ?x) * 10 ^ 6\<bar> \<le> 2 powi (- 24) * 10 ^ 6" unfolding abs_mult by (intro mult_mono) simp_all
  then have "\<bar>dbl ?x * 10 ^ 6 - of_int k\<bar> \<le> 2 powi (- 24) * 10 ^ 6" by (simp add: left_diff_distrib)
  also have "(2 powi (- 24) * 10 ^ 6 :: rat) < 1 / 2" by (simp add: power_int_def power_one_over)
  finally have "rne (dbl ?x * 10 ^ 6) = k" by (rule rne_near)
  moreover have "0 \<le> dbl ?x" using x by (intro b64.rnd_nonneg) simp
  ultimately show ?thesis by (simp add: fixed6_def)
qed

lemma decimal6_dbl: "\<bar>k\<bar> \<le> 10 ^ 15 \<Longrightarrow> decimal6 (dbl (of_int k / 10 ^ 6))"
proof -
  assume k: "\<bar>k\<bar> \<le> 10 ^ 15"
  have f: "fixed6 (dbl (of_int k / 10 ^ 6)) = of_int k / 10 ^ 6"
  proof (cases k "0 :: int" rule: linorder_cases)
    case less
    have "fixed6 (dbl (of_int (- k) / 10 ^ 6)) = of_int (- k) / 10 ^ 6" using less k by (intro fixed6_dbl_pos) simp_all
    then show ?thesis by (simp add: fixed6_minus dbl_minus)
  next
    case greater
    then show ?thesis using k by (intro fixed6_dbl_pos) simp_all
  qed (simp add: fixed6_def)
  have r: "\<bar>of_int k\<bar> \<le> (10 ^ 15 :: rat)" using k by (metis of_int_abs of_int_le_iff of_int_numeral of_int_power)
  have b: "dbl (10 ^ 9) = (10 ^ 9 :: rat)" using d_of_int_exact [of "10 ^ 9"] by (simp add: d_of_int_def)
  have "of_int k / 10 ^ 6 \<le> (10 ^ 9 :: rat)" "- (10 ^ 9) \<le> (of_int k / 10 ^ 6 :: rat)" using r by simp_all
  then have "dbl (of_int k / 10 ^ 6) \<le> 10 ^ 9" "- (10 ^ 9) \<le> dbl (of_int k / 10 ^ 6)"
    using b64.rnd_le_of_le [OF b] b64.rnd_ge_of_ge [of "- (10 ^ 9)"] b by (simp_all add: dbl_minus)
  then show ?thesis unfolding decimal6_def f by (simp add: abs_le_iff)
qed

end
