(* ===== verification/Stg_FileStore.thy ===== *)
theory Stg_FileStore
  imports Stg_ConfNum Stg_IAData
begin

text \<open>
  The file store, \<open>projects/stargazer/plugins/store/files/file_store.cpp\<close>: every user is a directory with the files
  \<open>conf\<close>, \<open>stat\<close>, logs and messages, every administrator, tariff and service one file. A method gets the state of the
  plugin, which holds the file tree, and returns its result with the new state. \<open>None\<close> stands for an outcome the C++
  standard does not define or that needs an infinite double.
\<close>

subsection \<open>Settings\<close>

record fstore_settings =
  fss_errorStr :: string
  fss_workDir :: string
  fss_usersDir :: string
  fss_adminsDir :: string
  fss_tariffsDir :: string
  fss_servicesDir :: string
  fss_statMode :: nat
  fss_statUID :: nat
  fss_statGID :: nat
  fss_confMode :: nat
  fss_confUID :: nat
  fss_confGID :: nat
  fss_userLogMode :: nat
  fss_userLogUID :: nat
  fss_userLogGID :: nat
  fss_removeBak :: bool
  fss_readBak :: bool

definition FILES_STORE_SETTINGS :: fstore_settings where
  "FILES_STORE_SETTINGS = \<lparr>fss_errorStr = '''', fss_workDir = '''', fss_usersDir = '''', fss_adminsDir = '''',
     fss_tariffsDir = '''', fss_servicesDir = '''', fss_statMode = 0, fss_statUID = 0, fss_statGID = 0,
     fss_confMode = 0, fss_confUID = 0, fss_confGID = 0, fss_userLogMode = 0, fss_userLogUID = 0,
     fss_userLogGID = 0, fss_removeBak = True, fss_readBak = True\<rparr>"

text \<open>A sequence of steps that ends at the first one with a result other than 0.\<close>

fun run_steps :: "('s \<Rightarrow> int \<times> 's) list \<Rightarrow> 's \<Rightarrow> int \<times> 's" where
  "run_steps [] s = (0, s)"
| "run_steps (f # fs) s = (case f s of (e, s) \<Rightarrow> if e \<noteq> 0 then (e, s) else run_steps fs s)"

definition fss_fail :: "string \<Rightarrow> fstore_settings \<Rightarrow> int \<times> fstore_settings" where
  "fss_fail err s = (- 1, s\<lparr>fss_errorStr := err\<rparr>)"

definition User2UID :: "os_env \<Rightarrow> string \<Rightarrow> nat option" where
  "User2UID oe user = oe_getpwnam oe user"

definition Group2GID :: "os_env \<Rightarrow> string \<Rightarrow> nat option" where
  "Group2GID oe gr = oe_getgrnam oe gr"

text \<open>Three octal digits; the terminator of a shorter text is no digit.\<close>

definition Str2Mode :: "string \<Rightarrow> nat option" where
  "Str2Mode str =
     (if length str > 3 then None
      else if \<not> list_all (\<lambda>c. 48 \<le> (of_char c :: nat) \<and> (of_char c :: nat) \<le> 55) str \<or> length str < 3 then None
      else Some ((of_char (str ! 2) - 48) + (of_char (str ! 1) - 48) * 8 + (of_char (str ! 0) - 48) * 64))"

definition ParseOwner :: "os_env \<Rightarrow> module_settings \<Rightarrow> string \<Rightarrow> (nat \<Rightarrow> fstore_settings \<Rightarrow> fstore_settings)
    \<Rightarrow> fstore_settings \<Rightarrow> int \<times> fstore_settings" where
  "ParseOwner oe ms owner upd s =
     (case find_param owner ms of
        None \<Rightarrow> fss_fail (''Parameter '' @ squote owner @ '' not found.'') s
      | Some v \<Rightarrow> (case User2UID oe v of
          None \<Rightarrow> fss_fail (''Parameter '' @ squote owner @ '': Unknown user '' @ squote v) s
        | Some uid \<Rightarrow> (0, upd uid s)))"

definition ParseGroup :: "os_env \<Rightarrow> module_settings \<Rightarrow> string \<Rightarrow> (nat \<Rightarrow> fstore_settings \<Rightarrow> fstore_settings)
    \<Rightarrow> fstore_settings \<Rightarrow> int \<times> fstore_settings" where
  "ParseGroup oe ms gname upd s =
     (case find_param gname ms of
        None \<Rightarrow> fss_fail (''Parameter '' @ squote gname @ '' not found.'') s
      | Some v \<Rightarrow> (case Group2GID oe v of
          None \<Rightarrow> fss_fail (''Parameter '' @ squote gname @ '': Unknown group '' @ squote v) s
        | Some gid \<Rightarrow> (0, upd gid s)))"

definition ParseMode :: "module_settings \<Rightarrow> string \<Rightarrow> (nat \<Rightarrow> fstore_settings \<Rightarrow> fstore_settings)
    \<Rightarrow> fstore_settings \<Rightarrow> int \<times> fstore_settings" where
  "ParseMode ms modeStr upd s =
     (case find_param modeStr ms of
        None \<Rightarrow> fss_fail (''Parameter '' @ squote modeStr @ '' not found.'') s
      | Some v \<Rightarrow> (case Str2Mode v of
          None \<Rightarrow> fss_fail (''Parameter '' @ squote modeStr @ '': Incorrect mode '' @ squote v) s
        | Some m \<Rightarrow> (0, upd m s)))"

definition fss_ParseYesNo :: "string \<Rightarrow> (bool \<Rightarrow> fstore_settings \<Rightarrow> fstore_settings) \<Rightarrow> fstore_settings
    \<Rightarrow> int \<times> fstore_settings" where
  "fss_ParseYesNo value upd s =
     (if strcaseeq value ''yes'' then (0, upd True s)
      else if strcaseeq value ''no'' then (0, upd False s)
      else fss_fail (''Incorrect value '' @ squote value @ ''.'') s)"

text \<open>\<open>S_IRUSR\<close>, \<open>S_IRGRP\<close> and \<open>S_IROTH\<close> bring the execute bit of the same class with them.\<close>

definition dir_mode :: "nat \<Rightarrow> nat" where
  "dir_mode m = m OR (if m AND 256 \<noteq> 0 then 64 else 0) OR (if m AND 32 \<noteq> 0 then 8 else 0)
     OR (if m AND 4 \<noteq> 0 then 1 else 0)"

definition GetStatModeDir :: "fstore_settings \<Rightarrow> nat" where
  "GetStatModeDir s = dir_mode (fss_statMode s)"

definition GetConfModeDir :: "fstore_settings \<Rightarrow> nat" where
  "GetConfModeDir s = dir_mode (fss_confMode s)"

definition CheckAndCreate :: "os_env \<Rightarrow> string \<Rightarrow> nat \<Rightarrow> fs \<Rightarrow> bool \<times> fs" where
  "CheckAndCreate oe dir mode fs =
     (if access fs (path_of dir) then (True, fs)
      else case mkdir oe (path_of dir) mode fs of Some fs \<Rightarrow> (True, fs) | None \<Rightarrow> (False, fs))"

type_synonym fss_state = "fstore_settings \<times> fs"

definition on_settings :: "(fstore_settings \<Rightarrow> int \<times> fstore_settings) \<Rightarrow> fss_state \<Rightarrow> int \<times> fss_state" where
  "on_settings f = (\<lambda>(s, fs). let (e, s) = f s in (e, s, fs))"

definition optional_yes_no :: "module_settings \<Rightarrow> string \<Rightarrow> bool \<Rightarrow> (bool \<Rightarrow> fstore_settings \<Rightarrow> fstore_settings)
    \<Rightarrow> fstore_settings \<Rightarrow> int \<times> fstore_settings" where
  "optional_yes_no ms name dflt upd s =
     (case find_param name ms of None \<Rightarrow> (0, upd dflt s) | Some v \<Rightarrow> fss_ParseYesNo v upd s)"

definition sub_dir :: "os_env \<Rightarrow> string \<Rightarrow> (string \<Rightarrow> fstore_settings \<Rightarrow> fstore_settings) \<Rightarrow> fss_state \<Rightarrow> int \<times> fss_state" where
  "sub_dir oe name upd = (\<lambda>(s, fs).
     let dir = fss_workDir s @ name;
         s = upd dir s;
         (ok, fs) = CheckAndCreate oe dir (GetConfModeDir s) fs
     in if ok then (0, s, fs)
        else (- 1, s\<lparr>fss_errorStr := dir @ '' doesn'' @ [CHR 0x27] @ ''t exist. Failed to create.''\<rparr>, fs))"

definition parse_WorkDir :: "module_settings \<Rightarrow> fstore_settings \<Rightarrow> int \<times> fstore_settings" where
  "parse_WorkDir ms s =
     (case find_param ''WorkDir'' ms of
        None \<Rightarrow> fss_fail (''Parameter '' @ squote ''WorkDir'' @ '' not found.'') s
      | Some v \<Rightarrow> (0, s\<lparr>fss_workDir := (if v \<noteq> [] \<and> last v = CHR ''/'' then butlast v else v)\<rparr>))"

definition fss_ParseSettings :: "os_env \<Rightarrow> module_settings \<Rightarrow> fss_state \<Rightarrow> int \<times> fss_state" where
  "fss_ParseSettings oe ms = run_steps
     [on_settings (ParseOwner oe ms ''StatOwner'' (\<lambda>v s. s\<lparr>fss_statUID := v\<rparr>)),
      on_settings (ParseGroup oe ms ''StatGroup'' (\<lambda>v s. s\<lparr>fss_statGID := v\<rparr>)),
      on_settings (ParseMode ms ''StatMode'' (\<lambda>v s. s\<lparr>fss_statMode := v\<rparr>)),
      on_settings (ParseOwner oe ms ''ConfOwner'' (\<lambda>v s. s\<lparr>fss_confUID := v\<rparr>)),
      on_settings (ParseGroup oe ms ''ConfGroup'' (\<lambda>v s. s\<lparr>fss_confGID := v\<rparr>)),
      on_settings (ParseMode ms ''ConfMode'' (\<lambda>v s. s\<lparr>fss_confMode := v\<rparr>)),
      on_settings (ParseOwner oe ms ''UserLogOwner'' (\<lambda>v s. s\<lparr>fss_userLogUID := v\<rparr>)),
      on_settings (ParseGroup oe ms ''UserLogGroup'' (\<lambda>v s. s\<lparr>fss_userLogGID := v\<rparr>)),
      on_settings (ParseMode ms ''UserLogMode'' (\<lambda>v s. s\<lparr>fss_userLogMode := v\<rparr>)),
      on_settings (optional_yes_no ms ''RemoveBak'' True (\<lambda>v s. s\<lparr>fss_removeBak := v\<rparr>)),
      on_settings (optional_yes_no ms ''ReadBak'' False (\<lambda>v s. s\<lparr>fss_readBak := v\<rparr>)),
      on_settings (parse_WorkDir ms),
      sub_dir oe ''/users/'' (\<lambda>d s. s\<lparr>fss_usersDir := d\<rparr>),
      sub_dir oe ''/tariffs/'' (\<lambda>d s. s\<lparr>fss_tariffsDir := d\<rparr>),
      sub_dir oe ''/admins/'' (\<lambda>d s. s\<lparr>fss_adminsDir := d\<rparr>),
      sub_dir oe ''/services/'' (\<lambda>d s. s\<lparr>fss_servicesDir := d\<rparr>)]"

subsection \<open>The plugin\<close>

record fstore =
  fst_errorStr :: string
  fst_settings :: fstore_settings
  fst_fs :: fs

definition fst_fail :: "string \<Rightarrow> fstore \<Rightarrow> int \<times> fstore" where
  "fst_fail err s = (- 1, s\<lparr>fst_errorStr := err\<rparr>)"

definition FS_ParseSettings :: "os_env \<Rightarrow> module_settings \<Rightarrow> fstore \<Rightarrow> int \<times> fstore" where
  "FS_ParseSettings oe ms s =
     (let (ret, ss, fs) = fss_ParseSettings oe ms (fst_settings s, fst_fs s);
          s = s\<lparr>fst_settings := ss, fst_fs := fs\<rparr>
      in (ret, if ret \<noteq> 0 then s\<lparr>fst_errorStr := fss_errorStr ss\<rparr> else s))"

abbreviation users_dir :: "fstore \<Rightarrow> string" where
  "users_dir s \<equiv> fss_usersDir (fst_settings s)"

abbreviation admins_dir :: "fstore \<Rightarrow> string" where
  "admins_dir s \<equiv> fss_adminsDir (fst_settings s)"

abbreviation tariffs_dir :: "fstore \<Rightarrow> string" where
  "tariffs_dir s \<equiv> fss_tariffsDir (fst_settings s)"

abbreviation services_dir :: "fstore \<Rightarrow> string" where
  "services_dir s \<equiv> fss_servicesDir (fst_settings s)"

subsection \<open>Lists of files\<close>

text \<open>\<open>GetFileList\<close>: the entries of one kind, with the extension cut off when one is asked for.\<close>

definition file_list :: "fs \<Rightarrow> path \<Rightarrow> bool \<Rightarrow> string \<Rightarrow> string list \<Rightarrow> string list" where
  "file_list fs dir dirs ext es =
     concat (map (\<lambda>e.
       if e = ''.'' \<or> e = ''..'' then []
       else if fs_node fs (dir @ [e]) = None then []
       else if is_dir (fs_node fs (dir @ [e])) \<noteq> dirs then []
       else if ext = [] then [e]
       else if length e \<le> length ext then []
       else if drop (length e - length ext) e = ext then [take (length e - length ext) e]
       else []) es)"

definition GetFileList :: "os_env \<Rightarrow> fs \<Rightarrow> string \<Rightarrow> bool \<Rightarrow> string \<Rightarrow> string list option" where
  "GetFileList oe fs directory dirs ext =
     map_option (file_list fs (path_of directory) dirs ext) (opendir oe fs (path_of directory))"

definition get_list :: "os_env \<Rightarrow> string \<Rightarrow> bool \<Rightarrow> string \<Rightarrow> fstore \<Rightarrow> (int \<times> string list) \<times> fstore" where
  "get_list oe dir dirs ext s =
     (case GetFileList oe (fst_fs s) dir dirs ext of
        None \<Rightarrow> ((- 1, []), s\<lparr>fst_errorStr := ''Failed to open '' @ squote dir @ '': '' @ oe_strerror oe\<rparr>)
      | Some l \<Rightarrow> ((0, l), s))"

definition GetUsersList :: "os_env \<Rightarrow> fstore \<Rightarrow> (int \<times> string list) \<times> fstore" where
  "GetUsersList oe s = get_list oe (users_dir s) True '''' s"

definition GetAdminsList :: "os_env \<Rightarrow> fstore \<Rightarrow> (int \<times> string list) \<times> fstore" where
  "GetAdminsList oe s = get_list oe (admins_dir s) False ''.adm'' s"

definition GetTariffsList :: "os_env \<Rightarrow> fstore \<Rightarrow> (int \<times> string list) \<times> fstore" where
  "GetTariffsList oe s = get_list oe (tariffs_dir s) False ''.tf'' s"

definition GetServicesList :: "os_env \<Rightarrow> fstore \<Rightarrow> (int \<times> string list) \<times> fstore" where
  "GetServicesList oe s = get_list oe (services_dir s) False ''.serv'' s"

subsection \<open>Adding and removing\<close>

definition Touch :: "os_env \<Rightarrow> string \<Rightarrow> fs \<Rightarrow> fs option" where
  "Touch oe path fs = write_text oe (path_of path) [] fs"

definition FS_AddUser :: "os_env \<Rightarrow> string \<Rightarrow> fstore \<Rightarrow> int \<times> fstore" where
  "FS_AddUser oe login s =
     (let dir = strprintf (users_dir s @ login);
          conf = strprintf (users_dir s @ login @ ''/conf'');
          stat = strprintf (users_dir s @ login @ ''/stat'')
      in case mkdir oe (path_of dir) 493 (fst_fs s) of
           None \<Rightarrow> fst_fail (''mkdir failed. Message: '' @ squote (oe_strerror oe)) s
         | Some fs \<Rightarrow>
             (case Touch oe conf fs of
                None \<Rightarrow> fst_fail (''Cannot create file '' @ [CHR 0x22] @ conf @ [CHR 0x27]) (s\<lparr>fst_fs := fs\<rparr>)
              | Some fs \<Rightarrow>
                  (case Touch oe stat fs of
                     None \<Rightarrow> fst_fail (''Cannot create file '' @ [CHR 0x22] @ stat @ [CHR 0x27]) (s\<lparr>fst_fs := fs\<rparr>)
                   | Some fs \<Rightarrow> (0, s\<lparr>fst_fs := fs\<rparr>))))"

text \<open>\<open>RemoveDir\<close> unlinks a file and then calls itself on it, and leaves subdirectories alone; the inner call is on a
  path that cannot be opened as a directory any more.\<close>

definition remove_failed :: "os_env \<Rightarrow> string \<Rightarrow> fstore \<Rightarrow> int \<times> fstore" where
  "remove_failed oe what s = fst_fail (what @ '' failed. Message: '' @ squote (oe_strerror oe)) s"

definition no_dir :: "os_env \<Rightarrow> fstore \<Rightarrow> int \<times> fstore" where
  "no_dir oe s = fst_fail (''failed to open dir. Message: '' @ squote (oe_strerror oe)) s"

fun remove_entries :: "os_env \<Rightarrow> path \<Rightarrow> string list \<Rightarrow> fstore \<Rightarrow> int \<times> fstore" where
  "remove_entries oe p [] s = (0, s)"
| "remove_entries oe p (e # es) s =
     (case fs_node (fst_fs s) (p @ [e]) of
        None \<Rightarrow> remove_entries oe p es s
      | Some (Dir _) \<Rightarrow> remove_entries oe p es s
      | Some (File _ _) \<Rightarrow>
          (case unlink oe (p @ [e]) (fst_fs s) of
             None \<Rightarrow> remove_failed oe ''unlink'' s
           | Some fs \<Rightarrow> no_dir oe (s\<lparr>fst_fs := fs\<rparr>)))"

definition RemoveDir :: "os_env \<Rightarrow> string \<Rightarrow> fstore \<Rightarrow> int \<times> fstore" where
  "RemoveDir oe path s =
     (case opendir oe (fst_fs s) (path_of path) of
        None \<Rightarrow> no_dir oe s
      | Some es \<Rightarrow>
          let (e, s) = remove_entries oe (path_of path) es s
          in if e \<noteq> 0 then (e, s)
             else case rmdir oe (path_of path) (fst_fs s) of
               None \<Rightarrow> remove_failed oe ''rmdir'' s
             | Some fs \<Rightarrow> (0, s\<lparr>fst_fs := fs\<rparr>))"

definition FS_DelUser :: "os_env \<Rightarrow> string \<Rightarrow> fstore \<Rightarrow> int \<times> fstore" where
  "FS_DelUser oe login s =
     (let deleted = strprintf (fss_workDir (fst_settings s) @ ''/deleted_users'');
          target = strprintf (fss_workDir (fst_settings s) @ ''/deleted_users/'' @ login @ ''.'' @ show_int (oe_now oe));
          dir = strprintf (users_dir s @ ''/'' @ login)
      in case (if access (fst_fs s) (path_of deleted) then Some (fst_fs s)
               else mkdir oe (path_of deleted) 448 (fst_fs s)) of
           None \<Rightarrow> fst_fail (''Directory '' @ squote deleted @ '' cannot be created.'') s
         | Some fs \<Rightarrow>
             let s = s\<lparr>fst_fs := fs\<rparr>
             in if access fs (path_of deleted)
                then (case rename_path oe (path_of dir) (path_of target) fs of
                        None \<Rightarrow> fst_fail (''Error moving dir from '' @ dir @ '' to '' @ target) s
                      | Some fs \<Rightarrow> (0, s\<lparr>fst_fs := fs\<rparr>))
                else let (e, s) = RemoveDir oe dir s in if e \<noteq> 0 then (- 1, s) else (0, s))"

definition add_file :: "os_env \<Rightarrow> string \<Rightarrow> fstore \<Rightarrow> int \<times> fstore" where
  "add_file oe fileName s =
     (case Touch oe fileName (fst_fs s) of
        None \<Rightarrow> fst_fail (''Cannot create file '' @ fileName) s
      | Some fs \<Rightarrow> (0, s\<lparr>fst_fs := fs\<rparr>))"

text \<open>A file that cannot be removed leaves a message and the result 0.\<close>

definition del_file :: "os_env \<Rightarrow> string \<Rightarrow> fstore \<Rightarrow> int \<times> fstore" where
  "del_file oe fileName s =
     (case unlink oe (path_of fileName) (fst_fs s) of
        None \<Rightarrow> (0, s\<lparr>fst_errorStr := ''unlink failed. Message: '' @ squote (oe_strerror oe)\<rparr>)
      | Some fs \<Rightarrow> (0, s\<lparr>fst_fs := fs\<rparr>))"

definition FS_AddAdmin :: "os_env \<Rightarrow> string \<Rightarrow> fstore \<Rightarrow> int \<times> fstore" where
  "FS_AddAdmin oe login s = add_file oe (strprintf (admins_dir s @ ''/'' @ login @ ''.adm'')) s"

definition FS_DelAdmin :: "os_env \<Rightarrow> string \<Rightarrow> fstore \<Rightarrow> int \<times> fstore" where
  "FS_DelAdmin oe login s = del_file oe (strprintf (admins_dir s @ ''/'' @ login @ ''.adm'')) s"

definition FS_AddTariff :: "os_env \<Rightarrow> string \<Rightarrow> fstore \<Rightarrow> int \<times> fstore" where
  "FS_AddTariff oe name s = add_file oe (strprintf (tariffs_dir s @ ''/'' @ name @ ''.tf'')) s"

definition FS_DelTariff :: "os_env \<Rightarrow> string \<Rightarrow> fstore \<Rightarrow> int \<times> fstore" where
  "FS_DelTariff oe name s = del_file oe (strprintf (tariffs_dir s @ ''/'' @ name @ ''.tf'')) s"

definition FS_AddService :: "os_env \<Rightarrow> string \<Rightarrow> fstore \<Rightarrow> int \<times> fstore" where
  "FS_AddService oe name s = add_file oe (strprintf (services_dir s @ ''/'' @ name @ ''.serv'')) s"

definition FS_DelService :: "os_env \<Rightarrow> string \<Rightarrow> fstore \<Rightarrow> int \<times> fstore" where
  "FS_DelService oe name s = del_file oe (strprintf (services_dir s @ ''/'' @ name @ ''.serv'')) s"

end
