(* ===== verification/Stg_FSRecords.thy ===== *)
theory Stg_FSRecords
  imports Stg_FileStore
begin

text \<open>
  The records of the file store (\<open>file_store.cpp\<close>): configuration and statistics of users, administrators, tariffs and
  services, saved to and restored from configuration files. A restore fills the record it is given step by step and
  stops at the first missing parameter, with what it has filled so far.
\<close>

subsection \<open>Restoring\<close>

fun restore_all :: "('c \<Rightarrow> (string option \<times> 'c) option) list \<Rightarrow> 'c \<Rightarrow> (string option \<times> 'c) option" where
  "restore_all [] c = Some (None, c)"
| "restore_all (f # fs) c =
     (case f c of
        None \<Rightarrow> None
      | Some (Some err, c) \<Rightarrow> Some (Some err, c)
      | Some (None, c) \<Rightarrow> restore_all fs c)"

text \<open>A parameter whose read must give 0, one whose read must not be negative, one whose result is not looked at.\<close>

definition need :: "int \<times> 'a \<Rightarrow> ('a \<Rightarrow> 'c \<Rightarrow> 'c) \<Rightarrow> string \<Rightarrow> 'c \<Rightarrow> (string option \<times> 'c) option" where
  "need r upd err c = Some (if fst r \<noteq> 0 then Some err else None, upd (snd r) c)"

definition need_present :: "int \<times> 'a \<Rightarrow> ('a \<Rightarrow> 'c \<Rightarrow> 'c) \<Rightarrow> string \<Rightarrow> 'c \<Rightarrow> (string option \<times> 'c) option" where
  "need_present r upd err c = Some (if fst r < 0 then Some err else None, upd (snd r) c)"

definition may :: "int \<times> 'a \<Rightarrow> ('a \<Rightarrow> 'c \<Rightarrow> 'c) \<Rightarrow> 'c \<Rightarrow> (string option \<times> 'c) option" where
  "may r upd c = Some (None, upd (snd r) c)"

definition need_d :: "(int \<times> double) option \<Rightarrow> (double \<Rightarrow> 'c \<Rightarrow> 'c) \<Rightarrow> string \<Rightarrow> 'c \<Rightarrow> (string option \<times> 'c) option" where
  "need_d r upd err c = (case r of None \<Rightarrow> None | Some r \<Rightarrow> need r upd err c)"

definition need_present_d :: "(int \<times> double) option \<Rightarrow> (double \<Rightarrow> 'c \<Rightarrow> 'c) \<Rightarrow> string \<Rightarrow> 'c
    \<Rightarrow> (string option \<times> 'c) option" where
  "need_present_d r upd err c = (case r of None \<Rightarrow> None | Some r \<Rightarrow> need_present r upd err c)"

definition refuse :: "('c \<Rightarrow> bool) \<Rightarrow> string \<Rightarrow> 'c \<Rightarrow> (string option \<times> 'c) option" where
  "refuse P err c = Some (if P c then Some err else None, c)"

text \<open>Opening the file, the error of a file that cannot be read, and the steps.\<close>

definition restore_file :: "os_env \<Rightarrow> string \<Rightarrow> string \<Rightarrow> (configfile \<Rightarrow> ('c \<Rightarrow> (string option \<times> 'c) option) list)
    \<Rightarrow> 'c \<Rightarrow> fstore \<Rightarrow> (int \<times> 'c \<times> fstore) option" where
  "restore_file oe fileName err steps c s =
     (let (e, cf) = CF_Error (CONFIGFILE oe (fst_fs s) fileName False)
      in if e \<noteq> 0 then Some (- 1, c, s\<lparr>fst_errorStr := err\<rparr>)
         else case restore_all (steps cf) c of
           None \<Rightarrow> None
         | Some (None, c) \<Rightarrow> Some (0, c, s)
         | Some (Some err, c) \<Rightarrow> Some (- 1, c, s\<lparr>fst_errorStr := err\<rparr>))"

text \<open>With \<open>ReadBak\<close>, a file that cannot be restored is tried again with \<open>.bak\<close>, on the record as the first attempt left it.\<close>

definition restore_or_bak :: "(string \<Rightarrow> 'c \<Rightarrow> fstore \<Rightarrow> (int \<times> 'c \<times> fstore) option) \<Rightarrow> string \<Rightarrow> 'c \<Rightarrow> fstore
    \<Rightarrow> (int \<times> 'c \<times> fstore) option" where
  "restore_or_bak restore fileName c s =
     (case restore fileName c s of
        None \<Rightarrow> None
      | Some (e, c, s) \<Rightarrow>
          if e = 0 then Some (0, c, s)
          else if \<not> fss_readBak (fst_settings s) then Some (- 1, c, s)
          else restore (fileName @ ''.bak'') c s)"

subsection \<open>User configuration\<close>

definition not_read :: "string \<Rightarrow> string \<Rightarrow> string" where
  "not_read login param = ''User '' @ squote login @ '' data not read. Parameter '' @ param"

definition userdataName :: "nat \<Rightarrow> string" where
  "userdataName i = take 11 (''Userdata'' @ show_nat i)"

definition userconf_steps :: "os_env \<Rightarrow> string \<Rightarrow> configfile \<Rightarrow> (user_conf \<Rightarrow> (string option \<times> user_conf) option) list" where
  "userconf_steps oe login cf =
     [need_present (ReadString cf ''Password'' '''') (\<lambda>v c. c\<lparr>uc_password := v\<rparr>) (not_read login ''Password.''),
      refuse (\<lambda>c. uc_password c = []) (''User '' @ squote login @ '' password is blank.''),
      need_present (ReadString cf ''tariff'' '''') (\<lambda>v c. c\<lparr>uc_tariffName := v\<rparr>) (not_read login ''Tariff.''),
      refuse (\<lambda>c. uc_tariffName c = []) (''User '' @ squote login @ '' tariff is blank.''),
      may (ReadString cf ''IP'' ''?'') (\<lambda>v c. c\<lparr>uc_ips := UserIPs_parse (oe_inet_addr oe) v\<rparr>),
      need (ReadInt cf ''alwaysOnline'' 0) (\<lambda>v c. c\<lparr>uc_alwaysOnline := v\<rparr>) (not_read login ''AlwaysOnline.''),
      need (ReadInt cf ''down'' 0) (\<lambda>v c. c\<lparr>uc_disabled := v\<rparr>) (not_read login ''Down.''),
      need (ReadInt cf ''passive'' 0) (\<lambda>v c. c\<lparr>uc_passive := v\<rparr>) (not_read login ''Passive.''),
      may (ReadInt cf ''DisabledDetailStat'' 0) (\<lambda>v c. c\<lparr>uc_disabledDetailStat := v\<rparr>),
      may (ReadTime cf ''CreditExpire'' 0) (\<lambda>v c. c\<lparr>uc_creditExpire := v\<rparr>),
      may (ReadString cf ''TariffChange'' '''') (\<lambda>v c. c\<lparr>uc_nextTariff := v\<rparr>),
      may (ReadString cf ''Group'' '''') (\<lambda>v c. c\<lparr>uc_group := v\<rparr>),
      may (ReadString cf ''RealName'' '''') (\<lambda>v c. c\<lparr>uc_realName := v\<rparr>),
      may (ReadString cf ''Address'' '''') (\<lambda>v c. c\<lparr>uc_address := v\<rparr>),
      may (ReadString cf ''Phone'' '''') (\<lambda>v c. c\<lparr>uc_phone := v\<rparr>),
      may (ReadString cf ''Note'' '''') (\<lambda>v c. c\<lparr>uc_note := v\<rparr>),
      may (ReadString cf ''email'' '''') (\<lambda>v c. c\<lparr>uc_email := v\<rparr>)]
     @ map (\<lambda>i. may (ReadString cf (userdataName i) '''') (\<lambda>v c. c\<lparr>uc_userdata := (uc_userdata c)[i := v]\<rparr>)) [0..<USERDATA_NUM]
     @ [need_d (ReadDouble cf ''Credit'' 0) (\<lambda>v c. c\<lparr>uc_credit := v\<rparr>) (not_read login ''Credit.'')]"

definition RestoreUserConf_file :: "os_env \<Rightarrow> string \<Rightarrow> string \<Rightarrow> user_conf \<Rightarrow> fstore
    \<Rightarrow> (int \<times> user_conf \<times> fstore) option" where
  "RestoreUserConf_file oe login fileName =
     restore_file oe fileName (''User '' @ squote login @ '' data not read.'') (userconf_steps oe login)"

definition RestoreUserConf :: "os_env \<Rightarrow> string \<Rightarrow> user_conf \<Rightarrow> fstore \<Rightarrow> (int \<times> user_conf \<times> fstore) option" where
  "RestoreUserConf oe login conf s =
     restore_or_bak (RestoreUserConf_file oe login) (users_dir s @ ''/'' @ login @ ''/conf'') conf s"

definition userconf_writes :: "user_conf \<Rightarrow> (configfile \<Rightarrow> configfile) list" where
  "userconf_writes conf =
     [WriteString ''Password'' (uc_password conf),
      WriteInt ''Passive'' (uc_passive conf),
      WriteInt ''Down'' (uc_disabled conf),
      WriteInt ''DisabledDetailStat'' (uc_disabledDetailStat conf),
      WriteInt ''AlwaysOnline'' (uc_alwaysOnline conf),
      WriteString ''Tariff'' (uc_tariffName conf),
      WriteString ''Address'' (uc_address conf),
      WriteString ''Phone'' (uc_phone conf),
      WriteString ''Email'' (uc_email conf),
      WriteString ''Note'' (uc_note conf),
      WriteString ''RealName'' (uc_realName conf),
      WriteString ''Group'' (uc_group conf),
      WriteDouble ''Credit'' (uc_credit conf),
      WriteString ''TariffChange'' (uc_nextTariff conf)]
     @ map (\<lambda>i. WriteString (userdataName i) (uc_userdata conf ! i)) [0..<USERDATA_NUM]
     @ [WriteInt ''CreditExpire'' (uc_creditExpire conf),
        WriteString ''IP'' (UserIPs_toString (uc_ips conf))]"

text \<open>Mode and owner are set on the file as it is before the new one is moved over it, which happens when \<open>cfstat\<close> is
  destroyed.\<close>

definition SaveUserConf :: "os_env \<Rightarrow> user_conf \<Rightarrow> string \<Rightarrow> fstore \<Rightarrow> int \<times> fstore" where
  "SaveUserConf oe conf login s =
     (let fileName = users_dir s @ ''/'' @ login @ ''/conf'';
          (e, cfstat) = CF_Error (CONFIGFILE oe (fst_fs s) fileName True)
      in if e \<noteq> 0 then fst_fail (''User '' @ squote login @ '' conf not written'' @ [CHR 0x0A]) s
         else let fs = chmod oe (path_of fileName) (fss_confMode (fst_settings s)) (fst_fs s);
                  fs = chown oe (path_of fileName) (fss_confUID (fst_settings s)) (fss_confGID (fst_settings s)) fs;
                  cfstat = fold (\<lambda>w. w) (userconf_writes conf) cfstat
              in (0, s\<lparr>fst_fs := close_conf oe cfstat fs\<rparr>))"

subsection \<open>User statistics\<close>

definition stat_not_read :: "string \<Rightarrow> string \<Rightarrow> string" where
  "stat_not_read login param = ''User '' @ squote login @ '' stat not read. Parameter '' @ param"

definition traff_steps :: "string \<Rightarrow> configfile \<Rightarrow> nat \<Rightarrow> (user_stat \<Rightarrow> (string option \<times> user_stat) option) list" where
  "traff_steps login cf i =
     [\<lambda>c. (let r = ReadULongLongInt cf (''D'' @ show_nat i) 0 in
        if fst r \<noteq> 0 then Some (Some (stat_not_read login (''D'' @ show_nat i)), c)
        else Some (None, c\<lparr>us_monthDown := (us_monthDown c)[i := snd r]\<rparr>)),
      \<lambda>c. (let r = ReadULongLongInt cf (''U'' @ show_nat i) 0 in
        if fst r \<noteq> 0 then Some (Some (stat_not_read login (''U'' @ show_nat i)), c)
        else Some (None, c\<lparr>us_monthUp := (us_monthUp c)[i := snd r]\<rparr>))]"

definition userstat_steps :: "string \<Rightarrow> configfile \<Rightarrow> (user_stat \<Rightarrow> (string option \<times> user_stat) option) list" where
  "userstat_steps login cf =
     concat (map (traff_steps login cf) [0..<DIR_NUM])
     @ [need_d (ReadDouble cf ''Cash'' 0) (\<lambda>v c. c\<lparr>us_cash := v\<rparr>) (stat_not_read login ''Cash''),
        need_d (ReadDouble cf ''FreeMb'' 0) (\<lambda>v c. c\<lparr>us_freeMb := v\<rparr>) (stat_not_read login ''FreeMb''),
        need (ReadTime cf ''LastCashAddTime'' 0) (\<lambda>v c. c\<lparr>us_lastCashAddTime := v\<rparr>) (stat_not_read login ''LastCashAddTime''),
        need (ReadTime cf ''PassiveTime'' 0) (\<lambda>v c. c\<lparr>us_passiveTime := v\<rparr>) (stat_not_read login ''PassiveTime''),
        need_d (ReadDouble cf ''LastCashAdd'' 0) (\<lambda>v c. c\<lparr>us_lastCashAdd := v\<rparr>) (stat_not_read login ''LastCashAdd''),
        need (ReadTime cf ''LastActivityTime'' 0) (\<lambda>v c. c\<lparr>us_lastActivityTime := v\<rparr>)
          (stat_not_read login ''LastActivityTime'')]"

definition RestoreUserStat_file :: "os_env \<Rightarrow> string \<Rightarrow> string \<Rightarrow> user_stat \<Rightarrow> fstore
    \<Rightarrow> (int \<times> user_stat \<times> fstore) option" where
  "RestoreUserStat_file oe login fileName =
     restore_file oe fileName (''User '' @ squote login @ '' stat not read. Cannot open file '' @ fileName @ ''.'')
       (userstat_steps login)"

definition RestoreUserStat :: "os_env \<Rightarrow> string \<Rightarrow> user_stat \<Rightarrow> fstore \<Rightarrow> (int \<times> user_stat \<times> fstore) option" where
  "RestoreUserStat oe login stat s =
     restore_or_bak (RestoreUserStat_file oe login) (users_dir s @ ''/'' @ login @ ''/stat'') stat s"

definition traffic_writes :: "user_stat \<Rightarrow> (configfile \<Rightarrow> configfile) list" where
  "traffic_writes stat = concat (map (\<lambda>i.
     [WriteInt (''D'' @ show_nat i) (uint (us_monthDown stat ! i)),
      WriteInt (''U'' @ show_nat i) (uint (us_monthUp stat ! i))]) [0..<DIR_NUM])"

definition money_writes :: "user_stat \<Rightarrow> (configfile \<Rightarrow> configfile) list" where
  "money_writes stat =
     [WriteDouble ''Cash'' (us_cash stat),
      WriteDouble ''FreeMb'' (us_freeMb stat),
      WriteDouble ''LastCashAdd'' (us_lastCashAdd stat),
      WriteInt ''LastCashAddTime'' (us_lastCashAddTime stat),
      WriteInt ''PassiveTime'' (us_passiveTime stat),
      WriteInt ''LastActivityTime'' (us_lastActivityTime stat)]"

definition SaveUserStat :: "os_env \<Rightarrow> user_stat \<Rightarrow> string \<Rightarrow> fstore \<Rightarrow> int \<times> fstore" where
  "SaveUserStat oe stat login s =
     (let fileName = users_dir s @ ''/'' @ login @ ''/stat'';
          (e, cfstat) = CF_Error (CONFIGFILE oe (fst_fs s) fileName True)
      in if e \<noteq> 0 then fst_fail (''User '' @ squote login @ '' stat not written'' @ [CHR 0x0A]) s
         else let cfstat = fold (\<lambda>w. w) (traffic_writes stat @ money_writes stat) cfstat;
                  fs = close_conf oe cfstat (fst_fs s);
                  fs = chmod oe (path_of fileName) (fss_statMode (fst_settings s)) fs;
                  fs = chown oe (path_of fileName) (fss_statUID (fst_settings s)) (fss_statGID (fst_settings s)) fs
              in (0, s\<lparr>fst_fs := fs\<rparr>))"

text \<open>\<open>%02d\<close>.\<close>

definition show_02 :: "int \<Rightarrow> string" where
  "show_02 i = (if i < 0 then show_int i else pad_left 2 (show_nat (nat i)))"

text \<open>The two files of a month; \<open>s2\<close> is destroyed before \<open>s\<close>.\<close>

definition month_writes :: "user_stat \<Rightarrow> (configfile \<Rightarrow> configfile) list" where
  "month_writes stat = concat (map (\<lambda>i.
     [WriteInt (take 2 (''U'' @ show_nat i)) (uint (us_monthUp stat ! i)),
      WriteInt (take 2 (''D'' @ show_nat i)) (uint (us_monthDown stat ! i))]) [0..<DIR_NUM])"

definition FS_SaveMonthStat :: "os_env \<Rightarrow> user_stat \<Rightarrow> int \<Rightarrow> int \<Rightarrow> string \<Rightarrow> fstore \<Rightarrow> int \<times> fstore" where
  "FS_SaveMonthStat oe stat month year login st =
     (let name = (\<lambda>f. strprintf (users_dir st @ ''/'' @ login @ f @ show_int (year + 1900) @ ''.'' @ show_02 (month + 1)));
          (e, s) = CF_Error (CONFIGFILE oe (fst_fs st) (name ''/stat.'') True)
      in if e \<noteq> 0 then fst_fail (''Cannot create file '' @ squote (name ''/stat.'')) st
         else let (e2, s2) = CF_Error (CONFIGFILE oe (fst_fs st) (name ''/stat2.'') True)
              in if e2 \<noteq> 0 then fst_fail (''Cannot create file '' @ squote (name ''/stat2.'')) st
                 else let s = fold (\<lambda>w. w) (month_writes stat @ [WriteDouble ''cash'' (us_cash stat)]) s;
                          s2 = fold (\<lambda>w. w) (month_writes stat @ money_writes stat) s2
                      in (0, st\<lparr>fst_fs := close_conf oe s (close_conf oe s2 (fst_fs st))\<rparr>))"

subsection \<open>Services\<close>

definition service_file :: "string \<Rightarrow> fstore \<Rightarrow> string" where
  "service_file name s = strprintf (services_dir s @ ''/'' @ name @ ''.serv'')"

definition service_writes :: "service_conf \<Rightarrow> (configfile \<Rightarrow> configfile) list" where
  "service_writes conf =
     [WriteString ''name'' (sc_name conf), WriteString ''comment'' (sc_comment conf),
      WriteDouble ''cost'' (sc_cost conf), WriteInt ''pay_day'' (uint (sc_payDay conf))]"

definition SaveService :: "os_env \<Rightarrow> service_conf \<Rightarrow> fstore \<Rightarrow> int \<times> fstore" where
  "SaveService oe conf s =
     (let (e, cf) = CF_Error (CONFIGFILE oe (fst_fs s) (service_file (sc_name conf) s) True)
      in if e \<noteq> 0 then fst_fail (''Cannot write service '' @ sc_name conf @ ''. '' @ service_file (sc_name conf) s) s
         else (0, s\<lparr>fst_fs := close_conf oe (fold (\<lambda>w. w) (service_writes conf) cf) (fst_fs s)\<rparr>))"

definition bad_param :: "string \<Rightarrow> string" where
  "bad_param name = ''Error in parameter '' @ name"

definition service_steps :: "string \<Rightarrow> configfile \<Rightarrow> (service_conf \<Rightarrow> (string option \<times> service_conf) option) list" where
  "service_steps name cf =
     [need (ReadString cf ''name'' name) (\<lambda>v c. c\<lparr>sc_name := v\<rparr>) (bad_param (squote ''name'')),
      need (ReadString cf ''comment'' '''') (\<lambda>v c. c\<lparr>sc_comment := v\<rparr>) (bad_param (squote ''comment'')),
      need_d (ReadDouble cf ''cost'' 0) (\<lambda>v c. c\<lparr>sc_cost := v\<rparr>) (bad_param (squote ''cost'')),
      \<lambda>c. (let r = ReadUShortInt cf ''pay_day'' 0 in
        if fst r \<noteq> 0 then Some (Some (bad_param (squote ''pay_day'')), c)
        else Some (None, c\<lparr>sc_payDay := ucast (snd r)\<rparr>))]"

definition RestoreService :: "os_env \<Rightarrow> string \<Rightarrow> service_conf \<Rightarrow> fstore \<Rightarrow> (int \<times> service_conf \<times> fstore) option" where
  "RestoreService oe name conf s =
     restore_file oe (service_file name s) (''Cannot open '' @ service_file name s) (service_steps name) conf s"


subsection \<open>Administrators\<close>

definition ADM_PASSWD_LEN :: nat where "ADM_PASSWD_LEN = 32"

definition adm_enc_passwd :: string where "adm_enc_passwd = ''cjeifY8m3''"

text \<open>\<open>Encode12\<close> on a buffer: the text in front of the terminator it writes.\<close>

definition Encode12 :: "bytes \<Rightarrow> nat \<Rightarrow> string" where
  "Encode12 src srcLen = Encode12str (map char_at (take srcLen src))"

text \<open>\<open>Decode21\<close>: a last letter without partner is overwritten by the terminator. The buffer is filled with zeros.\<close>

definition Decode21 :: "string \<Rightarrow> nat \<Rightarrow> bytes" where
  "Decode21 src n = take n (map byte_of (Decode21str src) @ replicate n 0)"

definition blocks_of :: "bytes \<Rightarrow> bytes list" where
  "blocks_of bs = map (\<lambda>i. take 8 (drop (8 * i) bs)) [0..<ADM_PASSWD_LEN div 8]"

definition admin_file :: "string \<Rightarrow> fstore \<Rightarrow> string" where
  "admin_file login s = strprintf (admins_dir s @ ''/'' @ login @ ''.adm'')"

text \<open>The last byte of the ciphertext is set to 0 before it is encoded.\<close>

definition admin_password_text :: "string \<Rightarrow> string" where
  "admin_password_text password =
     (let adminPass = (strncpy ADM_PASSWD_LEN password)[ADM_PASSWD_LEN - 1 := 0];
          ctx = InitContext adm_enc_passwd (length adm_enc_passwd);
          pass = concat (map (EncryptBlock ctx) (blocks_of adminPass))
      in Encode12 (pass[ADM_PASSWD_LEN - 1 := 0]) ADM_PASSWD_LEN)"

definition admin_writes :: "admin_conf \<Rightarrow> (configfile \<Rightarrow> configfile) list" where
  "admin_writes ac =
     [WriteString ''password'' (admin_password_text (ac_password ac)),
      WriteInt ''ChgConf'' (uint (p_userConf (ac_priv ac))),
      WriteInt ''ChgPassword'' (uint (p_userPasswd (ac_priv ac))),
      WriteInt ''ChgStat'' (uint (p_userStat (ac_priv ac))),
      WriteInt ''ChgCash'' (uint (p_userCash (ac_priv ac))),
      WriteInt ''UsrAddDel'' (uint (p_userAddDel (ac_priv ac))),
      WriteInt ''ChgTariff'' (uint (p_tariffChg (ac_priv ac))),
      WriteInt ''ChgAdmin'' (uint (p_adminChg (ac_priv ac))),
      WriteInt ''ChgService'' (uint (p_serviceChg (ac_priv ac))),
      WriteInt ''ChgCorp'' (uint (p_corpChg (ac_priv ac)))]"

definition SaveAdmin :: "os_env \<Rightarrow> admin_conf \<Rightarrow> fstore \<Rightarrow> int \<times> fstore" where
  "SaveAdmin oe ac s =
     (let (e, cf) = CF_Error (CONFIGFILE oe (fst_fs s) (admin_file (ac_login ac) s) True)
      in if e \<noteq> 0 then fst_fail (''Cannot write admin '' @ ac_login ac @ ''. '' @ admin_file (ac_login ac) s) s
         else (0, s\<lparr>fst_fs := close_conf oe (fold (\<lambda>w. w) (admin_writes ac) cf) (fst_fs s)\<rparr>))"

text \<open>The decrypted buffer is taken as a C string; without a zero in its 32 bytes the byte behind them, which nothing has
  written, decides (\<open>None\<close>).\<close>

definition admin_password :: "string \<Rightarrow> string option" where
  "admin_password p =
     (let passwordE = take (2 * ADM_PASSWD_LEN) (c_str p)
      in if passwordE = [] then Some []
         else let ctx = InitContext adm_enc_passwd (length adm_enc_passwd);
                  pass = Decode21 passwordE (ADM_PASSWD_LEN + 1);
                  password = concat (map (DecryptBlock ctx) (blocks_of pass))
              in if 0 \<in> set password then Some (cstring password) else None)"

definition priv_step :: "configfile \<Rightarrow> string \<Rightarrow> (u16 \<Rightarrow> priv \<Rightarrow> priv) \<Rightarrow> admin_conf \<Rightarrow> (string option \<times> admin_conf) option" where
  "priv_step cf name upd c =
     (let r = ReadUShortInt cf name 0 in
      if fst r = 0 then Some (None, c\<lparr>ac_priv := upd (snd r) (ac_priv c)\<rparr>) else Some (Some (bad_param name), c))"

definition priv_step_or_0 :: "configfile \<Rightarrow> string \<Rightarrow> (u16 \<Rightarrow> priv \<Rightarrow> priv) \<Rightarrow> admin_conf \<Rightarrow> (string option \<times> admin_conf) option" where
  "priv_step_or_0 cf name upd c =
     (let r = ReadUShortInt cf name 0 in
      Some (None, c\<lparr>ac_priv := upd (if fst r = 0 then snd r else 0) (ac_priv c)\<rparr>))"

definition admin_steps :: "configfile \<Rightarrow> (admin_conf \<Rightarrow> (string option \<times> admin_conf) option) list" where
  "admin_steps cf =
     [\<lambda>c. (let (e, p) = ReadString cf ''password'' ''*'' in
        if e \<noteq> 0 then Some (Some (bad_param ''password''), c)
        else map_option (\<lambda>p. (None, c\<lparr>ac_password := p\<rparr>)) (admin_password p)),
      priv_step cf ''ChgConf'' (\<lambda>v p. p\<lparr>p_userConf := v\<rparr>),
      priv_step cf ''ChgPassword'' (\<lambda>v p. p\<lparr>p_userPasswd := v\<rparr>),
      priv_step cf ''ChgStat'' (\<lambda>v p. p\<lparr>p_userStat := v\<rparr>),
      priv_step cf ''ChgCash'' (\<lambda>v p. p\<lparr>p_userCash := v\<rparr>),
      priv_step cf ''UsrAddDel'' (\<lambda>v p. p\<lparr>p_userAddDel := v\<rparr>),
      priv_step cf ''ChgAdmin'' (\<lambda>v p. p\<lparr>p_adminChg := v\<rparr>),
      priv_step cf ''ChgTariff'' (\<lambda>v p. p\<lparr>p_tariffChg := v\<rparr>),
      priv_step_or_0 cf ''ChgService'' (\<lambda>v p. p\<lparr>p_serviceChg := v\<rparr>),
      priv_step_or_0 cf ''ChgCorp'' (\<lambda>v p. p\<lparr>p_corpChg := v\<rparr>)]"

definition RestoreAdmin :: "os_env \<Rightarrow> string \<Rightarrow> admin_conf \<Rightarrow> fstore \<Rightarrow> (int \<times> admin_conf \<times> fstore) option" where
  "RestoreAdmin oe login ac s =
     restore_file oe (admin_file login s) (''Cannot open '' @ admin_file login s) admin_steps ac s"

subsection \<open>Tariffs\<close>

definition pt_mega :: double where "pt_mega = 1048576"

definition tariff_file :: "string \<Rightarrow> fstore \<Rightarrow> string" where
  "tariff_file tariffName s = tariffs_dir s @ ''/'' @ tariffName @ ''.tf''"

definition upd_price :: "nat \<Rightarrow> (dir_price_data \<Rightarrow> dir_price_data) \<Rightarrow> tariff_data \<Rightarrow> tariff_data" where
  "upd_price i f td = td\<lparr>dirPrice := (dirPrice td)[i := f (dirPrice td ! i)]\<rparr>"

definition upd_conf :: "(tariff_conf \<Rightarrow> tariff_conf) \<Rightarrow> tariff_data \<Rightarrow> tariff_data" where
  "upd_conf f td = td\<lparr>tariffConf := f (tariffConf td)\<rparr>"

definition tariff_err :: "string \<Rightarrow> string \<Rightarrow> string" where
  "tariff_err tariffName param = ''Cannot read tariff '' @ tariffName @ ''. Parameter '' @ param"

definition set_times :: "int \<times> int \<times> int \<times> int \<Rightarrow> dir_price_data \<Rightarrow> dir_price_data" where
  "set_times t p = (case t of (h1, m1, h2, m2) \<Rightarrow> p\<lparr>hDay := h1, mDay := m1, hNight := h2, mNight := m2\<rparr>)"

definition time_step :: "string \<Rightarrow> configfile \<Rightarrow> nat \<Rightarrow> tariff_data \<Rightarrow> (string option \<times> tariff_data) option" where
  "time_step tariffName cf i td =
     (let param = ''Time'' @ show_nat i; (e, str) = ReadString cf param ''00:00-00:00''
      in if e < 0 then Some (Some (tariff_err tariffName param), td)
         else case ParseTariffTimeStr (c_str str) of
           None \<Rightarrow> None
         | Some None \<Rightarrow> Some (None, td)
         | Some (Some t) \<Rightarrow> Some (None, upd_price i (set_times t) td))"

text \<open>A price that cannot be read stays 0 (the default) and is divided all the same.\<close>

definition price_step :: "string \<Rightarrow> configfile \<Rightarrow> string \<Rightarrow> nat \<Rightarrow> (double \<Rightarrow> dir_price_data \<Rightarrow> dir_price_data)
    \<Rightarrow> tariff_data \<Rightarrow> (string option \<times> tariff_data) option" where
  "price_step tariffName cf name i upd td =
     (case ReadDouble cf (name @ show_nat i) 0 of
        None \<Rightarrow> None
      | Some (e, v) \<Rightarrow>
          if e < 0 then Some (Some (tariff_err tariffName (name @ show_nat i)), upd_price i (upd v) td)
          else Some (None, upd_price i (upd (ddiv v pt_mega)) td))"

definition dir_steps :: "string \<Rightarrow> configfile \<Rightarrow> nat \<Rightarrow> (tariff_data \<Rightarrow> (string option \<times> tariff_data) option) list" where
  "dir_steps tariffName cf i =
     [time_step tariffName cf i,
      price_step tariffName cf ''PriceDayA'' i (\<lambda>v p. p\<lparr>priceDayA := v\<rparr>),
      price_step tariffName cf ''PriceDayB'' i (\<lambda>v p. p\<lparr>priceDayB := v\<rparr>),
      price_step tariffName cf ''PriceNightA'' i (\<lambda>v p. p\<lparr>priceNightA := v\<rparr>),
      price_step tariffName cf ''PriceNightB'' i (\<lambda>v p. p\<lparr>priceNightB := v\<rparr>),
      need_present (ReadInt cf (''Threshold'' @ show_nat i) 0) (\<lambda>v. upd_price i (\<lambda>p. p\<lparr>threshold := v\<rparr>))
        (tariff_err tariffName (''Threshold'' @ show_nat i)),
      need_present (ReadInt cf (''SinglePrice'' @ show_nat i) 0) (\<lambda>v. upd_price i (\<lambda>p. p\<lparr>singlePrice := v\<rparr>))
        (tariff_err tariffName (''SinglePrice'' @ show_nat i)),
      need_present (ReadInt cf (''NoDiscount'' @ show_nat i) 0) (\<lambda>v. upd_price i (\<lambda>p. p\<lparr>noDiscount := v\<rparr>))
        (tariff_err tariffName (''NoDiscount'' @ show_nat i))]"

definition tariff_steps :: "string \<Rightarrow> configfile \<Rightarrow> (tariff_data \<Rightarrow> (string option \<times> tariff_data) option) list" where
  "tariff_steps tariffName cf =
     concat (map (dir_steps tariffName cf) [0..<DIR_NUM])
     @ [need_present_d (ReadDouble cf ''Fee'' 0) (\<lambda>v. upd_conf (\<lambda>c. c\<lparr>tc_fee := v\<rparr>)) (tariff_err tariffName ''Fee''),
        need_present_d (ReadDouble cf ''Free'' 0) (\<lambda>v. upd_conf (\<lambda>c. c\<lparr>tc_free := v\<rparr>)) (tariff_err tariffName ''Free''),
        need_present_d (ReadDouble cf ''PassiveCost'' 0) (\<lambda>v. upd_conf (\<lambda>c. c\<lparr>tc_passiveCost := v\<rparr>))
          (tariff_err tariffName ''PassiveCost''),
        \<lambda>td. (let (e, str) = ReadString cf ''TraffType'' '''' in
          if e < 0 then Some (Some (tariff_err tariffName ''TraffType''), td)
          else Some (None, upd_conf (\<lambda>c. c\<lparr>tc_traffType := parseTraffType str\<rparr>) td)),
        may (ReadString cf ''Period'' ''month'') (\<lambda>str. upd_conf (\<lambda>c. c\<lparr>tc_period := parsePeriod str\<rparr>)),
        may (ReadString cf ''ChangePolicy'' ''allow'') (\<lambda>str. upd_conf (\<lambda>c. c\<lparr>tc_changePolicy := parseChangePolicy str\<rparr>)),
        may (ReadTime cf ''ChangePolicyTimeout'' 0) (\<lambda>v. upd_conf (\<lambda>c. c\<lparr>tc_changePolicyTimeout := v\<rparr>))]"

definition RestoreTariff :: "os_env \<Rightarrow> string \<Rightarrow> tariff_data \<Rightarrow> fstore \<Rightarrow> (int \<times> tariff_data \<times> fstore) option" where
  "RestoreTariff oe tariffName td s =
     restore_file oe (tariff_file tariffName s) (''Cannot read file '' @ tariff_file tariffName s)
       (tariff_steps tariffName) (upd_conf (\<lambda>c. c\<lparr>tc_name := tariffName\<rparr>) td) s"

definition time_text :: "dir_price_data \<Rightarrow> string" where
  "time_text p = strprintf (show_int (hDay p) @ '':'' @ show_int (mDay p) @ ''-'' @ show_int (hNight p) @ '':'' @ show_int (mNight p))"

definition price_writes :: "nat \<Rightarrow> dir_price_data \<Rightarrow> (configfile \<Rightarrow> configfile) list" where
  "price_writes i p =
     [WriteDouble (''PriceDayA'' @ show_nat i) (dmul (priceDayA p) pt_mega),
      WriteDouble (''PriceDayB'' @ show_nat i) (dmul (priceDayB p) pt_mega),
      WriteDouble (''PriceNightA'' @ show_nat i) (dmul (priceNightA p) pt_mega),
      WriteDouble (''PriceNightB'' @ show_nat i) (dmul (priceNightB p) pt_mega),
      WriteInt (''Threshold'' @ show_nat i) (threshold p),
      WriteString (''Time'' @ show_nat i) (time_text p),
      WriteInt (''NoDiscount'' @ show_nat i) (noDiscount p),
      WriteInt (''SinglePrice'' @ show_nat i) (singlePrice p)]"

definition tariff_writes :: "tariff_data \<Rightarrow> (configfile \<Rightarrow> configfile) list" where
  "tariff_writes td =
     concat (map (\<lambda>i. price_writes i (dirPrice td ! i)) [0..<DIR_NUM])
     @ [WriteDouble ''PassiveCost'' (tc_passiveCost (tariffConf td)),
        WriteDouble ''Fee'' (tc_fee (tariffConf td)),
        WriteDouble ''Free'' (tc_free (tariffConf td)),
        WriteString ''TraffType'' (toString_TraffType (tc_traffType (tariffConf td))),
        WriteString ''Period'' (toString_Period (tc_period (tariffConf td))),
        WriteString ''ChangePolicy'' (toString_ChangePolicy (tc_changePolicy (tariffConf td))),
        WriteTime ''ChangePolicyTimeout'' (tc_changePolicyTimeout (tariffConf td))]"

definition SaveTariff :: "os_env \<Rightarrow> tariff_data \<Rightarrow> string \<Rightarrow> fstore \<Rightarrow> int \<times> fstore" where
  "SaveTariff oe td tariffName s =
     (let (e, cf) = CF_Error (CONFIGFILE oe (fst_fs s) (tariff_file tariffName s) True)
      in if e \<noteq> 0 then (e, s\<lparr>fst_errorStr := ''Error writing tariff '' @ tariffName\<rparr>)
         else (0, s\<lparr>fst_fs := close_conf oe (fold (\<lambda>w. w) (tariff_writes td) cf) (fst_fs s)\<rparr>))"

end
