(* ===== verification/Stg_FSLogs.thy ===== *)
theory Stg_FSLogs
  imports Stg_FSRecords
begin

text \<open>
  Logs, detailed statistics and messages of the file store (\<open>file_store.cpp\<close>), with \<open>LogDate\<close> of \<open>common.cpp\<close> and the
  line reader \<open>fgets\<close> of the C library.
\<close>

subsection \<open>Logs of a user\<close>

definition two :: "int \<Rightarrow> string" where
  "two i = (if i < 10 then ''0'' else '''') @ show_int i"

definition LogDate :: "os_env \<Rightarrow> time_t \<Rightarrow> string" where
  "LogDate oe t =
     (let tt = oe_localtime oe t
      in take 19 (show_int (tm_year tt + 1900) @ ''-'' @ two (tm_mon tt + 1) @ ''-'' @ two (tm_mday tt) @ '' ''
         @ two (tm_hour tt) @ '':'' @ two (tm_min tt) @ '':'' @ two (oe_sec oe t)))"

definition write_log :: "os_env \<Rightarrow> string \<Rightarrow> string \<Rightarrow> fstore \<Rightarrow> int \<times> fstore" where
  "write_log oe fileName str s =
     (case append_text oe (path_of fileName) (LogDate oe (oe_now oe) @ '' -- '' @ c_str str @ [CHR 0x0A]) (fst_fs s) of
        None \<Rightarrow> fst_fail (''Cannot open '' @ squote fileName) s
      | Some fs \<Rightarrow>
          let fs = chmod oe (path_of fileName) (fss_userLogMode (fst_settings s)) fs;
              fs = chown oe (path_of fileName) (fss_userLogUID (fst_settings s)) (fss_userLogGID (fst_settings s)) fs
          in (0, s\<lparr>fst_fs := fs\<rparr>))"

definition WriteLogString :: "os_env \<Rightarrow> string \<Rightarrow> string \<Rightarrow> fstore \<Rightarrow> int \<times> fstore" where
  "WriteLogString oe str login s = write_log oe (users_dir s @ ''/'' @ login @ ''/log'') str s"

definition WriteLog2String :: "os_env \<Rightarrow> string \<Rightarrow> string \<Rightarrow> fstore \<Rightarrow> int \<times> fstore" where
  "WriteLog2String oe str login s = write_log oe (users_dir s @ ''/'' @ login @ ''/log2'') str s"

definition FS_WriteUserChgLog :: "os_env \<Rightarrow> string \<Rightarrow> string \<Rightarrow> u32 \<Rightarrow> string \<Rightarrow> string \<Rightarrow> string \<Rightarrow> string \<Rightarrow> fstore
    \<Rightarrow> int \<times> fstore" where
  "FS_WriteUserChgLog oe login admLogin admIP paramName oldValue newValue message s =
     WriteLogString oe (''Admin '' @ squote admLogin @ '', '' @ inet_ntostring admIP @ '': '' @ squote paramName
       @ '' parameter changed from '' @ squote oldValue @ '' to '' @ squote newValue @ ''. '' @ message) login s"

definition FS_WriteUserConnect :: "os_env \<Rightarrow> string \<Rightarrow> u32 \<Rightarrow> fstore \<Rightarrow> int \<times> fstore" where
  "FS_WriteUserConnect oe login ip s =
     (let logStr = ''Connect, '' @ inet_ntostring ip; (e, s) = WriteLogString oe logStr login s
      in if e \<noteq> 0 then (- 1, s) else WriteLog2String oe logStr login s)"

definition FS_WriteUserDisconnect :: "os_env \<Rightarrow> string \<Rightarrow> dir_traff \<Rightarrow> dir_traff \<Rightarrow> dir_traff \<Rightarrow> dir_traff \<Rightarrow> double \<Rightarrow> double
    \<Rightarrow> string \<Rightarrow> fstore \<Rightarrow> int \<times> fstore" where
  "FS_WriteUserDisconnect oe login monthUp0 monthDown0 sessionUp0 sessionDown0 cash0 freeMb0 reason s =
     (let logStr = ''Disconnect, '' @ '' session upload: '' @ squote (DirTraff_show sessionUp0)
            @ '' session download: '' @ squote (DirTraff_show sessionDown0)
            @ '' month upload: '' @ squote (DirTraff_show monthUp0)
            @ '' month download: '' @ squote (DirTraff_show monthDown0)
            @ '' cash: '' @ squote (show_g6 cash0);
          (e, s) = WriteLogString oe logStr login s
      in if e \<noteq> 0 then (- 1, s)
         else WriteLog2String oe (logStr @ '' freeMb: '' @ squote (show_g6 freeMb0) @ '' reason: '' @ squote reason) login s)"

subsection \<open>Detailed statistics\<close>

definition FN_STR_LEN :: nat where "FN_STR_LEN = 255"

text \<open>One directory of the path: created when it is missing, then owner and mode are set.\<close>

definition stat_dir :: "os_env \<Rightarrow> string \<Rightarrow> fstore \<Rightarrow> int \<times> fstore" where
  "stat_dir oe dn s =
     (case (if access (fst_fs s) (path_of dn) then Some (fst_fs s) else mkdir oe (path_of dn) 448 (fst_fs s)) of
        None \<Rightarrow> fst_fail (''Directory '' @ squote dn @ '' cannot be created.'') s
      | Some fs \<Rightarrow>
          let fs = chown oe (path_of dn) (fss_statUID (fst_settings s)) (fss_statGID (fst_settings s)) fs;
              fs = chmod oe (path_of dn) (GetStatModeDir (fst_settings s)) fs
          in (0, s\<lparr>fst_fs := fs\<rparr>))"

definition pad_width :: "nat \<Rightarrow> string \<Rightarrow> string" where
  "pad_width n s = replicate (n - length s) (CHR '' '') @ s"

definition detail_line :: "ip_dir_pair \<times> stat_node \<Rightarrow> string" where
  "detail_line = (\<lambda>(k, n). pad_width 17 (inet_ntostring (ipd_ip k)) @ [CHR 0x09] @ pad_width 15 (show_nat (ipd_dir k)) @ [CHR 0x09]
     @ pad_width 15 (show_nat (unat (sn_down n))) @ [CHR 0x09] @ pad_width 15 (show_nat (unat (sn_up n))) @ [CHR 0x09]
     @ show_fixed6 (sn_cash n) @ [CHR 0x0A])"

definition clock_text :: "os_env \<Rightarrow> time_t \<Rightarrow> string" where
  "clock_text oe t = (let l = oe_localtime oe t in
     show_02 (tm_hour l) @ ''.'' @ show_02 (tm_min l) @ ''.'' @ show_02 (oe_sec oe t))"

definition FS_WriteDetailedStat :: "os_env \<Rightarrow> traff_stat \<Rightarrow> time_t \<Rightarrow> string \<Rightarrow> fstore \<Rightarrow> int \<times> fstore" where
  "FS_WriteDetailedStat oe statTree lastStat login s =
     (let name = take (FN_STR_LEN - 1);
          now = oe_localtime oe (oe_now oe);
          t = (if tm_hour now = 0 \<and> tm_min now \<le> 5 then oe_now oe - 3600 * 24 else oe_now oe);
          l = oe_localtime oe t;
          dn1 = name (users_dir s @ ''/'' @ login @ ''/detail_stat'');
          dn2 = name (users_dir s @ ''/'' @ login @ ''/detail_stat/'' @ show_int (tm_year l + 1900));
          dn3 = name (users_dir s @ ''/'' @ login @ ''/detail_stat/'' @ show_int (tm_year l + 1900) @ ''/'' @ two (tm_mon l + 1));
          fn = name (dn3 @ ''/'' @ two (tm_mday l));
          (e, s) = run_steps [stat_dir oe dn1, stat_dir oe dn2, stat_dir oe dn3] s;
          text = ''-> '' @ clock_text oe lastStat @ '' - '' @ clock_text oe t @ [CHR 0x0A] @ concat (map detail_line statTree)
      in if e \<noteq> 0 then (- 1, s)
         else case append_text oe (path_of fn) (if oe_printf oe (path_of fn) then text else []) (fst_fs s) of
           None \<Rightarrow> fst_fail (''File '' @ squote fn @ '' cannot be written.'') s
         | Some fs \<Rightarrow>
             if \<not> oe_printf oe (path_of fn)
             then fst_fail (''fprint failed. Message: '' @ squote (oe_strerror oe)) (s\<lparr>fst_fs := fs\<rparr>)
             else let fs = chown oe (path_of fn) (fss_statUID (fst_settings s)) (fss_statGID (fst_settings s)) fs;
                      fs = chmod oe (path_of fn) (fss_statMode (fst_settings s)) fs
                  in (0, s\<lparr>fst_fs := fs\<rparr>))"

subsection \<open>Messages\<close>

text \<open>\<open>fgets\<close> with a buffer of \<open>n\<close> bytes: what it delivers, what it leaves, and whether it met the end of the file.\<close>

definition fgets :: "nat \<Rightarrow> string \<Rightarrow> (string \<times> string \<times> bool) option" where
  "fgets n t =
     (if t = [] then None
      else let chunk = take (n - 1) t
           in if CHR 0x0A \<in> set chunk
              then let k = length (takeWhile (\<lambda>c. c \<noteq> CHR 0x0A) chunk) + 1 in Some (take k t, drop k t, False)
              else Some (chunk, drop (n - 1) t, length t < n - 1))"

text \<open>\<open>ep = strrchr(p, c); if (ep) *ep = 0;\<close>\<close>

definition cut_last :: "char \<Rightarrow> string \<Rightarrow> string" where
  "cut_last c s = (if c \<in> set s then rev (tl (dropWhile (\<lambda>x. x \<noteq> c) (rev s))) else s)"

text \<open>\<open>str2x\<close> for \<open>uint32_t\<close>; a text without digits is 0.\<close>

definition str2x_uint32 :: "string \<Rightarrow> u32 option" where
  "str2x_uint32 s = (let v = fst (strtol10 (c_str s)) in if \<bar>v\<bar> \<ge> 2 ^ 64 then None else Some (word_of_int v))"

definition Header :: msg_header where
  "Header = \<lparr>mh_id = 0, mh_ver = 0, mh_type = 0, mh_lastSendTime = 0, mh_creationTime = 0, mh_showTime = 0,
     mh_repeat = 0, mh_repeatPeriod = 0\<rparr>"

definition hdr_fields :: "(u32 \<Rightarrow> msg_header \<Rightarrow> msg_header) list" where
  "hdr_fields =
     [\<lambda>v h. h\<lparr>mh_type := v\<rparr>, \<lambda>v h. h\<lparr>mh_lastSendTime := v\<rparr>, \<lambda>v h. h\<lparr>mh_creationTime := v\<rparr>,
      \<lambda>v h. h\<lparr>mh_showTime := v\<rparr>, \<lambda>v h. h\<lparr>mh_repeat := sint v\<rparr>, \<lambda>v h. h\<lparr>mh_repeatPeriod := v\<rparr>]"

text \<open>The six numbers; the error of the position that fails, and the header as it is then. What is left of the text.\<close>

definition cannot_read :: "string \<Rightarrow> string" where
  "cannot_read fileName = ''Cannot read file '' @ squote fileName"

fun read_header :: "string \<Rightarrow> (u32 \<Rightarrow> msg_header \<Rightarrow> msg_header) list \<Rightarrow> string \<Rightarrow> msg_header \<Rightarrow> string option \<times> msg_header \<times> string" where
  "read_header fileName [] t h = (None, h, t)"
| "read_header fileName (f # fs) t h =
     (case fgets 19 t of
        None \<Rightarrow> (Some (cannot_read fileName @ ''. Missing data.''), h, t)
      | Some (p, t, eof) \<Rightarrow>
          let p = cut_last CHR 0x0A (cut_last CHR 0x0D (c_str p))
          in if eof then (Some (cannot_read fileName @ ''. Missing data.''), h, t)
             else case str2x_uint32 p of
               None \<Rightarrow> (Some (cannot_read fileName @ ''. Incorrect value. '' @ squote p), f (- 1) h, t)
             | Some v \<Rightarrow> read_header fileName fs t (f v h))"

lemma fgets_shorter: "fgets n t = Some (l, r, eof) \<Longrightarrow> 2 \<le> n \<Longrightarrow> length r < length t"
  by (auto simp: fgets_def Let_def split: if_splits)

function read_rest :: "string \<Rightarrow> string" where
  "read_rest t = (case fgets 2047 t of None \<Rightarrow> [] | Some (l, r, eof) \<Rightarrow> c_str l @ (if eof then [] else read_rest r))"
  by pat_completeness auto

termination
  by (relation "measure length") (auto dest: fgets_shorter)

declare read_rest.simps [simp del]

text \<open>With \<open>text = NULL\<close> (\<open>with_text = False\<close>) only the header is read.\<close>

definition ReadMessage :: "os_env \<Rightarrow> string \<Rightarrow> bool \<Rightarrow> message \<Rightarrow> fstore \<Rightarrow> int \<times> message \<times> fstore" where
  "ReadMessage oe fileName with_text msg s =
     (case read_text oe (fst_fs s) (path_of fileName) of
        None \<Rightarrow> (- 1, msg, s\<lparr>fst_errorStr := ''File '' @ squote fileName @ '' cannot be openned.''\<rparr>)
      | Some t \<Rightarrow>
          let (err, h, rest) = read_header fileName hdr_fields t (msg_header msg);
              msg = msg\<lparr>msg_header := h\<rparr>
          in case err of
               Some err \<Rightarrow> (- 1, msg, s\<lparr>fst_errorStr := err\<rparr>)
             | None \<Rightarrow> (0, if with_text then msg\<lparr>msg_text := read_rest rest\<rparr> else msg, s))"

definition message_file :: "string \<Rightarrow> u64 \<Rightarrow> fstore \<Rightarrow> string" where
  "message_file login i s = strprintf (users_dir s @ ''/'' @ login @ ''/messages/'' @ show_int (i64 (uint i)))"

definition message_body :: "message \<Rightarrow> string" where
  "message_body m =
     (let h = msg_header m; line = (\<lambda>t. t @ [CHR 0x0A])
      in line (show_nat (unat (mh_type h))) @ line (show_nat (unat (mh_lastSendTime h)))
         @ line (show_nat (unat (mh_creationTime h))) @ line (show_nat (unat (mh_showTime h)))
         @ line (show_int (mh_repeat h)) @ line (show_nat (unat (mh_repeatPeriod h))) @ c_str (msg_text m))"

definition EditMessage :: "os_env \<Rightarrow> message \<Rightarrow> string \<Rightarrow> fstore \<Rightarrow> int \<times> fstore" where
  "EditMessage oe msg login s =
     (let fileName = message_file login (mh_id (msg_header msg)) s;
          newName = fileName @ ''.new''
      in if \<not> access (fst_fs s) (path_of fileName)
         then fst_fail (''Message for user '' @ squote login @ '' with ID ''
           @ squote (show_nat (unat (mh_id (msg_header msg)))) @ '' does not exist.'') s
         else case write_text oe (path_of newName)
             (if oe_printf oe (path_of newName) then message_body msg else []) (fst_fs s) of
           None \<Rightarrow> fst_fail (''File '' @ squote fileName @ '' cannot be writen.'') s
         | Some fs \<Rightarrow>
             if \<not> oe_printf oe (path_of newName)
             then fst_fail (''fprintf failed. Message: '' @ squote (oe_strerror oe)) (s\<lparr>fst_fs := fs\<rparr>)
             else let fs = chmod oe (path_of newName) (fss_confMode (fst_settings s)) fs
                  in case rename_path oe (path_of newName) (path_of fileName) fs of
                       None \<Rightarrow> fst_fail (''Error moving dir from '' @ fileName @ ''.new to '' @ fileName) (s\<lparr>fst_fs := fs\<rparr>)
                     | Some fs \<Rightarrow> (0, s\<lparr>fst_fs := fs\<rparr>))"

text \<open>The identifier of a new message is the time in microseconds; the header of the caller's message gets it.\<close>

definition message_id :: "os_env \<Rightarrow> u64" where
  "message_id oe = word_of_int (oe_now oe * 1000000 + oe_usec oe)"

definition FS_AddMessage :: "os_env \<Rightarrow> message \<Rightarrow> string \<Rightarrow> fstore \<Rightarrow> int \<times> message \<times> fstore" where
  "FS_AddMessage oe msg login s =
     (let dn = strprintf (users_dir s @ ''/'' @ login @ ''/messages'')
      in case (if access (fst_fs s) (path_of dn) then Some (fst_fs s) else mkdir oe (path_of dn) 448 (fst_fs s)) of
           None \<Rightarrow> (- 1, msg, s\<lparr>fst_errorStr := ''Directory '' @ squote dn @ '' cannot be created.''\<rparr>)
         | Some fs \<Rightarrow>
             let fs = chmod oe (path_of dn) (GetConfModeDir (fst_settings s)) fs;
                 msg = msg\<lparr>msg_header := (msg_header msg)\<lparr>mh_id := message_id oe\<rparr>\<rparr>;
                 fn = strprintf (dn @ ''/'' @ show_int (i64 (uint (message_id oe))))
             in case Touch oe fn fs of
                  None \<Rightarrow> (- 1, msg, s\<lparr>fst_fs := fs, fst_errorStr := ''File '' @ squote fn @ '' cannot be writen.''\<rparr>)
                | Some fs \<Rightarrow> let (e, s) = EditMessage oe msg login (s\<lparr>fst_fs := fs\<rparr>) in (e, msg, s))"

definition GetMessage :: "os_env \<Rightarrow> u64 \<Rightarrow> message \<Rightarrow> string \<Rightarrow> fstore \<Rightarrow> int \<times> message \<times> fstore" where
  "GetMessage oe i msg login s =
     ReadMessage oe (message_file login i s) True (msg\<lparr>msg_header := (msg_header msg)\<lparr>mh_id := i\<rparr>\<rparr>) s"

definition DelMessage :: "os_env \<Rightarrow> u64 \<Rightarrow> string \<Rightarrow> fstore \<Rightarrow> int \<times> fstore" where
  "DelMessage oe i login s =
     (case unlink oe (path_of (message_file login i s)) (fst_fs s) of
        None \<Rightarrow> (- 1, s)
      | Some fs \<Rightarrow> (0, s\<lparr>fst_fs := fs\<rparr>))"

text \<open>The loop over the files: a name that is no number and a message with a negative repeat count are removed.\<close>

definition remove_message :: "os_env \<Rightarrow> string \<Rightarrow> fstore \<Rightarrow> (fstore, fstore) sum" where
  "remove_message oe file s =
     (case unlink oe (path_of file) (fst_fs s) of
        None \<Rightarrow> Inl (snd (remove_failed oe ''unlink'' s))
      | Some fs \<Rightarrow> Inr (s\<lparr>fst_fs := fs\<rparr>))"

fun message_hdrs :: "os_env \<Rightarrow> string \<Rightarrow> string list \<Rightarrow> msg_header list \<Rightarrow> fstore \<Rightarrow> int \<times> msg_header list \<times> fstore" where
  "message_hdrs oe dn [] hs s = (0, hs, s)"
| "message_hdrs oe dn (m # ms) hs s =
     (let (bad, i) = str2x (take_bit 64) m 0
      in if bad
         then (case remove_message oe (dn @ m) s of
                 Inl s \<Rightarrow> (- 1, hs, s)
               | Inr s \<Rightarrow> message_hdrs oe dn ms hs s)
         else let (e, msg, s) = ReadMessage oe (dn @ m) False \<lparr>msg_header = Header, msg_text = ''''\<rparr> s
              in if e \<noteq> 0 then (- 1, hs, s)
                 else if mh_repeat (msg_header msg) < 0
                 then (case remove_message oe (dn @ m) s of
                         Inl s \<Rightarrow> (- 1, hs, s)
                       | Inr s \<Rightarrow> message_hdrs oe dn ms hs s)
                 else message_hdrs oe dn ms (hs @ [(msg_header msg)\<lparr>mh_id := word_of_int i\<rparr>]) s)"

definition GetMessageHdrs :: "os_env \<Rightarrow> string \<Rightarrow> msg_header list \<Rightarrow> fstore \<Rightarrow> int \<times> msg_header list \<times> fstore" where
  "GetMessageHdrs oe login hs s =
     (let dn = users_dir s @ ''/'' @ login @ ''/messages/''
      in if \<not> access (fst_fs s) (path_of dn) then (0, hs, s)
         else message_hdrs oe dn (case GetFileList oe (fst_fs s) dn False '''' of None \<Rightarrow> [] | Some l \<Rightarrow> l) hs s)"

end
