(* ===== verification/Stg_FSSave.thy ===== *)
theory Stg_FSSave
  imports Stg_FSLogs
begin

text \<open>
  Saving and reading back, in general: a list of parameters written into a configuration file, the file moved into place,
  and the same file opened again. The theorems about the records of the store are instances.
\<close>

subsection \<open>Writing a list of parameters\<close>

definition assigns :: "(string \<times> string) list \<Rightarrow> param_map \<Rightarrow> param_map" where
  "assigns kvs m = fold (\<lambda>(k, v). param_assign k v) kvs m"

lemma Write_as_string:
  "WriteInt k n = WriteString k (show_int (i64 n))"
  "WriteTime k n = WriteString k (show_int n)"
  "WriteDouble k x = WriteString k (take 29 (show_fixed6 x))"
  by (simp_all add: fun_eq_iff WriteInt_def WriteTime_def WriteDouble_def WriteString_def)

lemma fold_writes:
  "fold (\<lambda>w. w) (map (\<lambda>(k, v). WriteString k v) kvs) cf =
     cf\<lparr>cf_param_val := assigns kvs (cf_param_val cf), cf_changed := cf_changed cf \<or> kvs \<noteq> []\<rparr>"
  by (induction kvs arbitrary: cf) (auto simp: assigns_def WriteString_def split: prod.splits)

lemma assigns_ok:
  "conf_ok m \<Longrightarrow> list_all (\<lambda>(k, v). clean_key k \<and> clean_value v) kvs \<Longrightarrow> conf_ok (assigns kvs m)"
  by (induction kvs arbitrary: m) (auto simp: assigns_def conf_ok_assign split: prod.splits)

lemma assigns_sorted: "sorted_params m \<Longrightarrow> sorted_params (assigns kvs m)"
  by (induction kvs arbitrary: m) (auto simp: assigns_def param_assign_sorted split: prod.splits)

lemma assigns_find_other:
  "sorted_params m \<Longrightarrow> case_key j \<notin> set (map (case_key \<circ> fst) kvs) \<Longrightarrow> param_find j (assigns kvs m) = param_find j m"
  by (induction kvs arbitrary: m)
    (auto simp: assigns_def param_find_assign param_assign_sorted split: prod.splits)

text \<open>Each parameter written is found, under any spelling of its name.\<close>

lemma assigns_find:
  "sorted_params m \<Longrightarrow> distinct (map (case_key \<circ> fst) kvs) \<Longrightarrow>
   map_of (map (\<lambda>(k, v). (case_key k, v)) kvs) (case_key j) = Some v \<Longrightarrow> param_find j (assigns kvs m) = Some v"
proof (induction kvs arbitrary: m)
  case (Cons a kvs)
  obtain k w where a: "a = (k, w)" by force
  have s: "sorted_params (param_assign k w m)" using Cons.prems(1) by (rule param_assign_sorted)
  have eq: "assigns (a # kvs) m = assigns kvs (param_assign k w m)" by (simp add: a assigns_def)
  show ?case
  proof (cases "case_key k = case_key j")
    case True
    then have "case_key j \<notin> set (map (case_key \<circ> fst) kvs)" using Cons.prems(2) by (simp add: a)
    then show ?thesis
      unfolding eq using assigns_find_other [OF s, of j kvs] Cons.prems True by (simp add: param_find_assign a)
  next
    case False
    then show ?thesis unfolding eq using Cons.IH [OF s] Cons.prems by (simp add: a)
  qed
qed simp

subsection \<open>Moving the file into place\<close>

definition saves :: "os_env \<Rightarrow> fs \<Rightarrow> string \<Rightarrow> bool" where
  "saves oe fs fn \<longleftrightarrow>
     (let p = path_of fn; q = path_of (tmp_name oe fn)
      in p \<noteq> [] \<and> q \<noteq> p \<and> writable oe fs q \<and> oe_rename oe q p
         \<and> is_dir (fs_node fs (butlast p)) \<and> \<not> is_dir (fs_node fs p))"

lemma saves_same: "same_content fs fs' \<Longrightarrow> saves oe fs' fn = saves oe fs fn"
  by (simp add: saves_def writable_def same_content_dir)

lemma close_conf_saves:
  assumes "saves oe fs fn" and "cf_changed cf" and "cf_fileName cf = fn"
  shows "map_of (close_conf oe cf fs) r =
    (if r = path_of fn then Some (File (oe_disk oe (path_of (tmp_name oe fn)) (print_map (cf_param_val cf)))
       (file_attr oe fs (path_of (tmp_name oe fn))))
     else if r = path_of (tmp_name oe fn) then None else map_of fs r)"
proof -
  define p q where "p = path_of fn" and "q = path_of (tmp_name oe fn)"
  note s = assms(1) [unfolded saves_def Let_def, folded p_def q_def]
  let ?n = "File (oe_disk oe q (print_map (cf_param_val cf))) (file_attr oe fs q)"
  let ?fs = "set_node q ?n fs"
  have w: "writable oe fs q" using s by blast
  then have q0: "q \<noteq> []" by (simp add: writable_def)
  have d: "is_dir (fs_node ?fs (butlast p))"
  proof (cases "butlast p = q")
    case True
    then have "is_dir (fs_node fs q)" using s by simp
    then show ?thesis using w by (simp add: writable_def)
  next
    case False
    then show ?thesis using s by (auto simp: fs_node_def split: if_splits)
  qed
  have "write_text oe q (print_map (cf_param_val cf)) fs = Some ?fs" using w by (simp add: write_text_def)
  moreover have "rename_path oe q p ?fs = Some (set_node p ?n (AList.delete q ?fs))"
    using s q0 d by (auto simp: rename_path_def)
  ultimately have "close_conf oe cf fs = set_node p ?n (AList.delete q ?fs)"
    using assms(2,3) by (simp add: close_conf_def Flush_def Flush_path_def p_def q_def)
  then show ?thesis by (simp add: p_def q_def)
qed

text \<open>What a save leaves in place of the file, whatever is done to modes and owners before and after it.\<close>

lemma save_text:
  assumes "saves oe fs fn" and "same_content fs fs1"
    and "cf_changed cf" and "cf_fileName cf = fn" and "same_content (close_conf oe cf fs1) fs2"
  shows "node_text (map_of fs2 (path_of fn)) = Some (oe_disk oe (path_of (tmp_name oe fn)) (print_map (cf_param_val cf)))"
proof -
  have "saves oe fs1 fn" using assms(1,2) by (simp add: saves_same)
  from close_conf_saves [OF this assms(3,4), of "path_of fn"] assms(5) show ?thesis by (simp add: same_content_def)
qed

text \<open>A file saved with clean values and read in full opens with exactly the parameters that were in the object.\<close>

lemma reopen:
  assumes "saves oe fs fn" and "same_content fs fs1"
    and "cf_changed cf" and "cf_fileName cf = fn" and "same_content (close_conf oe cf fs1) fs2"
    and "conf_ok (cf_param_val cf)"
    and "oe_disk oe (path_of (tmp_name oe fn)) (print_map (cf_param_val cf)) = print_map (cf_param_val cf)"
    and "oe_read oe (path_of fn)"
  shows "CONFIGFILE oe fs2 fn nook = \<lparr>cf_param_val = cf_param_val cf, cf_fileName = fn, cf_error = 0, cf_changed = False\<rparr>"
proof -
  have "path_of fn \<noteq> []" using assms(1) by (simp add: saves_def Let_def)
  then have "read_text oe fs2 (path_of fn) = Some (print_map (cf_param_val cf))"
    using save_text [OF assms(1-5)] assms(7,8) by (intro read_text_file) simp_all
  then show ?thesis by (simp add: CONFIGFILE_def load_print [OF assms(6)])
qed

lemma CF_Error_opened:
  "CF_Error (CONFIGFILE oe fs fn nook) = (e, cf) \<Longrightarrow>
     conf_ok (cf_param_val cf) \<and> cf_fileName cf = fn \<and> \<not> cf_changed cf \<and> cf_error cf = 0
     \<and> cf_param_val cf = cf_param_val (CONFIGFILE oe fs fn nook)"
  using CONFIGFILE_ok [of oe fs fn nook]
  by (auto simp: CF_Error_def CONFIGFILE_def Let_def split: option.splits prod.splits)

text \<open>The disk holds all of a text.\<close>

definition disk_ok :: "os_env \<Rightarrow> bool" where
  "disk_ok oe \<longleftrightarrow> (\<forall>p t. oe_disk oe p t = t)"

text \<open>A parameter list written into a file as it is now, and the file opened again.\<close>

lemma saved_params:
  assumes "CF_Error (CONFIGFILE oe fs fn True) = (e, cf)"
    and "list_all (\<lambda>(k, v). clean_key k \<and> clean_value v) kvs" and "kvs \<noteq> []"
    and "saves oe fs fn" and "disk_ok oe" and "oe_read oe (path_of fn)" and "same_content fs fs1"
    and "same_content (close_conf oe (fold (\<lambda>w. w) (map (\<lambda>(k, v). WriteString k v) kvs) cf) fs1) fs2"
  shows "CONFIGFILE oe fs2 fn nook =
    \<lparr>cf_param_val = assigns kvs (cf_param_val cf), cf_fileName = fn, cf_error = 0, cf_changed = False\<rparr>"
proof -
  note c = CF_Error_opened [OF assms(1)]
  let ?cf = "fold (\<lambda>w. w) (map (\<lambda>(k, v). WriteString k v) kvs) cf"
  have "cf_param_val ?cf = assigns kvs (cf_param_val cf)" "cf_changed ?cf" "cf_fileName ?cf = fn"
    unfolding fold_writes using assms(3) c by simp_all
  moreover have "conf_ok (assigns kvs (cf_param_val cf))" using c assms(2) by (intro assigns_ok) simp_all
  ultimately show ?thesis using reopen [OF assms(4,7) _ _ assms(8)] assms(5,6) by (simp add: disk_ok_def)
qed

end
