(* ===== verification/Stg_FSRound.thy ===== *)
theory Stg_FSRound
  imports Stg_FSSave
begin

text \<open>
  Round trips of the records of the file store: what \<open>SaveUserStat\<close>, \<open>SaveUserConf\<close>, \<open>SaveService\<close>, \<open>SaveAdmin\<close> and
  \<open>SaveTariff\<close> write is what the matching restore returns, and what is lost on the way.
\<close>

subsection \<open>Typed reads of what the typed writes print\<close>

lemma assigns_found:
  "sorted_params m \<Longrightarrow> distinct (map (case_key \<circ> fst) kvs) \<Longrightarrow> (k, v) \<in> set kvs \<Longrightarrow> case_key j = case_key k \<Longrightarrow>
   param_find j (assigns kvs m) = Some v"
  by (rule assigns_find) (auto intro!: map_of_is_SomeI simp: comp_def split_def image_iff intro: bexI [of _ "(k, v)"])

lemma ReadString_found: "param_find k (cf_param_val cf) = Some v \<Longrightarrow> ReadString cf k d = (0, v)"
  by (simp add: ReadString_def)

lemma ReadTime_found:
  "param_find k (cf_param_val cf) = Some (show_int n) \<Longrightarrow> - (2 ^ 63) \<le> n \<Longrightarrow> n < 2 ^ 63 \<Longrightarrow> ReadTime cf k d = (0, n)"
  by (simp add: ReadTime_def read_number_def strtol_show_int)

lemma ReadInt_found:
  "param_find k (cf_param_val cf) = Some (show_int n) \<Longrightarrow> - (2 ^ 31) \<le> n \<Longrightarrow> n < 2 ^ 31 \<Longrightarrow> ReadInt cf k d = (0, n)"
  by (simp add: ReadInt_def read_number_def strtol_show_int i32_id)

lemma ReadULongLongInt_found:
  "param_find k (cf_param_val cf) = Some (show_int (i64 (uint w))) \<Longrightarrow> ReadULongLongInt cf k d = (0, w)"
proof -
  assume a: "param_find k (cf_param_val cf) = Some (show_int (i64 (uint w)))"
  have "uint w mod 2 ^ 64 = uint w" using uint_lt2p [of w] by simp
  then show ?thesis using a by (simp add: ReadULongLongInt_def read_number_def strtoul_show_i64)
qed

lemma i16_word: "word_of_int (i16 (uint (w :: u16))) = w"
  by (rule bit_word_eqI) (simp add: i16_def bit_simps)

lemma ReadUShortInt_found:
  "param_find k (cf_param_val cf) = Some (show_int (i64 (uint (w :: u16)))) \<Longrightarrow> ReadUShortInt cf k d = (0, w)"
proof -
  assume a: "param_find k (cf_param_val cf) = Some (show_int (i64 (uint w)))"
  have "uint w mod 2 ^ 64 = uint w" using uint_lt2p [of w] by simp
  then show ?thesis using a by (simp add: ReadUShortInt_def read_number_def strtoul_show_i64 i16_word)
qed

lemma ReadDouble_found:
  assumes "param_find k (cf_param_val cf) = Some (take 29 (show_fixed6 x))" and "\<bar>x\<bar> \<le> 10 ^ 15"
  shows "ReadDouble cf k d = Some (0, dbl (fixed6 x))"
proof -
  have "c_str (show_fixed6 x) = show_fixed6 x" by (rule plain_clean) (rule show_fixed6_chars)
  then show ?thesis
    using assms show_fixed6_length [OF assms(2)] by (simp add: ReadDouble_def strtod_show_fixed6)
qed

lemma ReadDouble_decimal6:
  "param_find k (cf_param_val cf) = Some (take 29 (show_fixed6 x)) \<Longrightarrow> decimal6 x \<Longrightarrow> ReadDouble cf k d = Some (0, x)"
  using ReadDouble_found [of k cf x d] by (simp add: decimal6_def)

lemmas reads_found = ReadString_found ReadTime_found ReadInt_found ReadULongLongInt_found ReadUShortInt_found
  ReadDouble_decimal6

lemma show_fixed6_clean [simp]: "clean_value (take n (show_fixed6 x))"
  by (rule plain_clean) (auto dest: in_set_takeD show_fixed6_chars)

lemma restore_all_append:
  "restore_all (fs @ gs) c = (case restore_all fs c of
     None \<Rightarrow> None | Some (Some e, c) \<Rightarrow> Some (Some e, c) | Some (None, c) \<Rightarrow> restore_all gs c)"
  by (induction fs arbitrary: c) (auto split: option.splits)

lemma take_drop_update:
  "n < length xs \<Longrightarrow> length ys = length xs \<Longrightarrow> (take n xs @ drop n ys)[n := xs ! n] = take (Suc n) xs @ drop (Suc n) ys"
  by (rule nth_equalityI) (auto simp: nth_append nth_list_update min_def)

subsection \<open>Statistics\<close>

definition stat_kvs :: "user_stat \<Rightarrow> (string \<times> string) list" where
  "stat_kvs st = concat (map (\<lambda>i. [(''D'' @ show_nat i, show_int (i64 (uint (us_monthDown st ! i)))),
       (''U'' @ show_nat i, show_int (i64 (uint (us_monthUp st ! i))))]) [0..<DIR_NUM])
     @ [(''Cash'', take 29 (show_fixed6 (us_cash st))), (''FreeMb'', take 29 (show_fixed6 (us_freeMb st))),
        (''LastCashAdd'', take 29 (show_fixed6 (us_lastCashAdd st))),
        (''LastCashAddTime'', show_int (i64 (us_lastCashAddTime st))),
        (''PassiveTime'', show_int (i64 (us_passiveTime st))),
        (''LastActivityTime'', show_int (i64 (us_lastActivityTime st)))]"

lemma stat_kvs_not_Nil [simp]: "stat_kvs st \<noteq> []"
  by (simp add: stat_kvs_def)

lemma stat_writes: "traffic_writes st @ money_writes st = map (\<lambda>(k, v). WriteString k v) (stat_kvs st)"
  by (simp add: traffic_writes_def money_writes_def stat_kvs_def Write_as_string map_concat comp_def)

definition stat_keys :: "string list" where
  "stat_keys = concat (map (\<lambda>i. [''D'' @ show_nat i, ''U'' @ show_nat i]) [0..<DIR_NUM])
     @ [''Cash'', ''FreeMb'', ''LastCashAdd'', ''LastCashAddTime'', ''PassiveTime'', ''LastActivityTime'']"

lemma stat_kvs_keys: "map fst (stat_kvs st) = stat_keys"
  by (simp add: stat_kvs_def stat_keys_def map_concat comp_def)

lemma stat_keys_ok: "distinct (map case_key stat_keys)" "list_all clean_key stat_keys"
  by code_simp+

lemma stat_kvs_distinct: "distinct (map (case_key \<circ> fst) (stat_kvs st))"
  using stat_keys_ok(1) stat_kvs_keys [of st] by (metis map_map)

lemma clean_pairs: "list_all clean_key (map fst kvs) \<Longrightarrow> list_all clean_value (map snd kvs) \<Longrightarrow>
   list_all (\<lambda>(k, v). clean_key k \<and> clean_value v) kvs"
  by (auto simp: list_all_iff)

lemma stat_kvs_clean: "list_all (\<lambda>(k, v). clean_key k \<and> clean_value v) (stat_kvs st)"
  by (rule clean_pairs) (use stat_keys_ok(2) in \<open>simp add: stat_kvs_keys\<close>, auto simp: stat_kvs_def list_all_iff)


definition time_ok :: "time_t \<Rightarrow> bool" where
  "time_ok t \<longleftrightarrow> - (2 ^ 63) \<le> t \<and> t < 2 ^ 63"

definition stat_saveable :: "user_stat \<Rightarrow> bool" where
  "stat_saveable st \<longleftrightarrow> traff_wf (us_monthUp st) \<and> traff_wf (us_monthDown st) \<and> decimal6 (us_cash st)
     \<and> decimal6 (us_freeMb st) \<and> decimal6 (us_lastCashAdd st) \<and> time_ok (us_lastCashAddTime st)
     \<and> time_ok (us_passiveTime st) \<and> time_ok (us_lastActivityTime st)"

definition stat_read :: "user_stat \<Rightarrow> user_stat \<Rightarrow> user_stat" where
  "stat_read st c = st\<lparr>us_sessionUp := us_sessionUp c, us_sessionDown := us_sessionDown c\<rparr>"

lemma stat_found:
  assumes "sorted_params m" and "cf_param_val cf = assigns (stat_kvs st) m" and "(k, v) \<in> set (stat_kvs st)"
  shows "param_find k (cf_param_val cf) = Some v"
  using assms assigns_found [OF assms(1) stat_kvs_distinct assms(3) refl] by simp

lemma traff_steps_read:
  assumes "sorted_params m" and "cf_param_val cf = assigns (stat_kvs st) m"
    and "traff_wf (us_monthUp st)" "traff_wf (us_monthDown st)" "traff_wf (us_monthUp c)" "traff_wf (us_monthDown c)"
  shows "n \<le> DIR_NUM \<Longrightarrow> restore_all (concat (map (traff_steps login cf) [0..<n])) c =
    Some (None, c\<lparr>us_monthUp := take n (us_monthUp st) @ drop n (us_monthUp c),
                  us_monthDown := take n (us_monthDown st) @ drop n (us_monthDown c)\<rparr>)"
proof (induction n)
  case (Suc n)
  have n: "n < DIR_NUM" using Suc.prems by simp
  have kv: "(''D'' @ show_nat n, show_int (i64 (uint (us_monthDown st ! n)))) \<in> set (stat_kvs st)"
    "(''U'' @ show_nat n, show_int (i64 (uint (us_monthUp st ! n)))) \<in> set (stat_kvs st)"
    using n by (auto simp: stat_kvs_def)
  note r = kv [THEN stat_found [OF assms(1,2)], THEN ReadULongLongInt_found]
  have l: "n < length (us_monthUp st)" "n < length (us_monthDown st)"
    "length (us_monthUp c) = length (us_monthUp st)" "length (us_monthDown c) = length (us_monthDown st)"
    using n assms(3-6) by (simp_all add: traff_wf_def)
  have "restore_all (traff_steps login cf n) c' =
      Some (None, c'\<lparr>us_monthDown := (us_monthDown c')[n := us_monthDown st ! n],
        us_monthUp := (us_monthUp c')[n := us_monthUp st ! n]\<rparr>)" for c'
    using r by (simp add: traff_steps_def)
  then show ?case
    using Suc n l by (simp add: restore_all_append take_drop_update)
qed simp

lemma userstat_steps_read:
  assumes m: "sorted_params m" "cf_param_val cf = assigns (stat_kvs st) m" and st: "stat_saveable st"
    and c: "traff_wf (us_monthUp c)" "traff_wf (us_monthDown c)"
  shows "restore_all (userstat_steps login cf) c = Some (None, stat_read st c)"
proof -
  have st': "traff_wf (us_monthUp st)" "traff_wf (us_monthDown st)" using st by (simp_all add: stat_saveable_def)
  have i: "i64 (us_lastCashAddTime st) = us_lastCashAddTime st" "i64 (us_passiveTime st) = us_passiveTime st"
    "i64 (us_lastActivityTime st) = us_lastActivityTime st"
    using st by (simp_all add: stat_saveable_def time_ok_def i64_id)
  have kv: "(''Cash'', take 29 (show_fixed6 (us_cash st))) \<in> set (stat_kvs st)"
    "(''FreeMb'', take 29 (show_fixed6 (us_freeMb st))) \<in> set (stat_kvs st)"
    "(''LastCashAdd'', take 29 (show_fixed6 (us_lastCashAdd st))) \<in> set (stat_kvs st)"
    "(''LastCashAddTime'', show_int (us_lastCashAddTime st)) \<in> set (stat_kvs st)"
    "(''PassiveTime'', show_int (us_passiveTime st)) \<in> set (stat_kvs st)"
    "(''LastActivityTime'', show_int (us_lastActivityTime st)) \<in> set (stat_kvs st)"
    by (simp_all add: stat_kvs_def i)
  note r = kv [THEN stat_found [OF m]]
  have d: "ReadDouble cf ''Cash'' 0 = Some (0, us_cash st)" "ReadDouble cf ''FreeMb'' 0 = Some (0, us_freeMb st)"
    "ReadDouble cf ''LastCashAdd'' 0 = Some (0, us_lastCashAdd st)"
    using r(1-3) st by (simp_all add: ReadDouble_decimal6 stat_saveable_def)
  have t: "ReadTime cf ''LastCashAddTime'' 0 = (0, us_lastCashAddTime st)" "ReadTime cf ''PassiveTime'' 0 = (0, us_passiveTime st)"
    "ReadTime cf ''LastActivityTime'' 0 = (0, us_lastActivityTime st)"
    using r(4-6) st by (simp_all add: ReadTime_found stat_saveable_def time_ok_def)
  show ?thesis
    unfolding userstat_steps_def restore_all_append traff_steps_read [OF m st' c order_refl]
    using st' c by (simp add: need_d_def need_def d t stat_read_def traff_wf_def)
qed


text \<open>The conditions under which a save can succeed: the file as it is can be loaded, the new one can be written next to
  it in full and moved over it, and it can be read.\<close>

definition can_save :: "os_env \<Rightarrow> fs \<Rightarrow> string \<Rightarrow> bool" where
  "can_save oe fs fn \<longleftrightarrow> cf_error (CONFIGFILE oe fs fn True) = 0 \<and> saves oe fs fn \<and> oe_read oe (path_of fn)"

lemma restore_file_saved:
  assumes "CONFIGFILE oe (fst_fs s) fn False = \<lparr>cf_param_val = m, cf_fileName = fn, cf_error = 0, cf_changed = False\<rparr>"
    and "\<And>cf. cf_param_val cf = m \<Longrightarrow> restore_all (steps cf) c = Some (None, c')"
  shows "restore_file oe fn err steps c s = Some (0, c', s)"
  using assms by (simp add: restore_file_def CF_Error_def)

text \<open>Save and restore of a record in general, with changes of mode and owner before and after the save.\<close>

lemma saved_restores:
  assumes "CF_Error (CONFIGFILE oe fs fn True) = (0, cf)" and "disk_ok oe" and "can_save oe fs fn"
    and "list_all (\<lambda>(k, v). clean_key k \<and> clean_value v) kvs" and "kvs \<noteq> []"
    and "same_content fs fs1"
    and "same_content (close_conf oe (fold (\<lambda>w. w) (map (\<lambda>(k, v). WriteString k v) kvs) cf) fs1) (fst_fs s)"
    and "\<And>cf m. sorted_params m \<Longrightarrow> cf_param_val cf = assigns kvs m \<Longrightarrow> restore_all (steps cf) c = Some (None, c')"
  shows "restore_file oe fn err steps c s = Some (0, c', s)"
proof (rule restore_file_saved)
  have sv: "saves oe fs fn" "oe_read oe (path_of fn)" using assms(3) by (simp_all add: can_save_def)
  show "CONFIGFILE oe (fst_fs s) fn False =
      \<lparr>cf_param_val = assigns kvs (cf_param_val cf), cf_fileName = fn, cf_error = 0, cf_changed = False\<rparr>"
    by (rule saved_params [OF assms(1,4,5) sv(1) assms(2) sv(2) assms(6,7)])
  have "conf_ok (cf_param_val cf)" using CF_Error_opened [OF assms(1)] by blast
  then have "sorted_params (cf_param_val cf)" unfolding conf_ok_def by blast
  then show "restore_all (steps cf') c = Some (None, c')" if "cf_param_val cf' = assigns kvs (cf_param_val cf)" for cf'
    using that by (rule assms(8))
qed

lemma can_save_opens: "can_save oe fs fn \<Longrightarrow> \<exists>cf. CF_Error (CONFIGFILE oe fs fn True) = (0, cf)"
  by (simp add: can_save_def CF_Error_def)

lemma user_stat_saved:
  assumes "disk_ok oe" and "can_save oe (fst_fs s) (users_dir s @ ''/'' @ login @ ''/stat'')"
    and "stat_saveable st" and "traff_wf (us_monthUp c)" and "traff_wf (us_monthDown c)"
  shows "\<exists>s'. SaveUserStat oe st login s = (0, s') \<and> RestoreUserStat oe login c s' = Some (0, stat_read st c, s')"
proof -
  define fn where "fn = users_dir s @ ''/'' @ login @ ''/stat''"
  obtain cf where cf: "CF_Error (CONFIGFILE oe (fst_fs s) fn True) = (0, cf)"
    using can_save_opens assms(2) unfolding fn_def by blast
  define fs1 where "fs1 = close_conf oe (fold (\<lambda>w. w) (traffic_writes st @ money_writes st) cf) (fst_fs s)"
  define fs2 where "fs2 = chown oe (path_of fn) (fss_statUID (fst_settings s)) (fss_statGID (fst_settings s))
    (chmod oe (path_of fn) (fss_statMode (fst_settings s)) fs1)"
  have "same_content fs1 fs2" unfolding fs2_def by (meson same_content_trans chmod_content chown_content)
  then have "restore_file oe fn err (userstat_steps login) c (s\<lparr>fst_fs := fs2\<rparr>) = Some (0, stat_read st c, s\<lparr>fst_fs := fs2\<rparr>)" for err
    using assms(2) unfolding fs1_def stat_writes fn_def [symmetric]
    by (intro saved_restores [OF cf assms(1) _ stat_kvs_clean _ same_content_refl] userstat_steps_read [OF _ _ assms(3-5)])
      simp_all
  then have "RestoreUserStat oe login c (s\<lparr>fst_fs := fs2\<rparr>) = Some (0, stat_read st c, s\<lparr>fst_fs := fs2\<rparr>)"
    by (simp add: RestoreUserStat_def restore_or_bak_def RestoreUserStat_file_def fn_def)
  moreover have "SaveUserStat oe st login s = (0, s\<lparr>fst_fs := fs2\<rparr>)"
    using cf by (simp add: SaveUserStat_def Let_def fn_def fs1_def fs2_def)
  ultimately show ?thesis by blast
qed


subsection \<open>Configuration of a user\<close>

definition conf_kvs :: "user_conf \<Rightarrow> (string \<times> string) list" where
  "conf_kvs conf =
     [(''Password'', uc_password conf), (''Passive'', show_int (i64 (uc_passive conf))),
      (''Down'', show_int (i64 (uc_disabled conf))), (''DisabledDetailStat'', show_int (i64 (uc_disabledDetailStat conf))),
      (''AlwaysOnline'', show_int (i64 (uc_alwaysOnline conf))), (''Tariff'', uc_tariffName conf),
      (''Address'', uc_address conf), (''Phone'', uc_phone conf), (''Email'', uc_email conf), (''Note'', uc_note conf),
      (''RealName'', uc_realName conf), (''Group'', uc_group conf), (''Credit'', take 29 (show_fixed6 (uc_credit conf))),
      (''TariffChange'', uc_nextTariff conf)]
     @ map (\<lambda>i. (userdataName i, uc_userdata conf ! i)) [0..<USERDATA_NUM]
     @ [(''CreditExpire'', show_int (i64 (uc_creditExpire conf))), (''IP'', UserIPs_toString (uc_ips conf))]"

lemma conf_kvs_not_Nil [simp]: "conf_kvs conf \<noteq> []"
  by (simp add: conf_kvs_def)

lemma conf_writes: "userconf_writes conf = map (\<lambda>(k, v). WriteString k v) (conf_kvs conf)"
  by (simp add: userconf_writes_def conf_kvs_def Write_as_string comp_def)

definition conf_keys :: "string list" where
  "conf_keys = [''Password'', ''Passive'', ''Down'', ''DisabledDetailStat'', ''AlwaysOnline'', ''Tariff'', ''Address'', ''Phone'',
     ''Email'', ''Note'', ''RealName'', ''Group'', ''Credit'', ''TariffChange''] @ map userdataName [0..<USERDATA_NUM]
     @ [''CreditExpire'', ''IP'']"

lemma conf_kvs_keys: "map fst (conf_kvs conf) = conf_keys"
  by (simp add: conf_kvs_def conf_keys_def comp_def)

lemma conf_keys_ok: "distinct (map case_key conf_keys)" "list_all clean_key conf_keys"
  by code_simp+

lemma conf_kvs_distinct: "distinct (map (case_key \<circ> fst) (conf_kvs conf))"
  using conf_keys_ok(1) conf_kvs_keys [of conf] by (metis map_map)

text \<open>Texts a line can carry, numbers in the range of their types, a credit with at most six decimals, a password and a
  tariff (without them a configuration is not accepted again), and no wildcard in the address list.\<close>

definition conf_saveable :: "user_conf \<Rightarrow> bool" where
  "conf_saveable c \<longleftrightarrow> list_all clean_value [uc_password c, uc_tariffName c, uc_address c, uc_phone c, uc_email c, uc_note c,
       uc_realName c, uc_group c, uc_nextTariff c]
     \<and> list_all clean_value (uc_userdata c) \<and> length (uc_userdata c) = USERDATA_NUM
     \<and> uc_password c \<noteq> [] \<and> uc_tariffName c \<noteq> []
     \<and> list_all (\<lambda>n. - (2 ^ 31) \<le> n \<and> n < 2 ^ 31) [uc_passive c, uc_disabled c, uc_disabledDetailStat c, uc_alwaysOnline c]
     \<and> time_ok (uc_creditExpire c) \<and> decimal6 (uc_credit c)
     \<and> (uc_ips c \<noteq> [] \<longrightarrow> im_ip (hd (uc_ips c)) \<noteq> 0) \<and> list_all (\<lambda>m. im_ip m \<noteq> INADDR_NONE) (uc_ips c)"

text \<open>What comes back: corporation and services of the record that is filled, every mask 32.\<close>

definition conf_read :: "user_conf \<Rightarrow> user_conf \<Rightarrow> user_conf" where
  "conf_read conf c = conf\<lparr>uc_corp := uc_corp c, uc_services := uc_services c,
     uc_ips := map (\<lambda>m. IPMask (im_ip m) 32) (uc_ips conf)\<rparr>"

lemma join_set: "c \<in> set (join sep xs) \<Longrightarrow> c \<in> set sep \<or> (\<exists>x\<in>set xs. c \<in> set x)"
  by (induction sep xs rule: join.induct) auto

lemma UserIPs_toString_clean: "clean_value (UserIPs_toString ips)"
proof (cases "ips \<noteq> [] \<and> im_ip (ips ! 0) = 0")
  case True
  then show ?thesis by (simp add: UserIPs_toString_def clean_value_def trimmed_def blank_def)
next
  case False
  have "plain_char c" if "c \<in> set (UserIPs_toString ips)" for c
    using that False by (auto simp: UserIPs_toString_def plain_char_def dest!: join_set inet_ntostring_chars split: if_splits)
  then show ?thesis by (rule plain_clean)
qed

lemma conf_kvs_clean:
  assumes "conf_saveable conf"
  shows "list_all (\<lambda>(k, v). clean_key k \<and> clean_value v) (conf_kvs conf)"
proof (rule clean_pairs)
  show "list_all clean_key (map fst (conf_kvs conf))" using conf_keys_ok(2) by (simp only: conf_kvs_keys)
  show "list_all clean_value (map snd (conf_kvs conf))"
    using assms by (auto simp: conf_kvs_def conf_saveable_def UserIPs_toString_clean list_all_iff)
qed

lemma parse_toString:
  assumes "\<And>ip. aton (inet_ntostring ip) = ip" and "ips \<noteq> [] \<longrightarrow> im_ip (hd ips) \<noteq> 0" and "list_all (\<lambda>m. im_ip m \<noteq> INADDR_NONE) ips"
  shows "UserIPs_parse aton (UserIPs_toString ips) = map (\<lambda>m. IPMask (im_ip m) 32) ips"
  using UserIPs_parse_print [of aton ips] assms
  by (cases "ips = []") (auto simp: UserIPs_parse_def UserIPs_toString_def list_all_iff)

lemma conf_found:
  assumes "sorted_params m" and "cf_param_val cf = assigns (conf_kvs conf) m" and "(k, v) \<in> set (conf_kvs conf)"
    and "case_key j = case_key k"
  shows "param_find j (cf_param_val cf) = Some v"
  using assms assigns_found [OF assms(1) conf_kvs_distinct assms(3,4)] by simp

lemma case_variants:
  "case_key ''tariff'' = case_key ''Tariff''" "case_key ''alwaysOnline'' = case_key ''AlwaysOnline''"
  "case_key ''down'' = case_key ''Down''" "case_key ''passive'' = case_key ''Passive''" "case_key ''email'' = case_key ''Email''"
  by code_simp+

lemma userdata_steps_read:
  assumes "sorted_params m" and "cf_param_val cf = assigns (conf_kvs conf) m"
    and "length (uc_userdata conf) = USERDATA_NUM" and "length (uc_userdata c) = USERDATA_NUM"
  shows "n \<le> USERDATA_NUM \<Longrightarrow> restore_all (map (\<lambda>i. may (ReadString cf (userdataName i) '''')
      (\<lambda>v c. c\<lparr>uc_userdata := (uc_userdata c)[i := v]\<rparr>)) [0..<n]) c =
    Some (None, c\<lparr>uc_userdata := take n (uc_userdata conf) @ drop n (uc_userdata c)\<rparr>)"
proof (induction n)
  case (Suc n)
  have n: "n < USERDATA_NUM" using Suc.prems by simp
  have "(userdataName n, uc_userdata conf ! n) \<in> set (conf_kvs conf)" using n by (auto simp: conf_kvs_def)
  then have "ReadString cf (userdataName n) '''' = (0, uc_userdata conf ! n)"
    by (intro ReadString_found conf_found [OF assms(1,2) _ refl])
  then show ?case
    using Suc n assms(3,4) by (simp add: restore_all_append may_def take_drop_update)
qed simp


lemma conf_reads:
  assumes m: "sorted_params m" "cf_param_val cf = assigns (conf_kvs conf) m" and c: "conf_saveable conf"
  shows "ReadString cf ''Password'' d = (0, uc_password conf)" "ReadString cf ''tariff'' d = (0, uc_tariffName conf)"
    "ReadString cf ''IP'' d = (0, UserIPs_toString (uc_ips conf))"
    "ReadInt cf ''alwaysOnline'' i = (0, uc_alwaysOnline conf)" "ReadInt cf ''down'' i = (0, uc_disabled conf)"
    "ReadInt cf ''passive'' i = (0, uc_passive conf)" "ReadInt cf ''DisabledDetailStat'' i = (0, uc_disabledDetailStat conf)"
    "ReadTime cf ''CreditExpire'' i = (0, uc_creditExpire conf)" "ReadString cf ''TariffChange'' d = (0, uc_nextTariff conf)"
    "ReadString cf ''Group'' d = (0, uc_group conf)" "ReadString cf ''RealName'' d = (0, uc_realName conf)"
    "ReadString cf ''Address'' d = (0, uc_address conf)" "ReadString cf ''Phone'' d = (0, uc_phone conf)"
    "ReadString cf ''Note'' d = (0, uc_note conf)" "ReadString cf ''email'' d = (0, uc_email conf)"
    "ReadDouble cf ''Credit'' x = Some (0, uc_credit conf)"
proof -
  have i: "i64 (uc_passive conf) = uc_passive conf" "i64 (uc_disabled conf) = uc_disabled conf"
    "i64 (uc_disabledDetailStat conf) = uc_disabledDetailStat conf" "i64 (uc_alwaysOnline conf) = uc_alwaysOnline conf"
    "i64 (uc_creditExpire conf) = uc_creditExpire conf"
    using c by (simp_all add: conf_saveable_def time_ok_def i64_id)
  note f = conf_found [OF m]
  have kv: "(''Password'', uc_password conf) \<in> set (conf_kvs conf)" "(''Tariff'', uc_tariffName conf) \<in> set (conf_kvs conf)"
    "(''IP'', UserIPs_toString (uc_ips conf)) \<in> set (conf_kvs conf)"
    "(''AlwaysOnline'', show_int (uc_alwaysOnline conf)) \<in> set (conf_kvs conf)"
    "(''Down'', show_int (uc_disabled conf)) \<in> set (conf_kvs conf)"
    "(''Passive'', show_int (uc_passive conf)) \<in> set (conf_kvs conf)"
    "(''DisabledDetailStat'', show_int (uc_disabledDetailStat conf)) \<in> set (conf_kvs conf)"
    "(''CreditExpire'', show_int (uc_creditExpire conf)) \<in> set (conf_kvs conf)"
    "(''TariffChange'', uc_nextTariff conf) \<in> set (conf_kvs conf)" "(''Group'', uc_group conf) \<in> set (conf_kvs conf)"
    "(''RealName'', uc_realName conf) \<in> set (conf_kvs conf)" "(''Address'', uc_address conf) \<in> set (conf_kvs conf)"
    "(''Phone'', uc_phone conf) \<in> set (conf_kvs conf)" "(''Note'', uc_note conf) \<in> set (conf_kvs conf)"
    "(''Email'', uc_email conf) \<in> set (conf_kvs conf)" "(''Credit'', take 29 (show_fixed6 (uc_credit conf))) \<in> set (conf_kvs conf)"
    by (simp_all add: conf_kvs_def i)
  show "ReadString cf ''Password'' d = (0, uc_password conf)" using f [OF kv(1) refl] by (rule ReadString_found)
  show "ReadString cf ''tariff'' d = (0, uc_tariffName conf)" using f [OF kv(2) case_variants(1)] by (rule ReadString_found)
  show "ReadString cf ''IP'' d = (0, UserIPs_toString (uc_ips conf))" using f [OF kv(3) refl] by (rule ReadString_found)
  show "ReadInt cf ''alwaysOnline'' i = (0, uc_alwaysOnline conf)"
    using f [OF kv(4) case_variants(2)] c by (simp add: ReadInt_found conf_saveable_def)
  show "ReadInt cf ''down'' i = (0, uc_disabled conf)"
    using f [OF kv(5) case_variants(3)] c by (simp add: ReadInt_found conf_saveable_def)
  show "ReadInt cf ''passive'' i = (0, uc_passive conf)"
    using f [OF kv(6) case_variants(4)] c by (simp add: ReadInt_found conf_saveable_def)
  show "ReadInt cf ''DisabledDetailStat'' i = (0, uc_disabledDetailStat conf)"
    using f [OF kv(7) refl] c by (simp add: ReadInt_found conf_saveable_def)
  show "ReadTime cf ''CreditExpire'' i = (0, uc_creditExpire conf)"
    using f [OF kv(8) refl] c by (simp add: ReadTime_found conf_saveable_def time_ok_def)
  show "ReadString cf ''TariffChange'' d = (0, uc_nextTariff conf)" using f [OF kv(9) refl] by (rule ReadString_found)
  show "ReadString cf ''Group'' d = (0, uc_group conf)" using f [OF kv(10) refl] by (rule ReadString_found)
  show "ReadString cf ''RealName'' d = (0, uc_realName conf)" using f [OF kv(11) refl] by (rule ReadString_found)
  show "ReadString cf ''Address'' d = (0, uc_address conf)" using f [OF kv(12) refl] by (rule ReadString_found)
  show "ReadString cf ''Phone'' d = (0, uc_phone conf)" using f [OF kv(13) refl] by (rule ReadString_found)
  show "ReadString cf ''Note'' d = (0, uc_note conf)" using f [OF kv(14) refl] by (rule ReadString_found)
  show "ReadString cf ''email'' d = (0, uc_email conf)" using f [OF kv(15) case_variants(5)] by (rule ReadString_found)
  show "ReadDouble cf ''Credit'' x = Some (0, uc_credit conf)"
    using f [OF kv(16) refl] c by (simp add: ReadDouble_decimal6 conf_saveable_def)
qed

lemma userconf_steps_read:
  assumes m: "sorted_params m" "cf_param_val cf = assigns (conf_kvs conf) m" and s: "conf_saveable conf"
    and a: "\<And>ip. oe_inet_addr oe (inet_ntostring ip) = ip" and c: "length (uc_userdata c) = USERDATA_NUM"
  shows "restore_all (userconf_steps oe login cf) c = Some (None, conf_read conf c)"
proof -
  have ips: "UserIPs_parse (oe_inet_addr oe) (UserIPs_toString (uc_ips conf)) = map (\<lambda>m. IPMask (im_ip m) 32) (uc_ips conf)"
    using s by (intro parse_toString a) (simp_all add: conf_saveable_def)
  have nz: "uc_password conf \<noteq> []" "uc_tariffName conf \<noteq> []" "length (uc_userdata conf) = USERDATA_NUM"
    using s by (simp_all add: conf_saveable_def)
  show ?thesis
    unfolding userconf_steps_def restore_all_append
    by (simp add: conf_reads [OF m s] need_present_def need_d_def need_def refuse_def may_def ips conf_read_def nz c
        userdata_steps_read [OF m nz(3) _ order_refl])
qed


lemma user_conf_saved:
  assumes "disk_ok oe" and "can_save oe (fst_fs s) (users_dir s @ ''/'' @ login @ ''/conf'')"
    and "conf_saveable conf" and "\<And>ip. oe_inet_addr oe (inet_ntostring ip) = ip" and "length (uc_userdata c) = USERDATA_NUM"
  shows "\<exists>s'. SaveUserConf oe conf login s = (0, s') \<and> RestoreUserConf oe login c s' = Some (0, conf_read conf c, s')"
proof -
  define fn where "fn = users_dir s @ ''/'' @ login @ ''/conf''"
  obtain cf where cf: "CF_Error (CONFIGFILE oe (fst_fs s) fn True) = (0, cf)"
    using can_save_opens assms(2) unfolding fn_def by blast
  define fs1 where "fs1 = chown oe (path_of fn) (fss_confUID (fst_settings s)) (fss_confGID (fst_settings s))
    (chmod oe (path_of fn) (fss_confMode (fst_settings s)) (fst_fs s))"
  define fs2 where "fs2 = close_conf oe (fold (\<lambda>w. w) (userconf_writes conf) cf) fs1"
  have sc: "same_content (fst_fs s) fs1" unfolding fs1_def by (meson same_content_trans chmod_content chown_content)
  have "restore_file oe fn err (userconf_steps oe login) c (s\<lparr>fst_fs := fs2\<rparr>) = Some (0, conf_read conf c, s\<lparr>fst_fs := fs2\<rparr>)" for err
    using assms(2) unfolding fs2_def conf_writes fn_def [symmetric]
    by (intro saved_restores [OF cf assms(1) _ conf_kvs_clean [OF assms(3)] _ sc] userconf_steps_read [OF _ _ assms(3-5)])
      simp_all
  then have "RestoreUserConf oe login c (s\<lparr>fst_fs := fs2\<rparr>) = Some (0, conf_read conf c, s\<lparr>fst_fs := fs2\<rparr>)"
    by (simp add: RestoreUserConf_def restore_or_bak_def RestoreUserConf_file_def fn_def)
  moreover have "SaveUserConf oe conf login s = (0, s\<lparr>fst_fs := fs2\<rparr>)"
    using cf by (simp add: SaveUserConf_def Let_def fn_def fs1_def fs2_def)
  ultimately show ?thesis by blast
qed

subsection \<open>Services\<close>

definition service_kvs :: "service_conf \<Rightarrow> (string \<times> string) list" where
  "service_kvs c = [(''name'', sc_name c), (''comment'', sc_comment c), (''cost'', take 29 (show_fixed6 (sc_cost c))),
     (''pay_day'', show_int (i64 (uint (sc_payDay c))))]"

lemma service_kvs_not_Nil [simp]: "service_kvs c \<noteq> []"
  by (simp add: service_kvs_def)

lemma service_kvs_ok:
  "map (case_key \<circ> fst) (service_kvs c) = [''name'', ''comment'', ''cost'', ''pay_day'']"
  "service_writes c = map (\<lambda>(k, v). WriteString k v) (service_kvs c)"
  by (simp_all add: service_kvs_def service_writes_def Write_as_string case_key_def c_str_def tolower_c_def)

definition service_saveable :: "service_conf \<Rightarrow> bool" where
  "service_saveable c \<longleftrightarrow> clean_value (sc_name c) \<and> clean_value (sc_comment c) \<and> decimal6 (sc_cost c)"

lemma service_kvs_clean: "service_saveable c \<Longrightarrow> list_all (\<lambda>(k, v). clean_key k \<and> clean_value v) (service_kvs c)"
proof (rule clean_pairs)
  have "list_all clean_key [''name'', ''comment'', ''cost'', ''pay_day'']" by code_simp
  then show "list_all clean_key (map fst (service_kvs c))" by (simp add: service_kvs_def)
qed (simp add: service_kvs_def service_saveable_def)

lemma u16_of_u8: "i64 (uint (b :: u8)) = i64 (uint (ucast b :: u16))" "ucast (ucast b :: u16) = b"
proof -
  show "i64 (uint b) = i64 (uint (ucast b :: u16))" by (simp add: uint_up_ucast is_up)
  show "ucast (ucast b :: u16) = b" by (rule bit_word_eqI) (simp add: bit_simps)
qed

lemma service_steps_read:
  assumes "sorted_params m" and "cf_param_val cf = assigns (service_kvs sv) m" and "service_saveable sv"
  shows "restore_all (service_steps name cf) c = Some (None, sv)"
proof -
  have d: "distinct (map (case_key \<circ> fst) (service_kvs sv))" by (simp add: service_kvs_ok)
  have f: "(k, v) \<in> set (service_kvs sv) \<Longrightarrow> param_find k (cf_param_val cf) = Some v" for k v
    using assigns_found [OF assms(1) d _ refl] assms(2) by simp
  have "ReadString cf ''name'' name = (0, sc_name sv)" "ReadString cf ''comment'' '''' = (0, sc_comment sv)"
    by (rule ReadString_found, rule f, simp add: service_kvs_def)+
  moreover have "ReadDouble cf ''cost'' 0 = Some (0, sc_cost sv)"
    using assms(3) by (intro ReadDouble_decimal6 f) (simp_all add: service_kvs_def service_saveable_def)
  moreover have "ReadUShortInt cf ''pay_day'' 0 = (0, ucast (sc_payDay sv))"
    by (rule ReadUShortInt_found, rule f) (simp add: service_kvs_def u16_of_u8)
  ultimately show ?thesis by (simp add: service_steps_def need_def need_d_def u16_of_u8)
qed

lemma service_saved:
  assumes "disk_ok oe" and "can_save oe (fst_fs s) (service_file (sc_name sv) s)" and "service_saveable sv"
  shows "\<exists>s'. SaveService oe sv s = (0, s') \<and> RestoreService oe (sc_name sv) c s' = Some (0, sv, s')"
proof -
  define fn where "fn = service_file (sc_name sv) s"
  obtain cf where cf: "CF_Error (CONFIGFILE oe (fst_fs s) fn True) = (0, cf)"
    using can_save_opens assms(2) unfolding fn_def by blast
  define fs2 where "fs2 = close_conf oe (fold (\<lambda>w. w) (service_writes sv) cf) (fst_fs s)"
  have "restore_file oe fn err (service_steps (sc_name sv)) c (s\<lparr>fst_fs := fs2\<rparr>) = Some (0, sv, s\<lparr>fst_fs := fs2\<rparr>)" for err
    using assms(2) unfolding fs2_def service_kvs_ok fn_def [symmetric]
    by (intro saved_restores [OF cf assms(1) _ service_kvs_clean [OF assms(3)] _ same_content_refl] service_steps_read [OF _ _ assms(3)])
      simp_all
  moreover have "SaveService oe sv s = (0, s\<lparr>fst_fs := fs2\<rparr>)" "service_file (sc_name sv) (s\<lparr>fst_fs := fs2\<rparr>) = fn"
    using cf by (simp_all add: SaveService_def Let_def fn_def fs2_def service_file_def)
  ultimately show ?thesis by (simp add: RestoreService_def)
qed

end
