(* ===== verification/Stg_FSAdmin.thy ===== *)
theory Stg_FSAdmin
  imports Stg_FSRound
begin

text \<open>
  Administrators in the file store: the password goes to the file encrypted with a fixed key and in letters. One byte of
  the ciphertext is lost on the way, which spoils its last block.
\<close>

subsection \<open>The password\<close>

lemma Encode12_clean: "clean_value (Encode12 bs n)" "c_str (Encode12 bs n) = Encode12 bs n"
proof -
  have l: "c \<in> set (Encode12 bs n) \<Longrightarrow> CHR ''a'' \<le> c" for c
    using Encode12str_letters by (fastforce simp: Encode12_def)
  have n: "\<not> blank c \<and> c \<noteq> CHR ''#'' \<and> c \<noteq> CHR 0x0A \<and> c \<noteq> CHR 0x00" if "CHR ''a'' \<le> c" for c
    using that by (auto simp: blank_def less_eq_char_def)
  show "clean_value (Encode12 bs n)"
    using l n by (cases "Encode12 bs n = []") (auto simp: clean_value_def trimmed_def dest: hd_in_set last_in_set)
  show "c_str (Encode12 bs n) = Encode12 bs n"
    using l n by (auto simp: c_str_def takeWhile_eq_all_conv)
qed

lemma length_Encode12str: "length (Encode12str s) = 2 * length s"
  by (induction s) (simp_all add: Encode12str_def)

lemma Decode21_Encode12: "length bs = ADM_PASSWD_LEN \<Longrightarrow> Decode21 (Encode12 bs ADM_PASSWD_LEN) (ADM_PASSWD_LEN + 1) = bs @ [0]"
  using encode12_decode21 [of "map char_at bs"] by (simp add: Decode21_def Encode12_def ADM_PASSWD_LEN_def comp_def)

lemma blocks_of_eq: "blocks_of bs = [take 8 bs, take 8 (drop 8 bs), take 8 (drop 16 bs), take 8 (drop 24 bs)]"
proof -
  have "[0..<ADM_PASSWD_LEN div 8] = [0, 1, 2, 3]" by (simp add: ADM_PASSWD_LEN_def upt_rec)
  then show ?thesis by (simp add: blocks_of_def)
qed

text \<open>The buffer that comes out of decryption agrees with the one that went in up to the last block.\<close>

lemma admin_password_read:
  "\<exists>x. length x = 8 \<and> admin_password (admin_password_text pw) =
    (let buf = take 24 (strncpy ADM_PASSWD_LEN pw) @ x in if 0 \<in> set buf then Some (cstring buf) else None)"
proof -
  define ctx where "ctx = InitContext adm_enc_passwd (length adm_enc_passwd)"
  define a where "a = (strncpy ADM_PASSWD_LEN pw)[ADM_PASSWD_LEN - 1 := 0]"
  define c where "c = concat (map (EncryptBlock ctx) (blocks_of a))"
  define c' where "c' = c[ADM_PASSWD_LEN - 1 := 0]"
  have la: "length a = 32" by (simp add: a_def ADM_PASSWD_LEN_def)
  have lc: "length c = ADM_PASSWD_LEN" "length c' = ADM_PASSWD_LEN"
    by (simp_all add: c_def c'_def blocks_of_eq ADM_PASSWD_LEN_def)
  have tx: "admin_password_text pw = Encode12 c' ADM_PASSWD_LEN"
    by (simp add: admin_password_text_def Let_def ctx_def a_def c_def c'_def)
  have ce: "c = EncryptBlock ctx (take 8 a) @ EncryptBlock ctx (take 8 (drop 8 a))
      @ EncryptBlock ctx (take 8 (drop 16 a)) @ EncryptBlock ctx (take 8 (drop 24 a))"
    by (simp add: c_def blocks_of_eq)
  have b: "take 8 c' = EncryptBlock ctx (take 8 a)" "take 8 (drop 8 c') = EncryptBlock ctx (take 8 (drop 8 a))"
    "take 8 (drop 16 c') = EncryptBlock ctx (take 8 (drop 16 a))"
    by (simp_all add: c'_def ce ADM_PASSWD_LEN_def list_update_append take_update_cancel drop_update_cancel)
  define x where "x = DecryptBlock ctx (take 8 (drop 24 (c' @ [0])))"
  have d: "DecryptBlock ctx (EncryptBlock ctx (take 8 y)) = take 8 y" if "8 \<le> length y" for y
    using DecryptBlock_EncryptBlock [of "take 8 y" ctx "[]"] that by simp
  have "concat (map (DecryptBlock ctx) (blocks_of (c' @ [0]))) = take 8 a @ take 8 (drop 8 a) @ take 8 (drop 16 a) @ x"
    using lc la by (simp add: blocks_of_eq b d x_def ADM_PASSWD_LEN_def)
  also have "take 8 a @ take 8 (drop 8 a) @ take 8 (drop 16 a) @ x = take 24 a @ x"
    using take_add [of 8 16 a] take_add [of 8 8 "drop 8 a"] by simp
  also have "take 24 a = take 24 (strncpy ADM_PASSWD_LEN pw)"
    by (simp add: a_def ADM_PASSWD_LEN_def take_update_cancel)
  finally have dec: "concat (map (DecryptBlock ctx) (blocks_of (c' @ [0]))) = take 24 (strncpy ADM_PASSWD_LEN pw) @ x" .
  have lt: "length (Encode12 c' ADM_PASSWD_LEN) = 2 * ADM_PASSWD_LEN" using lc by (simp add: Encode12_def length_Encode12str)
  then have "Encode12 c' ADM_PASSWD_LEN \<noteq> []" by (auto simp: ADM_PASSWD_LEN_def)
  then have "admin_password (admin_password_text pw) =
      (let buf = take 24 (strncpy ADM_PASSWD_LEN pw) @ x in if 0 \<in> set buf then Some (cstring buf) else None)"
    using lt unfolding admin_password_def tx Let_def Encode12_clean ctx_def [symmetric]
    by (simp only: take_all Decode21_Encode12 [OF lc(2)] dec order_refl if_False)
  moreover have "length x = 8" by (simp add: x_def)
  ultimately show ?thesis by blast
qed

lemma admin_password_short:
  assumes "length pw \<le> 23" and "CHR 0x00 \<notin> set pw"
  shows "admin_password (admin_password_text pw) = Some pw"
proof -
  obtain x where x: "admin_password (admin_password_text pw) =
      (let buf = take 24 (strncpy ADM_PASSWD_LEN pw) @ x in if 0 \<in> set buf then Some (cstring buf) else None)"
    using admin_password_read by blast
  have nz: "byte_of c \<noteq> 0" if "c \<in> set pw" for c
  proof
    assume "byte_of c = 0"
    also have "0 = byte_of (CHR 0x00)" by (simp add: byte_of_def)
    finally have "c = CHR 0x00" by (metis char_at_byte_of)
    then show False using that assms(2) by simp
  qed
  then have tw: "takeWhile (\<lambda>c. byte_of c \<noteq> 0) pw = pw" by (auto simp: takeWhile_eq_all_conv)
  have "take 24 (strncpy ADM_PASSWD_LEN pw) = map byte_of pw @ replicate (24 - length pw) 0"
    using assms(1) unfolding strncpy_def tw by (simp add: ADM_PASSWD_LEN_def)
  moreover obtain k where "24 - length pw = Suc k" using assms(1) by (cases "24 - length pw") auto
  ultimately have b: "take 24 (strncpy ADM_PASSWD_LEN pw) @ x = map byte_of pw @ 0 # replicate k 0 @ x" by simp
  have "takeWhile (\<lambda>b. b \<noteq> 0) (map byte_of pw @ 0 # replicate k 0 @ x) = map byte_of pw"
    using nz by (simp add: takeWhile_append)
  then show ?thesis unfolding x b by (simp add: cstring_def comp_def)
qed


subsection \<open>The record\<close>

definition admin_kvs :: "admin_conf \<Rightarrow> (string \<times> string) list" where
  "admin_kvs ac = (''password'', admin_password_text (ac_password ac)) #
     map (\<lambda>(k, f). (k, show_int (i64 (uint (f (ac_priv ac))))))
       [(''ChgConf'', p_userConf), (''ChgPassword'', p_userPasswd), (''ChgStat'', p_userStat), (''ChgCash'', p_userCash),
        (''UsrAddDel'', p_userAddDel), (''ChgTariff'', p_tariffChg), (''ChgAdmin'', p_adminChg),
        (''ChgService'', p_serviceChg), (''ChgCorp'', p_corpChg)]"

definition admin_keys :: "string list" where
  "admin_keys = [''password'', ''ChgConf'', ''ChgPassword'', ''ChgStat'', ''ChgCash'', ''UsrAddDel'', ''ChgTariff'', ''ChgAdmin'',
     ''ChgService'', ''ChgCorp'']"

lemma admin_kvs_keys: "map fst (admin_kvs ac) = admin_keys" "admin_kvs ac \<noteq> []"
  by (simp_all add: admin_kvs_def admin_keys_def)

lemma admin_keys_ok: "distinct (map case_key admin_keys)" "list_all clean_key admin_keys"
  by code_simp+

lemma admin_kvs_writes: "admin_writes ac = map (\<lambda>(k, v). WriteString k v) (admin_kvs ac)"
  by (simp add: admin_writes_def admin_kvs_def Write_as_string)

lemma admin_kvs_clean: "list_all (\<lambda>(k, v). clean_key k \<and> clean_value v) (admin_kvs ac)"
proof (rule clean_pairs)
  show "list_all clean_key (map fst (admin_kvs ac))" using admin_keys_ok(2) by (simp only: admin_kvs_keys)
  show "list_all clean_value (map snd (admin_kvs ac))"
    by (simp add: admin_kvs_def admin_password_text_def Let_def Encode12_clean)
qed

lemma admin_steps_read:
  assumes "sorted_params m" and "cf_param_val cf = assigns (admin_kvs ac) m"
    and "admin_password (admin_password_text (ac_password ac)) = Some pw"
  shows "restore_all (admin_steps cf) c = Some (None, c\<lparr>ac_priv := ac_priv ac, ac_password := pw\<rparr>)"
proof -
  have d: "distinct (map (case_key \<circ> fst) (admin_kvs ac))" using admin_keys_ok(1) admin_kvs_keys(1) [of ac] by (metis map_map)
  have f: "(k, v) \<in> set (admin_kvs ac) \<Longrightarrow> param_find k (cf_param_val cf) = Some v" for k v
    using assigns_found [OF assms(1) d _ refl] assms(2) by simp
  have p: "ReadUShortInt cf k d = (0, v)" if "(k, show_int (i64 (uint v))) \<in> set (admin_kvs ac)" for k d v
    using that by (intro ReadUShortInt_found f)
  have "ReadString cf ''password'' d = (0, admin_password_text (ac_password ac))" for d
    by (rule ReadString_found, rule f) (simp add: admin_kvs_def)
  moreover have "ReadUShortInt cf ''ChgConf'' 0 = (0, p_userConf (ac_priv ac))"
    "ReadUShortInt cf ''ChgPassword'' 0 = (0, p_userPasswd (ac_priv ac))" "ReadUShortInt cf ''ChgStat'' 0 = (0, p_userStat (ac_priv ac))"
    "ReadUShortInt cf ''ChgCash'' 0 = (0, p_userCash (ac_priv ac))" "ReadUShortInt cf ''UsrAddDel'' 0 = (0, p_userAddDel (ac_priv ac))"
    "ReadUShortInt cf ''ChgTariff'' 0 = (0, p_tariffChg (ac_priv ac))" "ReadUShortInt cf ''ChgAdmin'' 0 = (0, p_adminChg (ac_priv ac))"
    "ReadUShortInt cf ''ChgService'' 0 = (0, p_serviceChg (ac_priv ac))" "ReadUShortInt cf ''ChgCorp'' 0 = (0, p_corpChg (ac_priv ac))"
    by (rule p, simp add: admin_kvs_def)+
  ultimately show ?thesis by (simp add: admin_steps_def priv_step_def priv_step_or_0_def assms(3))
qed

lemma admin_saved:
  assumes "disk_ok oe" and "can_save oe (fst_fs s) (admin_file (ac_login ac) s)"
    and "length (ac_password ac) \<le> 23" and "CHR 0x00 \<notin> set (ac_password ac)"
  shows "\<exists>s'. SaveAdmin oe ac s = (0, s')
    \<and> RestoreAdmin oe (ac_login ac) c s' = Some (0, c\<lparr>ac_priv := ac_priv ac, ac_password := ac_password ac\<rparr>, s')"
proof -
  define fn where "fn = admin_file (ac_login ac) s"
  obtain cf where cf: "CF_Error (CONFIGFILE oe (fst_fs s) fn True) = (0, cf)"
    using can_save_opens assms(2) unfolding fn_def by blast
  define fs2 where "fs2 = close_conf oe (fold (\<lambda>w. w) (admin_writes ac) cf) (fst_fs s)"
  have "restore_file oe fn err admin_steps c (s\<lparr>fst_fs := fs2\<rparr>) =
      Some (0, c\<lparr>ac_priv := ac_priv ac, ac_password := ac_password ac\<rparr>, s\<lparr>fst_fs := fs2\<rparr>)" for err
    using assms(2) unfolding fs2_def admin_kvs_writes fn_def [symmetric]
    by (intro saved_restores [OF cf assms(1) _ admin_kvs_clean admin_kvs_keys(2) same_content_refl]
        admin_steps_read [OF _ _ admin_password_short [OF assms(3,4)]]) simp_all
  moreover have "SaveAdmin oe ac s = (0, s\<lparr>fst_fs := fs2\<rparr>)" "admin_file (ac_login ac) (s\<lparr>fst_fs := fs2\<rparr>) = fn"
    using cf by (simp_all add: SaveAdmin_def Let_def fn_def fs2_def admin_file_def)
  ultimately show ?thesis by (simp add: RestoreAdmin_def)
qed

end
