(* ===== verification/Stg_FSTariff.thy ===== *)
theory Stg_FSTariff
  imports Stg_FSRound
begin

text \<open>
  Tariffs in the file store: prices per megabyte in the file, per byte in memory; the two scalings by a power of two
  cancel exactly.
\<close>

subsection \<open>Prices\<close>

lemma dbl_pos_form:
  assumes "0 < y"
  shows "\<exists>n e. dbl_pos y = of_int n * 2 powi e \<and> \<bar>n\<bar> \<le> 2 ^ 53 \<and> - 1074 \<le> e"
proof -
  let ?u = "ulp_exp y"
  have "y / 2 powi ?u \<le> 2 powi (ilog2 y + 1) / 2 powi ?u"
    using ilog2_bounds(2) [OF assms] by (intro divide_right_mono) simp_all
  also have "\<dots> = 2 powi (ilog2 y + 1 - ?u)" by (rule powi_2_div)
  also have "\<dots> \<le> 2 powi 53" by (rule powi_2_mono) (simp add: ulp_exp_def)
  finally have "rne (y / 2 powi ?u) \<le> 2 ^ 53" by (intro rne_le) simp
  moreover have "0 \<le> rne (y / 2 powi ?u)" using assms by (intro rne_ge) simp
  ultimately show ?thesis
    unfolding dbl_pos_def by (intro exI [of _ "rne (y / 2 powi ?u)"] exI [of _ ?u]) (simp add: ulp_exp_def)
qed

lemma is_dbl_form:
  assumes "is_dbl x"
  shows "\<exists>n e. x = of_int n * 2 powi e \<and> \<bar>n\<bar> \<le> 2 ^ 53 \<and> - 1074 \<le> e"
proof (cases x "0 :: rat" rule: linorder_cases)
  case less
  then have "x = - dbl_pos (- x)" using assms by (simp add: is_dbl_def dbl_def)
  moreover obtain n e where "dbl_pos (- x) = of_int n * 2 powi e" "\<bar>n\<bar> \<le> 2 ^ 53" "- 1074 \<le> e"
    using dbl_pos_form [of "- x"] less by auto
  ultimately show ?thesis by (intro exI [of _ "- n"] exI [of _ e]) simp
next
  case equal
  then show ?thesis by (intro exI [of _ 0] exI [of _ 0]) simp
next
  case greater
  then have "x = dbl_pos x" using assms by (simp add: is_dbl_def dbl_def)
  then show ?thesis using dbl_pos_form [OF greater] by metis
qed

lemma per_mega:
  assumes "is_dbl x"
  shows "dmul x pt_mega = x * 2 ^ 20" "ddiv (dmul x pt_mega) pt_mega = x"
proof -
  obtain n e where x: "x = of_int n * 2 powi e" "\<bar>n\<bar> \<le> 2 ^ 53" "- 1074 \<le> e" using is_dbl_form [OF assms] by blast
  have "is_dbl (of_int n * 2 powi (e + 20))" using x by (intro is_dbl_scaled) simp_all
  moreover have "of_int n * 2 powi (e + 20) = x * 2 ^ 20" using x(1) by (simp add: power_int_add)
  ultimately show m: "dmul x pt_mega = x * 2 ^ 20" by (simp add: dmul_def pt_mega_def is_dbl_def)
  show "ddiv (dmul x pt_mega) pt_mega = x" unfolding m using assms by (simp add: ddiv_def pt_mega_def is_dbl_def)
qed

subsection \<open>Times of day\<close>

definition clock_ok :: "int \<Rightarrow> bool" where
  "clock_ok n \<longleftrightarrow> 0 \<le> n \<and> n < 100"

lemma clock_text_ok: "clock_ok n \<Longrightarrow> show_int n = show_nat (nat n) \<and> length (show_int n) \<le> 2"
  using show_nat_length [of "nat n" 2] by (auto simp: clock_ok_def show_int_def)

lemma hour_minute_show:
  assumes "clock_ok h" and "clock_ok m"
  shows "hour_minute (show_int h @ '':'' @ show_int m) = Some (Some (h, m))"
proof -
  have nd: "CHR '':'' \<notin> set (show_nat k)" for k using show_nat_no [of "CHR '':''" k] by blast
  have "strtok CHR '':'' (join '':'' [show_int h, show_int m]) = [show_int h, show_int m]"
    using assms nd by (intro strtok_join) (auto simp: clock_text_ok)
  then have t: "strtok CHR '':'' (show_int h @ '':'' @ show_int m) = [show_int h, show_int m]" by simp
  have v: "str2x_int32 (show_int n) = Some n" if "clock_ok n" for n
    using that by (simp add: str2x_int32_def strtol10_show_int clock_ok_def i32_id)
  have "length (show_int h) \<le> 2" "length (show_int m) \<le> 2" using assms clock_text_ok by blast+
  then show ?thesis unfolding hour_minute_def t using assms by (simp add: v)
qed

lemma ParseTariffTimeStr_show:
  assumes "clock_ok h1" "clock_ok m1" "clock_ok h2" "clock_ok m2"
  shows "ParseTariffTimeStr ((show_int h1 @ '':'' @ show_int m1) @ ''-'' @ (show_int h2 @ '':'' @ show_int m2)) =
    Some (Some (h1, m1, h2, m2))"
proof -
  let ?a = "show_int h1 @ '':'' @ show_int m1" and ?b = "show_int h2 @ '':'' @ show_int m2"
  have nd: "CHR ''-'' \<notin> set (show_nat k)" for k using show_nat_no [of "CHR ''-''" k] by blast
  have "strtok CHR ''-'' (join ''-'' [?a, ?b]) = [?a, ?b]"
    using assms nd by (intro strtok_join) (auto simp: clock_text_ok)
  then have t: "strtok CHR ''-'' (?a @ ''-'' @ ?b) = [?a, ?b]" by simp
  have l: "length (show_int n) \<le> 2" if "clock_ok n" for n using that clock_text_ok by blast
  have "length ?a \<le> 5" "length ?b \<le> 5" using l [OF assms(1)] l [OF assms(2)] l [OF assms(3)] l [OF assms(4)] by simp_all
  then have "length (?a @ ''-'' @ ?b) < 48" "length ?a < 24" "length ?b < 24" by simp_all
  then show ?thesis
    unfolding ParseTariffTimeStr_def t using assms hour_minute_show [OF assms(1,2)] hour_minute_show [OF assms(3,4)]
    by (simp del: append_assoc length_append)
qed

lemma time_text_parse:
  assumes "clock_ok (hDay p)" "clock_ok (mDay p)" "clock_ok (hNight p)" "clock_ok (mNight p)"
  shows "ParseTariffTimeStr (time_text p) = Some (Some (hDay p, mDay p, hNight p, mNight p))"
    "clean_value (time_text p)" "c_str (time_text p) = time_text p"
proof -
  have l: "length (show_int n) \<le> 2" if "clock_ok n" for n using that clock_text_ok by blast
  have t: "time_text p = (show_int (hDay p) @ '':'' @ show_int (mDay p)) @ ''-'' @ (show_int (hNight p) @ '':'' @ show_int (mNight p))"
    using l [OF assms(1)] l [OF assms(2)] l [OF assms(3)] l [OF assms(4)] by (simp add: time_text_def strprintf_def)
  show "ParseTariffTimeStr (time_text p) = Some (Some (hDay p, mDay p, hNight p, mNight p))"
    unfolding t using assms by (rule ParseTariffTimeStr_show)
  have "plain_char c" if "c \<in> set (time_text p)" for c
    using that unfolding t by (auto simp: plain_char_def dest: show_int_chars)
  then show "clean_value (time_text p)" "c_str (time_text p) = time_text p" by (simp_all add: plain_clean)
qed


subsection \<open>The record\<close>

definition price_kvs :: "nat \<Rightarrow> dir_price_data \<Rightarrow> (string \<times> string) list" where
  "price_kvs i p =
     [(''PriceDayA'' @ show_nat i, take 29 (show_fixed6 (dmul (priceDayA p) pt_mega))),
      (''PriceDayB'' @ show_nat i, take 29 (show_fixed6 (dmul (priceDayB p) pt_mega))),
      (''PriceNightA'' @ show_nat i, take 29 (show_fixed6 (dmul (priceNightA p) pt_mega))),
      (''PriceNightB'' @ show_nat i, take 29 (show_fixed6 (dmul (priceNightB p) pt_mega))),
      (''Threshold'' @ show_nat i, show_int (i64 (threshold p))),
      (''Time'' @ show_nat i, time_text p),
      (''NoDiscount'' @ show_nat i, show_int (i64 (noDiscount p))),
      (''SinglePrice'' @ show_nat i, show_int (i64 (singlePrice p)))]"

definition tariff_conf_kvs :: "tariff_conf \<Rightarrow> (string \<times> string) list" where
  "tariff_conf_kvs c =
     [(''PassiveCost'', take 29 (show_fixed6 (tc_passiveCost c))), (''Fee'', take 29 (show_fixed6 (tc_fee c))),
      (''Free'', take 29 (show_fixed6 (tc_free c))), (''TraffType'', toString_TraffType (tc_traffType c)),
      (''Period'', toString_Period (tc_period c)), (''ChangePolicy'', toString_ChangePolicy (tc_changePolicy c)),
      (''ChangePolicyTimeout'', show_int (tc_changePolicyTimeout c))]"

definition tariff_kvs :: "tariff_data \<Rightarrow> (string \<times> string) list" where
  "tariff_kvs td = concat (map (\<lambda>i. price_kvs i (dirPrice td ! i)) [0..<DIR_NUM]) @ tariff_conf_kvs (tariffConf td)"

lemma tariff_kvs_writes: "tariff_writes td = map (\<lambda>(k, v). WriteString k v) (tariff_kvs td)"
  by (simp add: tariff_writes_def tariff_kvs_def tariff_conf_kvs_def price_writes_def price_kvs_def Write_as_string map_concat comp_def)

definition tariff_keys :: "string list" where
  "tariff_keys = concat (map (\<lambda>i. map (\<lambda>k. k @ show_nat i) [''PriceDayA'', ''PriceDayB'', ''PriceNightA'', ''PriceNightB'',
       ''Threshold'', ''Time'', ''NoDiscount'', ''SinglePrice'']) [0..<DIR_NUM])
     @ [''PassiveCost'', ''Fee'', ''Free'', ''TraffType'', ''Period'', ''ChangePolicy'', ''ChangePolicyTimeout'']"

lemma tariff_kvs_keys: "map fst (tariff_kvs td) = tariff_keys" "tariff_kvs td \<noteq> []"
  by (simp_all add: tariff_kvs_def tariff_conf_kvs_def tariff_keys_def price_kvs_def map_concat comp_def)

lemma tariff_keys_ok: "distinct (map case_key tariff_keys)" "list_all clean_key tariff_keys"
  by code_simp+

definition price_saveable :: "dir_price_data \<Rightarrow> bool" where
  "price_saveable p \<longleftrightarrow> list_all clock_ok [hDay p, mDay p, hNight p, mNight p]
     \<and> list_all (\<lambda>x. is_dbl x \<and> decimal6 (x * 2 ^ 20)) [priceDayA p, priceDayB p, priceNightA p, priceNightB p]
     \<and> list_all (\<lambda>n. - (2 ^ 31) \<le> n \<and> n < 2 ^ 31) [threshold p, singlePrice p, noDiscount p]"

definition tariff_saveable :: "tariff_data \<Rightarrow> bool" where
  "tariff_saveable td \<longleftrightarrow> tariff_wf td \<and> list_all price_saveable (dirPrice td)
     \<and> list_all decimal6 [tc_fee (tariffConf td), tc_free (tariffConf td), tc_passiveCost (tariffConf td)]
     \<and> time_ok (tc_changePolicyTimeout (tariffConf td))"

lemma toString_clean: "clean_value (toString_TraffType tt)" "clean_value (toString_Period pe)" "clean_value (toString_ChangePolicy cp)"
proof -
  show "clean_value (toString_TraffType tt)" by (cases tt) (simp_all add: clean_value_def trimmed_def blank_def)
  show "clean_value (toString_Period pe)" by (cases pe) (simp_all add: clean_value_def trimmed_def blank_def)
  show "clean_value (toString_ChangePolicy cp)" by (cases cp) (simp_all add: clean_value_def trimmed_def blank_def)
qed

lemma tariff_price: "tariff_saveable td \<Longrightarrow> i < DIR_NUM \<Longrightarrow> price_saveable (dirPrice td ! i)"
  by (simp add: tariff_saveable_def tariff_wf_def list_all_length)

lemma tariff_kvs_clean:
  assumes "tariff_saveable td"
  shows "list_all (\<lambda>(k, v). clean_key k \<and> clean_value v) (tariff_kvs td)"
proof (rule clean_pairs)
  show "list_all clean_key (map fst (tariff_kvs td))" using tariff_keys_ok(2) by (simp only: tariff_kvs_keys)
  have "clean_value (time_text (dirPrice td ! i))" if "i < DIR_NUM" for i
    using tariff_price [OF assms that] by (intro time_text_parse) (simp_all add: price_saveable_def)
  then show "list_all clean_value (map snd (tariff_kvs td))"
    by (auto simp: tariff_kvs_def tariff_conf_kvs_def price_kvs_def toString_clean list_all_iff)
qed

lemma tariff_found:
  assumes "sorted_params m" and "cf_param_val cf = assigns (tariff_kvs td) m" and "(k, v) \<in> set (tariff_kvs td)"
  shows "param_find k (cf_param_val cf) = Some v"
proof -
  have "distinct (map (case_key \<circ> fst) (tariff_kvs td))" using tariff_keys_ok(1) tariff_kvs_keys(1) [of td] by (metis map_map)
  then show ?thesis using assigns_found [OF assms(1) _ assms(3) refl] assms(2) by simp
qed

lemma toString_parse:
  "parseTraffType (toString_TraffType tt) = tt" "parsePeriod (toString_Period pe) = pe"
  "parseChangePolicy (toString_ChangePolicy cp) = cp"
proof -
  show "parseTraffType (toString_TraffType tt) = tt" by (cases tt) (simp_all add: parseTraffType_def strcaseeq_def tolower_c_def)
  show "parsePeriod (toString_Period pe) = pe" by (cases pe) (simp_all add: parsePeriod_def strcaseeq_def tolower_c_def)
  show "parseChangePolicy (toString_ChangePolicy cp) = cp" by (cases cp) (simp_all add: parseChangePolicy_def strcaseeq_def tolower_c_def)
qed


lemma dir_reads:
  assumes m: "sorted_params m" "cf_param_val cf = assigns (tariff_kvs td) m" and s: "tariff_saveable td" and i: "i < DIR_NUM"
  shows "ReadString cf (''Time'' @ show_nat i) d = (0, time_text (dirPrice td ! i))"
    "ReadDouble cf (''PriceDayA'' @ show_nat i) x = Some (0, priceDayA (dirPrice td ! i) * 2 ^ 20)"
    "ReadDouble cf (''PriceDayB'' @ show_nat i) x = Some (0, priceDayB (dirPrice td ! i) * 2 ^ 20)"
    "ReadDouble cf (''PriceNightA'' @ show_nat i) x = Some (0, priceNightA (dirPrice td ! i) * 2 ^ 20)"
    "ReadDouble cf (''PriceNightB'' @ show_nat i) x = Some (0, priceNightB (dirPrice td ! i) * 2 ^ 20)"
    "ReadInt cf (''Threshold'' @ show_nat i) j = (0, threshold (dirPrice td ! i))"
    "ReadInt cf (''SinglePrice'' @ show_nat i) j = (0, singlePrice (dirPrice td ! i))"
    "ReadInt cf (''NoDiscount'' @ show_nat i) j = (0, noDiscount (dirPrice td ! i))"
proof -
  let ?p = "dirPrice td ! i"
  have p: "price_saveable ?p" using s i by (rule tariff_price)
  have f: "param_find k (cf_param_val cf) = Some v" if "(k, v) \<in> set (price_kvs i ?p)" for k v
    using that i by (intro tariff_found [OF m]) (auto simp: tariff_kvs_def)
  have pr: "ReadDouble cf k x = Some (0, y * 2 ^ 20)"
    if "(k, take 29 (show_fixed6 (dmul y pt_mega))) \<in> set (price_kvs i ?p)" "is_dbl y" "decimal6 (y * 2 ^ 20)" for k y
    using ReadDouble_decimal6 [OF f [OF that(1)]] that(2,3) by (simp add: per_mega)
  have it: "ReadInt cf k j = (0, n)"
    if "(k, show_int (i64 n)) \<in> set (price_kvs i ?p)" "- (2 ^ 31) \<le> n" "n < 2 ^ 31" for k n
    using ReadInt_found [of k cf n j] f [OF that(1)] that(2,3) i64_id [of n] by simp
  show "ReadString cf (''Time'' @ show_nat i) d = (0, time_text ?p)"
    by (rule ReadString_found, rule f) (simp add: price_kvs_def)
  show "ReadDouble cf (''PriceDayA'' @ show_nat i) x = Some (0, priceDayA ?p * 2 ^ 20)"
    "ReadDouble cf (''PriceDayB'' @ show_nat i) x = Some (0, priceDayB ?p * 2 ^ 20)"
    "ReadDouble cf (''PriceNightA'' @ show_nat i) x = Some (0, priceNightA ?p * 2 ^ 20)"
    "ReadDouble cf (''PriceNightB'' @ show_nat i) x = Some (0, priceNightB ?p * 2 ^ 20)"
    using p by (intro pr; simp add: price_kvs_def price_saveable_def)+
  show "ReadInt cf (''Threshold'' @ show_nat i) j = (0, threshold ?p)"
    "ReadInt cf (''SinglePrice'' @ show_nat i) j = (0, singlePrice ?p)"
    "ReadInt cf (''NoDiscount'' @ show_nat i) j = (0, noDiscount ?p)"
    using p by (intro it; simp add: price_kvs_def price_saveable_def)+
qed

lemma price_all_fields:
  "(x :: dir_price_data)\<lparr>hDay := hDay y, mDay := mDay y, hNight := hNight y, mNight := mNight y, priceDayA := priceDayA y,
     priceDayB := priceDayB y, priceNightA := priceNightA y, priceNightB := priceNightB y, threshold := threshold y,
     singlePrice := singlePrice y, noDiscount := noDiscount y\<rparr> = y"
  by simp

lemma dir_steps_read:
  assumes m: "sorted_params m" "cf_param_val cf = assigns (tariff_kvs td) m" and s: "tariff_saveable td" and i: "i < DIR_NUM"
    and c: "i < length (dirPrice c)"
  shows "restore_all (dir_steps name cf i) c = Some (None, c\<lparr>dirPrice := (dirPrice c)[i := dirPrice td ! i]\<rparr>)"
proof -
  let ?p = "dirPrice td ! i"
  have p: "price_saveable ?p" using s i by (rule tariff_price)
  have t: "ParseTariffTimeStr (time_text ?p) = Some (Some (hDay ?p, mDay ?p, hNight ?p, mNight ?p))" "c_str (time_text ?p) = time_text ?p"
    using p by (intro time_text_parse; simp add: price_saveable_def)+
  have d: "ddiv (y * 2 ^ 20) pt_mega = y" if "is_dbl y" for y using per_mega [OF that] by simp
  note dd = d [of "priceDayA ?p"] d [of "priceDayB ?p"] d [of "priceNightA ?p"] d [of "priceNightB ?p"]
  show ?thesis
    using p c unfolding dir_steps_def
    by (simp add: time_step_def price_step_def need_present_def dir_reads [OF m s i, simplified] t dd [simplified] price_saveable_def
        upd_price_def set_times_def price_all_fields)
qed


lemma all_dirs_read:
  assumes m: "sorted_params m" "cf_param_val cf = assigns (tariff_kvs td) m" and s: "tariff_saveable td" and c: "tariff_wf c"
  shows "n \<le> DIR_NUM \<Longrightarrow> restore_all (concat (map (dir_steps name cf) [0..<n])) c =
    Some (None, c\<lparr>dirPrice := take n (dirPrice td) @ drop n (dirPrice c)\<rparr>)"
proof (induction n)
  case (Suc n)
  have l: "length (dirPrice td) = DIR_NUM" "length (dirPrice c) = DIR_NUM" using s c by (simp_all add: tariff_saveable_def tariff_wf_def)
  then have "restore_all (dir_steps name cf n) (c\<lparr>dirPrice := take n (dirPrice td) @ drop n (dirPrice c)\<rparr>) =
      Some (None, c\<lparr>dirPrice := take (Suc n) (dirPrice td) @ drop (Suc n) (dirPrice c)\<rparr>)"
    using dir_steps_read [OF m s, of n "c\<lparr>dirPrice := take n (dirPrice td) @ drop n (dirPrice c)\<rparr>"] Suc.prems
    by (simp add: take_drop_update)
  then show ?case using Suc by (simp add: restore_all_append)
qed simp

lemma tariff_steps_read:
  assumes m: "sorted_params m" "cf_param_val cf = assigns (tariff_kvs td) m" and s: "tariff_saveable td" and c: "tariff_wf c"
  shows "restore_all (tariff_steps name cf) c = Some (None, td\<lparr>tariffConf := (tariffConf td)\<lparr>tc_name := tc_name (tariffConf c)\<rparr>\<rparr>)"
proof -
  have f: "param_find k (cf_param_val cf) = Some v" if "(k, v) \<in> set (tariff_conf_kvs (tariffConf td))" for k v
    using that by (intro tariff_found [OF m]) (auto simp: tariff_kvs_def)
  have l: "length (dirPrice td) = DIR_NUM" "length (dirPrice c) = DIR_NUM" using s c by (simp_all add: tariff_saveable_def tariff_wf_def)
  have "ReadDouble cf ''Fee'' 0 = Some (0, tc_fee (tariffConf td))" "ReadDouble cf ''Free'' 0 = Some (0, tc_free (tariffConf td))"
    "ReadDouble cf ''PassiveCost'' 0 = Some (0, tc_passiveCost (tariffConf td))"
    using s by (intro ReadDouble_decimal6 f; simp add: tariff_conf_kvs_def tariff_saveable_def)+
  moreover have "ReadString cf ''TraffType'' '''' = (0, toString_TraffType (tc_traffType (tariffConf td)))"
    "ReadString cf ''Period'' ''month'' = (0, toString_Period (tc_period (tariffConf td)))"
    "ReadString cf ''ChangePolicy'' ''allow'' = (0, toString_ChangePolicy (tc_changePolicy (tariffConf td)))"
    by (intro ReadString_found f; simp add: tariff_conf_kvs_def)+
  moreover have "ReadTime cf ''ChangePolicyTimeout'' 0 = (0, tc_changePolicyTimeout (tariffConf td))"
    using s by (intro ReadTime_found f; simp add: tariff_conf_kvs_def tariff_saveable_def time_ok_def)
  ultimately show ?thesis
    unfolding tariff_steps_def restore_all_append all_dirs_read [OF m s c order_refl]
    by (simp add: need_present_d_def need_present_def may_def upd_conf_def toString_parse l)
qed

lemma tariff_saved:
  assumes "disk_ok oe" and "can_save oe (fst_fs s) (tariff_file name s)" and "tariff_saveable td" and "tariff_wf c"
  shows "\<exists>s'. SaveTariff oe td name s = (0, s')
    \<and> RestoreTariff oe name c s' = Some (0, td\<lparr>tariffConf := (tariffConf td)\<lparr>tc_name := name\<rparr>\<rparr>, s')"
proof -
  define fn where "fn = tariff_file name s"
  obtain cf where cf: "CF_Error (CONFIGFILE oe (fst_fs s) fn True) = (0, cf)"
    using can_save_opens assms(2) unfolding fn_def by blast
  define fs2 where "fs2 = close_conf oe (fold (\<lambda>w. w) (tariff_writes td) cf) (fst_fs s)"
  define c' where "c' = upd_conf (\<lambda>c. c\<lparr>tc_name := name\<rparr>) c"
  have c': "tariff_wf c'" "tc_name (tariffConf c') = name" using assms(4) by (simp_all add: c'_def upd_conf_def tariff_wf_def)
  have "restore_file oe fn err (tariff_steps name) c' (s\<lparr>fst_fs := fs2\<rparr>) =
      Some (0, td\<lparr>tariffConf := (tariffConf td)\<lparr>tc_name := tc_name (tariffConf c')\<rparr>\<rparr>, s\<lparr>fst_fs := fs2\<rparr>)" for err
    using assms(2) unfolding fs2_def tariff_kvs_writes fn_def [symmetric]
    by (intro saved_restores [OF cf assms(1) _ tariff_kvs_clean [OF assms(3)] tariff_kvs_keys(2) same_content_refl]
        tariff_steps_read [OF _ _ assms(3) c'(1)]) simp_all
  moreover have "SaveTariff oe td name s = (0, s\<lparr>fst_fs := fs2\<rparr>)" "tariff_file name (s\<lparr>fst_fs := fs2\<rparr>) = fn"
    using cf by (simp_all add: SaveTariff_def Let_def fn_def fs2_def tariff_file_def)
  ultimately show ?thesis by (simp add: RestoreTariff_def c'(2) flip: c'_def)
qed

end
