(* ===== verification/Stg_FSMessages.thy ===== *)
theory Stg_FSMessages
  imports Stg_FSSave
begin

text \<open>
  Messages in the file store: what \<open>FS_AddMessage\<close> writes, \<open>GetMessage\<close> reads, whatever header and text; only the version
  number of the header is not stored.
\<close>

subsection \<open>Paths\<close>

lemma split_on_append_all: "split_on d acc (s @ d # t) = split_on d acc s @ split_on d [] t"
  by (induction d acc s rule: split_on.induct) auto

lemma path_of_child: "x \<noteq> [] \<Longrightarrow> CHR ''/'' \<notin> set x \<Longrightarrow> path_of (p @ ''/'' @ x) = path_of p @ [x]"
  by (simp add: path_of_def strtok_def split_on_append_all split_on_nodelim)

subsection \<open>Lines of a message file\<close>

lemma fgets_line:
  assumes "CHR 0x0A \<notin> set l" and "length l < n - 1"
  shows "fgets n (l @ CHR 0x0A # r) = Some (l @ [CHR 0x0A], r, False)"
proof -
  obtain k where k: "n - 1 - length l = Suc k" using assms(2) by (cases "n - 1 - length l") auto
  have t: "take (n - 1) (l @ CHR 0x0A # r) = l @ CHR 0x0A # take k r" using assms(2) k by simp
  have w: "takeWhile (\<lambda>c. c \<noteq> CHR 0x0A) (l @ CHR 0x0A # take k r) = l"
    using assms(1) by (induction l) auto
  show ?thesis unfolding fgets_def Let_def t w by simp
qed

lemma cut_last_absent: "c \<notin> set s \<Longrightarrow> cut_last c s = s"
  by (simp add: cut_last_def)

lemma cut_last_snoc: "cut_last c (s @ [c]) = s"
  by (simp add: cut_last_def)

lemma number_line: "c_str (show_int n @ [CHR 0x0A]) = show_int n @ [CHR 0x0A]"
  "cut_last CHR 0x0A (cut_last CHR 0x0D (show_int n @ [CHR 0x0A])) = show_int n" "CHR 0x0A \<notin> set (show_int n)"
proof -
  have c: "is_digit c \<or> c = CHR ''-''" if "c \<in> set (show_int n)" for c using show_int_chars that by blast
  then have d: "c \<noteq> CHR 0x00 \<and> c \<noteq> CHR 0x0A \<and> c \<noteq> CHR 0x0D" if "c \<in> set (show_int n)" for c
    using that by (fastforce simp: is_digit_def)
  show "c_str (show_int n @ [CHR 0x0A]) = show_int n @ [CHR 0x0A]" using d by (auto simp: c_str_def takeWhile_eq_all_conv)
  have "CHR 0x0D \<notin> set (show_int n @ [CHR 0x0A])" using d by auto
  then show "cut_last CHR 0x0A (cut_last CHR 0x0D (show_int n @ [CHR 0x0A])) = show_int n"
    by (simp add: cut_last_absent cut_last_snoc)
  show "CHR 0x0A \<notin> set (show_int n)" using d by blast
qed

lemma show_int_nat: "show_nat (unat w) = show_int (uint w)"
  by (simp add: show_int_def)

lemma show_int_short: "\<bar>n\<bar> < 10 ^ 10 \<Longrightarrow> length (show_int n) \<le> 11"
  using show_nat_length [of "nat \<bar>n\<bar>" 10] by (cases "n < 0") (simp_all add: show_int_def nat_less_iff)

lemma str2x_uint32_show: "\<bar>n\<bar> < 2 ^ 64 \<Longrightarrow> str2x_uint32 (show_int n) = Some (word_of_int n)"
  by (simp add: str2x_uint32_def strtol10_show_int)

lemma read_header_line:
  assumes "\<bar>n\<bar> < 10 ^ 10"
  shows "read_header fn (f # fs) (show_int n @ CHR 0x0A # r) h = read_header fn fs r (f (word_of_int n) h)"
proof -
  have "length (show_int n) < 19 - 1" using show_int_short [OF assms] by simp
  then have "fgets 19 (show_int n @ CHR 0x0A # r) = Some (show_int n @ [CHR 0x0A], r, False)"
    by (intro fgets_line number_line)
  moreover have "str2x_uint32 (show_int n) = Some (word_of_int n)" using assms by (intro str2x_uint32_show) simp
  ultimately show ?thesis by (simp add: number_line)
qed

definition stored_header :: "msg_header \<Rightarrow> msg_header \<Rightarrow> msg_header" where
  "stored_header h h0 = h\<lparr>mh_id := mh_id h0, mh_ver := mh_ver h0\<rparr>"

lemma read_header_body:
  assumes "- (2 ^ 31) \<le> mh_repeat (msg_header m)" and "mh_repeat (msg_header m) < 2 ^ 31"
  shows "read_header fn hdr_fields (message_body m) h0 = (None, stored_header (msg_header m) h0, c_str (msg_text m))"
proof -
  have u: "\<bar>uint (w :: u32)\<bar> < 10 ^ 10" for w using uint_lt2p [of w] by simp
  have r: "\<bar>mh_repeat (msg_header m)\<bar> < 10 ^ 10" using assms by simp
  have s: "sint (word_of_int (mh_repeat (msg_header m)) :: u32) = mh_repeat (msg_header m)"
    using assms by (simp add: signed_of_int signed_take_bit_int_eq_self)
  show ?thesis
    unfolding message_body_def Let_def show_int_nat hdr_fields_def append_assoc append_Cons append_Nil
    by (simp only: read_header_line u r) (simp add: stored_header_def s)
qed

lemma fgets_split: "fgets n t = Some (l, r, eof) \<Longrightarrow> l @ r = t \<and> (eof \<longrightarrow> r = [])"
  by (auto simp: fgets_def Let_def split: if_splits)

lemma read_rest_id: "CHR 0x00 \<notin> set t \<Longrightarrow> read_rest t = t"
proof (induction t rule: read_rest.induct)
  case (1 t)
  show ?case
  proof (cases "fgets 2047 t")
    case None
    then show ?thesis by (simp add: read_rest.simps [of t]) (simp add: fgets_def Let_def split: if_splits)
  next
    case (Some x)
    obtain l r eof where x: "x = (l, r, eof)" by (cases x)
    have s: "l @ r = t" "eof \<longrightarrow> r = []" using fgets_split Some x by blast+
    then have "CHR 0x00 \<notin> set l" "CHR 0x00 \<notin> set r" using 1(2) by auto
    moreover have "c_str l = l" using \<open>CHR 0x00 \<notin> set l\<close> by (auto simp: c_str_def takeWhile_eq_all_conv)
    ultimately show ?thesis using 1(1) Some x s by (auto simp: read_rest.simps [of t])
  qed
qed

lemma c_str_no_nul: "CHR 0x00 \<notin> set (c_str s)"
  by (auto simp: c_str_def dest: set_takeWhileD)

lemma ReadMessage_body:
  assumes "read_text oe (fst_fs s) (path_of fn) = Some (message_body m)"
    and "- (2 ^ 31) \<le> mh_repeat (msg_header m)" and "mh_repeat (msg_header m) < 2 ^ 31"
  shows "ReadMessage oe fn True m0 s =
    (0, \<lparr>msg_header = stored_header (msg_header m) (msg_header m0), msg_text = c_str (msg_text m)\<rparr>, s)"
  using assms by (simp add: ReadMessage_def read_header_body read_rest_id [OF c_str_no_nul])


subsection \<open>Adding and reading\<close>

definition messages_dir :: "string \<Rightarrow> fstore \<Rightarrow> string" where
  "messages_dir login s = users_dir s @ ''/'' @ login @ ''/messages''"

text \<open>The message directory is there, and the two files of a message can be written and moved in it.\<close>

definition can_add :: "os_env \<Rightarrow> string \<Rightarrow> fstore \<Rightarrow> bool" where
  "can_add oe login s \<longleftrightarrow>
     (let d = path_of (messages_dir login s); i = show_int (i64 (uint (message_id oe)))
      in is_dir (fs_node (fst_fs s) d) \<and> list_all (\<lambda>f. oe_write oe (d @ [f]) \<and> \<not> is_dir (fs_node (fst_fs s) (d @ [f]))) [i, i @ ''.new'']
         \<and> oe_printf oe (d @ [i @ ''.new'']) \<and> oe_rename oe (d @ [i @ ''.new'']) (d @ [i]) \<and> oe_read oe (d @ [i])
         \<and> length (messages_dir login s) + length i < 1023)"

lemma strprintf_short: "length t \<le> 1023 \<Longrightarrow> strprintf t = t"
  by (simp add: strprintf_def)

lemma writable_same: "same_content fs fs' \<Longrightarrow> writable oe fs' p = writable oe fs p"
  by (simp add: writable_def same_content_dir del: fs_node_map_of)

lemma message_names:
  assumes "can_add oe login s"
  shows "message_file login (message_id oe) s = messages_dir login s @ ''/'' @ show_int (i64 (uint (message_id oe)))"
    "strprintf (messages_dir login s) = messages_dir login s"
    "strprintf (messages_dir login s @ ''/'' @ show_int (i64 (uint (message_id oe)))) =
       messages_dir login s @ ''/'' @ show_int (i64 (uint (message_id oe)))"
proof -
  have l: "length (messages_dir login s @ ''/'' @ show_int (i64 (uint (message_id oe)))) \<le> 1023"
    using assms by (simp add: can_add_def Let_def)
  show "message_file login (message_id oe) s = messages_dir login s @ ''/'' @ show_int (i64 (uint (message_id oe)))"
    using strprintf_short [OF l] by (simp add: message_file_def messages_dir_def)
  show "strprintf (messages_dir login s) = messages_dir login s" using l by (intro strprintf_short) simp
  show "strprintf (messages_dir login s @ ''/'' @ show_int (i64 (uint (message_id oe)))) =
       messages_dir login s @ ''/'' @ show_int (i64 (uint (message_id oe)))" using l by (rule strprintf_short)
qed

lemma number_name: "show_int n \<noteq> []" "CHR ''/'' \<notin> set (show_int n)" "CHR ''/'' \<notin> set (show_int n @ ''.new'')"
  using show_int_chars [of "CHR ''/''" n] by (auto simp: show_int_def is_digit_def split: if_splits)

text \<open>The effect of the calls on the tree, with the names as paths.\<close>

lemma message_stored:
  assumes d: "is_dir (fs_node fs d)" and w: "writable oe fs f" "writable oe fs g" and fg: "f \<noteq> g" "butlast f = d" "butlast g = d"
    and r: "oe_rename oe g f" and n: "same_content fs fs0" and dk: "disk_ok oe"
  shows "\<exists>fs1 fs2 fs3. write_text oe f [] fs0 = Some fs1 \<and> access fs1 f \<and> write_text oe g t fs1 = Some fs2
    \<and> rename_path oe g f (chmod oe g m fs2) = Some fs3 \<and> node_text (map_of fs3 f) = Some t"
proof -
  have f0: "f \<noteq> []" "g \<noteq> []" using w by (simp_all add: writable_def)
  have df: "d \<noteq> f" "d \<noteq> g" using w d by (auto simp: writable_def)
  have w0: "writable oe fs0 f" "writable oe fs0 g" using w n by (simp_all add: writable_same)
  define fs1 where "fs1 = set_node f (File (oe_disk oe f []) (file_attr oe fs0 f)) fs0"
  have 1: "write_text oe f [] fs0 = Some fs1" using w0 by (simp add: write_text_def fs1_def)
  have d1: "is_dir (fs_node fs1 d)" using d n df by (cases "d = []") (simp_all add: fs1_def same_content_def)
  have w1: "writable oe fs1 g" using w0(2) d1 fg f0 by (simp add: writable_def fs1_def)
  define fs2 where "fs2 = set_node g (File t (file_attr oe fs1 g)) fs1"
  have 2: "write_text oe g t fs1 = Some fs2" using w1 dk by (simp add: write_text_def fs2_def disk_ok_def)
  define fs2' where "fs2' = chmod oe g m fs2"
  have sc: "same_content fs2 fs2'" by (simp add: fs2'_def)
  then have tg: "node_text (map_of fs2' g) = Some t" by (simp add: same_content_def fs2_def)
  then obtain a where a: "map_of fs2' g = Some (File t a)"
    by (cases "map_of fs2' g") (auto simp: node_text_def split: node.splits)
  have d2: "is_dir (fs_node fs2' d)" using same_content_dir [OF sc, of d] d1 df by (cases "d = []") (simp_all add: fs2_def)
  have nf: "\<not> is_dir (map_of fs2' f)" using sc fg by (simp add: same_content_def fs2_def fs1_def)
  have 3: "rename_path oe g f fs2' = Some (set_node f (File t a) (AList.delete g fs2'))"
    using a d2 nf fg f0 r by (simp add: rename_path_def)
  show ?thesis
    using 1 2 3 f0 by (intro exI [of _ fs1] exI [of _ fs2] exI [of _ "set_node f (File t a) (AList.delete g fs2')"])
      (simp add: fs2'_def access_def fs1_def)
qed

lemma message_saved:
  assumes dk: "disk_ok oe" and a: "can_add oe login s"
    and r: "- (2 ^ 31) \<le> mh_repeat (msg_header msg)" "mh_repeat (msg_header msg) < 2 ^ 31"
  shows "\<exists>msg' s'. FS_AddMessage oe msg login s = (0, msg', s') \<and> mh_id (msg_header msg') = message_id oe
    \<and> GetMessage oe (message_id oe) m0 login s' =
       (0, \<lparr>msg_header = (msg_header msg')\<lparr>mh_ver := mh_ver (msg_header m0)\<rparr>, msg_text = c_str (msg_text msg)\<rparr>, s')"
proof -
  define i where "i = show_int (i64 (uint (message_id oe)))"
  define dn where "dn = messages_dir login s"
  define d where "d = path_of dn"
  define msg' where "msg' = msg\<lparr>msg_header := (msg_header msg)\<lparr>mh_id := message_id oe\<rparr>\<rparr>"
  note nm = message_names [OF a, folded i_def dn_def] and ca = a [unfolded can_add_def Let_def, folded dn_def i_def, folded d_def]
  have p: "path_of (dn @ ''/'' @ i) = d @ [i]" "path_of ((dn @ ''/'' @ i) @ ''.new'') = d @ [i @ ''.new'']"
    using path_of_child [of i dn] path_of_child [of "i @ ''.new''" dn] number_name by (simp_all add: d_def i_def)
  define fs0 where "fs0 = chmod oe d (GetConfModeDir (fst_settings s)) (fst_fs s)"
  have w: "writable oe (fst_fs s) (d @ [i])" "writable oe (fst_fs s) (d @ [i @ ''.new''])" using ca by (simp_all add: writable_def)
  have "\<exists>fs1 fs2 fs3. write_text oe (d @ [i]) [] fs0 = Some fs1 \<and> access fs1 (d @ [i])
      \<and> write_text oe (d @ [i @ ''.new'']) (message_body msg') fs1 = Some fs2
      \<and> rename_path oe (d @ [i @ ''.new'']) (d @ [i]) (chmod oe (d @ [i @ ''.new'']) (fss_confMode (fst_settings s)) fs2) = Some fs3
      \<and> node_text (map_of fs3 (d @ [i])) = Some (message_body msg')"
    by (rule message_stored [of "fst_fs s" d]) (use ca w dk in \<open>simp_all add: fs0_def\<close>)
  then obtain fs1 fs2 fs3 where f: "write_text oe (d @ [i]) [] fs0 = Some fs1" "access fs1 (d @ [i])"
    "write_text oe (d @ [i @ ''.new'']) (message_body msg') fs1 = Some fs2"
    "rename_path oe (d @ [i @ ''.new'']) (d @ [i]) (chmod oe (d @ [i @ ''.new'']) (fss_confMode (fst_settings s)) fs2) = Some fs3"
    "node_text (map_of fs3 (d @ [i])) = Some (message_body msg')" by blast
  have mf: "message_file login (message_id oe) (s\<lparr>fst_fs := x\<rparr>) = dn @ ''/'' @ i" for x using nm(1) by (simp add: message_file_def)
  have "EditMessage oe msg' login (s\<lparr>fst_fs := fs1\<rparr>) = (0, s\<lparr>fst_fs := fs3\<rparr>)"
    using f ca unfolding EditMessage_def Let_def by (simp add: msg'_def mf p [simplified])
  moreover have "access (fst_fs s) d" using ca by (auto simp: access_def is_dir_ex)
  ultimately have "FS_AddMessage oe msg login s = (0, msg', s\<lparr>fst_fs := fs3\<rparr>)"
    using f(1) nm(2,3) unfolding FS_AddMessage_def Let_def messages_dir_def [symmetric] dn_def [symmetric]
    by (simp add: Touch_def msg'_def d_def [symmetric] i_def [symmetric] p [simplified] fs0_def)
  moreover have "read_text oe fs3 (path_of (dn @ ''/'' @ i)) = Some (message_body msg')"
    unfolding p using f(5) ca by (intro read_text_file) simp_all
  then have "GetMessage oe (message_id oe) m0 login (s\<lparr>fst_fs := fs3\<rparr>) =
      (0, \<lparr>msg_header = (msg_header msg')\<lparr>mh_ver := mh_ver (msg_header m0)\<rparr>, msg_text = c_str (msg_text msg)\<rparr>, s\<lparr>fst_fs := fs3\<rparr>)"
    unfolding GetMessage_def mf using r
    by (subst ReadMessage_body [where m = msg']) (simp_all add: msg'_def stored_header_def)
  ultimately show ?thesis by (intro exI [of _ msg'] exI [of _ "s\<lparr>fst_fs := fs3\<rparr>"]) (simp add: msg'_def)
qed

end
