(* ===== verification/Stg_FSLoss.thy ===== *)
theory Stg_FSLoss
  imports Stg_FSAdmin Stg_FSTariff Stg_FSMessages
begin

text \<open>
  What the file store loses: values a line of a configuration file cannot carry, files on a full disk, modes of files
  that are replaced, and directories it fails to remove.
\<close>


subsection \<open>Values that do not survive\<close>

lemma assigns_printable:
  "printable m \<Longrightarrow> list_all (\<lambda>(k, v). clean_key k \<and> CHR 0x0A \<notin> set v) kvs \<Longrightarrow> printable (assigns kvs m)"
proof (induction kvs arbitrary: m)
  case (Cons a kvs)
  obtain k v where a: "a = (k, v)" by force
  have "printable (param_assign k v m)"
    using Cons.prems param_assign_sorted [of m k v]
    by (fastforce simp: a printable_def list_all_iff dest: param_assign_elems)
  then show ?case using Cons by (simp add: a assigns_def)
qed (simp add: assigns_def)

lemma conf_ok_printable: "conf_ok m \<Longrightarrow> printable m"
  by (auto simp: conf_ok_def printable_def list_all_iff clean_value_def)

text \<open>The file as it opens again after a save with values that are only free of line feeds.\<close>

lemma saved_survive:
  assumes "CF_Error (CONFIGFILE oe fs fn True) = (0, cf)" and "disk_ok oe" and "can_save oe fs fn"
    and "list_all (\<lambda>(k, v). clean_key k \<and> CHR 0x0A \<notin> set v) kvs" and "kvs \<noteq> []"
    and "same_content fs fs1"
    and "same_content (close_conf oe (fold (\<lambda>w. w) (map (\<lambda>(k, v). WriteString k v) kvs) cf) fs1) fs2"
  shows "CONFIGFILE oe fs2 fn False =
    \<lparr>cf_param_val = map (apsnd survive) (assigns kvs (cf_param_val cf)), cf_fileName = fn, cf_error = 0, cf_changed = False\<rparr>"
proof -
  note c = CF_Error_opened [OF assms(1)]
  let ?cf = "fold (\<lambda>w. w) (map (\<lambda>(k, v). WriteString k v) kvs) cf"
  have f: "cf_param_val ?cf = assigns kvs (cf_param_val cf)" "cf_changed ?cf" "cf_fileName ?cf = fn"
    unfolding fold_writes using assms(5) c by simp_all
  have sv: "saves oe fs fn" "oe_read oe (path_of fn)" using assms(3) by (simp_all add: can_save_def)
  have p: "printable (assigns kvs (cf_param_val cf))" using c assms(4) by (intro assigns_printable conf_ok_printable) simp_all
  have "path_of fn \<noteq> []" using sv(1) by (simp add: saves_def Let_def)
  then have "read_text oe fs2 (path_of fn) = Some (print_map (assigns kvs (cf_param_val cf)))"
    using save_text [OF sv(1) assms(6) f(2,3) assms(7)] sv(2) assms(2) f(1)
    by (intro read_text_file) (simp_all add: disk_ok_def)
  then show ?thesis by (simp add: CONFIGFILE_def load_survive [OF p])
qed

definition conf_lines :: "user_conf \<Rightarrow> bool" where
  "conf_lines c \<longleftrightarrow> list_all (\<lambda>s. CHR 0x0A \<notin> set s) ([uc_password c, uc_tariffName c, uc_address c, uc_phone c, uc_email c, uc_note c,
       uc_realName c, uc_group c, uc_nextTariff c] @ uc_userdata c) \<and> length (uc_userdata c) = USERDATA_NUM"

lemma conf_kvs_lines: "conf_lines conf \<Longrightarrow> list_all (\<lambda>(k, v). clean_key k \<and> CHR 0x0A \<notin> set v) (conf_kvs conf)"
proof -
  assume c: "conf_lines conf"
  have n: "CHR 0x0A \<notin> set (show_int x)" "CHR 0x0A \<notin> set (take 29 (show_fixed6 y))" "CHR 0x0A \<notin> set (UserIPs_toString i)" for x y i
    using show_int_clean(1) [of x] show_fixed6_clean [of 29 y] UserIPs_toString_clean [of i] by (simp_all add: clean_value_def)
  have "list_all clean_key (map fst (conf_kvs conf))" using conf_keys_ok(2) by (simp only: conf_kvs_keys)
  moreover have "list_all (\<lambda>v. CHR 0x0A \<notin> set v) (map snd (conf_kvs conf))"
    using c n by (auto simp: conf_kvs_def conf_lines_def list_all_iff)
  ultimately show ?thesis by (auto simp: list_all_iff)
qed

lemma lost_password:
  assumes "disk_ok oe" and "can_save oe (fst_fs s) (users_dir s @ ''/'' @ login @ ''/conf'')"
    and "conf_lines conf" and "survive (uc_password conf) = []" and "\<not> fss_readBak (fst_settings s)"
  shows "\<exists>s'. SaveUserConf oe conf login s = (0, s') \<and> RestoreUserConf oe login c s' =
    Some (- 1, c\<lparr>uc_password := []\<rparr>, s'\<lparr>fst_errorStr := ''User '' @ squote login @ '' password is blank.''\<rparr>)"
proof -
  define fn where "fn = users_dir s @ ''/'' @ login @ ''/conf''"
  obtain cf where cf: "CF_Error (CONFIGFILE oe (fst_fs s) fn True) = (0, cf)"
    using can_save_opens assms(2) unfolding fn_def by blast
  define fs1 where "fs1 = chown oe (path_of fn) (fss_confUID (fst_settings s)) (fss_confGID (fst_settings s))
    (chmod oe (path_of fn) (fss_confMode (fst_settings s)) (fst_fs s))"
  define fs2 where "fs2 = close_conf oe (fold (\<lambda>w. w) (userconf_writes conf) cf) fs1"
  have sc: "same_content (fst_fs s) fs1" unfolding fs1_def by (meson same_content_trans chmod_content chown_content)
  have op: "CONFIGFILE oe fs2 fn False = \<lparr>cf_param_val = map (apsnd survive) (assigns (conf_kvs conf) (cf_param_val cf)),
      cf_fileName = fn, cf_error = 0, cf_changed = False\<rparr>"
    using assms(2) unfolding fn_def [symmetric]
    by (intro saved_survive [OF cf assms(1) _ conf_kvs_lines [OF assms(3)] _ sc]) (simp_all add: fs2_def conf_writes)
  have "conf_ok (cf_param_val cf)" using CF_Error_opened [OF cf] by blast
  then have "sorted_params (cf_param_val cf)" unfolding conf_ok_def by blast
  then have "param_find ''Password'' (assigns (conf_kvs conf) (cf_param_val cf)) = Some (uc_password conf)"
    by (rule assigns_found [OF _ conf_kvs_distinct _ refl]) (simp add: conf_kvs_def)
  then have "ReadString (CONFIGFILE oe fs2 fn False) ''Password'' '''' = (0, [])"
    by (simp add: ReadString_def op find_survive assms(4))
  then have "restore_all (userconf_steps oe login (CONFIGFILE oe fs2 fn False)) c =
      Some (Some (''User '' @ squote login @ '' password is blank.''), c\<lparr>uc_password := []\<rparr>)"
    by (simp add: userconf_steps_def need_present_def refuse_def)
  then have "RestoreUserConf_file oe login fn c (s\<lparr>fst_fs := fs2\<rparr>) =
      Some (- 1, c\<lparr>uc_password := []\<rparr>, s\<lparr>fst_fs := fs2, fst_errorStr := ''User '' @ squote login @ '' password is blank.''\<rparr>)"
    by (simp add: RestoreUserConf_file_def restore_file_def CF_Error_def op)
  then have "RestoreUserConf oe login c (s\<lparr>fst_fs := fs2\<rparr>) =
      Some (- 1, c\<lparr>uc_password := []\<rparr>, s\<lparr>fst_fs := fs2, fst_errorStr := ''User '' @ squote login @ '' password is blank.''\<rparr>)"
    using assms(5) by (simp add: RestoreUserConf_def restore_or_bak_def fn_def)
  moreover have "SaveUserConf oe conf login s = (0, s\<lparr>fst_fs := fs2\<rparr>)"
    using cf by (simp add: SaveUserConf_def Let_def fn_def fs1_def fs2_def)
  ultimately show ?thesis by (intro exI [of _ "s\<lparr>fst_fs := fs2\<rparr>"]) simp
qed


subsection \<open>A full disk\<close>

lemma full_disk:
  assumes "can_save oe (fst_fs s) (users_dir s @ ''/'' @ login @ ''/stat'')"
    and "\<And>t. oe_disk oe (path_of (tmp_name oe (users_dir s @ ''/'' @ login @ ''/stat''))) t = []"
    and "\<not> fss_readBak (fst_settings s)"
  shows "\<exists>s'. SaveUserStat oe st login s = (0, s') \<and> RestoreUserStat oe login c s' =
    Some (- 1, c, s'\<lparr>fst_errorStr := stat_not_read login ''D0''\<rparr>)"
proof -
  define fn where "fn = users_dir s @ ''/'' @ login @ ''/stat''"
  obtain cf where cf: "CF_Error (CONFIGFILE oe (fst_fs s) fn True) = (0, cf)"
    using can_save_opens assms(1) unfolding fn_def by blast
  define cf' where "cf' = fold (\<lambda>w. w) (traffic_writes st @ money_writes st) cf"
  define fs2 where "fs2 = chown oe (path_of fn) (fss_statUID (fst_settings s)) (fss_statGID (fst_settings s))
    (chmod oe (path_of fn) (fss_statMode (fst_settings s)) (close_conf oe cf' (fst_fs s)))"
  have sv: "saves oe (fst_fs s) fn" "oe_read oe (path_of fn)" using assms(1) by (simp_all add: can_save_def fn_def)
  then have p0: "path_of fn \<noteq> []" by (simp add: saves_def Let_def)
  have "same_content (close_conf oe cf' (fst_fs s)) fs2" unfolding fs2_def by (meson same_content_trans chmod_content chown_content)
  moreover have "cf_changed cf'" "cf_fileName cf' = fn"
    unfolding cf'_def stat_writes fold_writes using CF_Error_opened [OF cf] by simp_all
  ultimately have "node_text (map_of fs2 (path_of fn)) = Some []"
    using save_text [OF sv(1) same_content_refl, of cf' fs2] assms(2) by (simp add: fn_def)
  then have "read_text oe fs2 (path_of fn) = Some []" using sv(2) p0 by (intro read_text_file)
  then have op: "CONFIGFILE oe fs2 fn False = \<lparr>cf_param_val = [], cf_fileName = fn, cf_error = 0, cf_changed = False\<rparr>"
    by (simp add: CONFIGFILE_def getlines_def)
  have z: "[0..<DIR_NUM] = 0 # [Suc 0..<DIR_NUM]" by (simp add: DIR_NUM_def upt_rec)
  have "show_nat 0 = ''0''" by code_simp
  then have "restore_all (userstat_steps login (CONFIGFILE oe fs2 fn False)) c = Some (Some (stat_not_read login ''D0''), c)"
    by (simp add: userstat_steps_def z traff_steps_def ReadULongLongInt_def read_number_def op)
  then have "RestoreUserStat oe login c (s\<lparr>fst_fs := fs2\<rparr>) =
      Some (- 1, c, s\<lparr>fst_fs := fs2, fst_errorStr := stat_not_read login ''D0''\<rparr>)"
    using assms(3) op
    by (simp add: RestoreUserStat_def restore_or_bak_def RestoreUserStat_file_def restore_file_def CF_Error_def fn_def)
  moreover have "SaveUserStat oe st login s = (0, s\<lparr>fst_fs := fs2\<rparr>)"
    using cf by (simp add: SaveUserStat_def Let_def fn_def cf'_def fs2_def)
  ultimately show ?thesis by (intro exI [of _ "s\<lparr>fst_fs := fs2\<rparr>"]) simp
qed

subsection \<open>Modes of the files\<close>

lemma saved_modes:
  assumes "can_save oe (fst_fs s) (users_dir s @ ''/'' @ login @ ''/conf'')"
    and "can_save oe (fst_fs s') (users_dir s' @ ''/'' @ login @ ''/stat'')"
    and "map_of (fst_fs s) (path_of (tmp_name oe (users_dir s @ ''/'' @ login @ ''/conf''))) = None"
    and "oe_chmod oe (path_of (users_dir s' @ ''/'' @ login @ ''/stat''))"
    and "oe_chown oe (path_of (users_dir s' @ ''/'' @ login @ ''/stat''))"
  shows "map_option node_attr (map_of (fst_fs (snd (SaveUserConf oe conf login s))) (path_of (users_dir s @ ''/'' @ login @ ''/conf'')))
      = Some (new_attr oe 438)
    \<and> map_option node_attr (map_of (fst_fs (snd (SaveUserStat oe st login s'))) (path_of (users_dir s' @ ''/'' @ login @ ''/stat'')))
      = Some \<lparr>at_mode = fss_statMode (fst_settings s'), at_uid = fss_statUID (fst_settings s'), at_gid = fss_statGID (fst_settings s')\<rparr>"
proof
  define fn where "fn = users_dir s @ ''/'' @ login @ ''/conf''"
  obtain cf where cf: "CF_Error (CONFIGFILE oe (fst_fs s) fn True) = (0, cf)"
    using can_save_opens assms(1) unfolding fn_def by blast
  define cf' where "cf' = fold (\<lambda>w. w) (userconf_writes conf) cf"
  have c: "cf_changed cf'" "cf_fileName cf' = fn"
    unfolding cf'_def conf_writes fold_writes using CF_Error_opened [OF cf] by simp_all
  define fs1 where "fs1 = chown oe (path_of fn) (fss_confUID (fst_settings s)) (fss_confGID (fst_settings s))
    (chmod oe (path_of fn) (fss_confMode (fst_settings s)) (fst_fs s))"
  define q where "q = path_of (tmp_name oe fn)"
  have sc: "same_content (fst_fs s) fs1" unfolding fs1_def by (meson same_content_trans chmod_content chown_content)
  then have sv: "saves oe fs1 fn" using assms(1) by (simp add: saves_same can_save_def fn_def)
  have q: "q \<noteq> path_of fn" "q \<noteq> []" "map_of fs1 q = None"
    using sv assms(3) by (auto simp: saves_def Let_def writable_def fs1_def chown_def chmod_def q_def fn_def split: option.splits)
  then have "map_of (close_conf oe cf' fs1) (path_of fn) = Some (File (oe_disk oe q (print_map (cf_param_val cf'))) (new_attr oe 438))"
    using close_conf_saves [OF sv c, of "path_of fn"] by (simp add: file_attr_def q_def [symmetric])
  then show "map_option node_attr (map_of (fst_fs (snd (SaveUserConf oe conf login s))) (path_of (users_dir s @ ''/'' @ login @ ''/conf'')))
      = Some (new_attr oe 438)"
    using cf by (simp add: SaveUserConf_def Let_def fn_def fs1_def cf'_def)
next
  define fn where "fn = users_dir s' @ ''/'' @ login @ ''/stat''"
  obtain cf where cf: "CF_Error (CONFIGFILE oe (fst_fs s') fn True) = (0, cf)"
    using can_save_opens assms(2) unfolding fn_def by blast
  define cf' where "cf' = fold (\<lambda>w. w) (traffic_writes st @ money_writes st) cf"
  have c: "cf_changed cf'" "cf_fileName cf' = fn"
    unfolding cf'_def stat_writes fold_writes using CF_Error_opened [OF cf] by simp_all
  have sv: "saves oe (fst_fs s') fn" using assms(2) by (simp add: can_save_def fn_def)
  obtain n where n: "map_of (close_conf oe cf' (fst_fs s')) (path_of fn) = Some n" using close_conf_saves [OF sv c, of "path_of fn"] by simp
  have "SaveUserStat oe st login s' = (0, s'\<lparr>fst_fs := chown oe (path_of fn) (fss_statUID (fst_settings s')) (fss_statGID (fst_settings s'))
      (chmod oe (path_of fn) (fss_statMode (fst_settings s')) (close_conf oe cf' (fst_fs s')))\<rparr>)"
    using cf by (simp add: SaveUserStat_def Let_def fn_def cf'_def)
  then show "map_option node_attr (map_of (fst_fs (snd (SaveUserStat oe st login s'))) (path_of (users_dir s' @ ''/'' @ login @ ''/stat'')))
      = Some \<lparr>at_mode = fss_statMode (fst_settings s'), at_uid = fss_statUID (fst_settings s'), at_gid = fss_statGID (fst_settings s')\<rparr>"
    using n assms(4,5) unfolding fn_def [symmetric] by (simp add: chmod_def chown_def)
qed

subsection \<open>Removing a directory\<close>

lemma remove_entries_0: "remove_entries oe p es s = (0, s') \<Longrightarrow> s' = s"
  by (induction oe p es s rule: remove_entries.induct)
    (auto simp: remove_failed_def no_dir_def fst_fail_def split: option.splits node.splits)

lemma RemoveDir_empty:
  assumes "RemoveDir oe path s = (0, s')"
  shows "entries (fst_fs s) (path_of path) = []"
proof -
  obtain es where es: "opendir oe (fst_fs s) (path_of path) = Some es"
    using assms by (auto simp: RemoveDir_def no_dir_def fst_fail_def split: option.splits)
  obtain e s1 where r: "remove_entries oe (path_of path) es s = (e, s1)" by force
  have e: "e = 0" using assms es r by (auto simp: RemoveDir_def split: if_splits)
  then have "s1 = s" using r remove_entries_0 by blast
  then show ?thesis
    using assms es r e by (auto simp: RemoveDir_def rmdir_def remove_failed_def fst_fail_def split: if_splits option.splits)
qed

end
