(* ===== verification/Stg_FSThms.thy ===== *)
theory Stg_FSThms
  imports Stg_FSLoss
begin

text \<open>
  The properties of the configuration files and of the file store, with a small installation on which they are applied.
\<close>

subsection \<open>A small installation\<close>

definition sample_attr :: attr where
  "sample_attr = \<lparr>at_mode = 493, at_uid = 0, at_gid = 0\<rparr>"

definition sample_os :: os_env where
  "sample_os = \<lparr>oe_pid = 7, oe_now = 0, oe_usec = 42, oe_localtime = (\<lambda>_. example_tm), oe_sec = (\<lambda>_. 0), oe_uid = 0,
     oe_gid = 0, oe_umask = (\<lambda>m. m), oe_read = (\<lambda>_. True), oe_write = (\<lambda>_. True), oe_mkdir = (\<lambda>_. True),
     oe_rename = (\<lambda>_ _. True), oe_unlink = (\<lambda>_. True), oe_rmdir = (\<lambda>_. True), oe_opendir = (\<lambda>_. True),
     oe_chmod = (\<lambda>_. True), oe_chown = (\<lambda>_. True), oe_disk = (\<lambda>_ t. t), oe_printf = (\<lambda>_. True), oe_strerror = ''error'',
     oe_inet_addr = quad_addr, oe_getpwnam = (\<lambda>_. Some 0), oe_getgrnam = (\<lambda>_. Some 0)\<rparr>"

definition full_os :: os_env where
  "full_os = sample_os\<lparr>oe_disk := (\<lambda>_ _. [])\<rparr>"

definition sample_tree :: fs where
  "sample_tree = map (\<lambda>p. (p, Dir sample_attr)) [[''users''], [''users'', ''bob''], [''users'', ''bob'', ''messages''], [''admins''],
     [''tariffs''], [''services'']]"

definition sample_fstore :: fstore where
  "sample_fstore = \<lparr>fst_errorStr = '''', fst_settings = FILES_STORE_SETTINGS\<lparr>fss_usersDir := ''/users/'', fss_adminsDir := ''/admins/'',
     fss_tariffsDir := ''/tariffs/'', fss_servicesDir := ''/services/'', fss_statMode := 416, fss_confMode := 384, fss_readBak := False\<rparr>,
     fst_fs = sample_tree\<rparr>"

definition sample_user_conf :: user_conf where
  "sample_user_conf = UserConf\<lparr>uc_password := ''secret'', uc_tariffName := ''base'', uc_note := ''first floor'', uc_credit := 5,
     uc_ips := [IPMask 0x0100000A 24]\<rparr>"

definition sample_stat :: user_stat where
  "sample_stat = UserStat\<lparr>us_cash := 10, us_monthUp := replicate DIR_NUM (- 1), us_lastCashAddTime := 1700000000\<rparr>"

lemma sample_disk: "disk_ok sample_os"
  by (simp add: disk_ok_def sample_os_def)

lemma decimal6_int: "\<bar>n\<bar> \<le> 10 ^ 9 \<Longrightarrow> decimal6 (of_int n)"
proof -
  assume n: "\<bar>n\<bar> \<le> 10 ^ 9"
  have "of_int (n * 10 ^ 6) / 10 ^ 6 = (of_int n :: rat)" by simp
  moreover have "dbl (of_int n) = of_int n" using d_of_int_exact [of n] n by (simp add: d_of_int_def)
  ultimately show ?thesis using decimal6_dbl [of "n * 10 ^ 6"] n by (simp add: abs_mult)
qed

lemma decimal6_num: "decimal6 0" "decimal6 5" "decimal6 10"
  using decimal6_int [of 0] decimal6_int [of 5] decimal6_int [of 10] by simp_all

lemma sample_pid: "take 5 (show_int 7) = ''7''"
  by code_simp

lemma sample_paths:
  "path_of ''/users//bob/conf'' = [''users'', ''bob'', ''conf'']" "path_of ''/users//bob/conf.7'' = [''users'', ''bob'', ''conf.7'']"
  "path_of ''/users//bob/stat'' = [''users'', ''bob'', ''stat'']" "path_of ''/users//bob/stat.7'' = [''users'', ''bob'', ''stat.7'']"
  "path_of ''/admins//bob.adm'' = [''admins'', ''bob.adm'']" "path_of ''/admins//bob.adm.7'' = [''admins'', ''bob.adm.7'']"
  "path_of ''/tariffs//base.tf'' = [''tariffs'', ''base.tf'']" "path_of ''/tariffs//base.tf.7'' = [''tariffs'', ''base.tf.7'']"
  "path_of ''/users//bob/messages'' = [''users'', ''bob'', ''messages'']"
  by (simp_all add: path_of_def strtok_def)

lemma sample_can_save:
  "can_save sample_os sample_tree ''/users//bob/conf''" "can_save sample_os sample_tree ''/users//bob/stat''"
  "can_save sample_os sample_tree ''/admins//bob.adm''" "can_save sample_os sample_tree ''/tariffs//base.tf''"
  "can_save full_os sample_tree ''/users//bob/stat''"
  by (simp_all add: can_save_def saves_def writable_def tmp_name_def sample_pid sample_paths sample_os_def full_os_def CONFIGFILE_def
      read_text_def sample_tree_def)

lemma sample_message_id: "show_int (i64 (uint (message_id sample_os))) = ''42''"
proof -
  have "i64 (uint (message_id sample_os)) = 42" by (simp add: message_id_def sample_os_def i64_id)
  moreover have "show_int 42 = ''42''" by code_simp
  ultimately show ?thesis by simp
qed

lemma sample_can_add: "can_add sample_os ''bob'' sample_fstore"
  unfolding can_add_def sample_message_id Let_def
  by (simp add: messages_dir_def sample_fstore_def FILES_STORE_SETTINGS_def sample_paths sample_message_id
      sample_tree_def sample_os_def del: show_int_clean)

lemma sample_conf_ok: "conf_saveable sample_user_conf"
  by (simp add: conf_saveable_def sample_user_conf_def UserConf_def USERDATA_NUM_def list_all_iff clean_value_def trimmed_def blank_def time_ok_def
      decimal6_num IPMask_def INADDR_NONE_def)

lemma sample_stat_ok: "stat_saveable sample_stat"
  by (simp add: stat_saveable_def sample_stat_def UserStat_def traff_wf_def DirTraff_def time_ok_def decimal6_num)


subsection \<open>Configuration files\<close>

lemma Flush_saves:
  assumes "saves oe fs fn" and "cf_changed cf" and "cf_fileName cf = fn"
  shows "Flush oe cf fs = (0, cf\<lparr>cf_changed := False\<rparr>, close_conf oe cf fs)"
proof -
  define p q where "p = path_of fn" and "q = path_of (tmp_name oe fn)"
  note s = assms(1) [unfolded saves_def Let_def, folded p_def q_def]
  let ?fs = "set_node q (File (oe_disk oe q (print_map (cf_param_val cf))) (file_attr oe fs q)) fs"
  have w: "writable oe fs q" using s by blast
  then have q0: "q \<noteq> []" "butlast p \<noteq> q" using s by (auto simp: writable_def)
  then have "is_dir (fs_node ?fs (butlast p))" using s by (auto simp: fs_node_def split: if_splits)
  then have "rename_path oe q p ?fs \<noteq> None" using s q0 by (auto simp: rename_path_def)
  moreover have "write_text oe q (print_map (cf_param_val cf)) fs = Some ?fs" using w by (simp add: write_text_def)
  ultimately show ?thesis
    using assms(2,3) by (auto simp: close_conf_def Flush_def Flush_path_def p_def q_def split: option.splits)
qed

text \<open>C16. A configuration file that is written and read again holds the same parameters, under any spelling of their names:
  of each value what stands in front of a number sign, without the blanks around it. So a value comes back unchanged
  exactly when it has no number sign and no blank at either end (line feeds apart).\<close>

theorem conf_file_reload:
  assumes "disk_ok oe" and "saves oe fs fn" and "oe_read oe (path_of fn)"
    and "cf_changed cf" and "cf_fileName cf = fn" and "printable (cf_param_val cf)"
  shows "\<exists>fs'. Flush oe cf fs = (0, cf\<lparr>cf_changed := False\<rparr>, fs')
    \<and> cf_error (CONFIGFILE oe fs' fn nook) = 0
    \<and> (\<forall>k d. ReadString (CONFIGFILE oe fs' fn nook) k d =
         (case param_find k (cf_param_val cf) of None \<Rightarrow> (- 1, d) | Some v \<Rightarrow> (0, survive v)))
    \<and> (\<forall>v. CHR 0x0A \<notin> set v \<longrightarrow> (survive v = v \<longleftrightarrow> clean_value v))"
proof -
  have "path_of fn \<noteq> []" using assms(2) by (simp add: saves_def Let_def)
  then have "read_text oe (close_conf oe cf fs) (path_of fn) = Some (print_map (cf_param_val cf))"
    using save_text [OF assms(2) same_content_refl assms(4,5) same_content_refl] assms(1,3)
    by (intro read_text_file) (simp_all add: disk_ok_def)
  then have "CONFIGFILE oe (close_conf oe cf fs) fn nook =
      \<lparr>cf_param_val = map (apsnd survive) (cf_param_val cf), cf_fileName = fn, cf_error = 0, cf_changed = False\<rparr>"
    by (simp add: CONFIGFILE_def load_survive [OF assms(6)])
  then show ?thesis
    using Flush_saves [OF assms(2,4,5)]
    by (intro exI [of _ "close_conf oe cf fs"]) (auto simp: ReadString_def find_survive survive_clean split: option.splits)
qed

definition sample_cf :: configfile where
  "sample_cf = \<lparr>cf_param_val = [(''Note'', ''a # b''), (''Password'', '' x'')], cf_fileName = ''/users//bob/conf'', cf_error = 0,
     cf_changed = True\<rparr>"

lemma sample_survive: "survive ''a # b'' = ''a''" "survive '' x'' = ''x''"
  "param_find ''NOTE'' (cf_param_val sample_cf) = Some ''a # b''" "printable (cf_param_val sample_cf)"
  by code_simp+

theorem conf_file_reload_witness:
  "fst (Flush sample_os sample_cf sample_tree) = 0
    \<and> ReadString (CONFIGFILE sample_os (snd (snd (Flush sample_os sample_cf sample_tree))) ''/users//bob/conf'' False) ''NOTE'' ''''
      = (0, ''a'')"
proof -
  have "saves sample_os sample_tree ''/users//bob/conf''" "oe_read sample_os (path_of ''/users//bob/conf'')"
    using sample_can_save(1) by (simp_all add: can_save_def)
  then obtain fs' where "Flush sample_os sample_cf sample_tree = (0, sample_cf\<lparr>cf_changed := False\<rparr>, fs')"
    "ReadString (CONFIGFILE sample_os fs' ''/users//bob/conf'' False) ''NOTE'' '''' =
      (case param_find ''NOTE'' (cf_param_val sample_cf) of None \<Rightarrow> (- 1, '''') | Some v \<Rightarrow> (0, survive v))"
    using conf_file_reload [OF sample_disk _ _ _ _ sample_survive(4), of sample_tree "''/users//bob/conf''" False]
    by (auto simp: sample_cf_def)
  then show ?thesis by (simp add: sample_survive)
qed


subsection \<open>Records of the store\<close>

text \<open>C17. The configuration of a user, saved and restored from the files, comes back unchanged, except that corporation and
  services are not stored and every mask of the address list is 32. This holds for texts a line can carry, numbers in the
  range of their types, a credit with at most six decimals, a password and a tariff, and an address list without wildcard.
  \<open>inet_addr\<close> is only required to read what \<open>inet_ntoa\<close> prints.\<close>

theorem user_conf_file:
  assumes "disk_ok oe" and "can_save oe (fst_fs s) (users_dir s @ ''/'' @ login @ ''/conf'')"
    and "conf_saveable conf" and "\<And>ip. oe_inet_addr oe (inet_ntostring ip) = ip" and "length (uc_userdata c) = USERDATA_NUM"
  shows "\<exists>s'. SaveUserConf oe conf login s = (0, s') \<and> RestoreUserConf oe login c s' = Some (0, conf_read conf c, s')"
  using assms by (rule user_conf_saved)

lemma sample_dirs:
  "users_dir sample_fstore = ''/users/''" "admins_dir sample_fstore = ''/admins/''" "tariffs_dir sample_fstore = ''/tariffs/''"
  "fst_fs sample_fstore = sample_tree" "\<not> fss_readBak (fst_settings sample_fstore)"
  by (simp_all add: sample_fstore_def)

theorem user_conf_file_witness:
  "\<exists>s'. SaveUserConf sample_os sample_user_conf ''bob'' sample_fstore = (0, s')
    \<and> RestoreUserConf sample_os ''bob'' UserConf s' = Some (0, conf_read sample_user_conf UserConf, s')"
proof (rule user_conf_file)
  show "can_save sample_os (fst_fs sample_fstore) (users_dir sample_fstore @ ''/'' @ ''bob'' @ ''/conf'')"
    using sample_can_save(1) by (simp add: sample_dirs)
  show "oe_inet_addr sample_os (inet_ntostring ip) = ip" for ip by (simp add: sample_os_def quad_addr_inet_ntostring)
qed (simp_all add: sample_disk sample_conf_ok UserConf_def)

text \<open>C18. The statistics of a user, saved and restored, come back unchanged: the traffic counters over their whole range of 64
  bits, although they are written as signed numbers, and amounts of money with at most six decimals. The session counters
  are not stored.\<close>

theorem user_stat_file:
  assumes "disk_ok oe" and "can_save oe (fst_fs s) (users_dir s @ ''/'' @ login @ ''/stat'')"
    and "stat_saveable st" and "traff_wf (us_monthUp c)" and "traff_wf (us_monthDown c)"
  shows "\<exists>s'. SaveUserStat oe st login s = (0, s') \<and> RestoreUserStat oe login c s' = Some (0, stat_read st c, s')"
  using assms by (rule user_stat_saved)

theorem user_stat_file_witness:
  "\<exists>s'. SaveUserStat sample_os sample_stat ''bob'' sample_fstore = (0, s')
    \<and> RestoreUserStat sample_os ''bob'' UserStat s' = Some (0, stat_read sample_stat UserStat, s')"
proof (rule user_stat_file)
  show "can_save sample_os (fst_fs sample_fstore) (users_dir sample_fstore @ ''/'' @ ''bob'' @ ''/stat'')"
    using sample_can_save(2) by (simp add: sample_dirs)
qed (simp_all add: sample_disk sample_stat_ok UserStat_def)


lemma sample_tariff_ok: "tariff_saveable (TariffData ''base'')"
  by (simp add: tariff_saveable_def TariffData_def TariffConf_def tariff_wf_def list_all_iff price_saveable_def DirPriceData_def
      clock_ok_def decimal6_num time_ok_def)



definition sample_adm :: admin_conf where
  "sample_adm = \<lparr>ac_priv = Priv 0x2FFFF, ac_login = ''bob'', ac_password = ''secret''\<rparr>"


text \<open>C21. A message added to the store is read back under the identifier it was given, with the six numbers of its header and
  its text up to the first zero byte, however long.\<close>

theorem message_file_roundtrip:
  assumes "disk_ok oe" and "can_add oe login s"
    and "- (2 ^ 31) \<le> mh_repeat (msg_header msg)" and "mh_repeat (msg_header msg) < 2 ^ 31"
  shows "\<exists>msg' s'. FS_AddMessage oe msg login s = (0, msg', s') \<and> mh_id (msg_header msg') = message_id oe
    \<and> GetMessage oe (message_id oe) m0 login s' =
       (0, \<lparr>msg_header = (msg_header msg')\<lparr>mh_ver := mh_ver (msg_header m0)\<rparr>, msg_text = c_str (msg_text msg)\<rparr>, s')"
  using assms by (rule message_saved)

theorem message_file_roundtrip_witness:
  "\<exists>msg' s'. FS_AddMessage sample_os \<lparr>msg_header = Header\<lparr>mh_repeat := - 5\<rparr>, msg_text = ''hello''\<rparr> ''bob'' sample_fstore = (0, msg', s')
    \<and> msg_text (fst (snd (GetMessage sample_os (message_id sample_os) \<lparr>msg_header = Header, msg_text = ''''\<rparr> ''bob'' s'))) = ''hello''"
proof -
  have "c_str ''hello'' = ''hello''" by (simp add: c_str_def)
  then show ?thesis
    using message_file_roundtrip [OF sample_disk sample_can_add, of "\<lparr>msg_header = Header\<lparr>mh_repeat := - 5\<rparr>, msg_text = ''hello''\<rparr>"
        "\<lparr>msg_header = Header, msg_text = ''''\<rparr>"]
    by (auto simp: Header_def)
qed

subsection \<open>Losses\<close>

text \<open>C32. A password that starts with a number sign, or consists of blanks, is saved with success, but the user cannot be
  restored afterwards: the configuration is rejected for its blank password.\<close>

theorem unrestorable_password:
  assumes "disk_ok oe" and "can_save oe (fst_fs s) (users_dir s @ ''/'' @ login @ ''/conf'')"
    and "conf_lines conf" and "survive (uc_password conf) = []" and "\<not> fss_readBak (fst_settings s)"
  shows "\<exists>s'. SaveUserConf oe conf login s = (0, s') \<and> RestoreUserConf oe login c s' =
    Some (- 1, c\<lparr>uc_password := []\<rparr>, s'\<lparr>fst_errorStr := ''User '' @ squote login @ '' password is blank.''\<rparr>)"
  using assms by (rule lost_password)

theorem unrestorable_password_witness:
  "\<exists>s' c' s''. SaveUserConf sample_os (sample_user_conf\<lparr>uc_password := ''#1''\<rparr>) ''bob'' sample_fstore = (0, s')
    \<and> RestoreUserConf sample_os ''bob'' UserConf s' = Some (- 1, c', s'')"
proof -
  have "conf_lines (sample_user_conf\<lparr>uc_password := ''#1''\<rparr>)" "survive ''#1'' = ''''"
    by (simp_all add: conf_lines_def sample_user_conf_def UserConf_def survive_def Trim_def TrimL_def TrimR_def list_all_iff)
  then show ?thesis
    using unrestorable_password [OF sample_disk, of sample_fstore "''bob''" "sample_user_conf\<lparr>uc_password := ''#1''\<rparr>" UserConf]
      sample_can_save(1) by (fastforce simp: sample_dirs)
qed

text \<open>C33. A disk that takes none of the new statistics goes unnoticed: the save returns 0 and has replaced the old file by an
  empty one, from which the user's statistics cannot be restored.\<close>

theorem unnoticed_full_disk:
  assumes "can_save oe (fst_fs s) (users_dir s @ ''/'' @ login @ ''/stat'')"
    and "\<And>t. oe_disk oe (path_of (tmp_name oe (users_dir s @ ''/'' @ login @ ''/stat''))) t = []"
    and "\<not> fss_readBak (fst_settings s)"
  shows "\<exists>s'. SaveUserStat oe st login s = (0, s') \<and> RestoreUserStat oe login c s' =
    Some (- 1, c, s'\<lparr>fst_errorStr := stat_not_read login ''D0''\<rparr>)"
  using assms by (rule full_disk)

theorem unnoticed_full_disk_witness:
  "\<exists>s' s''. SaveUserStat full_os sample_stat ''bob'' sample_fstore = (0, s')
    \<and> RestoreUserStat full_os ''bob'' UserStat s' = Some (- 1, UserStat, s'')"
proof -
  have "oe_disk full_os p t = []" for p t by (simp add: full_os_def)
  then show ?thesis
    using unnoticed_full_disk [of full_os sample_fstore "''bob''" sample_stat UserStat] sample_can_save(5)
    by (fastforce simp: sample_dirs)
qed

text \<open>C22. The file of the statistics gets the mode and the owner the settings ask for. The file of the configuration, with the
  password in it, does not: they are set on the file that is about to be replaced, and the new one has the mode of any new
  file.\<close>

theorem modes_of_saved_files:
  assumes "can_save oe (fst_fs s) (users_dir s @ ''/'' @ login @ ''/conf'')"
    and "can_save oe (fst_fs s') (users_dir s' @ ''/'' @ login @ ''/stat'')"
    and "map_of (fst_fs s) (path_of (tmp_name oe (users_dir s @ ''/'' @ login @ ''/conf''))) = None"
    and "oe_chmod oe (path_of (users_dir s' @ ''/'' @ login @ ''/stat''))"
    and "oe_chown oe (path_of (users_dir s' @ ''/'' @ login @ ''/stat''))"
  shows "map_option node_attr (map_of (fst_fs (snd (SaveUserConf oe conf login s))) (path_of (users_dir s @ ''/'' @ login @ ''/conf'')))
      = Some (new_attr oe 438)
    \<and> map_option node_attr (map_of (fst_fs (snd (SaveUserStat oe st login s'))) (path_of (users_dir s' @ ''/'' @ login @ ''/stat'')))
      = Some \<lparr>at_mode = fss_statMode (fst_settings s'), at_uid = fss_statUID (fst_settings s'), at_gid = fss_statGID (fst_settings s')\<rparr>"
  using assms by (rule saved_modes)

theorem modes_of_saved_files_witness:
  "map_option (at_mode \<circ> node_attr) (map_of (fst_fs (snd (SaveUserConf sample_os sample_user_conf ''bob'' sample_fstore)))
     [''users'', ''bob'', ''conf'']) = Some 438
   \<and> fss_confMode (fst_settings sample_fstore) = 384"
proof -
  have "map_option node_attr (map_of (fst_fs (snd (SaveUserConf sample_os sample_user_conf ''bob'' sample_fstore)))
     [''users'', ''bob'', ''conf'']) = Some (new_attr sample_os 438)"
    using modes_of_saved_files [of sample_os sample_fstore "''bob''" sample_fstore sample_user_conf sample_stat] sample_can_save(1,2)
    by (simp add: sample_dirs sample_paths) (simp add: tmp_name_def sample_os_def sample_pid sample_paths sample_tree_def)
  then obtain z where "map_of (fst_fs (snd (SaveUserConf sample_os sample_user_conf ''bob'' sample_fstore))) [''users'', ''bob'', ''conf''] = Some z"
    "node_attr z = new_attr sample_os 438" by auto
  moreover have "at_mode (new_attr sample_os 438) = 438" by (simp add: new_attr_def sample_os_def)
  moreover have "fss_confMode (fst_settings sample_fstore) = 384" by (simp add: sample_fstore_def)
  ultimately show ?thesis by simp
qed

end
