(* ===== verification/Stg_AO.thy ===== *)
theory Stg_AO
  imports Stg_IAWire Stg_IATimeout
begin

text \<open>
  The authorizer for users who are always online (\<open>plugins/authorization/ao/ao.cpp\<close>): it authorizes every user with the
  flag and a single address, and follows changes of the two properties through its subscriptions. The subscriptions
  (\<open>subscriptions.h\<close>) are counted apart from the vector \<open>m_conns\<close> that should end them.
\<close>

subsection \<open>State\<close>

text \<open>Users are their identifiers. \<open>ao_subs\<close> lists the users whose properties have callbacks of the plugin, once for every
  subscription; \<open>ao_callbacks\<close> is the number of subscriptions to the registry of users, and \<open>ao_attached\<close> says whether the
  two members hold the latest of them.\<close>

record ao =
  ao_errorStr :: string
  ao_userList :: "int list"
  ao_isRunning :: bool
  ao_conns :: "int list"
  ao_subs :: "int list"
  ao_attached :: bool
  ao_callbacks :: nat

type_synonym aosys = "ao \<times> users"

definition AUTH_AO :: ao where
  "AUTH_AO = \<lparr>ao_errorStr = '''', ao_userList = [], ao_isRunning = False, ao_conns = [], ao_subs = [], ao_attached = False,
     ao_callbacks = 0\<rparr>"

text \<open>\<open>Subscriptions::notify\<close> with \<open>n\<close> callbacks of the plugin.\<close>

fun ao_notify :: "nat \<Rightarrow> (aosys \<Rightarrow> aosys option) \<Rightarrow> aosys \<Rightarrow> aosys option" where
  "ao_notify 0 f st = Some st"
| "ao_notify (Suc n) f st = Option.bind (f st) (ao_notify n f)"

subsection \<open>Subscribing to the properties of a user\<close>

definition AO_SetUserNotifiers :: "int \<Rightarrow> ao \<Rightarrow> ao" where
  "AO_SetUserNotifiers i s = s\<lparr>ao_conns := ao_conns s @ [i], ao_subs := ao_subs s @ [i]\<rparr>"

text \<open>\<open>remove_if\<close> moves the entries that stay to the front; an entry that is overwritten is not disconnected (the assignment
  of a connection drops the old one), only those the tail still holds are when \<open>erase\<close> destroys it.\<close>

definition AO_UnSetUserNotifiers :: "int \<Rightarrow> ao \<Rightarrow> ao" where
  "AO_UnSetUserNotifiers i s =
     (let kept = filter (\<lambda>j. j \<noteq> i) (ao_conns s);
          ended = count_list (drop (length kept) (ao_conns s)) i
      in s\<lparr>ao_conns := kept, ao_subs := (remove1 i ^^ ended) (ao_subs s)\<rparr>)"

subsection \<open>Authorizing and withdrawing\<close>

definition UpdateUserAuthorization :: "env \<Rightarrow> nat \<Rightarrow> int \<Rightarrow> aosys \<Rightarrow> aosys option" where
  "UpdateUserAuthorization E self i = (\<lambda>(s, us). do {
     u \<leftarrow> user_at i us;
     (if uc_alwaysOnline (u_conf u) \<noteq> 0
      then let ips = uc_ips (u_conf u)
           in if UserIPs_onlyOneIP ips
              then map_option (\<lambda>(_, us). (s, us)) (Users_Authorize E (u_login u) (im_ip (ips ! 0)) 0xFFFFFFFF self us)
              else Some (s, us)
      else Some (s, us)) })"

definition AO_Unauthorize :: "env \<Rightarrow> nat \<Rightarrow> int \<Rightarrow> aosys \<Rightarrow> aosys option" where
  "AO_Unauthorize E self i = (\<lambda>(s, us). do {
     (b, us) \<leftarrow> on_user E (\<lambda>E. IsAuthorizedBy E self) i us;
     u \<leftarrow> user_at i us;
     (if b then map_option (\<lambda>(_, us). (s, us)) (Users_Unauthorize E (u_login u) self '''' us) else Some (s, us)) })"

definition AO_AddUser :: "env \<Rightarrow> nat \<Rightarrow> int \<Rightarrow> aosys \<Rightarrow> aosys option" where
  "AO_AddUser E self i = (\<lambda>(s, us).
     let s = AO_SetUserNotifiers i s; s = s\<lparr>ao_userList := ao_userList s @ [i]\<rparr>
     in UpdateUserAuthorization E self i (s, us))"

definition AO_DelUser :: "env \<Rightarrow> nat \<Rightarrow> int \<Rightarrow> aosys \<Rightarrow> aosys option" where
  "AO_DelUser E self i st = do {
     (s, us) \<leftarrow> AO_Unauthorize E self i st;
     let s = AO_UnSetUserNotifiers i s;
     Some (s\<lparr>ao_userList := filter (\<lambda>j. j \<noteq> i) (ao_userList s)\<rparr>, us) }"

definition AO_SendMessage :: "ao \<Rightarrow> int \<times> ao" where
  "AO_SendMessage s =
     (- 1, s\<lparr>ao_errorStr := ''Authorization modele '' @ squote ''AlwaysOnline'' @ '' does not support sending messages''\<rparr>)"

subsection \<open>Start and stop\<close>

text \<open>The search is bounded by the length of the list of users (\<open>None\<close> when that is not enough, or when the handle is 0).\<close>

definition GetUsers :: "env \<Rightarrow> aosys \<Rightarrow> aosys option" where
  "GetUsers E = (\<lambda>(s, us). do {
     (h, us) \<leftarrow> Users_OpenSearch E us;
     (if h = 0 then None
      else do {
        (vs, us) \<leftarrow> search_all (next_user E h) (Suc (length (us_users us))) us;
        (_, us) \<leftarrow> Users_CloseSearch E h us;
        Some (fold (\<lambda>u s. AO_SetUserNotifiers (u_id u) (s\<lparr>ao_userList := ao_userList s @ [u_id u]\<rparr>)) vs s, us) }) })"

fun update_all :: "env \<Rightarrow> nat \<Rightarrow> int list \<Rightarrow> aosys \<Rightarrow> aosys option" where
  "update_all E self [] st = Some st"
| "update_all E self (i # is) st = Option.bind (UpdateUserAuthorization E self i st) (update_all E self is)"

text \<open>Assigning to a member that holds a connection does not end that subscription.\<close>

definition AO_Start :: "env \<Rightarrow> nat \<Rightarrow> aosys \<Rightarrow> (int \<times> aosys) option" where
  "AO_Start E self st = do {
     (s, us) \<leftarrow> GetUsers E st;
     let s = s\<lparr>ao_attached := True, ao_callbacks := ao_callbacks s + 1\<rparr>;
     (s, us) \<leftarrow> update_all E self (ao_userList s) (s, us);
     Some (0, s\<lparr>ao_isRunning := True\<rparr>, us) }"

definition AO_Stop :: "ao \<Rightarrow> int \<times> ao" where
  "AO_Stop s =
     (if \<not> ao_isRunning s then (0, s)
      else (0, s\<lparr>ao_callbacks := (if ao_attached s then ao_callbacks s - 1 else ao_callbacks s), ao_attached := False,
                 ao_subs := fold remove1 (ao_conns s) (ao_subs s), ao_conns := [], ao_isRunning := False\<rparr>))"

subsection \<open>Callbacks\<close>

definition AO_onAdd :: "env \<Rightarrow> nat \<Rightarrow> int \<Rightarrow> aosys \<Rightarrow> aosys option" where
  "AO_onAdd E self i st = ao_notify (ao_callbacks (fst st)) (AO_AddUser E self i) st"

definition AO_onDel :: "env \<Rightarrow> nat \<Rightarrow> int \<Rightarrow> aosys \<Rightarrow> aosys option" where
  "AO_onDel E self i st = ao_notify (ao_callbacks (fst st)) (AO_DelUser E self i) st"

definition prop_alwaysOnline :: "int property" where
  "prop_alwaysOnline = plain_property ''alwaysOnline'' False False (uc_alwaysOnline \<circ> u_conf)
     (\<lambda>v. on_conf (uc_alwaysOnline_update (\<lambda>_. v))) show_int"

text \<open>A change of \<open>alwaysOnline\<close> or \<open>ips\<close>, which have no callbacks of the user itself before the change: the plugin withdraws
  its authorization, the property is set (with the user's own callbacks after the change, subscribed first), and the
  plugin looks at the user again.\<close>

definition AO_Set :: "env \<Rightarrow> nat \<Rightarrow> (env \<Rightarrow> 'a property) \<Rightarrow> 'a \<Rightarrow> int \<Rightarrow> aosys \<Rightarrow> aosys option" where
  "AO_Set E self p v i = (\<lambda>(s, us). do {
     (s, us) \<leftarrow> ao_notify (count_list (ao_subs s) i) (AO_Unauthorize E self i) (s, us);
     (_, us) \<leftarrow> on_user E (\<lambda>E u. map_option (Pair ()) (UserProperty_Set E (p E) v u)) i us;
     ao_notify (count_list (ao_subs s) i) (UpdateUserAuthorization E self i) (s, us) })"

subsection \<open>What the calls of the registry keep\<close>

definition confs :: "users \<Rightarrow> int \<rightharpoonup> user_conf" where
  "confs us i = map_option u_conf (user_at i us)"

lemma confs_frame [simp]:
  "confs (s\<lparr>us_locked := b\<rparr>) = confs s" "confs (s\<lparr>us_ipIndex := m\<rparr>) = confs s" "confs (emit e s) = confs s"
  by (simp_all add: confs_def fun_eq_iff)

lemma conf_only_messages: "only_messages u v \<Longrightarrow> u_conf v = u_conf u"
  unfolding only_messages_def by (drule arg_cong [where f = u_conf]) (simp add: core_def)

lemma ScanMessage_conf: "ScanMessage E u = Some v \<Longrightarrow> u_conf v = u_conf u"
  unfolding ScanMessage_def by (blast intro: conf_only_messages dest: ScanMessage_loop_only)

lemma Authorize_finish_conf:
  assumes "Authorize_finish E a u = Some (rc, v)"
  shows "u_conf v = u_conf u"
proof -
  let ?w = "(if u_authorizedBy u = [] then u\<lparr>u_authorizedModificationTime := e_stgTime E\<rparr> else u)"
  have "ScanMessage E (?w\<lparr>u_authorizedBy := insert_auth a (u_authorizedBy ?w)\<rparr>) = Some v"
    using assms by (simp add: Authorize_finish_def Let_def bind_eq_Some_conv)
  then show ?thesis by (simp add: ScanMessage_conf)
qed

lemma Authorize_body_conf:
  assumes "Authorize_body E ip dirs a u = Some (rc, v)"
  shows "u_conf v = u_conf u"
proof -
  have "u_conf v = u_conf w" if "Authorize_finish E a w = Some (rc, v)" for w using that by (rule Authorize_finish_conf)
  then show ?thesis using assms
    by (fastforce simp: Authorize_body_def Let_def users_lock_def set_currIP_def ModifyTime_def split: if_splits)
qed

lemma Authorize_conf:
  assumes "Authorize E ip dirs a u = Some (rc, v)"
  shows "u_conf v = u_conf u"
  using assms unfolding Authorize_def by (rule with_lock_SomeE) (auto dest: Authorize_body_conf)

lemma Unauthorize_conf: "Unauthorize E a r u = Some (x, v) \<Longrightarrow> u_conf v = u_conf u"
  unfolding Unauthorize_def
  by (erule with_lock_SomeE) (auto simp: Unauthorize_body_def Let_def split: if_splits)

lemma on_user_confs:
  assumes "on_user E f i us = Some (x, us')"
    and "\<And>u v. f (env_in E us) u = Some (x, v) \<Longrightarrow> same_user u v \<and> u_conf v = u_conf u"
  shows "confs us' = confs us"
  using assms(1)
proof (rule on_user_upd)
  fix u v assume "user_at i us = Some u" "f (env_in E us) (u\<lparr>trace := trace us\<rparr>) = Some (x, v)" "upd_user i (v\<lparr>trace := []\<rparr>) us us'"
  then show ?thesis using assms(2) by (fastforce simp: confs_def upd_user_def fun_eq_iff)
qed (use assms(2) in blast)

lemma Users_Authorize_confs:
  assumes "Users_Authorize E login ip dirs a us = Some (ok, us')"
  shows "confs us' = confs us"
  using assms unfolding Users_Authorize_def
proof (rule users_lockedE)
  fix b c t assume b: "Users_Authorize_body E login ip dirs a (us\<lparr>us_locked := b\<rparr>) = Some (ok, t)" and us': "us' = t\<lparr>us_locked := c\<rparr>"
  let ?us = "us\<lparr>us_locked := b\<rparr>"
  have o: "confs t' = confs us" if "on_user E (\<lambda>E. Authorize E ip dirs a) i ?us = Some (rc, t')" for i rc t'
    using on_user_confs [OF that] Authorize_cases Authorize_conf by fastforce
  have "AddToIPIdx E i t' = Some (x, t) \<Longrightarrow> confs t = confs t'" for i x t'
    by (auto simp: AddToIPIdx_def users_locked_def bind_eq_Some_conv split: if_splits)
  then show ?thesis using b o unfolding us'
    by (auto simp: Users_Authorize_body_def bind_eq_Some_conv split: option.splits if_splits)
qed

lemma Users_Unauthorize_confs:
  assumes "Users_Unauthorize E login a r us = Some (ok, us')"
  shows "confs us' = confs us"
  using assms unfolding Users_Unauthorize_def
proof (rule users_lockedE)
  fix b c t assume b: "Users_Unauthorize_body E login a r (us\<lparr>us_locked := b\<rparr>) = Some (ok, t)" and us': "us' = t\<lparr>us_locked := c\<rparr>"
  let ?us = "us\<lparr>us_locked := b\<rparr>"
  have o: "confs t' = confs us" if "on_user E (\<lambda>E. Unauthorize E a r) i ?us = Some (x, t')" for i x t'
    using on_user_confs [OF that] Unauthorize_cases Unauthorize_conf by fastforce
  have "DelFromIPIdx E i t' = Some (x, t) \<Longrightarrow> confs t = confs t'" for i x t'
    by (auto simp: DelFromIPIdx_def users_locked_def split: if_splits)
  then show ?thesis using b o unfolding us'
    by (auto simp: Users_Unauthorize_body_def bind_eq_Some_conv split: option.splits if_splits)
qed

subsection \<open>Following the properties\<close>

text \<open>The plugin authorizes a user only with the flag, with a single address, and from this address.\<close>

definition ao_granted :: "nat \<Rightarrow> int \<Rightarrow> users \<Rightarrow> bool" where
  "ao_granted a i us \<longleftrightarrow> (\<forall>u. user_at i us = Some u \<longrightarrow> a \<in> set (u_authorizedBy u) \<longrightarrow>
     uc_alwaysOnline (u_conf u) \<noteq> 0 \<and> UserIPs_onlyOneIP (uc_ips (u_conf u)) \<and> u_currIP u = im_ip (uc_ips (u_conf u) ! 0))"

lemma ao_granted_iff:
  "ao_granted a i us \<longleftrightarrow> (\<forall>l c ip. auths us i = Some l \<longrightarrow> confs us i = Some c \<longrightarrow> addr us i = Some ip \<longrightarrow> a \<in> set l \<longrightarrow>
     uc_alwaysOnline c \<noteq> 0 \<and> UserIPs_onlyOneIP (uc_ips c) \<and> ip = im_ip (uc_ips c ! 0))"
  by (cases "user_at i us") (auto simp: ao_granted_def auths_def confs_def addr_def)

lemma Update_granted:
  assumes "users_inv F us" and "e_FindTariff E = F" and "UpdateUserAuthorization E a i (s, us) = Some st" and "ao_granted a i us"
  shows "fst st = s \<and> users_inv F (snd st) \<and> ao_granted a i (snd st) \<and> confs (snd st) = confs us"
proof -
  obtain u where u: "user_at i us = Some u" using assms(3) by (auto simp: UpdateUserAuthorization_def bind_eq_Some_conv)
  let ?c = "u_conf u" and ?ip = "im_ip (uc_ips (u_conf u) ! 0)"
  consider "st = (s, us)"
    | ok us' where "uc_alwaysOnline ?c \<noteq> 0" "UserIPs_onlyOneIP (uc_ips ?c)" "st = (s, us')"
        "Users_Authorize E (u_login u) ?ip 0xFFFFFFFF a us = Some (ok, us')"
    using assms(3) u by (auto simp: UpdateUserAuthorization_def Let_def split: if_splits)
  then show ?thesis
  proof cases
    case 1
    then show ?thesis using assms(1,4) by simp
  next
    case (2 ok us')
    have c: "confs us' = confs us" "confs us i = Some ?c" using Users_Authorize_confs [OF 2(4)] u by (simp_all add: confs_def)
    have "map_option set (auths us' i) = map_option set (auths us i) \<and> addr us' i = addr us i \<or> addr us' i = Some ?ip"
      using Users_Authorize_effect [OF assms(1) 2(4)] by (cases ok) (auto simp: logged_in_def same_registry_def)
    then have "ao_granted a i us'" using assms(4) 2(1,2) c unfolding ao_granted_iff by (cases "auths us i") auto
    then show ?thesis using Users_Authorize_inv [OF 2(4) assms(2,1)] 2(3) c by simp
  qed
qed

lemma AO_Unauthorize_effect:
  assumes "users_inv F us" and "e_FindTariff E = F" and "AO_Unauthorize E a i (s, us) = Some st" and "login_of us i = Some login"
    and "us_loginIndex us login = Some i"
  shows "fst st = s \<and> users_inv F (snd st) \<and> confs (snd st) = confs us \<and> login_of (snd st) = login_of us
    \<and> us_loginIndex (snd st) = us_loginIndex us \<and> (\<exists>l. auths (snd st) i = Some l \<and> a \<notin> set l)"
proof -
  obtain b us1 where o: "on_user E (\<lambda>E. IsAuthorizedBy E a) i us = Some (b, us1)"
    using assms(3) by (auto simp: AO_Unauthorize_def bind_eq_Some_conv)
  obtain l where r: "same_registry us us1" "users_inv F us1" "auths us i = Some l" "b = (a \<in> set l)"
    using IsAuthorizedBy_same [OF assms(2,1) o] by blast
  have c: "confs us1 = confs us"
    by (rule on_user_confs [OF o]) (auto simp: IsAuthorizedBy_def same_user_def elim!: with_lock_SomeE)
  obtain u where u: "user_at i us1 = Some u" "u_authorizedBy u = l" "u_login u = login"
  proof -
    have "auths us1 i = Some l" "login_of us1 i = Some login" using r assms(4) by (simp_all add: same_registry_def)
    then show thesis using that by (auto simp: auths_def login_of_def)
  qed
  have d: "distinct l" using users_invD(2) [OF r(2) u(1)] u(2) by (auto simp: user_inv_def sess_def strict_sorted_iff)
  show ?thesis
  proof (cases b)
    case False
    then have "st = (s, us1)" using assms(3) o u(1) by (simp add: AO_Unauthorize_def)
    then show ?thesis using r c False by (simp add: same_registry_def)
  next
    case True
    then obtain us2 ok where un: "Users_Unauthorize E login a '''' us1 = Some (ok, us2)" "st = (s, us2)"
      using assms(3) o u by (auto simp: AO_Unauthorize_def)
    have "logged_out a i us1 us2" using Users_Unauthorize_effect [OF un(1)] r(1) assms(5) by (simp add: same_registry_def)
    then show ?thesis
      using Users_Unauthorize_inv [OF un(1) assms(2) r(2)] Users_Unauthorize_confs [OF un(1)] c r u d un(2)
      by (auto simp: logged_out_def same_registry_def auths_def)
  qed
qed

lemma ao_notify_keeps:
  assumes "ao_notify n f st = Some st'" and "P st" and "\<And>st st'. P st \<Longrightarrow> f st = Some st' \<Longrightarrow> P st'"
  shows "P st'"
  using assms(1,2) by (induction n arbitrary: st) (auto simp: bind_eq_Some_conv intro: assms(3))

lemma ao_notify_some:
  assumes "ao_notify n f st = Some st'" and "0 < n" and "P st" and "\<And>st st'. P st \<Longrightarrow> f st = Some st' \<Longrightarrow> Q st'" and "\<And>st. Q st \<Longrightarrow> P st"
  shows "Q st'"
proof -
  obtain m st1 where "n = Suc m" "f st = Some st1" "ao_notify m f st1 = Some st'"
    using assms(1,2) by (cases n) (auto simp: bind_eq_Some_conv)
  then show ?thesis using ao_notify_keeps [of m f st1 st' Q] assms(3-5) by blast
qed

lemma on_user_frame:
  assumes "on_user E f i us = Some (x, us')" and "\<And>u v. f (env_in E us) u = Some (x, v) \<Longrightarrow> frame u v"
  shows "auths us' = auths us \<and> addr us' = addr us \<and> login_of us' = login_of us \<and> us_loginIndex us' = us_loginIndex us"
  using assms(1)
proof (rule on_user_upd)
  fix u v assume u: "user_at i us = Some u" "f (env_in E us) (u\<lparr>trace := trace us\<rparr>) = Some (x, v)" "upd_user i (v\<lparr>trace := []\<rparr>) us us'"
  have f: "frame u (v\<lparr>trace := []\<rparr>)" using assms(2) [OF u(2)] by simp
  then show ?thesis using upd_user_views [OF u(3,1) frame_same [OF f]] auths_upd [OF u(3,1)] u(1,3)
    by (auto simp: frame_def auths_def addr_def upd_user_def fun_eq_iff)
qed (use assms(2) frame_same in blast)

lemma alwaysOnline_set: "framed (UserProperty_Set E prop_alwaysOnline n)" "keeps_inv F (UserProperty_Set E prop_alwaysOnline n)"
proof -
  show "framed (UserProperty_Set E prop_alwaysOnline n)"
    unfolding prop_alwaysOnline_def by (rule framed_plain [OF _ refl]) (simp add: plain_property_def)
  show "keeps_inv F (UserProperty_Set E prop_alwaysOnline n)"
    by (rule keeps_inv_property) (simp_all add: prop_alwaysOnline_def plain_property_def user_inv_conf keeps_inv_def)
qed

lemma on_user_alwaysOnline:
  assumes "user_at i us = Some u"
  shows "\<exists>us' mt. on_user E (\<lambda>E u. map_option (Pair ()) (UserProperty_Set E prop_alwaysOnline n u)) i us = Some ((), us')
    \<and> upd_user i (u\<lparr>u_conf := (u_conf u)\<lparr>uc_alwaysOnline := n\<rparr>, u_mtime := mt, trace := []\<rparr>) us us'"
proof -
  let ?set = "\<lambda>E u. map_option (Pair ()) (UserProperty_Set E prop_alwaysOnline n u)"
  have set: "?set E u = Some ((), u\<lparr>u_conf := (u_conf u)\<lparr>uc_alwaysOnline := n\<rparr>, u_mtime := (u_mtime u)(''alwaysOnline'' := e_time E)\<rparr>)" for E u
    by (simp add: UserProperty_Set_def prop_alwaysOnline_def plain_property_def ModifyTime_def)
  from assms obtain us' where o: "on_user E ?set i us = Some ((), us')" by (simp add: on_user_def set)
  obtain u' v where v: "user_at i us = Some u'" "?set (env_in E us) (u'\<lparr>trace := trace us\<rparr>) = Some ((), v)" "upd_user i (v\<lparr>trace := []\<rparr>) us us'"
    using on_user_upd [OF o] by (auto simp: set same_user_def)
  then show ?thesis using o assms by (auto simp: set intro!: exI)
qed

text \<open>A change through the subscriptions leaves the user authorized by the plugin only as the new values say.\<close>

lemma AO_Set_granted:
  assumes "users_inv F us" and "e_FindTariff E = F" and "i \<in> set (ao_subs s)" and "login_of us i = Some login"
    and "us_loginIndex us login = Some i" and "\<And>E. framed (UserProperty_Set E (p E) v)" and "\<And>E. keeps_inv F (UserProperty_Set E (p E) v)"
    and "AO_Set E a p v i (s, us) = Some (s', us')"
  shows "s' = s \<and> users_inv F us' \<and> ao_granted a i us'"
proof -
  let ?set = "\<lambda>E u. map_option (Pair ()) (UserProperty_Set E (p E) v u)"
  obtain s1 us1 us2 where st: "ao_notify (count_list (ao_subs s) i) (AO_Unauthorize E a i) (s, us) = Some (s1, us1)"
    "on_user E ?set i us1 = Some ((), us2)" "ao_notify (count_list (ao_subs s1) i) (UpdateUserAuthorization E a i) (s1, us2) = Some (s', us')"
    using assms(8) by (auto simp: AO_Set_def bind_eq_Some_conv)
  define P where "P st \<longleftrightarrow> fst st = s \<and> users_inv F (snd st) \<and> login_of (snd st) i = Some login \<and> us_loginIndex (snd st) login = Some i" for st
  define R where "R st \<longleftrightarrow> P st \<and> (\<exists>l. auths (snd st) i = Some l \<and> a \<notin> set l)" for st
  have n: "0 < count_list (ao_subs s) i" using assms(3) by (simp add: count_list_0_iff zero_less_iff_neq_zero)
  have step: "R st'" if "P st" "AO_Unauthorize E a i st = Some st'" for st st'
    using that AO_Unauthorize_effect [of F "snd st" E a i "fst st" st' login] assms(2) by (cases st) (auto simp: P_def R_def)
  have "P (s, us)" using assms(1,4,5) by (simp add: P_def)
  then have "R (s1, us1)" using ao_notify_some [OF st(1) n, of P R] step by (simp add: R_def)
  then obtain l where 1: "s1 = s" "users_inv F us1" "auths us1 i = Some l" "a \<notin> set l" by (auto simp: R_def P_def)
  have "frame u w" if "?set E' u = Some (x, w)" for E' u x w using that framedD [OF assms(6)] by auto
  then have 2: "auths us2 = auths us1" using on_user_frame [OF st(2)] by blast
  have "user_op F ?set" using framedD [OF assms(6)] keeps_invD [OF assms(7)] by (auto simp: user_op_def)
  then have 3: "users_inv F us2" using on_user_op [OF _ assms(2) 1(2) st(2)] by blast
  define Q where "Q st \<longleftrightarrow> fst st = s \<and> users_inv F (snd st) \<and> ao_granted a i (snd st)" for st
  have up: "Q st'" if "Q st" "UpdateUserAuthorization E a i st = Some st'" for st st'
    using that Update_granted [of F "snd st" E a i "fst st" st'] assms(2) by (cases st) (auto simp: Q_def)
  have "Q (s1, us2)" using 1 2 3 by (simp add: Q_def ao_granted_iff)
  then have "Q (s', us')" using ao_notify_keeps [OF st(3), of Q] up by blast
  then show ?thesis by (simp add: Q_def)
qed

subsection \<open>A user comes online\<close>

lemma Unauthorize_fresh:
  assumes "user_at i us = Some u" and "fresh_user u"
  shows "\<exists>us'. AO_Unauthorize E a i (s, us) = Some (s, us') \<and> upd_user i (u\<lparr>trace := []\<rparr>) us us'"
proof -
  obtain us' where o: "on_user E (\<lambda>E. IsAuthorizedBy E a) i us = Some (False, us')" "upd_user i (u\<lparr>trace := []\<rparr>) us us'"
    using IsAuthorizedBy_fresh [OF assms(1), of E a] assms(2) by (auto simp: fresh_user_def)
  then show ?thesis by (auto simp: AO_Unauthorize_def upd_user_def)
qed

lemma Update_authorizes:
  assumes "\<not> us_locked us" and "user_at i us = Some u" and "us_loginIndex us (u_login u) = Some i" and "fresh_user u" and "\<not> e_relock_blocks E"
    and "uc_alwaysOnline (u_conf u) \<noteq> 0" and "UserIPs_onlyOneIP (uc_ips (u_conf u))" and "us_ipIndex us (im_ip (uc_ips (u_conf u) ! 0)) = None"
  shows "\<exists>us' v. UpdateUserAuthorization E a i (s, us) = Some (s, us') \<and> user_at i us' = Some v \<and> u_authorizedBy v = [a]
    \<and> u_currIP v = im_ip (uc_ips (u_conf u) ! 0) \<and> u_conf v = u_conf u"
proof -
  let ?ip = "im_ip (uc_ips (u_conf u) ! 0)"
  obtain m where m: "uc_ips (u_conf u) = [m]" "im_mask m = 32" "im_ip m \<noteq> 0"
    using assms(7) by (auto simp: UserIPs_onlyOneIP_def length_Suc_conv)
  have "UserIPs_find (uc_ips (u_conf u)) ?ip" using m by (simp add: UserIPs_find_def)
  then obtain us' v where "Users_Authorize E (u_login u) ?ip 0xFFFFFFFF a us = Some (True, us')" "user_at i us' = Some v" "u_currIP v = ?ip"
    "u_authorizedBy v = [a]" "u_conf v = u_conf u"
    using Users_Authorize_fresh [OF assms(1,3,8,2,4) _ _ assms(5), of "0xFFFFFFFF" a] m by auto
  then show ?thesis using assms(2,6,7) by (auto simp: UpdateUserAuthorization_def Let_def)
qed

lemma AO_Set_online:
  assumes "\<not> us_locked us" and "user_at i us = Some u" and "us_loginIndex us (u_login u) = Some i" and "fresh_user u"
    and "\<not> e_relock_blocks E" and "count_list (ao_subs s) i = 1" and "UserIPs_onlyOneIP (uc_ips (u_conf u))"
    and "us_ipIndex us (im_ip (uc_ips (u_conf u) ! 0)) = None" and "n \<noteq> 0"
  shows "\<exists>us' v. AO_Set E a (\<lambda>_. prop_alwaysOnline) n i (s, us) = Some (s, us') \<and> user_at i us' = Some v
    \<and> u_authorizedBy v = [a] \<and> u_currIP v = im_ip (uc_ips (u_conf u) ! 0) \<and> uc_alwaysOnline (u_conf v) = n"
proof -
  obtain us1 where 1: "AO_Unauthorize E a i (s, us) = Some (s, us1)" "upd_user i (u\<lparr>trace := []\<rparr>) us us1"
    using Unauthorize_fresh [OF assms(2,4)] by blast
  have u1: "user_at i us1 = Some (u\<lparr>trace := []\<rparr>)" using 1(2) by (simp add: upd_user_def)
  obtain us2 mt where 2: "on_user E (\<lambda>E u. map_option (Pair ()) (UserProperty_Set E prop_alwaysOnline n u)) i us1 = Some ((), us2)"
    "upd_user i (u\<lparr>u_conf := (u_conf u)\<lparr>uc_alwaysOnline := n\<rparr>, u_mtime := mt, trace := []\<rparr>) us1 us2"
    using on_user_alwaysOnline [OF u1, of E n] by auto
  define w where "w = u\<lparr>u_conf := (u_conf u)\<lparr>uc_alwaysOnline := n\<rparr>, u_mtime := mt, trace := []\<rparr>"
  have w: "u_login w = u_login u" "fresh_user w" "uc_ips (u_conf w) = uc_ips (u_conf u)" "uc_alwaysOnline (u_conf w) = n"
    using assms(4) by (simp_all add: w_def fresh_user_def)
  obtain us' v where "UpdateUserAuthorization E a i (s, us2) = Some (s, us')" "user_at i us' = Some v" "u_authorizedBy v = [a]"
    "u_currIP v = im_ip (uc_ips (u_conf u) ! 0)" "u_conf v = u_conf w"
    using Update_authorizes [of us2 i w E a s] assms 1(2) 2(2) w by (auto simp: upd_user_def w_def [symmetric])
  then show ?thesis using 1(1) 2(1) assms(6) w(4) by (auto simp: AO_Set_def)
qed

subsection \<open>An example\<close>

definition sample_ao_users :: users where
  "sample_ao_users = sample_users\<lparr>us_users := map (u_conf_update (uc_ips_update (\<lambda>_. [\<lparr>im_ip = 5, im_mask = 32\<rparr>]))) (us_users sample_users)\<rparr>"

definition sample_ao :: ao where
  "sample_ao = AO_SetUserNotifiers 0 (AUTH_AO\<lparr>ao_isRunning := True\<rparr>)"

lemma sample_ao_user:
  obtains u where "users_inv (e_FindTariff sample_users_env) sample_ao_users" "\<not> us_locked sample_ao_users" "user_at 0 sample_ao_users = Some u"
    "us_loginIndex sample_ao_users (u_login u) = Some 0" "fresh_user u" "\<not> e_relock_blocks sample_users_env"
    "UserIPs_onlyOneIP (uc_ips (u_conf u))" "im_ip (uc_ips (u_conf u) ! 0) = 5" "us_ipIndex sample_ao_users 5 = None"
proof -
  obtain u where u: "us_users sample_users = [u]" "u_id u = 0" "u_login u = ''u''" "u_authorizedBy u = []" "u_messages u = []" "\<not> u_locked u"
    using sample_users_fields(1) by blast
  let ?v = "u\<lparr>u_conf := (u_conf u)\<lparr>uc_ips := [\<lparr>im_ip = 5, im_mask = 32\<rparr>]\<rparr>\<rparr>"
  have v: "us_users sample_ao_users = [?v]" by (simp add: sample_ao_users_def u(1))
  have at: "user_at 0 sample_users = Some u" "user_at 0 sample_ao_users = Some ?v" using u(1,2) v by (simp_all add: user_at_def)
  have up: "upd_user 0 ?v sample_users sample_ao_users"
    using u(1,2) v by (simp add: upd_user_def user_at_def) (simp add: sample_ao_users_def)
  have "user_inv (e_FindTariff sample_users_env) ?v"
    using users_invD(2) [OF sample_users_inv at(1)] by (simp add: user_inv_conf)
  then have "users_inv (e_FindTariff sample_users_env) sample_ao_users"
    using same_addr_inv [OF sample_users_inv at(1) up] by (simp add: same_user_def)
  moreover have "\<not> e_relock_blocks sample_users_env" by (simp add: sample_users_env_def)
  ultimately show thesis
    using that [of ?v] at(2) u(3-6) sample_users_fields(2-4)
    by (simp add: sample_ao_users_def fresh_user_def UserIPs_onlyOneIP_def)
qed

lemma sample_ao_fields:
  "ao_isRunning sample_ao" "ao_conns sample_ao = [0]" "ao_subs sample_ao = [0]"
  by (simp_all add: sample_ao_def AO_SetUserNotifiers_def AUTH_AO_def)

lemma sample_ao_online:
  "\<exists>us' v. AO_Set sample_users_env 7 (\<lambda>_. prop_alwaysOnline) 1 0 (sample_ao, sample_ao_users) = Some (sample_ao, us')
    \<and> user_at 0 us' = Some v \<and> u_authorizedBy v = [7]"
  by (rule sample_ao_user) (drule AO_Set_online [where s = sample_ao and n = 1 and a = 7], assumption+, auto simp: sample_ao_fields)

subsection \<open>What the plugin promises\<close>

text \<open>C8. A change of the flag or of the addresses of a user whom the plugin has subscribed to (a user who is not deleted, in a
  registry in a consistent state) leaves the user authorized by the plugin only if the flag is set, there is exactly one
  address, and the user is at this address: whatever authorization the plugin had given before is withdrawn.\<close>

theorem ao_follows_changes:
  assumes "users_inv F us" and "e_FindTariff E = F" and "i \<in> set (ao_subs s)" and "user_at i us = Some u"
    and "us_loginIndex us (u_login u) = Some i"
    and "AO_Set E a prop_ips ips i (s, us) = Some (s', us') \<or> AO_Set E a (\<lambda>_. prop_alwaysOnline) n i (s, us) = Some (s', us')"
    and "user_at i us' = Some v" and "a \<in> set (u_authorizedBy v)"
  shows "uc_alwaysOnline (u_conf v) \<noteq> 0 \<and> UserIPs_onlyOneIP (uc_ips (u_conf v)) \<and> u_currIP v = im_ip (uc_ips (u_conf v) ! 0)"
proof -
  have l: "login_of us i = Some (u_login u)" using assms(4) by (simp add: login_of_def)
  have "ao_granted a i us'"
    using assms(6) AO_Set_granted [OF assms(1-3) l assms(5) framed_ips keeps_inv_ips, of a ips s' us']
      AO_Set_granted [OF assms(1-3) l assms(5) alwaysOnline_set, of a n s' us'] by blast
  then show ?thesis using assms(7,8) by (simp add: ao_granted_def)
qed

theorem ao_follows_changes_witness:
  "\<exists>us' v. AO_Set sample_users_env 7 (\<lambda>_. prop_alwaysOnline) 1 0 (sample_ao, sample_ao_users) = Some (sample_ao, us')
    \<and> user_at 0 us' = Some v \<and> u_authorizedBy v = [7] \<and> uc_alwaysOnline (u_conf v) \<noteq> 0 \<and> u_currIP v = im_ip (uc_ips (u_conf v) ! 0)"
proof (rule sample_ao_user)
  fix u assume u: "users_inv (e_FindTariff sample_users_env) sample_ao_users" "user_at 0 sample_ao_users = Some u"
    "us_loginIndex sample_ao_users (u_login u) = Some 0"
  obtain us' v where v: "AO_Set sample_users_env 7 (\<lambda>_. prop_alwaysOnline) 1 0 (sample_ao, sample_ao_users) = Some (sample_ao, us')"
    "user_at 0 us' = Some v" "u_authorizedBy v = [7]" using sample_ao_online by blast
  show ?thesis using ao_follows_changes [OF u(1) refl _ u(2,3) disjI2 [OF v(1)] v(2)] v by (auto simp: sample_ao_fields)
qed



text \<open>Stopping the plugin ends its subscriptions and withdraws nothing: a user it has authorized stays so, and is still
  authorized by it when the flag is taken away afterwards.\<close>

theorem ao_stop_leaves_online:
  assumes "ao_isRunning s" and "ao_conns s = ao_subs s" and "user_at i us = Some u" and "a \<in> set (u_authorizedBy u)"
  shows "\<exists>s' us' v. AO_Stop s = (0, s') \<and> AO_Set E a (\<lambda>_. prop_alwaysOnline) 0 i (s', us) = Some (s', us')
    \<and> user_at i us' = Some v \<and> uc_alwaysOnline (u_conf v) = 0 \<and> a \<in> set (u_authorizedBy v)"
proof -
  have "fold remove1 xs xs = []" for xs :: "int list" by (induction xs) simp_all
  then obtain s' where s': "AO_Stop s = (0, s')" "ao_subs s' = []" using assms(1,2) by (simp add: AO_Stop_def)
  then show ?thesis using on_user_alwaysOnline [OF assms(3), of E 0] assms(4) by (fastforce simp: AO_Set_def upd_user_def)
qed

theorem ao_stop_leaves_online_witness:
  "\<exists>us s' us' v. AO_Stop sample_ao = (0, s') \<and> AO_Set sample_users_env 7 (\<lambda>_. prop_alwaysOnline) 0 0 (s', us) = Some (s', us')
    \<and> user_at 0 us' = Some v \<and> uc_alwaysOnline (u_conf v) = 0 \<and> 7 \<in> set (u_authorizedBy v)"
proof -
  obtain us v where "user_at 0 us = Some v" "u_authorizedBy v = [7]" using sample_ao_online by blast
  then show ?thesis using ao_stop_leaves_online [of sample_ao 0 us v 7 sample_users_env] by (auto simp: sample_ao_fields)
qed

text \<open>C34. Deleting a user ends the plugin's subscription to the user only if the user's entry is the last of the vector of
  connections: in any other place the entry is overwritten by the next one, whose assignment does not disconnect it.\<close>

theorem ao_subscription_leak:
  assumes "ao_conns s = ao_subs s" and "distinct (ao_subs s)" and "i \<in> set (ao_subs s)" and "AO_DelUser E a i (s, us) = Some (s', us')"
  shows "i \<notin> set (ao_conns s') \<and> (i \<in> set (ao_subs s') \<longleftrightarrow> i \<noteq> last (ao_conns s))"
proof -
  have s': "ao_conns s' = ao_conns (AO_UnSetUserNotifiers i s)" "ao_subs s' = ao_subs (AO_UnSetUserNotifiers i s)"
    using assms(4) by (auto simp: AO_DelUser_def AO_Unauthorize_def bind_eq_Some_conv Let_def split: if_splits)
  obtain xs ys where x: "ao_subs s = xs @ i # ys" "i \<notin> set xs" "i \<notin> set ys"
    using split_list [OF assms(3)] assms(2) by auto
  then have k: "filter (\<lambda>j. j \<noteq> i) (xs @ i # ys) = xs @ ys"
    using filter_True [of xs "\<lambda>j. j \<noteq> i"] filter_True [of ys "\<lambda>j. j \<noteq> i"] by fastforce
  have c: "ao_conns s' = xs @ ys"
    and e: "ao_subs s' = (remove1 i ^^ count_list (drop (length (xs @ ys)) (xs @ i # ys)) i) (xs @ i # ys)"
    using s' x(1) assms(1) k by (simp_all only: AO_UnSetUserNotifiers_def Let_def) simp_all
  show ?thesis
  proof (cases ys rule: rev_cases)
    case Nil
    then show ?thesis using c e x assms(1) by (simp add: remove1_append)
  next
    case (snoc zs z)
    then have "drop (length (xs @ ys)) (xs @ i # ys) = [z]" "z \<noteq> i" using x(3) by auto
    then show ?thesis using c e x assms(1) snoc by simp
  qed
qed

theorem ao_subscription_leak_witness:
  "\<exists>s' us'. AO_DelUser sample_users_env 7 0 (AO_SetUserNotifiers 1 sample_ao, sample_ao_users) = Some (s', us')
    \<and> 0 \<notin> set (ao_conns s') \<and> 0 \<in> set (ao_subs s')"
proof (rule sample_ao_user)
  fix u assume "user_at 0 sample_ao_users = Some u" "fresh_user u"
  then obtain s' us' where d: "AO_DelUser sample_users_env 7 0 (AO_SetUserNotifiers 1 sample_ao, sample_ao_users) = Some (s', us')"
    using Unauthorize_fresh [of 0 sample_ao_users u sample_users_env 7 "AO_SetUserNotifiers 1 sample_ao"] by (auto simp: AO_DelUser_def Let_def)
  show ?thesis using ao_subscription_leak [OF _ _ _ d] d by (auto simp: AO_SetUserNotifiers_def sample_ao_fields)
qed

end
