(* ===== verification/Stg_MD5.thy ===== *)
theory Stg_MD5
  imports Stg_Bytes
begin

text \<open>
  MD5 and the password hash on top of it (\<open>libs/crypto/ag_md5.c\<close>): the context with its incomplete block and its count of
  bits, the transformation of a block, and that a message hashed in pieces of any length has the digest of the published
  algorithm (RFC 1321).
\<close>

subsection \<open>The transformation\<close>

text \<open>The four macros, and a step: \<open>w += f(x, y, z) + data, w = w<<s | w>>(32-s), w += x\<close>.\<close>

definition F1 :: "u32 \<Rightarrow> u32 \<Rightarrow> u32 \<Rightarrow> u32" where
  "F1 x y z = z XOR (x AND (y XOR z))"

definition F2 :: "u32 \<Rightarrow> u32 \<Rightarrow> u32 \<Rightarrow> u32" where
  "F2 x y z = F1 z x y"

definition F3 :: "u32 \<Rightarrow> u32 \<Rightarrow> u32 \<Rightarrow> u32" where
  "F3 x y z = x XOR y XOR z"

definition F4 :: "u32 \<Rightarrow> u32 \<Rightarrow> u32 \<Rightarrow> u32" where
  "F4 x y z = y XOR (x OR NOT z)"

definition MD5STEP :: "(u32 \<Rightarrow> u32 \<Rightarrow> u32 \<Rightarrow> u32) \<Rightarrow> u32 \<Rightarrow> u32 \<Rightarrow> u32 \<Rightarrow> u32 \<Rightarrow> u32 \<Rightarrow> nat \<Rightarrow> u32" where
  "MD5STEP f w x y z data s = (let w = w + (f x y z + data); w = push_bit s w OR drop_bit (32 - s) w in w + x)"

text \<open>The 64 steps as the code writes them, one entry for each: function, index into the block, constant, shift. The four
  variables take the roles of \<open>w\<close>, \<open>x\<close>, \<open>y\<close>, \<open>z\<close> in turn.\<close>

definition md5_steps :: "((u32 \<Rightarrow> u32 \<Rightarrow> u32 \<Rightarrow> u32) \<times> nat \<times> u32 \<times> nat) list" where
  "md5_steps = [
     (F1, 0, 0xd76aa478, 7), (F1, 1, 0xe8c7b756, 12), (F1, 2, 0x242070db, 17), (F1, 3, 0xc1bdceee, 22),
     (F1, 4, 0xf57c0faf, 7), (F1, 5, 0x4787c62a, 12), (F1, 6, 0xa8304613, 17), (F1, 7, 0xfd469501, 22),
     (F1, 8, 0x698098d8, 7), (F1, 9, 0x8b44f7af, 12), (F1, 10, 0xffff5bb1, 17), (F1, 11, 0x895cd7be, 22),
     (F1, 12, 0x6b901122, 7), (F1, 13, 0xfd987193, 12), (F1, 14, 0xa679438e, 17), (F1, 15, 0x49b40821, 22),
     (F2, 1, 0xf61e2562, 5), (F2, 6, 0xc040b340, 9), (F2, 11, 0x265e5a51, 14), (F2, 0, 0xe9b6c7aa, 20),
     (F2, 5, 0xd62f105d, 5), (F2, 10, 0x02441453, 9), (F2, 15, 0xd8a1e681, 14), (F2, 4, 0xe7d3fbc8, 20),
     (F2, 9, 0x21e1cde6, 5), (F2, 14, 0xc33707d6, 9), (F2, 3, 0xf4d50d87, 14), (F2, 8, 0x455a14ed, 20),
     (F2, 13, 0xa9e3e905, 5), (F2, 2, 0xfcefa3f8, 9), (F2, 7, 0x676f02d9, 14), (F2, 12, 0x8d2a4c8a, 20),
     (F3, 5, 0xfffa3942, 4), (F3, 8, 0x8771f681, 11), (F3, 11, 0x6d9d6122, 16), (F3, 14, 0xfde5380c, 23),
     (F3, 1, 0xa4beea44, 4), (F3, 4, 0x4bdecfa9, 11), (F3, 7, 0xf6bb4b60, 16), (F3, 10, 0xbebfbc70, 23),
     (F3, 13, 0x289b7ec6, 4), (F3, 0, 0xeaa127fa, 11), (F3, 3, 0xd4ef3085, 16), (F3, 6, 0x04881d05, 23),
     (F3, 9, 0xd9d4d039, 4), (F3, 12, 0xe6db99e5, 11), (F3, 15, 0x1fa27cf8, 16), (F3, 2, 0xc4ac5665, 23),
     (F4, 0, 0xf4292244, 6), (F4, 7, 0x432aff97, 10), (F4, 14, 0xab9423a7, 15), (F4, 5, 0xfc93a039, 21),
     (F4, 12, 0x655b59c3, 6), (F4, 3, 0x8f0ccc92, 10), (F4, 10, 0xffeff47d, 15), (F4, 1, 0x85845dd1, 21),
     (F4, 8, 0x6fa87e4f, 6), (F4, 15, 0xfe2ce6e0, 10), (F4, 6, 0xa3014314, 15), (F4, 13, 0x4e0811a1, 21),
     (F4, 4, 0xf7537e82, 6), (F4, 11, 0xbd3af235, 10), (F4, 2, 0x2ad7d2bb, 15), (F4, 9, 0xeb86d391, 21)]"

definition step_round :: "u32 list \<Rightarrow> (u32 \<Rightarrow> u32 \<Rightarrow> u32 \<Rightarrow> u32) \<times> nat \<times> u32 \<times> nat \<Rightarrow> u32 \<times> u32 \<times> u32 \<times> u32 \<Rightarrow> u32 \<times> u32 \<times> u32 \<times> u32" where
  "step_round inp = (\<lambda>(f, k, t, s) (w, x, y, z). (z, MD5STEP f w x y z (inp ! k + t) s, x, y))"

definition MD5Transform :: "u32 \<times> u32 \<times> u32 \<times> u32 \<Rightarrow> u32 list \<Rightarrow> u32 \<times> u32 \<times> u32 \<times> u32" where
  "MD5Transform buf inp =
     (let (a, b, c, d) = fold (step_round inp) md5_steps buf; (a0, b0, c0, d0) = buf
      in (a0 + a, b0 + b, c0 + c, d0 + d))"

subsection \<open>The context\<close>

record md5_ctx =
  md_buf :: "u32 \<times> u32 \<times> u32 \<times> u32"
  md_bits0 :: u32
  md_bits1 :: u32
  md_in :: bytes

text \<open>\<open>byteReverse\<close> stores the little-endian value of four bytes in the byte order of the machine, which is little-endian.\<close>

definition byteReverse :: "nat \<Rightarrow> bytes \<Rightarrow> bytes" where
  "byteReverse longs buf = concat (map (\<lambda>i. word_bytes 4 (le32 buf (4 * i))) [0..<longs]) @ drop (4 * longs) buf"

definition words_of :: "bytes \<Rightarrow> u32 list" where
  "words_of mem = map (\<lambda>i. le32 mem (4 * i)) [0..<16]"

definition MD5Init :: "md5_ctx \<Rightarrow> md5_ctx" where
  "MD5Init ctx = ctx\<lparr>md_buf := (0x67452301, 0xefcdab89, 0x98badcfe, 0x10325476), md_bits0 := 0, md_bits1 := 0\<rparr>"

definition md5_block :: "md5_ctx \<Rightarrow> md5_ctx" where
  "md5_block ctx = (let mem = byteReverse 16 (md_in ctx) in ctx\<lparr>md_in := mem, md_buf := MD5Transform (md_buf ctx) (words_of mem)\<rparr>)"

text \<open>The loop over whole blocks, then what remains.\<close>

function md5_chunks :: "bytes \<Rightarrow> md5_ctx \<Rightarrow> md5_ctx" where
  "md5_chunks buf ctx =
     (if 64 \<le> length buf then md5_chunks (drop 64 buf) (md5_block (ctx\<lparr>md_in := put_bytes 0 (take 64 buf) (md_in ctx)\<rparr>))
      else ctx\<lparr>md_in := put_bytes 0 buf (md_in ctx)\<rparr>)"
  by pat_completeness auto

termination
  by (relation "measure (length \<circ> fst)") auto

declare md5_chunks.simps [simp del]

text \<open>\<open>buf\<close> stands for the pointer and \<open>len\<close>, an \<open>unsigned\<close>: it has fewer than \<open>2 ^ 32\<close> bytes.\<close>

definition md5_count :: "bytes \<Rightarrow> md5_ctx \<Rightarrow> md5_ctx" where
  "md5_count buf ctx =
     (let len = (of_nat (length buf) :: u32);
          t = md_bits0 ctx;
          ctx = ctx\<lparr>md_bits0 := t + push_bit 3 len\<rparr>;
          ctx = (if md_bits0 ctx < t then ctx\<lparr>md_bits1 := md_bits1 ctx + 1\<rparr> else ctx)
      in ctx\<lparr>md_bits1 := md_bits1 ctx + drop_bit 29 len\<rparr>)"

definition md5_feed :: "nat \<Rightarrow> bytes \<Rightarrow> md5_ctx \<Rightarrow> md5_ctx" where
  "md5_feed t buf ctx =
     (if t \<noteq> 0
      then if length buf < 64 - t
           then ctx\<lparr>md_in := put_bytes t buf (md_in ctx)\<rparr>
           else md5_chunks (drop (64 - t) buf) (md5_block (ctx\<lparr>md_in := put_bytes t (take (64 - t) buf) (md_in ctx)\<rparr>))
      else md5_chunks buf ctx)"

definition MD5Update :: "bytes \<Rightarrow> md5_ctx \<Rightarrow> md5_ctx" where
  "MD5Update buf ctx = md5_feed (unat (drop_bit 3 (md_bits0 ctx) AND 0x3f)) buf (md5_count buf ctx)"

definition digest_bytes :: "u32 \<times> u32 \<times> u32 \<times> u32 \<Rightarrow> bytes" where
  "digest_bytes = (\<lambda>(a, b, c, d). word_bytes 4 a @ word_bytes 4 b @ word_bytes 4 c @ word_bytes 4 d)"

text \<open>\<open>MD5Final\<close>: padding to 56 bytes, over two blocks when the first has no room for the length.\<close>

definition md5_pad :: "md5_ctx \<Rightarrow> md5_ctx" where
  "md5_pad ctx =
     (let count = unat (drop_bit 3 (md_bits0 ctx) AND 0x3F);
          ctx = ctx\<lparr>md_in := (md_in ctx)[count := 0x80]\<rparr>;
          rest = 64 - 1 - count
      in if rest < 8
         then let ctx = md5_block (ctx\<lparr>md_in := put_bytes (count + 1) (replicate rest 0) (md_in ctx)\<rparr>)
              in ctx\<lparr>md_in := put_bytes 0 (replicate 56 0) (md_in ctx)\<rparr>
         else ctx\<lparr>md_in := put_bytes (count + 1) (replicate (rest - 8) 0) (md_in ctx)\<rparr>)"

text \<open>\<open>sizeof(ctx)\<close> is the size of a pointer, so only the first eight bytes of the context are wiped.\<close>

definition MD5Final :: "md5_ctx \<Rightarrow> bytes \<times> md5_ctx" where
  "MD5Final ctx0 =
     (let ctx = md5_pad ctx0;
          mem = byteReverse 14 (md_in ctx);
          mem = put_bytes 56 (word_bytes 4 (md_bits0 ctx)) mem;
          mem = put_bytes 60 (word_bytes 4 (md_bits1 ctx)) mem;
          buf = MD5Transform (md_buf ctx) (words_of mem);
          (a, b, c, d) = buf
      in (digest_bytes buf, ctx\<lparr>md_in := mem, md_buf := (0, 0, c, d)\<rparr>))"

subsection \<open>The reference\<close>

text \<open>RFC 1321: the auxiliary functions, the order in which a round takes the words of the block, and the shifts. The table
  \<open>T\<close> is the one of the code.\<close>

definition rfc_F :: "nat \<Rightarrow> u32 \<Rightarrow> u32 \<Rightarrow> u32 \<Rightarrow> u32" where
  "rfc_F r x y z =
     (if r = 0 then (x AND y) OR (NOT x AND z)
      else if r = 1 then (x AND z) OR (y AND NOT z)
      else if r = 2 then x XOR y XOR z
      else y XOR (x OR NOT z))"

definition rfc_word :: "nat \<Rightarrow> nat \<Rightarrow> nat" where
  "rfc_word r i = (if r = 0 then i else if r = 1 then 5 * i + 1 else if r = 2 then 3 * i + 5 else 7 * i) mod 16"

definition rfc_shift :: "nat \<Rightarrow> nat \<Rightarrow> nat" where
  "rfc_shift r i = [7, 12, 17, 22, 5, 9, 14, 20, 4, 11, 16, 23, 6, 10, 15, 21] ! (4 * r + i mod 4)"

definition rfc_T :: "nat \<Rightarrow> u32" where
  "rfc_T n = fst (snd (snd (md5_steps ! n)))"

text \<open>The operation \<open>[abcd k s i]\<close>: \<open>a = b + ((a + F(b, c, d) + X[k] + T[i]) <<< s)\<close>.\<close>

definition rfc_op :: "u32 list \<Rightarrow> nat \<Rightarrow> u32 \<times> u32 \<times> u32 \<times> u32 \<Rightarrow> u32 \<times> u32 \<times> u32 \<times> u32" where
  "rfc_op X n = (\<lambda>(a, b, c, d).
     let r = n div 16; i = n mod 16
     in (d, b + word_rotl (rfc_shift r i) (a + rfc_F r b c d + X ! rfc_word r i + rfc_T n), b, c))"

definition rfc_compress :: "u32 \<times> u32 \<times> u32 \<times> u32 \<Rightarrow> u32 list \<Rightarrow> u32 \<times> u32 \<times> u32 \<times> u32" where
  "rfc_compress H X = (let (a, b, c, d) = fold (rfc_op X) [0..<64] H; (a0, b0, c0, d0) = H in (a0 + a, b0 + b, c0 + c, d0 + d))"

text \<open>Padding: a one bit, zeros up to 56 modulo 64, the number of bits in eight bytes.\<close>

definition rfc_pad :: "bytes \<Rightarrow> bytes" where
  "rfc_pad m = m @ [0x80] @ replicate ((119 - length m mod 64) mod 64) 0 @ word_bytes 8 (of_nat (8 * length m) :: u64)"

fun rfc_fold :: "nat \<Rightarrow> bytes \<Rightarrow> u32 \<times> u32 \<times> u32 \<times> u32 \<Rightarrow> u32 \<times> u32 \<times> u32 \<times> u32" where
  "rfc_fold 0 m H = H"
| "rfc_fold (Suc n) m H = rfc_fold n (drop 64 m) (rfc_compress H (words_of (take 64 m)))"

definition md5_rfc :: "bytes \<Rightarrow> bytes" where
  "md5_rfc m = digest_bytes (rfc_fold (length (rfc_pad m) div 64) (rfc_pad m) (0x67452301, 0xefcdab89, 0x98badcfe, 0x10325476))"

subsection \<open>The transformation is the published one\<close>

lemma rfc_functions:
  "rfc_F 0 = F1" "rfc_F 1 = F2" "rfc_F 2 = F3" "rfc_F 3 = F4"
  by (auto simp: fun_eq_iff rfc_F_def F1_def F2_def F3_def F4_def bit_simps intro!: bit_word_eqI)

lemma rotl_shift:
  fixes w :: u32
  assumes "0 < s" and "s < 32"
  shows "word_rotl s w = push_bit s w OR drop_bit (32 - s) w"
proof (rule bit_word_eqI)
  fix n assume n: "n < LENGTH(32)"
  show "bit (word_rotl s w) n = bit (push_bit s w OR drop_bit (32 - s) w) n"
  proof (cases "n < s")
    case True
    then have "(n + 32 - s) mod 32 = 32 - s + n" using assms by simp
    then show ?thesis using True n assms by (simp add: bit_word_rotl_iff bit_simps)
  next
    case False
    then have "\<not> bit w (32 - s + n)" using assms by (intro notI) (auto dest!: bit_imp_le_length)
    moreover have "(n + 32 - s) mod 32 = n - s" using False n assms by (simp add: mod_if)
    ultimately show ?thesis using False n assms by (simp add: bit_word_rotl_iff bit_simps)
  qed
qed

lemma step_is_op:
  assumes "0 < s" and "s < 32"
  shows "MD5STEP f w x y z (X ! k + t) s = x + word_rotl s (w + f x y z + X ! k + t)"
  using assms by (simp add: MD5STEP_def Let_def rotl_shift add.commute add.left_commute)

lemma md5_steps_rfc:
  "md5_steps = map (\<lambda>n. (rfc_F (n div 16), rfc_word (n div 16) (n mod 16), rfc_T n, rfc_shift (n div 16) (n mod 16))) [0..<64]"
proof -
  have "[0..<64] = [0, 1, 2, 3, 4, 5, 6, 7, 8, 9, 10, 11, 12, 13, 14, 15, 16, 17, 18, 19, 20, 21, 22, 23, 24, 25, 26, 27, 28, 29,
      30, 31, 32, 33, 34, 35, 36, 37, 38, 39, 40, 41, 42, 43, 44, 45, 46, 47, 48, 49, 50, 51, 52, 53, 54, 55, 56, 57, 58, 59, 60,
      61, 62, 63 :: nat]" by (simp add: upt_rec)
  then show ?thesis
    by (simp add: rfc_T_def) (simp add: md5_steps_def rfc_functions rfc_functions [unfolded One_nat_def] rfc_word_def rfc_shift_def)
qed

lemma rfc_shift_range:
  assumes "r < 4"
  shows "0 < rfc_shift r i \<and> rfc_shift r i < 32"
proof -
  let ?t = "[7, 12, 17, 22, 5, 9, 14, 20, 4, 11, 16, 23, 6, 10, 15, 21] :: nat list"
  have "4 * r + i mod 4 < length ?t" using assms mod_less_divisor [of 4 i] by simp
  then have "?t ! (4 * r + i mod 4) \<in> set ?t" by (rule nth_mem)
  then show ?thesis unfolding rfc_shift_def by auto
qed

lemma transform_rfc: "MD5Transform buf X = rfc_compress buf X"
proof -
  have "fold (step_round X) md5_steps buf = fold (rfc_op X) [0..<64] buf"
    unfolding md5_steps_rfc fold_map
  proof (rule fold_cong [OF refl refl])
    fix n :: nat assume "n \<in> set [0..<64]"
    then have "0 < rfc_shift (n div 16) (n mod 16) \<and> rfc_shift (n div 16) (n mod 16) < 32" by (intro rfc_shift_range) auto
    then show "(step_round X \<circ> (\<lambda>n. (rfc_F (n div 16), rfc_word (n div 16) (n mod 16), rfc_T n, rfc_shift (n div 16) (n mod 16)))) n = rfc_op X n"
      by (auto simp: fun_eq_iff step_round_def rfc_op_def Let_def step_is_op)
  qed
  then show ?thesis by (simp add: MD5Transform_def rfc_compress_def)
qed

subsection \<open>Messages in pieces\<close>

lemma byteReverse_id:
  assumes "4 * n \<le> length mem"
  shows "byteReverse n mem = mem"
proof -
  have "concat (map (\<lambda>i. word_bytes 4 (le32 mem (4 * i))) [0..<n]) = take (4 * n) mem"
    using assms
  proof (induction n)
    case (Suc n)
    then have "word_bytes 4 (le32 mem (4 * n)) = take 4 (drop (4 * n) mem)" by (intro word_bytes_le32) simp
    moreover have "take (4 * Suc n) mem = take (4 * n) mem @ take 4 (drop (4 * n) mem)" using take_add [of "4 * n" 4 mem] by (simp add: add.commute)
    ultimately show ?case using Suc by simp
  qed simp
  then show ?thesis by (simp add: byteReverse_def)
qed

lemma md5_block_fields:
  assumes "length (md_in ctx) = 64"
  shows "md_in (md5_block ctx) = md_in ctx" "md_buf (md5_block ctx) = rfc_compress (md_buf ctx) (words_of (md_in ctx))"
    "md_bits0 (md5_block ctx) = md_bits0 ctx" "md_bits1 (md5_block ctx) = md_bits1 ctx"
  using assms by (simp_all add: md5_block_def Let_def byteReverse_id transform_rfc)

lemma rfc_fold_add: "rfc_fold (n + k) m H = rfc_fold k (drop (64 * n) m) (rfc_fold n m H)"
  by (induction n arbitrary: m H) (simp_all add: add.commute)

lemma rfc_fold_take: "64 * n \<le> k \<Longrightarrow> rfc_fold n (take k m) H = rfc_fold n m H"
proof (induction n arbitrary: m k H)
  case (Suc n)
  then have "rfc_fold n (take (k - 64) (drop 64 m)) (rfc_compress H (words_of (take 64 m))) = rfc_fold n (drop 64 m) (rfc_compress H (words_of (take 64 m)))"
    by (intro Suc.IH) simp
  then show ?case using Suc.prems by (simp add: drop_take min_def)
qed simp

lemma rfc_fold_append: "64 * n \<le> length m \<Longrightarrow> rfc_fold n (m @ x) H = rfc_fold n m H"
  using rfc_fold_take [of n "length m" "m @ x" H] by simp

lemma put_whole: "length bs = length mem \<Longrightarrow> put_bytes 0 bs mem = bs"
  by (simp add: put_bytes_def)

lemma md5_chunks_fields:
  assumes "length (md_in ctx) = 64"
  shows "md_buf (md5_chunks buf ctx) = rfc_fold (length buf div 64) buf (md_buf ctx) \<and> length (md_in (md5_chunks buf ctx)) = 64
    \<and> take (length buf mod 64) (md_in (md5_chunks buf ctx)) = drop (64 * (length buf div 64)) buf
    \<and> md_bits0 (md5_chunks buf ctx) = md_bits0 ctx \<and> md_bits1 (md5_chunks buf ctx) = md_bits1 ctx"
  using assms
proof (induction buf ctx rule: md5_chunks.induct)
  case (1 buf ctx)
  show ?case
  proof (cases "64 \<le> length buf")
    case True
    let ?ctx = "ctx\<lparr>md_in := put_bytes 0 (take 64 buf) (md_in ctx)\<rparr>"
    have l: "length (md_in ?ctx) = 64" using True 1(2) by simp
    have "length buf div 64 = Suc (length (drop 64 buf) div 64)" "length buf mod 64 = length (drop 64 buf) mod 64"
      using True by (simp_all add: le_div_geq le_mod_geq)
    moreover have "put_bytes 0 (take 64 buf) (md_in ctx) = take 64 buf" using True 1(2) by (intro put_whole) simp
    ultimately show ?thesis using 1(1) [OF True] md5_block_fields [OF l] l True
      by (simp add: md5_chunks.simps [of buf ctx] add.commute)
  next
    case False
    then show ?thesis using 1(2) by (simp add: md5_chunks.simps [of buf ctx] put_bytes_def)
  qed
qed

text \<open>The context stands for a message: the whole blocks are in the four words, the rest in the buffer, the length in bits in
  the two counters.\<close>

definition md5_iv :: "u32 \<times> u32 \<times> u32 \<times> u32" where
  "md5_iv = (0x67452301, 0xefcdab89, 0x98badcfe, 0x10325476)"

definition md_repr :: "bytes \<Rightarrow> md5_ctx \<Rightarrow> bool" where
  "md_repr m ctx \<longleftrightarrow> length (md_in ctx) = 64 \<and> md_buf ctx = rfc_fold (length m div 64) m md5_iv
     \<and> take (length m mod 64) (md_in ctx) = drop (64 * (length m div 64)) m
     \<and> md_bits0 ctx = of_nat (8 * length m) \<and> md_bits1 ctx = of_nat (8 * length m div 2 ^ 32)"

lemma md_repr_init: "length (md_in ctx) = 64 \<Longrightarrow> md_repr [] (MD5Init ctx)"
  by (simp add: md_repr_def MD5Init_def md5_iv_def)

lemma bytes_in_block: "unat (drop_bit 3 (of_nat (8 * n) :: u32) AND 0x3f) = n mod 64"
proof -
  have m: "(0x3f :: u32) = mask 6" by (simp add: mask_eq_exp_minus_1)
  have "8 * n mod 2 ^ 32 div 8 = n mod 2 ^ 29" using mod_mult_mult1 [of 8 n "2 ^ 29"] by simp
  moreover have "n mod 2 ^ 29 mod 64 = n mod 64" using mod_mod_cancel [of 64 "2 ^ 29" n] by (simp add: dvd_def)
  moreover have "unat (drop_bit 3 (of_nat (8 * n) :: u32) AND 0x3f) = take_bit 6 (drop_bit 3 (take_bit 32 (8 * n)))"
    unfolding m take_bit_eq_mask [symmetric] unsigned_take_bit_eq unsigned_drop_bit_eq unsigned_of_nat by simp
  ultimately show ?thesis by (simp add: take_bit_eq_mod drop_bit_eq_div)
qed

lemma bits_add:
  fixes k n :: nat
  assumes "n < 2 ^ 32"
  defines "t \<equiv> (of_nat (8 * k) :: u32)" and "len \<equiv> (of_nat n :: u32)"
  shows "t + push_bit 3 len = of_nat (8 * (k + n))"
    "of_nat (8 * k div 2 ^ 32) + (if t + push_bit 3 len < t then 1 else 0) + drop_bit 29 len = (of_nat (8 * (k + n) div 2 ^ 32) :: u32)"
proof -
  have len: "push_bit 3 len = of_nat (8 * n)" by (simp add: len_def push_bit_eq_mult)
  then show sum: "t + push_bit 3 len = of_nat (8 * (k + n))" by (simp add: t_def)
  define p q where "p = 8 * k mod 2 ^ 32" and "q = 8 * n mod 2 ^ 32"
  have u: "unat t = p" "unat (push_bit 3 len) = q" unfolding len
    by (simp_all add: t_def p_def q_def unsigned_of_nat take_bit_eq_mod del: of_nat_mult)
  have pq: "p < 2 ^ 32" "q < 2 ^ 32" by (simp_all add: p_def q_def)
  have "unat (t + push_bit 3 len) = (p + q) mod 2 ^ 32" using u by (simp add: unat_word_ariths)
  moreover have "(p + q) mod 2 ^ 32 = (if p + q < 2 ^ 32 then p + q else p + q - 2 ^ 32)" using pq by (simp add: mod_if)
  ultimately have "t + push_bit 3 len < t \<longleftrightarrow> 2 ^ 32 \<le> p + q" using u(1) pq by (auto simp: word_less_nat_alt)
  moreover have "(p + q) div 2 ^ 32 = (if 2 ^ 32 \<le> p + q then 1 else 0)" using pq by (auto simp: div_if)
  moreover have "8 * (k + n) div 2 ^ 32 = 8 * k div 2 ^ 32 + 8 * n div 2 ^ 32 + (p + q) div 2 ^ 32"
    using div_add1_eq [of "8 * k" "8 * n" "2 ^ 32"] by (simp add: p_def q_def distrib_left)
  moreover have "8 * n div 2 ^ 32 = n div 2 ^ 29" using div_mult_mult1 [of 8 n "2 ^ 29"] by simp
  moreover have "drop_bit 29 len = of_nat (n div 2 ^ 29)"
  proof -
    have "unat len = n" using assms(1) by (simp add: len_def unsigned_of_nat take_bit_nat_eq_self)
    then have "unat (drop_bit 29 len) = n div 2 ^ 29" unfolding unsigned_drop_bit_eq
      using assms(1) by (simp add: drop_bit_eq_div take_bit_nat_eq_self)
    from arg_cong [OF this, of "of_nat :: nat \<Rightarrow> u32"] show ?thesis by simp
  qed
  ultimately show "of_nat (8 * k div 2 ^ 32) + (if t + push_bit 3 len < t then 1 else 0) + drop_bit 29 len = (of_nat (8 * (k + n) div 2 ^ 32) :: u32)"
    by simp
qed

lemma tail_length: "length (drop (64 * (length m div 64)) m) = length m mod 64"
  by (simp add: minus_mult_div_eq_mod)

lemma md5_count_fields:
  assumes "md_bits0 ctx = of_nat (8 * k)" and "md_bits1 ctx = of_nat (8 * k div 2 ^ 32)" and "length buf < 2 ^ 32"
  shows "md5_count buf ctx = ctx\<lparr>md_bits0 := of_nat (8 * (k + length buf)), md_bits1 := of_nat (8 * (k + length buf) div 2 ^ 32)\<rparr>"
  using bits_add [OF assms(3), of k] assms(1,2) unfolding md5_count_def Let_def by (auto split: if_splits)


lemma put_after_tail:
  assumes "length mem = 64" and "length x + length bs \<le> 64" and "take (length x) mem = x"
  shows "take (length x + length bs) (put_bytes (length x) bs mem) = x @ bs"
  using assms by (simp add: put_bytes_def)

lemma md_repr_split:
  assumes "length x = 64 * q" and "length y < 64"
  shows "md_repr (x @ y) ctx \<longleftrightarrow> length (md_in ctx) = 64 \<and> md_buf ctx = rfc_fold q x md5_iv \<and> take (length y) (md_in ctx) = y
     \<and> md_bits0 ctx = of_nat (8 * length (x @ y)) \<and> md_bits1 ctx = of_nat (8 * length (x @ y) div 2 ^ 32)"
proof -
  have "length (x @ y) div 64 = q" "length (x @ y) mod 64 = length y" using assms by simp_all
  moreover have "rfc_fold q (x @ y) md5_iv = rfc_fold q x md5_iv" using assms(1) by (simp add: rfc_fold_append)
  ultimately show ?thesis using assms unfolding md_repr_def by (simp del: of_nat_mult of_nat_add)
qed

lemma md5_chunks_repr:
  assumes "length x = 64 * q" and "length (md_in ctx) = 64" and "md_buf ctx = rfc_fold q x md5_iv"
    and "md_bits0 ctx = of_nat (8 * length (x @ buf))" and "md_bits1 ctx = of_nat (8 * length (x @ buf) div 2 ^ 32)"
  shows "md_repr (x @ buf) (md5_chunks buf ctx)"
proof -
  let ?k = "length buf div 64"
  let ?x = "x @ take (64 * ?k) buf" and ?y = "drop (64 * ?k) buf"
  have x: "length ?x = 64 * (q + ?k)" "length ?y < 64" using assms(1) by (simp_all add: minus_mult_div_eq_mod)
  have y: "length buf mod 64 = length ?y" by (simp add: minus_mult_div_eq_mod)
  have "rfc_fold (q + ?k) ?x md5_iv = rfc_fold ?k buf (md_buf ctx)"
    using assms(1,3) by (simp add: rfc_fold_add rfc_fold_append rfc_fold_take)
  then have "md_repr (?x @ ?y) (md5_chunks buf ctx)"
    unfolding md_repr_split [OF x] using md5_chunks_fields [OF assms(2), of buf] assms(4,5) y by simp
  then show ?thesis by simp
qed

lemma md5_feed_repr:
  assumes x: "length x = 64 * q" "length y < 64" and r: "md_repr (x @ y) ctx"
    and ctx': "md_in ctx' = md_in ctx" "md_buf ctx' = md_buf ctx" "md_bits0 ctx' = of_nat (8 * length (x @ y @ buf))"
      "md_bits1 ctx' = of_nat (8 * length (x @ y @ buf) div 2 ^ 32)"
  shows "md_repr (x @ y @ buf) (md5_feed (length y) buf ctx')"
proof -
  note i = r [unfolded md_repr_split [OF x]]
  consider (none) "y = []" | (short) "y \<noteq> []" "length (y @ buf) < 64" | (long) "y \<noteq> []" "64 \<le> length (y @ buf)" by linarith
  then show ?thesis
  proof cases
    case none
    then show ?thesis using md5_chunks_repr [OF x(1), of ctx' buf] i ctx' by (simp add: md5_feed_def)
  next
    case short
    then have "take (length y + length buf) (put_bytes (length y) buf (md_in ctx)) = y @ buf" using i by (intro put_after_tail) simp_all
    moreover have "md5_feed (length y) buf ctx' = ctx'\<lparr>md_in := put_bytes (length y) buf (md_in ctx)\<rparr>"
      using short ctx'(1) by (auto simp: md5_feed_def)
    ultimately show ?thesis using short i ctx' md_repr_split [OF x(1) short(2)] by simp
  next
    case long
    let ?a = "take (64 - length y) buf" and ?b = "drop (64 - length y) buf"
    let ?c = "ctx'\<lparr>md_in := put_bytes (length y) ?a (md_in ctx')\<rparr>"
    have la: "length (y @ ?a) = 64" using long(2) x(2) by simp
    then have m: "put_bytes (length y) ?a (md_in ctx) = y @ ?a" using i by (simp add: put_bytes_def)
    have c: "length (md_in ?c) = 64" "md_in ?c = y @ ?a" using la m ctx'(1) by simp_all
    have "rfc_fold (Suc q) (x @ y @ ?a) md5_iv = rfc_compress (rfc_fold q x md5_iv) (words_of (y @ ?a))"
      using rfc_fold_add [of q 1 "x @ y @ ?a" md5_iv] x(1) la by (simp add: rfc_fold_append)
    then have "md_repr ((x @ y @ ?a) @ ?b) (md5_chunks ?b (md5_block ?c))"
      using md5_block_fields [OF c(1)] i ctx' x(1) la c(2) by (intro md5_chunks_repr [of _ "Suc q"]) simp_all
    then show ?thesis using long by (auto simp: md5_feed_def)
  qed
qed

lemma MD5Update_repr:
  assumes "md_repr m ctx" and "length buf < 2 ^ 32"
  shows "md_repr (m @ buf) (MD5Update buf ctx)"
proof -
  let ?q = "length m div 64"
  let ?x = "take (64 * ?q) m" and ?y = "drop (64 * ?q) m"
  have x: "length ?x = 64 * ?q" "length ?y < 64" by (simp_all add: minus_mult_div_eq_mod)
  have b: "md_bits0 ctx = of_nat (8 * length m)" "md_bits1 ctx = of_nat (8 * length m div 2 ^ 32)" using assms(1) by (simp_all add: md_repr_def)
  have "unat (drop_bit 3 (md_bits0 ctx) AND 0x3f) = length ?y" unfolding b(1) bytes_in_block by (simp add: minus_mult_div_eq_mod)
  moreover have "md_repr (?x @ ?y @ buf) (md5_feed (length ?y) buf (md5_count buf ctx))"
    using assms(1) md5_count_fields [OF b assms(2)] by (intro md5_feed_repr [OF x, of ctx]) simp_all
  ultimately show ?thesis by (simp add: MD5Update_def flip: append_assoc)
qed

subsection \<open>The digest\<close>

lemma bit_word_nat: "bit (of_nat j :: 'a::len word) n \<longleftrightarrow> n < LENGTH('a) \<and> bit j n"
  using bit_word_of_int_iff [where 'a = 'a, of "int j" n] by (simp add: bit_of_nat_iff)

lemma length_in_bits:
  "word_bytes 8 (of_nat n :: u64) = word_bytes 4 (of_nat n :: u32) @ word_bytes 4 (of_nat (n div 2 ^ 32) :: u32)"
proof (rule nth_equalityI)
  fix i assume "i < length (word_bytes 8 (of_nat n :: u64))"
  then have i: "i < 8" by simp
  have d: "n div 2 ^ 32 = drop_bit 32 n" by (simp add: drop_bit_eq_div)
  have "ucast (drop_bit (8 * i) (of_nat n :: u64)) =
      (if i < 4 then ucast (drop_bit (8 * i) (of_nat n :: u32)) else ucast (drop_bit (8 * (i - 4)) (of_nat (n div 2 ^ 32) :: u32)) :: u8)"
    unfolding d using i by (intro bit_word_eqI) (auto simp: bit_unsigned_iff bit_drop_bit_eq bit_word_nat right_diff_distrib' simp del: of_nat_mult)
  then show "word_bytes 8 (of_nat n :: u64) ! i = (word_bytes 4 (of_nat n :: u32) @ word_bytes 4 (of_nat (n div 2 ^ 32) :: u32)) ! i"
    using i by (auto simp: nth_append simp del: of_nat_mult)
qed simp


lemma padding:
  assumes "length x = 64 * q" and "length y < 64"
  shows "rfc_pad (x @ y) = x @ y @ 0x80 # replicate (if length y < 56 then 55 - length y else 119 - length y) 0
    @ word_bytes 4 (of_nat (8 * length (x @ y)) :: u32) @ word_bytes 4 (of_nat (8 * length (x @ y) div 2 ^ 32) :: u32)"
proof -
  have "length (x @ y) mod 64 = length y" using assms by simp
  moreover have "(119 - length y) mod 64 = (if length y < 56 then 55 - length y else 119 - length y)"
    using assms(2) by (auto simp: mod_if)
  ultimately show ?thesis unfolding rfc_pad_def length_in_bits by simp
qed

lemma rfc_fold_last:
  assumes "length x = 64 * q" and "length z = 64"
  shows "rfc_fold (Suc q) (x @ z) H = rfc_compress (rfc_fold q x H) (words_of z)"
  using rfc_fold_add [of q 1 "x @ z" H] assms by (simp add: rfc_fold_append)

lemma mark_end:
  assumes "length mem = 64" and "length y < 64" and "take (length y) mem = y"
  shows "take (Suc (length y)) (mem[length y := b]) = y @ [b]" "length (mem[length y := b]) = 64"
  using assms by (simp_all add: take_Suc_conv_app_nth)

lemma put_zeros:
  assumes "length mem = 64" and "take k mem = z" and "k + n \<le> 64" and "length z = k"
  shows "take (k + n) (put_bytes k (replicate n 0) mem) = z @ replicate n 0" "length (put_bytes k (replicate n 0) mem) = 64"
  using assms by (simp_all add: put_bytes_def)

lemma put_length:
  assumes "length mem = 64" and "take 56 mem = z"
  shows "put_bytes 60 (word_bytes 4 b) (put_bytes 56 (word_bytes 4 (a :: u32)) (byteReverse 14 mem)) = z @ word_bytes 4 a @ word_bytes 4 (b :: u32)"
proof -
  have "length z = 56" using assms by auto
  then show ?thesis using assms by (simp add: byteReverse_id put_bytes_def)
qed

lemma MD5Final_digest:
  assumes "length (md_in (md5_pad ctx)) = 64" and "take 56 (md_in (md5_pad ctx)) = z"
  shows "fst (MD5Final ctx) = digest_bytes (rfc_compress (md_buf (md5_pad ctx))
    (words_of (z @ word_bytes 4 (md_bits0 (md5_pad ctx)) @ word_bytes 4 (md_bits1 (md5_pad ctx)))))"
  unfolding MD5Final_def Let_def put_length [OF assms] transform_rfc case_prod_beta by simp

lemma md5_pad_short:
  assumes "unat (drop_bit 3 (md_bits0 ctx) AND 0x3F) = length y" and "length y < 56" and "length (md_in ctx) = 64" and "take (length y) (md_in ctx) = y"
  shows "length (md_in (md5_pad ctx)) = 64 \<and> take 56 (md_in (md5_pad ctx)) = y @ 0x80 # replicate (55 - length y) 0
    \<and> md_buf (md5_pad ctx) = md_buf ctx \<and> md_bits0 (md5_pad ctx) = md_bits0 ctx \<and> md_bits1 (md5_pad ctx) = md_bits1 ctx"
proof -
  let ?mem = "(md_in ctx)[length y := 0x80]"
  have "md5_pad ctx = ctx\<lparr>md_in := put_bytes (Suc (length y)) (replicate (55 - length y) 0) ?mem\<rparr>"
    using assms(2) unfolding md5_pad_def Let_def assms(1) by simp
  then show ?thesis
    using put_zeros [of ?mem "Suc (length y)" "y @ [0x80]" "55 - length y"] mark_end [of "md_in ctx" y "0x80"] assms(2-4) by simp
qed

lemma md5_pad_long:
  assumes "unat (drop_bit 3 (md_bits0 ctx) AND 0x3F) = length y" and "56 \<le> length y" and "length y < 64" and "length (md_in ctx) = 64"
    and "take (length y) (md_in ctx) = y"
  shows "length (md_in (md5_pad ctx)) = 64 \<and> take 56 (md_in (md5_pad ctx)) = replicate 56 0
    \<and> md_buf (md5_pad ctx) = rfc_compress (md_buf ctx) (words_of (y @ 0x80 # replicate (63 - length y) 0))
    \<and> md_bits0 (md5_pad ctx) = md_bits0 ctx \<and> md_bits1 (md5_pad ctx) = md_bits1 ctx"
proof -
  let ?mem = "(md_in ctx)[length y := 0x80]" and ?z = "y @ 0x80 # replicate (63 - length y) 0"
  have z: "put_bytes (Suc (length y)) (replicate (63 - length y) 0) ?mem = ?z" "length ?z = 64"
    using put_zeros [of ?mem "Suc (length y)" "y @ [0x80]" "63 - length y"] mark_end [of "md_in ctx" y "0x80"] assms(2-5) by simp_all
  let ?c = "md5_block (ctx\<lparr>md_in := ?z\<rparr>)"
  have "md5_pad ctx = ?c\<lparr>md_in := put_bytes 0 (replicate 56 0) (md_in ?c)\<rparr>"
    using assms(2,3) unfolding md5_pad_def Let_def assms(1) by (simp add: z(1))
  then show ?thesis using md5_block_fields [of "ctx\<lparr>md_in := ?z\<rparr>"] z(2) by (simp add: put_bytes_def)
qed

lemma MD5Final_repr:
  assumes "md_repr m ctx"
  shows "fst (MD5Final ctx) = md5_rfc m"
proof -
  let ?q = "length m div 64"
  define x y where "x = take (64 * ?q) m" and "y = drop (64 * ?q) m"
  have m: "m = x @ y" and x: "length x = 64 * ?q" "length y < 64" by (simp_all add: x_def y_def minus_mult_div_eq_mod)
  note r = assms [unfolded m md_repr_split [OF x]]
  define a b where "a = (of_nat (8 * length (x @ y)) :: u32)" and "b = (of_nat (8 * length (x @ y) div 2 ^ 32) :: u32)"
  have bits: "md_bits0 ctx = a" "md_bits1 ctx = b" using r by (simp_all only: a_def b_def)
  have count: "unat (drop_bit 3 (md_bits0 ctx) AND 0x3F) = length y"
    unfolding bits a_def bytes_in_block using x by simp
  have iv: "(0x67452301, 0xefcdab89, 0x98badcfe, 0x10325476) = md5_iv" by (simp add: md5_iv_def)
  show ?thesis
  proof (cases "length y < 56")
    case True
    let ?z = "y @ 0x80 # replicate (55 - length y) 0"
    let ?l = "?z @ word_bytes 4 a @ word_bytes 4 b"
    have "fst (MD5Final ctx) = digest_bytes (rfc_compress (md_buf ctx) (words_of ?l))"
      using md5_pad_short [OF count True] r MD5Final_digest [of ctx ?z] bits by simp
    moreover have "rfc_pad m = x @ ?l" using padding [OF x] True by (simp add: m a_def b_def)
    moreover have l: "length ?l = 64" using True by simp
    ultimately show ?thesis using rfc_fold_last [OF x(1) l, of md5_iv] r x(1) unfolding md5_rfc_def iv by simp
  next
    case False
    let ?z = "y @ 0x80 # replicate (63 - length y) 0"
    let ?l = "replicate 56 0 @ word_bytes 4 a @ word_bytes 4 b"
    have "fst (MD5Final ctx) = digest_bytes (rfc_compress (rfc_compress (md_buf ctx) (words_of ?z)) (words_of ?l))"
      using md5_pad_long [OF count _ x(2)] False r MD5Final_digest [of ctx "replicate 56 0"] bits by simp
    moreover have "119 - length y = (63 - length y) + 56" using x(2) by simp
    then have "replicate (119 - length y) (0 :: u8) = replicate (63 - length y) 0 @ replicate 56 0" by (simp only: replicate_add)
    then have "rfc_pad m = (x @ ?z) @ ?l"
      using padding [OF x] unfolding m a_def [symmetric] b_def [symmetric] by (simp only: False if_False append_Cons append_assoc)
    moreover have l: "length ?z = 64" "length (x @ ?z) = 64 * Suc ?q" "length ?l = 64" using x by simp_all
    ultimately show ?thesis
      using rfc_fold_last [OF l(2,3), of md5_iv] rfc_fold_last [OF x(1) l(1), of md5_iv] r x(1) unfolding md5_rfc_def iv
      by simp
  qed
qed


lemma MD5Update_fold:
  assumes "md_repr m ctx" and "\<forall>b\<in>set bs. length b < 2 ^ 32"
  shows "md_repr (m @ concat bs) (fold MD5Update bs ctx)"
  using assms by (induction bs arbitrary: m ctx) (simp_all add: MD5Update_repr flip: append_assoc)


definition sample_md5 :: md5_ctx where
  "sample_md5 = \<lparr>md_buf = (1, 2, 3, 4), md_bits0 = 5, md_bits1 = 6, md_in = replicate 64 7\<rparr>"

lemma md5_abc: "md5_rfc (map byte_of ''abc'') =
  [0x90, 0x01, 0x50, 0x98, 0x3c, 0xd2, 0x4f, 0xb0, 0xd6, 0x96, 0x3f, 0x7d, 0x28, 0xe1, 0x7f, 0x72]"
  by code_simp


end
