(* ===== verification/Stg_AGHash.thy ===== *)
theory Stg_AGHash
  imports Stg_MD5
begin

text \<open>
  The password hash of \<open>libs/crypto/ag_md5.c\<close>: salts, the base-64 alphabet, the MD5 based \<open>crypt\<close> without its thousand rounds, and
  the hash of a time and a text.
\<close>

subsection \<open>Salts\<close>

definition i64c :: "int \<Rightarrow> char" where
  "i64c i =
     (if i \<le> 0 then CHR ''.''
      else if i = 1 then CHR ''/''
      else if i \<ge> 2 \<and> i < 12 then char_of (nat (48 - 2 + i))
      else if i \<ge> 12 \<and> i < 38 then char_of (nat (65 - 12 + i))
      else if i \<ge> 38 \<and> i < 63 then char_of (nat (97 - 38 + i))
      else CHR ''z'')"

text \<open>The loop writes at most \<open>n\<close> more characters.\<close>

fun l64a_digits :: "nat \<Rightarrow> int \<Rightarrow> string" where
  "l64a_digits 0 l = []"
| "l64a_digits (Suc n) l = i64c (l mod 64) # (if l div 64 > 0 then l64a_digits n (l div 64) else [])"

definition l64a :: "int \<Rightarrow> string option" where
  "l64a l = (if l < 0 then None else Some (l64a_digits 6 l))"

text \<open>The time, the process and the processor time are parameters; appending the null pointer of a negative number has no defined
  result.\<close>

definition crypt_make_salt :: "int \<Rightarrow> int \<Rightarrow> int \<Rightarrow> int \<Rightarrow> string option" where
  "crypt_make_salt usec sec pid clock = do {
     a \<leftarrow> l64a usec;
     b \<leftarrow> l64a (sec + pid + clock);
     Some (take 11 (''$1$'' @ a @ b)) }"

definition itoa64 :: string where
  "itoa64 = ''./0123456789ABCDEFGHIJKLMNOPQRSTUVWXYZabcdefghijklmnopqrstuvwxyz''"

fun to64 :: "u64 \<Rightarrow> nat \<Rightarrow> string" where
  "to64 v 0 = []"
| "to64 v (Suc n) = itoa64 ! unat (v AND 0x3f) # to64 (drop_bit 6 v) n"

subsection \<open>The password hash\<close>

definition magic :: string where
  "magic = ''$1$''"

text \<open>Strings are C strings, without their terminators. The salt stops at the first dollar sign and after eight characters.\<close>

definition true_salt :: "string \<Rightarrow> string" where
  "true_salt salt = take 8 (takeWhile (\<lambda>c. c \<noteq> CHR ''$'') (if take 3 salt = magic then drop 3 salt else salt))"

function add_final :: "bytes \<Rightarrow> nat \<Rightarrow> md5_ctx \<Rightarrow> md5_ctx" where
  "add_final final pl ctx = (if 0 < pl then add_final final (pl - 16) (MD5Update (take (if 16 < pl then 16 else pl) final) ctx) else ctx)"
  by pat_completeness auto

termination
  by (relation "measure (\<lambda>(_, pl, _). pl)") auto

declare add_final.simps [simp del]

text \<open>Something really weird: \<open>j\<close> stays 0 and \<open>final\<close> has been wiped.\<close>

function add_weird :: "bytes \<Rightarrow> nat \<Rightarrow> md5_ctx \<Rightarrow> md5_ctx" where
  "add_weird pw i ctx =
     (if i = 0 then ctx else add_weird pw (i div 2) (MD5Update (if odd i then [0] else take 1 pw) ctx))"
  by pat_completeness auto

termination
  by (relation "measure (\<lambda>(_, i, _). i)") auto

declare add_weird.simps [simp del]

definition final_text :: "bytes \<Rightarrow> string" where
  "final_text f =
     (let l = (\<lambda>a b c. push_bit 16 (ucast (f ! a)) OR push_bit 8 (ucast (f ! b)) OR ucast (f ! c) :: u64)
      in to64 (l 0 6 12) 4 @ to64 (l 1 7 13) 4 @ to64 (l 2 8 14) 4 @ to64 (l 3 9 15) 4 @ to64 (l 4 10 5) 4
        @ to64 (ucast (f ! 11)) 2)"

text \<open>\<open>ctx\<close> and \<open>ctx1\<close> are what the two local variables hold before they are initialised. The thousand rounds of the original
  are commented out in the code.\<close>

definition libshadow_md5_crypt :: "md5_ctx \<Rightarrow> md5_ctx \<Rightarrow> string \<Rightarrow> string \<Rightarrow> string" where
  "libshadow_md5_crypt ctx ctx1 pw salt =
     (let sp = true_salt salt; bpw = map byte_of pw; bsp = map byte_of sp;
          ctx = MD5Update bsp (MD5Update (map byte_of magic) (MD5Update bpw (MD5Init ctx)));
          final = fst (MD5Final (MD5Update bpw (MD5Update bsp (MD5Update bpw (MD5Init ctx1)))));
          ctx = add_final final (length pw) ctx;
          ctx = add_weird bpw (length pw) ctx;
          final = fst (MD5Final ctx)
      in magic @ sp @ ''$'' @ final_text final)"

definition pw_encrypt :: "md5_ctx \<Rightarrow> md5_ctx \<Rightarrow> string \<Rightarrow> string \<Rightarrow> string option" where
  "pw_encrypt ctx ctx1 clear salt = (if take 3 salt = ''$1$'' then Some (libshadow_md5_crypt ctx ctx1 clear salt) else None)"

text \<open>\<open>"%08lx"\<close> of an \<open>unsigned long\<close>.\<close>

definition hex_char :: "nat \<Rightarrow> char" where
  "hex_char d = ''0123456789abcdef'' ! d"

fun hex_digits :: "nat \<Rightarrow> u64 \<Rightarrow> string" where
  "hex_digits 0 n = []"
| "hex_digits (Suc k) n = hex_digits k (drop_bit 4 n) @ [hex_char (unat (n AND 0xf))]"

definition ag_salt :: "time_t \<Rightarrow> string" where
  "ag_salt salt =
     (let h = hex_digits 16 (word_of_int salt)
      in ''$1$'' @ replicate (8 - length (dropWhile (\<lambda>c. c = CHR ''0'') h)) (CHR ''0'') @ dropWhile (\<lambda>c. c = CHR ''0'') h)"

text \<open>The text behind the last dollar sign.\<close>

definition make_ag_hash :: "md5_ctx \<Rightarrow> md5_ctx \<Rightarrow> time_t \<Rightarrow> string \<Rightarrow> string" where
  "make_ag_hash ctx ctx1 salt clear =
     rev (takeWhile (\<lambda>c. c \<noteq> CHR ''$'') (rev (libshadow_md5_crypt ctx ctx1 clear (ag_salt salt))))"

definition strcmp :: "string \<Rightarrow> string \<Rightarrow> int" where
  "strcmp a b = (if a = b then 0 else if a < b then - 1 else 1)"

definition check_ag_hash :: "md5_ctx \<Rightarrow> md5_ctx \<Rightarrow> time_t \<Rightarrow> string \<Rightarrow> string \<Rightarrow> int" where
  "check_ag_hash ctx ctx1 salt clear hash = strcmp hash (make_ag_hash ctx ctx1 salt clear)"

subsection \<open>What the hash is\<close>

definition cycled :: "bytes \<Rightarrow> nat \<Rightarrow> bytes" where
  "cycled f n = map (\<lambda>i. f ! (i mod 16)) [0..<n]"

function bin_digits :: "nat \<Rightarrow> bool list" where
  "bin_digits n = (if n = 0 then [] else odd n # bin_digits (n div 2))"
  by pat_completeness auto

termination
  by (relation "measure id") auto

declare bin_digits.simps [simp del]

text \<open>The digest as the published algorithm defines it, without its thousand rounds.\<close>

definition crypt_digest :: "bytes \<Rightarrow> bytes \<Rightarrow> bytes" where
  "crypt_digest pw salt = md5_rfc (pw @ map byte_of ''$1$'' @ salt @ cycled (md5_rfc (pw @ salt @ pw)) (length pw)
     @ map (\<lambda>b. if b then 0 else pw ! 0) (bin_digits (length pw)))"

lemma length_md5_rfc [simp]: "length (md5_rfc m) = 16"
  by (simp add: md5_rfc_def digest_bytes_def case_prod_beta)

lemma cycled_step:
  assumes "length f = 16" and "16 < n"
  shows "cycled f n = f @ cycled f (n - 16)"
proof -
  have "[0..<n] = [0..<16] @ map (\<lambda>i. i + 16) [0..<n - 16]"
    using assms(2) upt_add_eq_append [of 0 16 "n - 16"] by (simp add: map_add_upt)
  moreover have "map (\<lambda>i. f ! (i mod 16)) [0..<16] = f" using assms(1) by (intro nth_equalityI) simp_all
  ultimately show ?thesis by (simp add: cycled_def o_def)
qed

lemma cycled_short: "length f = 16 \<Longrightarrow> n \<le> 16 \<Longrightarrow> cycled f n = take n f"
  by (intro nth_equalityI) (simp_all add: cycled_def)

lemma add_final_repr:
  assumes "length f = 16" and "md_repr m ctx"
  shows "md_repr (m @ cycled f n) (add_final f n ctx)"
  using assms
proof (induction f n ctx arbitrary: m rule: add_final.induct)
  case (1 f n ctx)
  let ?b = "take (if 16 < n then 16 else n) f"
  have u: "md_repr (m @ ?b) (MD5Update ?b ctx)" using 1(2,3) by (intro MD5Update_repr) simp_all
  consider "n = 0" | "0 < n" "n \<le> 16" | "16 < n" by linarith
  then show ?case
  proof cases
    case 1
    then show ?thesis using \<open>md_repr m ctx\<close> by (simp add: add_final.simps [of f 0] cycled_def)
  next
    case 2
    then show ?thesis using u 1(2) by (simp add: add_final.simps [of f n] add_final.simps [of f 0] cycled_short)
  next
    case 3
    then have "md_repr ((m @ ?b) @ cycled f (n - 16)) (add_final f (n - 16) (MD5Update ?b ctx))"
      using 1(1) [OF _ 1(2) u] by simp
    then show ?thesis using 3 1(2) by (simp add: add_final.simps [of f n] cycled_step)
  qed
qed

lemma add_weird_repr:
  assumes "md_repr m ctx" and "pw \<noteq> [] \<or> i = 0"
  shows "md_repr (m @ map (\<lambda>b. if b then 0 else pw ! 0) (bin_digits i)) (add_weird pw i ctx)"
  using assms
proof (induction pw i ctx arbitrary: m rule: add_weird.induct)
  case (1 pw i ctx)
  show ?case
  proof (cases "i = 0")
    case True
    then show ?thesis using 1 by (simp add: add_weird.simps [of pw 0] bin_digits.simps)
  next
    case False
    let ?b = "if odd i then [0] else take 1 pw"
    have b: "?b = [if odd i then 0 else pw ! 0]" using 1(3) False by (cases pw) simp_all
    then have "md_repr (m @ ?b) (MD5Update ?b ctx)" using 1(2) by (intro MD5Update_repr) simp_all
    then have "md_repr ((m @ ?b) @ map (\<lambda>b. if b then 0 else pw ! 0) (bin_digits (i div 2))) (add_weird pw (i div 2) (MD5Update ?b ctx))"
      using 1(1,3) False by blast
    then show ?thesis using False b by (simp add: add_weird.simps [of pw i] bin_digits.simps [of i])
  qed
qed

lemma crypt_digest_correct:
  assumes "length (md_in ctx) = 64" and "length (md_in ctx1) = 64" and "length pw < 2 ^ 32"
  shows "libshadow_md5_crypt ctx ctx1 pw salt =
    magic @ true_salt salt @ ''$'' @ final_text (crypt_digest (map byte_of pw) (map byte_of (true_salt salt)))"
proof -
  let ?p = "map byte_of pw" and ?s = "map byte_of (true_salt salt)" and ?m = "map byte_of magic"
  have s: "length ?s < 2 ^ 32" "length ?m < 2 ^ 32" "length ?p < 2 ^ 32" using assms(3) by (simp_all add: true_salt_def magic_def)
  have a: "fst (MD5Final (MD5Update ?p (MD5Update ?s (MD5Update ?p (MD5Init ctx1))))) = md5_rfc (?p @ ?s @ ?p)"
    using MD5Final_repr [OF MD5Update_fold [OF md_repr_init [OF assms(2)], of "[?p, ?s, ?p]"]] s by simp
  have b: "md_repr (?p @ ?m @ ?s) (MD5Update ?s (MD5Update ?m (MD5Update ?p (MD5Init ctx))))"
    using MD5Update_fold [OF md_repr_init [OF assms(1)], of "[?p, ?m, ?s]"] s by simp
  have "length ?p = 0 \<or> ?p \<noteq> []" by simp
  then have "fst (MD5Final (add_weird ?p (length pw) (add_final (md5_rfc (?p @ ?s @ ?p)) (length pw)
      (MD5Update ?s (MD5Update ?m (MD5Update ?p (MD5Init ctx))))))) = crypt_digest ?p ?s"
    using MD5Final_repr [OF add_weird_repr [OF add_final_repr [OF length_md5_rfc b]], of ?p "length pw"]
    by (auto simp: crypt_digest_def magic_def)
  then show ?thesis unfolding libshadow_md5_crypt_def Let_def a by simp
qed

lemma length_itoa64: "length itoa64 = 64"
  by (simp add: itoa64_def)

lemma to64_text: "length (to64 v n) = n" "set (to64 v n) \<subseteq> set itoa64"
proof -
  have "unat (w AND 0x3f :: u64) < 64" for w using word_and_le1 [of w "0x3f"] by (simp add: word_le_nat_alt)
  then have "itoa64 ! unat (w AND 0x3f :: u64) \<in> set itoa64" for w
    by (intro nth_mem) (simp add: length_itoa64)
  then show "set (to64 v n) \<subseteq> set itoa64" by (induction n arbitrary: v) simp_all
  show "length (to64 v n) = n" by (induction n arbitrary: v) simp_all
qed

lemma final_text_shape: "length (final_text f) = 22 \<and> set (final_text f) \<subseteq> set itoa64"
  using to64_text by (simp add: final_text_def Let_def)


lemma ag_hash_sample: "final_text (crypt_digest (map byte_of ''secret'') (map byte_of (true_salt (ag_salt 1000)))) = ''IuCsHjbZR2dD2qk48qtkN1''"
  by code_simp


text \<open>The two encoders use the same alphabet.\<close>

lemma i64c_itoa64: "map i64c [0..63] = itoa64"
  by code_simp

end
