(* ===== verification/Stg_Settings.thy ===== *)
theory Stg_Settings
  imports Stg_Session Stg_Common
begin

text \<open>
  The settings of the server (\<open>settings_impl.cpp\<close>): the values \<open>ReadSettings\<close> takes from the parsed configuration file, one
  option after the other. The document the parser delivers, and what \<open>lstat\<close> says of the directory for monitoring, are
  parameters.
\<close>

subsection \<open>The document\<close>

text \<open>A node of the document: its name, its values and its children in their order. There is no name that is null.\<close>

datatype conf_node = ConfNode (cn_name: string) (cn_values: "string list") (cn_children: "conf_node list")

datatype param_tree = ParamValue string "string list" "param_tree list"

definition getValue :: "conf_node \<Rightarrow> nat \<Rightarrow> string option" where
  "getValue n i = (if i < length (cn_values n) then Some (cn_values n ! i) else None)"

text \<open>\<open>findNode\<close> below a node: the first child with the name, without regard to case.\<close>

definition findNode :: "string \<Rightarrow> conf_node \<Rightarrow> conf_node option" where
  "findNode name n = find (\<lambda>c. strcaseeq name (cn_name c)) (cn_children n)"

fun toPV :: "conf_node \<Rightarrow> param_tree" where
  "toPV (ConfNode name vs cs) = ParamValue name vs (map toPV cs)"

definition toPVS :: "conf_node \<Rightarrow> param_tree list" where
  "toPVS n = map toPV (cn_children n)"

subsection \<open>The settings\<close>

record settings_impl = settings +
  si_strError :: string
  si_modulesPath :: string
  si_dirName :: "string list"
  si_confDir :: string
  si_rules :: string
  si_logFile :: string
  si_pidFile :: string
  si_monitorDir :: string
  si_monitoring :: bool
  si_stgExecMsgKey :: int
  si_executersNum :: u32
  si_modulesSettings :: "(string \<times> param_tree list) list"
  si_storeModuleSettings :: "string \<times> param_tree list"

definition SettingsImpl :: "string \<Rightarrow> settings_impl" where
  "SettingsImpl cd = (let confDir = (if cd = [] then ''/etc/stargazer'' else cd) in
     \<lparr>s_scriptsDir = confDir, s_scriptParams = [], s_detailStatWritePeriod = 3, s_statWritePeriod = 10, s_fullFee = False,
      s_dayFee = 0, s_dayResetTraff = 0, s_spreadFee = False, s_freeMbAllowInet = False, s_dayFeeIsLastDay = False,
      s_stopOnError = True, s_writeFreeMbTraffCost = False, s_showFeeInCash = True, s_messageTimeout = 0, s_feeChargeType = 0,
      s_reconnectOnTariffChange = False, s_disableSessionLog = False, s_filterParamsLog = [''*''],
      si_strError = '''', si_modulesPath = ''/usr/lib/stg'', si_dirName = replicate DIR_NUM '''', si_confDir = confDir,
      si_rules = confDir @ ''/rules'', si_logFile = ''/var/log/stargazer.log'', si_pidFile = ''/var/run/stargazer.pid'',
      si_monitorDir = ''/var/stargazer/monitoring'', si_monitoring = False, si_stgExecMsgKey = 5555, si_executersNum = 1,
      si_modulesSettings = [], si_storeModuleSettings = ('''', [])\<rparr>)"

text \<open>The names of the periods are their positions in the enumeration.\<close>

definition toPeriod :: "string option \<Rightarrow> string + nat" where
  "toPeriod value = (case value of
     None \<Rightarrow> Inl ''No detail stat period value.''
   | Some period \<Rightarrow>
       if period = ''1'' then Inr 0 else if period = ''1/2'' then Inr 1 else if period = ''1/4'' then Inr 2
       else if period = ''1/6'' then Inr 3
       else Inl (''Invalid detail stat period value: '' @ squote period @ ''. Should be one of '' @ squote ''1'' @ '', ''
         @ squote ''1/2'' @ '', '' @ squote ''1/4'' @ '' or '' @ squote ''1/6'' @ ''.''))"

subsection \<open>One option\<close>

text \<open>What an option does with the settings; \<open>None\<close> where a string is made from a null pointer, for an option without a value.\<close>

type_synonym option_reader = "conf_node \<Rightarrow> int \<times> settings_impl \<Rightarrow> (int \<times> int \<times> settings_impl) option"

definition settings_fail :: "string \<Rightarrow> int \<times> settings_impl \<Rightarrow> (int \<times> int \<times> settings_impl) option" where
  "settings_fail msg = (\<lambda>(k, s). Some (- 1, k, s\<lparr>si_strError := msg\<rparr>))"

definition read_text_option :: "(string \<Rightarrow> settings_impl \<Rightarrow> settings_impl) \<Rightarrow> option_reader" where
  "read_text_option upd n = (\<lambda>(k, s). map_option (\<lambda>v. (0, k, upd v s)) (getValue n 0))"

definition read_unsigned :: "string \<Rightarrow> int \<Rightarrow> int \<Rightarrow> (settings_impl \<Rightarrow> u32) \<Rightarrow> (u32 \<Rightarrow> settings_impl \<Rightarrow> settings_impl) \<Rightarrow> option_reader" where
  "read_unsigned name mn mx get upd n = (\<lambda>(k, s). do {
     v \<leftarrow> getValue n 0;
     let (bad, x) = ParseUnsignedInRange v mn mx (uint (get s));
     let s = upd (word_of_int x) s;
     (if bad then settings_fail (''Incorrect '' @ name @ '' value: '' @ squote v) (k, s) else Some (0, k, s)) })"

definition read_yes_no :: "string \<Rightarrow> (settings_impl \<Rightarrow> bool) \<Rightarrow> (bool \<Rightarrow> settings_impl \<Rightarrow> settings_impl) \<Rightarrow> option_reader" where
  "read_yes_no name get upd n = (\<lambda>(k, s). do {
     v \<leftarrow> getValue n 0;
     let (bad, x) = ParseYesNo v (get s);
     (if bad then settings_fail (''Incorrect '' @ name @ '' value: '' @ squote v) (k, s) else Some (0, k, upd x s)) })"

definition read_period :: option_reader where
  "read_period n = (\<lambda>(k, s). case toPeriod (getValue n 0) of
     Inl msg \<Rightarrow> settings_fail msg (k, s)
   | Inr p \<Rightarrow> Some (0, k, s\<lparr>s_detailStatWritePeriod := p\<rparr>))"

definition read_ExecMsgKey :: option_reader where
  "read_ExecMsgKey n = (\<lambda>(k, s). do {
     v \<leftarrow> getValue n 0;
     let (bad, x) = ParseInt v (si_stgExecMsgKey s);
     let s = s\<lparr>si_stgExecMsgKey := x\<rparr>;
     (if bad then settings_fail (''Incorrect ExecMsgKey value: '' @ squote v) (k, s) else Some (0, k, s)) })"

definition read_MessageTimeout :: option_reader where
  "read_MessageTimeout n = (\<lambda>(k, s). do {
     v \<leftarrow> getValue n 0;
     let (bad, x) = ParseUnsigned v (uint (s_messageTimeout s));
     let s = s\<lparr>s_messageTimeout := word_of_int x\<rparr>;
     (if bad then settings_fail (''Incorrect MessageTimeout value: '' @ squote v) (k, s) else Some (0, k, s)) })"

text \<open>\<open>is_dir\<close> tells whether \<open>lstat\<close> finds a directory.\<close>

definition read_MonitorDir :: "(string \<Rightarrow> bool) \<Rightarrow> option_reader" where
  "read_MonitorDir is_dir n = (\<lambda>(k, s). map_option (\<lambda>v. (0, k, s\<lparr>si_monitorDir := v, si_monitoring := is_dir v\<rparr>)) (getValue n 0))"

definition read_DirNames :: option_reader where
  "read_DirNames n = (\<lambda>(k, s).
     if cn_children n = [] then Some (0, k, s)
     else Some (0, k, s\<lparr>si_dirName := fold (\<lambda>i names.
            case Option.bind (findNode (''DirName'' @ show_nat i) n) (\<lambda>c. getValue c 0) of
              None \<Rightarrow> names
            | Some v \<Rightarrow> names[i := v]) [0..<DIR_NUM] (si_dirName s)\<rparr>))"

definition read_StoreModule :: option_reader where
  "read_StoreModule n = (\<lambda>(k, s). case getValue n 1 of
     Some v \<Rightarrow> settings_fail (''Unexpected '' @ squote v @ ''.'') (k, s)
   | None \<Rightarrow>
       if k \<noteq> 0 then settings_fail ''Should be only one StoreModule.'' (k, s)
       else case getValue n 0 of
         None \<Rightarrow> settings_fail ''No module name in the StoreModule section.'' (k + 1, s)
       | Some v \<Rightarrow> Some (0, k + 1, s\<lparr>si_storeModuleSettings := (v, toPVS n)\<rparr>))"

fun read_modules :: "conf_node list \<Rightarrow> int \<times> settings_impl \<Rightarrow> (int \<times> int \<times> settings_impl) option" where
  "read_modules [] (k, s) = Some (0, k, s)"
| "read_modules (c # cs) (k, s) =
     (if \<not> strcaseeq (cn_name c) ''Module'' then read_modules cs (k, s)
      else case getValue c 0 of
        None \<Rightarrow> settings_fail ''No module name in the Module section.'' (k, s)
      | Some v \<Rightarrow> read_modules cs (k, s\<lparr>si_modulesSettings := si_modulesSettings s @ [(v, toPVS c)]\<rparr>))"

definition read_Modules :: option_reader where
  "read_Modules n st = (case getValue n 0 of
     Some v \<Rightarrow> settings_fail (''Unexpected '' @ squote v @ ''.'') st
   | None \<Rightarrow> read_modules (cn_children n) st)"

definition read_FilterParamsLog :: option_reader where
  "read_FilterParamsLog n = (\<lambda>(k, s). Some (0, k, s\<lparr>s_filterParamsLog := cn_values n\<rparr>))"

definition read_ScriptParams :: option_reader where
  "read_ScriptParams n = (\<lambda>(k, s). Some (0, k, s\<lparr>s_scriptParams := s_scriptParams s @ cn_values n\<rparr>))"

subsection \<open>Reading the file\<close>

text \<open>The options in the order of the code. Their names differ, so at most one applies to a node.\<close>

definition settings_options :: "(string \<Rightarrow> bool) \<Rightarrow> (string \<times> option_reader) list" where
  "settings_options is_dir =
     [(''ScriptDir'', read_text_option (\<lambda>v s. s\<lparr>s_scriptsDir := v\<rparr>)),
      (''LogFile'', read_text_option (\<lambda>v s. s\<lparr>si_logFile := v\<rparr>)),
      (''PIDFile'', read_text_option (\<lambda>v s. s\<lparr>si_pidFile := v\<rparr>)),
      (''ModulesPath'', read_text_option (\<lambda>v s. s\<lparr>si_modulesPath := v\<rparr>)),
      (''Rules'', read_text_option (\<lambda>v s. s\<lparr>si_rules := v\<rparr>)),
      (''DetailStatWritePeriod'', read_period),
      (''StatWritePeriod'', read_unsigned ''StatWritePeriod'' 1 1440 s_statWritePeriod (\<lambda>v s. s\<lparr>s_statWritePeriod := v\<rparr>)),
      (''ExecMsgKey'', read_ExecMsgKey),
      (''ExecutersNum'', read_unsigned ''ExecutersNum'' 1 1024 si_executersNum (\<lambda>v s. s\<lparr>si_executersNum := v\<rparr>)),
      (''DayFee'', read_unsigned ''DayFee'' 0 31 s_dayFee (\<lambda>v s. s\<lparr>s_dayFee := v\<rparr>)),
      (''FullFee'', read_yes_no ''FullFee'' s_fullFee (\<lambda>v s. s\<lparr>s_fullFee := v\<rparr>)),
      (''DayResetTraff'', read_unsigned ''DayResetTraff'' 0 31 s_dayResetTraff (\<lambda>v s. s\<lparr>s_dayResetTraff := v\<rparr>)),
      (''SpreadFee'', read_yes_no ''SpreadFee'' s_spreadFee (\<lambda>v s. s\<lparr>s_spreadFee := v\<rparr>)),
      (''FreeMbAllowInet'', read_yes_no ''FreeMbAllowInet'' s_freeMbAllowInet (\<lambda>v s. s\<lparr>s_freeMbAllowInet := v\<rparr>)),
      (''DayFeeIsLastDay'', read_yes_no ''DayFeeIsLastDay'' s_dayFeeIsLastDay (\<lambda>v s. s\<lparr>s_dayFeeIsLastDay := v\<rparr>)),
      (''StopOnError'', read_yes_no ''StopOnError'' s_stopOnError (\<lambda>v s. s\<lparr>s_stopOnError := v\<rparr>)),
      (''WriteFreeMbTraffCost'', read_yes_no ''WriteFreeMbTraffCost'' s_writeFreeMbTraffCost (\<lambda>v s. s\<lparr>s_writeFreeMbTraffCost := v\<rparr>)),
      (''ShowFeeInCash'', read_yes_no ''ShowFeeInCash'' s_showFeeInCash (\<lambda>v s. s\<lparr>s_showFeeInCash := v\<rparr>)),
      (''MonitorDir'', read_MonitorDir is_dir),
      (''MessageTimeout'', read_MessageTimeout),
      (''FeeChargeType'', read_unsigned ''FeeChargeType'' 0 3 s_feeChargeType (\<lambda>v s. s\<lparr>s_feeChargeType := v\<rparr>)),
      (''ReconnectOnTariffChange'', read_yes_no ''ReconnectOnTariffChange'' s_reconnectOnTariffChange (\<lambda>v s. s\<lparr>s_reconnectOnTariffChange := v\<rparr>)),
      (''DisableSessionLog'', read_yes_no ''DisableSessionLog'' s_disableSessionLog (\<lambda>v s. s\<lparr>s_disableSessionLog := v\<rparr>)),
      (''FilterParamsLog'', read_FilterParamsLog),
      (''DirNames'', read_DirNames),
      (''StoreModule'', read_StoreModule),
      (''Modules'', read_Modules),
      (''ScriptParams'', read_ScriptParams)]"

definition read_option :: "(string \<Rightarrow> bool) \<Rightarrow> option_reader" where
  "read_option is_dir n st = (case find (\<lambda>(name, _). strcaseeq (cn_name n) name) (settings_options is_dir) of
     None \<Rightarrow> Some (0, st)
   | Some (_, r) \<Rightarrow> r n st)"

fun read_nodes :: "(string \<Rightarrow> bool) \<Rightarrow> conf_node list \<Rightarrow> int \<times> settings_impl \<Rightarrow> (int \<times> int \<times> settings_impl) option" where
  "read_nodes is_dir [] st = Some (0, st)"
| "read_nodes is_dir (n # ns) st = do {
     (rc, st) \<leftarrow> read_option is_dir n st;
     (if rc \<noteq> 0 then Some (rc, st) else read_nodes is_dir ns st) }"

text \<open>\<open>doc\<close> is what the parser makes of the file, if it accepts it.\<close>

definition ReadSettings :: "(string \<Rightarrow> bool) \<Rightarrow> conf_node list option \<Rightarrow> settings_impl \<Rightarrow> (int \<times> settings_impl) option" where
  "ReadSettings is_dir doc s =
     (let s = s\<lparr>si_modulesSettings := []\<rparr>
      in case doc of
           None \<Rightarrow> Some (- 1, s\<lparr>si_strError := ''Cannot read file '' @ si_confDir s @ ''/stargazer.conf''\<rparr>)
         | Some nodes \<Rightarrow> map_option (\<lambda>(rc, _, s). (rc, s)) (read_nodes is_dir nodes (0, s)))"

text \<open>The hangup signal: the settings are read again into a copy, which replaces them if that succeeds.\<close>

definition reload_settings :: "(string \<Rightarrow> bool) \<Rightarrow> conf_node list option \<Rightarrow> settings_impl \<Rightarrow> settings_impl option" where
  "reload_settings is_dir doc s = map_option (\<lambda>(rc, s'). if rc \<noteq> 0 then s else s') (ReadSettings is_dir doc s)"

subsection \<open>The values that are accepted\<close>

definition settings_ok :: "settings_impl \<Rightarrow> bool" where
  "settings_ok s \<longleftrightarrow> 1 \<le> uint (s_statWritePeriod s) \<and> uint (s_statWritePeriod s) \<le> 1440 \<and> s_detailStatWritePeriod s \<le> 3
     \<and> uint (s_dayFee s) \<le> 31 \<and> uint (s_dayResetTraff s) \<le> 31 \<and> uint (s_feeChargeType s) \<le> 3
     \<and> 1 \<le> uint (si_executersNum s) \<and> uint (si_executersNum s) \<le> 1024 \<and> length (si_dirName s) = DIR_NUM"

definition reader_ok :: "option_reader \<Rightarrow> bool" where
  "reader_ok r \<longleftrightarrow> (\<forall>n k s k' s'. r n (k, s) = Some (0, k', s') \<longrightarrow> settings_ok s \<longrightarrow> settings_ok s')"

lemma ParseUnsignedInRange_bounds:
  "\<not> fst (ParseUnsignedInRange v mn mx x) \<Longrightarrow> mn \<le> snd (ParseUnsignedInRange v mn mx x) \<and> snd (ParseUnsignedInRange v mn mx x) \<le> mx"
  by (auto simp: ParseUnsignedInRange_def case_prod_beta split: if_splits)

lemmas reader_simps = reader_ok_def settings_fail_def bind_eq_Some_conv Let_def case_prod_beta

lemma reader_ok_text: "(\<And>v s. settings_ok (upd v s) = settings_ok s) \<Longrightarrow> reader_ok (read_text_option upd)"
  by (auto simp: reader_simps read_text_option_def)

lemma reader_ok_yes_no: "(\<And>v s. settings_ok (upd v s) = settings_ok s) \<Longrightarrow> reader_ok (read_yes_no name get upd)"
  by (auto simp: reader_simps read_yes_no_def split: if_splits)

lemma reader_ok_unsigned:
  assumes "\<And>v s. settings_ok s \<Longrightarrow> mn \<le> uint v \<Longrightarrow> uint v \<le> mx \<Longrightarrow> settings_ok (upd v s)" and "0 \<le> mn" and "mx < 2 ^ 32"
  shows "reader_ok (read_unsigned name mn mx get upd)"
  unfolding reader_ok_def
proof (intro allI impI)
  fix n k s k' s' assume "read_unsigned name mn mx get upd n (k, s) = Some (0, k', s')" and s: "settings_ok s"
  then obtain v where v: "\<not> fst (ParseUnsignedInRange v mn mx (uint (get s)))" "s' = upd (word_of_int (snd (ParseUnsignedInRange v mn mx (uint (get s))))) s"
    by (auto simp: reader_simps read_unsigned_def split: if_splits)
  define x where "x = snd (ParseUnsignedInRange v mn mx (uint (get s)))"
  have "mn \<le> x" "x \<le> mx" using ParseUnsignedInRange_bounds [OF v(1)] by (simp_all add: x_def)
  moreover from this have "uint (word_of_int x :: u32) = x" using assms(2,3) by (simp add: uint_word_of_int_eq take_bit_int_eq_self)
  ultimately show "settings_ok s'" using assms(1) [OF s, of "word_of_int x"] v(2) by (simp add: x_def)
qed

lemma settings_ok_frame [simp]:
  "settings_ok (s\<lparr>s_scriptsDir := v\<rparr>) = settings_ok s" "settings_ok (s\<lparr>si_logFile := v\<rparr>) = settings_ok s" "settings_ok (s\<lparr>si_pidFile := v\<rparr>) = settings_ok s"
  "settings_ok (s\<lparr>si_modulesPath := v\<rparr>) = settings_ok s" "settings_ok (s\<lparr>si_rules := v\<rparr>) = settings_ok s"
  "settings_ok (s\<lparr>si_stgExecMsgKey := i\<rparr>) = settings_ok s" "settings_ok (s\<lparr>s_fullFee := b\<rparr>) = settings_ok s" "settings_ok (s\<lparr>s_spreadFee := b\<rparr>) = settings_ok s"
  "settings_ok (s\<lparr>s_freeMbAllowInet := b\<rparr>) = settings_ok s" "settings_ok (s\<lparr>s_dayFeeIsLastDay := b\<rparr>) = settings_ok s"
  "settings_ok (s\<lparr>s_stopOnError := b\<rparr>) = settings_ok s" "settings_ok (s\<lparr>s_writeFreeMbTraffCost := b\<rparr>) = settings_ok s"
  "settings_ok (s\<lparr>s_showFeeInCash := b\<rparr>) = settings_ok s" "settings_ok (s\<lparr>s_reconnectOnTariffChange := b\<rparr>) = settings_ok s"
  "settings_ok (s\<lparr>s_disableSessionLog := b\<rparr>) = settings_ok s" "settings_ok (s\<lparr>s_filterParamsLog := l\<rparr>) = settings_ok s"
  "settings_ok (s\<lparr>s_scriptParams := l\<rparr>) = settings_ok s" "settings_ok (s\<lparr>si_monitorDir := v, si_monitoring := b\<rparr>) = settings_ok s"
  "settings_ok (s\<lparr>s_messageTimeout := w\<rparr>) = settings_ok s" "settings_ok (s\<lparr>si_storeModuleSettings := m\<rparr>) = settings_ok s"
  "settings_ok (s\<lparr>si_modulesSettings := ms\<rparr>) = settings_ok s" "settings_ok (s\<lparr>si_strError := v\<rparr>) = settings_ok s"
  by (simp_all add: settings_ok_def)

lemma reader_ok_others: "reader_ok read_period" "reader_ok read_ExecMsgKey" "reader_ok (read_MonitorDir is_dir)" "reader_ok read_MessageTimeout"
  "reader_ok read_FilterParamsLog" "reader_ok read_StoreModule" "reader_ok read_ScriptParams"
proof -
  have "toPeriod v = Inr p \<Longrightarrow> p \<le> 3" for v p by (auto simp: toPeriod_def split: option.splits if_splits)
  then show "reader_ok read_period" by (auto simp: reader_simps read_period_def settings_ok_def split: sum.splits)
  show "reader_ok read_ExecMsgKey" by (auto simp: reader_simps read_ExecMsgKey_def split: if_splits)
  show "reader_ok (read_MonitorDir is_dir)" by (auto simp: reader_simps read_MonitorDir_def)
  show "reader_ok read_MessageTimeout" by (auto simp: reader_simps read_MessageTimeout_def split: if_splits)
  show "reader_ok read_FilterParamsLog" by (auto simp: reader_simps read_FilterParamsLog_def)
  show "reader_ok read_StoreModule" by (auto simp: reader_simps read_StoreModule_def split: option.splits if_splits)
  show "reader_ok read_ScriptParams" by (auto simp: reader_simps read_ScriptParams_def)
qed

lemma reader_ok_Modules: "reader_ok read_Modules"
proof -
  have "settings_ok s \<Longrightarrow> settings_ok s'" if "read_modules cs (k, s) = Some (0, k', s')" for cs k s k' s'
    using that by (induction cs "(k, s)" arbitrary: s rule: read_modules.induct) (auto simp: settings_fail_def split: if_splits option.splits)
  then show ?thesis by (auto simp: reader_ok_def read_Modules_def settings_fail_def split: option.splits)
qed

lemma reader_ok_DirNames: "reader_ok read_DirNames"
proof -
  have "length (fold (\<lambda>i names. case f i of None \<Rightarrow> names | Some v \<Rightarrow> names[i := v]) is xs) = length xs" for f :: "nat \<Rightarrow> string option" and "is" xs
    by (induction "is" arbitrary: xs) (auto split: option.split)
  then show ?thesis by (auto simp: reader_ok_def read_DirNames_def settings_ok_def split: if_splits)
qed

lemma readers_ok: "(name, r) \<in> set (settings_options is_dir) \<Longrightarrow> reader_ok r"
  unfolding settings_options_def
  by (auto simp: reader_ok_others reader_ok_Modules reader_ok_DirNames intro!: reader_ok_text reader_ok_yes_no reader_ok_unsigned)
    (auto simp: settings_ok_def)


lemma read_option_ok: "reader_ok (read_option is_dir)"
  using readers_ok by (fastforce simp: reader_ok_def read_option_def find_Some_iff in_set_conv_nth split: option.splits)

lemma read_nodes_ok:
  assumes "read_nodes is_dir ns (k, s) = Some (0, k', s')" and "settings_ok s"
  shows "settings_ok s'"
  using assms
proof (induction ns arbitrary: k s)
  case (Cons n ns)
  then obtain k1 s1 where r: "read_option is_dir n (k, s) = Some (0, k1, s1)" "read_nodes is_dir ns (k1, s1) = Some (0, k', s')"
    by (auto simp: bind_eq_Some_conv split: if_splits)
  have "settings_ok s1" using read_option_ok r(1) Cons.prems(2) unfolding reader_ok_def by blast
  then show ?case using Cons.IH [OF r(2)] by simp
qed simp

lemma ReadSettings_ok: "ReadSettings is_dir doc s = Some (0, s') \<Longrightarrow> settings_ok s \<Longrightarrow> settings_ok s'"
proof -
  assume r: "ReadSettings is_dir doc s = Some (0, s')" and s: "settings_ok s"
  from r obtain nodes k' where "read_nodes is_dir nodes (0, s\<lparr>si_modulesSettings := []\<rparr>) = Some (0, k', s')"
    by (auto simp: ReadSettings_def Let_def split: option.splits)
  from read_nodes_ok [OF this] s show "settings_ok s'" by simp
qed

lemma SettingsImpl_ok: "settings_ok (SettingsImpl cd)"
  by (simp add: settings_ok_def SettingsImpl_def Let_def)

text \<open>The settings the server runs with: read at the start, and again at every hangup signal.\<close>

inductive settings_reach :: "(string \<Rightarrow> bool) \<Rightarrow> settings_impl \<Rightarrow> bool" for is_dir where
  settings_start: "ReadSettings is_dir doc (SettingsImpl cd) = Some (0, s) \<Longrightarrow> settings_reach is_dir s"
| settings_hangup: "settings_reach is_dir s \<Longrightarrow> reload_settings is_dir doc s = Some s' \<Longrightarrow> settings_reach is_dir s'"

text \<open>C27. Whatever configuration files the server reads, at its start and at every hangup signal, the settings it runs with have
  their periods, days, numbers of processes and fee types in their ranges, and a user object can always be made with them:
  the period by which its constructor divides is not zero.\<close>

theorem settings_typed:
  assumes "settings_reach is_dir s"
  shows "settings_ok s \<and> (\<exists>u. UserImpl (E\<lparr>e_set := settings.truncate s\<rparr>) dirs tr = Some u)"
proof -
  have ok: "settings_ok s"
    using assms
  proof (induction rule: settings_reach.induct)
    case (settings_start doc cd s)
    then show ?case using ReadSettings_ok SettingsImpl_ok by blast
  next
    case (settings_hangup s doc s')
    then show ?case using ReadSettings_ok by (auto simp: reload_settings_def split: if_splits)
  qed
  have "uint (s_statWritePeriod s * 60) = uint (s_statWritePeriod s) * 60"
    using ok by (simp add: settings_ok_def uint_word_ariths)
  then have "GetStatWritePeriod (settings.truncate s) \<noteq> 0" using ok by (simp add: GetStatWritePeriod_def settings_ok_def settings.defs)
  then show ?thesis using ok by (auto simp: UserImpl_def Let_def)
qed

theorem settings_typed_witness:
  "settings_ok (SettingsImpl [])
   \<and> (\<forall>E dirs tr. \<exists>u. UserImpl (E\<lparr>e_set := settings.truncate (SettingsImpl [])\<rparr>) dirs tr = Some u)"
proof -
  have "ReadSettings (\<lambda>_. True) (Some []) (SettingsImpl []) = Some (0, SettingsImpl [])"
    by (simp add: ReadSettings_def SettingsImpl_def Let_def)
  from settings_typed [OF settings_start [OF this]] show ?thesis by blast
qed

text \<open>Every option but \<open>ScriptParams\<close>, where it is accepted, keeps the parameters of the scripts.\<close>

definition keeps_params :: "option_reader \<Rightarrow> bool" where
  "keeps_params r \<longleftrightarrow> (\<forall>n k s k' s'. r n (k, s) = Some (0, k', s') \<longrightarrow> s_scriptParams s' = s_scriptParams s)"

lemma keeps_params_text: "(\<And>v s. s_scriptParams (upd v s) = s_scriptParams s) \<Longrightarrow> keeps_params (read_text_option upd)"
  by (auto simp: keeps_params_def read_text_option_def)

lemma keeps_params_yes_no: "(\<And>v s. s_scriptParams (upd v s) = s_scriptParams s) \<Longrightarrow> keeps_params (read_yes_no name get upd)"
  by (auto simp: keeps_params_def reader_simps read_yes_no_def split: if_splits)

lemma keeps_params_unsigned: "(\<And>v s. s_scriptParams (upd v s) = s_scriptParams s) \<Longrightarrow> keeps_params (read_unsigned name mn mx get upd)"
  by (auto simp: keeps_params_def reader_simps read_unsigned_def split: if_splits)

lemma keeps_params_others:
  "keeps_params read_period" "keeps_params read_ExecMsgKey" "keeps_params (read_MonitorDir is_dir)" "keeps_params read_MessageTimeout"
  "keeps_params read_FilterParamsLog" "keeps_params read_StoreModule" "keeps_params read_DirNames"
proof -
  show "keeps_params read_period" by (auto simp: keeps_params_def settings_fail_def read_period_def split: sum.splits)
  show "keeps_params read_ExecMsgKey" by (auto simp: keeps_params_def reader_simps read_ExecMsgKey_def split: if_splits)
  show "keeps_params (read_MonitorDir is_dir)" by (auto simp: keeps_params_def read_MonitorDir_def)
  show "keeps_params read_MessageTimeout" by (auto simp: keeps_params_def reader_simps read_MessageTimeout_def split: if_splits)
  show "keeps_params read_FilterParamsLog" by (auto simp: keeps_params_def read_FilterParamsLog_def)
  show "keeps_params read_StoreModule" by (auto simp: keeps_params_def settings_fail_def read_StoreModule_def split: option.splits if_splits)
  show "keeps_params read_DirNames" by (auto simp: keeps_params_def read_DirNames_def split: if_splits)
qed

lemma keeps_params_Modules: "keeps_params read_Modules"
proof -
  have "s_scriptParams s' = s_scriptParams s" if "read_modules cs (k, s) = Some (0, k', s')" for cs k s k' s'
    using that by (induction cs "(k, s)" arbitrary: s rule: read_modules.induct) (auto simp: settings_fail_def split: if_splits option.splits)
  then show ?thesis by (auto simp: keeps_params_def read_Modules_def settings_fail_def split: option.splits)
qed

lemma keeps_params_options: "(name, r) \<in> set (settings_options is_dir) \<Longrightarrow> name \<noteq> ''ScriptParams'' \<Longrightarrow> keeps_params r"
  unfolding settings_options_def
  by (auto simp: keeps_params_others keeps_params_Modules intro!: keeps_params_text keeps_params_yes_no keeps_params_unsigned)
definition file_script_params :: "conf_node list \<Rightarrow> string list" where
  "file_script_params nodes = concat (map cn_values (filter (\<lambda>n. strcaseeq (cn_name n) ''ScriptParams'') nodes))"

lemma read_option_params:
  assumes "read_option is_dir n (k, s) = Some (0, k', s')"
  shows "s_scriptParams s' = s_scriptParams s @ (if strcaseeq (cn_name n) ''ScriptParams'' then cn_values n else [])"
proof (cases "strcaseeq (cn_name n) ''ScriptParams''")
  case True
  then have "find (\<lambda>(name, _). strcaseeq (cn_name n) name) (settings_options is_dir) = Some (''ScriptParams'', read_ScriptParams)"
    by (simp add: settings_options_def strcaseeq_def tolower_c_def)
  with assms True show ?thesis by (auto simp: read_option_def read_ScriptParams_def)
next
  case False
  show ?thesis
  proof (cases "find (\<lambda>(name, _). strcaseeq (cn_name n) name) (settings_options is_dir)")
    case None
    with assms False show ?thesis by (simp add: read_option_def)
  next
    case (Some p)
    then have p: "p \<in> set (settings_options is_dir)" "strcaseeq (cn_name n) (fst p)" by (auto simp: find_Some_iff case_prod_beta)
    moreover have "fst p \<noteq> ''ScriptParams''" using p(2) False by auto
    ultimately have "keeps_params (snd p)" using keeps_params_options [of "fst p" "snd p" is_dir] by simp
    with assms False Some show ?thesis by (auto simp: read_option_def keeps_params_def case_prod_beta)
  qed
qed

lemma read_nodes_params:
  assumes "read_nodes is_dir ns (k, s) = Some (0, k', s')"
  shows "s_scriptParams s' = s_scriptParams s @ file_script_params ns"
  using assms
proof (induction ns arbitrary: k s)
  case (Cons n ns)
  then obtain k1 s1 where r: "read_option is_dir n (k, s) = Some (0, k1, s1)" "read_nodes is_dir ns (k1, s1) = Some (0, k', s')"
    by (auto simp: bind_eq_Some_conv split: if_splits)
  show ?case using read_option_params [OF r(1)] Cons.IH [OF r(2)] by (simp add: file_script_params_def)
qed (simp add: file_script_params_def)

definition reload_accepted :: "(string \<Rightarrow> bool) \<Rightarrow> conf_node list \<Rightarrow> settings_impl \<Rightarrow> settings_impl option" where
  "reload_accepted is_dir nodes s = (case ReadSettings is_dir (Some nodes) s of
     Some (rc, _) \<Rightarrow> if rc = 0 then reload_settings is_dir (Some nodes) s else None
   | None \<Rightarrow> None)"

lemma reload_accepted_reads: "reload_accepted is_dir nodes s = Some s' \<Longrightarrow> ReadSettings is_dir (Some nodes) s = Some (0, s')"
  by (auto simp: reload_accepted_def reload_settings_def split: option.splits if_splits)

lemma concat_replicate_snoc: "concat (replicate (Suc (Suc k)) xs) = concat (replicate (Suc k) xs) @ xs"
  by (induction k) simp_all

text \<open>C35. The parameters of the scripts are never cleared: a hangup signal adds those of the file to the ones the server has, so
  that reading the same file \<open>k\<close> times more leaves it with \<open>k + 1\<close> copies of them.\<close>

theorem reload_repeats_params:
  assumes "ReadSettings is_dir (Some nodes) (SettingsImpl cd) = Some (0, s)"
    and "((\<lambda>st. Option.bind st (reload_accepted is_dir nodes)) ^^ k) (Some s) = Some s'"
  shows "s_scriptParams s' = concat (replicate (Suc k) (file_script_params nodes))"
proof -
  have 1: "s_scriptParams s2 = s_scriptParams s1 @ file_script_params nodes" if "ReadSettings is_dir (Some nodes) s1 = Some (0, s2)" for s1 s2
    using that read_nodes_params [of is_dir nodes 0 "s1\<lparr>si_modulesSettings := []\<rparr>" _ s2] by (auto simp: ReadSettings_def Let_def)
  show ?thesis
    using assms(2)
  proof (induction k arbitrary: s')
    case 0
    then show ?case using 1 [OF assms(1)] by (simp add: SettingsImpl_def Let_def)
  next
    case (Suc k)
    then obtain s1 where s1: "((\<lambda>st. Option.bind st (reload_accepted is_dir nodes)) ^^ k) (Some s) = Some s1" "ReadSettings is_dir (Some nodes) s1 = Some (0, s')"
      using reload_accepted_reads by (auto simp: bind_eq_Some_conv)
    show ?case using Suc.IH [OF s1(1)] 1 [OF s1(2)] by (simp only: concat_replicate_snoc)
  qed
qed

theorem reload_repeats_params_witness:
  "reload_accepted (\<lambda>_. False) [ConfNode ''ScriptParams'' [''phone''] []]
     (SettingsImpl []\<lparr>s_scriptParams := [''phone'']\<rparr>) = Some (SettingsImpl []\<lparr>s_scriptParams := [''phone'', ''phone'']\<rparr>)
   \<and> s_scriptParams (SettingsImpl []\<lparr>s_scriptParams := [''phone'', ''phone'']\<rparr>)
     = concat (replicate (Suc 1) (file_script_params [ConfNode ''ScriptParams'' [''phone''] []]))"
proof -
  let ?n = "[ConfNode ''ScriptParams'' [''phone''] []]"
  have r: "read_option (\<lambda>_. False) (ConfNode ''ScriptParams'' [''phone''] []) (0, s) = Some (0, 0, s\<lparr>s_scriptParams := s_scriptParams s @ [''phone'']\<rparr>)" for s
    by (simp add: read_option_def settings_options_def strcaseeq_def tolower_c_def read_ScriptParams_def)
  have m: "si_modulesSettings (SettingsImpl []) = []" "s_scriptParams (SettingsImpl []) = []"
    by (simp_all add: SettingsImpl_def Let_def)
  have 1: "ReadSettings (\<lambda>_. False) (Some ?n) (SettingsImpl []) = Some (0, SettingsImpl []\<lparr>s_scriptParams := [''phone'']\<rparr>)"
    by (simp add: ReadSettings_def Let_def r m)
  have 2: "reload_accepted (\<lambda>_. False) ?n (SettingsImpl []\<lparr>s_scriptParams := [''phone'']\<rparr>)
      = Some (SettingsImpl []\<lparr>s_scriptParams := [''phone'', ''phone'']\<rparr>)"
    by (simp add: reload_accepted_def reload_settings_def ReadSettings_def Let_def r m)
  show ?thesis using reload_repeats_params [OF 1, of 1] 2 by simp
qed

end
