(* ===== verification/Spec2Isabelle.thy ===== *)
theory Spec2Isabelle
  imports Stg_BFStream Stg_IAThms Stg_FSThms Stg_AO Stg_AGHash Stg_Settings
begin

text \<open>
  Stargazer, a billing server for local networks: a model of the server's core with its correctness.

  \<^bold>\<open>The program.\<close> The server (\<open>src/projects/stargazer\<close>) keeps registries of administrators, services,
  corporations, tariffs and users. Authorizer plugins log users in and out, the traffic counter
  attributes packets to users, and the main loop charges fees, switches tariffs and saves statistics through a
  store plugin. Two authorizers are modelled: InetAccess, which serves clients of the library \<open>src/libs/ia\<close> over an
  encrypted datagram protocol, and the one for users who are always online. One store is modelled, the one that
  keeps everything in text files. Shared data structures are in \<open>src/include/stg\<close>, helpers in \<open>src/libs/common\<close>.

  \<^bold>\<open>The theories.\<close>
  \<^item> \<open>Stg_Prelude\<close>: machine integers, C strings and list helpers.
  \<^item> \<open>Stg_Double\<close>: IEEE binary64 on rationals, rounding to nearest with ties to even (locale \<open>rounding\<close>).
    Subnormal numbers are included (the least exponent is -1074); overflow to infinity, values that are not numbers and the
    sign of zero are left out.
  \<^item> \<open>Stg_Tariff\<close>: \<open>tariff.h\<close>, \<open>tariff_conf.h\<close>, \<open>tariff_impl.cpp\<close>.
  \<^item> \<open>Stg_Text\<close>: formatting of numbers and the helpers of \<open>common.cpp\<close>.
  \<^item> \<open>Stg_UserIPs\<close>: \<open>user_ips.h\<close>; \<open>inet_addr\<close> of the C library is a parameter.
  \<^item> \<open>Stg_Conf\<close>: the structures of \<open>user_stat.h\<close>, \<open>user_conf.h\<close>, \<open>message.h\<close>, \<open>admin_conf.h\<close>, \<open>service_conf.h\<close> and
    \<open>corp_conf.h\<close>.
  \<^item> \<open>Stg_World\<close>: the trace of log lines, store calls, script calls and notifications; the store as a
    parameter whose answers may depend on the history; the locales \<open>registry\<close> and \<open>search\<close>.
  \<^item> \<open>Stg_Admins\<close>, \<open>Stg_Services\<close>, \<open>Stg_Corps\<close>, \<open>Stg_Tariffs\<close>: the four registries
    (\<open>admins_impl.cpp\<close>, \<open>services_impl.cpp\<close>, \<open>corps_impl.cpp\<close>, \<open>tariffs_impl.cpp\<close>), each interpreting
    \<open>registry\<close>, and \<open>search\<close> where it has search descriptors.
  \<^item> \<open>Stg_User\<close>, \<open>Stg_Billing\<close>: \<open>user_impl.cpp\<close> and \<open>user_property.h\<close>, state and operations.
  \<^item> \<open>Stg_Session\<close>: the invariant of a user and its preservation by every operation;
    \<open>Stg_UserLife\<close>, \<open>Stg_Money\<close>: what the operations achieve.
  \<^item> \<open>Stg_Frame\<close>: which operations of a user leave identity, login and deletion mark alone.
  \<^item> \<open>Stg_Users\<close>, \<open>Stg_UsersInv\<close>, \<open>Stg_UsersLife\<close>: \<open>users_impl.cpp\<close>, the list of users with its two
    indexes, deferred deletion and searches; the invariant of the indexes over all sequences of operations.
  \<^item> \<open>Stg_Packet\<close>, \<open>Stg_Rules\<close>: \<open>raw_ip_packet.h\<close> and the rules of \<open>traffcounter_impl.cpp\<close> (file format,
    addresses, first match); ordered maps with the locale \<open>keyed_order\<close>.
  \<^item> \<open>Stg_TraffCounter\<close>, \<open>Stg_Traffic\<close>, \<open>Stg_Flow\<close>: the packet cache of \<open>traffcounter_impl.cpp\<close> with the queue of
    \<open>async_pool.h\<close>; its invariant, and the conservation of bytes on their way from packets to users.

  \<^item> \<open>Stg_Bytes\<close>, \<open>Stg_Blowfish\<close>, \<open>Stg_BFStream\<close>: \<open>libs/crypto/blowfish.c\<close> and \<open>bfstream.cpp\<close> on lists of bytes; decryption
    undoes encryption for every key, also when the streams get their data in pieces (locale \<open>block_stream\<close>).
  \<^item> \<open>Stg_MD5\<close>, \<open>Stg_AGHash\<close>: \<open>libs/crypto/ag_md5.c\<close>; the incremental digest equals a definition after RFC 1321, and the
    password hash a reference that has no buffers.
  \<^item> \<open>Stg_Common\<close>, \<open>Stg_Koi\<close>: further helpers of \<open>libs/common\<close>, and the conversion between Cyrillic character sets.
  \<^item> \<open>Stg_Settings\<close>: \<open>settings_impl.cpp\<close>; the ranges of the settings after any number of reloads.
  \<^item> \<open>Stg_IAData\<close>, \<open>Stg_InetAccess\<close>: \<open>utime.h\<close>, \<open>ia_packets.h\<close> and \<open>plugins/authorization/inetaccess\<close>, packets as bytes.
    \<open>Stg_IAInv\<close>, \<open>Stg_IALife\<close>: its invariant, and that its authorized clients are authorized users;
    \<open>Stg_IASafety\<close>, \<open>Stg_IATimeout\<close>: which packets change an authorization, and what silence leads to.
  \<^item> \<open>Stg_IAClient\<close>, \<open>Stg_IAWire\<close>, \<open>Stg_IAThms\<close>: the client of \<open>libs/ia/ia.cpp\<close>, both sides connected, the handshake, and
    the errors of the protocol.
  \<^item> \<open>Stg_AO\<close>: \<open>plugins/authorization/ao\<close> on top of the registry of users; authorizations follow the flag and the addresses.
  \<^item> \<open>Stg_Files\<close>: paths, directories, files with their modes, and the system calls the store makes.
    \<open>Stg_ConfFile\<close>, \<open>Stg_ConfNum\<close>: \<open>libs/conffiles\<close>, and numbers printed and read back.
  \<^item> \<open>Stg_FileStore\<close>, \<open>Stg_FSRecords\<close>, \<open>Stg_FSLogs\<close>: \<open>plugins/store/files/file_store.cpp\<close>: settings and directories; users,
    administrators, tariffs and services; logs, statistics and messages.
    \<open>Stg_FSSave\<close>, \<open>Stg_FSRound\<close>, \<open>Stg_FSAdmin\<close>, \<open>Stg_FSTariff\<close>, \<open>Stg_FSMessages\<close>: what is saved is restored;
    \<open>Stg_FSLoss\<close>: what is not; \<open>Stg_FSThms\<close>: the properties and an example installation.

  \<^bold>\<open>Conventions.\<close> A method is a function from the state record to its result and the new state. A method
  of a user returns an option: \<open>None\<close> stands for a call that does not return, because it locks a mutex its
  thread already holds (when the parameter \<open>e_relock_blocks\<close> says that blocks; the C++ standard leaves it
  undefined) or because its behaviour is undefined. Values the code takes from outside (time, random numbers,
  settings, other registries, what the store returns) are fields of the record \<open>env\<close>. Pointers to
  tariffs are indices into the vector of tariffs. Loops are structural or have a
  termination proof. The loops over a search (\<open>TraffCounter_Start\<close>, \<open>GetUsers\<close>) are bounded by the length of the list of
  users, which is enough because a search delivers every live user once and then ends (locale \<open>search\<close>).

  \<^bold>\<open>Parameters.\<close> Besides \<open>env\<close>: \<open>ia_env\<close> (sockets, clock, random numbers of the InetAccess plugin), \<open>client_env\<close> (clock,
  resolver and socket of a client), \<open>os_env\<close> (permissions, clock, identity of the process, how much of a text reaches the
  disk), \<open>inet_addr\<close>, and the document the dotconf parser makes of the server's configuration file.

  \<^bold>\<open>Not modelled.\<close> Threads (each method, and each turn of a loop of a thread, is one step), process start and the loading of
  plugins, the database stores (texts of SQL for servers outside the repository), the configuration server and the
  XML-RPC plugin (XML of a library outside the repository), the capture plugins, SNMP, RADIUS, ping and remote script plugins,
  the dotconf and Firebird libraries kept in the tree, and the client tools.
\<close>

end
